(* ===== verification/Floe_Prelude.thy ===== *)
theory Floe_Prelude
  imports Complex_Main "HOL-Library.Char_ord" "HOL-Library.List_Lexorder" "HOL-Library.Sublist"
    "HOL-Library.Multiset"
begin

text \<open>
  Shared vocabulary of the development: results of fallible code, the JavaScript string, set and
  sort operations the sources use, timestamps, relational tables, and a worklist search. Every
  component theory imports this one.

  Strings are \<^typ>\<open>string\<close>, read as sequences of code points U+0000 to U+00FF. On this range the
  order of UTF-16 code units (JavaScript's default \<^verbatim>\<open>sort\<close>), the order of UTF-8 bytes (SQLite's
  BINARY collation) and the lexicographic order of \<^verbatim>\<open>List_Lexorder\<close> coincide.
\<close>

section \<open>Results\<close>

text \<open>A throwing function returns \<open>Inl e\<close> for the exception it throws and \<open>Inr v\<close> for its value.\<close>

type_synonym ('e, 'a) result = "'e + 'a"

named_theorems result_simps \<open>rules that open a successful or failed composition of results\<close>

definition rbind :: "('e, 'a) result \<Rightarrow> ('a \<Rightarrow> ('e, 'b) result) \<Rightarrow> ('e, 'b) result" where
  "rbind m k = (case m of Inl e \<Rightarrow> Inl e | Inr x \<Rightarrow> k x)"

definition throw_if :: "bool \<Rightarrow> 'e \<Rightarrow> ('e, 'a) result \<Rightarrow> ('e, 'a) result" where
  "throw_if b e k = (if b then Inl e else k)"

primrec rmapM :: "('a \<Rightarrow> ('e, 'b) result) \<Rightarrow> 'a list \<Rightarrow> ('e, 'b list) result" where
  "rmapM f [] = Inr []"
| "rmapM f (x # xs) = rbind (f x) (\<lambda>y. rbind (rmapM f xs) (\<lambda>ys. Inr (y # ys)))"

lemma rbind_simps [simp]: "rbind (Inl e) k = Inl e" "rbind (Inr x) k = k x"
  by (simp_all add: rbind_def)

lemma rbind_Inr_iff [result_simps]: "rbind m k = Inr y \<longleftrightarrow> (\<exists>x. m = Inr x \<and> k x = Inr y)"
  by (cases m) simp_all

lemma rbind_Inl_iff: "rbind m k = Inl e \<longleftrightarrow> m = Inl e \<or> (\<exists>x. m = Inr x \<and> k x = Inl e)"
  by (cases m) simp_all

lemma returns_projr: "\<not> isl m \<Longrightarrow> m = Inr (projr m)"
  by simp

lemma throw_if_simps [simp]: "throw_if True e k = Inl e" "throw_if False e k = k"
  by (simp_all add: throw_if_def)

lemma throw_if_Inr_iff [result_simps]: "throw_if b e k = Inr y \<longleftrightarrow> \<not> b \<and> k = Inr y"
  by (simp add: throw_if_def)

lemma throw_if_Inl_iff: "throw_if b e k = Inl e' \<longleftrightarrow> b \<and> e' = e \<or> \<not> b \<and> k = Inl e'"
  by (auto simp: throw_if_def)

lemma rbind_InrE:
  assumes "rbind m k = Inr y" obtains x where "m = Inr x" "k x = Inr y"
  using assms by (auto simp: rbind_Inr_iff)

lemma throw_if_InrE:
  assumes "throw_if b e k = Inr y" obtains "\<not> b" "k = Inr y"
  using assms by (auto simp: throw_if_Inr_iff)

lemma rmapM_Inr_iff:
  "rmapM f xs = Inr ys \<longleftrightarrow> list_all2 (\<lambda>x y. f x = Inr y) xs ys"
  by (induction xs arbitrary: ys) (auto simp: result_simps list_all2_Cons1)

lemma rmapM_Inr_mem: "rmapM f xs = Inr ys \<Longrightarrow> y \<in> set ys \<Longrightarrow> \<exists>x \<in> set xs. f x = Inr y"
  by (induction xs arbitrary: ys) (auto simp: result_simps)

lemma rmapM_Inr_map: "(\<And>x. x \<in> set xs \<Longrightarrow> f x = Inr (g x)) \<Longrightarrow> rmapM f xs = Inr (map g xs)"
  by (induction xs) simp_all

lemma rmapM_Inl_cong:
  "(\<And>x. x \<in> set xs \<Longrightarrow> f x = g x) \<Longrightarrow> rmapM f xs = rmapM g xs"
  by (induction xs) simp_all

section \<open>Strings\<close>

text \<open>
  \<^verbatim>\<open>String.prototype.trim\<close> removes white space and line terminators at both ends: on the modelled
  range these are U+0009 to U+000D, U+0020 and U+00A0.
\<close>

definition is_js_space :: "char \<Rightarrow> bool" where
  "is_js_space c = (let n = of_char c :: nat in (9 \<le> n \<and> n \<le> 13) \<or> n = 32 \<or> n = 160)"

definition js_trim :: "string \<Rightarrow> string" where
  "js_trim s = rev (dropWhile is_js_space (rev (dropWhile is_js_space s)))"

text \<open>\<^verbatim>\<open>!value.trim()\<close>: the string is empty or blank.\<close>

definition is_blank :: "string \<Rightarrow> bool" where
  "is_blank s = (js_trim s = [])"

text \<open>
  \<^verbatim>\<open>toLowerCase\<close> on the modelled range: A to Z and the Latin-1 capitals U+00C0 to U+00DE other than
  U+00D7 move up by 32.
\<close>

definition js_lower_char :: "char \<Rightarrow> char" where
  "js_lower_char c = (let n = of_char c :: nat in
     if (65 \<le> n \<and> n \<le> 90) \<or> (192 \<le> n \<and> n \<le> 222 \<and> n \<noteq> 215) then char_of (n + 32) else c)"

definition js_lower :: "string \<Rightarrow> string" where
  "js_lower = map js_lower_char"

abbreviation starts_with :: "string \<Rightarrow> string \<Rightarrow> bool" where
  "starts_with s p \<equiv> prefix p s"

abbreviation ends_with :: "string \<Rightarrow> string \<Rightarrow> bool" where
  "ends_with s p \<equiv> suffix p s"

lemma is_blank_iff: "is_blank s \<longleftrightarrow> (\<forall>c \<in> set s. is_js_space c)"
proof -
  have "is_blank s \<longleftrightarrow> (\<forall>c \<in> set (dropWhile is_js_space s). is_js_space c)"
    by (simp add: is_blank_def js_trim_def)
  also have "\<dots> \<longleftrightarrow> (\<forall>c \<in> set s. is_js_space c)"
    by (induction s) auto
  finally show ?thesis .
qed

lemma is_blank_Nil [simp]: "is_blank []"
  by (simp add: is_blank_iff)

lemma js_trim_idem [simp]: "js_trim (js_trim s) = js_trim s"
proof -
  have dd: "dropWhile P (dropWhile P xs) = dropWhile P xs" for P :: "char \<Rightarrow> bool" and xs
    by (induction xs) auto
  have hd: "dropWhile P (rev (dropWhile P (rev (dropWhile P xs)))) = rev (dropWhile P (rev (dropWhile P xs)))"
    for P :: "char \<Rightarrow> bool" and xs
  proof (cases "dropWhile P xs")
    case Nil
    show ?thesis unfolding Nil by simp
  next
    case (Cons y ys)
    then have "\<not> P y" by (metis hd_dropWhile list.distinct(1) list.sel(1))
    have "\<exists>zs. rev (dropWhile P (rev (y # ys))) = y # zs"
    proof (cases "\<forall>c \<in> set ys. P c")
      case True
      then have "dropWhile P (rev ys @ [y]) = [y]"
        using \<open>\<not> P y\<close> by (simp add: dropWhile_append)
      then show ?thesis by simp
    next
      case False
      then have "dropWhile P (rev ys @ [y]) = dropWhile P (rev ys) @ [y]"
        by (auto simp: dropWhile_append)
      then show ?thesis by simp
    qed
    with Cons \<open>\<not> P y\<close> show ?thesis by auto
  qed
  show ?thesis by (simp add: js_trim_def hd dd)
qed

lemma js_lower_idem [simp]: "js_lower (js_lower s) = js_lower s"
proof -
  have "js_lower_char (js_lower_char c) = js_lower_char c" for c
  proof -
    have n: "(of_char c :: nat) < 256" by (metis mod_less_divisor of_char_mod_256 zero_less_numeral)
    show ?thesis
      using n by (auto simp: js_lower_char_def Let_def of_char_of)
  qed
  then show ?thesis by (simp add: js_lower_def)
qed

lemma js_lower_append [simp]: "js_lower (s @ t) = js_lower s @ js_lower t"
  by (simp add: js_lower_def)

section \<open>Sets, sorting and comparators\<close>

text \<open>\<^verbatim>\<open>[...new Set(values)]\<close>: the distinct values in order of first occurrence.\<close>

definition js_uniq :: "'a list \<Rightarrow> 'a list" where
  "js_uniq xs = rev (remdups (rev xs))"

lemma set_js_uniq [simp]: "set (js_uniq xs) = set xs"
  by (simp add: js_uniq_def)

lemma distinct_js_uniq [simp]: "distinct (js_uniq xs)"
  by (simp add: js_uniq_def)

lemma js_uniq_distinct: "distinct xs \<Longrightarrow> js_uniq xs = xs"
  by (simp add: js_uniq_def distinct_remdups_id)

lemma js_uniq_Nil_iff [simp]: "js_uniq xs = [] \<longleftrightarrow> xs = []"
  by (simp add: js_uniq_def)

text \<open>
  \<^verbatim>\<open>Array.prototype.sort(cmp)\<close> is a stable sort. For a comparator that is a total preorder every
  stable sort returns the same list, so an insertion sort that puts an element before the equal
  ones that followed it computes it.
\<close>

fun js_insert :: "('a \<Rightarrow> 'a \<Rightarrow> int) \<Rightarrow> 'a \<Rightarrow> 'a list \<Rightarrow> 'a list" where
  "js_insert cmp x [] = [x]"
| "js_insert cmp x (y # ys) = (if cmp x y \<le> 0 then x # y # ys else y # js_insert cmp x ys)"

fun js_sort :: "('a \<Rightarrow> 'a \<Rightarrow> int) \<Rightarrow> 'a list \<Rightarrow> 'a list" where
  "js_sort cmp [] = []"
| "js_sort cmp (x # xs) = js_insert cmp x (js_sort cmp xs)"

lemma mset_js_insert [simp]: "mset (js_insert cmp x xs) = add_mset x (mset xs)"
  by (induction xs) auto

lemma mset_js_sort [simp]: "mset (js_sort cmp xs) = mset xs"
  by (induction xs) auto

lemma set_js_sort [simp]: "set (js_sort cmp xs) = set xs"
  by (metis mset_js_sort set_mset_mset)

lemma length_js_sort [simp]: "length (js_sort cmp xs) = length xs"
  by (metis mset_js_sort size_mset)

lemma js_sort_Nil_iff [simp]: "js_sort cmp xs = [] \<longleftrightarrow> xs = []"
  by (metis length_0_conv length_js_sort)

lemma distinct_js_sort [simp]: "distinct (js_sort cmp xs) = distinct xs"
  using mset_js_sort [of cmp xs] by (rule mset_eq_imp_distinct_iff)

lemma distinct_map_js_sort [simp]: "distinct (map f (js_sort cmp xs)) = distinct (map f xs)"
  by (rule mset_eq_imp_distinct_iff) simp

lemma set_js_insert [simp]: "set (js_insert cmp x xs) = insert x (set xs)"
  by (induction xs) auto

text \<open>What a caller of \<^verbatim>\<open>sort\<close> relies on: the comparator is a total preorder.\<close>

locale comparator =
  fixes cmp :: "'a \<Rightarrow> 'a \<Rightarrow> int"
  assumes cmp_total: "cmp x y \<le> 0 \<or> cmp y x \<le> 0"
    and cmp_trans: "cmp x y \<le> 0 \<Longrightarrow> cmp y z \<le> 0 \<Longrightarrow> cmp x z \<le> 0"
begin

lemma sorted_insert:
  "sorted_wrt (\<lambda>x y. cmp x y \<le> 0) ys \<Longrightarrow> sorted_wrt (\<lambda>x y. cmp x y \<le> 0) (js_insert cmp x ys)"
proof (induction ys)
  case (Cons y ys)
  then show ?case using cmp_total [of x y] by (auto intro: cmp_trans)
qed simp

lemma sorted_sort: "sorted_wrt (\<lambda>x y. cmp x y \<le> 0) (js_sort cmp xs)"
  by (induction xs) (simp_all add: sorted_insert)

lemma sort_of_sorted: "sorted_wrt (\<lambda>x y. cmp x y \<le> 0) xs \<Longrightarrow> js_sort cmp xs = xs"
proof (induction xs)
  case (Cons x xs)
  then show ?case by (cases xs) auto
qed simp

lemma sort_idem: "js_sort cmp (js_sort cmp xs) = js_sort cmp xs"
  by (rule sort_of_sorted) (rule sorted_sort)

lemma sort_hd_least: "js_sort cmp xs = y # ys \<Longrightarrow> x \<in> set xs \<Longrightarrow> cmp y x \<le> 0"
proof -
  assume s: "js_sort cmp xs = y # ys" and x: "x \<in> set xs"
  have "cmp y y \<le> 0" using cmp_total by blast
  moreover have "x \<in> set (y # ys)" using x s by (metis set_js_sort)
  moreover have "sorted_wrt (\<lambda>x y. cmp x y \<le> 0) (y # ys)" using sorted_sort [of xs] s by simp
  ultimately show ?thesis by auto
qed

end

text \<open>A comparator under which only equal values compare equal: the sorted list is canonical.\<close>

locale strict_comparator = comparator +
  assumes cmp_antisym: "cmp x y \<le> 0 \<Longrightarrow> cmp y x \<le> 0 \<Longrightarrow> x = y"
begin

lemma sorted_unique:
  "mset xs = mset ys \<Longrightarrow> sorted_wrt (\<lambda>x y. cmp x y \<le> 0) xs \<Longrightarrow> sorted_wrt (\<lambda>x y. cmp x y \<le> 0) ys
    \<Longrightarrow> xs = ys"
proof (induction xs arbitrary: ys)
  case (Cons x xs)
  then obtain y zs where ys: "ys = y # zs" by (cases ys) auto
  have refl: "cmp z z \<le> 0" for z using cmp_total by blast
  have "x \<in> set ys" and "y \<in> set (x # xs)"
    using Cons.prems(1) ys by (metis list.set_intros(1) set_mset_mset)+
  then have "cmp y x \<le> 0" and "cmp x y \<le> 0" using Cons.prems(2,3) ys refl by auto
  then have "x = y" by (metis cmp_antisym)
  with Cons ys show ?case by auto
qed simp

lemma sort_canonical: "mset xs = mset ys \<Longrightarrow> js_sort cmp xs = js_sort cmp ys"
  by (rule sorted_unique) (simp_all add: sorted_sort)

lemma sort_set_canonical:
  "distinct xs \<Longrightarrow> distinct ys \<Longrightarrow> set xs = set ys \<Longrightarrow> js_sort cmp xs = js_sort cmp ys"
  by (rule sort_canonical) (simp add: set_eq_iff_mset_eq_distinct)

end

text \<open>
  The comparator of JavaScript's default \<^verbatim>\<open>sort\<close> on strings and of SQLite's \<^verbatim>\<open>ORDER BY\<close> on a BINARY
  text column, and the \<^verbatim>\<open>a || b\<close> composition of two comparators.
\<close>

definition binary_compare :: "'a::linorder \<Rightarrow> 'a \<Rightarrow> int" where
  "binary_compare x y = (if x < y then - 1 else if x = y then 0 else 1)"

definition or_compare :: "('a \<Rightarrow> 'a \<Rightarrow> int) \<Rightarrow> ('a \<Rightarrow> 'a \<Rightarrow> int) \<Rightarrow> 'a \<Rightarrow> 'a \<Rightarrow> int" where
  "or_compare f g x y = (if f x y \<noteq> 0 then f x y else g x y)"

lemma binary_compare_le [simp]: "binary_compare x y \<le> 0 \<longleftrightarrow> x \<le> y"
  by (auto simp: binary_compare_def)

interpretation binary: strict_comparator "binary_compare :: 'a::linorder \<Rightarrow> 'a \<Rightarrow> int"
  by unfold_locales auto

section \<open>The platform\<close>

text \<open>
  Parts of the JavaScript platform whose results the specification leaves to the implementation or
  to locale data, or that are cryptographic: \<^verbatim>\<open>Date.parse\<close> (\<^const>\<open>None\<close> is \<^verbatim>\<open>NaN\<close>), \<^verbatim>\<open>localeCompare\<close>,
  \<^verbatim>\<open>toISOString\<close>, the SHA-256 hex digest, the text of a number, and the time zone data behind
  \<^verbatim>\<open>Intl.DateTimeFormat\<close>: the year, month, day, hour, minute and second an instant has in a zone
  (\<^const>\<open>None\<close> when the zone is unknown). They are arguments of the definitions that use them.
\<close>

record platform =
  date_parse :: "string \<Rightarrow> int option"
  locale_compare :: "string \<Rightarrow> string \<Rightarrow> int"
  to_iso_string :: "int \<Rightarrow> string"
  sha256_hex :: "string \<Rightarrow> string"
  number_text :: "rat \<Rightarrow> string"
  zone_fields :: "string \<Rightarrow> int \<Rightarrow> (int \<times> int \<times> int \<times> int \<times> int \<times> int) option"

text \<open>
  A concrete platform for worked examples: a timestamp is read as its length, strings collate in
  binary order, the digest is the identity, a number is written in unary, and every zone but the
  empty name reads an instant as a time on one day.
\<close>

definition sample_platform :: platform where
  "sample_platform = \<lparr>date_parse = (\<lambda>s. if s = [] then None else Some (int (length s))),
     locale_compare = binary_compare, to_iso_string = (\<lambda>n. replicate (nat n) (CHR ''x'')),
     sha256_hex = (\<lambda>s. s), number_text = (\<lambda>r. replicate (nat \<lfloor>r\<rfloor>) (CHR ''1'')),
     zone_fields = (\<lambda>z t. if z = [] then None
       else Some (1970, 1, 1, t div 3600000 mod 24, t div 60000 mod 60, t div 1000 mod 60))\<rparr>"

text \<open>Epoch milliseconds, with the \<^verbatim>\<open>Infinity\<close> the code uses for authority that never expires.\<close>

datatype millis = Ms int | Infinity

instantiation millis :: linorder
begin

fun less_eq_millis :: "millis \<Rightarrow> millis \<Rightarrow> bool" where
  "less_eq_millis (Ms a) (Ms b) = (a \<le> b)"
| "less_eq_millis _ Infinity = True"
| "less_eq_millis Infinity (Ms b) = False"

definition less_millis :: "millis \<Rightarrow> millis \<Rightarrow> bool" where
  "less_millis a b = (a \<le> b \<and> \<not> b \<le> a)"

instance
proof
  fix x y z :: millis
  show "x \<le> x" by (cases x) auto
  show "x \<le> y \<Longrightarrow> y \<le> z \<Longrightarrow> x \<le> z" by (cases x; cases y; cases z) auto
  show "x \<le> y \<Longrightarrow> y \<le> x \<Longrightarrow> x = y" by (cases x; cases y) auto
  show "x \<le> y \<or> y \<le> x" by (cases x; cases y) auto
  show "x < y \<longleftrightarrow> x \<le> y \<and> \<not> y \<le> x" by (rule less_millis_def)
qed

end

lemma millis_less_simps [simp]:
  "Ms a < Ms b \<longleftrightarrow> a < b" "Ms a < Infinity" "\<not> Infinity < x"
  by (auto simp: less_millis_def elim: less_eq_millis.elims)

lemma millis_le_Infinity [simp]: "x \<le> Infinity"
  by (cases x) auto

section \<open>Tables\<close>

text \<open>
  A SQL table is the list of its rows in insertion order. \<open>row_where\<close> is \<^verbatim>\<open>SELECT ... WHERE key = ?\<close>
  with \<^verbatim>\<open>.get()\<close>; \<open>set_where\<close> is \<^verbatim>\<open>UPDATE ... WHERE\<close>.
\<close>

definition row_where :: "('r \<Rightarrow> bool) \<Rightarrow> 'r list \<Rightarrow> 'r option" where
  "row_where P rows = find P rows"

definition set_where :: "('r \<Rightarrow> bool) \<Rightarrow> ('r \<Rightarrow> 'r) \<Rightarrow> 'r list \<Rightarrow> 'r list" where
  "set_where P f rows = map (\<lambda>r. if P r then f r else r) rows"

lemma row_where_Nil [simp]: "row_where P [] = None"
  by (simp add: row_where_def)

lemma row_where_Cons [simp]: "row_where P (r # rs) = (if P r then Some r else row_where P rs)"
  by (simp add: row_where_def)

lemma row_where_append:
  "row_where P (xs @ ys) = (case row_where P xs of None \<Rightarrow> row_where P ys | Some r \<Rightarrow> Some r)"
  by (induction xs) auto

lemma row_where_None_iff: "row_where P rs = None \<longleftrightarrow> (\<forall>r \<in> set rs. \<not> P r)"
  by (induction rs) auto

lemma row_where_SomeD: "row_where P rs = Some r \<Longrightarrow> r \<in> set rs \<and> P r"
  by (induction rs) (auto split: if_splits)

lemma row_where_key:
  "distinct (map key rs) \<Longrightarrow> r \<in> set rs \<Longrightarrow> row_where (\<lambda>x. key x = key r) rs = Some r"
  by (induction rs) auto

lemma set_where_simps [simp]:
  "set_where P f [] = []" "set_where P f (r # rs) = (if P r then f r else r) # set_where P f rs"
  by (simp_all add: set_where_def)

lemma set_where_append [simp]: "set_where P f (xs @ ys) = set_where P f xs @ set_where P f ys"
  by (simp add: set_where_def)

lemma in_set_where: "x \<in> set (set_where P f rs) \<longleftrightarrow> (\<exists>r \<in> set rs. x = (if P r then f r else r))"
  by (auto simp: set_where_def)

lemma map_set_where: "(\<And>r. P r \<Longrightarrow> key (f r) = key r) \<Longrightarrow> map key (set_where P f rs) = map key rs"
  by (induction rs) auto

lemma row_where_set_where:
  "(\<And>r. P r \<Longrightarrow> Q (f r) = Q r) \<Longrightarrow>
    row_where Q (set_where P f rs) = map_option (\<lambda>r. if P r then f r else r) (row_where Q rs)"
  by (induction rs) auto

end
