(* ===== verification/Workspace_Paths.thy ===== *)
theory Workspace_Paths
  imports Floe_Prelude
begin

text \<open>
  \<^verbatim>\<open>floe-bus/src/workspace-paths.ts\<close>: canonical path text for the folders of a Workspace, and
  \<^verbatim>\<open>classifyToolPaths\<close> of \<^verbatim>\<open>floe-bus/src/workspace-access.ts\<close>, which sorts the paths an engine
  reports into the facts a tool decision keeps.
\<close>

section \<open>Definitions\<close>

text \<open>The regular expression \<^verbatim>\<open>/^[A-Za-z]:\//\<close>.\<close>

definition drive_prefix :: "string \<Rightarrow> bool" where
  "drive_prefix s = (case s of
      c # d # e # _ \<Rightarrow> d = CHR '':'' \<and> e = CHR ''/'' \<and>
        ((CHR ''A'' \<le> c \<and> c \<le> CHR ''Z'') \<or> (CHR ''a'' \<le> c \<and> c \<le> CHR ''z''))
    | _ \<Rightarrow> False)"

text \<open>\<^verbatim>\<open>path.sep\<close> is a single character, a parameter because it depends on the host.\<close>

definition canonicalAbsolutePath :: "char \<Rightarrow> string \<Rightarrow> string" where
  "canonicalAbsolutePath sep realPath =
     (let slashed = map (\<lambda>c. if c = sep then CHR ''/'' else c) realPath in
      if length slashed > 1 \<and> ends_with slashed ''/'' \<and> \<not> (drive_prefix slashed \<and> length slashed = 3)
      then butlast slashed else slashed)"

definition isAbsoluteCanonicalPath :: "string \<Rightarrow> bool" where
  "isAbsoluteCanonicalPath value = (starts_with value ''/'' \<or> drive_prefix value)"

definition pathUnder :: "string \<Rightarrow> string \<Rightarrow> string option" where
  "pathUnder folder candidate =
     (let insensitive = drive_prefix folder;
          base = (if insensitive then js_lower folder else folder);
          value = (if insensitive then js_lower candidate else candidate)
      in if value = base then Some ''.''
         else let pre = (if ends_with base ''/'' then base else base @ ''/'')
              in if starts_with value pre then Some (drop (length pre) candidate) else None)"

record tool_boundary =
  b_home :: "string option"
  b_folders :: "string list"

record tool_paths =
  tp_paths :: "string list"
  tp_outside :: nat
  tp_unresolved :: nat

text \<open>
  \<^verbatim>\<open>path.isAbsolute\<close> is host dependent and a parameter. \<^verbatim>\<open>boundary.home\<close> is tested for truth, so an
  empty home string counts as no home folder.
\<close>

definition classify_path ::
  "(string \<Rightarrow> bool) \<Rightarrow> char \<Rightarrow> tool_boundary \<Rightarrow> string option \<Rightarrow> tool_paths \<Rightarrow> tool_paths" where
  "classify_path isAbs sep boundary reported acc = (case reported of
      None \<Rightarrow> acc\<lparr>tp_unresolved := tp_unresolved acc + 1\<rparr>
    | Some v \<Rightarrow>
       if \<not> isAbs v then acc\<lparr>tp_unresolved := tp_unresolved acc + 1\<rparr>
       else let candidate = canonicalAbsolutePath sep v;
                inHome = (case b_home boundary of
                    None \<Rightarrow> None
                  | Some home \<Rightarrow> if home = [] then None else pathUnder home candidate)
            in case inHome of
                 Some r \<Rightarrow> acc\<lparr>tp_paths := tp_paths acc @ [r]\<rparr>
               | None \<Rightarrow> if list_ex (\<lambda>folder. pathUnder folder candidate \<noteq> None) (b_folders boundary)
                         then acc\<lparr>tp_paths := tp_paths acc @ [candidate]\<rparr>
                         else acc\<lparr>tp_outside := tp_outside acc + 1\<rparr>)"

definition no_tool_paths :: tool_paths where
  "no_tool_paths = \<lparr>tp_paths = [], tp_outside = 0, tp_unresolved = 0\<rparr>"

definition classifyToolPaths ::
  "(string \<Rightarrow> bool) \<Rightarrow> char \<Rightarrow> string option list \<Rightarrow> tool_boundary \<Rightarrow> tool_paths" where
  "classifyToolPaths isAbs sep reported boundary = fold (classify_path isAbs sep boundary) reported no_tool_paths"

section \<open>Containment\<close>

lemma pathUnder_self [simp]: "pathUnder folder folder = Some ''.''"
  by (simp add: pathUnder_def Let_def)

text \<open>A case-sensitive folder contains a path exactly when the path extends it by a segment.\<close>

lemma pathUnder_sensitive:
  assumes "\<not> drive_prefix folder" and "\<not> ends_with folder ''/''"
  shows "pathUnder folder candidate =
    (if candidate = folder then Some ''.''
     else if prefix (folder @ ''/'') candidate then Some (drop (Suc (length folder)) candidate) else None)"
  using assms by (simp add: pathUnder_def Let_def)

lemma pathUnder_decompose:
  assumes "\<not> drive_prefix folder" and "\<not> ends_with folder ''/''"
    and "pathUnder folder candidate = Some r"
  shows "candidate = folder \<or> candidate = folder @ ''/'' @ r"
  using assms by (auto simp: pathUnder_sensitive prefix_def split: if_splits)

text \<open>
  Every reported path is accounted for exactly once: kept, counted as outside, or counted as
  unresolved.
\<close>

definition tool_path_total :: "tool_paths \<Rightarrow> nat" where
  "tool_path_total f = length (tp_paths f) + tp_outside f + tp_unresolved f"

lemma classify_path_total: "tool_path_total (classify_path isAbs sep boundary r acc) = Suc (tool_path_total acc)"
  by (auto simp: classify_path_def tool_path_total_def Let_def split: option.splits)

lemma classifyToolPaths_total: "tool_path_total (classifyToolPaths isAbs sep reported boundary) = length reported"
proof -
  have "tool_path_total (fold (classify_path isAbs sep boundary) reported acc)
      = length reported + tool_path_total acc" for acc
    by (induction reported arbitrary: acc) (simp_all add: classify_path_total)
  then show ?thesis by (simp add: classifyToolPaths_def no_tool_paths_def tool_path_total_def)
qed

text \<open>
  What is recorded of a reported path: its part below the home folder, or, when it is not in the home
  folder, the path itself, which then lies in one of the other folders. Containment is that of
  \<^verbatim>\<open>pathUnder\<close>, on the text of a real path: the engine has resolved links and \<^verbatim>\<open>..\<close> before it reports.
\<close>

definition in_home :: "char \<Rightarrow> tool_boundary \<Rightarrow> string \<Rightarrow> string option" where
  "in_home sep boundary v = (case b_home boundary of None \<Rightarrow> None
     | Some home \<Rightarrow> if home = [] then None else pathUnder home (canonicalAbsolutePath sep v))"

definition kept_path :: "(string \<Rightarrow> bool) \<Rightarrow> char \<Rightarrow> tool_boundary \<Rightarrow> string option \<Rightarrow> string \<Rightarrow> bool" where
  "kept_path isAbs sep boundary reported p \<longleftrightarrow> (\<exists>v. reported = Some v \<and> isAbs v
     \<and> (in_home sep boundary v = Some p
        \<or> in_home sep boundary v = None \<and> p = canonicalAbsolutePath sep v \<and> (\<exists>folder \<in> set (b_folders boundary). pathUnder folder p \<noteq> None)))"

lemma in_home_Some: "in_home sep boundary v = Some p \<longleftrightarrow>
    (\<exists>home. b_home boundary = Some home \<and> home \<noteq> [] \<and> pathUnder home (canonicalAbsolutePath sep v) = Some p)"
  by (auto simp: in_home_def split: option.splits if_splits)

lemma in_home_None: "in_home sep boundary v = None \<longleftrightarrow>
    (\<forall>home. b_home boundary = Some home \<and> home \<noteq> [] \<longrightarrow> pathUnder home (canonicalAbsolutePath sep v) = None)"
  by (auto simp: in_home_def split: option.splits)

abbreviation dropped_paths :: "tool_paths \<Rightarrow> nat" where
  "dropped_paths c \<equiv> tp_outside c + tp_unresolved c"

lemma classify_path_cases:
  obtains (kept) p where "kept_path isAbs sep boundary r p" "classify_path isAbs sep boundary r acc = acc\<lparr>tp_paths := tp_paths acc @ [p]\<rparr>"
  | (dropped) "dropped_paths (classify_path isAbs sep boundary r acc) = Suc (dropped_paths acc)"
proof (cases "\<exists>v. r = Some v \<and> isAbs v")
  case False
  then show thesis by (intro dropped) (auto simp: classify_path_def split: option.split)
next
  case True
  then obtain v where v: "r = Some v" "isAbs v" by blast
  let ?c = "canonicalAbsolutePath sep v"
  have eq: "classify_path isAbs sep boundary r acc = (case in_home sep boundary v of Some p \<Rightarrow> acc\<lparr>tp_paths := tp_paths acc @ [p]\<rparr>
      | None \<Rightarrow> if list_ex (\<lambda>folder. pathUnder folder ?c \<noteq> None) (b_folders boundary)
          then acc\<lparr>tp_paths := tp_paths acc @ [?c]\<rparr> else acc\<lparr>tp_outside := tp_outside acc + 1\<rparr>)"
    using v by (simp add: classify_path_def in_home_def Let_def)
  show thesis
  proof (cases "in_home sep boundary v")
    case (Some p)
    then show thesis using v eq by (intro kept [of p]) (simp_all add: kept_path_def)
  next
    case None
    show thesis
    proof (cases "list_ex (\<lambda>folder. pathUnder folder ?c \<noteq> None) (b_folders boundary)")
      case True
      then show thesis using v eq None by (intro kept [of ?c]) (simp_all add: kept_path_def list_ex_iff)
    qed (use eq None in \<open>simp add: dropped\<close>)
  qed
qed

text \<open>When nothing was dropped, the recorded paths are those reported, one by one and in order.\<close>

lemma classify_fold:
  "dropped_paths acc \<le> dropped_paths (fold (classify_path isAbs sep boundary) rs acc)
    \<and> (dropped_paths (fold (classify_path isAbs sep boundary) rs acc) = dropped_paths acc \<longrightarrow>
        (\<exists>ps. tp_paths (fold (classify_path isAbs sep boundary) rs acc) = tp_paths acc @ ps \<and> list_all2 (kept_path isAbs sep boundary) rs ps))"
proof (induction rs arbitrary: acc)
  case (Cons r rs)
  note IH = Cons.IH [of "classify_path isAbs sep boundary r acc"]
  show ?case
  proof (cases rule: classify_path_cases [of isAbs sep boundary r acc])
    case (kept p)
    then show ?thesis using IH by auto
  next
    case dropped
    then show ?thesis using IH by simp
  qed
qed simp

lemma classifyToolPaths_kept:
  assumes "tp_outside (classifyToolPaths isAbs sep reported boundary) = 0" and "tp_unresolved (classifyToolPaths isAbs sep reported boundary) = 0"
  shows "list_all2 (kept_path isAbs sep boundary) reported (tp_paths (classifyToolPaths isAbs sep reported boundary))"
  using classify_fold [of no_tool_paths isAbs sep boundary reported] assms by (auto simp: classifyToolPaths_def no_tool_paths_def)

end
