(* ===== verification/Graph_Search.thy ===== *)
theory Graph_Search
  imports Floe_Prelude
begin

text \<open>
  The search behind SQLite's \<^verbatim>\<open>WITH RECURSIVE ... UNION\<close> queries: a queue of rows not yet expanded
  and the rows already produced. \<open>search_from edges a\<close> lists what is reachable from \<open>a\<close>, each node
  once; \<open>set_search_from\<close> states that it is exactly the reflexive transitive closure.
\<close>

definition succs :: "('a \<times> 'a) list \<Rightarrow> 'a \<Rightarrow> 'a list" where
  "succs edges x = map snd (filter (\<lambda>e. fst e = x) edges)"

lemma set_succs [simp]: "set (succs edges x) = {y. (x, y) \<in> set edges}"
  by (force simp: succs_def)

function search :: "('a \<times> 'a) list \<Rightarrow> 'a list \<Rightarrow> 'a list \<Rightarrow> 'a list" where
  "search edges [] seen = rev seen"
| "search edges (x # queue) seen =
     (if x \<in> set seen then search edges queue seen
      else search edges (queue @ succs edges x) (x # seen))"
  by pat_completeness auto
termination
proof (relation "measures [\<lambda>(edges, queue, seen). card ((set queue \<union> snd ` set edges) - set seen),
    \<lambda>(edges, queue, seen). length queue]", simp, goal_cases)
  case (1 edges x queue seen)
  have "(set queue \<union> snd ` set edges) - set seen \<subseteq> (set (x # queue) \<union> snd ` set edges) - set seen"
    by auto
  then have "card ((set queue \<union> snd ` set edges) - set seen)
      \<le> card ((set (x # queue) \<union> snd ` set edges) - set seen)"
    by (rule card_mono [rotated]) simp
  then show ?case by auto
next
  case (2 edges x queue seen)
  have "(set (queue @ succs edges x) \<union> snd ` set edges) - set (x # seen)
      \<subset> (set (x # queue) \<union> snd ` set edges) - set seen"
    using 2 by force
  then have "card ((set (queue @ succs edges x) \<union> snd ` set edges) - set (x # seen))
      < card ((set (x # queue) \<union> snd ` set edges) - set seen)"
    by (rule psubset_card_mono [rotated]) simp
  then show ?case by auto
qed

definition search_from :: "('a \<times> 'a) list \<Rightarrow> 'a \<Rightarrow> 'a list" where
  "search_from edges a = search edges [a] []"

lemma distinct_search: "distinct seen \<Longrightarrow> distinct (search edges queue seen)"
  by (induction edges queue seen rule: search.induct) auto

lemma search_keeps: "set seen \<union> set queue \<subseteq> set (search edges queue seen)"
  by (induction edges queue seen rule: search.induct) auto

lemma search_sound:
  "y \<in> set (search edges queue seen) \<Longrightarrow> \<exists>x \<in> set seen \<union> set queue. (x, y) \<in> (set edges)\<^sup>*"
proof (induction edges queue seen rule: search.induct)
  case (2 edges x queue seen)
  show ?case
  proof (cases "x \<in> set seen")
    case True
    with 2 show ?thesis by auto
  next
    case False
    with 2 obtain z where z: "z \<in> set (x # seen) \<union> set (queue @ succs edges x)"
        and zy: "(z, y) \<in> (set edges)\<^sup>*"
      by (auto simp only: search.simps if_False)
    from z consider "z \<in> set seen \<union> set (x # queue)" | "(x, z) \<in> set edges" by auto
    then show ?thesis
    proof cases
      case 1
      with zy show ?thesis by blast
    next
      case 2
      from 2 zy have "(x, y) \<in> (set edges)\<^sup>*" by (rule converse_rtrancl_into_rtrancl)
      then show ?thesis by auto
    qed
  qed
qed auto

lemma search_closed:
  "(\<And>s t. s \<in> set seen \<Longrightarrow> (s, t) \<in> set edges \<Longrightarrow> t \<in> set seen \<union> set queue) \<Longrightarrow>
    s \<in> set (search edges queue seen) \<Longrightarrow> (s, t) \<in> set edges \<Longrightarrow> t \<in> set (search edges queue seen)"
proof (induction edges queue seen arbitrary: s t rule: search.induct)
  case (2 edges x queue seen)
  show ?case
  proof (cases "x \<in> set seen")
    case True
    have "t \<in> set (search edges queue seen)"
    proof (rule "2.IH"(1) [OF True])
      show "s' \<in> set seen \<Longrightarrow> (s', t') \<in> set edges \<Longrightarrow> t' \<in> set seen \<union> set queue" for s' t'
        using "2.prems"(1) [of s' t'] True by auto
    qed (use "2.prems" True in auto)
    with True show ?thesis by simp
  next
    case False
    have "t \<in> set (search edges (queue @ succs edges x) (x # seen))"
    proof (rule "2.IH"(2) [OF False])
      show "s' \<in> set (x # seen) \<Longrightarrow> (s', t') \<in> set edges
          \<Longrightarrow> t' \<in> set (x # seen) \<union> set (queue @ succs edges x)" for s' t'
        using "2.prems"(1) [of s' t'] by auto
    qed (use "2.prems" False in auto)
    with False show ?thesis by simp
  qed
qed auto

lemma set_search_from: "set (search_from edges a) = {y. (a, y) \<in> (set edges)\<^sup>*}"
proof (intro equalityI subsetI)
  fix y assume "y \<in> set (search_from edges a)"
  then show "y \<in> {y. (a, y) \<in> (set edges)\<^sup>*}"
    unfolding search_from_def using search_sound [of y edges "[a]" "[]"] by simp
next
  fix y assume "y \<in> {y. (a, y) \<in> (set edges)\<^sup>*}"
  then have "(a, y) \<in> (set edges)\<^sup>*" by simp
  then show "y \<in> set (search_from edges a)"
  proof (induction rule: rtrancl_induct)
    case base
    show ?case using search_keeps [of "[]" "[a]" edges] by (simp add: search_from_def)
  next
    case (step y z)
    then show ?case unfolding search_from_def by (intro search_closed [of "[]" edges "[a]" y z]) auto
  qed
qed

lemma distinct_search_from: "distinct (search_from edges a)"
  by (simp add: search_from_def distinct_search)

end
