(* ===== verification/Capability_Grants.thy ===== *)
theory Capability_Grants
  imports Workspace_Paths Graph_Search "HOL-Library.Option_ord" "HOL-Library.Product_Lexorder"
begin

text \<open>
  \<^verbatim>\<open>floe-bus/src/capability-grants.ts\<close>: durable capability grants, their delegation, revocation and
  the authority a session derives from them. The store's SQLite tables are the lists of
  \<^verbatim>\<open>grant_db\<close>; every method of \<^verbatim>\<open>SqliteCapabilityGrantStore\<close> is a function of that state. Each
  reading of the clock is an argument of its own, and so are generated grant identifiers.
\<close>

section \<open>Data\<close>

record grant_target =
  target_kind :: string
  target_id :: "string option"

record grant_evidence =
  evidence_kind :: string
  evidence_ref :: string

text \<open>\<^verbatim>\<open>OperationAuthorityBoundary\<close> and \<^verbatim>\<open>OperationResourceIdentity\<close> of \<^verbatim>\<open>operations.ts\<close>.\<close>

datatype boundary = Workspace string | Host string

record resource_identity =
  res_kind :: string
  res_id :: string

record capability_grant =
  grant_id :: string
  principal_id :: string
  grant_boundary :: boundary
  operation_ids :: "string list"
  targets :: "grant_target list"
  issued_at :: string
  expires_at :: "string option"
  revoked_at :: "string option"
  issuer_id :: string
  evidence :: "grant_evidence list"
  delegation_only :: bool

text \<open>The \<^verbatim>\<open>expires_at\<close> of an input is \<^const>\<open>None\<close> when it was left out (\<^verbatim>\<open>undefined\<close>).\<close>

record issue_grant =
  ig_grant_id :: "string option"
  ig_principal_id :: string
  ig_boundary :: boundary
  ig_operation_ids :: "string list"
  ig_targets :: "grant_target list option"
  ig_expires_at :: "string option option"
  ig_issuer_id :: string
  ig_evidence :: "grant_evidence list"
  ig_delegation_only :: bool

record session_binding =
  sb_principal_id :: string
  sb_boundary :: boundary
  sb_grant_ids :: "string list"

datatype interaction_mode = Interactive | Unattended | Brokered

record interaction =
  mode :: interaction_mode
  session_id :: string
  broker_id :: "string option"
  confirmed_prompts :: "string list"
  approval_refs :: "string list"

record authority_context =
  auth_principal_id :: string
  auth_boundary :: boundary
  capability_grant_ids :: "string list"
  session_capability_grant_ids :: "string list"
  auth_grants :: "string list"
  auth_interaction :: interaction

datatype reference_failure_code =
    grant_not_found | grant_principal_mismatch | grant_boundary_mismatch | grant_not_yet_active
  | grant_expired | grant_revoked | grant_dependency_unavailable

record reference_inspection =
  active_grants :: "capability_grant list"
  delegable_grants :: "capability_grant list"
  unavailable_grants :: "(string \<times> reference_failure_code) list"

record resolved_authority =
  ra_authority :: authority_context
  ra_active_grant_ids :: "string list"
  ra_applicable_grant_ids :: "string list"
  ra_unavailable_grants :: "(string \<times> reference_failure_code) list"

record host_policy =
  host_policy_id :: string
  policy_revision :: string
  hp_purpose :: string
  hp_host_id :: string
  hp_principal_id :: string
  hp_grant_id :: string
  supersedes_grant_id :: "string option"
  superseded_by_grant_id :: "string option"
  activated_at :: string
  superseded_at :: "string option"

record activate_host_policy =
  ahp_host_id :: string
  ahp_principal_id :: string
  ahp_purpose :: string
  ahp_policy_revision :: string
  ahp_operation_ids :: "string list"
  ahp_targets :: "grant_target list option"
  ahp_expires_at :: "string option"
  ahp_issuer_id :: string
  ahp_evidence :: "grant_evidence list"

section \<open>Tables\<close>

record grant_row =
  row_grant_id :: string
  row_principal_id :: string
  row_boundary_kind :: string
  row_boundary_id :: string
  row_issued_at :: string
  row_expires_at :: "string option"
  row_revoked_at :: "string option"
  row_issuer_id :: string
  row_evidence :: "grant_evidence list"

record delegation_row =
  d_grant_id :: string
  d_source_grant_id :: string
  d_authority_grant_id :: string

datatype notice = Issued capability_grant | Revoked capability_grant

text \<open>
  \<open>notices\<close> records the synchronous calls of the \<^verbatim>\<open>on_issued\<close> and \<^verbatim>\<open>on_revoked\<close> dependencies, oldest
  first. A host policy row reuses \<^typ>\<open>host_policy\<close>, as \<^verbatim>\<open>rowToHostCapabilityPolicy\<close> copies every column.
\<close>

record grant_db =
  capability_grants :: "grant_row list"
  grant_operations :: "(string \<times> string) list"
  grant_targets :: "(string \<times> grant_target) list"
  grant_delegations :: "delegation_row list"
  grant_delegation_only :: "string list"
  host_policies :: "host_policy list"
  notices :: "notice list"

datatype grant_error =
    EmptyField string | EmptyList string | BadTimestamp string | LifetimeMissing
  | ExpiryNotAfterIssue | ConstraintViolation string | StoredWithoutOperations string
  | StoredBoundaryInvalid | EvidenceEmpty | NotPersisted string
  | ReferenceFailure "(string \<times> reference_failure_code) list"
  | SourceNotInSession | DelegationPermissionMissing | OperationsNotSubset | TargetsNotContained
  | DelegatedLifetimeMissing | OutlivesSource | SourceNotActive
  | HostPolicyDiffers string string | HostPolicySuperseded string string
  | HostPolicyExpired string string | HostPolicyNotPersisted string string
  | RevocationPredatesIssue

section \<open>Pure helpers\<close>

definition FILESYSTEM_PATH_TARGET_KIND :: string where
  "FILESYSTEM_PATH_TARGET_KIND = ''filesystem_path''"

definition EXECUTABLE_TARGET_KIND :: string where
  "EXECUTABLE_TARGET_KIND = ''executable''"

definition NETWORK_DOMAIN_TARGET_KIND :: string where
  "NETWORK_DOMAIN_TARGET_KIND = ''network_domain''"

definition assertNonEmpty :: "string \<Rightarrow> string \<Rightarrow> (grant_error, string) result" where
  "assertNonEmpty label v = (if is_blank v then Inl (EmptyField label) else Inr v)"

definition parseTimestamp :: "platform \<Rightarrow> string \<Rightarrow> string \<Rightarrow> (grant_error, int) result" where
  "parseTimestamp js label v = (case date_parse js v of None \<Rightarrow> Inl (BadTimestamp label) | Some t \<Rightarrow> Inr t)"

definition expiryMs :: "platform \<Rightarrow> string option \<Rightarrow> (grant_error, millis) result" where
  "expiryMs js v = (case v of
      None \<Rightarrow> Inr Infinity
    | Some s \<Rightarrow> rbind (parseTimestamp js ''expires_at'' s) (\<lambda>t. Inr (Ms t)))"

definition normalizeNonEmptySet ::
  "platform \<Rightarrow> string list \<Rightarrow> string \<Rightarrow> bool \<Rightarrow> (grant_error, string list) result" where
  "normalizeNonEmptySet js vals label requireValue =
     throw_if (requireValue \<and> vals = []) (EmptyList label)
      (rbind (rmapM (assertNonEmpty label) vals)
        (\<lambda>_. Inr (js_sort (locale_compare js) (js_uniq vals))))"

definition or_empty :: "string option \<Rightarrow> string" where
  "or_empty v = (case v of None \<Rightarrow> [] | Some s \<Rightarrow> s)"

definition target_locale_compare :: "platform \<Rightarrow> grant_target \<Rightarrow> grant_target \<Rightarrow> int" where
  "target_locale_compare js = or_compare
     (\<lambda>l r. locale_compare js (target_kind l) (target_kind r))
     (\<lambda>l r. locale_compare js (or_empty (target_id l)) (or_empty (target_id r)))"

definition assertTarget :: "grant_target \<Rightarrow> (grant_error, grant_target) result" where
  "assertTarget t = rbind (assertNonEmpty ''target kind'' (target_kind t)) (\<lambda>_.
     case target_id t of
       None \<Rightarrow> Inr t
     | Some i \<Rightarrow> rbind (assertNonEmpty ''target id'' i) (\<lambda>_. Inr t))"

definition normalizeTargets :: "platform \<Rightarrow> grant_target list \<Rightarrow> (grant_error, grant_target list) result" where
  "normalizeTargets js ts =
     rbind (rmapM assertTarget ts) (\<lambda>ts'. Inr (js_sort (target_locale_compare js) (js_uniq ts')))"

definition assertEvidence :: "grant_evidence \<Rightarrow> (grant_error, grant_evidence) result" where
  "assertEvidence e = rbind (assertNonEmpty ''evidence kind'' (evidence_kind e)) (\<lambda>_.
     rbind (assertNonEmpty ''evidence ref'' (evidence_ref e)) (\<lambda>_. Inr e))"

definition evidence_locale_compare :: "platform \<Rightarrow> grant_evidence \<Rightarrow> grant_evidence \<Rightarrow> int" where
  "evidence_locale_compare js = or_compare
     (\<lambda>l r. locale_compare js (evidence_kind l) (evidence_kind r))
     (\<lambda>l r. locale_compare js (evidence_ref l) (evidence_ref r))"

definition normalizeEvidence ::
  "platform \<Rightarrow> grant_evidence list \<Rightarrow> (grant_error, grant_evidence list) result" where
  "normalizeEvidence js es = throw_if (es = []) EvidenceEmpty
     (rbind (rmapM assertEvidence es) (\<lambda>es'. Inr (js_sort (evidence_locale_compare js) (js_uniq es'))))"

definition normalizeBoundary :: "boundary \<Rightarrow> (grant_error, boundary) result" where
  "normalizeBoundary b = (case b of
      Workspace w \<Rightarrow> rbind (assertNonEmpty ''boundary workspace_id'' w) (\<lambda>_. Inr (Workspace w))
    | Host h \<Rightarrow> rbind (assertNonEmpty ''boundary host_id'' h) (\<lambda>_. Inr (Host h)))"

definition boundaryId :: "boundary \<Rightarrow> string" where
  "boundaryId b = (case b of Workspace w \<Rightarrow> w | Host h \<Rightarrow> h)"

definition boundaryKind :: "boundary \<Rightarrow> string" where
  "boundaryKind b = (case b of Workspace _ \<Rightarrow> ''workspace'' | Host _ \<Rightarrow> ''host'')"

definition sameBoundary :: "boundary \<Rightarrow> boundary \<Rightarrow> bool" where
  "sameBoundary l r = (boundaryKind l = boundaryKind r \<and> boundaryId l = boundaryId r)"

definition boundaryFromRow :: "string \<Rightarrow> string \<Rightarrow> (grant_error, boundary) result" where
  "boundaryFromRow kind i =
     (if kind = ''workspace'' then Inr (Workspace i)
      else if kind = ''host'' then Inr (Host i) else Inl StoredBoundaryInvalid)"

definition targetContains :: "grant_target \<Rightarrow> grant_target \<Rightarrow> bool" where
  "targetContains allowed child =
     (if target_kind allowed \<noteq> target_kind child then False
      else if target_id allowed = None \<or> target_id allowed = target_id child then True
      else case (target_id allowed, target_id child) of
        (Some a, Some c) \<Rightarrow>
          if target_kind allowed = FILESYSTEM_PATH_TARGET_KIND
          then if a = ''.'' then \<not> isAbsoluteCanonicalPath c else starts_with c (a @ ''/'')
          else if target_kind allowed = EXECUTABLE_TARGET_KIND then js_lower a = js_lower c
          else if target_kind allowed = NETWORK_DOMAIN_TARGET_KIND
          then js_lower c = js_lower a \<or> ends_with (js_lower c) (''.'' @ js_lower a)
          else False
      | _ \<Rightarrow> False)"

definition grantAppliesToTarget :: "capability_grant \<Rightarrow> resource_identity option \<Rightarrow> bool" where
  "grantAppliesToTarget grant target =
     (if targets grant = [] then True
      else case target of
        None \<Rightarrow> False
      | Some t \<Rightarrow> list_ex (\<lambda>c. target_kind c = res_kind t
                            \<and> (target_id c = None \<or> target_id c = Some (res_id t))) (targets grant))"

definition grantReferenceFailure ::
  "platform \<Rightarrow> capability_grant option \<Rightarrow> string \<Rightarrow> boundary \<Rightarrow> int
    \<Rightarrow> (grant_error, reference_failure_code option) result" where
  "grantReferenceFailure js grant who bnd nowMs = (case grant of
      None \<Rightarrow> Inr (Some grant_not_found)
    | Some g \<Rightarrow>
        if principal_id g \<noteq> who then Inr (Some grant_principal_mismatch)
        else if \<not> sameBoundary (grant_boundary g) bnd then Inr (Some grant_boundary_mismatch)
        else if revoked_at g \<noteq> None then Inr (Some grant_revoked)
        else rbind (parseTimestamp js ''issued_at'' (issued_at g)) (\<lambda>issued.
          if issued > nowMs then Inr (Some grant_not_yet_active)
          else rbind (expiryMs js (expires_at g)) (\<lambda>ms.
            if ms \<le> Ms nowMs then Inr (Some grant_expired) else Inr None)))"

section \<open>Reading grants\<close>

definition target_row_compare :: "grant_target \<Rightarrow> grant_target \<Rightarrow> int" where
  "target_row_compare l r = binary_compare (target_kind l, target_id l) (target_kind r, target_id r)"

text \<open>\<^verbatim>\<open>ORDER BY operation_id\<close> and \<^verbatim>\<open>ORDER BY target_kind, target_id\<close> (BINARY, NULL first).\<close>

definition operations_of :: "grant_db \<Rightarrow> string \<Rightarrow> string list" where
  "operations_of db i = js_sort binary_compare (map snd (filter (\<lambda>r. fst r = i) (grant_operations db)))"

definition targets_of :: "grant_db \<Rightarrow> string \<Rightarrow> grant_target list" where
  "targets_of db i = js_sort target_row_compare (map snd (filter (\<lambda>r. fst r = i) (grant_targets db)))"

definition getGrant :: "platform \<Rightarrow> grant_db \<Rightarrow> string \<Rightarrow> (grant_error, capability_grant option) result" where
  "getGrant js db i = (case row_where (\<lambda>r. row_grant_id r = i) (capability_grants db) of
      None \<Rightarrow> Inr None
    | Some row \<Rightarrow>
        let ops = operations_of db i in
        throw_if (ops = []) (StoredWithoutOperations i)
         (rbind (boundaryFromRow (row_boundary_kind row) (row_boundary_id row)) (\<lambda>bnd.
          rbind (normalizeEvidence js (row_evidence row)) (\<lambda>ev.
            Inr (Some \<lparr>grant_id = row_grant_id row, principal_id = row_principal_id row,
              grant_boundary = bnd, operation_ids = ops, targets = targets_of db i,
              issued_at = row_issued_at row, expires_at = row_expires_at row,
              revoked_at = row_revoked_at row, issuer_id = row_issuer_id row, evidence = ev,
              delegation_only = (i \<in> set (grant_delegation_only db))\<rparr>)))))"

definition requireGrant :: "platform \<Rightarrow> grant_db \<Rightarrow> string \<Rightarrow> (grant_error, capability_grant) result" where
  "requireGrant js db i = rbind (getGrant js db i) (\<lambda>g.
     case g of None \<Rightarrow> Inl (NotPersisted i) | Some g' \<Rightarrow> Inr g')"

definition getDelegation :: "grant_db \<Rightarrow> string \<Rightarrow> delegation_row option" where
  "getDelegation db i = row_where (\<lambda>d. d_grant_id d = i) (grant_delegations db)"

definition delegation_parents :: "delegation_row \<Rightarrow> string list" where
  "delegation_parents d = js_uniq [d_source_grant_id d, d_authority_grant_id d]"

section \<open>Delegation chains\<close>

text \<open>
  \<^verbatim>\<open>delegationIsActive\<close> threads \<^verbatim>\<open>memo\<close> (an association list) and passes a copy of \<^verbatim>\<open>path\<close> to each
  parent; \<open>parents_active\<close> is the body of its \<^verbatim>\<open>every\<close>, which stops at the first inactive parent.
  Every nested call extends \<^verbatim>\<open>path\<close> by a delegated grant, so the recursion ends.
\<close>

type_synonym memo = "(string \<times> bool) list"

function (sequential) delegation_active ::
    "platform \<Rightarrow> grant_db \<Rightarrow> int \<Rightarrow> string \<Rightarrow> string list \<Rightarrow> memo \<Rightarrow> (grant_error, bool \<times> memo) result"
  and parents_active ::
    "platform \<Rightarrow> grant_db \<Rightarrow> int \<Rightarrow> capability_grant \<Rightarrow> string list \<Rightarrow> string list \<Rightarrow> memo
      \<Rightarrow> (grant_error, bool \<times> memo) result" where
  "delegation_active js db nowMs i path memo =
     (case map_of memo i of
        Some b \<Rightarrow> Inr (b, memo)
      | None \<Rightarrow>
          if i \<in> set path then Inr (False, memo)
          else case getDelegation db i of
            None \<Rightarrow> Inr (True, (i, True) # memo)
          | Some d \<Rightarrow>
             (case requireGrant js db i of
                Inl e \<Rightarrow> Inl e
              | Inr child \<Rightarrow>
                 (case parents_active js db nowMs child (delegation_parents d) (i # path) memo of
                    Inl e \<Rightarrow> Inl e
                  | Inr (active, memo') \<Rightarrow> Inr (active, (i, active) # memo'))))"
| "parents_active js db nowMs child [] path memo = Inr (True, memo)"
| "parents_active js db nowMs child (p # ps) path memo =
     (case getGrant js db p of
        Inl e \<Rightarrow> Inl e
      | Inr None \<Rightarrow> Inr (False, memo)
      | Inr (Some parent) \<Rightarrow>
         (case grantReferenceFailure js (Some parent) (issuer_id child) (grant_boundary child) nowMs of
            Inl e \<Rightarrow> Inl e
          | Inr (Some _) \<Rightarrow> Inr (False, memo)
          | Inr None \<Rightarrow>
             (case delegation_active js db nowMs p path memo of
                Inl e \<Rightarrow> Inl e
              | Inr (False, memo') \<Rightarrow> Inr (False, memo')
              | Inr (True, memo') \<Rightarrow> parents_active js db nowMs child ps path memo')))"
  by pat_completeness auto
termination
proof (relation "measures
    [\<lambda>x. case x of
        Inl (js, db, nowMs, i, path, memo) \<Rightarrow> card (set (map d_grant_id (grant_delegations db)) - set path)
      | Inr (js, db, nowMs, child, ps, path, memo) \<Rightarrow> card (set (map d_grant_id (grant_delegations db)) - set path),
     \<lambda>x. case x of Inl _ \<Rightarrow> 0 | Inr (js, db, nowMs, child, ps, path, memo) \<Rightarrow> Suc (length ps)]", simp, goal_cases)
  case (1 js db nowMs i path memo d child)
  then have "i \<in> set (map d_grant_id (grant_delegations db))"
    by (auto simp: getDelegation_def dest!: row_where_SomeD)
  with 1 have "card (set (map d_grant_id (grant_delegations db)) - set (i # path))
      < card (set (map d_grant_id (grant_delegations db)) - set path)"
    by (intro psubset_card_mono) auto
  then show ?case by simp
qed auto

definition delegationIsActive :: "platform \<Rightarrow> grant_db \<Rightarrow> string \<Rightarrow> int \<Rightarrow> (grant_error, bool) result" where
  "delegationIsActive js db i nowMs =
     rbind (delegation_active js db nowMs i [] []) (\<lambda>(active, _). Inr active)"

definition isActiveGrant :: "platform \<Rightarrow> grant_db \<Rightarrow> capability_grant \<Rightarrow> int \<Rightarrow> (grant_error, bool) result" where
  "isActiveGrant js db g nowMs =
     (if revoked_at g \<noteq> None then Inr False
      else rbind (parseTimestamp js ''issued_at'' (issued_at g)) (\<lambda>issued.
        if \<not> issued \<le> nowMs then Inr False
        else rbind (expiryMs js (expires_at g)) (\<lambda>ms.
          if \<not> ms > Ms nowMs then Inr False
          else delegationIsActive js db (grant_id g) nowMs)))"

text \<open>
  \<^verbatim>\<open>candidates.sort((a, b) => expiryMs(a) - expiryMs(b))[0]\<close>: the comparator runs only when there are
  two candidates to compare, and then reads every one of them.
\<close>

definition earliest :: "platform \<Rightarrow> string list \<Rightarrow> (grant_error, string option) result" where
  "earliest js cands = (case cands of
      [] \<Rightarrow> Inr None
    | [c] \<Rightarrow> Inr (Some c)
    | _ \<Rightarrow> rbind (rmapM (\<lambda>c. rbind (parseTimestamp js ''expires_at'' c) (\<lambda>t. Inr (t, c))) cands) (\<lambda>keyed.
        Inr (Some (snd (hd (js_sort (\<lambda>a b. fst a - fst b) keyed))))))"

definition somes :: "'a option list \<Rightarrow> 'a list" where
  "somes xs = map the (filter (\<lambda>x. x \<noteq> None) xs)"

text \<open>\<^verbatim>\<open>effectiveExpiry\<close> shares one mutable \<^verbatim>\<open>seen\<close> set between all its nested calls, so it is threaded.\<close>

function (sequential) effective_expiry ::
    "platform \<Rightarrow> grant_db \<Rightarrow> string \<Rightarrow> string list \<Rightarrow> (grant_error, string option \<times> string list) result"
  and parent_expiries ::
    "platform \<Rightarrow> grant_db \<Rightarrow> string list \<Rightarrow> string list
      \<Rightarrow> (grant_error, string option list \<times> string list) result" where
  "effective_expiry js db i seen =
     (case getGrant js db i of
        Inl e \<Rightarrow> Inl e
      | Inr None \<Rightarrow> Inr (None, seen)
      | Inr (Some g) \<Rightarrow>
          if i \<in> set seen then Inr (expires_at g, seen)
          else case getDelegation db i of
            None \<Rightarrow> rbind (earliest js (somes [expires_at g])) (\<lambda>v. Inr (v, i # seen))
          | Some d \<Rightarrow>
             (case parent_expiries js db (delegation_parents d) (i # seen) of
                Inl e \<Rightarrow> Inl e
              | Inr (vs, seen') \<Rightarrow> rbind (earliest js (somes (expires_at g # vs))) (\<lambda>v. Inr (v, seen'))))"
| "parent_expiries js db [] seen = Inr ([], seen)"
| "parent_expiries js db (p # ps) seen =
     (case effective_expiry js db p seen of
        Inl e \<Rightarrow> Inl e
      | Inr (v, seen') \<Rightarrow>
         (case parent_expiries js db ps seen' of
            Inl e \<Rightarrow> Inl e
          | Inr (vs, seen'') \<Rightarrow> Inr (v # vs, seen'')))"
  by pat_completeness auto

text \<open>The nested call's result decides the next argument; it never drops a seen grant.\<close>

lemma seen_grows:
  "effective_expiry_parent_expiries_dom (Inl (js, db, i, seen)) \<Longrightarrow>
    effective_expiry js db i seen = Inr (v, seen') \<Longrightarrow> set seen \<subseteq> set seen'"
  "effective_expiry_parent_expiries_dom (Inr (js, db, ps, seen)) \<Longrightarrow>
    parent_expiries js db ps seen = Inr (vs, seen') \<Longrightarrow> set seen \<subseteq> set seen'"
proof (induction arbitrary: v seen' and vs seen' rule: effective_expiry_parent_expiries.pinduct)
  case (1 js db i seen)
  note eq = effective_expiry.psimps [OF "1.hyps"]
  show ?case
  proof (cases "\<exists>g d r. getGrant js db i = Inr (Some g) \<and> i \<notin> set seen \<and> getDelegation db i = Some d
      \<and> parent_expiries js db (delegation_parents d) (i # seen) = Inr r")
    case True
    then obtain g d vs s' where g: "getGrant js db i = Inr (Some g)" "i \<notin> set seen" "getDelegation db i = Some d"
        and p: "parent_expiries js db (delegation_parents d) (i # seen) = Inr (vs, s')"
      by auto
    have "set (i # seen) \<subseteq> set s'" by (rule "1.IH" [OF g(1) refl g(2,3) p])
    moreover have "seen' = s'" using "1.prems" g p by (auto simp: eq result_simps)
    ultimately show ?thesis by auto
  next
    case False
    then show ?thesis using "1.prems"
      by (auto simp: eq result_simps simp del: not_None_eq split: sum.splits option.splits if_splits)
  qed
next
  case (2 js db seen)
  then show ?case by (simp add: parent_expiries.psimps(1))
next
  case (3 js db p ps seen)
  from "3.prems" obtain v s' vs' where e: "effective_expiry js db p seen = Inr (v, s')"
      and r: "parent_expiries js db ps s' = Inr (vs', seen')"
    by (auto simp: parent_expiries.psimps(2) [OF "3.hyps"] split: sum.splits)
  have "set seen \<subseteq> set s'" by (rule "3.IH"(1) [OF e])
  also have "\<dots> \<subseteq> set seen'" by (rule "3.IH"(2) [OF e refl r])
  finally show ?case .
qed

termination effective_expiry
proof (relation "measures
    [\<lambda>x. case x of
        Inl (js, db, i, seen) \<Rightarrow> card (set (map row_grant_id (capability_grants db)) - set seen)
      | Inr (js, db, ps, seen) \<Rightarrow> card (set (map row_grant_id (capability_grants db)) - set seen),
     \<lambda>x. case x of Inl _ \<Rightarrow> 0 | Inr (js, db, ps, seen) \<Rightarrow> Suc (length ps)]", simp, goal_cases)
  case (1 js db i seen g' g d)
  then have "i \<in> set (map row_grant_id (capability_grants db))"
    by (auto simp: getGrant_def split: option.splits dest!: row_where_SomeD)
  with 1 have "card (set (map row_grant_id (capability_grants db)) - set (i # seen))
      < card (set (map row_grant_id (capability_grants db)) - set seen)"
    by (intro psubset_card_mono) auto
  then show ?case by simp
next
  case (2 js db p ps seen)
  then show ?case by simp
next
  case (3 js db p ps seen r v seen')
  then have "set seen \<subseteq> set seen'" by (auto dest: seen_grows(1))
  then have "card (set (map row_grant_id (capability_grants db)) - set seen')
      \<le> card (set (map row_grant_id (capability_grants db)) - set seen)"
    by (intro card_mono) auto
  then show ?case by auto
qed

definition effectiveExpiry :: "platform \<Rightarrow> grant_db \<Rightarrow> string \<Rightarrow> (grant_error, string option) result" where
  "effectiveExpiry js db i = rbind (effective_expiry js db i []) (\<lambda>(v, _). Inr v)"

text \<open>The recursive query of \<^verbatim>\<open>dependentGrantIds\<close>: its rows are the edges from a parent to its child.\<close>

definition delegation_edges :: "grant_db \<Rightarrow> (string \<times> string) list" where
  "delegation_edges db = concat (map (\<lambda>d.
     [(d_source_grant_id d, d_grant_id d), (d_authority_grant_id d, d_grant_id d)]) (grant_delegations db))"

definition dependentGrantIds :: "grant_db \<Rightarrow> string \<Rightarrow> string list" where
  "dependentGrantIds db i = js_sort binary_compare (search_from (delegation_edges db) i)"

section \<open>Sessions\<close>

text \<open>One iteration of the loop of \<^verbatim>\<open>inspectSessionGrantIds\<close>.\<close>

definition inspect_one ::
  "platform \<Rightarrow> grant_db \<Rightarrow> session_binding \<Rightarrow> int \<Rightarrow> string \<Rightarrow> reference_inspection
    \<Rightarrow> (grant_error, reference_inspection) result" where
  "inspect_one js db session nowMs i acc =
     rbind (getGrant js db i) (\<lambda>grant.
     rbind (grantReferenceFailure js grant (sb_principal_id session) (sb_boundary session) nowMs) (\<lambda>failure.
     rbind (case failure of
              Some c \<Rightarrow> Inr (Some c)
            | None \<Rightarrow> rbind (delegationIsActive js db i nowMs)
                (\<lambda>active. Inr (if active then None else Some grant_dependency_unavailable))) (\<lambda>code.
     Inr (case (code, grant) of
            (None, Some g) \<Rightarrow>
              if delegation_only g then acc\<lparr>delegable_grants := delegable_grants acc @ [g]\<rparr>
              else acc\<lparr>active_grants := active_grants acc @ [g]\<rparr>
          | _ \<Rightarrow> acc\<lparr>unavailable_grants := unavailable_grants acc
                  @ [(i, case code of Some c \<Rightarrow> c | None \<Rightarrow> grant_not_found)]\<rparr>))))"

fun inspect_all ::
  "platform \<Rightarrow> grant_db \<Rightarrow> session_binding \<Rightarrow> int \<Rightarrow> string list \<Rightarrow> reference_inspection
    \<Rightarrow> (grant_error, reference_inspection) result" where
  "inspect_all js db session nowMs [] acc = Inr acc"
| "inspect_all js db session nowMs (i # is) acc =
     rbind (inspect_one js db session nowMs i acc) (inspect_all js db session nowMs is)"

definition inspectSessionGrantIds ::
  "platform \<Rightarrow> grant_db \<Rightarrow> string \<Rightarrow> session_binding \<Rightarrow> (grant_error, reference_inspection) result" where
  "inspectSessionGrantIds js db now session =
     rbind (assertNonEmpty ''session principal_id'' (sb_principal_id session)) (\<lambda>_.
     rbind (normalizeBoundary (sb_boundary session)) (\<lambda>_.
     rbind (normalizeNonEmptySet js (sb_grant_ids session) ''session grant_id'' False) (\<lambda>ids.
     rbind (parseTimestamp js ''now'' now) (\<lambda>nowMs.
       inspect_all js db session nowMs ids
         \<lparr>active_grants = [], delegable_grants = [], unavailable_grants = []\<rparr>))))"

definition live_grants :: "reference_inspection \<Rightarrow> capability_grant list" where
  "live_grants insp = active_grants insp @ delegable_grants insp"

definition requireActiveSessionGrantIds ::
  "platform \<Rightarrow> grant_db \<Rightarrow> string \<Rightarrow> session_binding \<Rightarrow> (grant_error, string list) result" where
  "requireActiveSessionGrantIds js db now session =
     rbind (inspectSessionGrantIds js db now session) (\<lambda>insp.
     throw_if (live_grants insp = [] \<or> unavailable_grants insp \<noteq> [])
       (ReferenceFailure (unavailable_grants insp))
      (rbind (normalizeNonEmptySet js (sb_grant_ids session) ''session grant_id'' False) (\<lambda>ids.
        Inr (filter (\<lambda>i. i \<in> set (map grant_id (live_grants insp))) ids))))"

definition resolveSessionAuthority ::
  "platform \<Rightarrow> grant_db \<Rightarrow> string \<Rightarrow> session_binding \<Rightarrow> interaction \<Rightarrow> resource_identity option
    \<Rightarrow> (grant_error, resolved_authority) result" where
  "resolveSessionAuthority js db now session act target =
     rbind (assertNonEmpty ''interaction session_id'' (session_id act)) (\<lambda>_.
     rbind (inspectSessionGrantIds js db now session) (\<lambda>insp.
       let applicable = filter (\<lambda>g. grantAppliesToTarget g target) (active_grants insp) in
       Inr \<lparr>ra_authority = \<lparr>
              auth_principal_id = sb_principal_id session,
              auth_boundary = sb_boundary session,
              capability_grant_ids = map grant_id applicable,
              session_capability_grant_ids = map grant_id (live_grants insp),
              auth_grants = js_uniq (concat (map operation_ids applicable)),
              auth_interaction = act\<lparr>confirmed_prompts := js_uniq (confirmed_prompts act),
                                     approval_refs := js_uniq (approval_refs act)\<rparr>\<rparr>,
            ra_active_grant_ids = map grant_id (active_grants insp),
            ra_applicable_grant_ids = map grant_id applicable,
            ra_unavailable_grants = unavailable_grants insp\<rparr>))"

definition row_listed :: "string \<Rightarrow> boundary \<Rightarrow> string \<Rightarrow> grant_row \<Rightarrow> bool" where
  "row_listed who bnd now row =
     (row_principal_id row = who \<and> row_boundary_kind row = boundaryKind bnd
      \<and> row_boundary_id row = boundaryId bnd \<and> row_revoked_at row = None \<and> row_issued_at row \<le> now
      \<and> (case row_expires_at row of None \<Rightarrow> True | Some e \<Rightarrow> e > now))"

text \<open>\<^verbatim>\<open>ORDER BY issued_at DESC, grant_id\<close>.\<close>

definition listing_compare :: "grant_row \<Rightarrow> grant_row \<Rightarrow> int" where
  "listing_compare = or_compare (\<lambda>l r. binary_compare (row_issued_at r) (row_issued_at l))
     (\<lambda>l r. binary_compare (row_grant_id l) (row_grant_id r))"

fun filter_active ::
  "platform \<Rightarrow> grant_db \<Rightarrow> int \<Rightarrow> string list \<Rightarrow> (grant_error, string list) result" where
  "filter_active js db nowMs [] = Inr []"
| "filter_active js db nowMs (i # is) =
     rbind (delegationIsActive js db i nowMs) (\<lambda>active.
     rbind (filter_active js db nowMs is) (\<lambda>rest. Inr (if active then i # rest else rest)))"

definition listActiveGrantsForPrincipalBoundary ::
  "platform \<Rightarrow> grant_db \<Rightarrow> string \<Rightarrow> string \<Rightarrow> boundary \<Rightarrow> (grant_error, capability_grant list) result" where
  "listActiveGrantsForPrincipalBoundary js db clock who bnd =
     rbind (assertNonEmpty ''principal_id'' who) (\<lambda>_.
     rbind (normalizeBoundary bnd) (\<lambda>bnd'.
     rbind (parseTimestamp js ''now'' clock) (\<lambda>ms.
       let now = to_iso_string js ms;
           rows = js_sort listing_compare (filter (row_listed who bnd' now) (capability_grants db))
       in rbind (parseTimestamp js ''now'' now) (\<lambda>nowMs.
          rbind (filter_active js db nowMs (map row_grant_id rows)) (\<lambda>ids.
          rbind (rmapM (requireGrant js db) ids) (\<lambda>gs. Inr (filter (\<lambda>g. \<not> delegation_only g) gs)))))))"

section \<open>Issuing and revoking\<close>

text \<open>
  The savepoint of \<^verbatim>\<open>issueGrant\<close>: the row of \<^verbatim>\<open>capability_grants\<close>, whose primary key may already exist,
  then the operations, targets and delegation marker, whose keys contain the new grant's own.
\<close>

definition insert_grant ::
  "grant_row \<Rightarrow> string list \<Rightarrow> grant_target list \<Rightarrow> bool \<Rightarrow> grant_db \<Rightarrow> (grant_error, grant_db) result" where
  "insert_grant row ops ts only db =
     throw_if (\<exists>r \<in> set (capability_grants db). row_grant_id r = row_grant_id row)
       (ConstraintViolation ''capability_grants.grant_id'')
      (Inr (db\<lparr>capability_grants := capability_grants db @ [row],
               grant_operations := grant_operations db @ map (Pair (row_grant_id row)) ops,
               grant_targets := grant_targets db @ map (Pair (row_grant_id row)) ts,
               grant_delegation_only := grant_delegation_only db @ (if only then [row_grant_id row] else [])\<rparr>))"

definition issueGrant ::
  "platform \<Rightarrow> string \<Rightarrow> string \<Rightarrow> issue_grant \<Rightarrow> grant_db \<Rightarrow> (grant_error, capability_grant \<times> grant_db) result" where
  "issueGrant js now fresh input db =
     rbind (assertNonEmpty ''principal_id'' (ig_principal_id input)) (\<lambda>_.
     rbind (normalizeBoundary (ig_boundary input)) (\<lambda>bnd.
     rbind (assertNonEmpty ''issuer_id'' (ig_issuer_id input)) (\<lambda>_.
     rbind (normalizeNonEmptySet js (ig_operation_ids input) ''operation_id'' True) (\<lambda>ops.
     rbind (normalizeTargets js (case ig_targets input of None \<Rightarrow> [] | Some ts \<Rightarrow> ts)) (\<lambda>ts.
     rbind (normalizeEvidence js (ig_evidence input)) (\<lambda>ev.
     rbind (parseTimestamp js ''issued_at'' now) (\<lambda>issuedMs.
     case ig_expires_at input of
       None \<Rightarrow> Inl LifetimeMissing
     | Some expiry \<Rightarrow>
       rbind (case expiry of
                None \<Rightarrow> Inr ()
              | Some e \<Rightarrow> rbind (parseTimestamp js ''expires_at'' e)
                  (\<lambda>ms. throw_if (ms \<le> issuedMs) ExpiryNotAfterIssue (Inr ()))) (\<lambda>_.
       let i = (case ig_grant_id input of None \<Rightarrow> fresh | Some g \<Rightarrow> g) in
       rbind (assertNonEmpty ''grant_id'' i) (\<lambda>_.
       rbind (insert_grant \<lparr>row_grant_id = i, row_principal_id = ig_principal_id input,
                row_boundary_kind = boundaryKind bnd, row_boundary_id = boundaryId bnd,
                row_issued_at = now, row_expires_at = expiry, row_revoked_at = None,
                row_issuer_id = ig_issuer_id input, row_evidence = ev\<rparr>
                ops ts (ig_delegation_only input) db) (\<lambda>db'.
       rbind (requireGrant js db' i) (\<lambda>issued.
         Inr (issued, db'\<lparr>notices := notices db' @ [Issued issued]\<rparr>))))))))))))"

definition insert_delegation :: "delegation_row \<Rightarrow> grant_db \<Rightarrow> (grant_error, grant_db) result" where
  "insert_delegation d db =
     throw_if (\<exists>r \<in> set (grant_delegations db). d_grant_id r = d_grant_id d)
       (ConstraintViolation ''capability_grant_delegations.grant_id'')
     (throw_if (d_grant_id d = d_source_grant_id d \<or> d_grant_id d = d_authority_grant_id d)
       (ConstraintViolation ''capability_grant_delegations.check'')
     (throw_if (\<not> {d_grant_id d, d_source_grant_id d, d_authority_grant_id d}
                 \<subseteq> set (map row_grant_id (capability_grants db)))
       (ConstraintViolation ''capability_grant_delegations.references'')
     (Inr (db\<lparr>grant_delegations := grant_delegations db @ [d]\<rparr>))))"

record delegate_input =
  dg_authority :: authority_context
  dg_source_grant_id :: string
  dg_principal_id :: string
  dg_recipient :: resource_identity
  dg_operation_ids :: "string list"
  dg_targets :: "grant_target list option"
  dg_expires_at :: "string option option"
  dg_delegation_only :: bool
  dg_invocation_id :: string

text \<open>\<^verbatim>\<open>expiryMs(b) - expiryMs(a) || a.grant_id.localeCompare(b.grant_id)\<close>, on grants with their expiry.\<close>

definition permission_compare :: "platform \<Rightarrow> millis \<times> capability_grant \<Rightarrow> millis \<times> capability_grant \<Rightarrow> int" where
  "permission_compare js = or_compare (\<lambda>a b. binary_compare (fst b) (fst a))
     (\<lambda>a b. locale_compare js (grant_id (snd a)) (grant_id (snd b)))"

definition narrows :: "capability_grant \<Rightarrow> string list \<Rightarrow> grant_target list \<Rightarrow> (grant_error, unit) result" where
  "narrows source ops ts =
     throw_if (list_ex (\<lambda>i. i \<notin> set (operation_ids source)) ops) OperationsNotSubset
     (throw_if (targets source \<noteq> [] \<and> (ts = [] \<or>
         list_ex (\<lambda>t. \<not> list_ex (\<lambda>allowed. targetContains allowed t) (targets source)) ts)) TargetsNotContained
     (Inr ()))"

text \<open>
  The delegation permission is the longest-lived applicable grant for \<^verbatim>\<open>capability.grant.delegate\<close>.
  \<^verbatim>\<open>this.now()\<close> is read by the two inspections and by \<^verbatim>\<open>issueGrant\<close>, in this order.
\<close>

definition delegation_permission ::
  "platform \<Rightarrow> grant_db \<Rightarrow> string \<Rightarrow> authority_context \<Rightarrow> resource_identity
    \<Rightarrow> (grant_error, (millis \<times> capability_grant) option) result" where
  "delegation_permission js db now authority recipient =
     rbind (inspectSessionGrantIds js db now \<lparr>sb_principal_id = auth_principal_id authority,
              sb_boundary = auth_boundary authority, sb_grant_ids = capability_grant_ids authority\<rparr>) (\<lambda>insp.
     rbind (rmapM (\<lambda>g. rbind (expiryMs js (expires_at g)) (\<lambda>ms. Inr (ms, g)))
              (filter (\<lambda>g. ''capability.grant.delegate'' \<in> set (operation_ids g)
                         \<and> grantAppliesToTarget g (Some recipient)) (active_grants insp))) (\<lambda>keyed.
     Inr (case js_sort (permission_compare js) keyed of [] \<Rightarrow> None | p # _ \<Rightarrow> Some p)))"

definition delegateGrant ::
  "platform \<Rightarrow> string \<Rightarrow> string \<Rightarrow> string \<Rightarrow> string \<Rightarrow> delegate_input \<Rightarrow> grant_db
    \<Rightarrow> (grant_error, capability_grant \<times> grant_db) result" where
  "delegateGrant js now1 now2 now3 fresh input db =
    (let authority = dg_authority input in
     rbind (requireActiveSessionGrantIds js db now1 \<lparr>sb_principal_id = auth_principal_id authority,
              sb_boundary = auth_boundary authority, sb_grant_ids = [dg_source_grant_id input]\<rparr>) (\<lambda>ids.
     let source = hd ids in
     throw_if (source \<notin> set (session_capability_grant_ids authority)) SourceNotInSession
     (rbind (requireGrant js db source) (\<lambda>parent.
     rbind (delegation_permission js db now2 authority (dg_recipient input)) (\<lambda>found.
     case found of
       None \<Rightarrow> Inl DelegationPermissionMissing
     | Some (permissionMs, permission) \<Rightarrow>
       throw_if (''capability.grant.delegate'' \<notin> set (auth_grants authority)) DelegationPermissionMissing
       (rbind (normalizeNonEmptySet js (dg_operation_ids input) ''operation_id'' True) (\<lambda>ops.
       rbind (normalizeTargets js (case dg_targets input of None \<Rightarrow> targets parent | Some ts \<Rightarrow> ts)) (\<lambda>ts.
       rbind (narrows parent ops ts) (\<lambda>_.
       case dg_expires_at input of
         None \<Rightarrow> Inl DelegatedLifetimeMissing
       | Some expiry \<Rightarrow>
         rbind (expiryMs js (expires_at parent)) (\<lambda>parentMs.
         rbind (expiryMs js expiry) (\<lambda>ms.
         throw_if (ms > min parentMs permissionMs) OutlivesSource
         (rbind (issueGrant js now3 fresh \<lparr>ig_grant_id = None, ig_principal_id = dg_principal_id input,
                   ig_boundary = auth_boundary authority, ig_operation_ids = ops, ig_targets = Some ts,
                   ig_expires_at = Some expiry, ig_issuer_id = auth_principal_id authority,
                   ig_evidence = [\<lparr>evidence_kind = ''operation_invocation'', evidence_ref = dg_invocation_id input\<rparr>],
                   ig_delegation_only = dg_delegation_only input\<rparr> db) (\<lambda>(grant, db').
         rbind (insert_delegation \<lparr>d_grant_id = grant_id grant, d_source_grant_id = grant_id parent,
                   d_authority_grant_id = grant_id permission\<rparr> db') (\<lambda>db''.
         Inr (grant, db''\<lparr>notices := notices db'' @ [Issued grant]\<rparr>)))))))))))))))"

record dependent_input =
  di_grant_id :: "string option"
  di_source_grant_id :: string
  di_principal_id :: string
  di_operation_ids :: "string list"
  di_targets :: "grant_target list option"
  di_evidence :: "grant_evidence list"
  di_expires_at :: "string option"

definition issueDependentGrant ::
  "platform \<Rightarrow> string \<Rightarrow> string \<Rightarrow> string \<Rightarrow> dependent_input \<Rightarrow> grant_db
    \<Rightarrow> (grant_error, capability_grant \<times> grant_db) result" where
  "issueDependentGrant js now1 now2 fresh input db =
     rbind (requireGrant js db (di_source_grant_id input)) (\<lambda>source.
     rbind (parseTimestamp js ''now'' now1) (\<lambda>nowMs.
     rbind (isActiveGrant js db source nowMs) (\<lambda>active.
     throw_if (\<not> active) SourceNotActive
     (rbind (normalizeNonEmptySet js (di_operation_ids input) ''operation_id'' True) (\<lambda>ops.
     rbind (normalizeTargets js (case di_targets input of None \<Rightarrow> [] | Some ts \<Rightarrow> ts)) (\<lambda>ts.
     rbind (narrows source ops ts) (\<lambda>_.
     rbind (case di_expires_at input of
              None \<Rightarrow> Inr ()
            | Some e \<Rightarrow> rbind (parseTimestamp js ''expires_at'' e) (\<lambda>ms.
                rbind (effectiveExpiry js db (grant_id source)) (\<lambda>ee.
                rbind (expiryMs js ee) (\<lambda>limit. throw_if (Ms ms > limit) OutlivesSource (Inr ()))))) (\<lambda>_.
     rbind (issueGrant js now2 fresh \<lparr>ig_grant_id = di_grant_id input, ig_principal_id = di_principal_id input,
               ig_boundary = grant_boundary source, ig_operation_ids = ops, ig_targets = Some ts,
               ig_expires_at = Some (di_expires_at input), ig_issuer_id = principal_id source,
               ig_evidence = di_evidence input, ig_delegation_only = False\<rparr> db) (\<lambda>(grant, db').
     rbind (insert_delegation \<lparr>d_grant_id = grant_id grant, d_source_grant_id = grant_id source,
               d_authority_grant_id = grant_id source\<rparr> db') (\<lambda>db''.
     Inr (grant, db''\<lparr>notices := notices db'' @ [Issued grant]\<rparr>)))))))))))"

definition revokeGrant ::
  "platform \<Rightarrow> string \<Rightarrow> string \<Rightarrow> grant_db \<Rightarrow> (grant_error, bool \<times> grant_db) result" where
  "revokeGrant js i revokedAt db =
     rbind (assertNonEmpty ''grant_id'' i) (\<lambda>_.
     rbind (parseTimestamp js ''revoked_at'' revokedAt) (\<lambda>revokedMs.
     rbind (getGrant js db i) (\<lambda>found.
     case found of
       None \<Rightarrow> Inr (False, db)
     | Some grant \<Rightarrow>
       if revoked_at grant \<noteq> None then Inr (False, db)
       else rbind (parseTimestamp js ''issued_at'' (issued_at grant)) (\<lambda>issuedMs.
         throw_if (revokedMs < issuedMs) RevocationPredatesIssue
         (let db' = db\<lparr>capability_grants := set_where (\<lambda>r. row_grant_id r = i \<and> row_revoked_at r = None)
                        (\<lambda>r. r\<lparr>row_revoked_at := Some revokedAt\<rparr>) (capability_grants db)\<rparr>
          in rbind (requireGrant js db' i) (\<lambda>g. Inr (True, db'\<lparr>notices := notices db' @ [Revoked g]\<rparr>)))))))"

section \<open>Host policies\<close>

definition hostCapabilityPolicyId :: "platform \<Rightarrow> string \<Rightarrow> string \<Rightarrow> (grant_error, string) result" where
  "hostCapabilityPolicyId js hostId purpose =
     rbind (assertNonEmpty ''host_id'' hostId) (\<lambda>_.
     rbind (assertNonEmpty ''policy purpose'' purpose) (\<lambda>_.
     Inr (''host_policy_'' @ take 32 (sha256_hex js (hostId @ [CHR 0x00] @ purpose)))))"

definition hostCapabilityPolicyGrantId :: "platform \<Rightarrow> string \<Rightarrow> string \<Rightarrow> (grant_error, string) result" where
  "hostCapabilityPolicyGrantId js policyId revision =
     rbind (assertNonEmpty ''host_policy_id'' policyId) (\<lambda>_.
     rbind (assertNonEmpty ''policy_revision'' revision) (\<lambda>_.
     Inr (''capgrant_host_policy_'' @ take 32 (sha256_hex js (policyId @ [CHR 0x00] @ revision)))))"

definition getHostPolicyRevision :: "grant_db \<Rightarrow> string \<Rightarrow> string \<Rightarrow> host_policy option" where
  "getHostPolicyRevision db policyId revision =
     row_where (\<lambda>p. host_policy_id p = policyId \<and> policy_revision p = revision) (host_policies db)"

definition getActiveHostPolicyRevision :: "grant_db \<Rightarrow> string \<Rightarrow> host_policy option" where
  "getActiveHostPolicyRevision db policyId =
     row_where (\<lambda>p. host_policy_id p = policyId \<and> superseded_at p = None) (host_policies db)"

text \<open>\<^verbatim>\<open>ORDER BY activated_at DESC, policy_revision DESC\<close>.\<close>

definition history_compare :: "host_policy \<Rightarrow> host_policy \<Rightarrow> int" where
  "history_compare = or_compare (\<lambda>l r. binary_compare (activated_at r) (activated_at l))
     (\<lambda>l r. binary_compare (policy_revision r) (policy_revision l))"

definition listHostPolicyHistory ::
  "platform \<Rightarrow> grant_db \<Rightarrow> string \<Rightarrow> string \<Rightarrow> (grant_error, host_policy list) result" where
  "listHostPolicyHistory js db hostId purpose =
     rbind (hostCapabilityPolicyId js hostId purpose) (\<lambda>policyId.
     Inr (js_sort history_compare (filter (\<lambda>p. host_policy_id p = policyId) (host_policies db))))"

text \<open>The unique keys of \<^verbatim>\<open>host_capability_policy_revisions\<close>, one of them on unsuperseded rows only.\<close>

definition insert_host_policy :: "host_policy \<Rightarrow> grant_db \<Rightarrow> (grant_error, grant_db) result" where
  "insert_host_policy p db =
     throw_if (\<exists>r \<in> set (host_policies db). hp_grant_id r = hp_grant_id p)
       (ConstraintViolation ''host_capability_policy_revisions.grant_id'')
     (throw_if (\<exists>r \<in> set (host_policies db). host_policy_id r = host_policy_id p \<and> policy_revision r = policy_revision p)
       (ConstraintViolation ''host_capability_policy_revisions.revision'')
     (throw_if (superseded_at p = None \<and>
         (\<exists>r \<in> set (host_policies db). host_policy_id r = host_policy_id p \<and> superseded_at r = None))
       (ConstraintViolation ''idx_host_capability_policy_active'')
     (Inr (db\<lparr>host_policies := host_policies db @ [p]\<rparr>))))"

definition supersede_active :: "string \<Rightarrow> host_policy option \<Rightarrow> grant_db \<Rightarrow> grant_db" where
  "supersede_active activatedAt active db = (case active of
      None \<Rightarrow> db
    | Some a \<Rightarrow> db\<lparr>host_policies := set_where (\<lambda>p. hp_grant_id p = hp_grant_id a \<and> superseded_at p = None)
        (\<lambda>p. p\<lparr>superseded_at := Some activatedAt\<rparr>) (host_policies db)\<rparr>)"

definition retire_active :: "string \<Rightarrow> string \<Rightarrow> host_policy option \<Rightarrow> grant_db \<Rightarrow> grant_db" where
  "retire_active activatedAt successor active db = (case active of
      None \<Rightarrow> db
    | Some a \<Rightarrow> db\<lparr>
        host_policies := set_where (\<lambda>p. hp_grant_id p = hp_grant_id a)
          (\<lambda>p. p\<lparr>superseded_by_grant_id := Some successor\<rparr>) (host_policies db),
        capability_grants := set_where (\<lambda>r. row_grant_id r = hp_grant_id a \<and> row_revoked_at r = None)
          (\<lambda>r. r\<lparr>row_revoked_at := Some activatedAt\<rparr>) (capability_grants db)\<rparr>)"

record host_activation =
  ha_replayed :: bool
  ha_policy :: host_policy
  ha_grant :: capability_grant

definition replay_host_policy ::
  "platform \<Rightarrow> string \<Rightarrow> activate_host_policy \<Rightarrow> string list \<Rightarrow> grant_target list \<Rightarrow> grant_evidence list
    \<Rightarrow> host_policy \<Rightarrow> grant_db \<Rightarrow> (grant_error, host_activation \<times> grant_db) result" where
  "replay_host_policy js now input ops ts ev existing db =
     rbind (requireGrant js db (hp_grant_id existing)) (\<lambda>grant.
     throw_if (\<not> (hp_host_id existing = ahp_host_id input
         \<and> hp_principal_id existing = ahp_principal_id input
         \<and> hp_purpose existing = ahp_purpose input
         \<and> issuer_id grant = ahp_issuer_id input
         \<and> expires_at grant = ahp_expires_at input
         \<and> operation_ids grant = ops \<and> targets grant = ts \<and> evidence grant = ev))
       (HostPolicyDiffers (host_policy_id existing) (policy_revision existing))
     (throw_if (revoked_at grant \<noteq> None \<or> superseded_at existing \<noteq> None)
       (HostPolicySuperseded (host_policy_id existing) (policy_revision existing))
     (rbind (expiryMs js (expires_at grant)) (\<lambda>ms.
      rbind (parseTimestamp js ''now'' now) (\<lambda>nowMs.
      throw_if (ms \<le> Ms nowMs)
        (HostPolicyExpired (host_policy_id existing) (policy_revision existing))
      (Inr (\<lparr>ha_replayed = True, ha_policy = existing, ha_grant = grant\<rparr>, db)))))))"

definition install_host_policy ::
  "platform \<Rightarrow> string \<Rightarrow> string \<Rightarrow> activate_host_policy \<Rightarrow> string list \<Rightarrow> grant_target list \<Rightarrow> grant_evidence list
    \<Rightarrow> string \<Rightarrow> string \<Rightarrow> grant_db \<Rightarrow> (grant_error, host_activation \<times> grant_db) result" where
  "install_host_policy js activatedAt now input ops ts ev policyId grantId db =
    (let active = getActiveHostPolicyRevision db policyId in
     rbind (issueGrant js now [] \<lparr>ig_grant_id = Some grantId, ig_principal_id = ahp_principal_id input,
               ig_boundary = Host (ahp_host_id input), ig_operation_ids = ops, ig_targets = Some ts,
               ig_expires_at = Some (ahp_expires_at input), ig_issuer_id = ahp_issuer_id input,
               ig_evidence = ev, ig_delegation_only = False\<rparr> (supersede_active activatedAt active db))
      (\<lambda>(grant, db1).
     rbind (insert_host_policy \<lparr>host_policy_id = policyId, policy_revision = ahp_policy_revision input,
               hp_purpose = ahp_purpose input, hp_host_id = ahp_host_id input,
               hp_principal_id = ahp_principal_id input, hp_grant_id = grant_id grant,
               supersedes_grant_id = map_option hp_grant_id active, superseded_by_grant_id = None,
               activated_at = activatedAt, superseded_at = None\<rparr> db1) (\<lambda>db2.
       let db3 = retire_active activatedAt (grant_id grant) active db2 in
       case getHostPolicyRevision db3 policyId (ahp_policy_revision input) of
         None \<Rightarrow> Inl (HostPolicyNotPersisted policyId (ahp_policy_revision input))
       | Some policy \<Rightarrow> Inr (\<lparr>ha_replayed = False, ha_policy = policy, ha_grant = grant\<rparr>, db3))))"

definition activateHostPolicyGrant ::
  "platform \<Rightarrow> string \<Rightarrow> string \<Rightarrow> activate_host_policy \<Rightarrow> grant_db
    \<Rightarrow> (grant_error, host_activation \<times> grant_db) result" where
  "activateHostPolicyGrant js now1 now2 input db =
     rbind (assertNonEmpty ''host_id'' (ahp_host_id input)) (\<lambda>_.
     rbind (assertNonEmpty ''principal_id'' (ahp_principal_id input)) (\<lambda>_.
     rbind (assertNonEmpty ''policy purpose'' (ahp_purpose input)) (\<lambda>_.
     rbind (assertNonEmpty ''policy_revision'' (ahp_policy_revision input)) (\<lambda>_.
     rbind (assertNonEmpty ''issuer_id'' (ahp_issuer_id input)) (\<lambda>_.
     rbind (normalizeNonEmptySet js (ahp_operation_ids input) ''operation_id'' True) (\<lambda>ops.
     rbind (normalizeTargets js (case ahp_targets input of None \<Rightarrow> [] | Some ts \<Rightarrow> ts)) (\<lambda>ts.
     rbind (normalizeEvidence js (ahp_evidence input)) (\<lambda>ev.
     rbind (hostCapabilityPolicyId js (ahp_host_id input) (ahp_purpose input)) (\<lambda>policyId.
     rbind (hostCapabilityPolicyGrantId js policyId (ahp_policy_revision input)) (\<lambda>grantId.
     case getHostPolicyRevision db policyId (ahp_policy_revision input) of
       Some existing \<Rightarrow> replay_host_policy js now1 input ops ts ev existing db
     | None \<Rightarrow> install_host_policy js now1 now2 input ops ts ev policyId grantId db))))))))))"

end
