(* ===== verification/Tool_Policy.thy ===== *)
theory Tool_Policy
  imports Capability_Grants
begin

text \<open>
  \<^verbatim>\<open>floe-bus/src/tool-policy-facts.ts\<close> and \<^verbatim>\<open>floe-bus/src/tool-policy.ts\<close>: the normalised evidence of an
  engine tool call and the authority half of the decision whether it may run.
\<close>

section \<open>Facts\<close>

text \<open>
  Counts are \<^typ>\<open>int\<close>: a negative one is refused by the code. \<^verbatim>\<open>outside_path_count\<close> may be missing in
  facts recorded before the field existed.
\<close>

record network_destination =
  dest_scheme :: string
  dest_host :: string

record tool_facts =
  actor_definition_revision_id :: string
  tool_call_id :: "string option"
  engine :: string
  manifest_version :: string
  native_tools :: "string list"
  paths :: "string list"
  unresolved_path_count :: int
  outside_path_count :: "int option"
  executables :: "string list"
  unclassified_segment_count :: int
  destinations :: "network_destination list"
  invalid_url_count :: int
  write_redirection :: bool
  sandbox_bypass :: bool
  argument_digest :: string

datatype facts_error = FactRequired string | FactNotCount string

definition fact_text :: "string \<Rightarrow> string \<Rightarrow> (facts_error, string) result" where
  "fact_text v label = (if is_blank v then Inl (FactRequired label) else Inr (js_trim v))"

definition fact_count :: "int \<Rightarrow> string \<Rightarrow> (facts_error, int) result" where
  "fact_count v label = (if v < 0 then Inl (FactNotCount label) else Inr v)"

definition sortedUnique :: "string list \<Rightarrow> string list" where
  "sortedUnique vs = js_sort binary_compare (js_uniq vs)"

text \<open>
  \<^verbatim>\<open>new Map(entries)\<close>: a repeated key keeps its first position and takes the last value. The entries
  are then sorted by key with \<^verbatim>\<open>localeCompare\<close>.
\<close>

fun map_put :: "'k \<Rightarrow> 'v \<Rightarrow> ('k \<times> 'v) list \<Rightarrow> ('k \<times> 'v) list" where
  "map_put k v [] = [(k, v)]"
| "map_put k v ((k', v') # kvs) = (if k' = k then (k, v) # kvs else (k', v') # map_put k v kvs)"

definition new_map :: "('k \<times> 'v) list \<Rightarrow> ('k \<times> 'v) list" where
  "new_map kvs = fold (\<lambda>(k, v). map_put k v) kvs []"

definition destination_key :: "network_destination \<Rightarrow> string" where
  "destination_key d = dest_scheme d @ ''://'' @ dest_host d"

definition normalize_destination :: "network_destination \<Rightarrow> (facts_error, network_destination) result" where
  "normalize_destination d =
     rbind (fact_text (dest_scheme d) ''destination scheme'') (\<lambda>s.
     rbind (fact_text (dest_host d) ''destination host'') (\<lambda>h.
     Inr \<lparr>dest_scheme = js_lower s, dest_host = js_lower h\<rparr>))"

definition destination_entries :: "platform \<Rightarrow> network_destination list \<Rightarrow> network_destination list" where
  "destination_entries js ds = map snd (js_sort (\<lambda>l r. locale_compare js (fst l) (fst r))
     (new_map (map (\<lambda>d. (destination_key d, d)) ds)))"

definition normalizeToolCallPolicyFacts :: "platform \<Rightarrow> tool_facts \<Rightarrow> (facts_error, tool_facts) result" where
  "normalizeToolCallPolicyFacts js f =
     rbind (fact_text (actor_definition_revision_id f) ''actor_definition_revision_id'') (\<lambda>rev.
     rbind (case tool_call_id f of None \<Rightarrow> Inr None
            | Some c \<Rightarrow> rbind (fact_text c ''tool_call_id'') (\<lambda>c'. Inr (Some c'))) (\<lambda>call.
     rbind (fact_text (engine f) ''engine'') (\<lambda>eng.
     rbind (fact_text (manifest_version f) ''manifest_version'') (\<lambda>version.
     rbind (rmapM (\<lambda>n. fact_text n ''native tool'') (native_tools f)) (\<lambda>natives.
     rbind (rmapM (\<lambda>p. fact_text p ''path'') (paths f)) (\<lambda>ps.
     rbind (fact_count (unresolved_path_count f) ''unresolved_path_count'') (\<lambda>unresolved.
     rbind (fact_count (case outside_path_count f of None \<Rightarrow> 0 | Some n \<Rightarrow> n) ''outside_path_count'') (\<lambda>outside.
     rbind (rmapM (\<lambda>n. rbind (fact_text n ''executable'') (\<lambda>t. Inr (js_lower t))) (executables f)) (\<lambda>execs.
     rbind (fact_count (unclassified_segment_count f) ''unclassified_segment_count'') (\<lambda>segments.
     rbind (rmapM normalize_destination (destinations f)) (\<lambda>dests.
     rbind (fact_count (invalid_url_count f) ''invalid_url_count'') (\<lambda>invalid.
     rbind (fact_text (argument_digest f) ''argument_digest'') (\<lambda>digest.
     Inr \<lparr>actor_definition_revision_id = rev, tool_call_id = call, engine = eng, manifest_version = version,
          native_tools = sortedUnique natives, paths = sortedUnique ps, unresolved_path_count = unresolved,
          outside_path_count = Some outside, executables = sortedUnique execs,
          unclassified_segment_count = segments, destinations = destination_entries js dests,
          invalid_url_count = invalid, write_redirection = write_redirection f,
          sandbox_bypass = sandbox_bypass f, argument_digest = digest\<rparr>)))))))))))))"

text \<open>
  \<^verbatim>\<open>toolNetworkDestination\<close>. The \<^verbatim>\<open>URL\<close> constructor is a parameter that returns the protocol and
  host name, or \<^const>\<open>None\<close> when it throws.
\<close>

definition drop_last_if :: "char \<Rightarrow> string \<Rightarrow> string" where
  "drop_last_if c s = (if s \<noteq> [] \<and> last s = c then butlast s else s)"

definition toolNetworkDestination ::
  "(string \<Rightarrow> (string \<times> string) option) \<Rightarrow> string \<Rightarrow> network_destination option" where
  "toolNetworkDestination parse_url url = (case parse_url url of
      None \<Rightarrow> None
    | Some (protocol, hostname) \<Rightarrow>
        let host = drop_last_if CHR ''.'' (js_lower hostname) in
        if host = [] then None
        else Some \<lparr>dest_scheme = js_lower (drop_last_if CHR '':'' protocol), dest_host = host\<rparr>)"

section \<open>Decisions\<close>

definition filesystem_read :: string where "filesystem_read = ''engine.tool.filesystem.read''"
definition filesystem_write :: string where "filesystem_write = ''engine.tool.filesystem.write''"
definition process_execute :: string where "process_execute = ''engine.tool.process.execute''"
definition network_fetch :: string where "network_fetch = ''engine.tool.network.fetch''"

definition TOOL_OPERATION_IDS :: "string list" where
  "TOOL_OPERATION_IDS = [filesystem_read, filesystem_write, process_execute, network_fetch]"

definition TOOL_TARGET_KINDS :: "string list" where
  "TOOL_TARGET_KINDS = [FILESYSTEM_PATH_TARGET_KIND, EXECUTABLE_TARGET_KIND, NETWORK_DOMAIN_TARGET_KIND]"

definition FETCH_SCHEMES :: "string list" where
  "FETCH_SCHEMES = [''http'', ''https'']"

record tool_grant =
  tg_grant_id :: string
  tg_operation_ids :: "string list"
  tg_targets :: "grant_target list"

definition tool_grant_of :: "capability_grant \<Rightarrow> tool_grant" where
  "tool_grant_of g = \<lparr>tg_grant_id = grant_id g, tg_operation_ids = operation_ids g, tg_targets = targets g\<rparr>"

datatype denial_code =
    tool_operation_unknown | tool_sandbox_bypass | tool_grant_missing | tool_path_missing
  | tool_path_unresolved | tool_path_outside_scope | tool_path_outside_workspace
  | tool_target_not_granted | tool_shell_ambiguous | tool_network_not_granted | tool_shell_unconfined

datatype decision = Allowed string | Denied denial_code string

record workspace_boundary =
  wb_folders :: "string list"
  wb_system_access :: bool

definition isEngineToolOperation :: "string \<Rightarrow> bool" where
  "isEngineToolOperation op = (op \<in> set TOOL_OPERATION_IDS)"

definition outside_count :: "tool_facts \<Rightarrow> int" where
  "outside_count f = (case outside_path_count f of None \<Rightarrow> 0 | Some n \<Rightarrow> n)"

definition isFileTool :: "string \<Rightarrow> bool" where
  "isFileTool op = (op = filesystem_read \<or> op = filesystem_write)"

definition touchesFiles :: "tool_facts \<Rightarrow> string \<Rightarrow> bool" where
  "touchesFiles f op = (op = filesystem_read \<or> op = filesystem_write
     \<or> length (paths f) > 0 \<or> unresolved_path_count f > 0 \<or> outside_count f > 0)"

definition path_target :: "string \<Rightarrow> grant_target" where
  "path_target p = \<lparr>target_kind = FILESYSTEM_PATH_TARGET_KIND, target_id = Some p\<rparr>"

definition workspaceRefusal :: "tool_facts \<Rightarrow> string list \<Rightarrow> decision option" where
  "workspaceRefusal f folders =
     (let outside = (outside_count f > 0 \<or> list_ex (\<lambda>p. isAbsoluteCanonicalPath p
            \<and> \<not> list_ex (\<lambda>folder. pathUnder folder p \<noteq> None) folders) (paths f)) in
      if outside then Some (Denied tool_path_outside_workspace (''This call reaches outside the Workspace's folders. Add that folder to the''
          @ '' Workspace, or turn on System access, to allow it.''))
      else if unresolved_path_count f > 0 then Some (Denied tool_path_unresolved
          ''A path could not be resolved, so it cannot be shown to be inside the Workspace's folders.'')
      else if paths f = [] then Some (Denied tool_path_missing
          (''The engine did not report which path this call touches, so it cannot be shown to be'' @ '' inside the Workspace's folders.''))
      else None)"

definition pathsRefusal :: "tool_facts \<Rightarrow> grant_target list \<Rightarrow> string \<Rightarrow> denial_code \<Rightarrow> decision option" where
  "pathsRefusal f folders label code =
     (if outside_count f > 0 then Some (Denied code (''This call reaches a path outside '' @ label @ ''.''))
      else if unresolved_path_count f > 0 then Some (Denied tool_path_unresolved
          (''A path could not be resolved, so it cannot be shown to be within '' @ label @ ''.''))
      else if paths f = [] then Some (Denied tool_path_missing
          (''The engine did not report which path this call touches, so it cannot be shown to be within '' @ label @ ''.''))
      else case find (\<lambda>p. \<not> list_ex (\<lambda>folder. targetContains folder (path_target p)) folders) (paths f) of
             None \<Rightarrow> None
           | Some p \<Rightarrow> Some (Denied code ([CHR 0x27] @ p @ [CHR 0x27] @ '' is outside '' @ label @ ''.'')))"

definition shellAmbiguity :: "tool_facts \<Rightarrow> string option" where
  "shellAmbiguity f =
     (if executables f = [] \<or> unclassified_segment_count f > 0
      then Some ''The engine could not identify every command in this shell call.''
      else if write_redirection f
      then Some ''The command redirects output into a file, which a command allowlist does not cover.''
      else None)"

definition ofKind :: "tool_grant \<Rightarrow> string \<Rightarrow> grant_target list" where
  "ofKind g kind = filter (\<lambda>t. target_kind t = kind) (tg_targets g)"

text \<open>The three limits a grant may carry, checked in this order; each is the refusal it gives.\<close>

definition folder_refusal :: "tool_grant \<Rightarrow> tool_facts \<Rightarrow> string \<Rightarrow> decision option" where
  "folder_refusal g f op =
     (let folders = ofKind g FILESYSTEM_PATH_TARGET_KIND in
      if folders = [] then None
      else if op = process_execute then Some (Denied tool_shell_unconfined
          (''This Actor's shell access is limited to chosen folders, and this engine does not'' @ '' report which files a shell command touches.''))
      else if touchesFiles f op
      then pathsRefusal f folders ''the folders this Actor was granted'' tool_target_not_granted
      else None)"

definition command_refusal :: "tool_grant \<Rightarrow> tool_facts \<Rightarrow> string \<Rightarrow> decision option" where
  "command_refusal g f op =
     (let commands = ofKind g EXECUTABLE_TARGET_KIND in
      if op = process_execute \<and> commands \<noteq> [] then
        case shellAmbiguity f of
          Some reason \<Rightarrow> Some (Denied tool_shell_ambiguous reason)
        | None \<Rightarrow> (case find (\<lambda>n. \<not> list_ex (\<lambda>t. targetContains t
              \<lparr>target_kind = EXECUTABLE_TARGET_KIND, target_id = Some n\<rparr>) commands) (executables f) of
            Some n \<Rightarrow> Some (Denied tool_target_not_granted ([CHR 0x27] @ n @ [CHR 0x27] @ '' is not one of the commands this Actor may run.''))
          | None \<Rightarrow> None)
      else None)"

definition domain_refusal :: "tool_grant \<Rightarrow> tool_facts \<Rightarrow> string \<Rightarrow> decision option" where
  "domain_refusal g f op =
     (let domains = ofKind g NETWORK_DOMAIN_TARGET_KIND in
      if op = network_fetch \<and> domains \<noteq> [] then
        if invalid_url_count f > 0 \<or> destinations f = []
        then Some (Denied tool_network_not_granted ''The fetch destination could not be determined.'')
        else case find (\<lambda>d. dest_scheme d \<notin> set FETCH_SCHEMES) (destinations f) of
          Some d \<Rightarrow> Some (Denied tool_network_not_granted (''The '' @ [CHR 0x27] @ dest_scheme d @ [CHR 0x27] @ '' scheme is not allowed for fetches.''))
        | None \<Rightarrow> (case find (\<lambda>d. \<not> list_ex (\<lambda>t. targetContains t
              \<lparr>target_kind = NETWORK_DOMAIN_TARGET_KIND, target_id = Some (dest_host d)\<rparr>) domains) (destinations f) of
            Some d \<Rightarrow> Some (Denied tool_target_not_granted ([CHR 0x27] @ dest_host d @ [CHR 0x27] @ '' is not one of the domains this Actor may fetch.''))
          | None \<Rightarrow> None)
      else None)"

definition grantRefusal :: "tool_grant \<Rightarrow> tool_facts \<Rightarrow> string \<Rightarrow> decision option" where
  "grantRefusal g f op =
     (if list_ex (\<lambda>t. target_kind t \<notin> set TOOL_TARGET_KINDS) (tg_targets g)
      then Some (Denied tool_target_not_granted (''This Actor's grant for '' @ [CHR 0x27] @ op @ [CHR 0x27] @ '' has limits that do not apply to engine tools.''))
      else case folder_refusal g f op of
        Some r \<Rightarrow> Some r
      | None \<Rightarrow> (case command_refusal g f op of Some r \<Rightarrow> Some r | None \<Rightarrow> domain_refusal g f op))"

definition shellNetworkRefusal :: "tool_facts \<Rightarrow> tool_grant list \<Rightarrow> decision option" where
  "shellNetworkRefusal f grants =
     (if destinations f = [] \<and> invalid_url_count f = 0 then None
      else let fetch = filter (\<lambda>g. network_fetch \<in> set (tg_operation_ids g)) grants;
               f' = f\<lparr>paths := [], unresolved_path_count := 0, outside_path_count := Some 0\<rparr>
           in if list_ex (\<lambda>g. grantRefusal g f' network_fetch = None) fetch then None
              else Some (Denied tool_network_not_granted ''The command reaches a network destination this Actor may not fetch.''))"

text \<open>The loop of \<^verbatim>\<open>decideShell\<close>; \<open>first\<close> is the first refusal it met.\<close>

fun shell_candidates :: "tool_grant list \<Rightarrow> tool_facts \<Rightarrow> tool_grant list \<Rightarrow> decision option \<Rightarrow> decision option" where
  "shell_candidates [] f grants first = first"
| "shell_candidates (g # gs) f grants first =
     (case grantRefusal g f process_execute of
        None \<Rightarrow> (case shellNetworkRefusal f grants of Some r \<Rightarrow> Some r | None \<Rightarrow> Some (Allowed (tg_grant_id g)))
      | Some r \<Rightarrow> shell_candidates gs f grants (case first of None \<Rightarrow> Some r | Some r' \<Rightarrow> Some r'))"

definition decideShell :: "tool_grant list \<Rightarrow> tool_facts \<Rightarrow> string list option \<Rightarrow> tool_grant list \<Rightarrow> decision" where
  "decideShell candidates f scope grants =
     (if scope \<noteq> None then Denied tool_shell_unconfined
        (''This Actor is limited to chosen folders, and this engine does not report which''
         @ '' files a shell command touches, so its shell calls cannot be shown to stay inside them.'')
      else the (shell_candidates candidates f grants None))"

text \<open>\<open>first_allowing\<close>: the first candidate without a refusal, else the first refusal.\<close>

definition first_allowing :: "tool_grant list \<Rightarrow> tool_facts \<Rightarrow> string \<Rightarrow> decision" where
  "first_allowing candidates f op = (case find (\<lambda>g. grantRefusal g f op = None) candidates of
      Some g \<Rightarrow> Allowed (tg_grant_id g)
    | None \<Rightarrow> the (grantRefusal (hd candidates) f op))"

definition or_else :: "decision option \<Rightarrow> decision \<Rightarrow> decision" where
  "or_else r d = (case r of Some r' \<Rightarrow> r' | None \<Rightarrow> d)"

definition decideToolAuthority ::
  "string \<Rightarrow> tool_facts \<Rightarrow> string list option \<Rightarrow> tool_grant list \<Rightarrow> workspace_boundary \<Rightarrow> decision" where
  "decideToolAuthority op f scope grants ws =
     (if \<not> isEngineToolOperation op
      then Denied tool_operation_unknown ([CHR 0x27] @ op @ [CHR 0x27] @ '' is not a governed engine tool operation.'')
      else if sandbox_bypass f \<and> \<not> wb_system_access ws
      then Denied tool_sandbox_bypass (''The engine asked to bypass its sandbox, which needs this Workspace's System access'' @ '' to be on.'')
      else let candidates = filter (\<lambda>g. op \<in> set (tg_operation_ids g)) grants in
      if candidates = []
      then Denied tool_grant_missing (''This Actor holds no live grant for '' @ [CHR 0x27] @ op @ [CHR 0x27] @ ''.'')
      else if op = process_execute then decideShell candidates f scope grants
      else or_else (if \<not> wb_system_access ws \<and> isFileTool op then workspaceRefusal f (wb_folders ws) else None)
          (or_else (case scope of
              Some ps \<Rightarrow> if touchesFiles f op
                then pathsRefusal f (map path_target ps) ''this Actor's scope'' tool_path_outside_scope else None
            | None \<Rightarrow> None)
          (first_allowing candidates f op)))"

end
