(* ===== verification/Normal_Forms.thy ===== *)
theory Normal_Forms
  imports Tool_Policy
begin

text \<open>
  Normal forms of texts, sorted sets of texts and insertion-ordered maps, shared by the components
  that normalise their input: a normalised value is a fixed point of its normalisation.
\<close>

lemma find_SomeD: "find P xs = Some x \<Longrightarrow> x \<in> set xs \<and> P x"
  by (induction xs) (auto split: if_splits)

section \<open>Texts\<close>

lemma is_blank_trim [simp]: "is_blank (js_trim v) = is_blank v"
  by (simp add: is_blank_def)

lemma fact_text_Inr [result_simps]: "fact_text v l = Inr w \<longleftrightarrow> \<not> is_blank v \<and> w = js_trim v"
  by (auto simp: fact_text_def)

lemma fact_count_Inr [result_simps]: "fact_count v l = Inr w \<longleftrightarrow> 0 \<le> v \<and> w = v"
  by (auto simp: fact_count_def)

lemma js_lower_char_space [simp]: "is_js_space (js_lower_char c) = is_js_space c"
proof -
  have n: "(of_char c :: nat) < 256" by (metis mod_less_divisor of_char_mod_256 zero_less_numeral)
  show ?thesis using n by (auto simp: js_lower_char_def is_js_space_def Let_def of_char_of)
qed

lemma dropWhile_map_space: "dropWhile is_js_space (map js_lower_char s) = map js_lower_char (dropWhile is_js_space s)"
  by (induction s) simp_all

lemma js_trim_lower: "js_trim (js_lower s) = js_lower (js_trim s)"
  by (simp add: js_trim_def js_lower_def dropWhile_map_space rev_map)

lemma is_blank_lower [simp]: "is_blank (js_lower s) = is_blank s"
  by (simp add: is_blank_def js_trim_lower) (simp add: js_lower_def)

definition trimmed :: "string \<Rightarrow> bool" where
  "trimmed v \<longleftrightarrow> \<not> is_blank v \<and> js_trim v = v"

lemma fact_text_trimmed [simp]: "trimmed v \<Longrightarrow> fact_text v l = Inr v"
  by (simp add: fact_text_def trimmed_def)

lemma fact_count_ok: "0 \<le> v \<Longrightarrow> fact_count v l = Inr v"
  by (simp add: fact_count_def)

lemma trimmed_trim: "\<not> is_blank v \<Longrightarrow> trimmed (js_trim v)"
  by (simp add: trimmed_def)

lemma trimmed_lower: "trimmed v \<Longrightarrow> trimmed (js_lower v)"
  by (simp add: trimmed_def js_trim_lower)

lemma rmapM_fixed: "(\<And>x. x \<in> set xs \<Longrightarrow> f x = Inr x) \<Longrightarrow> rmapM f xs = Inr xs"
  using rmapM_Inr_map [of xs f id] by simp

lemma sortedUnique_simps [simp]: "set (sortedUnique vs) = set vs" "sortedUnique (sortedUnique vs) = sortedUnique vs"
  by (simp_all add: sortedUnique_def js_uniq_distinct binary.sort_idem)

section \<open>Maps\<close>

lemma map_put_fresh: "k \<notin> fst ` set kvs \<Longrightarrow> map_put k v kvs = kvs @ [(k, v)]"
  by (induction kvs) auto

lemma map_put_keys: "map fst (map_put k v kvs) = (if k \<in> fst ` set kvs then map fst kvs else map fst kvs @ [k])"
  by (induction kvs) (auto, force)

lemma map_of_put: "map_of (map_put k v kvs) j = (if j = k then Some v else map_of kvs j)"
  by (induction kvs) auto

lemma set_map_put: "set (map_put k v kvs) \<subseteq> insert (k, v) (set kvs)"
  by (induction kvs) (auto split: if_splits)

lemma new_map_distinct: "distinct (map fst (new_map kvs))"
proof -
  have "distinct (map fst acc) \<Longrightarrow> distinct (map fst (fold (\<lambda>(k, v). map_put k v) kvs acc))" for acc
    by (induction kvs arbitrary: acc) (auto simp: map_put_keys)
  then show ?thesis by (simp add: new_map_def)
qed

lemma set_new_map: "set (new_map kvs) \<subseteq> set kvs"
proof -
  have "set (fold (\<lambda>(k, v). map_put k v) kvs acc) \<subseteq> set kvs \<union> set acc" for acc
  proof (induction kvs arbitrary: acc)
    case (Cons kv kvs)
    then show ?case using set_map_put [of "fst kv" "snd kv" acc] by (fastforce simp: split_beta)
  qed simp
  from this [of "[]"] show ?thesis by (simp add: new_map_def)
qed

lemma new_map_id: "distinct (map fst kvs) \<Longrightarrow> new_map kvs = kvs"
proof -
  have "distinct (map fst (acc @ kvs)) \<Longrightarrow> fold (\<lambda>(k, v). map_put k v) kvs acc = acc @ kvs" for acc
  proof (induction kvs arbitrary: acc)
    case (Cons kv kvs)
    then show ?case using map_put_fresh [of "fst kv" acc "snd kv"] by (auto simp: split_beta)
  qed simp
  from this [of "[]"] show "distinct (map fst kvs) \<Longrightarrow> new_map kvs = kvs" by (simp add: new_map_def)
qed

end
