(* ===== verification/Grant_Invariants.thy ===== *)
theory Grant_Invariants
  imports Capability_Grants
begin

text \<open>
  The invariant of the grant tables and its preservation by every operation that writes them:
  keys are unique, child rows refer to existing grants, stored values can be read back, and the
  delegation graph is acyclic because a delegated grant is always newer than its parents.
\<close>

section \<open>The invariant\<close>

definition wf_row :: "platform \<Rightarrow> grant_db \<Rightarrow> grant_row \<Rightarrow> bool" where
  "wf_row js db row \<longleftrightarrow>
     row_boundary_kind row \<in> {''workspace'', ''host''}
     \<and> (\<exists>op. (row_grant_id row, op) \<in> set (grant_operations db))
     \<and> row_evidence row \<noteq> [] \<and> (\<forall>e \<in> set (row_evidence row). \<not> is_blank (evidence_kind e) \<and> \<not> is_blank (evidence_ref e))
     \<and> date_parse js (row_issued_at row) \<noteq> None
     \<and> (\<forall>e. row_expires_at row = Some e \<longrightarrow> date_parse js e \<noteq> None)"

definition grant_ids :: "grant_db \<Rightarrow> string list" where
  "grant_ids db = map row_grant_id (capability_grants db)"

text \<open>A delegation's parents come earlier in the table of grants than the delegated grant.\<close>

definition older :: "string list \<Rightarrow> string \<Rightarrow> string \<Rightarrow> bool" where
  "older ids p c \<longleftrightarrow> (\<exists>xs ys. ids = xs @ c # ys \<and> p \<in> set xs)"

definition wf_db :: "platform \<Rightarrow> grant_db \<Rightarrow> bool" where
  "wf_db js db \<longleftrightarrow>
     distinct (grant_ids db)
     \<and> (\<forall>row \<in> set (capability_grants db). wf_row js db row)
     \<and> distinct (grant_operations db) \<and> fst ` set (grant_operations db) \<subseteq> set (grant_ids db)
     \<and> distinct (grant_targets db) \<and> fst ` set (grant_targets db) \<subseteq> set (grant_ids db)
     \<and> distinct (grant_delegation_only db) \<and> set (grant_delegation_only db) \<subseteq> set (grant_ids db)
     \<and> distinct (map d_grant_id (grant_delegations db))
     \<and> (\<forall>d \<in> set (grant_delegations db). older (grant_ids db) (d_source_grant_id d) (d_grant_id d)
          \<and> older (grant_ids db) (d_authority_grant_id d) (d_grant_id d))"

definition empty_grant_db :: grant_db where
  "empty_grant_db = \<lparr>capability_grants = [], grant_operations = [], grant_targets = [],
     grant_delegations = [], grant_delegation_only = [], host_policies = [], notices = []\<rparr>"

lemma wf_empty: "wf_db js empty_grant_db"
  by (simp add: wf_db_def empty_grant_db_def grant_ids_def)

lemmas wf_dbD = wf_db_def [THEN iffD1]

subsection \<open>Facts about the helpers\<close>

lemma assertNonEmpty_Inr [result_simps]: "assertNonEmpty l v = Inr w \<longleftrightarrow> \<not> is_blank v \<and> w = v"
  by (auto simp: assertNonEmpty_def)

lemma parseTimestamp_Inr [result_simps]: "parseTimestamp js l v = Inr t \<longleftrightarrow> date_parse js v = Some t"
  by (auto simp: parseTimestamp_def split: option.splits)

lemma normalizeNonEmptySet_Inr [result_simps]:
  "normalizeNonEmptySet js vs l req = Inr ws \<longleftrightarrow>
     (req \<longrightarrow> vs \<noteq> []) \<and> (\<forall>v \<in> set vs. \<not> is_blank v) \<and> ws = js_sort (locale_compare js) (js_uniq vs)"
proof -
  have "(\<exists>ys. rmapM (assertNonEmpty l) vs = Inr ys) \<longleftrightarrow> (\<forall>v \<in> set vs. \<not> is_blank v)"
  proof -
    have "(\<exists>ys. rmapM (assertNonEmpty l) xs = Inr ys) \<longleftrightarrow> (\<forall>v \<in> set xs. \<not> is_blank v)" for xs
      by (induction xs) (auto simp: result_simps)
    then show ?thesis .
  qed
  then show ?thesis by (auto simp: normalizeNonEmptySet_def result_simps)
qed

lemma assertTarget_Inr [result_simps]:
  "assertTarget t = Inr u \<longleftrightarrow>
     u = t \<and> \<not> is_blank (target_kind t) \<and> (\<forall>i. target_id t = Some i \<longrightarrow> \<not> is_blank i)"
  by (auto simp: assertTarget_def result_simps split: option.splits)

lemma rmapM_id:
  "(\<And>x y. f x = Inr y \<longleftrightarrow> y = x \<and> P x) \<Longrightarrow> rmapM f xs = Inr ys \<longleftrightarrow> ys = xs \<and> (\<forall>x \<in> set xs. P x)"
  by (induction xs arbitrary: ys) (auto simp: result_simps)

lemma normalizeTargets_Inr [result_simps]:
  "normalizeTargets js ts = Inr us \<longleftrightarrow>
     (\<forall>t \<in> set ts. \<not> is_blank (target_kind t) \<and> (\<forall>i. target_id t = Some i \<longrightarrow> \<not> is_blank i))
     \<and> us = js_sort (target_locale_compare js) (js_uniq ts)"
  by (auto simp: normalizeTargets_def result_simps rmapM_id [OF assertTarget_Inr])

lemma assertEvidence_Inr [result_simps]:
  "assertEvidence e = Inr u \<longleftrightarrow> u = e \<and> \<not> is_blank (evidence_kind e) \<and> \<not> is_blank (evidence_ref e)"
  by (auto simp: assertEvidence_def result_simps)

lemma normalizeEvidence_Inr [result_simps]:
  "normalizeEvidence js es = Inr us \<longleftrightarrow>
     es \<noteq> [] \<and> (\<forall>e \<in> set es. \<not> is_blank (evidence_kind e) \<and> \<not> is_blank (evidence_ref e))
     \<and> us = js_sort (evidence_locale_compare js) (js_uniq es)"
  by (auto simp: normalizeEvidence_def result_simps rmapM_id [OF assertEvidence_Inr])

lemma normalizeBoundary_Inr [result_simps]:
  "normalizeBoundary b = Inr c \<longleftrightarrow> c = b \<and> \<not> is_blank (boundaryId b)"
  by (auto simp: normalizeBoundary_def boundaryId_def result_simps split: boundary.splits)

lemma boundaryFromRow_of [simp]: "boundaryFromRow (boundaryKind b) (boundaryId b) = Inr b"
  by (cases b) (simp_all add: boundaryFromRow_def boundaryKind_def boundaryId_def)

lemma boundaryKind_ok [simp]: "boundaryKind b = ''workspace'' \<or> boundaryKind b = ''host''"
  by (cases b) (simp_all add: boundaryKind_def)

lemma sameBoundary_eq [simp]: "sameBoundary a b \<longleftrightarrow> a = b"
  by (cases a; cases b) (auto simp: sameBoundary_def boundaryKind_def boundaryId_def)

lemma boundaryFromRow_total:
  "k \<in> {''workspace'', ''host''} \<Longrightarrow> \<exists>b. boundaryFromRow k i = Inr b"
  by (auto simp: boundaryFromRow_def)

lemma expiryMs_total:
  "(\<And>e. v = Some e \<Longrightarrow> date_parse js e \<noteq> None) \<Longrightarrow> \<exists>ms. expiryMs js v = Inr ms"
  by (cases v) (auto simp: expiryMs_def parseTimestamp_def)

subsection \<open>Age\<close>

lemma older_in: "older ids p c \<Longrightarrow> p \<in> set ids \<and> c \<in> set ids"
  by (auto simp: older_def)

lemma older_append: "older ids p c \<Longrightarrow> older (ids @ zs) p c"
  by (fastforce simp: older_def)

lemma older_snoc: "p \<in> set ids \<Longrightarrow> older (ids @ [c]) p c"
  by (auto simp: older_def)

text \<open>Positions in a distinct list order its elements.\<close>

definition age :: "string list \<Rightarrow> string \<Rightarrow> nat" where
  "age ids x = length (takeWhile (\<lambda>y. y \<noteq> x) ids)"

lemma older_age: "distinct ids \<Longrightarrow> older ids p c \<Longrightarrow> age ids p < age ids c"
proof -
  assume d: "distinct ids" and o: "older ids p c"
  from o obtain xs ys where ids: "ids = xs @ c # ys" and p: "p \<in> set xs" by (auto simp: older_def)
  from d ids have "c \<notin> set xs" by auto
  then have "takeWhile (\<lambda>y. y \<noteq> c) ids = xs"
    unfolding ids by (subst takeWhile_append2) auto
  then have c: "age ids c = length xs" by (simp add: age_def)
  obtain us vs where xs: "xs = us @ p # vs" and "p \<notin> set us" using p by (metis split_list_first)
  then have "takeWhile (\<lambda>y. y \<noteq> p) ids = us"
    unfolding ids xs append.assoc by (subst takeWhile_append2) auto
  with c xs show ?thesis by (simp add: age_def)
qed

section \<open>Reading a well-formed database\<close>

lemma wf_row_of: "wf_db js db \<Longrightarrow> row \<in> set (capability_grants db) \<Longrightarrow> wf_row js db row"
  by (simp add: wf_db_def)

lemma getGrant_total: "wf_db js db \<Longrightarrow> \<exists>g. getGrant js db i = Inr g"
proof (cases "row_where (\<lambda>r. row_grant_id r = i) (capability_grants db)")
  case None
  then show ?thesis by (simp add: getGrant_def)
next
  case (Some row)
  assume wf: "wf_db js db"
  from Some have row: "row \<in> set (capability_grants db)" "row_grant_id row = i"
    by (auto dest: row_where_SomeD)
  with wf have w: "wf_row js db row" by (simp add: wf_row_of)
  then have "operations_of db i \<noteq> []"
    using row by (force simp: wf_row_def operations_of_def filter_empty_conv)
  moreover obtain b where "boundaryFromRow (row_boundary_kind row) (row_boundary_id row) = Inr b"
    using w boundaryFromRow_total by (fastforce simp: wf_row_def)
  moreover obtain ev where "normalizeEvidence js (row_evidence row) = Inr ev"
    using w by (auto simp: wf_row_def result_simps)
  ultimately show ?thesis using Some by (simp add: getGrant_def Let_def)
qed

lemma getGrant_None_iff:
  "getGrant js db i = Inr None \<longleftrightarrow> i \<notin> set (grant_ids db)"
  by (auto simp: getGrant_def grant_ids_def row_where_None_iff result_simps Let_def
      split: option.splits dest: row_where_SomeD)

lemma set_operations_of [simp]: "set (operations_of db i) = {op. (i, op) \<in> set (grant_operations db)}"
  by (force simp: operations_of_def)

lemma set_targets_of [simp]: "set (targets_of db i) = {t. (i, t) \<in> set (grant_targets db)}"
  by (force simp: targets_of_def)

text \<open>What a successful read says about the tables.\<close>

definition grant_of_row :: "grant_db \<Rightarrow> grant_row \<Rightarrow> boundary \<Rightarrow> grant_evidence list \<Rightarrow> capability_grant" where
  "grant_of_row db row bnd ev = \<lparr>grant_id = row_grant_id row, principal_id = row_principal_id row,
     grant_boundary = bnd, operation_ids = operations_of db (row_grant_id row),
     targets = targets_of db (row_grant_id row), issued_at = row_issued_at row,
     expires_at = row_expires_at row, revoked_at = row_revoked_at row, issuer_id = row_issuer_id row,
     evidence = ev, delegation_only = (row_grant_id row \<in> set (grant_delegation_only db))\<rparr>"

lemma getGrant_Some_iff:
  "getGrant js db i = Inr (Some g) \<longleftrightarrow>
     (\<exists>row bnd ev. row_where (\<lambda>r. row_grant_id r = i) (capability_grants db) = Some row
        \<and> operations_of db i \<noteq> [] \<and> boundaryFromRow (row_boundary_kind row) (row_boundary_id row) = Inr bnd
        \<and> normalizeEvidence js (row_evidence row) = Inr ev \<and> g = grant_of_row db row bnd ev)"
proof (cases "row_where (\<lambda>r. row_grant_id r = i) (capability_grants db)")
  case (Some row)
  then have "row_grant_id row = i" by (auto dest: row_where_SomeD)
  with Some show ?thesis
    by (auto simp: getGrant_def Let_def grant_of_row_def rbind_Inr_iff throw_if_Inr_iff)
qed (simp add: getGrant_def)

lemma getGrant_SomeD:
  assumes "getGrant js db i = Inr (Some g)"
  obtains row where "row \<in> set (capability_grants db)" "row_grant_id row = i" "grant_id g = i"
    "row_where (\<lambda>r. row_grant_id r = i) (capability_grants db) = Some row"
    "principal_id g = row_principal_id row" "issuer_id g = row_issuer_id row"
    "issued_at g = row_issued_at row" "expires_at g = row_expires_at row" "revoked_at g = row_revoked_at row"
    "set (operation_ids g) = {op. (i, op) \<in> set (grant_operations db)}"
    "set (targets g) = {t. (i, t) \<in> set (grant_targets db)}"
    "boundaryFromRow (row_boundary_kind row) (row_boundary_id row) = Inr (grant_boundary g)"
    "delegation_only g \<longleftrightarrow> i \<in> set (grant_delegation_only db)"
proof -
  from assms [unfolded getGrant_Some_iff] obtain row ev bnd
    where r: "row_where (\<lambda>r. row_grant_id r = i) (capability_grants db) = Some row"
      and b: "boundaryFromRow (row_boundary_kind row) (row_boundary_id row) = Inr bnd"
      and g: "g = grant_of_row db row bnd ev"
    by blast
  from r have row: "row \<in> set (capability_grants db)" "row_grant_id row = i"
    using row_where_SomeD [OF r] by simp_all
  show ?thesis
    by (rule that [OF row]) (use row r b in \<open>auto simp: g grant_of_row_def\<close>)
qed

lemma getGrant_id: "getGrant js db i = Inr (Some g) \<Longrightarrow> grant_id g = i"
  by (erule getGrant_SomeD) simp

lemma requireGrant_Inr [result_simps]: "requireGrant js db i = Inr g \<longleftrightarrow> getGrant js db i = Inr (Some g)"
  by (auto simp: requireGrant_def result_simps split: option.splits)

lemma getGrant_times:
  assumes "wf_db js db" and "getGrant js db i = Inr (Some g)"
  shows "\<exists>t. date_parse js (issued_at g) = Some t" and "\<exists>ms. expiryMs js (expires_at g) = Inr ms"
proof -
  from assms(2) obtain row where row: "row \<in> set (capability_grants db)"
      and eq: "issued_at g = row_issued_at row" "expires_at g = row_expires_at row"
    by (rule getGrant_SomeD) blast
  from row assms(1) have w: "wf_row js db row" by (simp add: wf_row_of)
  then show "\<exists>t. date_parse js (issued_at g) = Some t" by (auto simp: eq wf_row_def)
  show "\<exists>ms. expiryMs js (expires_at g) = Inr ms"
    unfolding eq using w by (intro expiryMs_total) (auto simp: wf_row_def)
qed

section \<open>Writing\<close>

lemma ex_key_iff: "(\<exists>r \<in> set rs. key r = k) \<longleftrightarrow> k \<in> key ` set rs"
  by (auto simp: image_iff eq_commute [of k])

lemma row_where_fresh: "k \<notin> key ` set rs \<Longrightarrow> row_where (\<lambda>r. key r = k) rs = None"
  using ex_key_iff [of rs key k] by (simp add: row_where_None_iff)

lemma getGrant_other_tables [simp]:
  "getGrant js (db\<lparr>notices := x\<rparr>) i = getGrant js db i"
  "getGrant js (db\<lparr>host_policies := y\<rparr>) i = getGrant js db i"
  "getGrant js (db\<lparr>grant_delegations := z\<rparr>) i = getGrant js db i"
  by (simp_all add: getGrant_def operations_of_def targets_of_def split: option.split)

lemma wf_db_other_tables [simp]:
  "wf_db js (db\<lparr>notices := x\<rparr>) = wf_db js db"
  "wf_db js (db\<lparr>host_policies := y\<rparr>) = wf_db js db"
  by (simp_all add: wf_db_def wf_row_def grant_ids_def)

lemma grant_ids_other_tables [simp]:
  "grant_ids (db\<lparr>notices := x\<rparr>) = grant_ids db"
  "grant_ids (db\<lparr>host_policies := y\<rparr>) = grant_ids db"
  "grant_ids (db\<lparr>grant_delegations := z\<rparr>) = grant_ids db"
  by (simp_all add: grant_ids_def)

definition with_grant :: "grant_row \<Rightarrow> string list \<Rightarrow> grant_target list \<Rightarrow> bool \<Rightarrow> grant_db \<Rightarrow> grant_db" where
  "with_grant row ops ts only db =
     db\<lparr>capability_grants := capability_grants db @ [row],
        grant_operations := grant_operations db @ map (Pair (row_grant_id row)) ops,
        grant_targets := grant_targets db @ map (Pair (row_grant_id row)) ts,
        grant_delegation_only := grant_delegation_only db @ (if only then [row_grant_id row] else [])\<rparr>"

lemma insert_grant_Inr [result_simps]:
  "insert_grant row ops ts only db = Inr db' \<longleftrightarrow>
     row_grant_id row \<notin> set (grant_ids db) \<and> db' = with_grant row ops ts only db"
  by (auto simp: insert_grant_def with_grant_def throw_if_Inr_iff grant_ids_def ex_key_iff)

lemma with_grant_tables [simp]:
  "grant_ids (with_grant row ops ts only db) = grant_ids db @ [row_grant_id row]"
  "grant_delegations (with_grant row ops ts only db) = grant_delegations db"
  "host_policies (with_grant row ops ts only db) = host_policies db"
  "notices (with_grant row ops ts only db) = notices db"
  "capability_grants (with_grant row ops ts only db) = capability_grants db @ [row]"
  "grant_operations (with_grant row ops ts only db) = grant_operations db @ map (Pair (row_grant_id row)) ops"
  "grant_targets (with_grant row ops ts only db) = grant_targets db @ map (Pair (row_grant_id row)) ts"
  "grant_delegation_only (with_grant row ops ts only db)
     = grant_delegation_only db @ (if only then [row_grant_id row] else [])"
  by (simp_all add: with_grant_def grant_ids_def)

text \<open>A new grant leaves every other grant as it was.\<close>

lemma filter_map_Pair [simp]:
  "filter (\<lambda>r. fst r = j) (map (Pair i) xs) = (if i = j then map (Pair i) xs else [])"
  by (induction xs) auto

lemma getGrant_with_grant_other:
  "j \<noteq> row_grant_id row \<Longrightarrow> getGrant js (with_grant row ops ts only db) j = getGrant js db j"
  by (simp add: getGrant_def with_grant_def operations_of_def targets_of_def row_where_append split: option.split)

lemma no_child_rows:
  "wf_db js db \<Longrightarrow> i \<notin> set (grant_ids db) \<Longrightarrow>
     filter (\<lambda>r. fst r = i) (grant_operations db) = [] \<and> filter (\<lambda>r. fst r = i) (grant_targets db) = []
     \<and> i \<notin> set (grant_delegation_only db)"
  unfolding wf_db_def by (auto simp: filter_empty_conv image_subset_iff)

lemma getGrant_with_grant_new:
  assumes "wf_db js db" and "row_grant_id row \<notin> set (grant_ids db)"
    and "ops \<noteq> []" and "boundaryFromRow (row_boundary_kind row) (row_boundary_id row) = Inr bnd"
    and "normalizeEvidence js (row_evidence row) = Inr ev"
  shows "getGrant js (with_grant row ops ts only db) (row_grant_id row) = Inr (Some
    \<lparr>grant_id = row_grant_id row, principal_id = row_principal_id row, grant_boundary = bnd,
     operation_ids = js_sort binary_compare ops, targets = js_sort target_row_compare ts,
     issued_at = row_issued_at row, expires_at = row_expires_at row, revoked_at = row_revoked_at row,
     issuer_id = row_issuer_id row, evidence = ev, delegation_only = only\<rparr>)"
proof -
  have "row_where (\<lambda>r. row_grant_id r = row_grant_id row) (capability_grants db) = None"
    using assms(2) by (simp add: row_where_fresh grant_ids_def)
  then show ?thesis
    using no_child_rows [OF assms(1,2)] assms(3-5)
    by (simp add: getGrant_def with_grant_def row_where_append operations_of_def targets_of_def comp_def)
qed

lemma wf_with_grant:
  assumes wf: "wf_db js db" and new: "row_grant_id row \<notin> set (grant_ids db)"
    and ops: "ops \<noteq> []" "distinct ops" "distinct ts"
    and row: "row_boundary_kind row \<in> {''workspace'', ''host''}" "row_evidence row \<noteq> []"
      "\<forall>e \<in> set (row_evidence row). \<not> is_blank (evidence_kind e) \<and> \<not> is_blank (evidence_ref e)"
      "date_parse js (row_issued_at row) \<noteq> None"
      "\<forall>e. row_expires_at row = Some e \<longrightarrow> date_parse js e \<noteq> None"
  shows "wf_db js (with_grant row ops ts only db)"
proof -
  let ?db = "with_grant row ops ts only db"
  have old: "wf_row js ?db r" if "r \<in> set (capability_grants db)" for r
    using wf_row_of [OF wf that] by (auto simp: wf_row_def)
  have "wf_row js ?db row" using row ops by (auto simp: wf_row_def neq_Nil_conv)
  moreover have "distinct (grant_operations ?db)" "distinct (grant_targets ?db)"
    using wf new ops by (auto simp: wf_db_def distinct_map inj_on_def)
  ultimately show ?thesis
    using wf new old by (auto simp: wf_db_def older_append)
qed

lemma insert_delegation_Inr [result_simps]:
  "insert_delegation d db = Inr db' \<longleftrightarrow>
     d_grant_id d \<notin> d_grant_id ` set (grant_delegations db)
     \<and> d_grant_id d \<noteq> d_source_grant_id d \<and> d_grant_id d \<noteq> d_authority_grant_id d
     \<and> {d_grant_id d, d_source_grant_id d, d_authority_grant_id d} \<subseteq> set (grant_ids db)
     \<and> db' = db\<lparr>grant_delegations := grant_delegations db @ [d]\<rparr>"
  unfolding insert_delegation_def throw_if_Inr_iff ex_key_iff grant_ids_def by auto

lemma wf_with_delegation:
  assumes "wf_db js db" and "d_grant_id d \<notin> d_grant_id ` set (grant_delegations db)"
    and "older (grant_ids db) (d_source_grant_id d) (d_grant_id d)"
    and "older (grant_ids db) (d_authority_grant_id d) (d_grant_id d)"
  shows "wf_db js (db\<lparr>grant_delegations := grant_delegations db @ [d]\<rparr>)"
  using assms by (auto simp: wf_db_def wf_row_def)

definition revoke_row :: "string \<Rightarrow> string \<Rightarrow> grant_db \<Rightarrow> grant_db" where
  "revoke_row i revokedAt db = db\<lparr>capability_grants :=
     set_where (\<lambda>r. row_grant_id r = i \<and> row_revoked_at r = None)
       (\<lambda>r. r\<lparr>row_revoked_at := Some revokedAt\<rparr>) (capability_grants db)\<rparr>"

lemma revoke_row_tables [simp]:
  "grant_ids (revoke_row i tm db) = grant_ids db"
  "grant_operations (revoke_row i tm db) = grant_operations db"
  "grant_targets (revoke_row i tm db) = grant_targets db"
  "grant_delegations (revoke_row i tm db) = grant_delegations db"
  "grant_delegation_only (revoke_row i tm db) = grant_delegation_only db"
  "host_policies (revoke_row i tm db) = host_policies db"
  "notices (revoke_row i tm db) = notices db"
  by (simp_all add: revoke_row_def grant_ids_def map_set_where)

lemma wf_revoke_row [simp]: "wf_db js db \<Longrightarrow> wf_db js (revoke_row i tm db)"
proof -
  assume wf: "wf_db js db"
  have "wf_row js (revoke_row i tm db) r" if r: "r \<in> set (capability_grants (revoke_row i tm db))" for r
  proof -
    from r obtain r0 where r0: "r0 \<in> set (capability_grants db)"
        and eq: "r = (if row_grant_id r0 = i \<and> row_revoked_at r0 = None then r0\<lparr>row_revoked_at := Some tm\<rparr> else r0)"
      by (auto simp: revoke_row_def in_set_where)
    from wf_row_of [OF wf r0] show ?thesis unfolding eq by (auto simp: wf_row_def)
  qed
  with wf show ?thesis by (simp add: wf_db_def)
qed

text \<open>Revocation changes the revocation time of one grant, once.\<close>

definition revoked_by :: "string \<Rightarrow> string \<Rightarrow> capability_grant \<Rightarrow> capability_grant" where
  "revoked_by i tm g = (if grant_id g = i \<and> revoked_at g = None then g\<lparr>revoked_at := Some tm\<rparr> else g)"

lemma getGrant_revoke_row:
  "getGrant js (revoke_row i tm db) j = rbind (getGrant js db j) (\<lambda>g. Inr (map_option (revoked_by i tm) g))"
proof -
  have row: "row_where (\<lambda>r. row_grant_id r = j) (capability_grants (revoke_row i tm db)) =
      map_option (\<lambda>r. if row_grant_id r = i \<and> row_revoked_at r = None then r\<lparr>row_revoked_at := Some tm\<rparr> else r)
        (row_where (\<lambda>r. row_grant_id r = j) (capability_grants db))"
    by (simp add: revoke_row_def row_where_set_where)
  show ?thesis
  proof (cases "row_where (\<lambda>r. row_grant_id r = j) (capability_grants db)")
    case None
    then show ?thesis by (simp add: getGrant_def row)
  next
    case (Some r)
    then have "row_grant_id r = j" by (auto dest: row_where_SomeD)
    with Some show ?thesis
      by (cases "boundaryFromRow (row_boundary_kind r) (row_boundary_id r)"; cases "normalizeEvidence js (row_evidence r)";
          simp add: getGrant_def row Let_def throw_if_def revoked_by_def operations_of_def targets_of_def)
  qed
qed

end
