(* ===== verification/Grant_Steps.thy ===== *)
theory Grant_Steps
  imports Grant_Invariants
begin

text \<open>
  What each writing operation of the grant store does to the tables when it succeeds, the
  preservation of \<^const>\<open>wf_db\<close>, and the transition relation they form.
\<close>

section \<open>Successful operations\<close>

definition chosen_id :: "string \<Rightarrow> issue_grant \<Rightarrow> string" where
  "chosen_id fresh input = (case ig_grant_id input of None \<Rightarrow> fresh | Some g \<Rightarrow> g)"

definition issued_row :: "string \<Rightarrow> string \<Rightarrow> issue_grant \<Rightarrow> string option \<Rightarrow> grant_evidence list \<Rightarrow> grant_row" where
  "issued_row now fresh input expiry ev = \<lparr>row_grant_id = chosen_id fresh input,
     row_principal_id = ig_principal_id input, row_boundary_kind = boundaryKind (ig_boundary input),
     row_boundary_id = boundaryId (ig_boundary input), row_issued_at = now, row_expires_at = expiry,
     row_revoked_at = None, row_issuer_id = ig_issuer_id input, row_evidence = ev\<rparr>"

lemma issued_row_simps [simp]:
  "row_grant_id (issued_row now fresh input expiry ev) = chosen_id fresh input"
  "row_principal_id (issued_row now fresh input expiry ev) = ig_principal_id input"
  "row_boundary_kind (issued_row now fresh input expiry ev) = boundaryKind (ig_boundary input)"
  "row_boundary_id (issued_row now fresh input expiry ev) = boundaryId (ig_boundary input)"
  "row_issued_at (issued_row now fresh input expiry ev) = now"
  "row_expires_at (issued_row now fresh input expiry ev) = expiry"
  "row_revoked_at (issued_row now fresh input expiry ev) = None"
  "row_issuer_id (issued_row now fresh input expiry ev) = ig_issuer_id input"
  "row_evidence (issued_row now fresh input expiry ev) = ev"
  by (simp_all add: issued_row_def)

definition issued_ops :: "platform \<Rightarrow> issue_grant \<Rightarrow> string list" where
  "issued_ops js input = js_sort (locale_compare js) (js_uniq (ig_operation_ids input))"

definition issued_targets :: "platform \<Rightarrow> issue_grant \<Rightarrow> grant_target list" where
  "issued_targets js input = js_sort (target_locale_compare js)
     (js_uniq (case ig_targets input of None \<Rightarrow> [] | Some ts \<Rightarrow> ts))"

definition issued_evidence :: "platform \<Rightarrow> issue_grant \<Rightarrow> grant_evidence list" where
  "issued_evidence js input = js_sort (evidence_locale_compare js) (js_uniq (ig_evidence input))"

definition issued_db :: "platform \<Rightarrow> string \<Rightarrow> string \<Rightarrow> issue_grant \<Rightarrow> string option \<Rightarrow> grant_db \<Rightarrow> grant_db" where
  "issued_db js now fresh input expiry db =
     with_grant (issued_row now fresh input expiry (issued_evidence js input)) (issued_ops js input)
       (issued_targets js input) (ig_delegation_only input) db"

lemma issueGrantE:
  assumes "issueGrant js now fresh input db = Inr (g, db')"
  obtains expiry t where "chosen_id fresh input \<notin> set (grant_ids db)" "ig_operation_ids input \<noteq> []"
    "ig_evidence input \<noteq> []"
    "\<forall>e \<in> set (ig_evidence input). \<not> is_blank (evidence_kind e) \<and> \<not> is_blank (evidence_ref e)"
    "ig_expires_at input = Some expiry" "date_parse js now = Some t"
    "\<forall>e. expiry = Some e \<longrightarrow> (\<exists>ms. date_parse js e = Some ms \<and> t < ms)"
    "getGrant js (issued_db js now fresh input expiry db) (chosen_id fresh input) = Inr (Some g)"
    "db' = (issued_db js now fresh input expiry db)\<lparr>notices := notices db @ [Issued g]\<rparr>"
proof -
  obtain expiry where e: "ig_expires_at input = Some expiry"
    using assms by (cases "ig_expires_at input") (auto simp: issueGrant_def result_simps)
  have fold: "with_grant \<lparr>row_grant_id = chosen_id fresh input,
     row_principal_id = ig_principal_id input, row_boundary_kind = boundaryKind (ig_boundary input),
     row_boundary_id = boundaryId (ig_boundary input), row_issued_at = now, row_expires_at = expiry,
     row_revoked_at = None, row_issuer_id = ig_issuer_id input, row_evidence = issued_evidence js input\<rparr>
     (issued_ops js input) (issued_targets js input) (ig_delegation_only input) db
     = issued_db js now fresh input expiry db"
    by (simp add: issued_db_def issued_row_def)
  show thesis
    using assms e that
    unfolding issueGrant_def Let_def rbind_Inr_iff throw_if_Inr_iff
      normalizeNonEmptySet_Inr normalizeTargets_Inr normalizeEvidence_Inr normalizeBoundary_Inr
      assertNonEmpty_Inr parseTimestamp_Inr
      issued_ops_def [symmetric] issued_targets_def [symmetric] issued_evidence_def [symmetric]
      chosen_id_def [symmetric]
    by (auto simp: fold result_simps issued_db_def not_le split: option.splits)
qed

lemma issued_db_tables [simp]:
  "grant_ids (issued_db js now fresh input expiry db) = grant_ids db @ [chosen_id fresh input]"
  "grant_delegations (issued_db js now fresh input expiry db) = grant_delegations db"
  "host_policies (issued_db js now fresh input expiry db) = host_policies db"
  "notices (issued_db js now fresh input expiry db) = notices db"
  by (simp_all add: issued_db_def)

lemma getGrant_issued_other:
  "j \<noteq> chosen_id fresh input \<Longrightarrow>
    getGrant js (issued_db js now fresh input expiry db) j = getGrant js db j"
  by (simp add: issued_db_def getGrant_with_grant_other)

lemma issued_targets_distinct [simp]: "distinct (issued_targets js input)" "distinct (issued_ops js input)"
  by (simp_all add: issued_targets_def issued_ops_def)

lemma issued_evidence_ok:
  "set (issued_evidence js input) = set (ig_evidence input)"
  by (simp add: issued_evidence_def)

lemma issueGrant_wf:
  assumes "issueGrant js now fresh input db = Inr (g, db')" and wf: "wf_db js db"
  shows "wf_db js db'"
  using assms(1)
proof (rule issueGrantE)
  fix expiry t
  assume new: "chosen_id fresh input \<notin> set (grant_ids db)" and ops: "ig_operation_ids input \<noteq> []"
    and ev: "ig_evidence input \<noteq> []"
      "\<forall>e \<in> set (ig_evidence input). \<not> is_blank (evidence_kind e) \<and> \<not> is_blank (evidence_ref e)"
    and t: "date_parse js now = Some t"
    and e: "\<forall>e. expiry = Some e \<longrightarrow> (\<exists>ms. date_parse js e = Some ms \<and> t < ms)"
    and db': "db' = (issued_db js now fresh input expiry db)\<lparr>notices := notices db @ [Issued g]\<rparr>"
  have "wf_db js (issued_db js now fresh input expiry db)"
    unfolding issued_db_def
    by (rule wf_with_grant [OF wf])
      (use new ops ev t e in \<open>auto simp: issued_ops_def issued_evidence_ok issued_evidence_def\<close>)
  then show ?thesis by (simp add: db')
qed

text \<open>The record an issue returns, in terms of its input.\<close>

lemma issueGrant_stored:
  assumes "issueGrant js now fresh input db = Inr (g, db')" and wf: "wf_db js db"
  obtains expiry where "ig_expires_at input = Some expiry"
    "g = \<lparr>grant_id = chosen_id fresh input, principal_id = ig_principal_id input, grant_boundary = ig_boundary input,
     operation_ids = js_sort binary_compare (issued_ops js input),
     targets = js_sort target_row_compare (issued_targets js input),
     issued_at = now, expires_at = expiry, revoked_at = None,
     issuer_id = ig_issuer_id input,
     evidence = js_sort (evidence_locale_compare js) (js_uniq (issued_evidence js input)),
     delegation_only = ig_delegation_only input\<rparr>"
  using assms(1)
proof (rule issueGrantE)
  fix expiry t
  assume new: "chosen_id fresh input \<notin> set (grant_ids db)" and ops: "ig_operation_ids input \<noteq> []"
    and ev: "ig_evidence input \<noteq> []"
      "\<forall>e \<in> set (ig_evidence input). \<not> is_blank (evidence_kind e) \<and> \<not> is_blank (evidence_ref e)"
    and ex: "ig_expires_at input = Some expiry"
    and g: "getGrant js (issued_db js now fresh input expiry db) (chosen_id fresh input) = Inr (Some g)"
  have "getGrant js (issued_db js now fresh input expiry db) (chosen_id fresh input) = Inr (Some
    \<lparr>grant_id = chosen_id fresh input, principal_id = ig_principal_id input, grant_boundary = ig_boundary input,
     operation_ids = js_sort binary_compare (issued_ops js input),
     targets = js_sort target_row_compare (issued_targets js input),
     issued_at = now, expires_at = expiry, revoked_at = None,
     issuer_id = ig_issuer_id input,
     evidence = js_sort (evidence_locale_compare js) (js_uniq (issued_evidence js input)),
     delegation_only = ig_delegation_only input\<rparr>)"
    using new ops ev
    by (subst issued_db_def, subst getGrant_with_grant_new [OF wf, where row = "issued_row now fresh input expiry (issued_evidence js input)", simplified])
      (auto simp: issued_ops_def normalizeEvidence_Inr issued_evidence_ok issued_evidence_def)
  with g ex show ?thesis by (intro that [of expiry]) simp_all
qed

lemma issueGrant_record:
  assumes "issueGrant js now fresh input db = Inr (g, db')" and wf: "wf_db js db"
  shows "grant_id g = chosen_id fresh input \<and> principal_id g = ig_principal_id input
    \<and> grant_boundary g = ig_boundary input \<and> issuer_id g = ig_issuer_id input
    \<and> set (operation_ids g) = set (ig_operation_ids input)
    \<and> set (targets g) = set (case ig_targets input of None \<Rightarrow> [] | Some ts \<Rightarrow> ts)
    \<and> issued_at g = now \<and> revoked_at g = None \<and> Some (expires_at g) = ig_expires_at input
    \<and> delegation_only g = ig_delegation_only input"
  by (rule issueGrant_stored [OF assms]) (simp add: issued_ops_def issued_targets_def)

lemma issueGrant_lists:
  assumes "issueGrant js now fresh input db = Inr (g, db')" and "wf_db js db"
  shows "operation_ids g = js_sort binary_compare (issued_ops js input)" and "targets g = js_sort target_row_compare (issued_targets js input)"
    and "evidence g = js_sort (evidence_locale_compare js) (js_uniq (issued_evidence js input))"
  by (rule issueGrant_stored [OF assms], simp)+

lemma issueGrant_tables:
  assumes "issueGrant js now fresh input db = Inr (g, db')"
  shows "grant_ids db' = grant_ids db @ [chosen_id fresh input]"
    and "chosen_id fresh input \<notin> set (grant_ids db)"
    and "grant_delegations db' = grant_delegations db" and "host_policies db' = host_policies db"
    and "getGrant js db' (chosen_id fresh input) = Inr (Some g)"
    and "j \<noteq> chosen_id fresh input \<Longrightarrow> getGrant js db' j = getGrant js db j"
    and "notices db' = notices db @ [Issued g]"
  using assms by (auto elim!: issueGrantE simp: getGrant_issued_other)

subsection \<open>Delegation\<close>

text \<open>
  Both ways to issue a delegated grant end in the same writes: a grant, then the delegation row
  that ties it to its parents, then a second notice.
\<close>

definition child_of :: "string \<Rightarrow> string \<Rightarrow> string \<Rightarrow> delegation_row" where
  "child_of c s a = \<lparr>d_grant_id = c, d_source_grant_id = s, d_authority_grant_id = a\<rparr>"

lemma child_of_simps [simp]:
  "d_grant_id (child_of c s a) = c" "d_source_grant_id (child_of c s a) = s" "d_authority_grant_id (child_of c s a) = a"
  by (simp_all add: child_of_def)

definition delegated_db :: "delegation_row \<Rightarrow> capability_grant \<Rightarrow> grant_db \<Rightarrow> grant_db" where
  "delegated_db d g db = db\<lparr>grant_delegations := grant_delegations db @ [d], notices := notices db @ [Issued g]\<rparr>"

lemma narrows_Inr [result_simps]:
  "narrows source ops ts = Inr u \<longleftrightarrow>
     set ops \<subseteq> set (operation_ids source)
     \<and> (targets source \<noteq> [] \<longrightarrow> ts \<noteq> [] \<and> (\<forall>t \<in> set ts. \<exists>a \<in> set (targets source). targetContains a t))"
  by (auto simp: narrows_def throw_if_Inr_iff list_ex_iff)

end
