(* ===== verification/Grant_Delegation.thy ===== *)
theory Grant_Delegation
  imports Grant_Steps
begin

text \<open>
  Session inspection in declarative form, the two delegating operations, revocation and host
  policies: what each does on success, and that each preserves \<^const>\<open>wf_db\<close>.
\<close>

section \<open>Session inspection\<close>

text \<open>The grant \<open>g\<close> with identifier \<open>i\<close> is usable by this session at this time.\<close>

definition session_live ::
  "platform \<Rightarrow> grant_db \<Rightarrow> string \<Rightarrow> boundary \<Rightarrow> int \<Rightarrow> string \<Rightarrow> capability_grant \<Rightarrow> bool" where
  "session_live js db who bnd nowMs i g \<longleftrightarrow>
     getGrant js db i = Inr (Some g)
     \<and> grantReferenceFailure js (Some g) who bnd nowMs = Inr None
     \<and> delegationIsActive js db i nowMs = Inr True"

lemma session_live_id: "session_live js db who bnd nowMs i g \<Longrightarrow> grant_id g = i"
  by (auto simp: session_live_def dest: getGrant_id)

lemma session_live_fun: "session_live js db who bnd t i g \<Longrightarrow> session_live js db who bnd t i h \<Longrightarrow> g = h"
  by (simp add: session_live_def)

abbreviation live_for :: "platform \<Rightarrow> grant_db \<Rightarrow> session_binding \<Rightarrow> int \<Rightarrow> string \<Rightarrow> capability_grant \<Rightarrow> bool" where
  "live_for js db session \<equiv> session_live js db (sb_principal_id session) (sb_boundary session)"

abbreviation live_under :: "platform \<Rightarrow> grant_db \<Rightarrow> authority_context \<Rightarrow> int \<Rightarrow> string \<Rightarrow> capability_grant \<Rightarrow> bool" where
  "live_under js db authority \<equiv> session_live js db (auth_principal_id authority) (auth_boundary authority)"

lemma grantReferenceFailure_None_grant [simp]:
  "grantReferenceFailure js None who bnd t = Inr (Some grant_not_found)"
  by (simp add: grantReferenceFailure_def)

lemma inspect_one_Inr:
  assumes "inspect_one js db session nowMs i acc = Inr acc'"
  shows "(\<exists>g. live_for js db session nowMs i g \<and>
            acc' = (if delegation_only g then acc\<lparr>delegable_grants := delegable_grants acc @ [g]\<rparr>
                    else acc\<lparr>active_grants := active_grants acc @ [g]\<rparr>))
       \<or> ((\<forall>g. \<not> live_for js db session nowMs i g) \<and>
            (\<exists>c. acc' = acc\<lparr>unavailable_grants := unavailable_grants acc @ [(i, c)]\<rparr>))"
proof -
  from assms obtain grant failure code where grant: "getGrant js db i = Inr grant"
      and failure: "grantReferenceFailure js grant (sb_principal_id session) (sb_boundary session) nowMs = Inr failure"
      and code: "(case failure of Some c \<Rightarrow> Inr (Some c)
            | None \<Rightarrow> rbind (delegationIsActive js db i nowMs)
                (\<lambda>active. Inr (if active then None else Some grant_dependency_unavailable))) = Inr code"
      and acc': "acc' = (case (code, grant) of
            (None, Some g) \<Rightarrow>
              if delegation_only g then acc\<lparr>delegable_grants := delegable_grants acc @ [g]\<rparr>
              else acc\<lparr>active_grants := active_grants acc @ [g]\<rparr>
          | _ \<Rightarrow> acc\<lparr>unavailable_grants := unavailable_grants acc
                  @ [(i, case code of Some c \<Rightarrow> c | None \<Rightarrow> grant_not_found)]\<rparr>)"
    unfolding inspect_one_def rbind_Inr_iff by auto
  show ?thesis
  proof (cases code)
    case None
    then have "failure = None" "delegationIsActive js db i nowMs = Inr True"
      using code by (auto simp: result_simps split: option.splits if_splits)
    moreover from this failure obtain g where "grant = Some g" by (cases grant) auto
    ultimately show ?thesis using grant failure acc' None by (auto simp: session_live_def)
  next
    case (Some c)
    then have "\<not> live_for js db session nowMs i g" for g
      using code grant failure by (auto simp: session_live_def result_simps split: option.splits if_splits)
    then show ?thesis using acc' Some by auto
  qed
qed

lemma inspect_all_Inr:
  "inspect_all js db session nowMs ids acc = Inr insp \<Longrightarrow>
     set (active_grants insp) = set (active_grants acc) \<union>
       {g. \<exists>i \<in> set ids. live_for js db session nowMs i g \<and> \<not> delegation_only g}
   \<and> set (delegable_grants insp) = set (delegable_grants acc) \<union>
       {g. \<exists>i \<in> set ids. live_for js db session nowMs i g \<and> delegation_only g}
   \<and> (unavailable_grants insp = [] \<longleftrightarrow> unavailable_grants acc = [] \<and>
       (\<forall>i \<in> set ids. \<exists>g. live_for js db session nowMs i g))"
proof (induction ids arbitrary: acc)
  case (Cons i ids)
  from Cons.prems obtain acc' where one: "inspect_one js db session nowMs i acc = Inr acc'"
      and rest: "inspect_all js db session nowMs ids acc' = Inr insp"
    by (auto simp: result_simps)
  note IH = Cons.IH [OF rest]
  from inspect_one_Inr [OF one] show ?case
  proof (elim disjE exE conjE)
    fix g
    assume "live_for js db session nowMs i g"
      and "acc' = (if delegation_only g then acc\<lparr>delegable_grants := delegable_grants acc @ [g]\<rparr>
                    else acc\<lparr>active_grants := active_grants acc @ [g]\<rparr>)"
    with IH show ?thesis by (auto dest: session_live_fun)
  next
    fix c
    assume "\<forall>g. \<not> live_for js db session nowMs i g"
      and "acc' = acc\<lparr>unavailable_grants := unavailable_grants acc @ [(i, c)]\<rparr>"
    with IH show ?thesis by auto
  qed
qed simp

lemma inspectSessionGrantIds_Inr:
  assumes "inspectSessionGrantIds js db now session = Inr insp"
  obtains nowMs where "date_parse js now = Some nowMs"
    "set (active_grants insp) =
       {g. \<exists>i \<in> set (sb_grant_ids session). live_for js db session nowMs i g \<and> \<not> delegation_only g}"
    "set (delegable_grants insp) =
       {g. \<exists>i \<in> set (sb_grant_ids session). live_for js db session nowMs i g \<and> delegation_only g}"
    "unavailable_grants insp = [] \<longleftrightarrow> (\<forall>i \<in> set (sb_grant_ids session). \<exists>g. live_for js db session nowMs i g)"
proof -
  from assms obtain nowMs where t: "date_parse js now = Some nowMs"
      and all: "inspect_all js db session nowMs (js_sort (locale_compare js) (js_uniq (sb_grant_ids session)))
         \<lparr>active_grants = [], delegable_grants = [], unavailable_grants = []\<rparr> = Inr insp"
    by (auto simp: inspectSessionGrantIds_def result_simps)
  from inspect_all_Inr [OF all] show thesis by (intro that [OF t]) simp_all
qed

lemma requireActive_single:
  assumes "requireActiveSessionGrantIds js db now session = Inr ids" and "sb_grant_ids session = [i]"
  shows "ids = [i]" and "\<exists>nowMs g. date_parse js now = Some nowMs \<and> live_for js db session nowMs i g"
proof -
  from assms(1) obtain insp where insp: "inspectSessionGrantIds js db now session = Inr insp"
      and none: "unavailable_grants insp = []" and live: "live_grants insp \<noteq> []"
      and ids: "ids = filter (\<lambda>i. i \<in> set (map grant_id (live_grants insp)))
        (js_sort (locale_compare js) (js_uniq (sb_grant_ids session)))"
    by (auto simp: requireActiveSessionGrantIds_def result_simps)
  from insp obtain nowMs where t: "date_parse js now = Some nowMs"
      and ex: "\<exists>g. live_for js db session nowMs i g"
      and ag: "set (active_grants insp) = {g. live_for js db session nowMs i g \<and> \<not> delegation_only g}"
      and dg: "set (delegable_grants insp) = {g. live_for js db session nowMs i g \<and> delegation_only g}"
    using none assms(2) by (elim inspectSessionGrantIds_Inr) auto
  from ex obtain g where g: "live_for js db session nowMs i g" by blast
  then have "g \<in> set (live_grants insp)" using ag dg by (auto simp: live_grants_def)
  then have "i \<in> grant_id ` set (live_grants insp)" using session_live_id [OF g] by force
  moreover have "js_uniq [i] = [i]" by (simp add: js_uniq_def)
  ultimately show "ids = [i]" using ids assms(2) by simp
  show "\<exists>nowMs g. date_parse js now = Some nowMs \<and> live_for js db session nowMs i g"
    using t g by blast
qed

section \<open>The delegating operations\<close>

definition session_of :: "authority_context \<Rightarrow> string list \<Rightarrow> session_binding" where
  "session_of authority ids = \<lparr>sb_principal_id = auth_principal_id authority,
     sb_boundary = auth_boundary authority, sb_grant_ids = ids\<rparr>"

lemma session_of_simps [simp]:
  "sb_principal_id (session_of a ids) = auth_principal_id a" "sb_boundary (session_of a ids) = auth_boundary a"
  "sb_grant_ids (session_of a ids) = ids"
  by (simp_all add: session_of_def)

lemma delegation_permissionD:
  assumes "delegation_permission js db now authority recipient = Inr (Some (ms, g))"
  obtains nowMs where "date_parse js now = Some nowMs"
    "live_under js db authority nowMs (grant_id g) g" "\<not> delegation_only g"
    "grant_id g \<in> set (capability_grant_ids authority)"
    "''capability.grant.delegate'' \<in> set (operation_ids g)" "grantAppliesToTarget g (Some recipient)"
    "expiryMs js (expires_at g) = Inr ms"
proof -
  from assms obtain insp keyed where
      insp: "inspectSessionGrantIds js db now (session_of authority (capability_grant_ids authority)) = Inr insp"
      and keyed: "rmapM (\<lambda>g. rbind (expiryMs js (expires_at g)) (\<lambda>ms. Inr (ms, g)))
              (filter (\<lambda>g. ''capability.grant.delegate'' \<in> set (operation_ids g)
                         \<and> grantAppliesToTarget g (Some recipient)) (active_grants insp)) = Inr keyed"
      and hd: "Some (ms, g) = (case js_sort (permission_compare js) keyed of [] \<Rightarrow> None | p # _ \<Rightarrow> Some p)"
    unfolding delegation_permission_def rbind_Inr_iff session_of_def by auto
  from hd have "(ms, g) \<in> set (js_sort (permission_compare js) keyed)"
    by (cases "js_sort (permission_compare js) keyed") auto
  then have "(ms, g) \<in> set keyed" by simp
  from rmapM_Inr_mem [OF keyed this] obtain h where "h \<in> set (active_grants insp)" "''capability.grant.delegate'' \<in> set (operation_ids h)"
      "grantAppliesToTarget h (Some recipient)" "rbind (expiryMs js (expires_at h)) (\<lambda>ms. Inr (ms, h)) = Inr (ms, g)"
    by auto
  moreover from this have "h = g" and "expiryMs js (expires_at g) = Inr ms" by (auto simp: result_simps)
  ultimately show thesis using insp
    by (elim inspectSessionGrantIds_Inr) (auto intro!: that dest: session_live_id)
qed

definition delegated_input :: "delegate_input \<Rightarrow> string list \<Rightarrow> grant_target list \<Rightarrow> string option \<Rightarrow> issue_grant" where
  "delegated_input input ops ts expiry = \<lparr>ig_grant_id = None, ig_principal_id = dg_principal_id input,
     ig_boundary = auth_boundary (dg_authority input), ig_operation_ids = ops, ig_targets = Some ts,
     ig_expires_at = Some expiry, ig_issuer_id = auth_principal_id (dg_authority input),
     ig_evidence = [\<lparr>evidence_kind = ''operation_invocation'', evidence_ref = dg_invocation_id input\<rparr>],
     ig_delegation_only = dg_delegation_only input\<rparr>"

lemma delegated_input_simps [simp]:
  "ig_grant_id (delegated_input input ops ts expiry) = None"
  "ig_principal_id (delegated_input input ops ts expiry) = dg_principal_id input"
  "ig_boundary (delegated_input input ops ts expiry) = auth_boundary (dg_authority input)"
  "ig_operation_ids (delegated_input input ops ts expiry) = ops"
  "ig_targets (delegated_input input ops ts expiry) = Some ts"
  "ig_expires_at (delegated_input input ops ts expiry) = Some expiry"
  "ig_issuer_id (delegated_input input ops ts expiry) = auth_principal_id (dg_authority input)"
  "chosen_id fresh (delegated_input input ops ts expiry) = fresh"
  by (simp_all add: delegated_input_def chosen_id_def)

lemma getGrant_in_ids: "getGrant js db i = Inr (Some g) \<Longrightarrow> i \<in> set (grant_ids db)"
  using getGrant_None_iff [of js db i] by auto

lemma delegateGrantE:
  assumes "delegateGrant js now1 now2 now3 fresh input db = Inr (g, db')"
  obtains parent permission ops ts expiry t1 t2 parentMs permissionMs ms db1 where
    "date_parse js now1 = Some t1"
    "live_under js db (dg_authority input) t1 (dg_source_grant_id input) parent"
    "dg_source_grant_id input \<in> set (session_capability_grant_ids (dg_authority input))"
    "date_parse js now2 = Some t2"
    "live_under js db (dg_authority input) t2 (grant_id permission) permission"
    "\<not> delegation_only permission"
    "''capability.grant.delegate'' \<in> set (operation_ids permission)"
    "grantAppliesToTarget permission (Some (dg_recipient input))"
    "''capability.grant.delegate'' \<in> set (auth_grants (dg_authority input))"
    "set ops = set (dg_operation_ids input)" "set ops \<subseteq> set (operation_ids parent)"
    "set ts = set (case dg_targets input of None \<Rightarrow> targets parent | Some ts \<Rightarrow> ts)"
    "targets parent \<noteq> [] \<longrightarrow> ts \<noteq> [] \<and> (\<forall>t \<in> set ts. \<exists>a \<in> set (targets parent). targetContains a t)"
    "dg_expires_at input = Some expiry"
    "expiryMs js (expires_at parent) = Inr parentMs" "expiryMs js (expires_at permission) = Inr permissionMs"
    "expiryMs js expiry = Inr ms" "ms \<le> min parentMs permissionMs"
    "issueGrant js now3 fresh (delegated_input input ops ts expiry) db = Inr (g, db1)"
    "d_grant_id (child_of (grant_id g) (grant_id parent) (grant_id permission)) \<notin> d_grant_id ` set (grant_delegations db1)"
    "{grant_id parent, grant_id permission} \<subseteq> set (grant_ids db)"
    "db' = delegated_db (child_of (grant_id g) (grant_id parent) (grant_id permission)) g db1"
proof -
  let ?a = "dg_authority input"
  from assms obtain ids where ids: "requireActiveSessionGrantIds js db now1 (session_of ?a [dg_source_grant_id input]) = Inr ids"
      and rest: "delegateGrant js now1 now2 now3 fresh input db = Inr (g, db')"
    unfolding delegateGrant_def Let_def rbind_Inr_iff session_of_def by auto
  note single = requireActive_single [OF ids, of "dg_source_grant_id input", simplified]
  from single(2) obtain t1 parent where t1: "date_parse js now1 = Some t1"
      and p: "live_under js db ?a t1 (dg_source_grant_id input) parent" by auto
  have parent: "getGrant js db (dg_source_grant_id input) = Inr (Some parent)"
    using p by (simp add: session_live_def)
  from rest ids obtain found where found: "delegation_permission js db now2 ?a (dg_recipient input) = Inr found"
      and src: "dg_source_grant_id input \<in> set (session_capability_grant_ids ?a)"
    unfolding delegateGrant_def Let_def rbind_Inr_iff throw_if_Inr_iff session_of_def [symmetric] single(1) by auto
  obtain permissionMs permission where f: "found = Some (permissionMs, permission)"
    using rest found ids single(1) unfolding delegateGrant_def Let_def rbind_Inr_iff throw_if_Inr_iff
    by (cases found) auto
  obtain expiry where ex: "dg_expires_at input = Some expiry"
    using rest found f unfolding delegateGrant_def Let_def rbind_Inr_iff throw_if_Inr_iff
    by (cases "dg_expires_at input") (auto simp: result_simps)
  define ops where "ops = js_sort (locale_compare js) (js_uniq (dg_operation_ids input))"
  define ts where "ts = js_sort (target_locale_compare js)
    (js_uniq (case dg_targets input of None \<Rightarrow> targets parent | Some ts \<Rightarrow> ts))"
  from rest ids single(1) found f ex parent obtain parentMs ms db1 where
      ok: "''capability.grant.delegate'' \<in> set (auth_grants ?a)" "narrows parent ops ts = Inr ()"
        "expiryMs js (expires_at parent) = Inr parentMs" "expiryMs js expiry = Inr ms" "\<not> ms > min parentMs permissionMs"
      and issue: "issueGrant js now3 fresh (delegated_input input ops ts expiry) db = Inr (g, db1)"
      and ins: "\<exists>db2. insert_delegation (child_of (grant_id g) (grant_id parent) (grant_id permission)) db1 = Inr db2
        \<and> db' = db2\<lparr>notices := notices db2 @ [Issued g]\<rparr>"
    unfolding delegateGrant_def Let_def rbind_Inr_iff throw_if_Inr_iff session_of_def [symmetric] child_of_def
      normalizeNonEmptySet_Inr normalizeTargets_Inr requireGrant_Inr ops_def [symmetric] delegated_input_def
    by (auto simp: ts_def ops_def result_simps)
  from found f obtain t2 where perm: "date_parse js now2 = Some t2"
      "live_under js db ?a t2 (grant_id permission) permission"
      "\<not> delegation_only permission" "''capability.grant.delegate'' \<in> set (operation_ids permission)"
      "grantAppliesToTarget permission (Some (dg_recipient input))" "expiryMs js (expires_at permission) = Inr permissionMs"
    by (auto elim: delegation_permissionD)
  have in_db: "{grant_id parent, grant_id permission} \<subseteq> set (grant_ids db)"
    using parent perm(2) getGrant_id [OF parent] by (auto simp: session_live_def dest: getGrant_in_ids)
  show thesis
  proof (rule that [OF t1 p src perm(1-5) ok(1)])
    show "set ops = set (dg_operation_ids input)" by (simp add: ops_def)
    show "set ts = set (case dg_targets input of None \<Rightarrow> targets parent | Some ts \<Rightarrow> ts)" by (simp add: ts_def)
    show "db' = delegated_db (child_of (grant_id g) (grant_id parent) (grant_id permission)) g db1"
      and "d_grant_id (child_of (grant_id g) (grant_id parent) (grant_id permission)) \<notin> d_grant_id ` set (grant_delegations db1)"
      using ins by (auto simp: insert_delegation_Inr delegated_db_def)
  qed (use ok issue ex perm(6) in_db in \<open>simp_all add: narrows_Inr not_less\<close>)
qed

definition dependent_issue ::
  "dependent_input \<Rightarrow> capability_grant \<Rightarrow> string list \<Rightarrow> grant_target list \<Rightarrow> issue_grant" where
  "dependent_issue input source ops ts = \<lparr>ig_grant_id = di_grant_id input, ig_principal_id = di_principal_id input,
     ig_boundary = grant_boundary source, ig_operation_ids = ops, ig_targets = Some ts,
     ig_expires_at = Some (di_expires_at input), ig_issuer_id = principal_id source,
     ig_evidence = di_evidence input, ig_delegation_only = False\<rparr>"

lemma dependent_issue_simps [simp]:
  "ig_principal_id (dependent_issue input source ops ts) = di_principal_id input"
  "ig_boundary (dependent_issue input source ops ts) = grant_boundary source"
  "ig_operation_ids (dependent_issue input source ops ts) = ops"
  "ig_targets (dependent_issue input source ops ts) = Some ts"
  "ig_expires_at (dependent_issue input source ops ts) = Some (di_expires_at input)"
  "ig_issuer_id (dependent_issue input source ops ts) = principal_id source"
  by (simp_all add: dependent_issue_def)

lemma issueDependentGrantE:
  assumes "issueDependentGrant js now1 now2 fresh input db = Inr (g, db')"
  obtains source ops ts t db1 where
    "getGrant js db (di_source_grant_id input) = Inr (Some source)"
    "date_parse js now1 = Some t" "isActiveGrant js db source t = Inr True"
    "set ops = set (di_operation_ids input)" "set ops \<subseteq> set (operation_ids source)"
    "targets source \<noteq> [] \<longrightarrow> ts \<noteq> [] \<and> (\<forall>t \<in> set ts. \<exists>a \<in> set (targets source). targetContains a t)"
    "\<forall>e. di_expires_at input = Some e \<longrightarrow> (\<exists>ms ee limit. date_parse js e = Some ms
       \<and> effectiveExpiry js db (grant_id source) = Inr ee \<and> expiryMs js ee = Inr limit \<and> Ms ms \<le> limit)"
    "issueGrant js now2 fresh (dependent_issue input source ops ts) db = Inr (g, db1)"
    "grant_id g \<notin> d_grant_id ` set (grant_delegations db1)" "grant_id source \<in> set (grant_ids db)"
    "db' = delegated_db (child_of (grant_id g) (grant_id source) (grant_id source)) g db1"
proof -
  from assms obtain source where source: "getGrant js db (di_source_grant_id input) = Inr (Some source)"
    unfolding issueDependentGrant_def rbind_Inr_iff requireGrant_Inr by auto
  define ops where "ops = js_sort (locale_compare js) (js_uniq (di_operation_ids input))"
  define ts where "ts = js_sort (target_locale_compare js)
    (js_uniq (case di_targets input of None \<Rightarrow> [] | Some ts \<Rightarrow> ts))"
  from assms source obtain t u db1 where ok: "date_parse js now1 = Some t" "isActiveGrant js db source t = Inr True"
        "narrows source ops ts = Inr ()"
      and e: "(case di_expires_at input of
              None \<Rightarrow> Inr ()
            | Some e \<Rightarrow> rbind (parseTimestamp js ''expires_at'' e) (\<lambda>ms.
                rbind (effectiveExpiry js db (grant_id source)) (\<lambda>ee.
                rbind (expiryMs js ee) (\<lambda>limit. throw_if (Ms ms > limit) OutlivesSource (Inr ()))))) = Inr u"
      and issue: "issueGrant js now2 fresh (dependent_issue input source ops ts) db = Inr (g, db1)"
      and ins: "\<exists>db2. insert_delegation (child_of (grant_id g) (grant_id source) (grant_id source)) db1 = Inr db2
        \<and> db' = db2\<lparr>notices := notices db2 @ [Issued g]\<rparr>"
    unfolding issueDependentGrant_def rbind_Inr_iff throw_if_Inr_iff requireGrant_Inr parseTimestamp_Inr
      normalizeNonEmptySet_Inr normalizeTargets_Inr child_of_def dependent_issue_def
    by (auto simp: ops_def ts_def rbind_Inr_iff)
  show thesis
  proof (rule that [OF source ok(1,2)])
    show "\<forall>e. di_expires_at input = Some e \<longrightarrow> (\<exists>ms ee limit. date_parse js e = Some ms
       \<and> effectiveExpiry js db (grant_id source) = Inr ee \<and> expiryMs js ee = Inr limit \<and> Ms ms \<le> limit)"
      using e by (auto simp: result_simps not_less)
    show "db' = delegated_db (child_of (grant_id g) (grant_id source) (grant_id source)) g db1"
      and "grant_id g \<notin> d_grant_id ` set (grant_delegations db1)"
      using ins by (auto simp: insert_delegation_Inr delegated_db_def)
    show "grant_id source \<in> set (grant_ids db)"
      using getGrant_id [OF source] getGrant_in_ids [OF source] by simp
  qed (use ok issue in \<open>auto simp: narrows_Inr ops_def\<close>)
qed

lemma wf_delegated:
  assumes issue: "issueGrant js now fresh inp db = Inr (g, db1)" and wf: "wf_db js db"
    and par: "s \<in> set (grant_ids db)" "a \<in> set (grant_ids db)"
    and new: "grant_id g \<notin> d_grant_id ` set (grant_delegations db1)"
  shows "wf_db js (delegated_db (child_of (grant_id g) s a) g db1)"
proof -
  have "grant_ids db1 = grant_ids db @ [grant_id g]"
    using issueGrant_tables(1) [OF issue] issueGrant_record [OF issue wf] by simp
  then have "wf_db js (db1\<lparr>grant_delegations := grant_delegations db1 @ [child_of (grant_id g) s a]\<rparr>)"
    using par new by (intro wf_with_delegation issueGrant_wf [OF issue wf]) (auto simp: older_snoc)
  then show ?thesis
    unfolding delegated_db_def
    by (subst (asm) wf_db_other_tables(1) [symmetric, where x = "notices db1 @ [Issued g]"]) simp
qed

lemma delegateGrant_wf:
  "delegateGrant js now1 now2 now3 fresh input db = Inr (g, db') \<Longrightarrow> wf_db js db \<Longrightarrow> wf_db js db'"
  by (elim delegateGrantE) (auto intro: wf_delegated)

lemma issueDependentGrant_wf:
  "issueDependentGrant js now1 now2 fresh input db = Inr (g, db') \<Longrightarrow> wf_db js db \<Longrightarrow> wf_db js db'"
  by (elim issueDependentGrantE) (auto intro: wf_delegated)

section \<open>Revocation\<close>

lemma revokeGrantE:
  assumes "revokeGrant js i tm db = Inr (done, db')"
  obtains (unchanged) "\<not> done" "db' = db"
      "getGrant js db i = Inr None \<or> (\<exists>g. getGrant js db i = Inr (Some g) \<and> revoked_at g \<noteq> None)"
  | (revoked) g t where "done" "getGrant js db i = Inr (Some g)" "revoked_at g = None" "date_parse js tm = Some t"
      "getGrant js (revoke_row i tm db) i = Inr (Some (g\<lparr>revoked_at := Some tm\<rparr>))"
      "db' = (revoke_row i tm db)\<lparr>notices := notices db @ [Revoked (g\<lparr>revoked_at := Some tm\<rparr>)]\<rparr>"
proof -
  from assms obtain found t where found: "getGrant js db i = Inr found" and t: "date_parse js tm = Some t"
    unfolding revokeGrant_def rbind_Inr_iff parseTimestamp_Inr by auto
  show thesis
  proof (cases "\<exists>g. found = Some g \<and> revoked_at g = None")
    case True
    then obtain g where g: "found = Some g" "revoked_at g = None" by blast
    have i: "grant_id g = i" using found g getGrant_id by simp
    have after: "getGrant js (revoke_row i tm db) i = Inr (Some (g\<lparr>revoked_at := Some tm\<rparr>))"
      using found g i by (simp add: getGrant_revoke_row revoked_by_def)
    have "done" and "db' = (revoke_row i tm db)\<lparr>notices := notices db @ [Revoked (g\<lparr>revoked_at := Some tm\<rparr>)]\<rparr>"
      using assms found g after
      unfolding revokeGrant_def rbind_Inr_iff throw_if_Inr_iff Let_def revoke_row_def [symmetric] requireGrant_Inr
      by (auto simp: result_simps)
    then show thesis using revoked found g t after by blast
  next
    case False
    then have "\<not> done" and "db' = db"
      using assms found unfolding revokeGrant_def rbind_Inr_iff
      by (cases found; auto)+
    then show thesis using unchanged found False by (cases found) auto
  qed
qed

lemma revokeGrant_wf: "revokeGrant js i tm db = Inr (done, db') \<Longrightarrow> wf_db js db \<Longrightarrow> wf_db js db'"
  by (erule revokeGrantE) auto

end
