(* ===== verification/Grant_Chains.thy ===== *)
theory Grant_Chains
  imports Grant_Delegation
begin

text \<open>
  The delegation chain above a grant, as a least fixed point, and the memoised, path-guarded
  recursion of \<^verbatim>\<open>delegationIsActive\<close> as a decision procedure for it. The effective expiry of a
  grant is the least expiry of the chain.
\<close>

section \<open>Live chains\<close>

definition parent_rel :: "grant_db \<Rightarrow> (string \<times> string) set" where
  "parent_rel db = {(c, p). \<exists>d. getDelegation db c = Some d \<and> p \<in> set (delegation_parents d)}"

lemma set_delegation_parents [simp]:
  "set (delegation_parents d) = {d_source_grant_id d, d_authority_grant_id d}"
  by (simp add: delegation_parents_def)

text \<open>The parent's grant is held by the child's issuer, in the child's boundary, and is current.\<close>

definition parent_ok :: "platform \<Rightarrow> grant_db \<Rightarrow> int \<Rightarrow> capability_grant \<Rightarrow> string \<Rightarrow> bool" where
  "parent_ok js db nowMs child p \<longleftrightarrow>
     (\<exists>parent. getGrant js db p = Inr (Some parent)
        \<and> grantReferenceFailure js (Some parent) (issuer_id child) (grant_boundary child) nowMs = Inr None)"

inductive live_chain :: "platform \<Rightarrow> grant_db \<Rightarrow> int \<Rightarrow> string \<Rightarrow> bool" for js db nowMs where
  root: "getDelegation db i = None \<Longrightarrow> live_chain js db nowMs i"
| child: "getDelegation db i = Some d \<Longrightarrow> getGrant js db i = Inr (Some g) \<Longrightarrow>
    (\<And>p. p \<in> set (delegation_parents d) \<Longrightarrow> parent_ok js db nowMs g p) \<Longrightarrow>
    (\<And>p. p \<in> set (delegation_parents d) \<Longrightarrow> live_chain js db nowMs p) \<Longrightarrow>
    live_chain js db nowMs i"

lemma live_chain_root: "getDelegation db i = None \<Longrightarrow> live_chain js db t i = True"
  by (simp add: live_chain.root)

lemma live_chain_child:
  "getDelegation db i = Some d \<Longrightarrow> getGrant js db i = Inr (Some g) \<Longrightarrow>
    live_chain js db t i \<longleftrightarrow> (\<forall>p \<in> set (delegation_parents d). parent_ok js db t g p \<and> live_chain js db t p)"
  by (subst live_chain.simps) (simp del: set_delegation_parents, blast)

lemma parent_rel_root: "getDelegation db i = None \<Longrightarrow> (i, p) \<notin> parent_rel db"
  by (simp add: parent_rel_def)

lemma parent_rel_child:
  "getDelegation db i = Some d \<Longrightarrow> (i, p) \<in> parent_rel db \<longleftrightarrow> p \<in> set (delegation_parents d)"
  by (simp add: parent_rel_def)

text \<open>No live chain runs into a cycle, so refusing a grant met again on the path is right.\<close>

lemma live_chain_no_cycle:
  "live_chain js db t i \<Longrightarrow> (i, x) \<in> (parent_rel db)\<^sup>* \<Longrightarrow> (x, x) \<notin> (parent_rel db)\<^sup>+"
proof (induction arbitrary: x rule: live_chain.induct)
  case (root i)
  then have "x = i" by (metis converse_rtranclE parent_rel_root)
  with root show ?case by (metis converse_tranclE parent_rel_root)
next
  case (child i d g)
  note up = parent_rel_child [OF child.hyps(1)]
  show ?case
  proof
    assume loop: "(x, x) \<in> (parent_rel db)\<^sup>+"
    have "\<exists>p. (i, p) \<in> parent_rel db \<and> (p, x) \<in> (parent_rel db)\<^sup>*"
    proof (cases "x = i")
      case True
      with loop show ?thesis by (metis tranclD)
    next
      case False
      with child.prems show ?thesis by (metis converse_rtranclE)
    qed
    then obtain p where "p \<in> set (delegation_parents d)" "(p, x) \<in> (parent_rel db)\<^sup>*"
      using up by auto
    then show False using child.IH loop by blast
  qed
qed

section \<open>The recursion decides live chains\<close>

definition memo_ok :: "platform \<Rightarrow> grant_db \<Rightarrow> int \<Rightarrow> memo \<Rightarrow> bool" where
  "memo_ok js db t memo \<longleftrightarrow> (\<forall>i b. map_of memo i = Some b \<longrightarrow> b = live_chain js db t i)"

lemma memo_ok_Nil [simp]: "memo_ok js db t []"
  by (simp add: memo_ok_def)

lemma memo_ok_Cons [simp]: "b = live_chain js db t i \<Longrightarrow> memo_ok js db t m \<Longrightarrow> memo_ok js db t ((i, b) # m)"
  by (simp add: memo_ok_def)

lemma grantReferenceFailure_total:
  "wf_db js db \<Longrightarrow> getGrant js db p = Inr (Some g) \<Longrightarrow> \<exists>f. grantReferenceFailure js (Some g) who bnd t = Inr f"
  using getGrant_times [of js db p g]
  by (auto simp: grantReferenceFailure_def parseTimestamp_def)

lemma wf_delegated_exists:
  "wf_db js db \<Longrightarrow> getDelegation db i = Some d \<Longrightarrow> \<exists>g. getGrant js db i = Inr (Some g)"
proof -
  assume wf: "wf_db js db" and d: "getDelegation db i = Some d"
  from d have "d \<in> set (grant_delegations db)" "d_grant_id d = i"
    by (auto simp: getDelegation_def dest: row_where_SomeD)
  with wf have "i \<in> set (grant_ids db)" by (auto simp: wf_db_def dest: older_in)
  with getGrant_total [OF wf, of i] getGrant_None_iff [of js db i] show ?thesis by (metis not_None_eq)
qed

lemma active_decides:
  assumes wf: "wf_db js db"
  shows "memo_ok js db t memo \<Longrightarrow> (\<forall>x \<in> set path. (x, i) \<in> (parent_rel db)\<^sup>+) \<Longrightarrow>
      \<exists>memo'. delegation_active js db t i path memo = Inr (live_chain js db t i, memo') \<and> memo_ok js db t memo'"
    and "memo_ok js db t memo \<Longrightarrow> (\<forall>x \<in> set path. \<forall>p \<in> set ps. (x, p) \<in> (parent_rel db)\<^sup>+) \<Longrightarrow>
      \<exists>memo'. parents_active js db t g ps path memo
        = Inr (\<forall>p \<in> set ps. parent_ok js db t g p \<and> live_chain js db t p, memo') \<and> memo_ok js db t memo'"
  using wf
proof (induction js db t i path memo and js db t g ps path memo
    rule: delegation_active_parents_active.induct)
  case (1 js db t i path memo)
  show ?case
  proof (cases "map_of memo i")
    case (Some b)
    with 1 show ?thesis by (auto simp: memo_ok_def)
  next
    case memo: None
    show ?thesis
    proof (cases "i \<in> set path")
      case True
      with "1.prems" have "(i, i) \<in> (parent_rel db)\<^sup>+" by blast
      then have "\<not> live_chain js db t i" using live_chain_no_cycle by blast
      with True memo "1.prems" show ?thesis by simp
    next
      case path: False
      show ?thesis
      proof (cases "getDelegation db i")
        case None
        with memo path "1.prems" show ?thesis by (simp add: live_chain_root)
      next
        case (Some d)
        then obtain g where g: "getGrant js db i = Inr (Some g)"
          using wf_delegated_exists "1.prems" by blast
        then have r: "requireGrant js db i = Inr g" by (simp add: requireGrant_def)
        have "(x, p) \<in> (parent_rel db)\<^sup>+" if "x \<in> set (i # path)" "p \<in> set (delegation_parents d)" for x p
          using that "1.prems" parent_rel_child [OF Some, of p] by (auto intro: trancl_into_trancl)
        then obtain memo' where "parents_active js db t g (delegation_parents d) (i # path) memo
            = Inr (\<forall>p \<in> set (delegation_parents d). parent_ok js db t g p \<and> live_chain js db t p, memo')"
            and "memo_ok js db t memo'"
          using "1.IH" [OF memo path Some r] "1.prems" by blast
        then show ?thesis
          using memo path Some r live_chain_child [OF Some g, of t]
          by (simp del: set_delegation_parents)
      qed
    qed
  qed
next
  case (2 js db t g path memo)
  then show ?case by simp
next
  case (3 js db t g p ps path memo)
  obtain found where found: "getGrant js db p = Inr found" using getGrant_total "3.prems" by blast
  show ?case
  proof (cases found)
    case None
    with found "3.prems" show ?thesis by (simp add: parent_ok_def)
  next
    case (Some parent)
    then obtain f where f: "grantReferenceFailure js (Some parent) (issuer_id g) (grant_boundary g) t = Inr f"
      using found grantReferenceFailure_total "3.prems" by blast
    show ?thesis
    proof (cases f)
      case (Some c)
      with f found \<open>found = Some parent\<close> "3.prems" show ?thesis by (simp add: parent_ok_def)
    next
      case None
      with f have f: "grantReferenceFailure js (Some parent) (issuer_id g) (grant_boundary g) t = Inr None" by simp
      have ok: "parent_ok js db t g p" using f found Some by (auto simp: parent_ok_def)
      obtain memo' where m: "delegation_active js db t p path memo = Inr (live_chain js db t p, memo')"
          and mo: "memo_ok js db t memo'"
        using "3.IH"(1) [OF found Some f refl] "3.prems" by auto
      show ?thesis
      proof (cases "live_chain js db t p")
        case False
        with m mo f found Some show ?thesis by simp
      next
        case True
        with m have m: "delegation_active js db t p path memo = Inr (True, memo')" by simp
        obtain memo'' where "parents_active js db t g ps path memo'
            = Inr (\<forall>p \<in> set ps. parent_ok js db t g p \<and> live_chain js db t p, memo'')" "memo_ok js db t memo''"
          using "3.IH"(2) [OF found Some f refl m refl refl] mo "3.prems" by auto
        with m f found Some ok True show ?thesis by simp
      qed
    qed
  qed
qed

lemma delegationIsActive_eq: "wf_db js db \<Longrightarrow> delegationIsActive js db i t = Inr (live_chain js db t i)"
  using active_decides(1) [of js db t "[]" "[]" i] by (auto simp: delegationIsActive_def)

end
