(* ===== verification/Grant_Authority.thy ===== *)
theory Grant_Authority
  imports Grant_Chains
begin

text \<open>
  The grant store as a transition system: every reachable database is well formed, stored grants
  never change except that they may be revoked once, and every delegation narrows its source. The
  authority of a session therefore always comes from a current grant that nobody delegated.
\<close>

section \<open>Currency of a grant\<close>

definition current :: "platform \<Rightarrow> capability_grant \<Rightarrow> int \<Rightarrow> bool" where
  "current js g t \<longleftrightarrow> revoked_at g = None \<and> (\<exists>m. date_parse js (issued_at g) = Some m \<and> m \<le> t)
     \<and> (\<exists>ms. expiryMs js (expires_at g) = Inr ms \<and> Ms t < ms)"

lemma grantReferenceFailure_None_iff:
  "grantReferenceFailure js (Some g) who bnd t = Inr None \<longleftrightarrow>
     principal_id g = who \<and> grant_boundary g = bnd \<and> current js g t"
  by (auto simp: grantReferenceFailure_def current_def result_simps not_le not_less)

lemma isActiveGrant_eq:
  assumes wf: "wf_db js db" and g: "getGrant js db i = Inr (Some g)"
  shows "isActiveGrant js db g t = Inr (current js g t \<and> live_chain js db t i)"
proof -
  obtain m where "date_parse js (issued_at g) = Some m" using getGrant_times(1) [OF wf g] by blast
  moreover obtain ms where "expiryMs js (expires_at g) = Inr ms" using getGrant_times(2) [OF wf g] by blast
  moreover have "grant_id g = i" using g by (rule getGrant_id)
  ultimately show ?thesis
    using delegationIsActive_eq [OF wf, of i t]
    by (auto simp: isActiveGrant_def current_def parseTimestamp_def not_less not_le)
qed

lemma live_chain_ancestor:
  "live_chain js db t i \<Longrightarrow> (i, p) \<in> (parent_rel db)\<^sup>+ \<Longrightarrow>
    \<exists>g. getGrant js db p = Inr (Some g) \<and> current js g t"
proof (induction rule: live_chain.induct)
  case (root i)
  then show ?case by (metis converse_tranclE parent_rel_root)
next
  case (child i d g)
  from child.prems obtain q where q: "(i, q) \<in> parent_rel db" "q = p \<or> (q, p) \<in> (parent_rel db)\<^sup>+"
    by (metis tranclD rtranclD)
  then have q': "q \<in> set (delegation_parents d)" using parent_rel_child [OF child.hyps(1)] by simp
  show ?case
  proof (cases "(q, p) \<in> (parent_rel db)\<^sup>+")
    case True
    then show ?thesis using child.IH q' by blast
  next
    case False
    with q have "q = p" by simp
    with child.hyps(3) [OF q'] show ?thesis by (auto simp: parent_ok_def grantReferenceFailure_None_iff)
  qed
qed

section \<open>Dependents\<close>

lemma getDelegation_iff:
  "distinct (map d_grant_id ds) \<Longrightarrow> row_where (\<lambda>d. d_grant_id d = i) ds = Some d \<longleftrightarrow> d \<in> set ds \<and> d_grant_id d = i"
  using row_where_key [of d_grant_id ds d] by (auto dest: row_where_SomeD)

lemma edges_parent_rel: "wf_db js db \<Longrightarrow> set (delegation_edges db) = (parent_rel db)\<inverse>"
  by (auto simp: delegation_edges_def parent_rel_def getDelegation_def wf_db_def getDelegation_iff)

lemma set_dependentGrantIds:
  assumes "wf_db js db"
  shows "set (dependentGrantIds db i) = {d. (d, i) \<in> (parent_rel db)\<^sup>*}"
  by (simp add: dependentGrantIds_def set_search_from edges_parent_rel [OF assms] rtrancl_converse)

lemma parent_rel_cong: "grant_delegations db = grant_delegations db' \<Longrightarrow> parent_rel db = parent_rel db'"
  by (simp add: parent_rel_def getDelegation_def)

section \<open>Host policy writes\<close>

lemma supersede_active_tables [simp]:
  "capability_grants (supersede_active tm a db) = capability_grants db"
  "grant_operations (supersede_active tm a db) = grant_operations db"
  "grant_targets (supersede_active tm a db) = grant_targets db"
  "grant_delegations (supersede_active tm a db) = grant_delegations db"
  "grant_delegation_only (supersede_active tm a db) = grant_delegation_only db"
  "notices (supersede_active tm a db) = notices db"
  "grant_ids (supersede_active tm a db) = grant_ids db"
  "getGrant js (supersede_active tm a db) i = getGrant js db i"
  "wf_db js (supersede_active tm a db) = wf_db js db"
  by (simp_all add: supersede_active_def split: option.split)

lemma retire_active_eq:
  "retire_active tm successor a db = (case a of
      None \<Rightarrow> db
    | Some p \<Rightarrow> (revoke_row (hp_grant_id p) tm db)\<lparr>host_policies := set_where (\<lambda>q. hp_grant_id q = hp_grant_id p)
          (\<lambda>q. q\<lparr>superseded_by_grant_id := Some successor\<rparr>) (host_policies db)\<rparr>)"
  by (simp add: retire_active_def revoke_row_def split: option.split)

definition host_policy_input ::
  "activate_host_policy \<Rightarrow> string list \<Rightarrow> grant_target list \<Rightarrow> grant_evidence list \<Rightarrow> string \<Rightarrow> issue_grant" where
  "host_policy_input input ops ts ev i = \<lparr>ig_grant_id = Some i, ig_principal_id = ahp_principal_id input,
     ig_boundary = Host (ahp_host_id input), ig_operation_ids = ops, ig_targets = Some ts,
     ig_expires_at = Some (ahp_expires_at input), ig_issuer_id = ahp_issuer_id input,
     ig_evidence = ev, ig_delegation_only = False\<rparr>"

definition new_host_policy ::
  "activate_host_policy \<Rightarrow> string \<Rightarrow> string \<Rightarrow> string \<Rightarrow> host_policy option \<Rightarrow> host_policy" where
  "new_host_policy input policyId i tm active = \<lparr>host_policy_id = policyId,
     policy_revision = ahp_policy_revision input, hp_purpose = ahp_purpose input,
     hp_host_id = ahp_host_id input, hp_principal_id = ahp_principal_id input, hp_grant_id = i,
     supersedes_grant_id = map_option hp_grant_id active, superseded_by_grant_id = None,
     activated_at = tm, superseded_at = None\<rparr>"

lemma activateHostPolicyGrantE:
  assumes "activateHostPolicyGrant js now1 now2 input db = Inr (r, db')"
  obtains (replayed) existing where "ha_replayed r" "db' = db"
      "existing \<in> set (host_policies db)" "ha_policy r = existing" "superseded_at existing = None"
      "getGrant js db (hp_grant_id existing) = Inr (Some (ha_grant r))" "revoked_at (ha_grant r) = None"
  | (installed) policyId grantId ops ts ev active db1 db2 where "\<not> ha_replayed r"
      "active = getActiveHostPolicyRevision db policyId"
      "issueGrant js now2 [] (host_policy_input input ops ts ev grantId) (supersede_active now1 active db)
        = Inr (ha_grant r, db1)"
      "insert_host_policy (new_host_policy input policyId (grant_id (ha_grant r)) now1 active) db1 = Inr db2"
      "db' = retire_active now1 (grant_id (ha_grant r)) active db2"
      "getHostPolicyRevision db' policyId (ahp_policy_revision input) = Some (ha_policy r)"
proof -
  from assms obtain policyId grantId ops ts ev where
    fin: "(case getHostPolicyRevision db policyId (ahp_policy_revision input) of
       Some existing \<Rightarrow> replay_host_policy js now1 input ops ts ev existing db
     | None \<Rightarrow> install_host_policy js now1 now2 input ops ts ev policyId grantId db) = Inr (r, db')"
    unfolding activateHostPolicyGrant_def rbind_Inr_iff by auto
  show thesis
  proof (cases "getHostPolicyRevision db policyId (ahp_policy_revision input)")
    case (Some existing)
    then have "existing \<in> set (host_policies db)"
      by (auto simp: getHostPolicyRevision_def dest: row_where_SomeD)
    with fin Some show thesis
      by (intro replayed) (auto simp: replay_host_policy_def result_simps)
  next
    case None
    with fin have fin: "install_host_policy js now1 now2 input ops ts ev policyId grantId db = Inr (r, db')" by simp
    then obtain grant db1 db2 policy where w:
        "issueGrant js now2 [] (host_policy_input input ops ts ev grantId)
          (supersede_active now1 (getActiveHostPolicyRevision db policyId) db) = Inr (grant, db1)"
        "insert_host_policy (new_host_policy input policyId (grant_id grant) now1
          (getActiveHostPolicyRevision db policyId)) db1 = Inr db2"
        "db' = retire_active now1 (grant_id grant) (getActiveHostPolicyRevision db policyId) db2"
        "getHostPolicyRevision db' policyId (ahp_policy_revision input) = Some policy"
        "r = \<lparr>ha_replayed = False, ha_policy = policy, ha_grant = grant\<rparr>"
      by (auto simp: install_host_policy_def rbind_Inr_iff Let_def new_host_policy_def
          host_policy_input_def split: option.splits)
    from w(5) have r: "ha_grant r = grant" "ha_policy r = policy" "\<not> ha_replayed r" by simp_all
    show thesis by (rule installed [OF r(3) refl]) (use w r in simp_all)
  qed
qed

section \<open>The transition system\<close>

inductive grant_step :: "platform \<Rightarrow> grant_db \<Rightarrow> grant_db \<Rightarrow> bool" for js where
  issue: "issueGrant js now fresh input db = Inr (g, db') \<Longrightarrow> grant_step js db db'"
| delegate: "delegateGrant js now1 now2 now3 fresh dinput db = Inr (g, db') \<Longrightarrow> grant_step js db db'"
| depend: "issueDependentGrant js now1 now2 fresh pinput db = Inr (g, db') \<Longrightarrow> grant_step js db db'"
| revoke: "revokeGrant js i tm db = Inr (done, db') \<Longrightarrow> grant_step js db db'"
| host: "activateHostPolicyGrant js now1 now2 hinput db = Inr (r, db') \<Longrightarrow> grant_step js db db'"

inductive grant_reachable :: "platform \<Rightarrow> grant_db \<Rightarrow> bool" for js where
  start: "grant_reachable js empty_grant_db"
| step: "grant_reachable js db \<Longrightarrow> grant_step js db db' \<Longrightarrow> grant_reachable js db'"

text \<open>
  What one operation may do to the authority tables: keep every grant up to its revocation, which
  is never undone, and add at most one delegation, of a new grant that narrows its source.
\<close>

definition keeps_grant :: "capability_grant \<Rightarrow> capability_grant \<Rightarrow> bool" where
  "keeps_grant g g' \<longleftrightarrow> g' = g\<lparr>revoked_at := revoked_at g'\<rparr> \<and> (revoked_at g \<noteq> None \<longrightarrow> revoked_at g' = revoked_at g)"

definition narrower :: "capability_grant \<Rightarrow> capability_grant \<Rightarrow> bool" where
  "narrower c s \<longleftrightarrow> set (operation_ids c) \<subseteq> set (operation_ids s)
     \<and> (targets s \<noteq> [] \<longrightarrow> targets c \<noteq> [] \<and> (\<forall>t \<in> set (targets c). \<exists>a \<in> set (targets s). targetContains a t))
     \<and> grant_boundary c = grant_boundary s \<and> issuer_id c = principal_id s"

definition evolves :: "platform \<Rightarrow> grant_db \<Rightarrow> grant_db \<Rightarrow> bool" where
  "evolves js db db' \<longleftrightarrow>
     (\<forall>i g. getGrant js db i = Inr (Some g) \<longrightarrow> (\<exists>g'. getGrant js db' i = Inr (Some g') \<and> keeps_grant g g'))
     \<and> (grant_delegations db' = grant_delegations db
        \<or> (\<exists>d c s. grant_delegations db' = grant_delegations db @ [d] \<and> getGrant js db (d_grant_id d) = Inr None
             \<and> getGrant js db' (d_grant_id d) = Inr (Some c) \<and> getGrant js db (d_source_grant_id d) = Inr (Some s)
             \<and> getGrant js db' (d_source_grant_id d) = Inr (Some s) \<and> narrower c s))"

lemma keeps_grant_refl [simp]: "keeps_grant g g"
  by (simp add: keeps_grant_def)

lemma keeps_grant_revoked_by [simp]: "keeps_grant g (revoked_by i tm g)"
  by (simp add: keeps_grant_def revoked_by_def)

lemma narrower_keeps: "keeps_grant c c' \<Longrightarrow> keeps_grant s s' \<Longrightarrow> narrower c' s' = narrower c s"
proof -
  assume "keeps_grant c c'" "keeps_grant s s'"
  then obtain x y where "c' = c\<lparr>revoked_at := x\<rparr>" "s' = s\<lparr>revoked_at := y\<rparr>" by (auto simp: keeps_grant_def)
  then show ?thesis by (simp add: narrower_def)
qed

lemma evolves_refl: "evolves js db db"
  by (auto simp: evolves_def)

lemma evolves_revoke_row:
  "evolves js db (revoke_row i tm db)"
  by (auto simp: evolves_def getGrant_revoke_row)

lemma keeps_grant_trans: "keeps_grant a b \<Longrightarrow> keeps_grant b c \<Longrightarrow> keeps_grant a c"
  by (cases a; cases b; cases c) (auto simp: keeps_grant_def)

lemma evolves_trans_same:
  assumes "evolves js db db1" and "evolves js db1 db2" and same: "grant_delegations db2 = grant_delegations db"
  shows "evolves js db db2"
proof -
  have "\<exists>g'. getGrant js db2 i = Inr (Some g') \<and> keeps_grant g g'" if "getGrant js db i = Inr (Some g)" for i g
    using assms(1,2) that unfolding evolves_def by (meson keeps_grant_trans)
  with same show ?thesis by (auto simp: evolves_def)
qed

lemma delegated_db_tables [simp]:
  "getGrant js (delegated_db d g db) i = getGrant js db i"
  "grant_delegations (delegated_db d g db) = grant_delegations db @ [d]"
  by (simp_all add: delegated_db_def getGrant_def operations_of_def targets_of_def split: option.split)

lemma issue_keeps:
  assumes issue: "issueGrant js now fresh input db = Inr (g, db')" and h: "getGrant js db i = Inr (Some h)"
  shows "getGrant js db' i = Inr (Some h)"
proof -
  have "i \<noteq> chosen_id fresh input"
    using issueGrant_tables(2) [OF issue] getGrant_in_ids [OF h] by auto
  then show ?thesis using issueGrant_tables(6) [OF issue] h by simp
qed

lemma evolves_issue: "issueGrant js now fresh input db = Inr (g, db') \<Longrightarrow> evolves js db db'"
  using issue_keeps issueGrant_tables(3) by (fastforce simp: evolves_def)

lemma evolves_delegated:
  assumes issue: "issueGrant js now fresh input db = Inr (g, db1)" and wf: "wf_db js db"
    and s: "getGrant js db (grant_id s) = Inr (Some s)" and n: "narrower g s"
  shows "evolves js db (delegated_db (child_of (grant_id g) (grant_id s) a) g db1)"
proof -
  have i: "grant_id g = chosen_id fresh input" using issueGrant_record [OF issue wf] by simp
  have "getGrant js db (grant_id g) = Inr None"
    using issueGrant_tables(2) [OF issue] i by (simp add: getGrant_None_iff)
  moreover have "getGrant js db1 (grant_id g) = Inr (Some g)" using issueGrant_tables(5) [OF issue] i by simp
  ultimately show ?thesis
    using issue_keeps [OF issue] s n issueGrant_tables(3) [OF issue] by (fastforce simp: evolves_def)
qed

lemma evolves_delegate:
  assumes "delegateGrant js now1 now2 now3 fresh input db = Inr (g, db')" and wf: "wf_db js db"
  shows "evolves js db db'"
  using assms(1)
proof (rule delegateGrantE)
  fix parent permission ops ts expiry t1 db1
  assume live: "live_under js db (dg_authority input) t1 (dg_source_grant_id input) parent"
    and ops: "set ops \<subseteq> set (operation_ids parent)"
    and ts: "targets parent \<noteq> [] \<longrightarrow> ts \<noteq> [] \<and> (\<forall>t \<in> set ts. \<exists>a \<in> set (targets parent). targetContains a t)"
    and issue: "issueGrant js now3 fresh (delegated_input input ops ts expiry) db = Inr (g, db1)"
    and db': "db' = delegated_db (child_of (grant_id g) (grant_id parent) (grant_id permission)) g db1"
  have "getGrant js db (grant_id parent) = Inr (Some parent)" "principal_id parent = auth_principal_id (dg_authority input)"
    "grant_boundary parent = auth_boundary (dg_authority input)"
    using live session_live_id [OF live] by (auto simp: session_live_def grantReferenceFailure_None_iff)
  moreover from this have "narrower g parent"
    using issueGrant_record [OF issue wf] ops ts by (auto simp: narrower_def simp flip: set_empty2)
  ultimately show ?thesis unfolding db' by (intro evolves_delegated [OF issue wf])
qed

lemma evolves_depend:
  assumes "issueDependentGrant js now1 now2 fresh input db = Inr (g, db')" and wf: "wf_db js db"
  shows "evolves js db db'"
  using assms(1)
proof (rule issueDependentGrantE)
  fix source ops ts db1
  assume src: "getGrant js db (di_source_grant_id input) = Inr (Some source)"
    and ops: "set ops \<subseteq> set (operation_ids source)"
    and ts: "targets source \<noteq> [] \<longrightarrow> ts \<noteq> [] \<and> (\<forall>t \<in> set ts. \<exists>a \<in> set (targets source). targetContains a t)"
    and issue: "issueGrant js now2 fresh (dependent_issue input source ops ts) db = Inr (g, db1)"
    and db': "db' = delegated_db (child_of (grant_id g) (grant_id source) (grant_id source)) g db1"
  have "getGrant js db (grant_id source) = Inr (Some source)" using src getGrant_id [OF src] by simp
  moreover have "narrower g source"
    using issueGrant_record [OF issue wf] ops ts by (auto simp: narrower_def simp flip: set_empty2)
  ultimately show ?thesis unfolding db' by (intro evolves_delegated [OF issue wf])
qed

lemma evolves_notices [simp]: "evolves js db (db'\<lparr>notices := n\<rparr>) = evolves js db db'"
  by (simp add: evolves_def)

lemma evolves_host_policies [simp]: "evolves js db (db'\<lparr>host_policies := n\<rparr>) = evolves js db db'"
  by (simp add: evolves_def)

lemma insert_host_policy_Inr:
  "insert_host_policy p db = Inr db' \<Longrightarrow> db' = db\<lparr>host_policies := host_policies db @ [p]\<rparr>"
  by (simp add: insert_host_policy_def throw_if_Inr_iff)

lemma host_step:
  assumes "activateHostPolicyGrant js now1 now2 input db = Inr (r, db')" and wf: "wf_db js db"
  shows "wf_db js db' \<and> evolves js db db'"
  using assms(1)
proof (cases rule: activateHostPolicyGrantE)
  case replayed
  with wf show ?thesis by (simp add: evolves_refl)
next
  case (installed policyId grantId ops ts ev active db1 db2)
  let ?db0 = "supersede_active now1 active db"
  have wf1: "wf_db js db1" using installed(3) wf by (auto intro: issueGrant_wf)
  have "evolves js db ?db0" by (auto simp: evolves_def)
  then have ev1: "evolves js db db1"
    using evolves_issue [OF installed(3)] issueGrant_tables(3) [OF installed(3)] by (auto intro: evolves_trans_same)
  have db2: "db2 = db1\<lparr>host_policies := host_policies db1 @ [new_host_policy input policyId (grant_id (ha_grant r)) now1 active]\<rparr>"
    using installed(4) by (rule insert_host_policy_Inr)
  show ?thesis
  proof (cases active)
    case None
    then show ?thesis using wf1 ev1 installed(5) db2 by (simp add: retire_active_eq)
  next
    case (Some p)
    have "evolves js db (revoke_row (hp_grant_id p) now1 db2)"
      by (rule evolves_trans_same [of js db db2])
        (use ev1 db2 issueGrant_tables(3) [OF installed(3)] in \<open>simp_all add: evolves_revoke_row\<close>)
    then show ?thesis using Some wf1 installed(5) db2 by (simp add: retire_active_eq)
  qed
qed

lemma grant_step_wf_evolves: "grant_step js db db' \<Longrightarrow> wf_db js db \<Longrightarrow> wf_db js db' \<and> evolves js db db'"
proof (induction rule: grant_step.induct)
  case (revoke i tm db "done" db')
  then show ?case by (auto elim!: revokeGrantE simp: evolves_refl evolves_revoke_row)
qed (auto intro: issueGrant_wf evolves_issue delegateGrant_wf evolves_delegate issueDependentGrant_wf
    evolves_depend dest: host_step)

definition narrowed :: "platform \<Rightarrow> grant_db \<Rightarrow> bool" where
  "narrowed js db \<longleftrightarrow> (\<forall>d \<in> set (grant_delegations db). \<forall>c s. getGrant js db (d_grant_id d) = Inr (Some c) \<longrightarrow>
     getGrant js db (d_source_grant_id d) = Inr (Some s) \<longrightarrow> narrower c s)"

lemma evolves_back:
  assumes "evolves js db db'" "wf_db js db" "i \<in> set (grant_ids db)" "getGrant js db' i = Inr (Some g')"
  shows "\<exists>g. getGrant js db i = Inr (Some g) \<and> keeps_grant g g'"
proof -
  obtain f where f: "getGrant js db i = Inr f" using getGrant_total [OF assms(2)] by blast
  then obtain g where "f = Some g" using assms(3) getGrant_None_iff [of js db i] by (cases f) auto
  with f assms(1,4) show ?thesis by (fastforce simp: evolves_def)
qed

lemma narrowed_step:
  assumes ev: "evolves js db db'" and wf: "wf_db js db" and n: "narrowed js db"
  shows "narrowed js db'"
  unfolding narrowed_def
proof (intro ballI allI impI)
  fix d c s
  assume d: "d \<in> set (grant_delegations db')" and c: "getGrant js db' (d_grant_id d) = Inr (Some c)"
    and s: "getGrant js db' (d_source_grant_id d) = Inr (Some s)"
  show "narrower c s"
  proof (cases "d \<in> set (grant_delegations db)")
    case True
    then have "d_grant_id d \<in> set (grant_ids db)" "d_source_grant_id d \<in> set (grant_ids db)"
      using wf by (auto simp: wf_db_def dest: older_in)
    then obtain c0 s0 where "getGrant js db (d_grant_id d) = Inr (Some c0)" "keeps_grant c0 c"
        "getGrant js db (d_source_grant_id d) = Inr (Some s0)" "keeps_grant s0 s"
      using evolves_back [OF ev wf _ c] evolves_back [OF ev wf _ s] by blast
    with n True show ?thesis by (auto simp: narrowed_def narrower_keeps)
  next
    case False
    with ev d c s show ?thesis by (auto simp: evolves_def)
  qed
qed

lemma reachable_inv: "grant_reachable js db \<Longrightarrow> wf_db js db \<and> narrowed js db"
proof (induction rule: grant_reachable.induct)
  case start
  show ?case using wf_empty by (simp add: narrowed_def empty_grant_db_def)
next
  case (step db db')
  then show ?case using grant_step_wf_evolves narrowed_step by blast
qed

end
