(* ===== verification/Grant_Expiry.thy ===== *)
theory Grant_Expiry
  imports Grant_Authority
begin

text \<open>
  \<^verbatim>\<open>effectiveExpiry\<close> visits each grant above the given one once, through a \<^verbatim>\<open>seen\<close> set shared by all
  its calls; a grant met again contributes its own expiry only. The result is nevertheless the least
  expiry of the whole chain, because whatever a repeated visit leaves out was counted elsewhere.
\<close>

section \<open>The earliest of some expiries\<close>

definition ms_of :: "platform \<Rightarrow> string option \<Rightarrow> millis" where
  "ms_of js v = (case expiryMs js v of Inl _ \<Rightarrow> Infinity | Inr ms \<Rightarrow> ms)"

definition readable :: "platform \<Rightarrow> string option \<Rightarrow> bool" where
  "readable js v \<longleftrightarrow> (\<forall>e. v = Some e \<longrightarrow> date_parse js e \<noteq> None)"

lemma ms_of_simps [simp]: "ms_of js None = Infinity" "date_parse js e = Some t \<Longrightarrow> ms_of js (Some e) = Ms t"
  by (simp_all add: ms_of_def expiryMs_def parseTimestamp_def)

lemma ms_of_parsed: "date_parse js e \<noteq> None \<Longrightarrow> ms_of js (Some e) = Ms (the (date_parse js e))"
  by auto

lemma expiryMs_ms_of: "readable js v \<Longrightarrow> expiryMs js v = Inr (ms_of js v)"
  by (cases v) (auto simp: readable_def expiryMs_def parseTimestamp_def)

lemma set_somes: "set (somes xs) = {x. Some x \<in> set xs}"
  by (force simp: somes_def)

interpretation by_time: comparator "\<lambda>a b. fst a - fst (b :: int \<times> 'a)"
  by unfold_locales auto

lemma earliest_two:
  assumes "cands = c # c' # cs" and p: "\<forall>c \<in> set cands. date_parse js c \<noteq> None"
  shows "\<exists>v. earliest js cands = Inr (Some v) \<and> v \<in> set cands \<and> (\<forall>c \<in> set cands. ms_of js (Some v) \<le> ms_of js (Some c))"
proof -
  let ?key = "\<lambda>c. (the (date_parse js c), c)"
  have keyed: "rmapM (\<lambda>c. rbind (parseTimestamp js ''expires_at'' c) (\<lambda>t. Inr (t, c))) cands = Inr (map ?key cands)"
    using p by (intro rmapM_Inr_map) (auto simp: parseTimestamp_def)
  have "js_sort (\<lambda>a b. fst a - fst b) (map ?key cands) \<noteq> []" using assms(1) by (simp del: js_sort.simps)
  then obtain k ks where k: "js_sort (\<lambda>a b. fst a - fst b) (map ?key cands) = k # ks"
    by (cases "js_sort (\<lambda>a b. fst a - fst b) (map ?key cands)") auto
  have "k \<in> set (map ?key cands)"
    using set_js_sort [of "\<lambda>a b. fst a - fst b" "map ?key cands"] unfolding k by auto
  then obtain v where v: "v \<in> set cands" "k = ?key v" by auto
  have "the (date_parse js v) \<le> the (date_parse js c)" if "c \<in> set cands" for c
    using by_time.sort_hd_least [OF k, of "?key c"] that v by auto
  then have "ms_of js (Some v) \<le> ms_of js (Some c)" if "c \<in> set cands" for c
    using p that v(1) by (auto simp: ms_of_parsed)
  moreover have "earliest js cands = Inr (Some v)"
    using assms(1) keyed k v by (simp add: earliest_def)
  ultimately show ?thesis using v by blast
qed

lemma earliest_least:
  assumes "opts \<noteq> []" and "\<forall>v \<in> set opts. readable js v"
  shows "\<exists>v. earliest js (somes opts) = Inr v \<and> v \<in> set opts \<and> (\<forall>x \<in> set opts. ms_of js v \<le> ms_of js x)"
proof -
  have p: "\<forall>c \<in> set (somes opts). date_parse js c \<noteq> None"
    using assms(2) by (auto simp: set_somes readable_def)
  have cover: "x = None \<or> (\<exists>c \<in> set (somes opts). x = Some c)" if "x \<in> set opts" for x
    by (cases x) (use that in \<open>auto simp: set_somes\<close>)
  consider (none) "somes opts = []" | (one) c where "somes opts = [c]" | (more) c c' cs where "somes opts = c # c' # cs"
    by (cases "somes opts" rule: remdups_adj.cases) auto
  then show ?thesis
  proof cases
    case none
    then have n: "x = None" if "x \<in> set opts" for x using cover [OF that] by simp
    with assms(1) have "None \<in> set opts" by (cases opts) auto
    with n none show ?thesis by (fastforce simp: earliest_def)
  next
    case (one c)
    then have "Some c \<in> set opts" "\<forall>x \<in> set opts. x = None \<or> x = Some c"
      using cover set_somes [of opts] by auto
    then show ?thesis using one by (auto simp: earliest_def)
  next
    case (more c c' cs)
    obtain v where v: "earliest js (somes opts) = Inr (Some v)" "v \<in> set (somes opts)"
        "\<forall>c \<in> set (somes opts). ms_of js (Some v) \<le> ms_of js (Some c)"
      using earliest_two [OF more p] by blast
    have "ms_of js (Some v) \<le> ms_of js x" if "x \<in> set opts" for x
      using cover [OF that] v(3) by auto
    with v show ?thesis by (auto simp: set_somes)
  qed
qed

section \<open>The visit\<close>

definition expiry_of :: "platform \<Rightarrow> grant_db \<Rightarrow> string \<Rightarrow> string option" where
  "expiry_of js db i = (case getGrant js db i of Inr (Some g) \<Rightarrow> expires_at g | _ \<Rightarrow> None)"

lemma wf_getGrant: "wf_db js db \<Longrightarrow> i \<in> set (grant_ids db) \<Longrightarrow> \<exists>g. getGrant js db i = Inr (Some g)"
  using getGrant_total [of js db i] getGrant_None_iff [of js db i] by (metis not_None_eq)

lemma readable_expiry: "wf_db js db \<Longrightarrow> readable js (expiry_of js db i)"
proof (cases "\<exists>g. getGrant js db i = Inr (Some g)")
  case True
  assume wf: "wf_db js db"
  from True obtain g where g: "getGrant js db i = Inr (Some g)" by blast
  from getGrant_times(2) [OF wf g] show ?thesis
    by (auto simp: expiry_of_def g readable_def expiryMs_def parseTimestamp_def split: option.splits)
next
  case False
  then show ?thesis by (auto simp: expiry_of_def readable_def split: sum.splits option.splits)
qed

lemma parents_exist:
  "wf_db js db \<Longrightarrow> (c, p) \<in> parent_rel db \<Longrightarrow> c \<in> set (grant_ids db) \<and> p \<in> set (grant_ids db)"
  by (auto simp: parent_rel_def getDelegation_def wf_db_def dest!: row_where_SomeD dest: older_in)

text \<open>
  What a visit guarantees: the newly seen grants lie above the visited ones, their parents are seen
  too, each is no earlier than some returned value, and each returned value is the expiry of a grant
  above.
\<close>

definition visited ::
  "platform \<Rightarrow> grant_db \<Rightarrow> string list \<Rightarrow> string list \<Rightarrow> string option list \<Rightarrow> string list \<Rightarrow> bool" where
  "visited js db ps seen vs seen' \<longleftrightarrow>
     set seen \<subseteq> set seen' \<and> set ps \<subseteq> set seen'
     \<and> (\<forall>x \<in> set seen'. x \<in> set seen \<or> (\<exists>p \<in> set ps. (p, x) \<in> (parent_rel db)\<^sup>*))
     \<and> (\<forall>x \<in> set seen' - set seen. \<forall>y. (x, y) \<in> parent_rel db \<longrightarrow> y \<in> set seen')
     \<and> (\<forall>x \<in> (set seen' - set seen) \<union> set ps. \<exists>v \<in> set vs. ms_of js v \<le> ms_of js (expiry_of js db x))
     \<and> (\<forall>v \<in> set vs. \<exists>p \<in> set ps. \<exists>y. (p, y) \<in> (parent_rel db)\<^sup>* \<and> v = expiry_of js db y)"

lemma visited_Nil [simp]: "visited js db [] seen [] seen"
  by (simp add: visited_def)

lemma visited_Cons:
  assumes a: "visited js db [p] seen [v] seen1" and b: "visited js db ps seen1 vs seen2"
  shows "visited js db (p # ps) seen (v # vs) seen2"
  unfolding visited_def
proof (intro conjI)
  show "\<forall>x \<in> set seen2 - set seen. \<forall>y. (x, y) \<in> parent_rel db \<longrightarrow> y \<in> set seen2"
    using a b unfolding visited_def by blast
  show "\<forall>x \<in> (set seen2 - set seen) \<union> set (p # ps). \<exists>v' \<in> set (v # vs). ms_of js v' \<le> ms_of js (expiry_of js db x)"
  proof
    fix x assume "x \<in> (set seen2 - set seen) \<union> set (p # ps)"
    then consider "x \<in> (set seen1 - set seen) \<union> set [p]" | "x \<in> (set seen2 - set seen1) \<union> set ps" by auto
    then show "\<exists>v' \<in> set (v # vs). ms_of js v' \<le> ms_of js (expiry_of js db x)"
      using a b unfolding visited_def by cases fastforce+
  qed
qed (use a b in \<open>auto simp: visited_def\<close>)

lemma visited_seen:
  "i \<in> set seen \<Longrightarrow> visited js db [i] seen [expiry_of js db i] seen"
  by (auto simp: visited_def)

lemma visited_node:
  assumes sub: "visited js db ps (i # seen) vs seen'" and ps: "set ps = {p. (i, p) \<in> parent_rel db}"
    and v: "v \<in> set (expiry_of js db i # vs)" "\<forall>x \<in> set (expiry_of js db i # vs). ms_of js v \<le> ms_of js x"
  shows "visited js db [i] seen [v] seen'"
  unfolding visited_def
proof (intro conjI)
  from sub have new: "x \<in> set (i # seen) \<or> (\<exists>p \<in> set ps. (p, x) \<in> (parent_rel db)\<^sup>*)" if "x \<in> set seen'" for x
    using that unfolding visited_def by blast
  from sub have closed: "y \<in> set seen'" if "x \<in> set seen' - set (i # seen)" "(x, y) \<in> parent_rel db" for x y
    using that unfolding visited_def by blast
  from sub have low: "\<exists>w \<in> set vs. ms_of js w \<le> ms_of js (expiry_of js db x)" if "x \<in> set seen' - set (i # seen)" for x
    using that unfolding visited_def by blast
  from sub have from_ps: "\<exists>p \<in> set ps. \<exists>y. (p, y) \<in> (parent_rel db)\<^sup>* \<and> w = expiry_of js db y" if "w \<in> set vs" for w
    using that unfolding visited_def by blast
  from sub have sets: "set (i # seen) \<subseteq> set seen'" "set ps \<subseteq> set seen'"
    unfolding visited_def by blast+
  have up: "p \<in> set ps \<Longrightarrow> (p, x) \<in> (parent_rel db)\<^sup>* \<Longrightarrow> (i, x) \<in> (parent_rel db)\<^sup>*" for p x
    using ps by (auto intro: converse_rtrancl_into_rtrancl)
  show "set seen \<subseteq> set seen'" "set [i] \<subseteq> set seen'" using sets by auto
  show "\<forall>x \<in> set seen'. x \<in> set seen \<or> (\<exists>p \<in> set [i]. (p, x) \<in> (parent_rel db)\<^sup>*)"
    using new up by fastforce
  show "\<forall>x \<in> set seen' - set seen. \<forall>y. (x, y) \<in> parent_rel db \<longrightarrow> y \<in> set seen'"
  proof (intro ballI allI impI)
    fix x y assume x: "x \<in> set seen' - set seen" "(x, y) \<in> parent_rel db"
    show "y \<in> set seen'"
      by (cases "x = i") (use x ps sets closed [of x y] in auto)
  qed
  show "\<forall>x \<in> (set seen' - set seen) \<union> set [i]. \<exists>v \<in> set [v]. ms_of js v \<le> ms_of js (expiry_of js db x)"
  proof
    fix x assume x: "x \<in> (set seen' - set seen) \<union> set [i]"
    have "\<exists>w \<in> set (expiry_of js db i # vs). ms_of js w \<le> ms_of js (expiry_of js db x)"
      by (cases "x = i") (use x low [of x] in auto)
    then obtain w where "w \<in> set (expiry_of js db i # vs)" "ms_of js w \<le> ms_of js (expiry_of js db x)" by blast
    then have "ms_of js v \<le> ms_of js (expiry_of js db x)" using v(2) order_trans by blast
    then show "\<exists>v \<in> set [v]. ms_of js v \<le> ms_of js (expiry_of js db x)" by simp
  qed
  have "\<exists>y. (i, y) \<in> (parent_rel db)\<^sup>* \<and> v = expiry_of js db y"
    by (cases "v = expiry_of js db i") (use v(1) from_ps up in \<open>auto, blast\<close>)
  then show "\<forall>v \<in> set [v]. \<exists>p \<in> set [i]. \<exists>y. (p, y) \<in> (parent_rel db)\<^sup>* \<and> v = expiry_of js db y"
    by simp
qed

lemma visited_readable: "visited js db ps seen vs seen' \<Longrightarrow> wf_db js db \<Longrightarrow> v \<in> set vs \<Longrightarrow> readable js v"
  by (auto simp: visited_def readable_expiry)

lemma expiry_visits:
  "wf_db js db \<Longrightarrow> i \<in> set (grant_ids db) \<Longrightarrow>
    \<exists>v seen'. effective_expiry js db i seen = Inr (v, seen') \<and> visited js db [i] seen [v] seen'"
  "wf_db js db \<Longrightarrow> set ps \<subseteq> set (grant_ids db) \<Longrightarrow>
    \<exists>vs seen'. parent_expiries js db ps seen = Inr (vs, seen') \<and> visited js db ps seen vs seen'"
proof (induction js db i seen and js db ps seen rule: effective_expiry_parent_expiries.induct)
  case (1 js db i seen)
  then obtain g where g: "getGrant js db i = Inr (Some g)" using wf_getGrant by blast
  then have e: "expiry_of js db i = expires_at g" by (simp add: expiry_of_def)
  have r: "readable js (expires_at g)" using readable_expiry [OF "1.prems"(1), of i] e by simp
  show ?case
  proof (cases "i \<in> set seen")
    case True
    with g visited_seen [OF True, of js db] e show ?thesis by auto
  next
    case new: False
    show ?thesis
    proof (cases "getDelegation db i")
      case None
      obtain v where v: "earliest js (somes [expires_at g]) = Inr v" "v = expires_at g"
        using earliest_least [of "[expires_at g]" js] r by auto
      have "visited js db [i] seen [v] (i # seen)"
        by (rule visited_node [OF visited_Nil]) (use None v e in \<open>auto simp: parent_rel_root\<close>)
      with g new None v show ?thesis by auto
    next
      case (Some d)
      have ps: "set (delegation_parents d) = {p. (i, p) \<in> parent_rel db}" using parent_rel_child [OF Some] by auto
      then have "set (delegation_parents d) \<subseteq> set (grant_ids db)" using parents_exist "1.prems" by auto
      then obtain vs seen' where sub: "parent_expiries js db (delegation_parents d) (i # seen) = Inr (vs, seen')"
          "visited js db (delegation_parents d) (i # seen) vs seen'"
        using "1.IH" [OF g refl new Some] "1.prems" by blast
      obtain v where v: "earliest js (somes (expires_at g # vs)) = Inr v" "v \<in> set (expires_at g # vs)"
          "\<forall>x \<in> set (expires_at g # vs). ms_of js v \<le> ms_of js x"
        using earliest_least [of "expires_at g # vs" js] r visited_readable [OF sub(2) "1.prems"(1)] by auto
      have "visited js db [i] seen [v] seen'"
        using visited_node [OF sub(2) ps] v(2,3) e by simp
      with g new Some sub v show ?thesis by auto
    qed
  qed
next
  case (2 js db seen)
  then show ?case by simp
next
  case (3 js db p ps seen)
  then obtain v s1 where a: "effective_expiry js db p seen = Inr (v, s1)" "visited js db [p] seen [v] s1" by auto
  moreover obtain vs s2 where "parent_expiries js db ps s1 = Inr (vs, s2)" "visited js db ps s1 vs s2"
    using "3.IH"(2) [OF a(1) refl] "3.prems" by auto
  ultimately show ?case using visited_Cons by auto
qed

lemma seen_closed:
  assumes "visited js db [i] [] vs seen'" and "(i, x) \<in> (parent_rel db)\<^sup>*"
  shows "x \<in> set seen'"
  using assms(2)
proof (induction rule: rtrancl_induct)
  case base
  then show ?case using assms(1) by (simp add: visited_def)
next
  case (step y z)
  then show ?case using assms(1) by (auto simp: visited_def)
qed

lemma effectiveExpiry_least:
  assumes "wf_db js db" and "i \<in> set (grant_ids db)"
  shows "\<exists>v. effectiveExpiry js db i = Inr v
    \<and> (\<exists>y. (i, y) \<in> (parent_rel db)\<^sup>* \<and> v = expiry_of js db y)
    \<and> (\<forall>x. (i, x) \<in> (parent_rel db)\<^sup>* \<longrightarrow> ms_of js v \<le> ms_of js (expiry_of js db x))"
proof -
  obtain v seen' where e: "effective_expiry js db i [] = Inr (v, seen')" and vis: "visited js db [i] [] [v] seen'"
    using expiry_visits(1) [OF assms] by blast
  have "ms_of js v \<le> ms_of js (expiry_of js db x)" if "(i, x) \<in> (parent_rel db)\<^sup>*" for x
    using seen_closed [OF vis that] vis by (auto simp: visited_def)
  moreover have "\<exists>y. (i, y) \<in> (parent_rel db)\<^sup>* \<and> v = expiry_of js db y" using vis by (simp add: visited_def)
  ultimately show ?thesis using e by (auto simp: effectiveExpiry_def)
qed

end
