(* ===== verification/Grant_Properties.thy ===== *)
theory Grant_Properties
  imports Grant_Expiry
begin

text \<open>
  The properties of the capability grant store, over the definitions of \<^verbatim>\<open>Capability_Grants\<close>, each
  with a worked example: an owner's grant \<^verbatim>\<open>g1\<close>, a grant \<^verbatim>\<open>g2\<close> delegated from it and a grant
  \<^verbatim>\<open>g3\<close> that depends on \<^verbatim>\<open>g2\<close>.
\<close>

section \<open>A worked example\<close>

definition sample_owner :: issue_grant where
  "sample_owner = \<lparr>ig_grant_id = None, ig_principal_id = ''ada'', ig_boundary = Workspace ''w'',
     ig_operation_ids = [''scope.run'', ''capability.grant.delegate'', ''scope.run''], ig_targets = None,
     ig_expires_at = Some None, ig_issuer_id = ''owner'',
     ig_evidence = [\<lparr>evidence_kind = ''setup'', evidence_ref = ''1''\<rparr>], ig_delegation_only = False\<rparr>"

definition sample_act :: interaction where
  "sample_act = \<lparr>mode = Interactive, session_id = ''s1'', broker_id = None, confirmed_prompts = [], approval_refs = []\<rparr>"

definition sample_authority :: authority_context where
  "sample_authority = \<lparr>auth_principal_id = ''ada'', auth_boundary = Workspace ''w'', capability_grant_ids = [''g1''],
     session_capability_grant_ids = [''g1''], auth_grants = [''capability.grant.delegate''], auth_interaction = sample_act\<rparr>"

definition sample_delegate :: delegate_input where
  "sample_delegate = \<lparr>dg_authority = sample_authority, dg_source_grant_id = ''g1'', dg_principal_id = ''bob'',
     dg_recipient = \<lparr>res_kind = ''actor'', res_id = ''bob''\<rparr>, dg_operation_ids = [''scope.run''],
     dg_targets = None, dg_expires_at = Some (Some ''.........''), dg_delegation_only = False, dg_invocation_id = ''inv''\<rparr>"

definition sample_depend :: dependent_input where
  "sample_depend = \<lparr>di_grant_id = None, di_source_grant_id = ''g2'', di_principal_id = ''eve'',
     di_operation_ids = [''scope.run''], di_targets = None,
     di_evidence = [\<lparr>evidence_kind = ''setup'', evidence_ref = ''2''\<rparr>], di_expires_at = Some ''.....''\<rparr>"

definition sample1 :: "capability_grant \<times> grant_db" where
  "sample1 = projr (issueGrant sample_platform ''.'' ''g1'' sample_owner empty_grant_db)"

definition sample2 :: "capability_grant \<times> grant_db" where
  "sample2 = projr (delegateGrant sample_platform ''..'' ''..'' ''..'' ''g2'' sample_delegate (snd sample1))"

definition sample3 :: "capability_grant \<times> grant_db" where
  "sample3 = projr (issueDependentGrant sample_platform ''...'' ''...'' ''g3'' sample_depend (snd sample2))"

definition sample4 :: "bool \<times> grant_db" where
  "sample4 = projr (revokeGrant sample_platform ''g1'' ''....'' (snd sample3))"

lemma sample1_run: "issueGrant sample_platform ''.'' ''g1'' sample_owner empty_grant_db = Inr (fst sample1, snd sample1)"
proof -
  have "\<not> isl (issueGrant sample_platform ''.'' ''g1'' sample_owner empty_grant_db)" by code_simp
  then show ?thesis by (simp add: sample1_def)
qed

lemma sample2_run:
  "delegateGrant sample_platform ''..'' ''..'' ''..'' ''g2'' sample_delegate (snd sample1) = Inr (fst sample2, snd sample2)"
proof -
  have "\<not> isl (delegateGrant sample_platform ''..'' ''..'' ''..'' ''g2'' sample_delegate (snd sample1))" by code_simp
  then show ?thesis by (simp add: sample2_def)
qed

lemma sample3_run:
  "issueDependentGrant sample_platform ''...'' ''...'' ''g3'' sample_depend (snd sample2) = Inr (fst sample3, snd sample3)"
proof -
  have "\<not> isl (issueDependentGrant sample_platform ''...'' ''...'' ''g3'' sample_depend (snd sample2))" by code_simp
  then show ?thesis by (simp add: sample3_def)
qed

lemma sample4_run: "revokeGrant sample_platform ''g1'' ''....'' (snd sample3) = Inr (fst sample4, snd sample4)"
proof -
  have "\<not> isl (revokeGrant sample_platform ''g1'' ''....'' (snd sample3))" by code_simp
  then show ?thesis by (simp add: sample4_def)
qed

lemma sample_reachable:
  "grant_reachable sample_platform (snd sample1)" "grant_reachable sample_platform (snd sample2)"
  "grant_reachable sample_platform (snd sample3)" "grant_reachable sample_platform (snd sample4)"
proof -
  show r1: "grant_reachable sample_platform (snd sample1)"
    by (rule grant_reachable.step [OF grant_reachable.start grant_step.issue [OF sample1_run]])
  show r2: "grant_reachable sample_platform (snd sample2)"
    by (rule grant_reachable.step [OF r1 grant_step.delegate [OF sample2_run]])
  show r3: "grant_reachable sample_platform (snd sample3)"
    by (rule grant_reachable.step [OF r2 grant_step.depend [OF sample3_run]])
  show "grant_reachable sample_platform (snd sample4)"
    by (rule grant_reachable.step [OF r3 grant_step.revoke [OF sample4_run]])
qed

lemmas sample_wf = sample_reachable [THEN reachable_inv, THEN conjunct1]

section \<open>Rooted authority\<close>

lemma live_chain_rooted:
  assumes inv: "narrowed js db"
  shows "live_chain js db t i \<Longrightarrow> getGrant js db i = Inr (Some g) \<Longrightarrow> current js g t \<Longrightarrow> op \<in> set (operation_ids g) \<Longrightarrow>
    \<exists>r h. getDelegation db r = None \<and> getGrant js db r = Inr (Some h) \<and> current js h t
      \<and> op \<in> set (operation_ids h) \<and> grant_boundary h = grant_boundary g"
proof (induction arbitrary: g rule: live_chain.induct)
  case (root i)
  then show ?case by blast
next
  case (child i d c)
  let ?s = "d_source_grant_id d"
  have c: "c = g" using child.hyps(2) child.prems(1) by simp
  have d: "d \<in> set (grant_delegations db)" "d_grant_id d = i"
    using child.hyps(1) by (auto simp: getDelegation_def dest: row_where_SomeD)
  obtain h where h: "getGrant js db ?s = Inr (Some h)" "current js h t" "grant_boundary h = grant_boundary g"
    using child.hyps(3) [of ?s] c by (auto simp: parent_ok_def grantReferenceFailure_None_iff)
  have "narrower g h" using inv d h child.prems(1) by (auto simp: narrowed_def)
  then have "op \<in> set (operation_ids h)" using child.prems(3) by (auto simp: narrower_def)
  then show ?case using child.IH [of ?s h] h by auto
qed

text \<open>
  C1: in every database the grant store can reach, an operation in the authority that
  \<^verbatim>\<open>resolveSessionAuthority\<close> gives a session is held, in the session's boundary, by a grant that was
  not delegated and is unrevoked, issued and unexpired at that moment. Delegation at any depth
  never creates authority.
\<close>

theorem session_authority_rooted:
  assumes "grant_reachable js db"
    and "resolveSessionAuthority js db now session act target = Inr ra"
    and "op \<in> set (auth_grants (ra_authority ra))"
  shows "\<exists>t r h. date_parse js now = Some t \<and> getDelegation db r = None \<and> getGrant js db r = Inr (Some h)
    \<and> current js h t \<and> op \<in> set (operation_ids h) \<and> grant_boundary h = sb_boundary session"
proof -
  from assms(1) have wf: "wf_db js db" and n: "narrowed js db" by (auto dest: reachable_inv)
  from assms(2) obtain insp where insp: "inspectSessionGrantIds js db now session = Inr insp"
      and ra: "set (auth_grants (ra_authority ra))
        = (\<Union>g \<in> {g \<in> set (active_grants insp). grantAppliesToTarget g target}. set (operation_ids g))"
    by (auto simp: resolveSessionAuthority_def rbind_Inr_iff Let_def)
  from insp show ?thesis
  proof (rule inspectSessionGrantIds_Inr)
    fix t
    assume t: "date_parse js now = Some t"
      and active: "set (active_grants insp) =
        {g. \<exists>i \<in> set (sb_grant_ids session). live_for js db session t i g \<and> \<not> delegation_only g}"
    from assms(3) ra active obtain i g where "live_for js db session t i g" "op \<in> set (operation_ids g)" by auto
    then have "getGrant js db i = Inr (Some g)" "current js g t" "grant_boundary g = sb_boundary session"
      "live_chain js db t i" "op \<in> set (operation_ids g)"
      using delegationIsActive_eq [OF wf, of i t]
      by (auto simp: session_live_def grantReferenceFailure_None_iff)
    then show ?thesis using live_chain_rooted [OF n] t by metis
  qed
qed

definition sample_session :: session_binding where
  "sample_session = \<lparr>sb_principal_id = ''eve'', sb_boundary = Workspace ''w'', sb_grant_ids = [''g3'']\<rparr>"

definition sample_resolved :: resolved_authority where
  "sample_resolved = projr (resolveSessionAuthority sample_platform (snd sample3) ''...'' sample_session sample_act None)"

lemma sample_resolved_run:
  "resolveSessionAuthority sample_platform (snd sample3) ''...'' sample_session sample_act None = Inr sample_resolved"
proof -
  have "\<not> isl (resolveSessionAuthority sample_platform (snd sample3) ''...'' sample_session sample_act None)" by code_simp
  then show ?thesis by (simp add: sample_resolved_def)
qed

theorem session_authority_rooted_witness:
  "\<exists>t r h. date_parse sample_platform ''...'' = Some t \<and> getDelegation (snd sample3) r = None
    \<and> getGrant sample_platform (snd sample3) r = Inr (Some h)
    \<and> current sample_platform h t \<and> ''scope.run'' \<in> set (operation_ids h) \<and> grant_boundary h = Workspace ''w''"
proof -
  have op: "''scope.run'' \<in> set (auth_grants (ra_authority sample_resolved))" by code_simp
  have "sb_boundary sample_session = Workspace ''w''" by (simp add: sample_session_def)
  with session_authority_rooted [OF sample_reachable(3) sample_resolved_run op] show ?thesis by simp
qed

section \<open>Revocation\<close>

text \<open>
  C2: once \<^verbatim>\<open>revokeGrant\<close> has revoked a grant, no grant that \<^verbatim>\<open>dependentGrantIds\<close> lists for it is
  active at any later reading of the clock, at whatever depth it was delegated.
\<close>

theorem revocation_cascades:
  assumes "grant_reachable js db" and "revokeGrant js i tm db = Inr (True, db')"
    and "d \<in> set (dependentGrantIds db i)" and "getGrant js db' d = Inr (Some g)"
  shows "isActiveGrant js db' g t = Inr False"
proof -
  have wf: "wf_db js db" using assms(1) reachable_inv by blast
  have wf': "wf_db js db'" using revokeGrant_wf [OF assms(2) wf] .
  obtain h where h: "getGrant js db' i = Inr (Some h)" "revoked_at h \<noteq> None" and ds: "grant_delegations db' = grant_delegations db"
    using assms(2) by (cases rule: revokeGrantE) auto
  have "(d, i) \<in> (parent_rel db')\<^sup>*"
    using assms(3) set_dependentGrantIds [OF wf] parent_rel_cong [OF ds] by simp
  then have "\<not> (current js g t \<and> live_chain js db' t d)"
    using h assms(4) live_chain_ancestor [of js db' t d i] by (auto simp: current_def rtrancl_eq_or_trancl)
  then show ?thesis using isActiveGrant_eq [OF wf' assms(4)] by simp
qed

definition sample_revoked :: capability_grant where
  "sample_revoked = the (projr (getGrant sample_platform (snd sample4) ''g3''))"

theorem revocation_cascades_witness:
  "''g3'' \<in> set (dependentGrantIds (snd sample3) ''g1'') \<and> isActiveGrant sample_platform (snd sample4) sample_revoked 4 = Inr False"
proof -
  have d: "''g3'' \<in> set (dependentGrantIds (snd sample3) ''g1'')" by code_simp
  have "fst sample4" by code_simp
  then have r: "revokeGrant sample_platform ''g1'' ''....'' (snd sample3) = Inr (True, snd sample4)"
    using sample4_run by simp
  have "(case getGrant sample_platform (snd sample4) ''g3'' of Inr (Some _) \<Rightarrow> True | _ \<Rightarrow> False)" by code_simp
  then have g: "getGrant sample_platform (snd sample4) ''g3'' = Inr (Some sample_revoked)"
    by (auto simp: sample_revoked_def split: sum.splits option.splits)
  from d revocation_cascades [OF sample_reachable(3) r d g] show ?thesis by blast
qed

text \<open>
  Grants are append-only up to revocation. Along any sequence of store operations a stored
  grant stays readable with every field unchanged, except that an unrevoked grant may become
  revoked; a revocation time, once set, never changes.
\<close>

theorem grants_immutable:
  assumes "grant_reachable js db" and "(grant_step js)\<^sup>*\<^sup>* db db'" and "getGrant js db i = Inr (Some g)"
  shows "\<exists>g'. getGrant js db' i = Inr (Some g') \<and> keeps_grant g g'"
  using assms(2)
proof (induction rule: rtranclp_induct)
  case base
  show ?case using assms(3) by auto
next
  case (step db1 db2)
  from step.hyps(1) have "grant_reachable js db1"
    by (induction rule: rtranclp_induct) (auto intro: assms(1) grant_reachable.step)
  then have "evolves js db1 db2" using step.hyps(2) reachable_inv grant_step_wf_evolves by blast
  then show ?case using step.IH keeps_grant_trans by (fastforce simp: evolves_def)
qed

theorem grants_immutable_witness:
  "\<exists>g'. getGrant sample_platform (snd sample4) ''g1'' = Inr (Some g') \<and> keeps_grant (fst sample1) g'"
proof -
  have steps: "(grant_step sample_platform)\<^sup>*\<^sup>* (snd sample1) (snd sample4)"
    using grant_step.delegate [OF sample2_run] grant_step.depend [OF sample3_run] grant_step.revoke [OF sample4_run]
    by (meson rtranclp.rtrancl_into_rtrancl rtranclp.rtrancl_refl)
  have "getGrant sample_platform (snd sample1) ''g1'' = Inr (Some (fst sample1))" by code_simp
  from grants_immutable [OF sample_reachable(1) steps this] show ?thesis .
qed

section \<open>Chains\<close>

text \<open>
  C3: the memoised, cycle-guarded recursion of \<^verbatim>\<open>delegationIsActive\<close> always returns, and returns
  exactly whether the grant's whole delegation chain is live: every parent at every level exists,
  belongs to the issuer of its child in the child's boundary, and is current.
\<close>

theorem delegation_active_exact:
  assumes "grant_reachable js db"
  shows "delegationIsActive js db i t = Inr (live_chain js db t i)"
  using assms reachable_inv delegationIsActive_eq by blast

theorem delegation_active_exact_witness: "live_chain sample_platform (snd sample3) 3 ''g3''"
proof -
  have "delegationIsActive sample_platform (snd sample3) ''g3'' 3 = Inr True" by code_simp
  with delegation_active_exact [OF sample_reachable(3)] show ?thesis by simp
qed

text \<open>
  \<^verbatim>\<open>effectiveExpiry\<close> of a stored grant always returns, and returns the expiry of some grant on
  its delegation chain that no grant on the chain undercuts: sharing one \<^verbatim>\<open>seen\<close> set between the
  branches loses no expiry.
\<close>

theorem effective_expiry_least:
  assumes "grant_reachable js db" and "i \<in> set (grant_ids db)"
  shows "\<exists>v. effectiveExpiry js db i = Inr v
    \<and> (\<exists>y. (i, y) \<in> (parent_rel db)\<^sup>* \<and> v = expiry_of js db y)
    \<and> (\<forall>x. (i, x) \<in> (parent_rel db)\<^sup>* \<longrightarrow> ms_of js v \<le> ms_of js (expiry_of js db x))"
  using assms reachable_inv effectiveExpiry_least by blast

theorem effective_expiry_least_witness:
  "\<exists>v. effectiveExpiry sample_platform (snd sample3) ''g3'' = Inr v \<and> v = Some ''.....''
    \<and> (\<exists>y. (''g3'', y) \<in> (parent_rel (snd sample3))\<^sup>* \<and> v = expiry_of sample_platform (snd sample3) y)"
proof -
  have i: "''g3'' \<in> set (grant_ids (snd sample3))" by code_simp
  have "effectiveExpiry sample_platform (snd sample3) ''g3'' = Inr (Some ''.....'')" by code_simp
  with effective_expiry_least [OF sample_reachable(3) i] show ?thesis by auto
qed

end
