(* ===== verification/Grant_Sessions.thy ===== *)
theory Grant_Sessions
  imports Grant_Properties
begin

text \<open>
  What a session may do, what issuing and delegating write, and how a host policy's revisions
  replace one another.
\<close>

section \<open>Sessions\<close>

lemma inspect_total:
  assumes wf: "wf_db js db"
  shows "\<exists>acc'. inspect_all js db session t ids acc = Inr acc'"
proof (induction ids arbitrary: acc)
  case (Cons i ids)
  obtain found where found: "getGrant js db i = Inr found" using getGrant_total [OF wf] by blast
  have "\<exists>f. grantReferenceFailure js found who bnd t = Inr f" for who bnd
    by (cases found) (use found grantReferenceFailure_total [OF wf] in auto)
  then obtain f where "grantReferenceFailure js found (sb_principal_id session) (sb_boundary session) t = Inr f" by blast
  with found obtain acc1 where "inspect_one js db session t i acc = Inr acc1"
    using delegationIsActive_eq [OF wf, of i t] by (cases f) (auto simp: inspect_one_def)
  with Cons show ?case by simp
qed simp

definition session_ok :: "session_binding \<Rightarrow> bool" where
  "session_ok s \<longleftrightarrow> \<not> is_blank (sb_principal_id s) \<and> \<not> is_blank (boundaryId (sb_boundary s))
     \<and> (\<forall>i \<in> set (sb_grant_ids s). \<not> is_blank i)"

lemma inspectSession_total:
  "wf_db js db \<Longrightarrow> session_ok s \<Longrightarrow> date_parse js now = Some t \<Longrightarrow> \<exists>insp. inspectSessionGrantIds js db now s = Inr insp"
  using inspect_total [of js db s t] by (auto simp: inspectSessionGrantIds_def session_ok_def result_simps rbind_def
      assertNonEmpty_def normalizeBoundary_Inr [THEN iffD2] parseTimestamp_def normalizeNonEmptySet_Inr [THEN iffD2])

lemma resolve_exact:
  assumes "grant_reachable js db" and "session_ok s" and "\<not> is_blank (session_id act)" and "date_parse js now = Some t"
  shows "\<exists>ra. resolveSessionAuthority js db now s act target = Inr ra
    \<and> set (auth_grants (ra_authority ra)) = {op. \<exists>i \<in> set (sb_grant_ids s). \<exists>g.
        getGrant js db i = Inr (Some g) \<and> principal_id g = sb_principal_id s \<and> grant_boundary g = sb_boundary s
        \<and> current js g t \<and> live_chain js db t i \<and> \<not> delegation_only g
        \<and> grantAppliesToTarget g target \<and> op \<in> set (operation_ids g)}"
proof -
  have wf: "wf_db js db" using assms(1) reachable_inv by blast
  obtain insp where insp: "inspectSessionGrantIds js db now s = Inr insp"
    using inspectSession_total [OF wf assms(2,4)] by blast
  then have active: "set (active_grants insp) =
      {g. \<exists>i \<in> set (sb_grant_ids s). live_for js db s t i g \<and> \<not> delegation_only g}"
    using assms(4) by (auto elim!: inspectSessionGrantIds_Inr)
  show ?thesis
    using insp assms(3) delegationIsActive_eq [OF wf]
    by (fastforce simp: resolveSessionAuthority_def assertNonEmpty_def Let_def active session_live_def
        grantReferenceFailure_None_iff)
qed

text \<open>
  C4: \<^verbatim>\<open>resolveSessionAuthority\<close> returns for every well-formed session, and the operations it
  authorises are exactly those of the session's own grants that belong to its principal and
  boundary, are current, have a live delegation chain, are not reserved for delegation and apply to
  the target.
\<close>

theorem session_authority_exact:
  assumes "grant_reachable js db" and "session_ok s" and "\<not> is_blank (session_id act)" and "date_parse js now = Some t"
  shows "\<exists>ra. resolveSessionAuthority js db now s act target = Inr ra
    \<and> set (auth_grants (ra_authority ra)) = {op. \<exists>i \<in> set (sb_grant_ids s). \<exists>g.
        getGrant js db i = Inr (Some g) \<and> principal_id g = sb_principal_id s \<and> grant_boundary g = sb_boundary s
        \<and> current js g t \<and> live_chain js db t i \<and> \<not> delegation_only g
        \<and> grantAppliesToTarget g target \<and> op \<in> set (operation_ids g)}"
  using assms by (rule resolve_exact)

theorem session_authority_exact_witness:
  "\<exists>ra. resolveSessionAuthority sample_platform (snd sample3) ''...'' sample_session sample_act None = Inr ra"
proof -
  have "session_ok sample_session" by code_simp
  moreover have "\<not> is_blank (session_id sample_act)" by code_simp
  moreover have "date_parse sample_platform ''...'' = Some 3" by code_simp
  ultimately show ?thesis using session_authority_exact [OF sample_reachable(3)] by blast
qed

section \<open>Issue and delegation\<close>

text \<open>
  \<^verbatim>\<open>issueGrant\<close> then \<^verbatim>\<open>getGrant\<close> gives back the issued grant, which holds exactly the operations,
  targets and lifetime asked for, unrevoked; its identifier was free, every other grant reads as
  before, and \<^verbatim>\<open>on_issued\<close> is told once.
\<close>

theorem issue_round_trip:
  assumes "grant_reachable js db" and "issueGrant js now fresh input db = Inr (g, db')"
  shows "getGrant js db' (grant_id g) = Inr (Some g) \<and> getGrant js db (grant_id g) = Inr None
    \<and> (\<forall>j. j \<noteq> grant_id g \<longrightarrow> getGrant js db' j = getGrant js db j)
    \<and> set (operation_ids g) = set (ig_operation_ids input)
    \<and> set (targets g) = set (case ig_targets input of None \<Rightarrow> [] | Some ts \<Rightarrow> ts)
    \<and> principal_id g = ig_principal_id input \<and> grant_boundary g = ig_boundary input
    \<and> Some (expires_at g) = ig_expires_at input \<and> issued_at g = now \<and> revoked_at g = None
    \<and> notices db' = notices db @ [Issued g]"
proof -
  have "wf_db js db" using assms(1) reachable_inv by blast
  from issueGrant_record [OF assms(2) this] issueGrant_tables [OF assms(2)]
  show ?thesis by (simp add: getGrant_None_iff)
qed

theorem issue_round_trip_witness:
  "getGrant sample_platform (snd sample1) ''g1'' = Inr (Some (fst sample1))
    \<and> set (operation_ids (fst sample1)) = {''scope.run'', ''capability.grant.delegate''}"
proof -
  have "grant_id (fst sample1) = ''g1''" by code_simp
  moreover have "set (ig_operation_ids sample_owner) = {''scope.run'', ''capability.grant.delegate''}"
    by (auto simp: sample_owner_def)
  ultimately show ?thesis using issue_round_trip [OF grant_reachable.start sample1_run] by simp
qed

text \<open>What a delegation writes is narrower than its source.\<close>

lemma delegated_narrower_at:
  assumes "grant_reachable js db" and "delegateGrant js now1 now2 now3 fresh input db = Inr (g, db')"
  shows "\<exists>src t. getGrant js db (dg_source_grant_id input) = Inr (Some src) \<and> date_parse js now1 = Some t
    \<and> current js src t \<and> live_chain js db t (dg_source_grant_id input)
    \<and> principal_id src = auth_principal_id (dg_authority input) \<and> narrower g src
    \<and> ms_of js (expires_at g) \<le> ms_of js (expires_at src)"
  using assms(2)
proof (rule delegateGrantE)
  fix parent ops ts expiry t1 parentMs ms db1
  fix permissionMs :: millis
  assume t1: "date_parse js now1 = Some t1"
    and live: "live_under js db (dg_authority input) t1 (dg_source_grant_id input) parent"
    and ops: "set ops \<subseteq> set (operation_ids parent)"
    and ts: "targets parent \<noteq> [] \<longrightarrow> ts \<noteq> [] \<and> (\<forall>t \<in> set ts. \<exists>a \<in> set (targets parent). targetContains a t)"
    and ms: "expiryMs js (expires_at parent) = Inr parentMs" "expiryMs js expiry = Inr ms" "ms \<le> min parentMs permissionMs"
    and issue: "issueGrant js now3 fresh (delegated_input input ops ts expiry) db = Inr (g, db1)"
  have wf: "wf_db js db" using assms(1) reachable_inv by blast
  have g: "getGrant js db (dg_source_grant_id input) = Inr (Some parent)" "current js parent t1"
      "live_chain js db t1 (dg_source_grant_id input)" "principal_id parent = auth_principal_id (dg_authority input)"
      "grant_boundary parent = auth_boundary (dg_authority input)"
    using live delegationIsActive_eq [OF wf] by (auto simp: session_live_def grantReferenceFailure_None_iff)
  have "narrower g parent"
    using issueGrant_record [OF issue wf] ops ts g(4,5) by (auto simp: narrower_def simp flip: set_empty2)
  moreover have "ms_of js (expires_at g) \<le> ms_of js (expires_at parent)"
    using issueGrant_record [OF issue wf] ms by (simp add: ms_of_def)
  ultimately show ?thesis using t1 g by blast
qed

lemma delegated_narrower:
  assumes "grant_reachable js db" and "delegateGrant js now1 now2 now3 fresh input db = Inr (g, db')"
  shows "\<exists>src. getGrant js db (dg_source_grant_id input) = Inr (Some src) \<and> narrower g src"
  using delegated_narrower_at [OF assms] by blast

text \<open>
  C5: a grant made by \<^verbatim>\<open>delegateGrant\<close> never exceeds its source: its operations are a subset, its
  targets are contained in the source's when the source is restricted, its boundary is the same and
  it expires no later than the source. The source was live for the delegating principal.
\<close>

theorem delegation_narrows:
  assumes "grant_reachable js db" and "delegateGrant js now1 now2 now3 fresh input db = Inr (g, db')"
  shows "\<exists>src t. getGrant js db (dg_source_grant_id input) = Inr (Some src) \<and> date_parse js now1 = Some t
    \<and> current js src t \<and> live_chain js db t (dg_source_grant_id input)
    \<and> principal_id src = auth_principal_id (dg_authority input) \<and> narrower g src
    \<and> ms_of js (expires_at g) \<le> ms_of js (expires_at src)"
  using assms by (rule delegated_narrower_at)

theorem delegation_narrows_witness:
  "\<exists>src. narrower (fst sample2) src \<and> principal_id src = ''ada''"
proof -
  have "auth_principal_id (dg_authority sample_delegate) = ''ada''" by code_simp
  with delegation_narrows [OF sample_reachable(1) sample2_run] show ?thesis by auto
qed

text \<open>
  A dependent grant made by \<^verbatim>\<open>issueDependentGrant\<close> expires no later than any grant on the chain
  of its source, unless it is asked for without an expiry; then only its chain limits it.
\<close>

theorem dependent_expiry_bounded:
  assumes "grant_reachable js db" and "issueDependentGrant js now1 now2 fresh input db = Inr (g, db')"
    and "expires_at g \<noteq> None" and "(di_source_grant_id input, x) \<in> (parent_rel db)\<^sup>*"
  shows "ms_of js (expires_at g) \<le> ms_of js (expiry_of js db x)"
  using assms(2)
proof (rule issueDependentGrantE)
  fix source ops ts db1
  assume src: "getGrant js db (di_source_grant_id input) = Inr (Some source)"
    and bound: "\<forall>e. di_expires_at input = Some e \<longrightarrow> (\<exists>ms ee limit. date_parse js e = Some ms
       \<and> effectiveExpiry js db (grant_id source) = Inr ee \<and> expiryMs js ee = Inr limit \<and> Ms ms \<le> limit)"
    and issue: "issueGrant js now2 fresh (dependent_issue input source ops ts) db = Inr (g, db1)"
  have wf: "wf_db js db" using assms(1) reachable_inv by blast
  have e: "expires_at g = di_expires_at input" using issueGrant_record [OF issue wf] by simp
  then obtain s ms ee limit where s: "di_expires_at input = Some s" "date_parse js s = Some ms"
      "effectiveExpiry js db (grant_id source) = Inr ee" "expiryMs js ee = Inr limit" "Ms ms \<le> limit"
    using assms(3) bound by auto
  have "ms_of js ee \<le> ms_of js (expiry_of js db x)"
    using effectiveExpiry_least [OF wf getGrant_in_ids [OF src]] s(3) getGrant_id [OF src] assms(4) by auto
  moreover have "ms_of js ee = limit" using s(4) by (simp add: ms_of_def)
  ultimately show ?thesis using s e by auto
qed

theorem dependent_expiry_bounded_witness:
  "ms_of sample_platform (expires_at (fst sample3)) \<le> ms_of sample_platform (expiry_of sample_platform (snd sample2) ''g2'')"
proof -
  have "expires_at (fst sample3) \<noteq> None" by code_simp
  moreover have "(di_source_grant_id sample_depend, ''g2'') \<in> (parent_rel (snd sample2))\<^sup>*"
    by (simp add: sample_depend_def)
  ultimately show ?thesis using dependent_expiry_bounded [OF sample_reachable(2) sample3_run] by blast
qed

text \<open>
  \<^verbatim>\<open>delegateGrant\<close> notifies \<^verbatim>\<open>on_issued\<close> twice of the one grant it makes: once from the
  \<^verbatim>\<open>issueGrant\<close> it calls and once itself.
\<close>

theorem delegation_notifies_twice:
  assumes "delegateGrant js now1 now2 now3 fresh input db = Inr (g, db')"
  shows "notices db' = notices db @ [Issued g, Issued g]"
  using assms
proof (rule delegateGrantE)
  fix parent permission ops ts expiry db1
  assume issue: "issueGrant js now3 fresh (delegated_input input ops ts expiry) db = Inr (g, db1)"
    and db': "db' = delegated_db (child_of (grant_id g) (grant_id parent) (grant_id permission)) g db1"
  from issueGrant_tables(7) [OF issue] show ?thesis by (simp add: db' delegated_db_def)
qed

theorem delegation_notifies_twice_witness: "notices (snd sample2) = notices (snd sample1) @ [Issued (fst sample2), Issued (fst sample2)]"
  by (rule delegation_notifies_twice [OF sample2_run])

end
