(* ===== verification/Host_Policies.thy ===== *)
theory Host_Policies
  imports Grant_Sessions
begin

text \<open>
  The revisions of a host policy (\<^verbatim>\<open>activateHostPolicyGrant\<close>): at most one is in force, and a revision
  that was replaced has lost its grant. Two worked examples show where the code falls short: a
  replay that is refused, and a containment of targets that does not compose.
\<close>

section \<open>The revision table\<close>

definition hp_active :: "host_policy \<Rightarrow> bool" where
  "hp_active p \<longleftrightarrow> superseded_at p = None"

definition hp_key :: "host_policy \<Rightarrow> string \<times> string" where
  "hp_key p = (host_policy_id p, policy_revision p)"

definition revision_keys_ok :: "host_policy list \<Rightarrow> bool" where
  "revision_keys_ok ps \<longleftrightarrow> distinct (map hp_grant_id ps) \<and> distinct (map hp_key ps)
     \<and> distinct (map host_policy_id (filter hp_active ps))"

definition hp_inv :: "platform \<Rightarrow> grant_db \<Rightarrow> bool" where
  "hp_inv js db \<longleftrightarrow> revision_keys_ok (host_policies db)
     \<and> (\<forall>p \<in> set (host_policies db). \<exists>g. getGrant js db (hp_grant_id p) = Inr (Some g)
          \<and> (\<not> hp_active p \<longrightarrow> revoked_at g \<noteq> None))"

lemma hp_inv_evolves:
  assumes "hp_inv js db" and "evolves js db db'" and same: "host_policies db' = host_policies db"
  shows "hp_inv js db'"
proof -
  have "\<exists>g. getGrant js db' (hp_grant_id p) = Inr (Some g) \<and> (\<not> hp_active p \<longrightarrow> revoked_at g \<noteq> None)"
    if p: "p \<in> set (host_policies db)" for p
  proof -
    obtain g where g: "getGrant js db (hp_grant_id p) = Inr (Some g)" "\<not> hp_active p \<longrightarrow> revoked_at g \<noteq> None"
      using assms(1) p by (auto simp: hp_inv_def)
    then obtain g' where "getGrant js db' (hp_grant_id p) = Inr (Some g')" "keeps_grant g g'"
      using assms(2) by (auto simp: evolves_def)
    with g show ?thesis by (auto simp: keeps_grant_def)
  qed
  with assms(1) same show ?thesis by (simp add: hp_inv_def)
qed

lemma active_unique:
  "distinct (map host_policy_id (filter hp_active ps)) \<Longrightarrow> p \<in> set ps \<Longrightarrow> q \<in> set ps \<Longrightarrow> hp_active p \<Longrightarrow> hp_active q
    \<Longrightarrow> host_policy_id p = host_policy_id q \<Longrightarrow> p = q"
  by (auto simp: distinct_map inj_on_def)

lemma filter_active_supersede:
  "filter hp_active (set_where (\<lambda>p. P p \<and> superseded_at p = None) (\<lambda>p. p\<lparr>superseded_at := Some tm\<rparr>) ps)
    = filter (\<lambda>p. hp_active p \<and> \<not> P p) ps"
  by (induction ps) (auto simp: hp_active_def)

lemma filter_active_link:
  "map host_policy_id (filter hp_active (set_where P (\<lambda>p. p\<lparr>superseded_by_grant_id := s\<rparr>) ps))
    = map host_policy_id (filter hp_active ps)"
  by (induction ps) (auto simp: hp_active_def)

lemma keys_link: "revision_keys_ok (set_where P (\<lambda>p. p\<lparr>superseded_by_grant_id := s\<rparr>) ps) = revision_keys_ok ps"
  by (simp add: revision_keys_ok_def filter_active_link map_set_where hp_key_def [abs_def])

lemma keys_supersede:
  assumes "revision_keys_ok ps"
  shows "revision_keys_ok (set_where (\<lambda>p. P p \<and> superseded_at p = None) (\<lambda>p. p\<lparr>superseded_at := Some tm\<rparr>) ps)"
proof -
  have "distinct (map host_policy_id (filter (\<lambda>p. hp_active p \<and> \<not> P p) ps))"
    using distinct_map_filter [of host_policy_id "filter hp_active ps" "\<lambda>p. \<not> P p"] assms
    by (simp add: revision_keys_ok_def conj_commute)
  with assms show ?thesis
    by (simp add: revision_keys_ok_def filter_active_supersede map_set_where hp_key_def [abs_def])
qed

lemma insert_host_policy_keys:
  assumes "insert_host_policy p db = Inr db'" and keys: "revision_keys_ok (host_policies db)"
  shows "revision_keys_ok (host_policies db')"
proof -
  have new: "hp_grant_id p \<notin> hp_grant_id ` set (host_policies db)"
    "hp_key p \<notin> hp_key ` set (host_policies db)"
    "hp_active p \<Longrightarrow> host_policy_id p \<notin> host_policy_id ` set (filter hp_active (host_policies db))"
    using assms(1) by (fastforce simp: insert_host_policy_def throw_if_Inr_iff hp_key_def hp_active_def)+
  have "host_policies db' = host_policies db @ [p]"
    using assms(1) by (auto simp: insert_host_policy_def throw_if_Inr_iff)
  with new keys show ?thesis by (auto simp: revision_keys_ok_def)
qed

text \<open>What an installed revision leaves in the two tables.\<close>

lemma installed_policies:
  assumes "issueGrant js now2 [] ig (supersede_active now1 active db) = Inr (g, db1)"
    and "insert_host_policy p db1 = Inr db2" and "db' = retire_active now1 s active db2"
  shows "host_policies db' = (case active of None \<Rightarrow> host_policies db @ [p]
    | Some a \<Rightarrow> set_where (\<lambda>q. hp_grant_id q = hp_grant_id a) (\<lambda>q. q\<lparr>superseded_by_grant_id := Some s\<rparr>)
        (set_where (\<lambda>q. hp_grant_id q = hp_grant_id a \<and> superseded_at q = None)
          (\<lambda>q. q\<lparr>superseded_at := Some now1\<rparr>) (host_policies db) @ [p]))"
  using assms(3) insert_host_policy_Inr [OF assms(2)] issueGrant_tables(4) [OF assms(1)]
  by (auto simp: retire_active_def supersede_active_def split: option.splits)

lemma installed_grant:
  assumes "issueGrant js now2 [] ig (supersede_active now1 active db) = Inr (g, db1)"
    and "insert_host_policy p db1 = Inr db2" and "db' = retire_active now1 s active db2"
  shows "getGrant js db' i = (case active of None \<Rightarrow> getGrant js db1 i
    | Some a \<Rightarrow> getGrant js (revoke_row (hp_grant_id a) now1 db1) i)"
  using assms(3) insert_host_policy_Inr [OF assms(2)]
  by (auto simp: retire_active_eq revoke_row_def getGrant_def operations_of_def targets_of_def split: option.splits)

lemma active_revision:
  assumes "getActiveHostPolicyRevision db policyId = Some a"
  shows "a \<in> set (host_policies db)" and "host_policy_id a = policyId" and "hp_active a"
  using row_where_SomeD [OF assms [unfolded getActiveHostPolicyRevision_def]] by (simp_all add: hp_active_def)

lemma superseded_from:
  assumes "p \<in> set (set_where (\<lambda>q. hp_grant_id q = a) (\<lambda>q. q\<lparr>superseded_by_grant_id := s\<rparr>)
        (set_where (\<lambda>q. hp_grant_id q = a \<and> superseded_at q = None) (\<lambda>q. q\<lparr>superseded_at := Some tm\<rparr>) ps @ [n]))"
  shows "\<exists>q. (q \<in> set ps \<or> q = n) \<and> hp_grant_id p = hp_grant_id q
    \<and> (hp_active p \<or> \<not> hp_active q \<or> hp_grant_id q = a)"
proof -
  define link where "link q = (if hp_grant_id q = a then q\<lparr>superseded_by_grant_id := s\<rparr> else q)" for q :: host_policy
  define sup where "sup q = (if hp_grant_id q = a \<and> superseded_at q = None then q\<lparr>superseded_at := Some tm\<rparr> else q)" for q :: host_policy
  from assms have "p \<in> set (map link (map sup ps @ [n]))"
    unfolding set_where_def link_def sup_def .
  then obtain q where q: "q \<in> set ps \<or> q = n" and p: "p = link (sup q) \<or> p = link q"
    by auto
  have "hp_grant_id p = hp_grant_id q \<and> (hp_active p \<or> \<not> hp_active q \<or> hp_grant_id q = a)"
    using p by (cases "hp_grant_id q = a") (auto simp: hp_active_def link_def sup_def)
  with q show ?thesis by blast
qed

lemma hp_inv_host:
  assumes act: "activateHostPolicyGrant js now1 now2 input db = Inr (r, db')" and wf: "wf_db js db" and inv: "hp_inv js db"
  shows "hp_inv js db'"
  using act
proof (cases rule: activateHostPolicyGrantE)
  case replayed
  with inv show ?thesis by simp
next
  case (installed policyId grantId ops ts ev active db1 db2)
  note w = installed(3-5)
  let ?g = "ha_grant r"
  let ?p = "new_host_policy input policyId (grant_id ?g) now1 active"
  have keys1: "revision_keys_ok (host_policies db1)"
    using inv issueGrant_tables(4) [OF w(1)]
    by (simp add: hp_inv_def supersede_active_def keys_supersede split: option.split)
  have keys: "revision_keys_ok (host_policies db')"
    using insert_host_policy_keys [OF w(2) keys1] w(3) by (simp add: retire_active_def keys_link split: option.split)
  have new: "getGrant js db1 (grant_id ?g) = Inr (Some ?g)"
    using issueGrant_record [OF w(1)] issueGrant_tables(5) [OF w(1)] wf by simp
  have old: "getGrant js db1 i = Inr (Some g)" if "getGrant js db i = Inr (Some g)" for i g
    using issue_keeps [OF w(1)] that by simp
  have "\<exists>g. getGrant js db' (hp_grant_id p) = Inr (Some g) \<and> (\<not> hp_active p \<longrightarrow> revoked_at g \<noteq> None)"
    if p: "p \<in> set (host_policies db')" for p
  proof (cases active)
    case None
    then have "p \<in> set (host_policies db) \<or> p = ?p" using p installed_policies [OF w] by auto
    then show ?thesis
      using None new old inv installed_grant [OF w] by (auto simp: hp_inv_def new_host_policy_def hp_active_def)
  next
    case (Some a)
    have gg: "getGrant js db' i = rbind (getGrant js db1 i) (\<lambda>g. Inr (map_option (revoked_by (hp_grant_id a) now1) g))" for i
      using Some installed_grant [OF w] by (simp add: getGrant_revoke_row)
    from p Some obtain q where q: "q \<in> set (host_policies db) \<or> q = ?p" and pq: "hp_grant_id p = hp_grant_id q"
        "\<not> hp_active p \<longrightarrow> \<not> hp_active q \<or> hp_grant_id q = hp_grant_id a"
      using installed_policies [OF w] superseded_from [of p "hp_grant_id a"] by fastforce
    then obtain g where g: "getGrant js db1 (hp_grant_id q) = Inr (Some g)" "\<not> hp_active q \<longrightarrow> revoked_at g \<noteq> None"
      using new old inv by (auto simp: hp_inv_def new_host_policy_def hp_active_def)
    then show ?thesis using gg pq getGrant_id [OF g(1)] by (auto simp: revoked_by_def)
  qed
  with keys show ?thesis by (simp add: hp_inv_def)
qed

lemma step_policies:
  assumes "grant_step js db db'" and "wf_db js db" and "hp_inv js db"
  shows "hp_inv js db'"
  using assms
proof (induction rule: grant_step.induct)
  case (host now1 now2 hinput db r db')
  then show ?case by (blast intro: hp_inv_host)
next
  case (issue now fresh input db g db')
  then show ?case using hp_inv_evolves evolves_issue issueGrant_tables(4) by blast
next
  case (delegate now1 now2 now3 fresh dinput db g db')
  then have "host_policies db' = host_policies db"
    by (auto elim!: delegateGrantE simp: delegated_db_def issueGrant_tables(4))
  with delegate show ?case by (blast intro: hp_inv_evolves evolves_delegate)
next
  case (depend now1 now2 fresh pinput db g db')
  then have "host_policies db' = host_policies db"
    by (auto elim!: issueDependentGrantE simp: delegated_db_def issueGrant_tables(4))
  with depend show ?case by (blast intro: hp_inv_evolves evolves_depend)
next
  case (revoke i tm db "done" db')
  then have "evolves js db db'" by (auto elim!: revokeGrantE simp: evolves_refl evolves_revoke_row)
  moreover from revoke have "host_policies db' = host_policies db"
    by (auto elim!: revokeGrantE simp: revoke_row_def)
  ultimately show ?case using revoke by (blast intro: hp_inv_evolves)
qed

lemma reachable_hp_inv: "grant_reachable js db \<Longrightarrow> hp_inv js db"
proof (induction rule: grant_reachable.induct)
  case start
  show ?case by (simp add: hp_inv_def empty_grant_db_def revision_keys_ok_def)
next
  case (step db db')
  then show ?case using step_policies reachable_inv by blast
qed

section \<open>Properties\<close>

text \<open>
  In every reachable store a host policy has at most one revision in force, and the grant of
  every superseded revision exists and is revoked.
\<close>

theorem host_policy_single_active:
  assumes "grant_reachable js db" and "p \<in> set (host_policies db)"
  shows "(\<forall>q \<in> set (host_policies db). superseded_at p = None \<and> superseded_at q = None
      \<and> host_policy_id q = host_policy_id p \<longrightarrow> q = p)
    \<and> (superseded_at p \<noteq> None \<longrightarrow> (\<exists>g. getGrant js db (hp_grant_id p) = Inr (Some g) \<and> revoked_at g \<noteq> None))"
  using reachable_hp_inv [OF assms(1)] assms(2) active_unique [of "host_policies db"]
  by (fastforce simp: hp_inv_def revision_keys_ok_def hp_active_def)

definition sample_host :: activate_host_policy where
  "sample_host = \<lparr>ahp_host_id = ''h'', ahp_principal_id = ''ada'', ahp_purpose = ''setup'', ahp_policy_revision = ''1'',
     ahp_operation_ids = [''b.run'', ''C.run''], ahp_targets = None, ahp_expires_at = None, ahp_issuer_id = ''root'',
     ahp_evidence = [\<lparr>evidence_kind = ''setup'', evidence_ref = ''1''\<rparr>]\<rparr>"

definition host1 :: "host_activation \<times> grant_db" where
  "host1 = projr (activateHostPolicyGrant sample_platform ''.'' ''.'' sample_host empty_grant_db)"

definition host2 :: "host_activation \<times> grant_db" where
  "host2 = projr (activateHostPolicyGrant sample_platform ''..'' ''..'' (sample_host\<lparr>ahp_policy_revision := ''2''\<rparr>) (snd host1))"

lemma host1_run:
  "activateHostPolicyGrant sample_platform ''.'' ''.'' sample_host empty_grant_db = Inr (fst host1, snd host1)"
proof -
  have "\<not> isl (activateHostPolicyGrant sample_platform ''.'' ''.'' sample_host empty_grant_db)" by code_simp
  then show ?thesis by (simp add: host1_def)
qed

lemma host2_run:
  "activateHostPolicyGrant sample_platform ''..'' ''..'' (sample_host\<lparr>ahp_policy_revision := ''2''\<rparr>) (snd host1)
    = Inr (fst host2, snd host2)"
proof -
  have "\<not> isl (activateHostPolicyGrant sample_platform ''..'' ''..'' (sample_host\<lparr>ahp_policy_revision := ''2''\<rparr>) (snd host1))"
    by code_simp
  then show ?thesis by (simp add: host2_def)
qed

lemma host_reachable: "grant_reachable sample_platform (snd host1)" "grant_reachable sample_platform (snd host2)"
proof -
  show r: "grant_reachable sample_platform (snd host1)"
    by (rule grant_reachable.step [OF grant_reachable.start grant_step.host [OF host1_run]])
  show "grant_reachable sample_platform (snd host2)"
    by (rule grant_reachable.step [OF r grant_step.host [OF host2_run]])
qed

theorem host_policy_single_active_witness:
  "\<exists>g. getGrant sample_platform (snd host2) (hp_grant_id (hd (host_policies (snd host2)))) = Inr (Some g) \<and> revoked_at g \<noteq> None"
proof -
  have "list_ex (\<lambda>p. p = hd (host_policies (snd host2))) (host_policies (snd host2))" by code_simp
  then have m: "hd (host_policies (snd host2)) \<in> set (host_policies (snd host2))" by (auto simp: list_ex_iff)
  have "superseded_at (hd (host_policies (snd host2))) \<noteq> None" by code_simp
  with host_policy_single_active [OF host_reachable(2) m] show ?thesis by blast
qed

text \<open>
  A successful \<^verbatim>\<open>activateHostPolicyGrant\<close> leaves its revision in force with a readable, unrevoked
  grant; a different revision of the policy that was in force before has lost its grant.
\<close>

theorem host_policy_replaces:
  assumes "grant_reachable js db" and act: "activateHostPolicyGrant js now1 now2 input db = Inr (r, db')"
  shows "ha_policy r \<in> set (host_policies db') \<and> superseded_at (ha_policy r) = None
    \<and> getGrant js db' (hp_grant_id (ha_policy r)) = Inr (Some (ha_grant r)) \<and> revoked_at (ha_grant r) = None
    \<and> (\<forall>a. getActiveHostPolicyRevision db (host_policy_id (ha_policy r)) = Some a \<and> \<not> ha_replayed r
        \<longrightarrow> (\<exists>g. getGrant js db' (hp_grant_id a) = Inr (Some g) \<and> revoked_at g \<noteq> None))"
  using act
proof (cases rule: activateHostPolicyGrantE)
  case replayed
  then show ?thesis by auto
next
  case (installed policyId grantId ops ts ev active db1 db2)
  note w = installed(3-5)
  have wf: "wf_db js db" and inv: "hp_inv js db" using assms(1) reachable_inv reachable_hp_inv by blast+
  let ?g = "ha_grant r"
  have g: "getGrant js db1 (grant_id ?g) = Inr (Some ?g)" "revoked_at ?g = None" "grant_id ?g \<notin> set (grant_ids db)"
    using issueGrant_record [OF w(1)] issueGrant_tables(2,5) [OF w(1)] wf by simp_all
  have before: "\<exists>h. getGrant js db (hp_grant_id a) = Inr (Some h)" if "active = Some a" for a
    using active_revision(1) [of db policyId a] that installed(2) inv by (auto simp: hp_inv_def)
  have a: "hp_grant_id a \<noteq> grant_id ?g" if "active = Some a" for a
    using before [OF that] g(3) getGrant_in_ids by metis
  have read: "getGrant js db' (grant_id ?g) = Inr (Some ?g)"
    using installed_grant [OF w, of "grant_id ?g"] g(1) a
    by (auto simp: getGrant_revoke_row revoked_by_def split: option.splits)
  have gone: "\<exists>h. getGrant js db' (hp_grant_id a) = Inr (Some h) \<and> revoked_at h \<noteq> None" if act: "active = Some a" for a
  proof -
    obtain h where h: "getGrant js db (hp_grant_id a) = Inr (Some h)" using before [OF act] by blast
    then have "getGrant js db1 (hp_grant_id a) = Inr (Some h)" using issue_keeps [OF w(1)] by simp
    then show ?thesis using installed_grant [OF w, of "hp_grant_id a"] act getGrant_id [OF h]
      by (auto simp: getGrant_revoke_row revoked_by_def)
  qed
  let ?p = "new_host_policy input policyId (grant_id ?g) now1 active"
  have keys: "revision_keys_ok (host_policies db')" using hp_inv_host [OF act wf inv] by (simp add: hp_inv_def)
  have p': "?p \<in> set (host_policies db')"
    using installed_policies [OF w] a by (cases active) (auto simp: new_host_policy_def)
  have q: "ha_policy r \<in> set (host_policies db')" "hp_key (ha_policy r) = hp_key ?p"
    using installed(6) by (auto simp: getHostPolicyRevision_def hp_key_def new_host_policy_def dest: row_where_SomeD)
  then have "ha_policy r = ?p" using keys p' by (auto simp: revision_keys_ok_def distinct_map inj_on_def)
  then show ?thesis using q read g(2) gone installed(2) by (auto simp: new_host_policy_def)
qed

theorem host_policy_replaces_witness:
  "superseded_at (ha_policy (fst host2)) = None \<and> revoked_at (ha_grant (fst host2)) = None"
  using host_policy_replaces [OF host_reachable(1) host2_run] by blast

section \<open>Replaying an activation\<close>

text \<open>What an activation is normalised to before the store is consulted.\<close>

definition host_request ::
  "platform \<Rightarrow> activate_host_policy \<Rightarrow> (grant_error, string list \<times> grant_target list \<times> grant_evidence list \<times> string \<times> string) result" where
  "host_request js input =
     rbind (assertNonEmpty ''host_id'' (ahp_host_id input)) (\<lambda>_.
     rbind (assertNonEmpty ''principal_id'' (ahp_principal_id input)) (\<lambda>_.
     rbind (assertNonEmpty ''policy purpose'' (ahp_purpose input)) (\<lambda>_.
     rbind (assertNonEmpty ''policy_revision'' (ahp_policy_revision input)) (\<lambda>_.
     rbind (assertNonEmpty ''issuer_id'' (ahp_issuer_id input)) (\<lambda>_.
     rbind (normalizeNonEmptySet js (ahp_operation_ids input) ''operation_id'' True) (\<lambda>ops.
     rbind (normalizeTargets js (case ahp_targets input of None \<Rightarrow> [] | Some ts \<Rightarrow> ts)) (\<lambda>ts.
     rbind (normalizeEvidence js (ahp_evidence input)) (\<lambda>ev.
     rbind (hostCapabilityPolicyId js (ahp_host_id input) (ahp_purpose input)) (\<lambda>policyId.
     rbind (hostCapabilityPolicyGrantId js policyId (ahp_policy_revision input)) (\<lambda>grantId.
     Inr (ops, ts, ev, policyId, grantId)))))))))))"

lemma activateHostPolicyGrant_eq:
  "activateHostPolicyGrant js now1 now2 input db = rbind (host_request js input) (\<lambda>(ops, ts, ev, policyId, grantId).
     case getHostPolicyRevision db policyId (ahp_policy_revision input) of
       Some existing \<Rightarrow> replay_host_policy js now1 input ops ts ev existing db
     | None \<Rightarrow> install_host_policy js now1 now2 input ops ts ev policyId grantId db)"
proof -
  have assoc: "rbind (rbind m k) h = rbind m (\<lambda>x. rbind (k x) h)" for m :: "(grant_error, 'x) result" and k :: "'x \<Rightarrow> (grant_error, 'y) result"
      and h :: "'y \<Rightarrow> (grant_error, 'z) result" by (cases m) simp_all
  show ?thesis unfolding activateHostPolicyGrant_def host_request_def assoc by simp
qed

text \<open>A revision that was just installed, as the store reads it back.\<close>

lemma installed_revision:
  assumes "grant_reachable js db" and act: "activateHostPolicyGrant js now1 now2 input db = Inr (r, db')" and new: "\<not> ha_replayed r"
    and request: "host_request js input = Inr (ops, ts, ev, policyId, grantId)"
  obtains active ev' where "ha_policy r = new_host_policy input policyId (grant_id (ha_grant r)) now1 active"
    "getHostPolicyRevision db' policyId (ahp_policy_revision input) = Some (ha_policy r)"
    "getGrant js db' (grant_id (ha_grant r)) = Inr (Some (ha_grant r))" "revoked_at (ha_grant r) = None"
    "issuer_id (ha_grant r) = ahp_issuer_id input" "expires_at (ha_grant r) = ahp_expires_at input"
    "operation_ids (ha_grant r) = js_sort binary_compare (issued_ops js (host_policy_input input ops ts ev grantId))"
    "targets (ha_grant r) = js_sort target_row_compare (issued_targets js (host_policy_input input ops ts ev grantId))"
    "evidence (ha_grant r) = js_sort (evidence_locale_compare js) (js_uniq (issued_evidence js (host_policy_input input ops ts ev grantId)))"
proof -
  have wf: "wf_db js db" and inv: "hp_inv js db" using assms(1) reachable_inv reachable_hp_inv by blast+
  have fin: "(case getHostPolicyRevision db policyId (ahp_policy_revision input) of
       Some existing \<Rightarrow> replay_host_policy js now1 input ops ts ev existing db
     | None \<Rightarrow> install_host_policy js now1 now2 input ops ts ev policyId grantId db) = Inr (r, db')"
    using act unfolding activateHostPolicyGrant_eq request by simp
  have none: "getHostPolicyRevision db policyId (ahp_policy_revision input) = None"
  proof (rule ccontr)
    assume "getHostPolicyRevision db policyId (ahp_policy_revision input) \<noteq> None"
    then show False using fin new by (auto simp: replay_host_policy_def result_simps)
  qed
  let ?g = "ha_grant r" and ?active = "getActiveHostPolicyRevision db policyId"
  from fin none obtain db1 db2 where w: "issueGrant js now2 [] (host_policy_input input ops ts ev grantId) (supersede_active now1 ?active db) = Inr (?g, db1)"
      "insert_host_policy (new_host_policy input policyId (grant_id ?g) now1 ?active) db1 = Inr db2"
      "db' = retire_active now1 (grant_id ?g) ?active db2"
      and found: "getHostPolicyRevision db' policyId (ahp_policy_revision input) = Some (ha_policy r)"
    by (auto simp: install_host_policy_def rbind_Inr_iff Let_def new_host_policy_def host_policy_input_def split: option.splits)
  have wf': "wf_db js (supersede_active now1 ?active db)" using wf by simp
  have gi: "grant_id ?g \<notin> set (grant_ids db)" "getGrant js db1 (grant_id ?g) = Inr (Some ?g)"
    using issueGrant_record [OF w(1)] issueGrant_tables(2,5) [OF w(1)] wf by simp_all
  have a: "hp_grant_id p \<noteq> grant_id ?g" if "?active = Some p" for p
    using active_revision(1) [OF that] inv gi(1) getGrant_in_ids by (metis hp_inv_def)
  have read: "getGrant js db' (grant_id ?g) = Inr (Some ?g)"
    using installed_grant [OF w, of "grant_id ?g"] gi(2) a by (auto simp: getGrant_revoke_row revoked_by_def split: option.splits)
  let ?p = "new_host_policy input policyId (grant_id ?g) now1 ?active"
  have keys: "revision_keys_ok (host_policies db')" using hp_inv_host [OF act wf inv] by (simp add: hp_inv_def)
  have "?p \<in> set (host_policies db')" using installed_policies [OF w] a by (cases ?active) (auto simp: new_host_policy_def)
  moreover have "ha_policy r \<in> set (host_policies db')" "hp_key (ha_policy r) = hp_key ?p"
    using found by (auto simp: getHostPolicyRevision_def hp_key_def new_host_policy_def dest: row_where_SomeD)
  ultimately have p: "ha_policy r = ?p" using keys by (auto simp: revision_keys_ok_def distinct_map inj_on_def)
  show thesis
    by (rule that [OF p found read]) (use issueGrant_lists [OF w(1) wf'] issueGrant_record [OF w(1) wf'] in \<open>simp_all add: host_policy_input_def\<close>)
qed

text \<open>
  What ECMAScript promises of \<^verbatim>\<open>localeCompare\<close>: a total preorder whose sign is reversed when its
  arguments are.
\<close>

definition collation :: "(string \<Rightarrow> string \<Rightarrow> int) \<Rightarrow> bool" where
  "collation cmp \<longleftrightarrow> comparator cmp \<and> (\<forall>a b. sgn (cmp b a) = - sgn (cmp a b))"

lemma lexicographic_comparator:
  assumes f: "comparator f" and sign: "\<And>a b. sgn (f b a) = - sgn (f a b)" and g: "comparator g"
  shows "comparator (or_compare f g)"
proof -
  have zero: "f y x = 0 \<longleftrightarrow> f x y = 0" and neg: "f x y < 0 \<Longrightarrow> 0 < f y x" for x y
    using sign [of x y] by (auto simp: sgn_if split: if_splits)
  note ft = comparator.cmp_total [OF f] comparator.cmp_trans [OF f] and gt = comparator.cmp_total [OF g] comparator.cmp_trans [OF g]
  have le: "or_compare f g x y \<le> 0 \<longleftrightarrow> f x y < 0 \<or> f x y = 0 \<and> g x y \<le> 0" for x y by (auto simp: or_compare_def)
  show ?thesis
  proof
    show "or_compare f g x y \<le> 0 \<or> or_compare f g y x \<le> 0" for x y
      using ft(1) [of x y] gt(1) [of x y] zero [of x y] unfolding le by fastforce
    fix x y z assume "or_compare f g x y \<le> 0" and "or_compare f g y z \<le> 0"
    then have xy: "f x y < 0 \<or> f x y = 0 \<and> g x y \<le> 0" and yz: "f y z < 0 \<or> f y z = 0 \<and> g y z \<le> 0" unfolding le by blast+
    have "f x z \<le> 0" by (rule ft(2) [of x y z]) (use xy yz in auto)
    moreover have "f x y = 0 \<and> f y z = 0" if "f x z = 0"
    proof -
      have zx: "f z x = 0" using that zero by blast
      have "f y x \<le> 0" using ft(2) [of y z x] yz zx by auto
      moreover have "f z y \<le> 0" using ft(2) [of z x y] xy zx by auto
      ultimately show ?thesis using xy yz neg [of x y] neg [of y z] by auto
    qed
    ultimately show "or_compare f g x z \<le> 0" using xy yz gt(2) [of x y z] unfolding le by (cases "f x z = 0") auto
  qed
qed

lemma comparator_on: "comparator f \<Longrightarrow> comparator (\<lambda>l r. f (p l) (p r))"
  by (simp add: comparator_def)

lemma evidence_comparator:
  assumes "collation (locale_compare js)"
  shows "comparator (evidence_locale_compare js)"
  unfolding evidence_locale_compare_def
proof (rule lexicographic_comparator)
  note c = assms [unfolded collation_def]
  show "comparator (\<lambda>l r. locale_compare js (evidence_kind l) (evidence_kind r))" "comparator (\<lambda>l r. locale_compare js (evidence_ref l) (evidence_ref r))"
    by (rule comparator_on, rule conjunct1 [OF c])+
  show "sgn (locale_compare js (evidence_kind b) (evidence_kind a)) = - sgn (locale_compare js (evidence_kind a) (evidence_kind b))" for a b
    using c by blast
qed

lemma target_row_strict: "strict_comparator target_row_compare"
proof
  show "target_row_compare x y \<le> 0 \<or> target_row_compare y x \<le> 0" for x y unfolding target_row_compare_def by (rule binary.cmp_total)
  show "target_row_compare x y \<le> 0 \<Longrightarrow> target_row_compare y z \<le> 0 \<Longrightarrow> target_row_compare x z \<le> 0" for x y z
    unfolding target_row_compare_def by (rule binary.cmp_trans)
  show "target_row_compare x y \<le> 0 \<Longrightarrow> target_row_compare y x \<le> 0 \<Longrightarrow> x = y" for x y
    unfolding target_row_compare_def by (drule (1) binary.cmp_antisym) (cases x, cases y, simp)
qed

text \<open>
  C6: whether an activation can be replayed depends on the collation of the host. The operations and
  targets of the input are sorted by \<^verbatim>\<open>localeCompare\<close>, those of the stored grant are read back in the
  binary order of SQLite, and the two lists are compared as text. After a new revision was activated,
  the same activation, while the grant has not expired, is replayed exactly when \<^verbatim>\<open>localeCompare\<close> puts
  its operations and its targets in code point order; otherwise it is refused as a different policy.
\<close>

theorem host_policy_replay_refused:
  assumes "grant_reachable js db" and "activateHostPolicyGrant js now1 now2 input db = Inr (r, db')" and "\<not> ha_replayed r"
    and "collation (locale_compare js)" and "date_parse js now3 = Some t" and "expiryMs js (ahp_expires_at input) = Inr ms" and "Ms t < ms"
    and "normalizeNonEmptySet js (ahp_operation_ids input) ''operation_id'' True = Inr ops"
    and "normalizeTargets js (case ahp_targets input of None \<Rightarrow> [] | Some ts \<Rightarrow> ts) = Inr ts"
  shows "activateHostPolicyGrant js now3 now4 input db' =
    (if js_sort binary_compare ops = ops \<and> js_sort target_row_compare ts = ts
     then Inr (\<lparr>ha_replayed = True, ha_policy = ha_policy r, ha_grant = ha_grant r\<rparr>, db')
     else Inl (HostPolicyDiffers (host_policy_id (ha_policy r)) (ahp_policy_revision input)))"
proof -
  obtain ops' ts' ev policyId grantId where q: "host_request js input = Inr (ops', ts', ev, policyId, grantId)"
    using assms(2) unfolding activateHostPolicyGrant_eq by (cases "host_request js input") auto
  then have eq: "ops' = ops" "ts' = ts" "normalizeEvidence js (ahp_evidence input) = Inr ev"
    using assms(8,9) unfolding host_request_def rbind_Inr_iff by auto
  let ?in = "host_policy_input input ops ts ev grantId"
  from installed_revision [OF assms(1-3) q] obtain active where p: "ha_policy r = new_host_policy input policyId (grant_id (ha_grant r)) now1 active"
    "getHostPolicyRevision db' policyId (ahp_policy_revision input) = Some (ha_policy r)"
    "getGrant js db' (grant_id (ha_grant r)) = Inr (Some (ha_grant r))" "revoked_at (ha_grant r) = None"
    "issuer_id (ha_grant r) = ahp_issuer_id input" "expires_at (ha_grant r) = ahp_expires_at input"
    and lists: "operation_ids (ha_grant r) = js_sort binary_compare (issued_ops js ?in)"
    "targets (ha_grant r) = js_sort target_row_compare (issued_targets js ?in)"
    "evidence (ha_grant r) = js_sort (evidence_locale_compare js) (js_uniq (issued_evidence js ?in))"
    unfolding eq by blast
  have d: "distinct ops" "distinct ts" "distinct ev" using assms(8,9) eq(3) by (auto simp: result_simps)
  have "operation_ids (ha_grant r) = js_sort binary_compare ops"
    unfolding lists by (rule binary.sort_set_canonical) (use d in \<open>simp_all add: issued_ops_def host_policy_input_def\<close>)
  moreover have "targets (ha_grant r) = js_sort target_row_compare ts"
    unfolding lists by (rule strict_comparator.sort_set_canonical [OF target_row_strict]) (use d in \<open>simp_all add: issued_targets_def host_policy_input_def\<close>)
  moreover have "evidence (ha_grant r) = ev"
  proof -
    note c = comparator.sort_idem [OF evidence_comparator [OF assms(4)]]
    have "js_sort (evidence_locale_compare js) ev = ev" using eq(3) c by (auto simp: result_simps)
    then show ?thesis using d(3) by (simp add: lists issued_evidence_def host_policy_input_def js_uniq_distinct c)
  qed
  moreover have "parseTimestamp js ''now'' now3 = Inr t" using assms(5) by (simp add: parseTimestamp_Inr)
  ultimately show ?thesis
    unfolding activateHostPolicyGrant_eq q eq using p assms(6,7)
    by (auto simp: replay_host_policy_def requireGrant_def new_host_policy_def throw_if_def)
qed

definition collating_platform :: platform where
  "collating_platform = sample_platform\<lparr>locale_compare := (\<lambda>a b. or_compare
     (\<lambda>a b. binary_compare (js_lower a) (js_lower b)) binary_compare a b)\<rparr>"

lemma collating_collation: "collation (locale_compare collating_platform)"
  unfolding collation_def
proof (intro conjI allI)
  let ?f = "\<lambda>a b. binary_compare (js_lower a) (js_lower b)" and ?g = "binary_compare :: string \<Rightarrow> string \<Rightarrow> int"
  have eq: "locale_compare collating_platform = or_compare ?f ?g" by (simp add: collating_platform_def fun_eq_iff)
  have sign: "sgn (binary_compare b a) = - sgn (binary_compare a b)" for a b :: string by (simp add: binary_compare_def)
  show "comparator (locale_compare collating_platform)"
    unfolding eq by (rule lexicographic_comparator [OF comparator_on [OF binary.comparator_axioms] sign binary.comparator_axioms])
  show "sgn (locale_compare collating_platform b a) = - sgn (locale_compare collating_platform a b)" for a b
    unfolding eq by (auto simp: or_compare_def binary_compare_def)
qed

theorem host_policy_replay_refused_witness:
  "\<exists>r db. activateHostPolicyGrant collating_platform ''.'' ''.'' sample_host empty_grant_db = Inr (r, db)
    \<and> activateHostPolicyGrant collating_platform ''..'' ''..'' sample_host db = Inl (HostPolicyDiffers (host_policy_id (ha_policy r)) ''1'')"
proof -
  let ?run = "activateHostPolicyGrant collating_platform ''.'' ''.'' sample_host empty_grant_db"
  have run: "?run = Inr (fst (projr ?run), snd (projr ?run))" "\<not> ha_replayed (fst (projr ?run))" by code_simp+
  have t: "date_parse collating_platform ''..'' = Some 2" by code_simp
  have e: "expiryMs collating_platform (ahp_expires_at sample_host) = Inr Infinity" "Ms 2 < Infinity" by code_simp+
  have n: "normalizeNonEmptySet collating_platform (ahp_operation_ids sample_host) ''operation_id'' True = Inr [''b.run'', ''C.run'']"
    "normalizeTargets collating_platform (case ahp_targets sample_host of None \<Rightarrow> [] | Some ts \<Rightarrow> ts) = Inr []" by code_simp+
  have "js_sort binary_compare [''b.run'', ''C.run''] \<noteq> [''b.run'', ''C.run'']" by code_simp
  moreover have "ahp_policy_revision sample_host = ''1''" by (simp add: sample_host_def)
  ultimately have "activateHostPolicyGrant collating_platform ''..'' ''..'' sample_host (snd (projr ?run))
      = Inl (HostPolicyDiffers (host_policy_id (ha_policy (fst (projr ?run)))) ''1'')"
    using host_policy_replay_refused [OF grant_reachable.start run collating_collation t e n, of "''..''"] by simp
  then show ?thesis using run(1) by blast
qed

text \<open>
  Containment of filesystem targets does not compose: the workspace root contains the relative
  path \<^verbatim>\<open>C:\<close>, which contains \<^verbatim>\<open>C:/x\<close>, a path the root does not contain. Two delegations can
  therefore reach a target outside the first grant.
\<close>

theorem target_containment_not_transitive:
  "\<exists>a b c. targetContains a b \<and> targetContains b c \<and> \<not> targetContains a c"
proof -
  let ?t = "\<lambda>p. \<lparr>target_kind = FILESYSTEM_PATH_TARGET_KIND, target_id = Some p\<rparr>"
  have "targetContains (?t ''.'') (?t ''C:'') \<and> targetContains (?t ''C:'') (?t ''C:/x'')
      \<and> \<not> targetContains (?t ''.'') (?t ''C:/x'')"
    by code_simp
  then show ?thesis by blast
qed

end
