(* ===== verification/Tool_Properties.thy ===== *)
theory Tool_Properties
  imports Normal_Forms Host_Policies
begin

text \<open>
  The decision on a tool call against a declarative reading of the limits a person may choose, its
  monotonicity, the normal form of tool facts, and how delegation and tool limits interact.
\<close>

section \<open>A specification of compliance\<close>

lemma find_filter: "find P (filter Q xs) = find (\<lambda>x. Q x \<and> P x) xs"
  by (induction xs) auto


definition within_paths :: "tool_facts \<Rightarrow> grant_target list \<Rightarrow> bool" where
  "within_paths f folders \<longleftrightarrow> outside_count f \<le> 0 \<and> unresolved_path_count f \<le> 0 \<and> paths f \<noteq> []
     \<and> (\<forall>p \<in> set (paths f). \<exists>folder \<in> set folders. targetContains folder (path_target p))"

definition complies :: "tool_grant \<Rightarrow> tool_facts \<Rightarrow> string \<Rightarrow> bool" where
  "complies g f op \<longleftrightarrow>
     (\<forall>t \<in> set (tg_targets g). target_kind t \<in> set TOOL_TARGET_KINDS)
     \<and> (ofKind g FILESYSTEM_PATH_TARGET_KIND \<noteq> [] \<longrightarrow> op \<noteq> process_execute
          \<and> (touchesFiles f op \<longrightarrow> within_paths f (ofKind g FILESYSTEM_PATH_TARGET_KIND)))
     \<and> (op = process_execute \<and> ofKind g EXECUTABLE_TARGET_KIND \<noteq> [] \<longrightarrow>
          executables f \<noteq> [] \<and> unclassified_segment_count f \<le> 0 \<and> \<not> write_redirection f
          \<and> (\<forall>n \<in> set (executables f). \<exists>t \<in> set (ofKind g EXECUTABLE_TARGET_KIND).
               targetContains t \<lparr>target_kind = EXECUTABLE_TARGET_KIND, target_id = Some n\<rparr>))
     \<and> (op = network_fetch \<and> ofKind g NETWORK_DOMAIN_TARGET_KIND \<noteq> [] \<longrightarrow>
          invalid_url_count f \<le> 0 \<and> destinations f \<noteq> []
          \<and> (\<forall>d \<in> set (destinations f). dest_scheme d \<in> set FETCH_SCHEMES
               \<and> (\<exists>t \<in> set (ofKind g NETWORK_DOMAIN_TARGET_KIND).
                    targetContains t \<lparr>target_kind = NETWORK_DOMAIN_TARGET_KIND, target_id = Some (dest_host d)\<rparr>)))"

lemma pathsRefusal_None_iff: "pathsRefusal f folders label code = None \<longleftrightarrow> within_paths f folders"
  by (auto simp: pathsRefusal_def within_paths_def list_ex_iff find_None_iff split: option.splits dest!: find_SomeD)

lemma folder_refusal_None_iff:
  "folder_refusal g f op = None \<longleftrightarrow> (ofKind g FILESYSTEM_PATH_TARGET_KIND \<noteq> [] \<longrightarrow> op \<noteq> process_execute
     \<and> (touchesFiles f op \<longrightarrow> within_paths f (ofKind g FILESYSTEM_PATH_TARGET_KIND)))"
  by (auto simp: folder_refusal_def Let_def pathsRefusal_None_iff)

lemma command_refusal_None_iff:
  "command_refusal g f op = None \<longleftrightarrow> (op = process_execute \<and> ofKind g EXECUTABLE_TARGET_KIND \<noteq> [] \<longrightarrow>
     executables f \<noteq> [] \<and> unclassified_segment_count f \<le> 0 \<and> \<not> write_redirection f
     \<and> (\<forall>n \<in> set (executables f). \<exists>t \<in> set (ofKind g EXECUTABLE_TARGET_KIND).
          targetContains t \<lparr>target_kind = EXECUTABLE_TARGET_KIND, target_id = Some n\<rparr>))"
  by (auto simp: command_refusal_def Let_def shellAmbiguity_def find_None_iff list_ex_iff split: option.splits dest!: find_SomeD)

lemma domain_refusal_None_iff:
  "domain_refusal g f op = None \<longleftrightarrow> (op = network_fetch \<and> ofKind g NETWORK_DOMAIN_TARGET_KIND \<noteq> [] \<longrightarrow>
     invalid_url_count f \<le> 0 \<and> destinations f \<noteq> []
     \<and> (\<forall>d \<in> set (destinations f). dest_scheme d \<in> set FETCH_SCHEMES
          \<and> (\<exists>t \<in> set (ofKind g NETWORK_DOMAIN_TARGET_KIND).
               targetContains t \<lparr>target_kind = NETWORK_DOMAIN_TARGET_KIND, target_id = Some (dest_host d)\<rparr>)))"
  by (auto simp: domain_refusal_def Let_def find_None_iff list_ex_iff split: option.splits dest!: find_SomeD)

lemma grantRefusal_None_iff: "grantRefusal g f op = None \<longleftrightarrow> complies g f op"
proof -
  have "grantRefusal g f op = None \<longleftrightarrow> (\<forall>t \<in> set (tg_targets g). target_kind t \<in> set TOOL_TARGET_KINDS)
      \<and> folder_refusal g f op = None \<and> command_refusal g f op = None \<and> domain_refusal g f op = None"
    by (auto simp: grantRefusal_def list_ex_iff split: option.splits)
  then show ?thesis
    by (simp only: complies_def folder_refusal_None_iff command_refusal_None_iff domain_refusal_None_iff)
qed

text \<open>What the call itself has to satisfy, whichever grant allows it.\<close>

definition workspace_ok :: "tool_facts \<Rightarrow> string list \<Rightarrow> bool" where
  "workspace_ok f folders \<longleftrightarrow> outside_count f \<le> 0 \<and> unresolved_path_count f \<le> 0 \<and> paths f \<noteq> []
     \<and> (\<forall>p \<in> set (paths f). isAbsoluteCanonicalPath p \<longrightarrow> (\<exists>folder \<in> set folders. pathUnder folder p \<noteq> None))"

definition network_ok :: "tool_facts \<Rightarrow> tool_grant list \<Rightarrow> bool" where
  "network_ok f grants \<longleftrightarrow> destinations f = [] \<and> invalid_url_count f = 0
     \<or> (\<exists>g \<in> set grants. network_fetch \<in> set (tg_operation_ids g)
          \<and> complies g (f\<lparr>paths := [], unresolved_path_count := 0, outside_path_count := Some 0\<rparr>) network_fetch)"

definition call_ok ::
  "string \<Rightarrow> tool_facts \<Rightarrow> string list option \<Rightarrow> tool_grant list \<Rightarrow> workspace_boundary \<Rightarrow> bool" where
  "call_ok op f scope grants ws \<longleftrightarrow> isEngineToolOperation op \<and> (sandbox_bypass f \<longrightarrow> wb_system_access ws)
     \<and> (if op = process_execute then scope = None \<and> network_ok f grants
        else (isFileTool op \<and> \<not> wb_system_access ws \<longrightarrow> workspace_ok f (wb_folders ws))
          \<and> (\<forall>ps. scope = Some ps \<and> touchesFiles f op \<longrightarrow> within_paths f (map path_target ps)))"

definition granting :: "string \<Rightarrow> tool_facts \<Rightarrow> tool_grant \<Rightarrow> bool" where
  "granting op f g \<longleftrightarrow> op \<in> set (tg_operation_ids g) \<and> complies g f op"

lemma workspaceRefusal_None_iff: "workspaceRefusal f folders = None \<longleftrightarrow> workspace_ok f folders"
  by (auto simp: workspaceRefusal_def workspace_ok_def Let_def list_ex_iff)

lemma shellNetworkRefusal_None_iff: "shellNetworkRefusal f grants = None \<longleftrightarrow> network_ok f grants"
  by (auto simp: shellNetworkRefusal_def network_ok_def Let_def list_ex_iff grantRefusal_None_iff)

definition denial :: "decision option \<Rightarrow> bool" where
  "denial r \<longleftrightarrow> (\<forall>i. r \<noteq> Some (Allowed i))"

lemma denial_simps [simp]: "denial None" "denial (Some (Denied c m))" "\<not> denial (Some (Allowed i))"
  by (simp_all add: denial_def)

lemma denial_if [intro]: "(b \<Longrightarrow> denial x) \<Longrightarrow> (\<not> b \<Longrightarrow> denial y) \<Longrightarrow> denial (if b then x else y)"
  by simp

lemma denial_case [intro]: "denial x \<Longrightarrow> (\<And>a. v = Some a \<Longrightarrow> denial (y a)) \<Longrightarrow> denial (case v of None \<Rightarrow> x | Some a \<Rightarrow> y a)"
  by (cases v) auto

lemma workspaceRefusal_denies [simp]: "denial (workspaceRefusal f folders)"
  unfolding workspaceRefusal_def Let_def by (intro denial_if denial_simps)

lemma pathsRefusal_denies [simp]: "denial (pathsRefusal f ts label code)"
  unfolding pathsRefusal_def by (intro denial_if denial_case denial_simps)

lemma shellNetworkRefusal_denies [simp]: "denial (shellNetworkRefusal f grants)"
  unfolding shellNetworkRefusal_def Let_def by (intro denial_if denial_simps)

lemma grantRefusal_denies [simp]: "denial (grantRefusal g f op)"
proof -
  have "denial (folder_refusal g f op)"
    unfolding folder_refusal_def Let_def by (intro denial_if denial_simps pathsRefusal_denies)
  moreover have "denial (command_refusal g f op)" "denial (domain_refusal g f op)"
    unfolding command_refusal_def domain_refusal_def Let_def by (intro denial_if denial_case denial_simps)+
  ultimately show ?thesis by (auto simp: grantRefusal_def split: option.split)
qed

lemma or_else_Allowed:
  "denial r \<Longrightarrow> or_else r d = Allowed i \<longleftrightarrow> r = None \<and> d = Allowed i"
  by (auto simp: or_else_def denial_def split: option.splits)

lemma first_allowing_Allowed:
  assumes "gs \<noteq> []"
  shows "first_allowing gs f op = Allowed i \<longleftrightarrow> map_option tg_grant_id (find (\<lambda>g. complies g f op) gs) = Some i"
proof (cases "find (\<lambda>g. complies g f op) gs")
  case None
  with assms have "grantRefusal (hd gs) f op \<noteq> None"
    by (cases gs) (auto simp: grantRefusal_None_iff split: if_splits)
  then obtain r where "grantRefusal (hd gs) f op = Some r" by blast
  then show ?thesis using None grantRefusal_denies [of "hd gs" f op]
    by (simp add: first_allowing_def grantRefusal_None_iff denial_def)
qed (simp add: first_allowing_def grantRefusal_None_iff)

lemma shell_candidates_Allowed:
  assumes "denial first"
  shows "shell_candidates gs f grants first = Some (Allowed i) \<longleftrightarrow>
    network_ok f grants \<and> map_option tg_grant_id (find (\<lambda>g. complies g f process_execute) gs) = Some i"
  using assms
proof (induction gs arbitrary: first)
  case Nil
  then show ?case by (simp add: denial_def)
next
  case (Cons g gs)
  show ?case
  proof (cases "grantRefusal g f process_execute")
    case None
    then have "complies g f process_execute" using grantRefusal_None_iff by blast
    then show ?thesis
      using None shellNetworkRefusal_None_iff [of f grants] shellNetworkRefusal_denies [of f grants]
      by (cases "shellNetworkRefusal f grants") (auto simp: denial_def)
  next
    case (Some r)
    then have "\<not> complies g f process_execute" "denial (Some r)"
      using grantRefusal_None_iff [of g f process_execute] grantRefusal_denies [of g f process_execute] by auto
    then show ?thesis using Some Cons by (cases first) auto
  qed
qed

lemma shell_candidates_None: "shell_candidates gs f grants first = None \<longleftrightarrow> gs = [] \<and> first = None"
  by (induction gs arbitrary: first) (auto split: option.splits)

lemma decideShell_Allowed:
  assumes "gs \<noteq> []"
  shows "decideShell gs f scope grants = Allowed i \<longleftrightarrow> scope = None \<and> network_ok f grants
    \<and> map_option tg_grant_id (find (\<lambda>g. complies g f process_execute) gs) = Some i"
proof -
  obtain d where d: "shell_candidates gs f grants None = Some d"
    using assms shell_candidates_None [of gs f grants None] by blast
  then show ?thesis using shell_candidates_Allowed [of None gs f grants i] by (auto simp: decideShell_def)
qed

lemma decide_Allowed_iff:
  "decideToolAuthority op f scope grants ws = Allowed i \<longleftrightarrow>
     call_ok op f scope grants ws \<and> map_option tg_grant_id (find (granting op f) grants) = Some i"
proof (cases "filter (\<lambda>g. op \<in> set (tg_operation_ids g)) grants = []")
  case True
  then have "find (granting op f) grants = None" by (auto simp: find_None_iff granting_def filter_empty_conv)
  with True show ?thesis by (auto simp: decideToolAuthority_def Let_def)
next
  case False
  have g: "find (\<lambda>g. complies g f op) (filter (\<lambda>g. op \<in> set (tg_operation_ids g)) grants) = find (granting op f) grants"
    unfolding find_filter granting_def [abs_def] ..
  let ?ws = "if \<not> wb_system_access ws \<and> isFileTool op then workspaceRefusal f (wb_folders ws) else None"
  let ?sc = "case scope of Some ps \<Rightarrow> if touchesFiles f op
      then pathsRefusal f (map path_target ps) ''this Actor's scope'' tool_path_outside_scope else None | None \<Rightarrow> None"
  have deny: "denial ?ws" "denial ?sc"
    by (auto split: option.split)
  have sc: "?sc = None \<longleftrightarrow> (\<forall>ps. scope = Some ps \<and> touchesFiles f op \<longrightarrow> within_paths f (map path_target ps))"
    by (simp add: pathsRefusal_None_iff split: option.split)
  have w: "?ws = None \<longleftrightarrow> (isFileTool op \<and> \<not> wb_system_access ws \<longrightarrow> workspace_ok f (wb_folders ws))"
    by (simp add: workspaceRefusal_None_iff)
  show ?thesis
  proof (cases "op = process_execute")
    case True
    then show ?thesis using False g decideShell_Allowed [OF False]
      by (auto simp: decideToolAuthority_def call_ok_def Let_def)
  next
    case ne: False
    have "or_else ?ws (or_else ?sc (first_allowing (filter (\<lambda>g. op \<in> set (tg_operation_ids g)) grants) f op)) = Allowed i
        \<longleftrightarrow> ?ws = None \<and> ?sc = None \<and> map_option tg_grant_id (find (granting op f) grants) = Some i"
      using first_allowing_Allowed [OF False, of f op i] unfolding g or_else_Allowed [OF deny(1)] or_else_Allowed [OF deny(2)] by simp
    then show ?thesis using False ne unfolding sc w
      by (auto simp: decideToolAuthority_def call_ok_def Let_def)
  qed
qed

section \<open>The decision\<close>

text \<open>
  C7: \<^verbatim>\<open>decideToolAuthority\<close> allows a call exactly when the call respects the Workspace boundary, the
  Actor's folder scope and the sandbox rule and some held grant for the operation has limits the
  reported evidence satisfies; it names the first such grant.
\<close>

theorem tool_authority_exact:
  "decideToolAuthority op f scope grants ws = Allowed i \<longleftrightarrow>
     call_ok op f scope grants ws \<and> map_option tg_grant_id (find (granting op f) grants) = Some i"
  by (rule decide_Allowed_iff)

lemma find_append: "find P (xs @ ys) = (case find P xs of None \<Rightarrow> find P ys | Some x \<Rightarrow> Some x)"
  by (induction xs) auto

lemma call_ok_mono:
  assumes "call_ok op f scope grants ws" and "set grants \<subseteq> set grants'"
    and "set (wb_folders ws) \<subseteq> set (wb_folders ws')" and "wb_system_access ws \<longrightarrow> wb_system_access ws'"
  shows "call_ok op f scope grants' ws'"
proof -
  have "network_ok f grants'" if "network_ok f grants" using that assms(2) by (auto simp: network_ok_def)
  moreover have "workspace_ok f (wb_folders ws')" if "workspace_ok f (wb_folders ws)"
    using that assms(3) unfolding workspace_ok_def by blast
  ultimately show ?thesis using assms(1,4) by (auto simp: call_ok_def split: if_splits)
qed

text \<open>
  More authority never turns an allowed call into a refused one: adding grants after those
  held, Workspace folders, or System access keeps the same grant's permission.
\<close>

theorem tool_authority_monotone:
  assumes "decideToolAuthority op f scope grants ws = Allowed i"
    and "set (wb_folders ws) \<subseteq> set (wb_folders ws')" and "wb_system_access ws \<longrightarrow> wb_system_access ws'"
  shows "decideToolAuthority op f scope (grants @ extra) ws' = Allowed i"
proof -
  have ok: "call_ok op f scope grants ws" and f: "map_option tg_grant_id (find (granting op f) grants) = Some i"
    using assms(1) unfolding decide_Allowed_iff by blast+
  have "call_ok op f scope (grants @ extra) ws'" by (rule call_ok_mono [OF ok _ assms(2,3)]) simp
  then show ?thesis unfolding decide_Allowed_iff using f by (auto simp: find_append)
qed

definition sample_facts :: tool_facts where
  "sample_facts = \<lparr>actor_definition_revision_id = ''r'', tool_call_id = None, engine = ''e'', manifest_version = ''1'',
     native_tools = [''Bash''], paths = [''src/a''], unresolved_path_count = 0, outside_path_count = Some 0,
     executables = [''rm''], unclassified_segment_count = 0, destinations = [], invalid_url_count = 0,
     write_redirection = False, sandbox_bypass = False, argument_digest = ''d''\<rparr>"

definition sample_reader :: tool_grant where
  "sample_reader = \<lparr>tg_grant_id = ''g1'', tg_operation_ids = [filesystem_read], tg_targets = [path_target ''src'']\<rparr>"

definition sample_ws :: workspace_boundary where
  "sample_ws = \<lparr>wb_folders = [''/data''], wb_system_access = False\<rparr>"

theorem tool_authority_monotone_witness:
  "decideToolAuthority filesystem_read sample_facts (Some [''src'']) ([sample_reader] @ [sample_reader\<lparr>tg_grant_id := ''g2''\<rparr>])
     (sample_ws\<lparr>wb_system_access := True\<rparr>) = Allowed ''g1''"
proof -
  have "decideToolAuthority filesystem_read sample_facts (Some [''src'']) [sample_reader] sample_ws = Allowed ''g1''"
    by code_simp
  then show ?thesis by (rule tool_authority_monotone) (simp_all add: sample_ws_def)
qed

text \<open>
  C8: a file tool that is allowed while System access is off touches only Workspace folders. When
  its path facts are those \<^verbatim>\<open>classifyToolPaths\<close> made from what the engine reported, then every reported
  path was resolved to an absolute one and recorded, in order, either as its part below the home
  folder or, when it is not in the home folder, as it is; and in the latter case it lies in a folder
  the Workspace had when the path was recorded and, as soon as it is absolute in the host's sense, in
  one the Workspace has when the call is decided.
\<close>

theorem file_tools_confined:
  assumes allowed: "decideToolAuthority op f scope grants ws = Allowed i"
    and kind: "isFileTool op" and off: "\<not> wb_system_access ws"
    and facts: "paths f = tp_paths c" "outside_count f = int (tp_outside c)" "unresolved_path_count f = int (tp_unresolved c)"
    and c: "c = classifyToolPaths isAbs sep reported bnd"
  shows "reported \<noteq> [] \<and> list_all2 (\<lambda>r p. \<exists>v. r = Some v \<and> isAbs v
      \<and> ((\<exists>home. b_home bnd = Some home \<and> home \<noteq> [] \<and> pathUnder home (canonicalAbsolutePath sep v) = Some p)
        \<or> (\<forall>home. b_home bnd = Some home \<and> home \<noteq> [] \<longrightarrow> pathUnder home (canonicalAbsolutePath sep v) = None)
          \<and> p = canonicalAbsolutePath sep v \<and> (\<exists>folder \<in> set (b_folders bnd). pathUnder folder p \<noteq> None))
      \<and> (isAbsoluteCanonicalPath p \<longrightarrow> (\<exists>folder \<in> set (wb_folders ws). pathUnder folder p \<noteq> None))) reported (paths f)"
proof -
  have "op \<noteq> process_execute" using kind by (auto simp: isFileTool_def filesystem_read_def filesystem_write_def process_execute_def)
  then have ok: "workspace_ok f (wb_folders ws)"
    using allowed kind off unfolding decide_Allowed_iff by (simp add: call_ok_def)
  then have "tp_outside c = 0" "tp_unresolved c = 0" using facts by (auto simp: workspace_ok_def)
  then have kept: "list_all2 (kept_path isAbs sep bnd) reported (paths f)" using classifyToolPaths_kept facts(1) c by simp
  have "paths f \<noteq> []" and now: "\<forall>p \<in> set (paths f). isAbsoluteCanonicalPath p \<longrightarrow> (\<exists>folder \<in> set (wb_folders ws). pathUnder folder p \<noteq> None)"
    using ok by (simp_all add: workspace_ok_def)
  then have "reported \<noteq> []" using kept by auto
  moreover have "list_all2 (\<lambda>r p. kept_path isAbs sep bnd r p
      \<and> (isAbsoluteCanonicalPath p \<longrightarrow> (\<exists>folder \<in> set (wb_folders ws). pathUnder folder p \<noteq> None))) reported (paths f)"
    using kept now by (auto simp: list_all2_conv_all_nth)
  ultimately show ?thesis unfolding kept_path_def in_home_Some in_home_None by (auto elim!: list_all2_mono)
qed

definition sample_reported :: "string option list" where
  "sample_reported = [Some ''/home/w/src/a'']"

definition sample_bnd :: tool_boundary where
  "sample_bnd = \<lparr>b_home = Some ''/home/w'', b_folders = [''/data'']\<rparr>"

theorem file_tools_confined_witness:
  "\<exists>v. hd sample_reported = Some v
    \<and> ((\<exists>home. b_home sample_bnd = Some home \<and> pathUnder home (canonicalAbsolutePath CHR ''/'' v) = Some ''src/a'')
      \<or> ''src/a'' = canonicalAbsolutePath CHR ''/'' v)"
proof -
  let ?c = "classifyToolPaths (\<lambda>s. starts_with s ''/'') CHR ''/'' sample_reported sample_bnd"
  have a: "decideToolAuthority filesystem_read sample_facts (Some [''src'']) [sample_reader] sample_ws = Allowed ''g1''"
    by code_simp
  have o: "isFileTool filesystem_read" "\<not> wb_system_access sample_ws"
    by (simp_all add: isFileTool_def sample_ws_def)
  have f: "paths sample_facts = tp_paths ?c" "outside_count sample_facts = int (tp_outside ?c)" "unresolved_path_count sample_facts = int (tp_unresolved ?c)"
    by code_simp+
  have p: "paths sample_facts = [''src/a'']" by (simp add: sample_facts_def)
  from file_tools_confined [OF a o f refl] show ?thesis unfolding sample_reported_def p by auto
qed

section \<open>Delegation and tool limits\<close>

text \<open>
  A relative path target of the form \<^verbatim>\<open>X:\<close> is the only one under which an absolute path can lie;
  without such targets containment composes.
\<close>

definition bare_drive :: "grant_target \<Rightarrow> bool" where
  "bare_drive t \<longleftrightarrow> target_id t = Some [] \<or> (\<exists>c. target_id t = Some [c, CHR '':''])"

lemma absolute_under_relative:
  assumes "prefix (b @ ''/'') c" and "isAbsoluteCanonicalPath c" and "\<not> isAbsoluteCanonicalPath b"
  shows "b = [] \<or> (\<exists>x. b = [x, CHR '':''])"
proof -
  obtain zs where zs: "c = b @ CHR ''/'' # zs" using assms(1) by (auto simp: prefix_def)
  show ?thesis
  proof (cases b)
    case (Cons x b')
    show ?thesis
    proof (cases b')
      case Nil
      with Cons zs assms(2,3) show ?thesis by (auto simp: isAbsoluteCanonicalPath_def drive_prefix_def split: list.splits)
    next
      case (Cons y b'')
      with \<open>b = x # b'\<close> zs assms(2,3) show ?thesis
        by (cases b'') (auto simp: isAbsoluteCanonicalPath_def drive_prefix_def)
    qed
  qed simp
qed

lemma targetContains_kind: "targetContains a b \<Longrightarrow> target_kind a = target_kind b"
  by (simp add: targetContains_def split: if_splits)

text \<open>Containment between named targets, one kind at a time.\<close>

lemma targetContains_named:
  assumes "target_id a = Some x" "target_id b = Some y" "target_kind a = target_kind b"
  shows "targetContains a b \<longleftrightarrow> x = y
    \<or> (target_kind a = FILESYSTEM_PATH_TARGET_KIND \<and> (if x = ''.'' then \<not> isAbsoluteCanonicalPath y else prefix (x @ ''/'') y))
    \<or> (target_kind a = EXECUTABLE_TARGET_KIND \<and> js_lower x = js_lower y)
    \<or> (target_kind a = NETWORK_DOMAIN_TARGET_KIND \<and> (js_lower y = js_lower x \<or> suffix (''.'' @ js_lower x) (js_lower y)))"
  using assms
  by (auto simp: targetContains_def FILESYSTEM_PATH_TARGET_KIND_def EXECUTABLE_TARGET_KIND_def NETWORK_DOMAIN_TARGET_KIND_def)

lemma path_contains_trans:
  assumes ab: "x = y \<or> (if x = ''.'' then \<not> isAbsoluteCanonicalPath y else prefix (x @ ''/'') y)"
    and bc: "y = z \<or> (if y = ''.'' then \<not> isAbsoluteCanonicalPath z else prefix (y @ ''/'') z)"
    and y: "y \<noteq> []" "\<nexists>c. y = [c, CHR '':'']"
  shows "x = z \<or> (if x = ''.'' then \<not> isAbsoluteCanonicalPath z else prefix (x @ ''/'') z)"
proof (cases "x = y \<or> y = z")
  case True
  then show ?thesis using ab bc by auto
next
  case ne: False
  show ?thesis
  proof (cases "y = ''.''")
    case True
    with ne ab have "x \<noteq> ''.''" "prefix (x @ ''/'') ''.''" by auto
    then show ?thesis by (cases x) (auto simp: prefix_Cons)
  next
    case False
    with ne bc have yz: "prefix (y @ ''/'') z" by simp
    show ?thesis
    proof (cases "x = ''.''")
      case True
      with ne ab have "\<not> isAbsoluteCanonicalPath y" by simp
      with absolute_under_relative [OF yz] y True show ?thesis by auto
    next
      case False
      with ne ab have "prefix (x @ ''/'') y" by simp
      then have "prefix (x @ ''/'') z" using yz by (meson prefix_order.trans prefixI)
      with False show ?thesis by simp
    qed
  qed
qed

lemma targetContains_trans:
  assumes ab: "targetContains a b" and bc: "targetContains b c" and nb: "\<not> bare_drive b"
  shows "targetContains a c"
proof -
  note kinds = targetContains_kind [OF ab] targetContains_kind [OF bc]
  show ?thesis
  proof (cases "target_id a")
    case None
    then show ?thesis using kinds by (simp add: targetContains_def)
  next
    case (Some x)
    then obtain y where y: "target_id b = Some y"
      using ab by (cases "target_id b") (auto simp: targetContains_def split: if_splits)
    then obtain z where z: "target_id c = Some z"
      using bc by (cases "target_id c") (auto simp: targetContains_def split: if_splits)
    note named = targetContains_named [OF Some y kinds(1)] targetContains_named [OF y z kinds(2)]
      targetContains_named [OF Some z, OF kinds(1) [THEN trans, OF kinds(2)]]
    have disjoint: "FILESYSTEM_PATH_TARGET_KIND \<noteq> EXECUTABLE_TARGET_KIND" "FILESYSTEM_PATH_TARGET_KIND \<noteq> NETWORK_DOMAIN_TARGET_KIND"
        "EXECUTABLE_TARGET_KIND \<noteq> NETWORK_DOMAIN_TARGET_KIND"
      by (simp_all add: FILESYSTEM_PATH_TARGET_KIND_def EXECUTABLE_TARGET_KIND_def NETWORK_DOMAIN_TARGET_KIND_def)
    consider (path) "target_kind a = FILESYSTEM_PATH_TARGET_KIND" | (exe) "target_kind a = EXECUTABLE_TARGET_KIND"
      | (net) "target_kind a = NETWORK_DOMAIN_TARGET_KIND" | (other) "x = y" "y = z"
      using ab bc named(1,2) kinds by auto
    then show ?thesis
    proof cases
      case path
      have "y \<noteq> []" "\<nexists>c. y = [c, CHR '':'']" using nb y by (auto simp: bare_drive_def)
      then show ?thesis using path_contains_trans [of x y z] ab bc named kinds path disjoint by auto
    next
      case exe
      then show ?thesis using ab bc named kinds disjoint by auto
    next
      case net
      have "suffix (''.'' @ js_lower x) (js_lower z)"
        if "suffix (''.'' @ js_lower x) (js_lower y)" "suffix (''.'' @ js_lower y) (js_lower z)"
        using that by (meson suffix_appendI suffix_order.trans suffix_def)
      then show ?thesis using ab bc named kinds net disjoint by auto
    next
      case other
      then show ?thesis using named(3) by simp
    qed
  qed
qed

text \<open>
  Containment of grant targets composes, whatever their kind, as long as the middle target is
  not an empty path or a bare drive such as \<^verbatim>\<open>C:\<close>. A chain of delegations that avoids those narrows
  its targets at every step.
\<close>

theorem target_containment_composes:
  assumes "targetContains a b" and "targetContains b c"
    and "target_id b \<noteq> Some []" and "\<nexists>d. target_id b = Some [d, CHR '':'']"
  shows "targetContains a c"
  using assms by (intro targetContains_trans [of a b c]) (auto simp: bare_drive_def)

theorem target_containment_composes_witness: "targetContains (path_target ''.'') (path_target ''src/a'')"
proof -
  have "targetContains (path_target ''.'') (path_target ''src'')" "targetContains (path_target ''src'') (path_target ''src/a'')"
    by code_simp+
  then show ?thesis by (rule target_containment_composes) (simp_all add: path_target_def)
qed

text \<open>The limits of a kind that a narrower grant keeps are at least as tight.\<close>

lemma ofKind_tool_grant [simp]: "ofKind (tool_grant_of g) k = filter (\<lambda>t. target_kind t = k) (targets g)"
  by (simp add: ofKind_def tool_grant_of_def)

lemma narrower_contains:
  assumes n: "narrower c s" and nb: "\<forall>t \<in> set (targets c). \<not> bare_drive t"
    and t: "t \<in> set (targets c)" "target_kind t = k" "targetContains t x" and s: "targets s \<noteq> []"
  shows "\<exists>a \<in> set (targets s). target_kind a = k \<and> targetContains a x"
proof -
  obtain a where a: "a \<in> set (targets s)" "targetContains a t" using n t(1) s by (auto simp: narrower_def)
  with targetContains_trans [OF a(2) t(3)] targetContains_kind [OF a(2)] nb t show ?thesis by auto
qed

lemma narrower_complies:
  assumes n: "narrower c s" and nb: "\<forall>t \<in> set (targets c). \<not> bare_drive t"
    and keep: "\<forall>a \<in> set (targets s). \<exists>t \<in> set (targets c). target_kind t = target_kind a"
    and ok: "complies (tool_grant_of c) f op"
  shows "complies (tool_grant_of s) f op"
proof -
  have kept: "filter (\<lambda>t. target_kind t = k) (targets c) \<noteq> []" if "filter (\<lambda>t. target_kind t = k) (targets s) \<noteq> []" for k
    using that keep by (force simp: filter_empty_conv)
  have up: "\<exists>a \<in> set (filter (\<lambda>t. target_kind t = k) (targets s)). targetContains a x"
    if "filter (\<lambda>t. target_kind t = k) (targets s) \<noteq> []"
      "\<exists>t \<in> set (filter (\<lambda>t. target_kind t = k) (targets c)). targetContains t x" for k x
    using that narrower_contains [OF n nb, of _ k x] by (force simp: filter_empty_conv)
  have "\<forall>a \<in> set (tg_targets (tool_grant_of s)). target_kind a \<in> set TOOL_TARGET_KINDS"
    using ok keep by (force simp: complies_def tool_grant_of_def)
  moreover have "within_paths f (filter (\<lambda>t. target_kind t = FILESYSTEM_PATH_TARGET_KIND) (targets s))"
    if "filter (\<lambda>t. target_kind t = FILESYSTEM_PATH_TARGET_KIND) (targets s) \<noteq> []"
      "within_paths f (filter (\<lambda>t. target_kind t = FILESYSTEM_PATH_TARGET_KIND) (targets c))"
    using that up unfolding within_paths_def by blast
  ultimately show ?thesis
    using ok kept up unfolding complies_def ofKind_tool_grant by blast
qed

text \<open>
  A delegated grant that keeps a target of every kind its source has (and no bare drive) lets no
  tool call through that the source would refuse.
\<close>

theorem delegation_keeps_tool_limits:
  assumes "narrower c s" and "\<forall>t \<in> set (targets c). \<not> bare_drive t"
    and "\<forall>a \<in> set (targets s). \<exists>t \<in> set (targets c). target_kind t = target_kind a"
    and "grantRefusal (tool_grant_of c) f op = None"
  shows "grantRefusal (tool_grant_of s) f op = None"
  using assms narrower_complies by (simp add: grantRefusal_None_iff)

definition limited_grant :: "string \<Rightarrow> grant_target list \<Rightarrow> capability_grant" where
  "limited_grant i ts = \<lparr>grant_id = i, principal_id = ''ada'', grant_boundary = Workspace ''w'',
     operation_ids = [process_execute, filesystem_read], targets = ts, issued_at = ''.'', expires_at = None, revoked_at = None,
     issuer_id = ''ada'', evidence = [], delegation_only = False\<rparr>"

theorem delegation_keeps_tool_limits_witness:
  "grantRefusal (tool_grant_of (limited_grant ''g1'' [path_target ''.''])) sample_facts filesystem_read = None"
proof (rule delegation_keeps_tool_limits)
  let ?c = "limited_grant ''g2'' [path_target ''src'']" and ?s = "limited_grant ''g1'' [path_target ''.'']"
  have "targetContains (path_target ''.'') (path_target ''src'')" by code_simp
  then show "narrower ?c ?s" by (simp add: narrower_def limited_grant_def)
  show "\<forall>t \<in> set (targets ?c). \<not> bare_drive t" by (simp add: limited_grant_def bare_drive_def path_target_def)
  show "\<forall>a \<in> set (targets ?s). \<exists>t \<in> set (targets ?c). target_kind t = target_kind a"
    by (simp add: limited_grant_def path_target_def)
  show "grantRefusal (tool_grant_of ?c) sample_facts filesystem_read = None" by code_simp
qed

text \<open>Which calls one grant alone allows.\<close>

lemma alone_Allowed:
  "decideToolAuthority op f scope [g] ws = Allowed i \<longleftrightarrow> call_ok op f scope [g] ws \<and> granting op f g \<and> i = tg_grant_id g"
  by (auto simp: decide_Allowed_iff)

lemma narrower_allows:
  assumes n: "narrower c s" and nb: "\<forall>t \<in> set (targets c). \<not> bare_drive t"
    and keep: "\<forall>a \<in> set (targets s). \<exists>t \<in> set (targets c). target_kind t = target_kind a"
    and ok: "decideToolAuthority op f scope [tool_grant_of c] ws = Allowed i"
  shows "decideToolAuthority op f scope [tool_grant_of s] ws = Allowed (grant_id s)"
proof -
  have up: "complies (tool_grant_of c) f' op' \<Longrightarrow> complies (tool_grant_of s) f' op'" for f' op' by (rule narrower_complies [OF n nb keep])
  have ops: "set (tg_operation_ids (tool_grant_of c)) \<subseteq> set (tg_operation_ids (tool_grant_of s))"
    using n by (simp add: narrower_def tool_grant_of_def)
  have "network_ok f [tool_grant_of c] \<Longrightarrow> network_ok f [tool_grant_of s]" using up ops by (auto simp: network_ok_def)
  then have "call_ok op f scope [tool_grant_of s] ws" and "granting op f (tool_grant_of s)"
    using ok up ops by (auto simp: alone_Allowed call_ok_def granting_def split: if_splits)
  then show ?thesis by (simp add: alone_Allowed tool_grant_of_def)
qed

lemma domains_only_comply:
  assumes "\<forall>t \<in> set (targets c). target_kind t = NETWORK_DOMAIN_TARGET_KIND"
  shows "complies (tool_grant_of c) f process_execute"
proof -
  have "ofKind (tool_grant_of c) FILESYSTEM_PATH_TARGET_KIND = []" "ofKind (tool_grant_of c) EXECUTABLE_TARGET_KIND = []"
    using assms by (auto simp: filter_empty_conv FILESYSTEM_PATH_TARGET_KIND_def EXECUTABLE_TARGET_KIND_def NETWORK_DOMAIN_TARGET_KIND_def)
  moreover have "process_execute \<noteq> network_fetch" by (simp add: process_execute_def network_fetch_def)
  ultimately show ?thesis using assms by (simp add: complies_def tool_grant_of_def TOOL_TARGET_KINDS_def)
qed

lemma uncovered_command:
  assumes "n \<in> set (executables f)" and "a \<in> set (targets s)" and "target_kind a = EXECUTABLE_TARGET_KIND"
    and "\<forall>t \<in> set (targets s). \<not> targetContains t \<lparr>target_kind = EXECUTABLE_TARGET_KIND, target_id = Some n\<rparr>"
  shows "decideToolAuthority process_execute f scope [tool_grant_of s] ws \<noteq> Allowed i"
proof
  assume "decideToolAuthority process_execute f scope [tool_grant_of s] ws = Allowed i"
  then have "complies (tool_grant_of s) f process_execute" by (simp add: alone_Allowed granting_def)
  moreover have "ofKind (tool_grant_of s) EXECUTABLE_TARGET_KIND \<noteq> []" using assms(2,3) by (auto simp: filter_empty_conv)
  ultimately show False using assms(1,4) by (auto simp: complies_def)
qed

text \<open>
  C9: what delegation does to tool limits. A grant that \<^verbatim>\<open>delegateGrant\<close> made and that keeps a target
  of every kind its source has, and no bare drive, allows no tool call its source would not allow.
  But delegation can drop a whole kind of limit: delegated targets only have to be contained in some
  target of the source, while \<^verbatim>\<open>grantRefusal\<close> reads the targets of each kind as a limit of their own and
  no target of a kind as no limit. A delegated shell grant whose targets are all network domains alone
  allows every shell call of an Actor without a folder scope that reports no destination and no invalid
  URL and bypasses the sandbox only under System access, whatever the source was limited to; a source
  limited to certain commands refuses every call that names another one.
\<close>

theorem delegation_drops_command_limit:
  assumes "grant_reachable js db" and "delegateGrant js now1 now2 now3 fresh input db = Inr (child, db')"
  shows "\<exists>src. getGrant js db (dg_source_grant_id input) = Inr (Some src)
    \<and> ((\<forall>a \<in> set (targets src). \<exists>t \<in> set (targets child). target_kind t = target_kind a) \<and> (\<forall>t \<in> set (targets child). \<not> bare_drive t)
        \<longrightarrow> (\<forall>op f scope ws i. decideToolAuthority op f scope [tool_grant_of child] ws = Allowed i
              \<longrightarrow> decideToolAuthority op f scope [tool_grant_of src] ws = Allowed (grant_id src)))
    \<and> (process_execute \<in> set (operation_ids child) \<and> (\<forall>t \<in> set (targets child). target_kind t = NETWORK_DOMAIN_TARGET_KIND)
        \<longrightarrow> (\<forall>f ws. destinations f = [] \<and> invalid_url_count f = 0 \<and> (sandbox_bypass f \<longrightarrow> wb_system_access ws)
              \<longrightarrow> decideToolAuthority process_execute f None [tool_grant_of child] ws = Allowed (grant_id child)))
    \<and> ((\<exists>a \<in> set (targets src). target_kind a = EXECUTABLE_TARGET_KIND)
        \<longrightarrow> (\<forall>f ws n i. n \<in> set (executables f)
              \<and> (\<forall>t \<in> set (targets src). \<not> targetContains t \<lparr>target_kind = EXECUTABLE_TARGET_KIND, target_id = Some n\<rparr>)
              \<longrightarrow> decideToolAuthority process_execute f None [tool_grant_of src] ws \<noteq> Allowed i))"
proof -
  obtain src where src: "getGrant js db (dg_source_grant_id input) = Inr (Some src)" "narrower child src"
    using delegated_narrower [OF assms] by blast
  have shell: "isEngineToolOperation process_execute" "\<not> isFileTool process_execute"
    by (simp_all add: isEngineToolOperation_def TOOL_OPERATION_IDS_def isFileTool_def process_execute_def filesystem_read_def filesystem_write_def)
  have any: "decideToolAuthority process_execute f None [tool_grant_of child] ws = Allowed (grant_id child)"
    if "process_execute \<in> set (operation_ids child)" "\<forall>t \<in> set (targets child). target_kind t = NETWORK_DOMAIN_TARGET_KIND"
      "destinations f = []" "invalid_url_count f = 0" "sandbox_bypass f \<longrightarrow> wb_system_access ws" for f ws
    using that domains_only_comply [OF that(2), of f] shell
    by (simp add: alone_Allowed call_ok_def granting_def network_ok_def tool_grant_of_def)
  show ?thesis
    by (intro exI [of _ src] conjI impI allI src(1); (elim conjE bexE)?)
      (fact narrower_allows [OF src(2)] any uncovered_command | (rule narrower_allows [OF src(2)] any uncovered_command; assumption))+
qed

definition limited_input :: issue_grant where
  "limited_input = sample_owner\<lparr>ig_operation_ids := [process_execute], ig_targets := Some
     [\<lparr>target_kind = EXECUTABLE_TARGET_KIND, target_id = Some ''git''\<rparr>, \<lparr>target_kind = NETWORK_DOMAIN_TARGET_KIND, target_id = Some ''a.b''\<rparr>]\<rparr>"

definition limited1 :: "capability_grant \<times> grant_db" where
  "limited1 = projr (issueGrant sample_platform ''.'' ''s1'' limited_input (snd sample1))"

definition unlimiting_input :: delegate_input where
  "unlimiting_input = sample_delegate\<lparr>dg_authority := (dg_authority sample_delegate)\<lparr>session_capability_grant_ids := [''g1'', ''s1'']\<rparr>,
     dg_source_grant_id := ''s1'', dg_operation_ids := [process_execute],
     dg_targets := Some [\<lparr>target_kind = NETWORK_DOMAIN_TARGET_KIND, target_id = Some ''a.b''\<rparr>]\<rparr>"

definition limited2 :: "capability_grant \<times> grant_db" where
  "limited2 = projr (delegateGrant sample_platform ''..'' ''..'' ''..'' ''s2'' unlimiting_input (snd limited1))"

lemma limited1_run: "issueGrant sample_platform ''.'' ''s1'' limited_input (snd sample1) = Inr limited1"
  unfolding limited1_def by (rule returns_projr) code_simp

lemma limited2_run: "delegateGrant sample_platform ''..'' ''..'' ''..'' ''s2'' unlimiting_input (snd limited1) = Inr limited2"
  unfolding limited2_def by (rule returns_projr) code_simp

theorem delegation_drops_command_limit_witness:
  "\<exists>src. getGrant sample_platform (snd limited1) ''s1'' = Inr (Some src)
    \<and> decideToolAuthority process_execute sample_facts None [tool_grant_of (fst limited2)] sample_ws = Allowed ''s2''
    \<and> (\<forall>i. decideToolAuthority process_execute sample_facts None [tool_grant_of src] sample_ws \<noteq> Allowed i)"
proof -
  have r: "grant_reachable sample_platform (snd limited1)"
    by (rule grant_reachable.step [OF sample_reachable(1) grant_step.issue [where g = "fst limited1"]]) (use limited1_run in simp)
  have run: "delegateGrant sample_platform ''..'' ''..'' ''..'' ''s2'' unlimiting_input (snd limited1) = Inr (fst limited2, snd limited2)"
    using limited2_run by simp
  have g: "getGrant sample_platform (snd limited1) ''s1'' = Inr (Some (fst limited1))" by code_simp
  have c: "operation_ids (fst limited2) = [process_execute]" "grant_id (fst limited2) = ''s2''"
    "targets (fst limited2) = [\<lparr>target_kind = NETWORK_DOMAIN_TARGET_KIND, target_id = Some ''a.b''\<rparr>]" by code_simp+
  have s: "targets (fst limited1) = [\<lparr>target_kind = EXECUTABLE_TARGET_KIND, target_id = Some ''git''\<rparr>,
      \<lparr>target_kind = NETWORK_DOMAIN_TARGET_KIND, target_id = Some ''a.b''\<rparr>]" by code_simp
  have u: "dg_source_grant_id unlimiting_input = ''s1''" by (simp add: unlimiting_input_def)
  have f: "destinations sample_facts = []" "invalid_url_count sample_facts = 0" "\<not> sandbox_bypass sample_facts" "executables sample_facts = [''rm'']"
    by (simp_all add: sample_facts_def)
  have n: "\<not> targetContains \<lparr>target_kind = EXECUTABLE_TARGET_KIND, target_id = Some ''git''\<rparr> \<lparr>target_kind = EXECUTABLE_TARGET_KIND, target_id = Some ''rm''\<rparr>"
    "\<not> targetContains \<lparr>target_kind = NETWORK_DOMAIN_TARGET_KIND, target_id = Some ''a.b''\<rparr> \<lparr>target_kind = EXECUTABLE_TARGET_KIND, target_id = Some ''rm''\<rparr>"
    by code_simp+
  from delegation_drops_command_limit [OF r run, unfolded u g] show ?thesis
    using g c s f n by auto
qed

section \<open>Normal form of tool facts\<close>

lemma destination_entries_set: "set (destination_entries js ds) \<subseteq> set ds"
  using set_new_map [of "map (\<lambda>d. (destination_key d, d)) ds"] by (force simp: destination_entries_def)

lemma destination_entries_idem:
  assumes "comparator (locale_compare js)"
  shows "destination_entries js (destination_entries js ds) = destination_entries js ds"
proof -
  let ?cmp = "\<lambda>l r :: string \<times> network_destination. locale_compare js (fst l) (fst r)"
  let ?E = "js_sort ?cmp (new_map (map (\<lambda>d. (destination_key d, d)) ds))"
  have c: "comparator ?cmp"
    using assms by (auto simp: comparator_def)
  have keyed: "(destination_key v, v) = (k, v)" if "(k, v) \<in> set ?E" for k v
    using that set_new_map [of "map (\<lambda>d. (destination_key d, d)) ds"] by auto
  then have keys: "map (\<lambda>d. (destination_key d, d)) (map snd ?E) = ?E"
    unfolding map_map by (intro map_idI) auto
  have "distinct (map fst ?E)"
    using new_map_distinct [of "map (\<lambda>d. (destination_key d, d)) ds"] by simp
  then have "new_map ?E = ?E" by (rule new_map_id)
  then show ?thesis
    by (simp only: destination_entries_def keys comparator.sort_idem [OF c])
qed

text \<open>
  \<^verbatim>\<open>normalizeToolCallPolicyFacts\<close> is idempotent: facts it accepted are in normal form, so storing
  and normalising them again changes nothing. The hypothesis is what \<^verbatim>\<open>Array.sort\<close> needs of
  \<^verbatim>\<open>localeCompare\<close>.
\<close>

theorem normalize_facts_idempotent:
  assumes "comparator (locale_compare js)" and "normalizeToolCallPolicyFacts js f = Inr g"
  shows "normalizeToolCallPolicyFacts js g = Inr g"
proof -
  from assms(2) obtain call natives ps execs dests where
      call: "(case tool_call_id f of None \<Rightarrow> Inr None
            | Some c \<Rightarrow> rbind (fact_text c ''tool_call_id'') (\<lambda>c'. Inr (Some c'))) = Inr call"
      and natives: "rmapM (\<lambda>n. fact_text n ''native tool'') (native_tools f) = Inr natives"
      and ps: "rmapM (\<lambda>p. fact_text p ''path'') (paths f) = Inr ps"
      and execs: "rmapM (\<lambda>n. rbind (fact_text n ''executable'') (\<lambda>t. Inr (js_lower t))) (executables f) = Inr execs"
      and dests: "rmapM normalize_destination (destinations f) = Inr dests"
      and blank: "\<not> is_blank (actor_definition_revision_id f)" "\<not> is_blank (engine f)" "\<not> is_blank (manifest_version f)"
        "\<not> is_blank (argument_digest f)"
      and counts: "0 \<le> unresolved_path_count f" "0 \<le> (case outside_path_count f of None \<Rightarrow> 0 | Some n \<Rightarrow> n)"
        "0 \<le> unclassified_segment_count f" "0 \<le> invalid_url_count f"
      and g: "g = \<lparr>actor_definition_revision_id = js_trim (actor_definition_revision_id f), tool_call_id = call,
          engine = js_trim (engine f), manifest_version = js_trim (manifest_version f),
          native_tools = sortedUnique natives, paths = sortedUnique ps,
          unresolved_path_count = unresolved_path_count f,
          outside_path_count = Some (case outside_path_count f of None \<Rightarrow> 0 | Some n \<Rightarrow> n), executables = sortedUnique execs,
          unclassified_segment_count = unclassified_segment_count f, destinations = destination_entries js dests,
          invalid_url_count = invalid_url_count f, write_redirection = write_redirection f,
          sandbox_bypass = sandbox_bypass f, argument_digest = js_trim (argument_digest f)\<rparr>"
    unfolding normalizeToolCallPolicyFacts_def rbind_Inr_iff fact_text_Inr fact_count_Inr by auto
  have t: "trimmed v" if "v \<in> set natives \<or> v \<in> set ps" for v
    using that rmapM_Inr_mem [OF natives, of v] rmapM_Inr_mem [OF ps, of v] by (auto simp: result_simps trimmed_trim)
  have e: "trimmed v \<and> js_lower v = v" if "v \<in> set execs" for v
    using rmapM_Inr_mem [OF execs that] by (auto simp: result_simps trimmed_trim trimmed_lower)
  have d: "normalize_destination v = Inr v" if "v \<in> set dests" for v
  proof -
    from rmapM_Inr_mem [OF dests that] have "trimmed (dest_scheme v)" "trimmed (dest_host v)"
        "js_lower (dest_scheme v) = dest_scheme v" "js_lower (dest_host v) = dest_host v"
      by (auto simp: result_simps normalize_destination_def trimmed_lower trimmed_trim)
    then show ?thesis by (simp add: normalize_destination_def)
  qed
  have c: "\<forall>v. call = Some v \<longrightarrow> trimmed v"
    using call by (auto simp: result_simps trimmed_trim split: option.splits)
  have fixed: "rmapM (\<lambda>n. fact_text n ''native tool'') (sortedUnique natives) = Inr (sortedUnique natives)"
      "rmapM (\<lambda>p. fact_text p ''path'') (sortedUnique ps) = Inr (sortedUnique ps)"
      "rmapM (\<lambda>n. rbind (fact_text n ''executable'') (\<lambda>t. Inr (js_lower t))) (sortedUnique execs) = Inr (sortedUnique execs)"
      "rmapM normalize_destination (destination_entries js dests) = Inr (destination_entries js dests)"
    using t e d destination_entries_set [of js dests] by (auto intro!: rmapM_fixed)
  have call': "(case call of None \<Rightarrow> Inr None
            | Some c \<Rightarrow> rbind (fact_text c ''tool_call_id'') (\<lambda>c'. Inr (Some c'))) = Inr call"
    using c by (cases call) auto
  show ?thesis
    unfolding g normalizeToolCallPolicyFacts_def
    by (simp add: fixed call' blank counts trimmed_trim fact_count_ok destination_entries_idem [OF assms(1)])
qed

theorem normalize_facts_idempotent_witness:
  "normalizeToolCallPolicyFacts sample_platform sample_facts = Inr sample_facts"
proof -
  have c: "comparator (locale_compare sample_platform)"
    using binary.comparator_axioms by (simp add: sample_platform_def)
  have "normalizeToolCallPolicyFacts sample_platform (sample_facts\<lparr>outside_path_count := None, executables := ['' RM '', ''rm'']\<rparr>)
      = Inr sample_facts"
    by code_simp
  from normalize_facts_idempotent [OF c this] show ?thesis .
qed

end
