(* ===== verification/Canonical_Json.thy ===== *)
theory Canonical_Json
  imports Floe_Prelude
begin

text \<open>
  The canonical JSON text that \<^verbatim>\<open>policies.ts\<close> and \<^verbatim>\<open>budgets.ts\<close> digest (each has the same
  \<^verbatim>\<open>canonicalJson\<close>): objects are written with their keys in \<^verbatim>\<open>localeCompare\<close> order, so that two
  objects with the same entries have the same text.
\<close>

datatype json = JNull | JBool bool | JNum rat | JStr string | JArr "json list" | JObj "(string \<times> json) list"

section \<open>Text\<close>

text \<open>
  \<^verbatim>\<open>JSON.stringify\<close> of a string: quotation mark, backslash and the control characters below U+0020
  are escaped, the latter with a short escape when there is one.
\<close>

definition hex_digit :: "nat \<Rightarrow> char" where
  "hex_digit n = (if n < 10 then char_of (48 + n) else char_of (87 + n))"

definition json_char :: "char \<Rightarrow> string" where
  "json_char c = (let n = of_char c :: nat in
     if n = 34 then [CHR 0x5C, CHR 0x22]
     else if n = 92 then [CHR 0x5C, CHR 0x5C]
     else if n = 8 then [CHR 0x5C, CHR ''b'']
     else if n = 9 then [CHR 0x5C, CHR ''t'']
     else if n = 10 then [CHR 0x5C, CHR ''n'']
     else if n = 12 then [CHR 0x5C, CHR ''f'']
     else if n = 13 then [CHR 0x5C, CHR ''r'']
     else if n < 32 then [CHR 0x5C, CHR ''u'', CHR ''0'', CHR ''0'', hex_digit (n div 16), hex_digit (n mod 16)]
     else [c])"

definition json_string :: "string \<Rightarrow> string" where
  "json_string s = [CHR 0x22] @ concat (map json_char s) @ [CHR 0x22]"

fun join :: "string \<Rightarrow> string list \<Rightarrow> string" where
  "join sep [] = []"
| "join sep [x] = x"
| "join sep (x # y # zs) = x @ sep @ join sep (y # zs)"

text \<open>
  \<^verbatim>\<open>canonicalJson\<close>. An object lists its entries without the \<^verbatim>\<open>undefined\<close> ones, which the code filters
  out; the entries are sorted by key after their values are written, which gives the same list.
\<close>

fun canonicalJson :: "platform \<Rightarrow> json \<Rightarrow> string" where
  "canonicalJson js JNull = ''null''"
| "canonicalJson js (JBool b) = (if b then ''true'' else ''false'')"
| "canonicalJson js (JNum r) = number_text js r"
| "canonicalJson js (JStr s) = json_string s"
| "canonicalJson js (JArr vs) = ''['' @ join '','' (map (canonicalJson js) vs) @ '']''"
| "canonicalJson js (JObj kvs) = ''{'' @ join '',''
     (map (\<lambda>(k, t). json_string k @ '':'' @ t)
       (js_sort (\<lambda>l r. locale_compare js (fst l) (fst r)) (map (\<lambda>(k, v). (k, canonicalJson js v)) kvs))) @ ''}''"

definition json_digest :: "platform \<Rightarrow> json \<Rightarrow> string" where
  "json_digest js v = sha256_hex js (canonicalJson js v)"

definition jopt :: "('a \<Rightarrow> json) \<Rightarrow> 'a option \<Rightarrow> json" where
  "jopt f v = (case v of None \<Rightarrow> JNull | Some x \<Rightarrow> f x)"

abbreviation jtexts :: "string list \<Rightarrow> json" where
  "jtexts xs \<equiv> JArr (map JStr xs)"

section \<open>Order of keys\<close>

text \<open>
  What the digests rely on: writing the entries of an object in another order does not change its
  text, provided \<^verbatim>\<open>localeCompare\<close> orders distinct keys strictly.
\<close>

lemma rebuild_by_key: "distinct (map fst xs) \<Longrightarrow> xs = map (\<lambda>k. (k, the (map_of xs k))) (map fst xs)"
  unfolding map_map by (rule map_idI [symmetric]) auto

lemma keyed_lists_eq:
  assumes "map fst xs = map fst ys" "set xs = set ys" "distinct (map fst xs)"
  shows "xs = ys"
proof -
  have "map_of xs = map_of ys" using assms by (simp add: map_of_inject_set)
  then show ?thesis using rebuild_by_key [of xs] rebuild_by_key [of ys] assms by simp
qed

lemma sort_by_key_unique:
  assumes strict: "strict_comparator cmp" and m: "mset xs = mset ys" and d: "distinct (map fst xs)"
  shows "js_sort (\<lambda>l r. cmp (fst l) (fst r)) xs = js_sort (\<lambda>l r. cmp (fst l) (fst r)) ys" (is "?X = ?Y")
proof (rule keyed_lists_eq)
  have c: "comparator (\<lambda>l r. cmp (fst l) (fst r))"
    using strict by (auto simp: strict_comparator_def comparator_def)
  have "mset ?X = mset ?Y" using m by simp
  then have "mset (map fst ?X) = mset (map fst ?Y)" unfolding mset_map by simp
  then show "map fst ?X = map fst ?Y"
    using comparator.sorted_sort [OF c] by (intro strict_comparator.sorted_unique [OF strict]) (simp_all add: sorted_wrt_map)
  show "set ?X = set ?Y" using m by (metis set_js_sort set_mset_mset)
  show "distinct (map fst ?X)" using d by simp
qed

lemma canonicalJson_object_order:
  assumes "strict_comparator (locale_compare js)" and "mset kvs = mset kvs'" and "distinct (map fst kvs)"
  shows "canonicalJson js (JObj kvs) = canonicalJson js (JObj kvs')"
proof -
  have "mset (map (\<lambda>(k, v). (k, canonicalJson js v)) kvs) = mset (map (\<lambda>(k, v). (k, canonicalJson js v)) kvs')"
    using assms(2) by simp
  moreover have "distinct (map fst (map (\<lambda>(k, v). (k, canonicalJson js v)) kvs))"
    using assms(3) by (simp add: comp_def split_beta)
  ultimately have "js_sort (\<lambda>l r. locale_compare js (fst l) (fst r)) (map (\<lambda>(k, v). (k, canonicalJson js v)) kvs)
      = js_sort (\<lambda>l r. locale_compare js (fst l) (fst r)) (map (\<lambda>(k, v). (k, canonicalJson js v)) kvs')"
    by (rule sort_by_key_unique [OF assms(1)])
  then show ?thesis by (simp only: canonicalJson.simps)
qed

end
