(* ===== verification/Policies.thy ===== *)
theory Policies
  imports Tool_Policy Canonical_Json
begin

text \<open>
  \<^verbatim>\<open>floe-bus/src/policies.ts\<close>: versioned restrictions over canonical facts, their publication and
  binding, and the evaluation of an operation against them. The SQLite tables are the lists of
  \<^verbatim>\<open>policy_db\<close>; a JSON column holds the value it encodes. Amounts are the finite numbers a JSON
  document can hold, as exact rationals. Generated identifiers and clock readings are arguments.
\<close>

section \<open>Data\<close>

record binding_subject =
  subj_kind :: string
  subj_id :: string
  subj_revision :: "string option"

text \<open>
  A rule's \<^verbatim>\<open>match\<close> is an object whose keys the code checks at run time: an association list from
  its keys to a list of texts, a flag, or a text.
\<close>

datatype match_value = Texts "string list" | Flag bool | Text string

type_synonym rule_match = "(string \<times> match_value) list"

record policy_limit =
  lim_metric :: string
  lim_maximum :: rat
  lim_window :: string
  lim_timezone :: "string option"

datatype approvers =
    Any_Of "string list" "string list"
  | All_Named "string list"
  | Quorum "string list" "string list" int

datatype rule_effect = Deny string | Require_Approval string approvers | Limit "policy_limit list"

record policy_rule =
  rule_id :: string
  rule_priority :: int
  rule_match :: rule_match
  rule_effect :: rule_effect

record policy_content =
  pc_label :: string
  pc_description :: string
  pc_rules :: "policy_rule list"

datatype policy_status = Policy_Active | Policy_Retired

record policy_rec =
  pol_id :: string
  pol_workspace :: string
  pol_category :: string
  pol_status :: policy_status
  pol_current :: "string option"
  pol_created_at :: string
  pol_updated_at :: string
  pol_retired_at :: "string option"

record revision_rec =
  rev_id :: string
  rev_policy :: string
  rev_workspace :: string
  rev_category :: string
  rev_number :: int
  rev_based_on :: "string option"
  rev_digest :: string
  rev_content :: policy_content
  rev_created_by :: string
  rev_created_at :: string
  rev_published :: "string option"
  rev_withdrawn :: "string option"

datatype binding_status = Binding_Active | Binding_Revoked

record binding_rec =
  bind_id :: string
  bind_workspace :: string
  bind_revision :: string
  bind_subject :: binding_subject
  bind_status :: binding_status
  bind_by :: string
  bind_at :: string
  bind_revoked_by :: "string option"
  bind_revoked_at :: "string option"
  bind_reason :: "string option"

text \<open>\<^verbatim>\<open>OperationResourceRef\<close>, \<^verbatim>\<open>OperationEffects\<close> and \<^verbatim>\<open>OperationInvocationProvenance\<close> of \<^verbatim>\<open>operations.ts\<close>.\<close>

record resource_ref =
  ref_kind :: string
  ref_id :: string
  ref_revision :: "string option"

record operation_effects =
  eff_mode :: string
  eff_reversibility :: string
  eff_external :: bool
  eff_secret_access :: string
  eff_restore_hold :: bool

record provenance =
  cause_event_id :: "string option"
  delivery_ids :: "string list"
  execution_attempt_id :: "string option"
  node_execution_id :: "string option"
  prov_scope_execution_id :: "string option"

record evidence_ref =
  er_kind :: string
  er_id :: string
  er_revision :: string

record role_evidence =
  re_actor :: string
  re_role :: string
  re_binding :: evidence_ref
  re_source :: evidence_ref
  re_boundary_kind :: string
  re_boundary_id :: string
  re_composition :: "string option"
  re_placement :: "string option"

record policy_facts =
  pf_boundary :: boundary
  pf_workspace :: "string option"
  pf_principal :: string
  pf_roles :: "string list"
  pf_evidence :: "role_evidence list"
  pf_mode :: interaction_mode
  pf_provenance :: provenance
  pf_operation :: string
  pf_target :: "resource_ref option"
  pf_effects :: operation_effects
  pf_scope :: "string option"
  pf_actor :: "string option"
  pf_composition :: "string option"
  pf_placement :: "string option"
  pf_connector :: "string option"
  pf_installation :: "string option"
  pf_package :: "string option"
  pf_data_classes :: "string list"
  pf_trust :: "string option"
  pf_tool :: "tool_facts option"

record matched_rule =
  mr_revision :: string
  mr_binding :: "string option"
  mr_rule :: string
  mr_effect :: rule_effect

record approval_requirement =
  ar_revision :: string
  ar_rule :: string
  ar_reason :: string
  ar_approvers :: approvers

record budget_limit =
  bl_revision :: string
  bl_binding :: string
  bl_rule :: string
  bl_subject :: binding_subject
  bl_metric :: string
  bl_maximum :: rat
  bl_window :: string
  bl_timezone :: "string option"

datatype policy_decision = Pd_Allow | Pd_Deny | Pd_Require_Approval

record evaluation_rec =
  ev_id :: string
  ev_workspace :: "string option"
  ev_boundary :: boundary
  ev_facts :: "policy_facts option"
  ev_digest :: string
  ev_revision_ids :: "string list"
  ev_matched :: "matched_rule list"
  ev_decision :: policy_decision
  ev_denials :: "string list"
  ev_approvals :: "approval_requirement list"
  ev_limits :: "budget_limit list"
  ev_at :: string

record policy_db =
  policies :: "policy_rec list"
  policy_revisions :: "revision_rec list"
  policy_bindings :: "binding_rec list"
  policy_evaluations :: "evaluation_rec list"

datatype policy_error =
    PolicyInvalid string | PolicyNotFound string string | PolicyConflict string string
  | PolicyConstraint string | PolicyToolFacts facts_error

section \<open>Normalisation\<close>

definition quoted :: "string \<Rightarrow> string" where
  "quoted s = [CHR 0x27] @ s @ [CHR 0x27]"

definition requiredText :: "string \<Rightarrow> string \<Rightarrow> (policy_error, string) result" where
  "requiredText v field = (if is_blank v then Inl (PolicyInvalid (field @ '' is required'')) else Inr (js_trim v))"

definition nullableText :: "string option \<Rightarrow> (policy_error, string option) result" where
  "nullableText v = (case v of None \<Rightarrow> Inr None
     | Some s \<Rightarrow> rbind (requiredText s ''policy fact'') (\<lambda>t. Inr (Some t)))"

definition uniqueText :: "string list \<Rightarrow> (policy_error, string list) result" where
  "uniqueText vs = rbind (rmapM (\<lambda>v. requiredText v ''policy fact'') vs) (\<lambda>ts. Inr (sortedUnique ts))"

definition match_fields :: "string list" where
  "match_fields = [''operation_ids'', ''principal_ids'', ''principal_roles'', ''interaction_modes'',
     ''target_kinds'', ''target_ids'', ''scope_ids'', ''actor_ids'', ''scope_composition_revision_ids'', ''node_placement_ids'',
     ''connector_binding_ids'', ''extension_installation_ids'', ''extension_package_version_ids'',
     ''data_classes'', ''worker_trust_levels'', ''external_effect'', ''reversibility'']"

text \<open>One entry of the loop of \<^verbatim>\<open>normalizeMatch\<close>. \<^verbatim>\<open>String(value)\<close> of a list joins it with commas.\<close>

definition normalize_entry :: "string \<Rightarrow> string \<times> match_value \<Rightarrow> (policy_error, string \<times> match_value) result" where
  "normalize_entry ruleId kv = (case kv of (key, v) \<Rightarrow>
     if key = ''external_effect'' then
       (case v of Flag b \<Rightarrow> Inr (key, v)
        | _ \<Rightarrow> Inl (PolicyInvalid (''rule '' @ quoted ruleId @ '' external_effect must be boolean'')))
     else if key = ''reversibility'' then
       (let s = (case v of Text t \<Rightarrow> t | Flag b \<Rightarrow> (if b then ''true'' else ''false'') | Texts ts \<Rightarrow> join '','' ts) in
        if s \<in> {''none'', ''reversible'', ''irreversible''} then Inr (key, v)
        else Inl (PolicyInvalid (''rule '' @ quoted ruleId @ '' reversibility is invalid'')))
     else (case v of
         Texts ts \<Rightarrow> if ts = [] then Inl (PolicyInvalid (''rule '' @ quoted ruleId @ '' '' @ key @ '' must be a non-empty array''))
           else rbind (rmapM (\<lambda>t. requiredText t (key @ '' entry'')) ts) (\<lambda>us. Inr (key, Texts (sortedUnique us)))
       | _ \<Rightarrow> Inl (PolicyInvalid (''rule '' @ quoted ruleId @ '' '' @ key @ '' must be a non-empty array''))))"

definition normalizeMatch :: "rule_match \<Rightarrow> string \<Rightarrow> (policy_error, rule_match) result" where
  "normalizeMatch m ruleId = (case find (\<lambda>kv. fst kv \<notin> set match_fields) m of
      Some kv \<Rightarrow> Inl (PolicyInvalid (''rule '' @ quoted ruleId @ '' has unknown match field '' @ quoted (fst kv)))
    | None \<Rightarrow> rbind (rmapM (normalize_entry ruleId) m) (\<lambda>m'.
        throw_if ((map_of m' ''node_placement_ids'' \<noteq> None) \<noteq> (map_of m' ''scope_composition_revision_ids'' \<noteq> None))
          (PolicyInvalid (''rule '' @ quoted ruleId @ '' must match NodePlacements with both node_placement_ids and scope_composition_revision_ids''))
          (Inr m')))"

definition normalizeApprovers :: "approvers \<Rightarrow> string \<Rightarrow> (policy_error, approvers) result" where
  "normalizeApprovers a ruleId = (case a of
      All_Named ps \<Rightarrow> rbind (uniqueText ps) (\<lambda>ps'.
        throw_if (ps' = []) (PolicyInvalid (''rule '' @ quoted ruleId @ '' all_named approval requires at least one principal''))
         (Inr (All_Named ps')))
    | Any_Of ps rs \<Rightarrow> rbind (uniqueText ps) (\<lambda>ps'. rbind (uniqueText rs) (\<lambda>rs'.
        throw_if (ps' = [] \<and> rs' = []) (PolicyInvalid (''rule '' @ quoted ruleId @ '' approval must name a principal or role''))
         (Inr (Any_Of ps' rs'))))
    | Quorum ps rs n \<Rightarrow> rbind (uniqueText ps) (\<lambda>ps'. rbind (uniqueText rs) (\<lambda>rs'.
        throw_if (ps' = [] \<and> rs' = []) (PolicyInvalid (''rule '' @ quoted ruleId @ '' approval must name a principal or role''))
        (throw_if (n < 1) (PolicyInvalid (''rule '' @ quoted ruleId @ '' approval quorum must be a positive integer''))
        (throw_if (length ps' > 0 \<and> n > int (length ps') \<and> rs' = [])
          (PolicyInvalid (''rule '' @ quoted ruleId @ '' quorum exceeds its named approvers''))
        (Inr (Quorum ps' rs' n)))))))"

definition budget_windows :: "string list" where
  "budget_windows = [''operation'', ''scope_execution'', ''day'', ''month'', ''all_time'']"

definition calendar_window :: "string \<Rightarrow> bool" where
  "calendar_window w = (w = ''day'' \<or> w = ''month'')"

definition limit_key :: "string \<Rightarrow> string \<Rightarrow> string option \<Rightarrow> string" where
  "limit_key metric window tz = metric @ [CHR 0x00] @ window @ [CHR 0x00] @ (case tz of None \<Rightarrow> [] | Some t \<Rightarrow> t)"

fun normalize_limits ::
  "platform \<Rightarrow> string \<Rightarrow> string list \<Rightarrow> policy_limit list \<Rightarrow> (policy_error, policy_limit list) result" where
  "normalize_limits js ruleId keys [] = Inr []"
| "normalize_limits js ruleId keys (l # ls) =
     rbind (requiredText (lim_metric l) ''budget metric'') (\<lambda>metric.
     throw_if (lim_maximum l < 0) (PolicyInvalid (''rule '' @ quoted ruleId @ '' budget maximum must be a non-negative finite number''))
     (throw_if (lim_window l \<notin> set budget_windows) (PolicyInvalid (''rule '' @ quoted ruleId @ '' budget window is invalid''))
     (rbind (case lim_timezone l of None \<Rightarrow> Inr None
             | Some z \<Rightarrow> rbind (requiredText z ''budget timezone'') (\<lambda>t. Inr (Some t))) (\<lambda>tz.
      throw_if (calendar_window (lim_window l) \<and> tz = None)
        (PolicyInvalid (''rule '' @ quoted ruleId @ '' calendar budget '' @ quoted metric @ '' requires a timezone''))
     (throw_if (\<not> calendar_window (lim_window l) \<and> tz \<noteq> None)
        (PolicyInvalid (''rule '' @ quoted ruleId @ '' non-calendar budget '' @ quoted metric @ '' cannot set a timezone''))
     (throw_if (case tz of None \<Rightarrow> False | Some z \<Rightarrow> zone_fields js z 0 = None)
        (PolicyInvalid (''rule '' @ quoted ruleId @ '' budget timezone '' @ quoted (or_empty tz) @ '' is invalid''))
     (let key = limit_key metric (lim_window l) tz in
      throw_if (key \<in> set keys)
        (PolicyInvalid (''rule '' @ quoted ruleId @ '' repeats budget '' @ quoted metric @ '' for '' @ quoted (lim_window l)))
      (rbind (normalize_limits js ruleId (key # keys) ls) (\<lambda>rest.
        Inr (\<lparr>lim_metric = metric, lim_maximum = lim_maximum l, lim_window = lim_window l, lim_timezone = tz\<rparr> # rest))))))))))"

definition normalizeEffect :: "platform \<Rightarrow> rule_effect \<Rightarrow> string \<Rightarrow> (policy_error, rule_effect) result" where
  "normalizeEffect js e ruleId = (case e of
      Deny reason \<Rightarrow> rbind (requiredText reason (''rule '' @ quoted ruleId @ '' reason'')) (\<lambda>r. Inr (Deny r))
    | Require_Approval reason a \<Rightarrow> rbind (normalizeApprovers a ruleId) (\<lambda>a'.
        rbind (requiredText reason (''rule '' @ quoted ruleId @ '' reason'')) (\<lambda>r. Inr (Require_Approval r a')))
    | Limit ls \<Rightarrow>
        throw_if (ls = []) (PolicyInvalid (''rule '' @ quoted ruleId @ '' must contain at least one budget limit''))
         (rbind (normalize_limits js ruleId [] ls) (\<lambda>ls'. Inr (Limit ls'))))"

fun normalize_rules ::
  "platform \<Rightarrow> string list \<Rightarrow> policy_rule list \<Rightarrow> (policy_error, policy_rule list) result" where
  "normalize_rules js seen [] = Inr []"
| "normalize_rules js seen (r # rs) =
     rbind (requiredText (rule_id r) ''rule_id'') (\<lambda>i.
     throw_if (i \<in> set seen) (PolicyInvalid (''rule_id '' @ quoted i @ '' is duplicated''))
     (rbind (normalizeMatch (rule_match r) i) (\<lambda>m.
      rbind (normalizeEffect js (rule_effect r) i) (\<lambda>e.
      rbind (normalize_rules js (i # seen) rs) (\<lambda>rest.
        Inr (\<lparr>rule_id = i, rule_priority = rule_priority r, rule_match = m, rule_effect = e\<rparr> # rest))))))"

definition normalizePolicyContent :: "platform \<Rightarrow> policy_content \<Rightarrow> (policy_error, policy_content) result" where
  "normalizePolicyContent js c =
     rbind (requiredText (pc_label c) ''label'') (\<lambda>label.
     rbind (requiredText (pc_description c) ''description'') (\<lambda>description.
     rbind (normalize_rules js [] (pc_rules c)) (\<lambda>rules.
       Inr \<lparr>pc_label = label, pc_description = description, pc_rules = rules\<rparr>)))"

definition subject_kinds :: "string list" where
  "subject_kinds = [''workspace'', ''scope'', ''actor'', ''node_placement'', ''connector_binding'', ''extension_installation'']"

definition normalizeSubject :: "binding_subject \<Rightarrow> (policy_error, binding_subject) result" where
  "normalizeSubject s =
     throw_if (subj_kind s \<notin> set subject_kinds) (PolicyInvalid ''binding subject kind is invalid'')
     (rbind (requiredText (subj_id s) ''binding subject id'') (\<lambda>i.
      if subj_kind s = ''node_placement'' then
        rbind (requiredText (or_empty (subj_revision s)) ''node placement composition revision id'') (\<lambda>r.
          Inr \<lparr>subj_kind = subj_kind s, subj_id = i, subj_revision = Some r\<rparr>)
      else throw_if (subj_revision s \<noteq> None) (PolicyInvalid ''only a NodePlacement subject can name a composition revision'')
        (Inr \<lparr>subj_kind = subj_kind s, subj_id = i, subj_revision = None\<rparr>)))"

definition policy_categories :: "string list" where
  "policy_categories = [''operation'', ''approval'', ''budget'', ''trust'', ''data'', ''emergency_stop'']"

definition validateCategory :: "string \<Rightarrow> (policy_error, unit) result" where
  "validateCategory c = throw_if (c \<notin> set policy_categories) (PolicyInvalid ''category is invalid'') (Inr ())"

section \<open>Digests\<close>

definition match_json :: "rule_match \<Rightarrow> json" where
  "match_json m = JObj (map (\<lambda>(k, v). (k, case v of Texts ts \<Rightarrow> jtexts ts | Flag b \<Rightarrow> JBool b | Text t \<Rightarrow> JStr t)) m)"

definition approvers_json :: "approvers \<Rightarrow> json" where
  "approvers_json a = (case a of
      Any_Of ps rs \<Rightarrow> JObj [(''mode'', JStr ''any''), (''principal_ids'', jtexts ps), (''roles'', jtexts rs)]
    | All_Named ps \<Rightarrow> JObj [(''mode'', JStr ''all_named''), (''principal_ids'', jtexts ps)]
    | Quorum ps rs n \<Rightarrow> JObj [(''mode'', JStr ''quorum''), (''principal_ids'', jtexts ps), (''roles'', jtexts rs),
        (''quorum'', JNum (of_int n))])"

definition limit_json :: "policy_limit \<Rightarrow> json" where
  "limit_json l = JObj ([(''metric'', JStr (lim_metric l)), (''maximum'', JNum (lim_maximum l)), (''window'', JStr (lim_window l))]
     @ (case lim_timezone l of None \<Rightarrow> [] | Some z \<Rightarrow> [(''timezone'', JStr z)]))"

definition effect_json :: "rule_effect \<Rightarrow> json" where
  "effect_json e = (case e of
      Deny r \<Rightarrow> JObj [(''kind'', JStr ''deny''), (''reason'', JStr r)]
    | Require_Approval r a \<Rightarrow> JObj [(''kind'', JStr ''require_approval''), (''reason'', JStr r), (''approvers'', approvers_json a)]
    | Limit ls \<Rightarrow> JObj [(''kind'', JStr ''limit''), (''limits'', JArr (map limit_json ls))])"

definition rule_json :: "policy_rule \<Rightarrow> json" where
  "rule_json r = JObj [(''rule_id'', JStr (rule_id r)), (''priority'', JNum (of_int (rule_priority r))),
     (''match'', match_json (rule_match r)), (''effect'', effect_json (rule_effect r))]"

definition content_json :: "policy_content \<Rightarrow> json" where
  "content_json c = JObj [(''label'', JStr (pc_label c)), (''description'', JStr (pc_description c)),
     (''rules'', JArr (map rule_json (pc_rules c)))]"

definition policyContentDigest :: "platform \<Rightarrow> policy_content \<Rightarrow> (policy_error, string) result" where
  "policyContentDigest js c = rbind (normalizePolicyContent js c) (\<lambda>c'. Inr (json_digest js (content_json c')))"

end
