(* ===== verification/Policy_Store.thy ===== *)
theory Policy_Store
  imports Policies
begin

text \<open>
  The operations of \<^verbatim>\<open>PolicyStore\<close> in \<^verbatim>\<open>floe-bus/src/policies.ts\<close>: drafting, publishing, binding and
  retiring policies, and the evaluation of canonical facts against the policies that apply.
\<close>

section \<open>Reading\<close>

definition getPolicy :: "policy_db \<Rightarrow> string \<Rightarrow> policy_rec option" where
  "getPolicy db i = row_where (\<lambda>p. pol_id p = i) (policies db)"

definition requirePolicy :: "policy_db \<Rightarrow> string \<Rightarrow> (policy_error, policy_rec) result" where
  "requirePolicy db i = (case getPolicy db i of None \<Rightarrow> Inl (PolicyNotFound ''policy'' i) | Some p \<Rightarrow> Inr p)"

definition requirePolicyForWorkspace :: "policy_db \<Rightarrow> string \<Rightarrow> string \<Rightarrow> (policy_error, policy_rec) result" where
  "requirePolicyForWorkspace db i w = rbind (requirePolicy db i) (\<lambda>p.
     throw_if (pol_workspace p \<noteq> w) (PolicyNotFound ''policy'' i) (Inr p))"

text \<open>\<^verbatim>\<open>ORDER BY created_at ASC, policy_id ASC\<close>.\<close>

definition listPolicies :: "policy_db \<Rightarrow> string \<Rightarrow> bool \<Rightarrow> policy_rec list" where
  "listPolicies db w include_retired =
     js_sort (or_compare (\<lambda>l r. binary_compare (pol_created_at l) (pol_created_at r)) (\<lambda>l r. binary_compare (pol_id l) (pol_id r)))
       (filter (\<lambda>p. pol_workspace p = w \<and> (include_retired \<or> pol_status p = Policy_Active)) (policies db))"

text \<open>\<^verbatim>\<open>mapRevision\<close> normalises the stored content again, so reading a revision may throw.\<close>

definition mapRevision :: "platform \<Rightarrow> revision_rec \<Rightarrow> (policy_error, revision_rec) result" where
  "mapRevision js r = rbind (normalizePolicyContent js (rev_content r)) (\<lambda>c. Inr (r\<lparr>rev_content := c\<rparr>))"

definition getRevision :: "platform \<Rightarrow> policy_db \<Rightarrow> string \<Rightarrow> (policy_error, revision_rec option) result" where
  "getRevision js db i = (case row_where (\<lambda>r. rev_id r = i) (policy_revisions db) of
      None \<Rightarrow> Inr None | Some r \<Rightarrow> rbind (mapRevision js r) (\<lambda>r'. Inr (Some r')))"

definition requireRevision :: "platform \<Rightarrow> policy_db \<Rightarrow> string \<Rightarrow> (policy_error, revision_rec) result" where
  "requireRevision js db i = rbind (getRevision js db i) (\<lambda>r.
     case r of None \<Rightarrow> Inl (PolicyNotFound ''revision'' i) | Some r' \<Rightarrow> Inr r')"

definition requireRevisionForWorkspace ::
  "platform \<Rightarrow> policy_db \<Rightarrow> string \<Rightarrow> string \<Rightarrow> (policy_error, revision_rec) result" where
  "requireRevisionForWorkspace js db i w = rbind (requireRevision js db i) (\<lambda>r.
     throw_if (rev_workspace r \<noteq> w) (PolicyNotFound ''revision'' i) (Inr r))"

definition listRevisions :: "platform \<Rightarrow> policy_db \<Rightarrow> string \<Rightarrow> (policy_error, revision_rec list) result" where
  "listRevisions js db policyId = rmapM (mapRevision js)
     (js_sort (\<lambda>l r. binary_compare (rev_number r) (rev_number l)) (filter (\<lambda>r. rev_policy r = policyId) (policy_revisions db)))"

text \<open>\<^verbatim>\<open>mapBinding\<close>: only a node placement keeps a revision, and an empty one is dropped.\<close>

definition mapBinding :: "binding_rec \<Rightarrow> binding_rec" where
  "mapBinding b = b\<lparr>bind_subject := (bind_subject b)\<lparr>subj_revision :=
     (if subj_kind (bind_subject b) = ''node_placement'' \<and> subj_revision (bind_subject b) \<noteq> Some []
      then subj_revision (bind_subject b) else None)\<rparr>\<rparr>"

definition getBinding :: "policy_db \<Rightarrow> string \<Rightarrow> binding_rec option" where
  "getBinding db i = map_option mapBinding (row_where (\<lambda>b. bind_id b = i) (policy_bindings db))"

definition requireBinding :: "policy_db \<Rightarrow> string \<Rightarrow> (policy_error, binding_rec) result" where
  "requireBinding db i = (case getBinding db i of None \<Rightarrow> Inl (PolicyNotFound ''binding'' i) | Some b \<Rightarrow> Inr b)"

definition requireBindingForWorkspace :: "policy_db \<Rightarrow> string \<Rightarrow> string \<Rightarrow> (policy_error, binding_rec) result" where
  "requireBindingForWorkspace db i w = rbind (requireBinding db i) (\<lambda>b.
     throw_if (bind_workspace b \<noteq> w) (PolicyNotFound ''binding'' i) (Inr b))"

definition binding_compare :: "binding_rec \<Rightarrow> binding_rec \<Rightarrow> int" where
  "binding_compare = or_compare (\<lambda>l r. binary_compare (bind_at l) (bind_at r)) (\<lambda>l r. binary_compare (bind_id l) (bind_id r))"

definition listBindings :: "policy_db \<Rightarrow> string \<Rightarrow> bool \<Rightarrow> binding_rec list" where
  "listBindings db w include_revoked = map mapBinding (js_sort binding_compare
     (filter (\<lambda>b. bind_workspace b = w \<and> (include_revoked \<or> bind_status b = Binding_Active)) (policy_bindings db)))"

section \<open>Writing\<close>

definition insertRevision ::
  "platform \<Rightarrow> string \<Rightarrow> string \<Rightarrow> string \<Rightarrow> string \<Rightarrow> int \<Rightarrow> string option \<Rightarrow> policy_content \<Rightarrow> string \<Rightarrow> string \<Rightarrow> policy_db
    \<Rightarrow> (policy_error, revision_rec \<times> policy_db) result" where
  "insertRevision js fresh policyId w category n based content who created db =
     rbind (policyContentDigest js content) (\<lambda>d.
     throw_if (\<exists>r \<in> set (policy_revisions db). rev_id r = fresh \<or> (rev_policy r = policyId \<and> rev_number r = n))
       (PolicyConstraint ''policy_revisions'')
     (let db' = db\<lparr>policy_revisions := policy_revisions db @ [\<lparr>rev_id = fresh, rev_policy = policyId, rev_workspace = w,
                 rev_category = category, rev_number = n, rev_based_on = based, rev_digest = d, rev_content = content,
                 rev_created_by = who, rev_created_at = created, rev_published = None, rev_withdrawn = None\<rparr>]\<rparr>
      in rbind (requireRevision js db' fresh) (\<lambda>r. Inr (r, db'))))"

record create_policy =
  cp_workspace :: string
  cp_policy_id :: "string option"
  cp_category :: string
  cp_content :: policy_content
  cp_by :: string

definition createPolicy ::
  "platform \<Rightarrow> string \<Rightarrow> string \<Rightarrow> string \<Rightarrow> create_policy \<Rightarrow> policy_db
    \<Rightarrow> (policy_error, (policy_rec \<times> revision_rec) \<times> policy_db) result" where
  "createPolicy js now freshPolicy freshRevision input db =
     rbind (requiredText (cp_workspace input) ''workspace_id'') (\<lambda>w.
     rbind (requiredText (case cp_policy_id input of None \<Rightarrow> ''policy_'' @ freshPolicy | Some i \<Rightarrow> i) ''policy_id'') (\<lambda>i.
     rbind (requiredText (cp_by input) ''created_by_principal_id'') (\<lambda>who.
     rbind (validateCategory (cp_category input)) (\<lambda>_.
     rbind (normalizePolicyContent js (cp_content input)) (\<lambda>content.
     throw_if (\<exists>p \<in> set (policies db). pol_id p = i) (PolicyConflict i ''the stable identity already exists'')
     (let db1 = db\<lparr>policies := policies db @ [\<lparr>pol_id = i, pol_workspace = w, pol_category = cp_category input,
                 pol_status = Policy_Active, pol_current = None, pol_created_at = now, pol_updated_at = now, pol_retired_at = None\<rparr>]\<rparr>
      in rbind (insertRevision js (''policy_revision_'' @ freshRevision) i w (cp_category input) 1 None content who now db1) (\<lambda>(draft, db2).
         rbind (requirePolicy db2 i) (\<lambda>p. Inr ((p, draft), db2)))))))))"

definition open_draft :: "revision_rec \<Rightarrow> bool" where
  "open_draft r = (rev_published r = None \<and> rev_withdrawn r = None)"

definition next_revision :: "policy_db \<Rightarrow> string \<Rightarrow> int" where
  "next_revision db policyId = fold max (map rev_number (filter (\<lambda>r. rev_policy r = policyId) (policy_revisions db))) 0 + 1"

record create_draft =
  cd_workspace :: string
  cd_policy_id :: string
  cd_based_on :: "string option"
  cd_content :: policy_content
  cd_by :: string

definition createDraft ::
  "platform \<Rightarrow> string \<Rightarrow> string \<Rightarrow> create_draft \<Rightarrow> policy_db \<Rightarrow> (policy_error, revision_rec \<times> policy_db) result" where
  "createDraft js now fresh input db =
     rbind (requirePolicyForWorkspace db (cd_policy_id input) (cd_workspace input)) (\<lambda>p.
     throw_if (pol_status p \<noteq> Policy_Active) (PolicyConflict (pol_id p) ''it is retired'')
     (throw_if (pol_current p \<noteq> cd_based_on input)
        (PolicyConflict (pol_id p) ''the published revision changed before the draft was created'')
     (rbind (listRevisions js db (pol_id p)) (\<lambda>revs.
      case find open_draft revs of
        Some d \<Rightarrow> Inl (PolicyConflict (pol_id p) (''draft '' @ quoted (rev_id d) @ '' is already open''))
      | None \<Rightarrow>
        rbind (normalizePolicyContent js (cd_content input)) (\<lambda>content.
        rbind (requiredText (cd_by input) ''created_by_principal_id'') (\<lambda>who.
          insertRevision js (''policy_revision_'' @ fresh) (pol_id p) (pol_workspace p) (pol_category p)
            (next_revision db (pol_id p)) (cd_based_on input) content who now db))))))"

record replace_draft =
  rd_workspace :: string
  rd_revision_id :: string
  rd_expected_digest :: string
  rd_content :: policy_content

definition replaceDraft ::
  "platform \<Rightarrow> replace_draft \<Rightarrow> policy_db \<Rightarrow> (policy_error, revision_rec \<times> policy_db) result" where
  "replaceDraft js input db =
     rbind (requireRevisionForWorkspace js db (rd_revision_id input) (rd_workspace input)) (\<lambda>r.
     throw_if (\<not> open_draft r) (PolicyConflict (rev_policy r) ''published or withdrawn revisions are immutable'')
     (throw_if (rev_digest r \<noteq> rd_expected_digest input) (PolicyConflict (rev_policy r) ''the draft changed before this edit was applied'')
     (rbind (normalizePolicyContent js (rd_content input)) (\<lambda>content.
      rbind (policyContentDigest js content) (\<lambda>d.
      let hit = (\<lambda>x. rev_id x = rev_id r \<and> open_draft x \<and> rev_digest x = rd_expected_digest input);
          db' = db\<lparr>policy_revisions := set_where hit (\<lambda>x. x\<lparr>rev_content := content, rev_digest := d\<rparr>) (policy_revisions db)\<rparr>
      in throw_if (length (filter hit (policy_revisions db)) \<noteq> 1)
           (PolicyConflict (rev_policy r) ''the draft changed while it was being replaced'')
         (rbind (requireRevision js db' (rev_id r)) (\<lambda>r'. Inr (r', db'))))))))"

record publish_input =
  pb_workspace :: string
  pb_revision_id :: string
  pb_expected :: "string option"

definition publishRevision ::
  "platform \<Rightarrow> string \<Rightarrow> publish_input \<Rightarrow> policy_db
    \<Rightarrow> (policy_error, (policy_rec \<times> revision_rec) \<times> policy_db) result" where
  "publishRevision js now input db =
     rbind (requireRevisionForWorkspace js db (pb_revision_id input) (pb_workspace input)) (\<lambda>r.
     rbind (requirePolicyForWorkspace db (rev_policy r) (pb_workspace input)) (\<lambda>p.
     throw_if (pol_status p \<noteq> Policy_Active) (PolicyConflict (pol_id p) ''it is retired'')
     (throw_if (\<not> open_draft r) (PolicyConflict (pol_id p) ''the selected revision is not an open draft'')
     (throw_if (pol_current p \<noteq> pb_expected input) (PolicyConflict (pol_id p) ''the published revision changed before publication'')
     (throw_if (rev_based_on r \<noteq> pb_expected input)
        (PolicyConflict (pol_id p) ''the draft is not based on the expected published revision'')
     (let hitR = (\<lambda>x. rev_id x = rev_id r \<and> open_draft x);
          hitP = (\<lambda>x. pol_id x = pol_id p \<and> pol_workspace x = pol_workspace p \<and> pol_current x = pb_expected input);
          db' = db\<lparr>policy_revisions := set_where hitR (\<lambda>x. x\<lparr>rev_published := Some now\<rparr>) (policy_revisions db),
                   policies := set_where hitP (\<lambda>x. x\<lparr>pol_current := Some (rev_id r), pol_updated_at := now\<rparr>) (policies db)\<rparr>
      in throw_if (length (filter hitR (policy_revisions db)) \<noteq> 1 \<or> length (filter hitP (policies db)) \<noteq> 1)
           (PolicyConflict (pol_id p) ''publication lost a concurrent update'')
         (rbind (requirePolicy db' (pol_id p)) (\<lambda>p'. rbind (requireRevision js db' (rev_id r)) (\<lambda>r'. Inr ((p', r'), db'))))))))))"

record rollback_input =
  rb_workspace :: string
  rb_policy_id :: string
  rb_target :: string
  rb_expected :: string

definition rollback ::
  "platform \<Rightarrow> string \<Rightarrow> rollback_input \<Rightarrow> policy_db \<Rightarrow> (policy_error, policy_rec \<times> policy_db) result" where
  "rollback js now input db =
     rbind (requirePolicyForWorkspace db (rb_policy_id input) (rb_workspace input)) (\<lambda>p.
     rbind (requireRevisionForWorkspace js db (rb_target input) (rb_workspace input)) (\<lambda>target.
     throw_if (rev_policy target \<noteq> pol_id p \<or> rev_published target = None \<or> rev_withdrawn target \<noteq> None)
       (PolicyConflict (pol_id p) ''the rollback target is not a retained published revision'')
     (throw_if (pol_current p \<noteq> Some (rb_expected input)) (PolicyConflict (pol_id p) ''the published revision changed before rollback'')
     (let hit = (\<lambda>x. pol_id x = pol_id p \<and> pol_workspace x = pol_workspace p \<and> pol_current x = Some (rb_expected input));
          db' = db\<lparr>policies := set_where hit (\<lambda>x. x\<lparr>pol_current := Some (rev_id target), pol_updated_at := now\<rparr>) (policies db)\<rparr>
      in throw_if (length (filter hit (policies db)) \<noteq> 1) (PolicyConflict (pol_id p) ''rollback lost a concurrent update'')
         (rbind (requirePolicy db' (pol_id p)) (\<lambda>p'. Inr (p', db')))))))"

record bind_input =
  bi_workspace :: string
  bi_revision_id :: string
  bi_subject :: binding_subject
  bi_by :: string
  bi_binding_id :: "string option"

definition bindRevision ::
  "platform \<Rightarrow> string \<Rightarrow> string \<Rightarrow> bind_input \<Rightarrow> policy_db \<Rightarrow> (policy_error, binding_rec \<times> policy_db) result" where
  "bindRevision js now fresh input db =
     rbind (requireRevisionForWorkspace js db (bi_revision_id input) (bi_workspace input)) (\<lambda>r.
     throw_if (rev_published r = None \<or> rev_withdrawn r \<noteq> None)
       (PolicyConflict (rev_policy r) ''only a retained published revision can be bound'')
     (rbind (requirePolicyForWorkspace db (rev_policy r) (bi_workspace input)) (\<lambda>p.
      throw_if (pol_status p \<noteq> Policy_Active) (PolicyConflict (pol_id p) ''it is retired'')
     (rbind (normalizeSubject (bi_subject input)) (\<lambda>subject.
      throw_if (subj_kind subject = ''workspace'' \<and> subj_id subject \<noteq> bi_workspace input)
        (PolicyInvalid ''a Workspace binding must name its own Workspace'')
     (rbind (requiredText (case bi_binding_id input of None \<Rightarrow> ''policy_binding_'' @ fresh | Some i \<Rightarrow> i) ''policy_binding_id'') (\<lambda>i.
      rbind (requiredText (bi_by input) ''bound_by_principal_id'') (\<lambda>who.
      throw_if (\<exists>b \<in> set (policy_bindings db). bind_id b = i)
        (PolicyConflict (pol_id p) (''binding '' @ quoted i @ '' already exists''))
      (let db' = db\<lparr>policy_bindings := policy_bindings db @ [\<lparr>bind_id = i, bind_workspace = bi_workspace input,
                  bind_revision = rev_id r, bind_subject = subject, bind_status = Binding_Active, bind_by = who,
                  bind_at = now, bind_revoked_by = None, bind_revoked_at = None, bind_reason = None\<rparr>]\<rparr>
       in rbind (requireBinding db' i) (\<lambda>b. Inr (b, db')))))))))))"

record revoke_input =
  rv_workspace :: string
  rv_binding_id :: string
  rv_by :: string
  rv_reason :: string

definition revokeBinding ::
  "platform \<Rightarrow> string \<Rightarrow> revoke_input \<Rightarrow> policy_db \<Rightarrow> (policy_error, binding_rec \<times> policy_db) result" where
  "revokeBinding js now input db =
     rbind (requireBindingForWorkspace db (rv_binding_id input) (rv_workspace input)) (\<lambda>b.
     if bind_status b = Binding_Revoked then Inr (b, db)
     else rbind (requiredText (rv_by input) ''revoked_by_principal_id'') (\<lambda>who.
     rbind (requiredText (rv_reason input) ''reason'') (\<lambda>reason.
     let hit = (\<lambda>x. bind_id x = bind_id b \<and> bind_workspace x = bind_workspace b \<and> bind_status x = Binding_Active);
         db' = db\<lparr>policy_bindings := set_where hit (\<lambda>x. x\<lparr>bind_status := Binding_Revoked, bind_revoked_by := Some who,
                 bind_revoked_at := Some now, bind_reason := Some reason\<rparr>) (policy_bindings db)\<rparr>
     in if length (filter hit (policy_bindings db)) \<noteq> 1
        then rbind (requireRevision js db (bind_revision b)) (\<lambda>r. Inl (PolicyConflict (rev_policy r) ''the binding changed concurrently''))
        else rbind (requireBinding db' (bind_id b)) (\<lambda>b'. Inr (b', db')))))"

definition active_bindings_of :: "policy_db \<Rightarrow> string \<Rightarrow> binding_rec list" where
  "active_bindings_of db policyId = filter (\<lambda>b. bind_status b = Binding_Active
     \<and> list_ex (\<lambda>r. rev_id r = bind_revision b \<and> rev_policy r = policyId) (policy_revisions db)) (policy_bindings db)"

definition retirePolicy :: "string \<Rightarrow> string \<Rightarrow> string \<Rightarrow> policy_db \<Rightarrow> (policy_error, policy_rec \<times> policy_db) result" where
  "retirePolicy now w i db =
     rbind (requirePolicyForWorkspace db i w) (\<lambda>p.
     if pol_status p = Policy_Retired then Inr (p, db)
     else throw_if (active_bindings_of db (pol_id p) \<noteq> [])
       (PolicyConflict (pol_id p) ''active bindings must be revoked before retirement'')
     (let db' = db\<lparr>policies := set_where (\<lambda>x. pol_id x = pol_id p \<and> pol_workspace x = pol_workspace p \<and> pol_status x = Policy_Active)
            (\<lambda>x. x\<lparr>pol_status := Policy_Retired, pol_retired_at := Some now, pol_updated_at := now\<rparr>) (policies db)\<rparr>
      in rbind (requirePolicy db' (pol_id p)) (\<lambda>p'. Inr (p', db'))))"

definition reactivatePolicy :: "string \<Rightarrow> string \<Rightarrow> string \<Rightarrow> policy_db \<Rightarrow> (policy_error, policy_rec \<times> policy_db) result" where
  "reactivatePolicy now w i db =
     rbind (requirePolicyForWorkspace db i w) (\<lambda>p.
     if pol_status p = Policy_Active then Inr (p, db)
     else let db' = db\<lparr>policies := set_where (\<lambda>x. pol_id x = pol_id p \<and> pol_workspace x = pol_workspace p \<and> pol_status x = Policy_Retired)
            (\<lambda>x. x\<lparr>pol_status := Policy_Active, pol_retired_at := None, pol_updated_at := now\<rparr>) (policies db)\<rparr>
      in rbind (requirePolicy db' (pol_id p)) (\<lambda>p'. Inr (p', db')))"

end
