(* ===== verification/Policy_Evaluation.thy ===== *)
theory Policy_Evaluation
  imports Policy_Store
begin

text \<open>
  \<^verbatim>\<open>PolicyStore.evaluate\<close> of \<^verbatim>\<open>floe-bus/src/policies.ts\<close>: the facts of one operation are normalised,
  matched against the bound and directly referenced revisions, and decided; the decision is kept.
\<close>

section \<open>Facts\<close>

definition normalizeAuthorityBoundary :: "boundary \<Rightarrow> (policy_error, boundary) result" where
  "normalizeAuthorityBoundary b = (case b of
      Workspace w \<Rightarrow> rbind (requiredText w ''authority Workspace'') (\<lambda>t. Inr (Workspace t))
    | Host h \<Rightarrow> rbind (requiredText h ''authority host'') (\<lambda>t. Inr (Host t)))"

definition normalizeProvenance :: "provenance \<Rightarrow> (policy_error, provenance) result" where
  "normalizeProvenance p =
     rbind (nullableText (cause_event_id p)) (\<lambda>c.
     rbind (uniqueText (delivery_ids p)) (\<lambda>ds.
     rbind (nullableText (execution_attempt_id p)) (\<lambda>a.
     rbind (nullableText (node_execution_id p)) (\<lambda>n.
     rbind (nullableText (prov_scope_execution_id p)) (\<lambda>s.
       Inr \<lparr>cause_event_id = c, delivery_ids = ds, execution_attempt_id = a, node_execution_id = n, prov_scope_execution_id = s\<rparr>)))))"

definition normalize_evidence_item :: "role_evidence \<Rightarrow> (policy_error, role_evidence) result" where
  "normalize_evidence_item e =
     rbind (requiredText (re_actor e) ''actor role actor_id'') (\<lambda>actor.
     rbind (requiredText (re_role e) ''actor role'') (\<lambda>role.
     rbind (requiredText (er_id (re_binding e)) ''principal Actor binding id'') (\<lambda>bi.
     rbind (requiredText (er_revision (re_binding e)) ''principal Actor binding revision'') (\<lambda>br.
     rbind (requiredText (er_id (re_source e)) ''Actor role source id'') (\<lambda>si.
     rbind (requiredText (er_revision (re_source e)) ''Actor role source revision'') (\<lambda>sr.
     rbind (requiredText (re_boundary_id e) ''Actor role source boundary id'') (\<lambda>xi.
     rbind (nullableText (re_composition e)) (\<lambda>comp.
     rbind (nullableText (re_placement e)) (\<lambda>place.
       Inr \<lparr>re_actor = actor, re_role = role,
            re_binding = \<lparr>er_kind = ''principal_actor_binding'', er_id = bi, er_revision = br\<rparr>,
            re_source = \<lparr>er_kind = er_kind (re_source e), er_id = si, er_revision = sr\<rparr>,
            re_boundary_kind = re_boundary_kind e, re_boundary_id = xi, re_composition = comp, re_placement = place\<rparr>)))))))))"

definition ref_json :: "evidence_ref \<Rightarrow> json" where
  "ref_json r = JObj [(''kind'', JStr (er_kind r)), (''id'', JStr (er_id r)), (''revision'', JStr (er_revision r))]"

definition evidence_json :: "role_evidence \<Rightarrow> json" where
  "evidence_json e = JObj [(''actor_id'', JStr (re_actor e)), (''role'', JStr (re_role e)),
     (''principal_binding_ref'', ref_json (re_binding e)), (''role_source_ref'', ref_json (re_source e)),
     (''source_boundary'', JObj [(''kind'', JStr (re_boundary_kind e)), (''id'', JStr (re_boundary_id e)),
       (''scope_composition_revision_id'', jopt JStr (re_composition e)), (''node_placement_id'', jopt JStr (re_placement e))])]"

definition normalizeActorRoleEvidence :: "platform \<Rightarrow> role_evidence list \<Rightarrow> (policy_error, role_evidence list) result" where
  "normalizeActorRoleEvidence js es = rbind (rmapM normalize_evidence_item es) (\<lambda>es'.
     Inr (js_sort (\<lambda>l r. locale_compare js (canonicalJson js (evidence_json l)) (canonicalJson js (evidence_json r))) es'))"

definition lift_tool :: "(facts_error, 'a) result \<Rightarrow> (policy_error, 'a) result" where
  "lift_tool r = (case r of Inl e \<Rightarrow> Inl (PolicyToolFacts e) | Inr x \<Rightarrow> Inr x)"

definition normalizeFacts :: "platform \<Rightarrow> policy_facts \<Rightarrow> (policy_error, policy_facts) result" where
  "normalizeFacts js f =
     rbind (normalizeAuthorityBoundary (pf_boundary f)) (\<lambda>bnd.
     rbind (case pf_workspace f of None \<Rightarrow> Inr None
            | Some w \<Rightarrow> rbind (requiredText w ''workspace_id'') (\<lambda>t. Inr (Some t))) (\<lambda>w.
     throw_if ((case bnd of Workspace i \<Rightarrow> w \<noteq> Some i | Host _ \<Rightarrow> w \<noteq> None))
       (PolicyInvalid ''workspace_id must exactly match Workspace authority and be null for host authority'')
     (rbind (requiredText (pf_principal f) ''principal_id'') (\<lambda>who.
     rbind (uniqueText (pf_roles f)) (\<lambda>roles.
     rbind (normalizeActorRoleEvidence js (pf_evidence f)) (\<lambda>ev.
     rbind (normalizeProvenance (pf_provenance f)) (\<lambda>prov.
     rbind (requiredText (pf_operation f) ''operation_id'') (\<lambda>op.
     rbind (nullableText (pf_scope f)) (\<lambda>scope.
     rbind (nullableText (pf_actor f)) (\<lambda>actor.
     rbind (nullableText (pf_composition f)) (\<lambda>comp.
     rbind (nullableText (pf_placement f)) (\<lambda>place.
     rbind (nullableText (pf_connector f)) (\<lambda>conn.
     rbind (nullableText (pf_installation f)) (\<lambda>inst.
     rbind (nullableText (pf_package f)) (\<lambda>pack.
     rbind (uniqueText (pf_data_classes f)) (\<lambda>data.
     rbind (nullableText (pf_trust f)) (\<lambda>trust.
     rbind (case pf_tool f of None \<Rightarrow> Inr None
            | Some t \<Rightarrow> rbind (lift_tool (normalizeToolCallPolicyFacts js t)) (\<lambda>t'. Inr (Some t'))) (\<lambda>tool.
     throw_if (place \<noteq> None \<and> comp = None)
       (PolicyInvalid ''NodePlacement facts require both node_placement_id and scope_composition_revision_id'')
     (Inr \<lparr>pf_boundary = bnd, pf_workspace = w, pf_principal = who, pf_roles = roles, pf_evidence = ev,
          pf_mode = pf_mode f, pf_provenance = prov, pf_operation = op, pf_target = pf_target f, pf_effects = pf_effects f,
          pf_scope = scope, pf_actor = actor, pf_composition = comp, pf_placement = place, pf_connector = conn,
          pf_installation = inst, pf_package = pack, pf_data_classes = data, pf_trust = trust, pf_tool = tool\<rparr>)))))))))))))))))))"

section \<open>The digest of the facts\<close>

definition mode_text :: "interaction_mode \<Rightarrow> string" where
  "mode_text m = (case m of Interactive \<Rightarrow> ''interactive'' | Unattended \<Rightarrow> ''unattended'' | Brokered \<Rightarrow> ''brokered'')"

definition boundary_json :: "boundary \<Rightarrow> json" where
  "boundary_json b = (case b of
      Workspace w \<Rightarrow> JObj [(''kind'', JStr ''workspace''), (''workspace_id'', JStr w)]
    | Host h \<Rightarrow> JObj [(''kind'', JStr ''host''), (''host_id'', JStr h)])"

definition provenance_json :: "provenance \<Rightarrow> json" where
  "provenance_json p = JObj [(''cause_event_id'', jopt JStr (cause_event_id p)), (''delivery_ids'', jtexts (delivery_ids p)),
     (''execution_attempt_id'', jopt JStr (execution_attempt_id p)), (''node_execution_id'', jopt JStr (node_execution_id p)),
     (''scope_execution_id'', jopt JStr (prov_scope_execution_id p))]"

text \<open>A resource reference that names no revision writes none; a null revision is not distinguished from it.\<close>

definition resource_json :: "resource_ref \<Rightarrow> json" where
  "resource_json r = JObj ([(''kind'', JStr (ref_kind r)), (''id'', JStr (ref_id r))]
     @ (case ref_revision r of None \<Rightarrow> [] | Some v \<Rightarrow> [(''revision'', JStr v)]))"

definition effects_json :: "operation_effects \<Rightarrow> json" where
  "effects_json e = JObj ([(''mode'', JStr (eff_mode e)), (''reversibility'', JStr (eff_reversibility e)),
     (''external'', JBool (eff_external e)), (''secret_access'', JStr (eff_secret_access e))]
     @ (if eff_restore_hold e then [(''allowed_during_restore_hold'', JBool True)] else []))"

definition tool_json :: "tool_facts \<Rightarrow> json" where
  "tool_json t = JObj [(''actor_definition_revision_id'', JStr (actor_definition_revision_id t)),
     (''tool_call_id'', jopt JStr (tool_call_id t)), (''engine'', JStr (engine t)),
     (''manifest_version'', JStr (manifest_version t)), (''native_tools'', jtexts (native_tools t)),
     (''paths'', jtexts (paths t)), (''unresolved_path_count'', JNum (of_int (unresolved_path_count t))),
     (''outside_path_count'', JNum (of_int (outside_count t))), (''executables'', jtexts (executables t)),
     (''unclassified_segment_count'', JNum (of_int (unclassified_segment_count t))),
     (''destinations'', JArr (map (\<lambda>d. JObj [(''scheme'', JStr (dest_scheme d)), (''host'', JStr (dest_host d))]) (destinations t))),
     (''invalid_url_count'', JNum (of_int (invalid_url_count t))), (''write_redirection'', JBool (write_redirection t)),
     (''sandbox_bypass'', JBool (sandbox_bypass t)), (''argument_digest'', JStr (argument_digest t))]"

definition facts_json :: "policy_facts \<Rightarrow> json" where
  "facts_json f = JObj ([(''authority_boundary'', boundary_json (pf_boundary f)), (''workspace_id'', jopt JStr (pf_workspace f)),
     (''principal_id'', JStr (pf_principal f)), (''principal_roles'', jtexts (pf_roles f)),
     (''actor_role_evidence'', JArr (map evidence_json (pf_evidence f))), (''interaction_mode'', JStr (mode_text (pf_mode f))),
     (''provenance'', provenance_json (pf_provenance f)), (''operation_id'', JStr (pf_operation f)),
     (''target'', jopt resource_json (pf_target f)), (''effects'', effects_json (pf_effects f)),
     (''scope_id'', jopt JStr (pf_scope f)), (''actor_id'', jopt JStr (pf_actor f)),
     (''scope_composition_revision_id'', jopt JStr (pf_composition f)), (''node_placement_id'', jopt JStr (pf_placement f)),
     (''connector_binding_id'', jopt JStr (pf_connector f)), (''extension_installation_id'', jopt JStr (pf_installation f)),
     (''extension_package_version_id'', jopt JStr (pf_package f)), (''data_classes'', jtexts (pf_data_classes f)),
     (''worker_trust_level'', jopt JStr (pf_trust f))]
     @ (case pf_tool f of None \<Rightarrow> [] | Some t \<Rightarrow> [(''tool'', tool_json t)]))"

section \<open>Matching\<close>

definition truthy :: "string option \<Rightarrow> bool" where
  "truthy v = (v \<noteq> None \<and> v \<noteq> Some [])"

definition policySubjectsForFacts :: "policy_facts \<Rightarrow> binding_subject list" where
  "policySubjectsForFacts f = (case pf_workspace f of
      None \<Rightarrow> []
    | Some w \<Rightarrow> [\<lparr>subj_kind = ''workspace'', subj_id = w, subj_revision = None\<rparr>]
        @ (if truthy (pf_scope f) then [\<lparr>subj_kind = ''scope'', subj_id = the (pf_scope f), subj_revision = None\<rparr>] else [])
        @ (if truthy (pf_actor f) then [\<lparr>subj_kind = ''actor'', subj_id = the (pf_actor f), subj_revision = None\<rparr>] else [])
        @ (if truthy (pf_placement f) \<and> truthy (pf_composition f)
           then [\<lparr>subj_kind = ''node_placement'', subj_id = the (pf_placement f), subj_revision = pf_composition f\<rparr>] else [])
        @ (if truthy (pf_connector f) then [\<lparr>subj_kind = ''connector_binding'', subj_id = the (pf_connector f), subj_revision = None\<rparr>] else [])
        @ (if truthy (pf_installation f)
           then [\<lparr>subj_kind = ''extension_installation'', subj_id = the (pf_installation f), subj_revision = None\<rparr>] else []))"

definition same_subject :: "binding_subject \<Rightarrow> binding_subject \<Rightarrow> bool" where
  "same_subject l r = (subj_kind l = subj_kind r \<and> subj_id l = subj_id r \<and> or_empty (subj_revision l) = or_empty (subj_revision r))"

definition live_revision :: "policy_db \<Rightarrow> string \<Rightarrow> bool" where
  "live_revision db i = list_ex (\<lambda>r. rev_id r = i \<and> rev_published r \<noteq> None \<and> rev_withdrawn r = None
     \<and> list_ex (\<lambda>p. pol_id p = rev_policy r \<and> pol_status p = Policy_Active) (policies db)) (policy_revisions db)"

definition listApplicableBindings :: "policy_db \<Rightarrow> policy_facts \<Rightarrow> binding_rec list" where
  "listApplicableBindings db f = (case (pf_boundary f, pf_workspace f) of
      (Workspace _, Some w) \<Rightarrow>
        map mapBinding (js_sort binding_compare (filter (\<lambda>b. bind_workspace b = w \<and> bind_status b = Binding_Active
          \<and> live_revision db (bind_revision b)
          \<and> list_ex (\<lambda>s. same_subject (bind_subject b) s) (policySubjectsForFacts f)) (policy_bindings db)))
    | _ \<Rightarrow> [])"

definition match_list :: "rule_match \<Rightarrow> string \<Rightarrow> string list option" where
  "match_list m k = (case map_of m k of Some (Texts ts) \<Rightarrow> Some ts | _ \<Rightarrow> None)"

definition matches :: "string list option \<Rightarrow> string option \<Rightarrow> bool" where
  "matches expected actual = (case expected of None \<Rightarrow> True
     | Some es \<Rightarrow> (case actual of None \<Rightarrow> False | Some a \<Rightarrow> a \<in> set es))"

definition intersects :: "string list option \<Rightarrow> string list \<Rightarrow> bool" where
  "intersects expected actual = (case expected of None \<Rightarrow> True | Some es \<Rightarrow> list_ex (\<lambda>e. e \<in> set actual) es)"

definition matchesRule :: "rule_match \<Rightarrow> policy_facts \<Rightarrow> bool" where
  "matchesRule m f =
     (matches (match_list m ''operation_ids'') (Some (pf_operation f))
    \<and> matches (match_list m ''principal_ids'') (Some (pf_principal f))
    \<and> intersects (match_list m ''principal_roles'') (pf_roles f)
    \<and> matches (match_list m ''interaction_modes'') (Some (mode_text (pf_mode f)))
    \<and> matches (match_list m ''target_kinds'') (map_option ref_kind (pf_target f))
    \<and> matches (match_list m ''target_ids'') (map_option ref_id (pf_target f))
    \<and> matches (match_list m ''scope_ids'') (pf_scope f)
    \<and> matches (match_list m ''actor_ids'') (pf_actor f)
    \<and> matches (match_list m ''scope_composition_revision_ids'') (pf_composition f)
    \<and> matches (match_list m ''node_placement_ids'') (pf_placement f)
    \<and> matches (match_list m ''connector_binding_ids'') (pf_connector f)
    \<and> matches (match_list m ''extension_installation_ids'') (pf_installation f)
    \<and> matches (match_list m ''extension_package_version_ids'') (pf_package f)
    \<and> intersects (match_list m ''data_classes'') (pf_data_classes f)
    \<and> matches (match_list m ''worker_trust_levels'') (pf_trust f)
    \<and> (map_of m ''external_effect'' = None \<or> map_of m ''external_effect'' = Some (Flag (eff_external (pf_effects f))))
    \<and> (map_of m ''reversibility'' = None \<or> map_of m ''reversibility'' = Some (Text (eff_reversibility (pf_effects f)))))"

definition compareRules :: "platform \<Rightarrow> policy_rule \<Rightarrow> policy_rule \<Rightarrow> int" where
  "compareRules js = or_compare (\<lambda>l r. rule_priority r - rule_priority l) (\<lambda>l r. locale_compare js (rule_id l) (rule_id r))"

definition matched_of :: "platform \<Rightarrow> policy_facts \<Rightarrow> revision_rec \<times> string option \<Rightarrow> matched_rule list" where
  "matched_of js f src = map (\<lambda>r. \<lparr>mr_revision = rev_id (fst src), mr_binding = snd src, mr_rule = rule_id r, mr_effect = rule_effect r\<rparr>)
     (filter (\<lambda>r. matchesRule (rule_match r) f) (js_sort (compareRules js) (pc_rules (rev_content (fst src)))))"

section \<open>Limits\<close>

definition strict_key :: "budget_limit \<Rightarrow> string" where
  "strict_key l = subj_kind (bl_subject l) @ [CHR 0x00] @ subj_id (bl_subject l) @ [CHR 0x00] @ or_empty (subj_revision (bl_subject l))
     @ [CHR 0x00] @ bl_metric l @ [CHR 0x00] @ bl_window l @ [CHR 0x00] @ or_empty (bl_timezone l)"

definition keep_strictest :: "budget_limit \<Rightarrow> (string \<times> budget_limit) list \<Rightarrow> (string \<times> budget_limit) list" where
  "keep_strictest l acc = (case map_of acc (strict_key l) of
      None \<Rightarrow> map_put (strict_key l) l acc
    | Some e \<Rightarrow> if bl_maximum l < bl_maximum e then map_put (strict_key l) l acc else acc)"

definition limit_compare :: "platform \<Rightarrow> budget_limit \<Rightarrow> budget_limit \<Rightarrow> int" where
  "limit_compare js =
     or_compare (\<lambda>l r. locale_compare js (subj_kind (bl_subject l)) (subj_kind (bl_subject r)))
    (or_compare (\<lambda>l r. locale_compare js (subj_id (bl_subject l)) (subj_id (bl_subject r)))
    (or_compare (\<lambda>l r. locale_compare js (or_empty (subj_revision (bl_subject l))) (or_empty (subj_revision (bl_subject r))))
    (or_compare (\<lambda>l r. locale_compare js (bl_metric l) (bl_metric r))
                (\<lambda>l r. locale_compare js (bl_window l) (bl_window r)))))"

definition strictestLimits :: "platform \<Rightarrow> budget_limit list \<Rightarrow> budget_limit list" where
  "strictestLimits js ls = js_sort (limit_compare js) (map snd (fold keep_strictest ls []))"

definition limits_of :: "binding_rec list \<Rightarrow> matched_rule \<Rightarrow> (policy_error, budget_limit list) result" where
  "limits_of bindings m = (case mr_effect m of
      Limit ls \<Rightarrow>
        (case mr_binding m of
           None \<Rightarrow> Inl (PolicyInvalid (''directly referenced revision '' @ quoted (mr_revision m) @ '' has limit rule ''
             @ quoted (mr_rule m) @ ''; budget limits must be bound''))
         | Some i \<Rightarrow>
            (case find (\<lambda>b. bind_id b = i) bindings of
               None \<Rightarrow> Inl (PolicyInvalid (''binding '' @ quoted i @ '' disappeared during evaluation''))
             | Some b \<Rightarrow> Inr (map (\<lambda>l. \<lparr>bl_revision = mr_revision m, bl_binding = bind_id b, bl_rule = mr_rule m,
                 bl_subject = bind_subject b, bl_metric = lim_metric l, bl_maximum = lim_maximum l,
                 bl_window = lim_window l, bl_timezone = lim_timezone l\<rparr>) ls)))
    | _ \<Rightarrow> Inr [])"

section \<open>Evaluation\<close>

record evaluation_options =
  direct_revision_ids :: "string list"
  authority_denial_reason :: "string option"

definition direct_revision ::
  "platform \<Rightarrow> policy_db \<Rightarrow> policy_facts \<Rightarrow> string \<Rightarrow> (policy_error, revision_rec) result" where
  "direct_revision js db f i =
     rbind (requireRevision js db i) (\<lambda>r.
     let bad = Inl (PolicyInvalid (''directly referenced revision '' @ quoted i @ '' is not a live published revision in this Workspace'')) in
     if Some (rev_workspace r) \<noteq> pf_workspace f \<or> rev_published r = None \<or> rev_withdrawn r \<noteq> None then bad
     else rbind (requirePolicy db (rev_policy r)) (\<lambda>p. if pol_status p \<noteq> Policy_Active then bad else Inr r))"

definition denials_of :: "evaluation_options \<Rightarrow> matched_rule list \<Rightarrow> string list" where
  "denials_of opts ms = (if truthy (authority_denial_reason opts) then [the (authority_denial_reason opts)] else [])
     @ concat (map (\<lambda>m. case mr_effect m of Deny r \<Rightarrow> [r] | _ \<Rightarrow> []) ms)"

definition approvals_of :: "matched_rule list \<Rightarrow> approval_requirement list" where
  "approvals_of ms = concat (map (\<lambda>m. case mr_effect m of
     Require_Approval r a \<Rightarrow> [\<lparr>ar_revision = mr_revision m, ar_rule = mr_rule m, ar_reason = r, ar_approvers = a\<rparr>] | _ \<Rightarrow> []) ms)"

definition evaluate ::
  "platform \<Rightarrow> string \<Rightarrow> string \<Rightarrow> policy_facts \<Rightarrow> evaluation_options \<Rightarrow> policy_db
    \<Rightarrow> (policy_error, evaluation_rec \<times> policy_db) result" where
  "evaluate js now fresh input opts db =
     rbind (normalizeFacts js input) (\<lambda>f.
     let bindings = listApplicableBindings db f in
     rbind (rmapM (direct_revision js db f) (sortedUnique (direct_revision_ids opts))) (\<lambda>direct.
     rbind (rmapM (\<lambda>b. rbind (requireRevision js db (bind_revision b)) (\<lambda>r. Inr (r, Some (bind_id b)))) bindings) (\<lambda>bound.
     let sources = bound @ map (\<lambda>r. (r, None)) direct;
         matched = concat (map (matched_of js f) sources);
         denials = denials_of opts matched;
         approvals = approvals_of matched
     in rbind (rmapM (limits_of bindings) matched) (\<lambda>lss.
        let ev = \<lparr>ev_id = ''policy_evaluation_'' @ fresh, ev_workspace = pf_workspace f, ev_boundary = pf_boundary f,
             ev_facts = Some f, ev_digest = json_digest js (facts_json f),
             ev_revision_ids = sortedUnique (map bind_revision bindings @ map rev_id direct),
             ev_matched = matched,
             ev_decision = (if denials \<noteq> [] then Pd_Deny else if approvals \<noteq> [] then Pd_Require_Approval else Pd_Allow),
             ev_denials = denials, ev_approvals = approvals, ev_limits = strictestLimits js (concat lss), ev_at = now\<rparr>
        in throw_if (\<exists>e \<in> set (policy_evaluations db). ev_id e = ev_id ev) (PolicyConstraint ''policy_evaluations'')
           (Inr (ev, db\<lparr>policy_evaluations := policy_evaluations db @ [ev]\<rparr>))))))"

definition getEvaluation :: "policy_db \<Rightarrow> string \<Rightarrow> evaluation_rec option" where
  "getEvaluation db i = row_where (\<lambda>e. ev_id e = i) (policy_evaluations db)"

text \<open>\<^verbatim>\<open>ORDER BY evaluated_at DESC, evaluation_id DESC LIMIT ?\<close> with the limit clamped to 1 to 500.\<close>

definition listEvaluations :: "policy_db \<Rightarrow> string \<Rightarrow> rat \<Rightarrow> evaluation_rec list" where
  "listEvaluations db w limit = take (nat (min (max \<lfloor>limit\<rfloor> 1) 500))
     (js_sort (or_compare (\<lambda>l r. binary_compare (ev_at r) (ev_at l)) (\<lambda>l r. binary_compare (ev_id r) (ev_id l)))
       (filter (\<lambda>e. ev_workspace e = Some w) (policy_evaluations db)))"

definition listToolEvaluationsForTurn :: "policy_db \<Rightarrow> string \<Rightarrow> string \<Rightarrow> evaluation_rec list" where
  "listToolEvaluationsForTurn db w delivery = take 500
     (js_sort (or_compare (\<lambda>l r. binary_compare (ev_at l) (ev_at r)) (\<lambda>l r. binary_compare (ev_id l) (ev_id r)))
       (filter (\<lambda>e. ev_workspace e = Some w \<and> (case ev_facts e of None \<Rightarrow> False
          | Some f \<Rightarrow> pf_tool f \<noteq> None \<and> (case pf_target f of None \<Rightarrow> False
              | Some t \<Rightarrow> ref_kind t = ''runtime_delivery'' \<and> ref_id t = delivery))) (policy_evaluations db)))"

end
