(* ===== verification/Policy_Normal.thy ===== *)
theory Policy_Normal
  imports Policy_Evaluation Normal_Forms
begin

text \<open>
  Policy content in normal form: \<^verbatim>\<open>normalizePolicyContent\<close> is idempotent, so a stored revision reads
  back exactly as it was written and its digest is stable.
\<close>

section \<open>Texts\<close>

lemma requiredText_Inr [result_simps]: "requiredText v l = Inr w \<longleftrightarrow> \<not> is_blank v \<and> w = js_trim v"
  by (auto simp: requiredText_def)

lemma requiredText_trimmed [simp]: "trimmed v \<Longrightarrow> requiredText v l = Inr v"
  by (simp add: requiredText_def trimmed_def)

lemma uniqueText_idem: "uniqueText vs = Inr ts \<Longrightarrow> uniqueText ts = Inr ts"
proof -
  assume "uniqueText vs = Inr ts"
  then obtain us where us: "rmapM (\<lambda>v. requiredText v ''policy fact'') vs = Inr us" and ts: "ts = sortedUnique us"
    by (auto simp: uniqueText_def result_simps)
  have "trimmed u" if "u \<in> set us" for u
    using rmapM_Inr_mem [OF us that] by (auto simp: result_simps trimmed_trim)
  then have "rmapM (\<lambda>v. requiredText v ''policy fact'') ts = Inr ts" by (intro rmapM_fixed) (simp add: ts)
  then show ?thesis by (simp add: uniqueText_def ts)
qed

section \<open>Rules\<close>

lemma normalize_entry_idem: "normalize_entry i kv = Inr kv' \<Longrightarrow> normalize_entry j kv' = Inr kv' \<and> fst kv' = fst kv"
proof (cases kv)
  case (Pair key v)
  assume n: "normalize_entry i kv = Inr kv'"
  show ?thesis
  proof (cases "key = ''external_effect'' \<or> key = ''reversibility''")
    case True
    then show ?thesis using n Pair
      by (auto simp: normalize_entry_def Let_def split: match_value.splits if_splits)
  next
    case False
    then obtain ts us where v: "v = Texts ts" "ts \<noteq> []" and us: "rmapM (\<lambda>t. requiredText t (key @ '' entry'')) ts = Inr us"
        and kv': "kv' = (key, Texts (sortedUnique us))"
      using n Pair by (auto simp: normalize_entry_def result_simps split: match_value.splits if_splits)
    have t: "trimmed u" if "u \<in> set us" for u
      using rmapM_Inr_mem [OF us that] by (auto simp: result_simps trimmed_trim)
    have "us \<noteq> []" using us v(2) by (cases ts) (auto simp: result_simps)
    then have "sortedUnique us \<noteq> []" by (metis sortedUnique_simps(1) set_empty)
    moreover have "rmapM (\<lambda>t. requiredText t (key @ '' entry'')) (sortedUnique us) = Inr (sortedUnique us)"
      using t by (intro rmapM_fixed) simp
    ultimately show ?thesis using False by (simp add: normalize_entry_def kv' Pair)
  qed
qed

lemma rmapM_idem:
  assumes "rmapM f xs = Inr ys" and "\<And>x y. f x = Inr y \<Longrightarrow> g y = Inr y"
  shows "rmapM g ys = Inr ys"
  using rmapM_Inr_mem [OF assms(1)] assms(2) by (intro rmapM_fixed) blast

lemma normalizeMatch_idem: "normalizeMatch m i = Inr m' \<Longrightarrow> normalizeMatch m' j = Inr m'"
proof -
  assume n: "normalizeMatch m i = Inr m'"
  then have known: "\<forall>kv \<in> set m. fst kv \<in> set match_fields" and m': "rmapM (normalize_entry i) m = Inr m'"
      and both: "(map_of m' ''node_placement_ids'' \<noteq> None) = (map_of m' ''scope_composition_revision_ids'' \<noteq> None)"
    by (auto simp: normalizeMatch_def result_simps find_None_iff split: option.splits)
  have "rmapM (normalize_entry j) m' = Inr m'" by (rule rmapM_idem [OF m']) (blast dest: normalize_entry_idem)
  moreover have "fst kv' \<in> set match_fields" if "kv' \<in> set m'" for kv'
    using rmapM_Inr_mem [OF m' that] normalize_entry_idem known by metis
  then have "find (\<lambda>kv. fst kv \<notin> set match_fields) m' = None" by (auto simp: find_None_iff)
  ultimately show ?thesis using both by (auto simp: normalizeMatch_def throw_if_def)
qed

lemma normalizeApprovers_idem: "normalizeApprovers a i = Inr b \<Longrightarrow> normalizeApprovers b j = Inr b"
proof (cases a)
  case (All_Named ps)
  assume "normalizeApprovers a i = Inr b"
  then obtain qs where q: "uniqueText ps = Inr qs" "qs \<noteq> []" "b = All_Named qs"
    using All_Named by (auto simp: normalizeApprovers_def result_simps)
  from uniqueText_idem [OF q(1)] q show ?thesis by (simp add: normalizeApprovers_def)
next
  case (Any_Of ps rs)
  assume "normalizeApprovers a i = Inr b"
  then obtain qs ts where q: "uniqueText ps = Inr qs" "uniqueText rs = Inr ts" "qs \<noteq> [] \<or> ts \<noteq> []" "b = Any_Of qs ts"
    using Any_Of by (auto simp: normalizeApprovers_def result_simps)
  from uniqueText_idem [OF q(1)] uniqueText_idem [OF q(2)] q show ?thesis by (auto simp: normalizeApprovers_def)
next
  case (Quorum ps rs n)
  assume "normalizeApprovers a i = Inr b"
  then obtain qs ts where q: "uniqueText ps = Inr qs" "uniqueText rs = Inr ts" "\<not> (qs = [] \<and> ts = [])" "\<not> n < 1"
      "\<not> (length qs > 0 \<and> n > int (length qs) \<and> ts = [])" "b = Quorum qs ts n"
    using Quorum by (auto simp: normalizeApprovers_def result_simps)
  show ?thesis
    unfolding q(6) normalizeApprovers_def approvers.case rbind_Inr_iff throw_if_Inr_iff
    using uniqueText_idem [OF q(1)] uniqueText_idem [OF q(2)] q(3-5) by auto
qed

lemma normalize_limits_idem:
  "normalize_limits js i keys ls = Inr ms \<Longrightarrow> normalize_limits js j keys ms = Inr ms"
proof (induction ls arbitrary: keys ms)
  case (Cons l ls)
  from Cons.prems obtain tz rest where m: "\<not> is_blank (lim_metric l)" "\<not> lim_maximum l < 0" "lim_window l \<in> set budget_windows"
      and tz: "(case lim_timezone l of None \<Rightarrow> Inr None
             | Some z \<Rightarrow> rbind (requiredText z ''budget timezone'') (\<lambda>t. Inr (Some t))) = Inr tz"
      and cal: "\<not> (calendar_window (lim_window l) \<and> tz = None)" "\<not> (\<not> calendar_window (lim_window l) \<and> tz \<noteq> None)"
        "\<not> (case tz of None \<Rightarrow> False | Some z \<Rightarrow> zone_fields js z 0 = None)"
      and key: "limit_key (js_trim (lim_metric l)) (lim_window l) tz \<notin> set keys"
      and rest: "normalize_limits js i (limit_key (js_trim (lim_metric l)) (lim_window l) tz # keys) ls = Inr rest"
      and ms: "ms = \<lparr>lim_metric = js_trim (lim_metric l), lim_maximum = lim_maximum l, lim_window = lim_window l, lim_timezone = tz\<rparr> # rest"
    unfolding normalize_limits.simps rbind_Inr_iff throw_if_Inr_iff Let_def requiredText_Inr by auto
  have "trimmed (js_trim (lim_metric l))" using m(1) by (rule trimmed_trim)
  moreover have "(case tz of None \<Rightarrow> Inr None
             | Some z \<Rightarrow> rbind (requiredText z ''budget timezone'') (\<lambda>t. Inr (Some t))) = Inr tz"
    using tz by (auto simp: result_simps trimmed_trim split: option.splits)
  ultimately show ?case
    unfolding ms normalize_limits.simps Let_def throw_if_Inr_iff rbind_Inr_iff
    using m cal key Cons.IH [OF rest] by auto
qed simp

lemma normalizeEffect_idem: "normalizeEffect js e i = Inr f \<Longrightarrow> normalizeEffect js f j = Inr f"
proof (cases e)
  case (Limit ls)
  assume "normalizeEffect js e i = Inr f"
  then obtain ms where ms: "normalize_limits js i [] ls = Inr ms" "f = Limit ms" "ls \<noteq> []"
    using Limit by (auto simp: normalizeEffect_def result_simps)
  then have "ms \<noteq> []" by (cases ls) (auto simp: result_simps Let_def)
  then show ?thesis using ms normalize_limits_idem [OF ms(1)] by (simp add: normalizeEffect_def)
next
  case (Require_Approval r a)
  assume "normalizeEffect js e i = Inr f"
  then obtain b where b: "normalizeApprovers a i = Inr b" "\<not> is_blank r" "f = Require_Approval (js_trim r) b"
    using Require_Approval by (auto simp: normalizeEffect_def result_simps)
  from normalizeApprovers_idem [OF b(1), of j] b show ?thesis by (simp add: normalizeEffect_def trimmed_trim)
qed (auto simp: normalizeEffect_def result_simps trimmed_trim)

lemma normalize_rules_idem: "normalize_rules js seen rs = Inr ss \<Longrightarrow> normalize_rules js seen ss = Inr ss"
proof (induction rs arbitrary: seen ss)
  case (Cons r rs)
  let ?i = "js_trim (rule_id r)"
  from Cons.prems obtain m e rest where i: "\<not> is_blank (rule_id r)" "?i \<notin> set seen"
      and m: "normalizeMatch (rule_match r) ?i = Inr m" and e: "normalizeEffect js (rule_effect r) ?i = Inr e"
      and rest: "normalize_rules js (?i # seen) rs = Inr rest"
      and ss: "ss = \<lparr>rule_id = ?i, rule_priority = rule_priority r, rule_match = m, rule_effect = e\<rparr> # rest"
    by (auto simp: result_simps)
  from trimmed_trim [OF i(1)] i(2) normalizeMatch_idem [OF m] normalizeEffect_idem [OF e] Cons.IH [OF rest]
  show ?case by (simp add: ss)
qed simp

lemma normalizePolicyContent_idem:
  assumes "normalizePolicyContent js c = Inr d"
  shows "normalizePolicyContent js d = Inr d"
proof -
  from assms obtain rs where rs: "normalize_rules js [] (pc_rules c) = Inr rs" "\<not> is_blank (pc_label c)"
      "\<not> is_blank (pc_description c)"
      "d = \<lparr>pc_label = js_trim (pc_label c), pc_description = js_trim (pc_description c), pc_rules = rs\<rparr>"
    by (auto simp: normalizePolicyContent_def result_simps)
  from normalize_rules_idem [OF rs(1)] rs show ?thesis by (simp add: normalizePolicyContent_def trimmed_trim)
qed

end
