(* ===== verification/Policy_Invariants.thy ===== *)
theory Policy_Invariants
  imports Policy_Normal
begin

text \<open>
  The policy store as a transition system and the invariant of its tables: keys are unique, stored
  content is in normal form, a policy has at most one open draft, its head is a published revision
  of its own, bindings name published revisions, and a retired policy has no active binding.
\<close>

section \<open>The invariant\<close>

definition revision_ok :: "platform \<Rightarrow> policy_rec list \<Rightarrow> revision_rec \<Rightarrow> bool" where
  "revision_ok js ps r \<longleftrightarrow> normalizePolicyContent js (rev_content r) = Inr (rev_content r) \<and> rev_withdrawn r = None
     \<and> rev_digest r = json_digest js (content_json (rev_content r))
     \<and> (\<exists>p \<in> set ps. pol_id p = rev_policy r \<and> pol_workspace p = rev_workspace r)"

definition head_ok :: "revision_rec list \<Rightarrow> policy_rec \<Rightarrow> bool" where
  "head_ok rs p \<longleftrightarrow> (\<forall>c. pol_current p = Some c \<longrightarrow>
     (\<exists>r \<in> set rs. rev_id r = c \<and> rev_policy r = pol_id p \<and> rev_published r \<noteq> None))"

definition binding_ok :: "revision_rec list \<Rightarrow> binding_rec \<Rightarrow> bool" where
  "binding_ok rs b \<longleftrightarrow> (\<exists>r \<in> set rs. rev_id r = bind_revision b \<and> rev_published r \<noteq> None \<and> rev_workspace r = bind_workspace b)"

definition policy_inv :: "platform \<Rightarrow> policy_db \<Rightarrow> bool" where
  "policy_inv js db \<longleftrightarrow>
     distinct (map pol_id (policies db)) \<and> distinct (map rev_id (policy_revisions db))
     \<and> distinct (map (\<lambda>r. (rev_policy r, rev_number r)) (policy_revisions db))
     \<and> distinct (map bind_id (policy_bindings db))
     \<and> distinct (map rev_policy (filter open_draft (policy_revisions db)))
     \<and> (\<forall>r \<in> set (policy_revisions db). revision_ok js (policies db) r)
     \<and> (\<forall>p \<in> set (policies db). head_ok (policy_revisions db) p)
     \<and> (\<forall>b \<in> set (policy_bindings db). binding_ok (policy_revisions db) b)
     \<and> (\<forall>p \<in> set (policies db). pol_status p = Policy_Retired \<longrightarrow> active_bindings_of db (pol_id p) = [])"

definition empty_policy_db :: policy_db where
  "empty_policy_db = \<lparr>policies = [], policy_revisions = [], policy_bindings = [], policy_evaluations = []\<rparr>"

lemma policy_inv_empty: "policy_inv js empty_policy_db"
  by (simp add: policy_inv_def empty_policy_db_def)

subsection \<open>Reading under the invariant\<close>

lemma mapRevision_ok: "revision_ok js ps r \<Longrightarrow> mapRevision js r = Inr r"
  by (simp add: mapRevision_def revision_ok_def)

lemma key_lookup:
  "distinct (map key rs) \<Longrightarrow> row_where (\<lambda>x. key x = i) rs = Some r \<longleftrightarrow> r \<in> set rs \<and> key r = i"
  using row_where_key [of key rs r] by (auto dest: row_where_SomeD)

lemma requireRevision_iff:
  assumes "distinct (map rev_id (policy_revisions db))" and "\<forall>r \<in> set (policy_revisions db). \<exists>ps. revision_ok js ps r"
  shows "requireRevision js db i = Inr r \<longleftrightarrow> r \<in> set (policy_revisions db) \<and> rev_id r = i"
proof -
  have m: "mapRevision js x = Inr x" if "x \<in> set (policy_revisions db)" for x
    using assms(2) that mapRevision_ok by blast
  show ?thesis
  proof (cases "row_where (\<lambda>r. rev_id r = i) (policy_revisions db)")
    case None
    then have "\<forall>r \<in> set (policy_revisions db). rev_id r \<noteq> i" by (simp add: row_where_None_iff)
    then show ?thesis using None by (auto simp: requireRevision_def getRevision_def)
  next
    case (Some x)
    then have x: "x \<in> set (policy_revisions db) \<and> rev_id x = i" by (rule row_where_SomeD)
    then show ?thesis using Some m key_lookup [OF assms(1), of i r] by (auto simp: requireRevision_def getRevision_def)
  qed
qed

lemma requirePolicy_iff:
  "distinct (map pol_id (policies db)) \<Longrightarrow> requirePolicy db i = Inr p \<longleftrightarrow> p \<in> set (policies db) \<and> pol_id p = i"
  using key_lookup [of pol_id "policies db" i p] by (auto simp: requirePolicy_def getPolicy_def split: option.splits)

lemma policy_inv_reads:
  assumes "policy_inv js db"
  shows "requirePolicy db i = Inr p \<longleftrightarrow> p \<in> set (policies db) \<and> pol_id p = i"
    and "requireRevision js db j = Inr r \<longleftrightarrow> r \<in> set (policy_revisions db) \<and> rev_id r = j"
    and "requirePolicyForWorkspace db i w = Inr p \<longleftrightarrow> p \<in> set (policies db) \<and> pol_id p = i \<and> pol_workspace p = w"
    and "requireRevisionForWorkspace js db j w = Inr r \<longleftrightarrow> r \<in> set (policy_revisions db) \<and> rev_id r = j \<and> rev_workspace r = w"
proof -
  show 1: "requirePolicy db i = Inr p \<longleftrightarrow> p \<in> set (policies db) \<and> pol_id p = i" for i p
    using assms by (intro requirePolicy_iff) (simp add: policy_inv_def)
  show 2: "requireRevision js db j = Inr r \<longleftrightarrow> r \<in> set (policy_revisions db) \<and> rev_id r = j" for j r
    using assms by (intro requireRevision_iff) (auto simp: policy_inv_def)
  show "requirePolicyForWorkspace db i w = Inr p \<longleftrightarrow> p \<in> set (policies db) \<and> pol_id p = i \<and> pol_workspace p = w"
    by (auto simp: requirePolicyForWorkspace_def result_simps 1)
  show "requireRevisionForWorkspace js db j w = Inr r \<longleftrightarrow> r \<in> set (policy_revisions db) \<and> rev_id r = j \<and> rev_workspace r = w"
    by (auto simp: requireRevisionForWorkspace_def result_simps 2)
qed

lemma listRevisions_total:
  assumes "policy_inv js db"
  shows "\<exists>rs. listRevisions js db i = Inr rs \<and> set rs = {r \<in> set (policy_revisions db). rev_policy r = i}"
proof -
  let ?rs = "js_sort (\<lambda>l r. binary_compare (rev_number r) (rev_number l)) (filter (\<lambda>r. rev_policy r = i) (policy_revisions db))"
  have "mapRevision js r = Inr r" if "r \<in> set ?rs" for r
    using assms that mapRevision_ok by (auto simp: policy_inv_def)
  then have "listRevisions js db i = Inr ?rs" unfolding listRevisions_def by (intro rmapM_fixed)
  then show ?thesis by simp
qed

section \<open>What each operation writes\<close>

definition draft_of ::
  "platform \<Rightarrow> string \<Rightarrow> string \<Rightarrow> string \<Rightarrow> string \<Rightarrow> int \<Rightarrow> string option \<Rightarrow> policy_content \<Rightarrow> string \<Rightarrow> string \<Rightarrow> revision_rec" where
  "draft_of js fresh policyId w category n based content who created = \<lparr>rev_id = fresh, rev_policy = policyId, rev_workspace = w,
     rev_category = category, rev_number = n, rev_based_on = based, rev_digest = json_digest js (content_json content), rev_content = content,
     rev_created_by = who, rev_created_at = created, rev_published = None, rev_withdrawn = None\<rparr>"

lemma insertRevisionD:
  assumes "insertRevision js fresh policyId w category n based content who created db = Inr (r, db')"
    and "normalizePolicyContent js content = Inr content"
  shows "db' = db\<lparr>policy_revisions := policy_revisions db @ [draft_of js fresh policyId w category n based content who created]\<rparr>"
    and "fresh \<notin> rev_id ` set (policy_revisions db)" and "(policyId, n) \<notin> (\<lambda>r. (rev_policy r, rev_number r)) ` set (policy_revisions db)"
  using assms by (auto simp: insertRevision_def policyContentDigest_def result_simps Let_def draft_of_def)

definition new_policy :: "string \<Rightarrow> string \<Rightarrow> string \<Rightarrow> string \<Rightarrow> policy_rec" where
  "new_policy i w category now = \<lparr>pol_id = i, pol_workspace = w, pol_category = category,
     pol_status = Policy_Active, pol_current = None, pol_created_at = now, pol_updated_at = now, pol_retired_at = None\<rparr>"

lemma createPolicyE:
  assumes "createPolicy js now f1 f2 input db = Inr (res, db')"
  obtains i w content who where "i \<notin> pol_id ` set (policies db)" "normalizePolicyContent js content = Inr content"
    "''policy_revision_'' @ f2 \<notin> rev_id ` set (policy_revisions db)" "(i, 1) \<notin> (\<lambda>r. (rev_policy r, rev_number r)) ` set (policy_revisions db)"
    "db' = db\<lparr>policies := policies db @ [new_policy i w (cp_category input) now],
       policy_revisions := policy_revisions db
         @ [draft_of js (''policy_revision_'' @ f2) i w (cp_category input) 1 None content who now]\<rparr>"
proof -
  from assms obtain i w content who draft db2 p where
      c: "normalizePolicyContent js (cp_content input) = Inr content" and i: "\<not> (\<exists>p \<in> set (policies db). pol_id p = i)"
      and ins: "insertRevision js (''policy_revision_'' @ f2) i w (cp_category input) 1 None content who now
        (db\<lparr>policies := policies db @ [new_policy i w (cp_category input) now]\<rparr>) = Inr (draft, db2)" and db': "db' = db2"
    unfolding createPolicy_def rbind_Inr_iff throw_if_Inr_iff Let_def new_policy_def
    by (auto simp: rbind_Inr_iff split: prod.splits)
  have c': "normalizePolicyContent js content = Inr content" using normalizePolicyContent_idem [OF c] .
  from that [OF _ c', of i] i insertRevisionD [OF ins c'] db' show thesis by auto
qed

lemma createDraftE:
  assumes "createDraft js now fresh input db = Inr (r, db')" and inv: "policy_inv js db"
  obtains p content who where "p \<in> set (policies db)" "pol_status p = Policy_Active" "pol_current p = cd_based_on input"
    "\<forall>r \<in> set (policy_revisions db). rev_policy r = pol_id p \<longrightarrow> \<not> open_draft r"
    "normalizePolicyContent js content = Inr content"
    "''policy_revision_'' @ fresh \<notin> rev_id ` set (policy_revisions db)"
    "(pol_id p, next_revision db (pol_id p)) \<notin> (\<lambda>r. (rev_policy r, rev_number r)) ` set (policy_revisions db)"
    "db' = db\<lparr>policy_revisions := policy_revisions db @ [draft_of js (''policy_revision_'' @ fresh) (pol_id p) (pol_workspace p)
        (pol_category p) (next_revision db (pol_id p)) (cd_based_on input) content who now]\<rparr>"
proof -
  from assms(1) obtain p revs where p: "requirePolicyForWorkspace db (cd_policy_id input) (cd_workspace input) = Inr p"
      "pol_status p = Policy_Active" "pol_current p = cd_based_on input"
      and revs: "listRevisions js db (pol_id p) = Inr revs" and none: "find open_draft revs = None"
    unfolding createDraft_def rbind_Inr_iff throw_if_Inr_iff by (auto split: option.splits)
  from assms(1) p revs none obtain content who where c: "normalizePolicyContent js (cd_content input) = Inr content"
      and ins: "insertRevision js (''policy_revision_'' @ fresh) (pol_id p) (pol_workspace p) (pol_category p)
            (next_revision db (pol_id p)) (cd_based_on input) content who now db = Inr (r, db')"
    unfolding createDraft_def by (auto simp: result_simps)
  have c': "normalizePolicyContent js content = Inr content" using normalizePolicyContent_idem [OF c] .
  have "\<forall>r \<in> set (policy_revisions db). rev_policy r = pol_id p \<longrightarrow> \<not> open_draft r"
    using listRevisions_total [OF inv, of "pol_id p"] revs none by (auto simp: find_None_iff)
  moreover have "p \<in> set (policies db)" using p(1) policy_inv_reads [OF inv] by simp
  ultimately show thesis using that [of p content who] p(2,3) c' insertRevisionD [OF ins c'] by simp
qed

lemma replaceDraftE:
  assumes "replaceDraft js input db = Inr (res, db')" and inv: "policy_inv js db"
  obtains r content where "r \<in> set (policy_revisions db)" "open_draft r" "normalizePolicyContent js content = Inr content"
    "rev_digest r = rd_expected_digest input"
    "db' = db\<lparr>policy_revisions := set_where (\<lambda>x. rev_id x = rev_id r \<and> open_draft x \<and> rev_digest x = rd_expected_digest input)
       (\<lambda>x. x\<lparr>rev_content := content, rev_digest := json_digest js (content_json content)\<rparr>) (policy_revisions db)\<rparr>"
proof -
  from assms(1) obtain r content where r: "requireRevisionForWorkspace js db (rd_revision_id input) (rd_workspace input) = Inr r"
      "open_draft r" "rev_digest r = rd_expected_digest input" and c: "normalizePolicyContent js (rd_content input) = Inr content"
    unfolding replaceDraft_def rbind_Inr_iff throw_if_Inr_iff by auto
  have c': "normalizePolicyContent js content = Inr content" using normalizePolicyContent_idem [OF c] .
  have db': "db' = db\<lparr>policy_revisions := set_where (\<lambda>x. rev_id x = rev_id r \<and> open_draft x \<and> rev_digest x = rd_expected_digest input)
       (\<lambda>x. x\<lparr>rev_content := content, rev_digest := json_digest js (content_json content)\<rparr>) (policy_revisions db)\<rparr>"
    using assms(1) r c c' unfolding replaceDraft_def rbind_Inr_iff throw_if_Inr_iff Let_def policyContentDigest_def by auto
  show thesis by (rule that [OF _ r(2) c' r(3) db']) (use r(1) policy_inv_reads [OF inv] in simp)
qed

lemma publishRevisionE:
  assumes "publishRevision js now input db = Inr (res, db')" and inv: "policy_inv js db"
  obtains r p where "r \<in> set (policy_revisions db)" "open_draft r" "p \<in> set (policies db)" "pol_id p = rev_policy r"
    "pol_status p = Policy_Active" "rev_based_on r = pol_current p" "pol_current p = pb_expected input"
    "db' = db\<lparr>policy_revisions := set_where (\<lambda>x. rev_id x = rev_id r \<and> open_draft x) (\<lambda>x. x\<lparr>rev_published := Some now\<rparr>) (policy_revisions db),
       policies := set_where (\<lambda>x. pol_id x = pol_id p \<and> pol_workspace x = pol_workspace p \<and> pol_current x = pb_expected input)
         (\<lambda>x. x\<lparr>pol_current := Some (rev_id r), pol_updated_at := now\<rparr>) (policies db)\<rparr>"
proof -
  from assms(1) obtain r p where r: "requireRevisionForWorkspace js db (pb_revision_id input) (pb_workspace input) = Inr r" "open_draft r"
      and p: "requirePolicyForWorkspace db (rev_policy r) (pb_workspace input) = Inr p" "pol_status p = Policy_Active"
      and e: "rev_based_on r = pb_expected input" "pol_current p = pb_expected input"
    unfolding publishRevision_def rbind_Inr_iff throw_if_Inr_iff by auto
  have db': "db' = db\<lparr>policy_revisions := set_where (\<lambda>x. rev_id x = rev_id r \<and> open_draft x) (\<lambda>x. x\<lparr>rev_published := Some now\<rparr>) (policy_revisions db),
       policies := set_where (\<lambda>x. pol_id x = pol_id p \<and> pol_workspace x = pol_workspace p \<and> pol_current x = pb_expected input)
         (\<lambda>x. x\<lparr>pol_current := Some (rev_id r), pol_updated_at := now\<rparr>) (policies db)\<rparr>"
    using assms(1) r p unfolding publishRevision_def rbind_Inr_iff throw_if_Inr_iff Let_def by auto
  show thesis using that [OF _ r(2) _ _ p(2) _ e(2) db'] r(1) p(1) e policy_inv_reads [OF inv] by simp
qed

lemma rollbackE:
  assumes "rollback js now input db = Inr (res, db')" and inv: "policy_inv js db"
  obtains r p where "r \<in> set (policy_revisions db)" "rev_published r \<noteq> None" "p \<in> set (policies db)" "rev_policy r = pol_id p"
    "db' = db\<lparr>policies := set_where (\<lambda>x. pol_id x = pol_id p \<and> pol_workspace x = pol_workspace p \<and> pol_current x = Some (rb_expected input))
       (\<lambda>x. x\<lparr>pol_current := Some (rev_id r), pol_updated_at := now\<rparr>) (policies db)\<rparr>"
proof -
  from assms(1) obtain p r where p: "requirePolicyForWorkspace db (rb_policy_id input) (rb_workspace input) = Inr p"
      and r: "requireRevisionForWorkspace js db (rb_target input) (rb_workspace input) = Inr r"
      and t: "\<not> (rev_policy r \<noteq> pol_id p \<or> rev_published r = None \<or> rev_withdrawn r \<noteq> None)"
    unfolding rollback_def rbind_Inr_iff throw_if_Inr_iff by blast
  have db': "db' = db\<lparr>policies := set_where (\<lambda>x. pol_id x = pol_id p \<and> pol_workspace x = pol_workspace p \<and> pol_current x = Some (rb_expected input))
       (\<lambda>x. x\<lparr>pol_current := Some (rev_id r), pol_updated_at := now\<rparr>) (policies db)\<rparr>"
    using assms(1) r p unfolding rollback_def rbind_Inr_iff throw_if_Inr_iff Let_def by auto
  show thesis using that [OF _ _ _ _ db'] t r p policy_inv_reads [OF inv] by simp
qed

lemma bindRevisionE:
  assumes "bindRevision js now fresh input db = Inr (res, db')" and inv: "policy_inv js db"
  obtains b r p where "r \<in> set (policy_revisions db)" "rev_published r \<noteq> None" "p \<in> set (policies db)" "pol_id p = rev_policy r"
    "pol_status p = Policy_Active" "bind_id b \<notin> bind_id ` set (policy_bindings db)" "bind_revision b = rev_id r"
    "bind_workspace b = rev_workspace r" "bind_status b = Binding_Active"
    "db' = db\<lparr>policy_bindings := policy_bindings db @ [b]\<rparr>"
proof -
  from assms(1) obtain r p subject i who where r: "requireRevisionForWorkspace js db (bi_revision_id input) (bi_workspace input) = Inr r"
      and pub: "\<not> (rev_published r = None \<or> rev_withdrawn r \<noteq> None)"
      and p: "requirePolicyForWorkspace db (rev_policy r) (bi_workspace input) = Inr p" "pol_status p = Policy_Active"
      and fresh: "\<not> (\<exists>b \<in> set (policy_bindings db). bind_id b = i)"
      and db': "db' = db\<lparr>policy_bindings := policy_bindings db @ [\<lparr>bind_id = i, bind_workspace = bi_workspace input,
                  bind_revision = rev_id r, bind_subject = subject, bind_status = Binding_Active, bind_by = who,
                  bind_at = now, bind_revoked_by = None, bind_revoked_at = None, bind_reason = None\<rparr>]\<rparr>"
    unfolding bindRevision_def rbind_Inr_iff throw_if_Inr_iff Let_def by auto
  show thesis
    by (rule that [OF _ _ _ _ p(2) _ _ _ _ db']) (use r p(1) pub fresh policy_inv_reads [OF inv] in auto)
qed

lemma revokeBindingE:
  assumes "revokeBinding js now input db = Inr (res, db')"
  obtains (same) "db' = db"
  | (revoked) b :: binding_rec and who reason where "bind_status b = Binding_Active"
      "db' = db\<lparr>policy_bindings := set_where (\<lambda>x. bind_id x = bind_id b \<and> bind_workspace x = bind_workspace b \<and> bind_status x = Binding_Active)
         (\<lambda>x. x\<lparr>bind_status := Binding_Revoked, bind_revoked_by := Some who, bind_revoked_at := Some now, bind_reason := Some reason\<rparr>)
         (policy_bindings db)\<rparr>"
proof -
  from assms obtain b where b: "requireBindingForWorkspace db (rv_binding_id input) (rv_workspace input) = Inr b"
    unfolding revokeBinding_def rbind_Inr_iff by blast
  show thesis
  proof (cases "bind_status b")
    case Binding_Revoked
    with assms b same show thesis by (simp add: revokeBinding_def)
  next
    case Binding_Active
    with assms b obtain who reason where "db' = db\<lparr>policy_bindings := set_where (\<lambda>x. bind_id x = bind_id b
          \<and> bind_workspace x = bind_workspace b \<and> bind_status x = Binding_Active) (\<lambda>x. x\<lparr>bind_status := Binding_Revoked,
          bind_revoked_by := Some who, bind_revoked_at := Some now, bind_reason := Some reason\<rparr>) (policy_bindings db)\<rparr>"
      unfolding revokeBinding_def by (auto simp: rbind_Inr_iff Let_def split: if_splits)
    with Binding_Active show thesis using revoked [of b reason who] by blast
  qed
qed

definition set_status :: "policy_status \<Rightarrow> policy_rec \<Rightarrow> policy_db \<Rightarrow> (policy_rec \<Rightarrow> policy_rec) \<Rightarrow> policy_db" where
  "set_status from p db f = db\<lparr>policies := set_where
     (\<lambda>x. pol_id x = pol_id p \<and> pol_workspace x = pol_workspace p \<and> pol_status x = from) f (policies db)\<rparr>"

lemma retirePolicyE:
  assumes "retirePolicy now w i db = Inr (res, db')"
  obtains (same) "db' = db"
  | (retired) p where "active_bindings_of db (pol_id p) = []"
      "db' = set_status Policy_Active p db (\<lambda>x. x\<lparr>pol_status := Policy_Retired, pol_retired_at := Some now, pol_updated_at := now\<rparr>)"
proof -
  from assms obtain p where p: "requirePolicyForWorkspace db i w = Inr p"
    unfolding retirePolicy_def rbind_Inr_iff by blast
  show thesis
  proof (cases "pol_status p")
    case Policy_Retired
    with assms p same show thesis by (simp add: retirePolicy_def)
  next
    case Policy_Active
    with assms p retired show thesis by (auto simp: retirePolicy_def result_simps Let_def set_status_def)
  qed
qed

lemma reactivatePolicyE:
  assumes "reactivatePolicy now w i db = Inr (res, db')"
  obtains (same) "db' = db"
  | (reactivated) p where
      "db' = set_status Policy_Retired p db (\<lambda>x. x\<lparr>pol_status := Policy_Active, pol_retired_at := None, pol_updated_at := now\<rparr>)"
proof -
  from assms obtain p where p: "requirePolicyForWorkspace db i w = Inr p"
    unfolding reactivatePolicy_def rbind_Inr_iff by blast
  show thesis
  proof (cases "pol_status p")
    case Policy_Active
    with assms p same show thesis by (simp add: reactivatePolicy_def)
  next
    case Policy_Retired
    with assms p reactivated show thesis by (auto simp: reactivatePolicy_def result_simps Let_def set_status_def)
  qed
qed

lemma evaluateD: "evaluate js now fresh input opts db = Inr (ev, db') \<Longrightarrow> db' = db\<lparr>policy_evaluations := policy_evaluations db @ [ev]\<rparr>"
  unfolding evaluate_def rbind_Inr_iff throw_if_Inr_iff Let_def by auto

section \<open>The transition system\<close>

inductive policy_step :: "platform \<Rightarrow> policy_db \<Rightarrow> policy_db \<Rightarrow> bool" for js where
  create: "createPolicy js now f1 f2 ci db = Inr (res, db') \<Longrightarrow> policy_step js db db'"
| draft: "createDraft js now f1 di db = Inr (r, db') \<Longrightarrow> policy_step js db db'"
| replace: "replaceDraft js ri db = Inr (r, db') \<Longrightarrow> policy_step js db db'"
| publish: "publishRevision js now pbi db = Inr (res, db') \<Longrightarrow> policy_step js db db'"
| roll: "rollback js now oi db = Inr (p, db') \<Longrightarrow> policy_step js db db'"
| bind: "bindRevision js now f1 bi db = Inr (b, db') \<Longrightarrow> policy_step js db db'"
| unbind: "revokeBinding js now ui db = Inr (b, db') \<Longrightarrow> policy_step js db db'"
| retire: "retirePolicy now w i db = Inr (p, db') \<Longrightarrow> policy_step js db db'"
| reactivate: "reactivatePolicy now w i db = Inr (p, db') \<Longrightarrow> policy_step js db db'"
| eval: "evaluate js now f1 facts opts db = Inr (ev, db') \<Longrightarrow> policy_step js db db'"

inductive policy_reachable :: "platform \<Rightarrow> policy_db \<Rightarrow> bool" for js where
  start: "policy_reachable js empty_policy_db"
| step: "policy_reachable js db \<Longrightarrow> policy_step js db db' \<Longrightarrow> policy_reachable js db'"

subsection \<open>Preservation\<close>

lemma revision_ok_policies:
  "revision_ok js ps r \<Longrightarrow> (\<And>p. p \<in> set ps \<Longrightarrow> \<exists>q \<in> set qs. pol_id q = pol_id p \<and> pol_workspace q = pol_workspace p) \<Longrightarrow> revision_ok js qs r"
  unfolding revision_ok_def by metis

lemma head_ok_mono:
  "head_ok rs p \<Longrightarrow> (\<And>r. r \<in> set rs \<Longrightarrow> rev_published r \<noteq> None \<Longrightarrow> \<exists>r' \<in> set rs'. rev_id r' = rev_id r \<and> rev_policy r' = rev_policy r
      \<and> rev_published r' \<noteq> None) \<Longrightarrow> head_ok rs' p"
  unfolding head_ok_def by metis

lemma head_ok_map:
  assumes "head_ok rs p" and "\<And>r. rev_id (g r) = rev_id r" "\<And>r. rev_policy (g r) = rev_policy r"
    and "\<And>r. rev_published r \<noteq> None \<Longrightarrow> rev_published (g r) \<noteq> None"
  shows "head_ok (map g rs) p"
proof (rule head_ok_mono [OF assms(1)])
  fix r assume "r \<in> set rs" "rev_published r \<noteq> None"
  then have "g r \<in> set (map g rs) \<and> rev_id (g r) = rev_id r \<and> rev_policy (g r) = rev_policy r \<and> rev_published (g r) \<noteq> None"
    using assms by simp
  then show "\<exists>r' \<in> set (map g rs). rev_id r' = rev_id r \<and> rev_policy r' = rev_policy r \<and> rev_published r' \<noteq> None" by blast
qed

lemma binding_ok_mono:
  "binding_ok rs b \<Longrightarrow> (\<And>r. r \<in> set rs \<Longrightarrow> rev_published r \<noteq> None \<Longrightarrow> \<exists>r' \<in> set rs'. rev_id r' = rev_id r \<and> rev_workspace r' = rev_workspace r
      \<and> rev_published r' \<noteq> None) \<Longrightarrow> binding_ok rs' b"
  unfolding binding_ok_def by metis

lemma head_ok_append: "head_ok rs p \<Longrightarrow> head_ok (rs @ [r]) p"
  by (auto simp: head_ok_def)

lemma binding_ok_append: "binding_ok rs b \<Longrightarrow> binding_ok (rs @ [r]) b"
  by (auto simp: binding_ok_def)

lemma active_bindings_keys:
  assumes "map (\<lambda>r. (rev_id r, rev_policy r)) (policy_revisions db') = map (\<lambda>r. (rev_id r, rev_policy r)) (policy_revisions db)"
    and "policy_bindings db' = policy_bindings db"
  shows "active_bindings_of db' i = active_bindings_of db i"
proof -
  have "list_ex (\<lambda>r. rev_id r = b \<and> rev_policy r = i) rs \<longleftrightarrow> (b, i) \<in> set (map (\<lambda>r. (rev_id r, rev_policy r)) rs)" for b and rs :: "revision_rec list"
    by (auto simp: list_ex_iff)
  then show ?thesis using assms by (simp only: active_bindings_of_def)
qed

lemma active_bindings_new_revision:
  assumes "\<forall>b \<in> set (policy_bindings db). binding_ok (policy_revisions db) b" and "rev_id r \<notin> rev_id ` set (policy_revisions db)"
    and "policy_revisions db' = policy_revisions db @ [r]" and "policy_bindings db' = policy_bindings db"
  shows "active_bindings_of db' i = active_bindings_of db i"
proof -
  have "rev_id r \<noteq> bind_revision b" if "b \<in> set (policy_bindings db)" for b
    using assms(1,2) that by (force simp: binding_ok_def)
  then show ?thesis using assms(3,4) by (auto simp: active_bindings_of_def intro!: filter_cong)
qed

lemma draft_of_simps [simp]:
  "rev_id (draft_of js f p w c n b ct who t) = f" "rev_policy (draft_of js f p w c n b ct who t) = p"
  "rev_number (draft_of js f p w c n b ct who t) = n" "rev_published (draft_of js f p w c n b ct who t) = None"
  "rev_workspace (draft_of js f p w c n b ct who t) = w" "open_draft (draft_of js f p w c n b ct who t)"
  "normalizePolicyContent js ct = Inr ct \<Longrightarrow> revision_ok js ps (draft_of js f p w c n b ct who t)
    \<longleftrightarrow> (\<exists>q \<in> set ps. pol_id q = p \<and> pol_workspace q = w)"
  by (auto simp: draft_of_def open_draft_def revision_ok_def)

lemma inv_add_revision:
  assumes inv: "policy_inv js db" and r: "rev_id r \<notin> rev_id ` set (policy_revisions db)"
    "(rev_policy r, rev_number r) \<notin> (\<lambda>r. (rev_policy r, rev_number r)) ` set (policy_revisions db)"
    and ok: "revision_ok js ps r" and no_draft: "\<forall>x \<in> set (policy_revisions db). rev_policy x = rev_policy r \<longrightarrow> \<not> open_draft x"
    and ps: "ps = policies db \<or> (\<exists>p. ps = policies db @ [p] \<and> pol_id p \<notin> pol_id ` set (policies db) \<and> pol_current p = None \<and> pol_status p = Policy_Active)"
  shows "policy_inv js (db\<lparr>policies := ps, policy_revisions := policy_revisions db @ [r]\<rparr>)"
proof -
  let ?db = "db\<lparr>policies := ps, policy_revisions := policy_revisions db @ [r]\<rparr>"
  have bok: "\<forall>b \<in> set (policy_bindings db). binding_ok (policy_revisions db) b" using inv by (simp add: policy_inv_def)
  have ab: "active_bindings_of ?db i = active_bindings_of db i" for i
    by (rule active_bindings_new_revision [OF bok r(1)]) simp_all
  have "revision_ok js ps x" if "x \<in> set (policy_revisions db)" for x
    by (rule revision_ok_policies [of js "policies db"]) (use inv that ps in \<open>auto simp: policy_inv_def\<close>)
  moreover have "head_ok (policy_revisions db @ [r]) p" if "p \<in> set ps" for p
  proof (cases "p \<in> set (policies db)")
    case True
    then show ?thesis using inv by (simp add: policy_inv_def head_ok_append)
  next
    case False
    then show ?thesis using that ps by (auto simp: head_ok_def)
  qed
  moreover have "binding_ok (policy_revisions db @ [r]) b" if "b \<in> set (policy_bindings db)" for b
    using bok that by (simp add: binding_ok_append)
  moreover have "active_bindings_of db (pol_id p) = []" if "p \<in> set ps" "pol_status p = Policy_Retired" for p
    using inv ps that by (auto simp: policy_inv_def)
  moreover have "distinct (map pol_id ps)" using inv ps by (auto simp: policy_inv_def)
  moreover have "distinct (map rev_policy (filter open_draft (policy_revisions db @ [r])))"
    using inv no_draft by (auto simp: policy_inv_def)
  moreover have "distinct (map (\<lambda>r. (rev_policy r, rev_number r)) (policy_revisions db @ [r]))"
    "distinct (map rev_id (policy_revisions db @ [r]))" "distinct (map bind_id (policy_bindings db))"
    using inv r by (simp_all add: policy_inv_def)
  ultimately show ?thesis unfolding policy_inv_def ab using ok by simp
qed

text \<open>Updates in place: replacing, publishing, rolling back, retiring and reactivating.\<close>

lemma inv_update:
  assumes inv: "policy_inv js db"
    and keys: "\<And>r. rev_id (g r) = rev_id r \<and> rev_policy (g r) = rev_policy r \<and> rev_number (g r) = rev_number r \<and> rev_workspace (g r) = rev_workspace r"
    and pub: "\<And>r. rev_published r \<noteq> None \<Longrightarrow> rev_published (g r) \<noteq> None" and opn: "\<And>r. open_draft (g r) \<Longrightarrow> open_draft r"
    and ok: "\<And>r. r \<in> set (policy_revisions db) \<Longrightarrow> revision_ok js (policies db) (g r)"
    and hk: "\<And>p. pol_id (h p) = pol_id p \<and> pol_workspace (h p) = pol_workspace p"
    and hh: "\<And>p. p \<in> set (policies db) \<Longrightarrow> head_ok (map g (policy_revisions db)) (h p)"
    and ret: "\<And>p. p \<in> set (policies db) \<Longrightarrow> pol_status (h p) = Policy_Retired \<Longrightarrow> active_bindings_of db (pol_id p) = []"
  shows "policy_inv js (db\<lparr>policies := map h (policies db), policy_revisions := map g (policy_revisions db)\<rparr>)"
proof -
  let ?db = "db\<lparr>policies := map h (policies db), policy_revisions := map g (policy_revisions db)\<rparr>"
  have ab: "active_bindings_of ?db i = active_bindings_of db i" for i
    by (rule active_bindings_keys) (simp_all add: keys)
  have ids: "map pol_id (map h (policies db)) = map pol_id (policies db)" "map rev_id (map g (policy_revisions db)) = map rev_id (policy_revisions db)"
      "map (\<lambda>r. (rev_policy r, rev_number r)) (map g (policy_revisions db)) = map (\<lambda>r. (rev_policy r, rev_number r)) (policy_revisions db)"
    by (simp_all add: hk keys)
  have sub: "filter open_draft (map g rs) = map g (filter (\<lambda>r. open_draft (g r)) rs)" for rs
    by (induction rs) auto
  have two: "filter (\<lambda>r. open_draft (g r)) (filter open_draft rs) = filter (\<lambda>r. open_draft (g r)) rs" for rs
    by (induction rs) (auto dest: opn)
  have "map rev_policy (filter open_draft (map g (policy_revisions db)))
      = map rev_policy (filter (\<lambda>r. open_draft (g r)) (filter open_draft (policy_revisions db)))"
    unfolding sub two by (simp add: keys comp_def)
  then have drafts: "distinct (map rev_policy (filter open_draft (map g (policy_revisions db))))"
    using inv by (simp only: policy_inv_def distinct_map_filter)
  have rok: "\<forall>r \<in> set (map g (policy_revisions db)). revision_ok js (map h (policies db)) r"
  proof
    fix x assume "x \<in> set (map g (policy_revisions db))"
    then obtain r where "r \<in> set (policy_revisions db)" "x = g r" by auto
    then show "revision_ok js (map h (policies db)) x"
      using revision_ok_policies [OF ok [of r], of "map h (policies db)"] hk by force
  qed
  have bok: "\<forall>b \<in> set (policy_bindings db). binding_ok (map g (policy_revisions db)) b"
  proof
    fix b assume "b \<in> set (policy_bindings db)"
    then have "binding_ok (policy_revisions db) b" using inv by (simp add: policy_inv_def)
    then obtain r where "r \<in> set (policy_revisions db)" "rev_id r = bind_revision b" "rev_published r \<noteq> None"
        "rev_workspace r = bind_workspace b" by (auto simp: binding_ok_def)
    then have "g r \<in> set (map g (policy_revisions db)) \<and> rev_id (g r) = bind_revision b \<and> rev_published (g r) \<noteq> None
        \<and> rev_workspace (g r) = bind_workspace b" using keys pub by simp
    then show "binding_ok (map g (policy_revisions db)) b" unfolding binding_ok_def by blast
  qed
  have hok: "\<forall>p \<in> set (map h (policies db)). head_ok (map g (policy_revisions db)) p" using hh by auto
  have rok': "\<forall>p \<in> set (map h (policies db)). pol_status p = Policy_Retired \<longrightarrow> active_bindings_of db (pol_id p) = []"
    using ret hk by auto
  have d: "distinct (map pol_id (map h (policies db)))" "distinct (map rev_id (map g (policy_revisions db)))"
      "distinct (map (\<lambda>r. (rev_policy r, rev_number r)) (map g (policy_revisions db)))" "distinct (map bind_id (policy_bindings db))"
    unfolding ids using inv by (simp_all add: policy_inv_def)
  have sel: "policies ?db = map h (policies db)" "policy_revisions ?db = map g (policy_revisions db)" "policy_bindings ?db = policy_bindings db"
    by simp_all
  show ?thesis unfolding policy_inv_def ab sel
    by (intro conjI d drafts rok hok bok rok')
qed

lemma inv_policies:
  assumes inv: "policy_inv js db" and "db' = db\<lparr>policies := map h (policies db)\<rparr>"
    and "\<And>p. pol_id (h p) = pol_id p \<and> pol_workspace (h p) = pol_workspace p"
    and "\<And>p. p \<in> set (policies db) \<Longrightarrow> head_ok (policy_revisions db) (h p)"
    and "\<And>p. p \<in> set (policies db) \<Longrightarrow> pol_status (h p) = Policy_Retired \<Longrightarrow> active_bindings_of db (pol_id p) = []"
  shows "policy_inv js db'"
  using inv_update [OF inv, of "\<lambda>r. r" h] assms by (simp add: policy_inv_def)

lemma inv_replace:
  assumes "replaceDraft js input db = Inr (res, db')" and inv: "policy_inv js db"
  shows "policy_inv js db'"
  using assms
proof (rule replaceDraftE)
  fix r content
  assume c: "normalizePolicyContent js content = Inr content"
    and db': "db' = db\<lparr>policy_revisions := set_where (\<lambda>x. rev_id x = rev_id r \<and> open_draft x \<and> rev_digest x = rd_expected_digest input)
       (\<lambda>x. x\<lparr>rev_content := content, rev_digest := json_digest js (content_json content)\<rparr>) (policy_revisions db)\<rparr>"
  let ?g = "\<lambda>x. if rev_id x = rev_id r \<and> open_draft x \<and> rev_digest x = rd_expected_digest input
      then x\<lparr>rev_content := content, rev_digest := json_digest js (content_json content)\<rparr> else x"
  have old: "revision_ok js (policies db) x" if "x \<in> set (policy_revisions db)" for x using inv that by (simp add: policy_inv_def)
  have "policy_inv js (db\<lparr>policies := map (\<lambda>p. p) (policies db), policy_revisions := map ?g (policy_revisions db)\<rparr>)"
  proof (rule inv_update [OF inv])
    fix p assume p: "p \<in> set (policies db)"
    then have "head_ok (policy_revisions db) p" using inv by (simp add: policy_inv_def)
    then show "head_ok (map ?g (policy_revisions db)) p" by (rule head_ok_map) auto
    show "pol_status p = Policy_Retired \<Longrightarrow> active_bindings_of db (pol_id p) = []" using inv p by (simp add: policy_inv_def)
  next
    fix x assume "x \<in> set (policy_revisions db)"
    from old [OF this] c show "revision_ok js (policies db) (?g x)" by (auto simp: revision_ok_def)
  qed (auto simp: open_draft_def split: if_splits)
  then show ?thesis by (simp add: db' set_where_def)
qed

lemma inv_publish:
  assumes "publishRevision js now input db = Inr (res, db')" and inv: "policy_inv js db"
  shows "policy_inv js db'"
  using assms
proof (rule publishRevisionE)
  fix r p
  assume r: "r \<in> set (policy_revisions db)" "open_draft r" and p: "p \<in> set (policies db)" "pol_id p = rev_policy r"
    and db': "db' = db\<lparr>policy_revisions := set_where (\<lambda>x. rev_id x = rev_id r \<and> open_draft x) (\<lambda>x. x\<lparr>rev_published := Some now\<rparr>) (policy_revisions db),
       policies := set_where (\<lambda>x. pol_id x = pol_id p \<and> pol_workspace x = pol_workspace p \<and> pol_current x = pb_expected input)
         (\<lambda>x. x\<lparr>pol_current := Some (rev_id r), pol_updated_at := now\<rparr>) (policies db)\<rparr>"
  let ?g = "\<lambda>x. if rev_id x = rev_id r \<and> open_draft x then x\<lparr>rev_published := Some now\<rparr> else x"
  let ?h = "\<lambda>x. if pol_id x = pol_id p \<and> pol_workspace x = pol_workspace p \<and> pol_current x = pb_expected input
      then x\<lparr>pol_current := Some (rev_id r), pol_updated_at := now\<rparr> else x"
  have "policy_inv js (db\<lparr>policies := map ?h (policies db), policy_revisions := map ?g (policy_revisions db)\<rparr>)"
  proof (rule inv_update [OF inv])
    fix q assume q: "q \<in> set (policies db)"
    then have "head_ok (policy_revisions db) q" using inv by (simp add: policy_inv_def)
    then have old: "head_ok (map ?g (policy_revisions db)) q" by (rule head_ok_map) auto
    have "?g r \<in> set (map ?g (policy_revisions db))" using r(1) by simp
    moreover have "rev_id (?g r) = rev_id r" "rev_policy (?g r) = rev_policy r" "rev_published (?g r) \<noteq> None" using r(2) by auto
    ultimately show "head_ok (map ?g (policy_revisions db)) (?h q)" using old p(2)
      unfolding head_ok_def by (cases "pol_id q = pol_id p \<and> pol_workspace q = pol_workspace p \<and> pol_current q = pb_expected input") auto
    show "pol_status (?h q) = Policy_Retired \<Longrightarrow> active_bindings_of db (pol_id q) = []"
      using inv q by (auto simp: policy_inv_def split: if_splits)
  next
    fix x assume "x \<in> set (policy_revisions db)"
    then show "revision_ok js (policies db) (?g x)" using inv by (simp add: policy_inv_def revision_ok_def)
  qed (auto simp: open_draft_def split: if_splits)
  also have "db\<lparr>policies := map ?h (policies db), policy_revisions := map ?g (policy_revisions db)\<rparr> = db'"
    unfolding db' set_where_def by (rule policy_db.equality) simp_all
  finally show ?thesis .
qed

lemma inv_create:
  assumes "createPolicy js now f1 f2 input db = Inr (res, db')" and inv: "policy_inv js db"
  shows "policy_inv js db'"
  using assms(1)
proof (rule createPolicyE)
  fix i w content who
  assume i: "i \<notin> pol_id ` set (policies db)" and c: "normalizePolicyContent js content = Inr content"
    and fresh: "''policy_revision_'' @ f2 \<notin> rev_id ` set (policy_revisions db)" "(i, 1) \<notin> (\<lambda>r. (rev_policy r, rev_number r)) ` set (policy_revisions db)"
    and db': "db' = db\<lparr>policies := policies db @ [new_policy i w (cp_category input) now],
       policy_revisions := policy_revisions db
         @ [draft_of js (''policy_revision_'' @ f2) i w (cp_category input) 1 None content who now]\<rparr>"
  have "rev_policy x \<noteq> i" if "x \<in> set (policy_revisions db)" for x
    using inv i that by (force simp: policy_inv_def revision_ok_def)
  then show ?thesis unfolding db'
    using fresh i c by (intro inv_add_revision [OF inv]) (auto simp: new_policy_def)
qed

lemma inv_draft:
  assumes "createDraft js now fresh input db = Inr (r, db')" and inv: "policy_inv js db"
  shows "policy_inv js db'"
  using assms
proof (rule createDraftE)
  fix p :: policy_rec and content who
  let ?r = "draft_of js (''policy_revision_'' @ fresh) (pol_id p) (pol_workspace p)
        (pol_category p) (next_revision db (pol_id p)) (cd_based_on input) content who now"
  assume p: "p \<in> set (policies db)" and nod: "\<forall>r \<in> set (policy_revisions db). rev_policy r = pol_id p \<longrightarrow> \<not> open_draft r"
    and c: "normalizePolicyContent js content = Inr content"
    and fresh: "''policy_revision_'' @ fresh \<notin> rev_id ` set (policy_revisions db)"
    "(pol_id p, next_revision db (pol_id p)) \<notin> (\<lambda>r. (rev_policy r, rev_number r)) ` set (policy_revisions db)"
    and db': "db' = db\<lparr>policy_revisions := policy_revisions db @ [?r]\<rparr>"
  have "policy_inv js (db\<lparr>policies := policies db, policy_revisions := policy_revisions db @ [?r]\<rparr>)"
    using fresh p nod c by (intro inv_add_revision [OF inv]) auto
  then show ?thesis by (simp add: db')
qed

lemma inv_rollback:
  assumes "rollback js now input db = Inr (res, db')" and inv: "policy_inv js db"
  shows "policy_inv js db'"
  using assms
proof (rule rollbackE)
  fix r p
  assume r: "r \<in> set (policy_revisions db)" "rev_published r \<noteq> None" and p: "rev_policy r = pol_id p"
    and db': "db' = db\<lparr>policies := set_where (\<lambda>x. pol_id x = pol_id p \<and> pol_workspace x = pol_workspace p \<and> pol_current x = Some (rb_expected input))
       (\<lambda>x. x\<lparr>pol_current := Some (rev_id r), pol_updated_at := now\<rparr>) (policies db)\<rparr>"
  show ?thesis
  proof (rule inv_policies [OF inv db' [unfolded set_where_def]])
    fix q assume q: "q \<in> set (policies db)"
    then have "head_ok (policy_revisions db) q" using inv by (simp add: policy_inv_def)
    then show "head_ok (policy_revisions db) (if pol_id q = pol_id p \<and> pol_workspace q = pol_workspace p \<and> pol_current q = Some (rb_expected input)
        then q\<lparr>pol_current := Some (rev_id r), pol_updated_at := now\<rparr> else q)" using r p by (auto simp: head_ok_def)
  qed (use inv in \<open>auto simp: policy_inv_def split: if_splits\<close>)
qed

lemma inv_status:
  assumes inv: "policy_inv js db" and "db' = set_status from p db f"
    and f: "\<And>x. pol_id (f x) = pol_id x \<and> pol_workspace (f x) = pol_workspace x \<and> pol_current (f x) = pol_current x"
    and ret: "\<And>x. pol_status (f x) = Policy_Retired \<Longrightarrow> active_bindings_of db (pol_id p) = []"
  shows "policy_inv js db'"
proof (rule inv_policies [OF inv assms(2) [unfolded set_status_def set_where_def]])
  fix q assume q: "q \<in> set (policies db)"
  then have "head_ok (policy_revisions db) q" using inv by (simp add: policy_inv_def)
  then show "head_ok (policy_revisions db) (if pol_id q = pol_id p \<and> pol_workspace q = pol_workspace p \<and> pol_status q = from then f q else q)"
    using f [of q] by (auto simp: head_ok_def)
next
  fix q assume "q \<in> set (policies db)"
    "pol_status (if pol_id q = pol_id p \<and> pol_workspace q = pol_workspace p \<and> pol_status q = from then f q else q) = Policy_Retired"
  then show "active_bindings_of db (pol_id q) = []" using inv ret by (auto simp: policy_inv_def split: if_splits)
qed (simp add: f)

lemma inv_bindings:
  assumes inv: "policy_inv js db" and db': "db' = db\<lparr>policy_bindings := bs\<rparr>" and "distinct (map bind_id bs)"
    and "\<And>b. b \<in> set bs \<Longrightarrow> binding_ok (policy_revisions db) b"
    and "\<And>p. p \<in> set (policies db) \<Longrightarrow> pol_status p = Policy_Retired \<Longrightarrow> active_bindings_of db' (pol_id p) = []"
  shows "policy_inv js db'"
  using assms by (simp add: policy_inv_def)

lemma inv_bind:
  assumes "bindRevision js now fresh input db = Inr (res, db')" and inv: "policy_inv js db"
  shows "policy_inv js db'"
  using assms
proof (rule bindRevisionE)
  fix b :: binding_rec and r p
  assume r: "r \<in> set (policy_revisions db)" "rev_published r \<noteq> None" and p: "p \<in> set (policies db)" "pol_id p = rev_policy r" "pol_status p = Policy_Active"
    and b: "bind_id b \<notin> bind_id ` set (policy_bindings db)" "bind_revision b = rev_id r" "bind_workspace b = rev_workspace r"
    and db': "db' = db\<lparr>policy_bindings := policy_bindings db @ [b]\<rparr>"
  have inj: "x = y" if "x \<in> set (policies db)" "y \<in> set (policies db)" "pol_id x = pol_id y" for x y
    using inv that by (auto simp: policy_inv_def distinct_map inj_on_def)
  have rinj: "x = y" if "x \<in> set (policy_revisions db)" "y \<in> set (policy_revisions db)" "rev_id x = rev_id y" for x y
    using inv that by (auto simp: policy_inv_def distinct_map inj_on_def)
  show ?thesis
  proof (rule inv_bindings [OF inv db'])
    fix q assume q: "q \<in> set (policies db)" "pol_status q = Policy_Retired"
    then have "pol_id q \<noteq> rev_policy r" using inj [OF q(1) p(1)] p by auto
    moreover have "active_bindings_of db (pol_id q) = []" using inv q by (simp add: policy_inv_def)
    moreover have "\<not> list_ex (\<lambda>x. rev_id x = bind_revision b \<and> rev_policy x = pol_id q) (policy_revisions db)"
    proof
      assume "list_ex (\<lambda>x. rev_id x = bind_revision b \<and> rev_policy x = pol_id q) (policy_revisions db)"
      then obtain x where "x \<in> set (policy_revisions db)" "rev_id x = rev_id r" "rev_policy x = pol_id q"
        using b(2) by (auto simp: list_ex_iff)
      then show False using rinj [of x r] r(1) \<open>pol_id q \<noteq> rev_policy r\<close> by simp
    qed
    ultimately show "active_bindings_of db' (pol_id q) = []" by (simp add: db' active_bindings_of_def)
  qed (use inv r b in \<open>auto simp: policy_inv_def binding_ok_def\<close>)
qed

lemma inv_unbind:
  assumes "revokeBinding js now input db = Inr (res, db')" and inv: "policy_inv js db"
  shows "policy_inv js db'"
  using assms(1)
proof (cases rule: revokeBindingE)
  case same
  then show ?thesis using inv by simp
next
  case (revoked b who reason)
  let ?f = "\<lambda>x. if bind_id x = bind_id b \<and> bind_workspace x = bind_workspace b \<and> bind_status x = Binding_Active
    then x\<lparr>bind_status := Binding_Revoked, bind_revoked_by := Some who, bind_revoked_at := Some now, bind_reason := Some reason\<rparr> else x"
  have db': "db' = db\<lparr>policy_bindings := map ?f (policy_bindings db)\<rparr>" using revoked(2) by (simp add: set_where_def)
  show ?thesis
  proof (rule inv_bindings [OF inv db'])
    have "map bind_id (map ?f (policy_bindings db)) = map bind_id (policy_bindings db)" by simp
    then show "distinct (map bind_id (map ?f (policy_bindings db)))" using inv by (simp only: policy_inv_def)
  next
    fix x assume "x \<in> set (map ?f (policy_bindings db))"
    then obtain y where "y \<in> set (policy_bindings db)" "x = ?f y" by auto
    moreover from this have "binding_ok (policy_revisions db) y" using inv by (simp add: policy_inv_def)
    ultimately show "binding_ok (policy_revisions db) x" by (auto simp: binding_ok_def)
  next
    fix p assume "p \<in> set (policies db)" "pol_status p = Policy_Retired"
    then have "active_bindings_of db (pol_id p) = []" using inv by (simp add: policy_inv_def)
    then show "active_bindings_of db' (pol_id p) = []"
      by (auto simp: db' active_bindings_of_def filter_empty_conv split: if_splits)
  qed
qed

theorem policy_step_inv: "policy_step js db db' \<Longrightarrow> policy_inv js db \<Longrightarrow> policy_inv js db'"
proof (induction rule: policy_step.induct)
  case (retire now w i db p db')
  from retire(1) show ?case
    by (rule retirePolicyE) (use retire(2) in \<open>auto intro: inv_status\<close>)
next
  case (reactivate now w i db p db')
  from reactivate(1) show ?case
    by (rule reactivatePolicyE) (use reactivate(2) in \<open>auto intro: inv_status\<close>)
next
  case (eval now f1 facts opts db ev db')
  then show ?case by (auto dest!: evaluateD simp: policy_inv_def active_bindings_of_def)
qed (auto intro: inv_create inv_draft inv_replace inv_publish inv_rollback inv_bind inv_unbind)

theorem policy_reachable_inv: "policy_reachable js db \<Longrightarrow> policy_inv js db"
  by (induction rule: policy_reachable.induct) (auto simp: policy_inv_empty policy_step_inv)

end
