(* ===== verification/Policy_Properties.thy ===== *)
theory Policy_Properties
  imports Policy_Invariants
begin

text \<open>
  Properties of the policy store: what its tables keep, which revisions stay as they were published,
  when publication succeeds, how an evaluation decides, and which limits it reports.
\<close>

section \<open>A worked run\<close>

definition sample_rule :: policy_rule where
  "sample_rule = \<lparr>rule_id = ''r1'', rule_priority = 1, rule_match = [(''operation_ids'', Texts [''op''])], rule_effect = Deny ''no''\<rparr>"

definition sample_policy :: create_policy where
  "sample_policy = \<lparr>cp_workspace = ''w'', cp_policy_id = Some ''p'', cp_category = ''operation'',
     cp_content = \<lparr>pc_label = '' L'', pc_description = ''D'', pc_rules = [sample_rule]\<rparr>, cp_by = ''ada''\<rparr>"

definition policy1 :: "(policy_rec \<times> revision_rec) \<times> policy_db" where
  "policy1 = projr (createPolicy sample_platform ''t1'' ''x'' ''1'' sample_policy empty_policy_db)"

definition publish_sample :: publish_input where
  "publish_sample = \<lparr>pb_workspace = ''w'', pb_revision_id = ''policy_revision_1'', pb_expected = None\<rparr>"

definition policy2 :: "(policy_rec \<times> revision_rec) \<times> policy_db" where
  "policy2 = projr (publishRevision sample_platform ''t2'' publish_sample (snd policy1))"

definition bind_sample :: bind_input where
  "bind_sample = \<lparr>bi_workspace = ''w'', bi_revision_id = ''policy_revision_1'',
     bi_subject = \<lparr>subj_kind = ''workspace'', subj_id = ''w'', subj_revision = None\<rparr>, bi_by = ''ada'', bi_binding_id = Some ''b''\<rparr>"

definition policy3 :: "binding_rec \<times> policy_db" where
  "policy3 = projr (bindRevision sample_platform ''t3'' ''x'' bind_sample (snd policy2))"

definition sample_policy_facts :: policy_facts where
  "sample_policy_facts = \<lparr>pf_boundary = Workspace ''w'', pf_workspace = Some ''w'', pf_principal = ''ada'', pf_roles = [], pf_evidence = [],
     pf_mode = Interactive, pf_provenance = \<lparr>cause_event_id = None, delivery_ids = [], execution_attempt_id = None,
       node_execution_id = None, prov_scope_execution_id = None\<rparr>, pf_operation = ''op'', pf_target = None,
     pf_effects = \<lparr>eff_mode = ''read'', eff_reversibility = ''none'', eff_external = False, eff_secret_access = ''none'', eff_restore_hold = False\<rparr>,
     pf_scope = None, pf_actor = None, pf_composition = None, pf_placement = None, pf_connector = None, pf_installation = None,
     pf_package = None, pf_data_classes = [], pf_trust = None, pf_tool = None\<rparr>"

definition no_options :: evaluation_options where
  "no_options = \<lparr>direct_revision_ids = [], authority_denial_reason = None\<rparr>"

definition policy4 :: "evaluation_rec \<times> policy_db" where
  "policy4 = projr (evaluate sample_platform ''t4'' ''1'' sample_policy_facts no_options (snd policy3))"

lemma policy1_run: "createPolicy sample_platform ''t1'' ''x'' ''1'' sample_policy empty_policy_db = Inr policy1"
  unfolding policy1_def by (rule returns_projr) code_simp

lemma policy2_run: "publishRevision sample_platform ''t2'' publish_sample (snd policy1) = Inr policy2"
  unfolding policy2_def by (rule returns_projr) code_simp

lemma policy3_run: "bindRevision sample_platform ''t3'' ''x'' bind_sample (snd policy2) = Inr policy3"
  unfolding policy3_def by (rule returns_projr) code_simp

lemma policy4_run: "evaluate sample_platform ''t4'' ''1'' sample_policy_facts no_options (snd policy3) = Inr policy4"
  unfolding policy4_def by (rule returns_projr) code_simp

lemma policy_samples_reachable:
  "policy_reachable sample_platform (snd policy1)" "policy_reachable sample_platform (snd policy2)" "policy_reachable sample_platform (snd policy3)"
proof -
  show 1: "policy_reachable sample_platform (snd policy1)"
    using policy_reachable.step [OF policy_reachable.start policy_step.create] policy1_run by (metis prod.collapse)
  show 2: "policy_reachable sample_platform (snd policy2)"
    using policy_reachable.step [OF 1 policy_step.publish] policy2_run by (metis prod.collapse)
  show "policy_reachable sample_platform (snd policy3)"
    using policy_reachable.step [OF 2 policy_step.bind] policy3_run by (metis prod.collapse)
qed

section \<open>The tables\<close>

text \<open>
  C11: in every reachable store a policy has at most one open draft, its head is one of its own published
  revisions, every binding names a published revision of its Workspace, and a retired policy has no
  active binding.
\<close>

theorem policy_tables_consistent:
  assumes "policy_reachable js db" and "p \<in> set (policies db)"
  shows "(length (filter (\<lambda>r. rev_policy r = pol_id p \<and> open_draft r) (policy_revisions db)) \<le> 1)
    \<and> (\<forall>c. pol_current p = Some c \<longrightarrow> (\<exists>r \<in> set (policy_revisions db). rev_id r = c \<and> rev_policy r = pol_id p \<and> rev_published r \<noteq> None))
    \<and> (pol_status p = Policy_Retired \<longrightarrow> active_bindings_of db (pol_id p) = [])
    \<and> (\<forall>b \<in> set (policy_bindings db). \<exists>r. requireRevision js db (bind_revision b) = Inr r \<and> rev_published r \<noteq> None \<and> rev_workspace r = bind_workspace b)"
proof -
  have inv: "policy_inv js db" using assms(1) by (rule policy_reachable_inv)
  have len: "length (filter (\<lambda>r. rev_policy r = i \<and> open_draft r) rs) \<le> 1"
    if "distinct (map rev_policy (filter open_draft rs))" for i and rs :: "revision_rec list"
  proof -
    have "filter (\<lambda>r. rev_policy r = i) (filter open_draft rs) = filter (\<lambda>r. rev_policy r = i \<and> open_draft r) rs"
      by (simp add: filter_filter conj_commute)
    moreover have "length (filter (\<lambda>r. rev_policy r = i) xs) \<le> 1" if "distinct (map rev_policy xs)" for xs :: "revision_rec list"
      using that by (induction xs) (auto simp: filter_empty_conv rev_image_eqI)
    ultimately show ?thesis using that by metis
  qed
  have 1: "length (filter (\<lambda>r. rev_policy r = pol_id p \<and> open_draft r) (policy_revisions db)) \<le> 1"
    using inv by (intro len) (simp add: policy_inv_def)
  have 2: "\<forall>c. pol_current p = Some c \<longrightarrow> (\<exists>r \<in> set (policy_revisions db). rev_id r = c \<and> rev_policy r = pol_id p \<and> rev_published r \<noteq> None)"
    using inv assms(2) unfolding policy_inv_def head_ok_def by blast
  have 3: "pol_status p = Policy_Retired \<longrightarrow> active_bindings_of db (pol_id p) = []"
    using inv assms(2) unfolding policy_inv_def by blast
  have 4: "\<forall>b \<in> set (policy_bindings db). \<exists>r. requireRevision js db (bind_revision b) = Inr r \<and> rev_published r \<noteq> None \<and> rev_workspace r = bind_workspace b"
    using inv unfolding policy_inv_reads(2) [OF inv] policy_inv_def binding_ok_def by blast
  from 1 2 3 4 show ?thesis by blast
qed

theorem policy_tables_consistent_witness:
  "length (filter (\<lambda>r. rev_policy r = ''p'' \<and> open_draft r) (policy_revisions (snd policy3))) \<le> 1"
proof -
  have "fst (fst policy2) \<in> set (policies (snd policy3))" "pol_id (fst (fst policy2)) = ''p''" by code_simp+
  with policy_tables_consistent [OF policy_samples_reachable(3)] show ?thesis by metis
qed

text \<open>
  C12: a published revision is immutable: no operation of the store changes or removes it, whatever
  happens to its policy.
\<close>

theorem published_revision_immutable:
  assumes "policy_reachable js db" and "policy_step js db db'" and "r \<in> set (policy_revisions db)" and "rev_published r \<noteq> None"
  shows "r \<in> set (policy_revisions db')"
proof -
  have inv: "policy_inv js db" using assms(1) by (rule policy_reachable_inv)
  have keep: "r \<in> set (set_where P f (policy_revisions db))" if "\<not> P r" for P f
    using assms(3) that by (force simp: in_set_where)
  have closed: "\<not> open_draft r" using assms(4) by (simp add: open_draft_def)
  from assms(2) show ?thesis
  proof cases
    case create
    from create(1) show ?thesis by (rule createPolicyE) (use assms(3) in simp)
  next
    case draft
    from draft(1) inv show ?thesis by (rule createDraftE) (use assms(3) in simp)
  next
    case replace
    from replace(1) inv show ?thesis by (rule replaceDraftE) (use closed in \<open>simp add: keep\<close>)
  next
    case publish
    from publish(1) inv show ?thesis by (rule publishRevisionE) (use closed in \<open>simp add: keep\<close>)
  next
    case roll
    from roll(1) inv show ?thesis by (rule rollbackE) (use assms(3) in simp)
  next
    case bind
    from bind(1) inv show ?thesis by (rule bindRevisionE) (use assms(3) in simp)
  next
    case unbind
    from unbind(1) show ?thesis by (rule revokeBindingE) (use assms(3) in simp_all)
  next
    case retire
    from retire(1) show ?thesis by (rule retirePolicyE) (use assms(3) in \<open>simp_all add: set_status_def\<close>)
  next
    case reactivate
    from reactivate(1) show ?thesis by (rule reactivatePolicyE) (use assms(3) in \<open>simp_all add: set_status_def\<close>)
  next
    case eval
    then show ?thesis using assms(3) by (auto dest!: evaluateD)
  qed
qed

theorem published_revision_immutable_witness: "snd (fst policy2) \<in> set (policy_revisions (snd policy3))"
proof (rule published_revision_immutable [OF policy_samples_reachable(2)])
  show "policy_step sample_platform (snd policy2) (snd policy3)" 
    by (rule policy_step.bind [of sample_platform "''t3''" "''x''" bind_sample "snd policy2" "fst policy3"]) (simp add: policy3_run)
  show "snd (fst policy2) \<in> set (policy_revisions (snd policy2))" "rev_published (snd (fst policy2)) \<noteq> None" by code_simp+
qed

section \<open>Publication\<close>

text \<open>
  Publication succeeds exactly when the revision is an open draft of an active policy of the
  Workspace, and both the draft and the caller start from the head the policy still has: a draft
  based on a head that has moved can never be published over the newer one.
\<close>

theorem publication_exact:
  assumes "policy_reachable js db"
  shows "(\<exists>res. publishRevision js now input db = Inr res) \<longleftrightarrow>
    (\<exists>r \<in> set (policy_revisions db). \<exists>p \<in> set (policies db).
       rev_id r = pb_revision_id input \<and> rev_workspace r = pb_workspace input \<and> pol_id p = rev_policy r \<and> pol_workspace p = pb_workspace input
       \<and> pol_status p = Policy_Active \<and> open_draft r \<and> pol_current p = pb_expected input \<and> rev_based_on r = pb_expected input)"
proof -
  have inv: "policy_inv js db" using assms(1) by (rule policy_reachable_inv)
  have one: "length (filter (\<lambda>x. key x = key y \<and> Q x) xs) = 1" if "distinct (map key xs)" "y \<in> set xs" "Q y"
    for key :: "'a \<Rightarrow> string" and Q y xs
    using that by (induction xs) (auto simp: filter_empty_conv rev_image_eqI)
  note reads = policy_inv_reads [OF inv]
  show ?thesis (is "?L \<longleftrightarrow> ?R")
  proof
    assume ?L
    then obtain res where ok: "publishRevision js now input db = Inr res" by blast
    then obtain r p where "requireRevisionForWorkspace js db (pb_revision_id input) (pb_workspace input) = Inr r"
        "requirePolicyForWorkspace db (rev_policy r) (pb_workspace input) = Inr p" "pol_status p = Policy_Active" "open_draft r"
        "pol_current p = pb_expected input" "rev_based_on r = pb_expected input"
      unfolding publishRevision_def rbind_Inr_iff throw_if_Inr_iff by auto
    then show ?R unfolding reads by blast
  next
    assume ?R
    then obtain r p where rp: "r \<in> set (policy_revisions db)" "p \<in> set (policies db)" "rev_id r = pb_revision_id input"
        "rev_workspace r = pb_workspace input" "pol_id p = rev_policy r" "pol_workspace p = pb_workspace input" "pol_status p = Policy_Active"
        "open_draft r" "pol_current p = pb_expected input" "rev_based_on r = pb_expected input" by blast
    define db' where "db' = db\<lparr>policy_revisions := set_where (\<lambda>x. rev_id x = rev_id r \<and> open_draft x) (\<lambda>x. x\<lparr>rev_published := Some now\<rparr>) (policy_revisions db),
       policies := set_where (\<lambda>x. pol_id x = pol_id p \<and> pol_workspace x = pol_workspace p \<and> pol_current x = pb_expected input)
         (\<lambda>x. x\<lparr>pol_current := Some (rev_id r), pol_updated_at := now\<rparr>) (policies db)\<rparr>"
    have get: "requireRevisionForWorkspace js db (pb_revision_id input) (pb_workspace input) = Inr r"
        "requirePolicyForWorkspace db (rev_policy r) (pb_workspace input) = Inr p" unfolding reads using rp by simp_all
    have hits: "length (filter (\<lambda>x. rev_id x = rev_id r \<and> open_draft x) (policy_revisions db)) = 1"
        "length (filter (\<lambda>x. pol_id x = pol_id p \<and> pol_workspace x = pol_workspace p \<and> pol_current x = pb_expected input) (policies db)) = 1"
      subgoal by (rule one) (use inv rp in \<open>simp_all add: policy_inv_def\<close>)
      subgoal by (rule one) (use inv rp in \<open>simp_all add: policy_inv_def\<close>)
      done
    have revs: "mapRevision js (x\<lparr>rev_published := t\<rparr>) = Inr (x\<lparr>rev_published := t\<rparr>)" "mapRevision js x = Inr x"
      if "x \<in> set (policy_revisions db)" for x t
      using inv that by (auto simp: policy_inv_def revision_ok_def mapRevision_def)
    have "\<exists>p'. requirePolicy db' (pol_id p) = Inr p'"
      using rp(2) by (auto simp: requirePolicy_def getPolicy_def db'_def row_where_set_where row_where_None_iff split: option.splits)
    moreover have "\<exists>r'. requireRevision js db' (rev_id r) = Inr r'"
    proof -
      have "row_where (\<lambda>x. rev_id x = rev_id r) (policy_revisions db') \<noteq> None"
        using rp(1) by (auto simp: db'_def row_where_set_where row_where_None_iff)
      then obtain y where y: "row_where (\<lambda>x. rev_id x = rev_id r) (policy_revisions db') = Some y" by blast
      then have "y \<in> set (policy_revisions db')" by (blast dest: row_where_SomeD)
      then have "mapRevision js y = Inr y" using revs by (auto simp: db'_def in_set_where)
      then show ?thesis using y by (simp add: requireRevision_def getRevision_def)
    qed
    ultimately show ?L unfolding publishRevision_def Let_def using rp(7-10) hits by (auto simp: db'_def get)
  qed
qed

theorem publication_exact_witness:
  "\<exists>res. publishRevision sample_platform ''t2'' publish_sample (snd policy1) = Inr res"
proof -
  have "list_ex (\<lambda>r. list_ex (\<lambda>p. rev_id r = pb_revision_id publish_sample \<and> rev_workspace r = pb_workspace publish_sample \<and> pol_id p = rev_policy r
      \<and> pol_workspace p = pb_workspace publish_sample \<and> pol_status p = Policy_Active \<and> open_draft r \<and> pol_current p = pb_expected publish_sample
      \<and> rev_based_on r = pb_expected publish_sample) (policies (snd policy1))) (policy_revisions (snd policy1))"
    by code_simp
  with publication_exact [OF policy_samples_reachable(1), of "''t2''" publish_sample] show ?thesis unfolding list_ex_iff by blast
qed

section \<open>Evaluation\<close>

definition governs :: "policy_db \<Rightarrow> policy_facts \<Rightarrow> evaluation_options \<Rightarrow> revision_rec \<Rightarrow> bool" where
  "governs db f opts r \<longleftrightarrow> rev_id r \<in> set (direct_revision_ids opts)
     \<or> (\<exists>b \<in> set (policy_bindings db). bind_status b = Binding_Active \<and> bind_revision b = rev_id r \<and> Some (bind_workspace b) = pf_workspace f
         \<and> (\<exists>s \<in> set (policySubjectsForFacts f). same_subject (bind_subject b) s))"

definition demands :: "(rule_effect \<Rightarrow> bool) \<Rightarrow> policy_db \<Rightarrow> policy_facts \<Rightarrow> evaluation_options \<Rightarrow> bool" where
  "demands E db f opts \<longleftrightarrow> (\<exists>r \<in> set (policy_revisions db). governs db f opts r
     \<and> (\<exists>rule \<in> set (pc_rules (rev_content r)). matchesRule (rule_match rule) f \<and> E (rule_effect rule)))"

lemma mapBinding_simps [simp]: "bind_id (mapBinding b) = bind_id b" "bind_revision (mapBinding b) = bind_revision b"
  by (simp_all add: mapBinding_def)

lemma normalizeFacts_boundary:
  "normalizeFacts js input = Inr f \<Longrightarrow> case pf_boundary f of Workspace i \<Rightarrow> pf_workspace f = Some i | Host _ \<Rightarrow> pf_workspace f = None"
  unfolding normalizeFacts_def rbind_Inr_iff throw_if_Inr_iff by (elim exE conjE) (auto split: boundary.splits)

lemma live_bound:
  assumes inv: "policy_inv js db" and b: "b \<in> set (policy_bindings db)" "bind_status b = Binding_Active"
  shows "live_revision db (bind_revision b)"
proof -
  from inv b(1) obtain r where r: "r \<in> set (policy_revisions db)" "rev_id r = bind_revision b" "rev_published r \<noteq> None"
    by (auto simp: policy_inv_def binding_ok_def)
  with inv obtain p where p: "p \<in> set (policies db)" "pol_id p = rev_policy r" and w: "rev_withdrawn r = None"
    by (auto simp: policy_inv_def revision_ok_def)
  have "b \<in> set (active_bindings_of db (pol_id p))" using b r p by (auto simp: active_bindings_of_def list_ex_iff)
  then have "pol_status p \<noteq> Policy_Retired" using inv p by (auto simp: policy_inv_def)
  then have "pol_status p = Policy_Active" by (cases "pol_status p") auto
  with r p w show ?thesis unfolding live_revision_def list_ex_iff by blast
qed

lemma applicable_iff:
  assumes "policy_inv js db" and "normalizeFacts js input = Inr f"
  shows "bind_revision ` set (listApplicableBindings db f) = {i. \<exists>b \<in> set (policy_bindings db). bind_status b = Binding_Active
    \<and> bind_revision b = i \<and> Some (bind_workspace b) = pf_workspace f \<and> (\<exists>s \<in> set (policySubjectsForFacts f). same_subject (bind_subject b) s)}"
proof (cases "pf_boundary f")
  case (Workspace w)
  then have w: "pf_workspace f = Some w" using normalizeFacts_boundary [OF assms(2)] by simp
  let ?S = "filter (\<lambda>b. bind_workspace b = w \<and> bind_status b = Binding_Active \<and> live_revision db (bind_revision b)
      \<and> list_ex (\<lambda>s. same_subject (bind_subject b) s) (policySubjectsForFacts f)) (policy_bindings db)"
  have "listApplicableBindings db f = map mapBinding (js_sort binding_compare ?S)"
    using Workspace w by (simp add: listApplicableBindings_def)
  then have "bind_revision ` set (listApplicableBindings db f) = bind_revision ` set ?S" by (simp add: image_image)
  also have "\<dots> = {i. \<exists>b \<in> set (policy_bindings db). bind_status b = Binding_Active \<and> bind_revision b = i \<and> bind_workspace b = w
      \<and> (\<exists>s \<in> set (policySubjectsForFacts f). same_subject (bind_subject b) s)}"
    using live_bound [OF assms(1)] by (auto simp: list_ex_iff)
  finally show ?thesis by (simp add: w)
next
  case (Host h)
  then show ?thesis using normalizeFacts_boundary [OF assms(2)] by (simp add: listApplicableBindings_def)
qed

lemma rmapM_all: "rmapM f xs = Inr ys \<Longrightarrow> x \<in> set xs \<Longrightarrow> \<exists>y \<in> set ys. f x = Inr y"
  by (induction xs arbitrary: ys) (auto simp: rbind_Inr_iff)

lemma direct_revisionD: "direct_revision js db f i = Inr r \<Longrightarrow> requireRevision js db i = Inr r"
  by (auto simp: direct_revision_def rbind_Inr_iff Let_def split: if_splits)

lemma sources_governing:
  assumes inv: "policy_inv js db" and n: "normalizeFacts js input = Inr f"
    and d: "rmapM (direct_revision js db f) (sortedUnique (direct_revision_ids opts)) = Inr direct"
    and b: "rmapM (\<lambda>b. rbind (requireRevision js db (bind_revision b)) (\<lambda>r. Inr (r, Some (bind_id b)))) (listApplicableBindings db f) = Inr bound"
  shows "fst ` set (bound @ map (\<lambda>r. (r, None)) direct) = {r \<in> set (policy_revisions db). governs db f opts r}"
proof -
  have D: "set direct = {r \<in> set (policy_revisions db). rev_id r \<in> set (direct_revision_ids opts)}"
  proof -
    have "list_all2 (\<lambda>i r. direct_revision js db f i = Inr r) (sortedUnique (direct_revision_ids opts)) direct" using d by (simp add: rmapM_Inr_iff)
    then have l: "list_all2 (\<lambda>i r. r \<in> set (policy_revisions db) \<and> rev_id r = i) (sortedUnique (direct_revision_ids opts)) direct"
      by (rule list_all2_mono) (auto dest!: direct_revisionD simp: policy_inv_reads(2) [OF inv])
    have inj: "inj_on rev_id (set (policy_revisions db))" using inv by (simp add: policy_inv_def distinct_map)
    have sub: "set direct \<subseteq> set (policy_revisions db)" and ids: "map rev_id direct = sortedUnique (direct_revision_ids opts)"
      using l by (auto simp: list_all2_conv_all_nth in_set_conv_nth intro: nth_equalityI)
    have "rev_id ` set direct = set (direct_revision_ids opts)" using ids by (metis list.set_map sortedUnique_simps(1))
    then show ?thesis using sub inj_on_image_mem_iff [OF inj _ sub] by blast
  qed
  have B: "fst ` set bound = {r \<in> set (policy_revisions db). rev_id r \<in> bind_revision ` set (listApplicableBindings db f)}"
  proof (intro set_eqI iffI)
    fix r assume "r \<in> fst ` set bound"
    then obtain x where x: "x \<in> set bound" "fst x = r" by blast
    obtain bi where "bi \<in> set (listApplicableBindings db f)" "requireRevision js db (bind_revision bi) = Inr r"
      using rmapM_Inr_mem [OF b x(1)] x(2) by (auto simp: rbind_Inr_iff)
    then show "r \<in> {r \<in> set (policy_revisions db). rev_id r \<in> bind_revision ` set (listApplicableBindings db f)}"
      using policy_inv_reads(2) [OF inv] by blast
  next
    fix r assume "r \<in> {r \<in> set (policy_revisions db). rev_id r \<in> bind_revision ` set (listApplicableBindings db f)}"
    then obtain bi where r: "r \<in> set (policy_revisions db)" "rev_id r = bind_revision bi" and bi: "bi \<in> set (listApplicableBindings db f)" by blast
    have "\<exists>x \<in> set bound. rbind (requireRevision js db (bind_revision bi)) (\<lambda>r. Inr (r, Some (bind_id bi))) = Inr x"
      using b bi by (rule rmapM_all)
    moreover have "requireRevision js db (bind_revision bi) = Inr r" using policy_inv_reads(2) [OF inv] r by simp
    ultimately show "r \<in> fst ` set bound" by force
  qed
  show ?thesis unfolding set_append image_Un B set_map image_image fst_conv D applicable_iff [OF inv n] governs_def by auto
qed

lemma matched_demands:
  assumes "fst ` set sources = {r \<in> set (policy_revisions db). governs db f opts r}"
  shows "(\<exists>m \<in> set (concat (map (matched_of js f) sources)). E (mr_effect m)) \<longleftrightarrow> demands E db f opts"
proof -
  have "(\<exists>m \<in> set (concat (map (matched_of js f) sources)). E (mr_effect m))
      \<longleftrightarrow> (\<exists>r \<in> fst ` set sources. \<exists>rule \<in> set (pc_rules (rev_content r)). matchesRule (rule_match rule) f \<and> E (rule_effect rule))"
    by (auto simp: matched_of_def)
  then show ?thesis unfolding assms demands_def by blast
qed

lemma denials_nonempty: "denials_of opts ms \<noteq> [] \<longleftrightarrow> truthy (authority_denial_reason opts) \<or> (\<exists>m \<in> set ms. \<exists>r. mr_effect m = Deny r)"
proof -
  have "(case e of Deny r \<Rightarrow> [r] | _ \<Rightarrow> []) \<noteq> [] \<longleftrightarrow> (\<exists>r. e = Deny r)" for e by (cases e) auto
  then show ?thesis unfolding denials_of_def by (simp only: append_is_Nil_conv concat_eq_Nil_conv set_map ball_simps) auto
qed

lemma approvals_nonempty: "approvals_of ms \<noteq> [] \<longleftrightarrow> (\<exists>m \<in> set ms. \<exists>r a. mr_effect m = Require_Approval r a)"
proof -
  have "(case mr_effect m of Require_Approval r a \<Rightarrow> [\<lparr>ar_revision = mr_revision m, ar_rule = mr_rule m, ar_reason = r, ar_approvers = a\<rparr>]
      | _ \<Rightarrow> []) \<noteq> [] \<longleftrightarrow> (\<exists>r a. mr_effect m = Require_Approval r a)" for m by (cases "mr_effect m") auto
  then show ?thesis unfolding approvals_of_def by (simp only: concat_eq_Nil_conv set_map ball_simps) auto
qed

lemma truthy_iff: "truthy x \<longleftrightarrow> (\<exists>s. x = Some s \<and> s \<noteq> [])"
  by (cases x) (auto simp: truthy_def)

lemma evaluate_empty_reason:
  "authority_denial_reason opts = Some [] \<Longrightarrow> evaluate js now fresh input (opts\<lparr>authority_denial_reason := None\<rparr>) db = evaluate js now fresh input opts db"
  by (simp add: evaluate_def denials_of_def truthy_def)

text \<open>
  C10: an evaluation is exact. It denies exactly when the caller passed a non-empty denial reason of
  the authority check or a rule that matches the facts denies, in a revision that is bound to a
  subject of the facts or referenced directly; otherwise it requires approval exactly when such a
  rule does. No active binding is overlooked. A denial reason that is present but empty counts as
  none: the evaluation is the one without it, and is allowed when no rule demands anything else. The
  comment of \<^verbatim>\<open>PolicyEvaluationOptions\<close> says that a present reason always yields deny; the code does not.
\<close>

theorem evaluation_exact:
  assumes "policy_reachable js db" and "evaluate js now fresh input opts db = Inr (ev, db')" and "normalizeFacts js input = Inr f"
  shows "(ev_decision ev = Pd_Deny \<longleftrightarrow> (\<exists>r. authority_denial_reason opts = Some r \<and> r \<noteq> []) \<or> demands (\<lambda>e. \<exists>r. e = Deny r) db f opts)
    \<and> (ev_decision ev = Pd_Require_Approval \<longleftrightarrow> \<not> ((\<exists>r. authority_denial_reason opts = Some r \<and> r \<noteq> []) \<or> demands (\<lambda>e. \<exists>r. e = Deny r) db f opts)
      \<and> demands (\<lambda>e. \<exists>r a. e = Require_Approval r a) db f opts)
    \<and> (authority_denial_reason opts = Some [] \<longrightarrow>
        evaluate js now fresh input (opts\<lparr>authority_denial_reason := None\<rparr>) db = Inr (ev, db')
        \<and> (\<not> demands (\<lambda>e. (\<exists>r. e = Deny r) \<or> (\<exists>r a. e = Require_Approval r a)) db f opts \<longrightarrow> ev_decision ev = Pd_Allow))"
proof -
  have inv: "policy_inv js db" using assms(1) by (rule policy_reachable_inv)
  from assms(2,3) obtain direct bound where
      d: "rmapM (direct_revision js db f) (sortedUnique (direct_revision_ids opts)) = Inr direct"
      and b: "rmapM (\<lambda>b. rbind (requireRevision js db (bind_revision b)) (\<lambda>r. Inr (r, Some (bind_id b)))) (listApplicableBindings db f) = Inr bound"
      and ev: "let ms = concat (map (matched_of js f) (bound @ map (\<lambda>r. (r, None)) direct)) in
        ev_decision ev = (if denials_of opts ms \<noteq> [] then Pd_Deny else if approvals_of ms \<noteq> [] then Pd_Require_Approval else Pd_Allow)"
    unfolding evaluate_def rbind_Inr_iff throw_if_Inr_iff Let_def by auto
  note m = matched_demands [OF sources_governing [OF inv assms(3) d b], of js "\<lambda>e. \<exists>r. e = Deny r"]
    matched_demands [OF sources_governing [OF inv assms(3) d b], of js "\<lambda>e. \<exists>r a. e = Require_Approval r a"]
  have decision: "ev_decision ev = (if truthy (authority_denial_reason opts) \<or> demands (\<lambda>e. \<exists>r. e = Deny r) db f opts then Pd_Deny
      else if demands (\<lambda>e. \<exists>r a. e = Require_Approval r a) db f opts then Pd_Require_Approval else Pd_Allow)"
    using ev unfolding Let_def denials_nonempty approvals_nonempty m .
  have either: "demands (\<lambda>e. (\<exists>r. e = Deny r) \<or> (\<exists>r a. e = Require_Approval r a)) db f opts
      \<longleftrightarrow> demands (\<lambda>e. \<exists>r. e = Deny r) db f opts \<or> demands (\<lambda>e. \<exists>r a. e = Require_Approval r a) db f opts"
    unfolding demands_def by blast
  show ?thesis
  proof (intro conjI impI)
    assume "authority_denial_reason opts = Some []"
    then show "evaluate js now fresh input (opts\<lparr>authority_denial_reason := None\<rparr>) db = Inr (ev, db')"
      using assms(2) by (simp only: evaluate_empty_reason)
  next
    assume "authority_denial_reason opts = Some []" and "\<not> demands (\<lambda>e. (\<exists>r. e = Deny r) \<or> (\<exists>r a. e = Require_Approval r a)) db f opts"
    then show "ev_decision ev = Pd_Allow" unfolding decision either truthy_iff by simp
  qed (use decision in \<open>auto simp: truthy_iff split: if_splits\<close>)
qed

theorem evaluation_exact_witness: "demands (\<lambda>e. \<exists>r. e = Deny r) (snd policy3) sample_policy_facts no_options"
proof -
  have n: "normalizeFacts sample_platform sample_policy_facts = Inr sample_policy_facts" by code_simp
  have "evaluate sample_platform ''t4'' ''1'' sample_policy_facts no_options (snd policy3) = Inr (fst policy4, snd policy4)"
    by (simp add: policy4_run)
  from evaluation_exact [OF policy_samples_reachable(3) this n]
  have "ev_decision (fst policy4) = Pd_Deny \<longleftrightarrow> (\<exists>r. authority_denial_reason no_options = Some r \<and> r \<noteq> [])
      \<or> demands (\<lambda>e. \<exists>r. e = Deny r) (snd policy3) sample_policy_facts no_options" by blast
  moreover have "ev_decision (fst policy4) = Pd_Deny" by code_simp
  ultimately show ?thesis by (simp add: no_options_def)
qed

section \<open>Limits\<close>

lemma fold_strictest:
  assumes "\<forall>k e. map_of acc k = Some e \<longrightarrow> strict_key e = k" and "distinct (map fst acc)"
  shows "(\<forall>k e. map_of (fold keep_strictest ls acc) k = Some e \<longrightarrow> strict_key e = k \<and> (e \<in> set ls \<or> map_of acc k = Some e))
    \<and> distinct (map fst (fold keep_strictest ls acc))
    \<and> (\<forall>k m. (map_of acc k = Some m \<or> (m \<in> set ls \<and> strict_key m = k)) \<longrightarrow> (\<exists>e. map_of (fold keep_strictest ls acc) k = Some e \<and> bl_maximum e \<le> bl_maximum m))"
  using assms
proof (induction ls arbitrary: acc)
  case (Cons l ls)
  let ?acc = "keep_strictest l acc"
  have acc: "map_of ?acc k = (if k = strict_key l \<and> (\<forall>e. map_of acc k = Some e \<longrightarrow> bl_maximum l < bl_maximum e) then Some l else map_of acc k)" for k
    by (auto simp: keep_strictest_def map_of_put split: option.splits)
  have "\<forall>k e. map_of ?acc k = Some e \<longrightarrow> strict_key e = k" using Cons.prems(1) acc by (auto split: if_splits)
  moreover have "distinct (map fst ?acc)" using Cons.prems(2) by (auto simp: keep_strictest_def map_put_keys split: option.splits)
  ultimately have IH: "\<forall>k e. map_of (fold keep_strictest ls ?acc) k = Some e \<longrightarrow> strict_key e = k \<and> (e \<in> set ls \<or> map_of ?acc k = Some e)"
      "distinct (map fst (fold keep_strictest ls ?acc))"
      "\<forall>k m. (map_of ?acc k = Some m \<or> (m \<in> set ls \<and> strict_key m = k)) \<longrightarrow> (\<exists>e. map_of (fold keep_strictest ls ?acc) k = Some e \<and> bl_maximum e \<le> bl_maximum m)"
    using Cons.IH [of ?acc] by blast+
  have le: "\<exists>e. map_of ?acc k = Some e \<and> bl_maximum e \<le> bl_maximum m" if "map_of acc k = Some m \<or> (m = l \<and> strict_key m = k)" for k m
    using that acc [of k] by (cases "map_of acc k") (auto split: if_splits)
  show ?case
  proof (intro conjI allI impI)
    fix k m assume "map_of acc k = Some m \<or> (m \<in> set (l # ls) \<and> strict_key m = k)"
    then consider "map_of acc k = Some m \<or> (m = l \<and> strict_key m = k)" | "m \<in> set ls \<and> strict_key m = k" by auto
    then show "\<exists>e. map_of (fold keep_strictest (l # ls) acc) k = Some e \<and> bl_maximum e \<le> bl_maximum m"
    proof cases
      case 1
      from le [OF this] IH(3) show ?thesis by (fastforce intro: order_trans)
    next
      case 2
      with IH(3) show ?thesis by auto
    qed
  next
    fix k e assume "map_of (fold keep_strictest (l # ls) acc) k = Some e"
    with IH(1) have *: "strict_key e = k \<and> (e \<in> set ls \<or> map_of ?acc k = Some e)" by simp
    then show "strict_key e = k" by blast
    from * show "e \<in> set (l # ls) \<or> map_of acc k = Some e" using acc [of k] by (auto split: if_splits)
  qed (use IH(2) in simp)
qed auto

text \<open>
  The limits an evaluation reports are exactly the strictest ones: each is one of the matched
  limits, no two are about the same subject, metric, window and zone, and for every matched limit
  there is a reported one with the same key that is no more generous.
\<close>

theorem strictest_limits_exact:
  "set (strictestLimits js ls) \<subseteq> set ls \<and> inj_on strict_key (set (strictestLimits js ls)) \<and> distinct (strictestLimits js ls)
    \<and> strict_key ` set (strictestLimits js ls) = strict_key ` set ls
    \<and> {e \<in> set (strictestLimits js ls). \<exists>l \<in> set ls. strict_key l = strict_key e \<and> bl_maximum l < bl_maximum e} = {}"
proof -
  let ?acc = "fold keep_strictest ls []"
  have f: "\<forall>k e. map_of ?acc k = Some e \<longrightarrow> strict_key e = k \<and> e \<in> set ls" "distinct (map fst ?acc)"
      "\<forall>m \<in> set ls. \<exists>e. map_of ?acc (strict_key m) = Some e \<and> bl_maximum e \<le> bl_maximum m"
    using fold_strictest [of "[]" ls] by auto
  have S: "e \<in> set (strictestLimits js ls) \<longleftrightarrow> map_of ?acc (strict_key e) = Some e" for e
    using f(1,2) by (auto simp: strictestLimits_def map_of_eq_Some_iff) (metis snd_conv image_eqI)
  have 1: "set (strictestLimits js ls) \<subseteq> set ls" using f(1) S by blast
  have 2: "inj_on strict_key (set (strictestLimits js ls))" using S by (auto simp: inj_on_def)
  have 3: "strict_key ` set (strictestLimits js ls) = strict_key ` set ls"
  proof
    show "strict_key ` set (strictestLimits js ls) \<subseteq> strict_key ` set ls" using f(1) S by blast
    show "strict_key ` set ls \<subseteq> strict_key ` set (strictestLimits js ls)" 
    proof
      fix k assume "k \<in> strict_key ` set ls"
      then obtain e where e: "map_of ?acc k = Some e" using f(3) by blast
      then have "strict_key e = k" using f(1) by blast
      then show "k \<in> strict_key ` set (strictestLimits js ls)" using e S [of e] by blast
    qed
  qed
  have "map strict_key (map snd ?acc) = map fst ?acc" using f(1,2) by (auto simp: map_of_eq_Some_iff)
  then have "distinct (map snd ?acc)" using f(2) by (metis distinct_map)
  then have 4: "distinct (strictestLimits js ls)" by (simp add: strictestLimits_def)
  have 5: "{e \<in> set (strictestLimits js ls). \<exists>l \<in> set ls. strict_key l = strict_key e \<and> bl_maximum l < bl_maximum e} = {}"
  proof -
    have "\<not> bl_maximum l < bl_maximum e" if "e \<in> set (strictestLimits js ls)" "l \<in> set ls" "strict_key l = strict_key e" for e l
      using f(3) that S [of e] by fastforce
    then show ?thesis by blast
  qed
  from 1 2 3 4 5 show ?thesis by blast
qed

end
