(* ===== verification/Js_Calendar.thy ===== *)
theory Js_Calendar
  imports Floe_Prelude
begin

text \<open>
  The proleptic Gregorian calendar of the ECMAScript \<^verbatim>\<open>Date\<close>: day numbers from 1970-01-01, the year, month
  and day of a day number, and \<^verbatim>\<open>Date.UTC\<close>. Times are integers, in milliseconds; the limit of 8.64e15
  milliseconds on either side of the epoch is not modelled.
\<close>

section \<open>Days and years\<close>

definition ms_per_day :: int where
  "ms_per_day = 86400000"

definition leap :: "int \<Rightarrow> bool" where
  "leap y = (y mod 4 = 0 \<and> (y mod 100 \<noteq> 0 \<or> y mod 400 = 0))"

definition day_from_year :: "int \<Rightarrow> int" where
  "day_from_year y = 365 * (y - 1970) + (y - 1969) div 4 - (y - 1901) div 100 + (y - 1601) div 400"

lemma step_div: "0 < n \<Longrightarrow> (a + 1) div n = a div n + (if (a + 1) mod n = 0 then 1 else 0)" for a n :: int
proof -
  assume n: "0 < n"
  have r: "0 \<le> a mod n" "a mod n < n" using n by simp_all
  have a: "a = n * (a div n) + a mod n" by simp
  show ?thesis
  proof (cases "a mod n + 1 = n")
    case True
    then have "a + 1 = n * (a div n + 1)" using a by (metis add.assoc distrib_left mult.right_neutral)
    then show ?thesis using n by (metis mod_mult_self1_is_0 nonzero_mult_div_cancel_left less_irrefl)
  next
    case False
    have "a + 1 = n * (a div n) + (a mod n + 1)" by simp
    then have "(a + 1) div n = a div n" "(a + 1) mod n = a mod n + 1"
      by (rule int_div_pos_eq int_mod_pos_eq, use False r in simp_all)+
    then show ?thesis using r by simp
  qed
qed

lemma leap_sum:
  "(p400 \<Longrightarrow> p100) \<Longrightarrow> (p100 \<Longrightarrow> p4) \<Longrightarrow> k + 365 + (a + (if p4 then 1 else 0)) - (b + (if p100 then 1 else 0)) + (c + (if p400 then 1 else 0))
    = k + a - b + c + (if p4 \<and> (\<not> p100 \<or> p400) then 366 else 365)" for k a b c :: int
  by auto

lemma day_from_year_Suc: "day_from_year (y + 1) = day_from_year y + (if leap y then 366 else 365)"
proof -
  have steps: "(y - 1969 + 1) div 4 = (y - 1969) div 4 + (if (y - 1969 + 1) mod 4 = 0 then 1 else 0)"
    "(y - 1901 + 1) div 100 = (y - 1901) div 100 + (if (y - 1901 + 1) mod 100 = 0 then 1 else 0)"
    "(y - 1601 + 1) div 400 = (y - 1601) div 400 + (if (y - 1601 + 1) mod 400 = 0 then 1 else 0)"
    by (rule step_div, simp)+
  have mods: "(y - 1969 + 1) mod 4 = 0 \<longleftrightarrow> y mod 4 = 0" "(y - 1901 + 1) mod 100 = 0 \<longleftrightarrow> y mod 100 = 0"
    "(y - 1601 + 1) mod 400 = 0 \<longleftrightarrow> y mod 400 = 0"
    using dvd_add_right_iff [of 4 1968 "y - 1968"] dvd_add_right_iff [of 100 1900 "y - 1900"] dvd_add_right_iff [of 400 1600 "y - 1600"]
    by (simp_all add: mod_eq_0_iff_dvd)
  have nest: "y mod 400 = 0 \<Longrightarrow> y mod 100 = 0" "y mod 100 = 0 \<Longrightarrow> y mod 4 = 0"
    using dvd_trans [of 100 400 y] dvd_trans [of 4 100 y] by (simp_all add: mod_eq_0_iff_dvd)
  have shift: "y + 1 - 1969 = y - 1969 + 1" "y + 1 - 1901 = y - 1901 + 1" "y + 1 - 1601 = y - 1601 + 1"
    "365 * (y + 1 - 1970) = 365 * (y - 1970) + 365" by simp_all
  show ?thesis unfolding day_from_year_def leap_def shift steps mods using nest by (rule leap_sum)
qed

lemma day_from_year_less: "day_from_year y < day_from_year (y + 1)"
  by (simp add: day_from_year_Suc)

lemma day_from_year_mono: "y \<le> z \<Longrightarrow> day_from_year y \<le> day_from_year z"
proof (induction "nat (z - y)" arbitrary: z)
  case (Suc n)
  then have "day_from_year y \<le> day_from_year (z - 1)" by simp
  then show ?case using day_from_year_less [of "z - 1"] by simp
qed simp

text \<open>
  \<^verbatim>\<open>YearFromTime\<close> is the largest year that starts on or before the day. The search starts from a year
  that certainly does.
\<close>

function year_search :: "int \<Rightarrow> int \<Rightarrow> int" where
  "year_search d y = (if day_from_year (y + 1) \<le> d then year_search d (y + 1) else y)"
  by pat_completeness auto
termination
  by (relation "measure (\<lambda>(d, y). nat (d - day_from_year y))") (auto intro: less_le_trans [OF day_from_year_less])

declare year_search.simps [simp del]

definition year_of :: "int \<Rightarrow> int" where
  "year_of d = year_search d (1970 + (if d < 0 then d div 365 else d div 366))"

lemma year_search_spec: "day_from_year y \<le> d \<Longrightarrow> day_from_year (year_search d y) \<le> d \<and> d < day_from_year (year_search d y + 1)"
proof (induction d y rule: year_search.induct)
  case (1 d y)
  then show ?case by (cases "day_from_year (y + 1) \<le> d") (simp_all add: year_search.simps [of d y])
qed

lemma leap_bound: "400 * ((k + 1) div 4 - (k + 69) div 100 + (k + 369) div 400) \<le> 97 * k + 589" for k :: int
proof -
  have lin: "400 * (a - b + c) \<le> 97 * k + 589"
    if "4 * a \<le> k + 1" "400 * c \<le> k + 369" "k + 69 = 100 * b + r" "r \<le> 99" for a b c r :: int
    using that by simp
  have "(k + 69) mod 100 \<le> 99" using pos_mod_bound [of 100 "k + 69"] by simp
  then show ?thesis by (intro lin [of _ _ "(k + 69) div 100" "(k + 69) mod 100"]) simp_all
qed

lemma year_start: "day_from_year (1970 + (if d < 0 then d div 365 else d div 366)) \<le> d"
proof (cases "d < 0")
  case True
  define k where "k = d div 365"
  have "k < 0" "365 * k \<le> d" using True by (auto simp: k_def)
  moreover have "(k + 1) div 4 - (k + 69) div 100 + (k + 369) div 400 \<le> 0" if "k < 0"
    using leap_bound [of k] that by (cases "k = - 1") simp_all
  ultimately show ?thesis using True by (simp add: day_from_year_def k_def [symmetric] algebra_simps)
next
  case False
  define k where "k = d div 366"
  have "0 \<le> k" "366 * k \<le> d" using False by (auto simp: k_def)
  moreover have "(k + 1) div 4 - (k + 69) div 100 + (k + 369) div 400 \<le> k" if "0 \<le> k"
    using leap_bound [of k] that by (cases "k = 0") simp_all
  ultimately show ?thesis using False by (simp add: day_from_year_def k_def [symmetric] algebra_simps)
qed

lemma year_of_spec: "day_from_year (year_of d) \<le> d" "d < day_from_year (year_of d + 1)"
  unfolding year_of_def using year_search_spec [OF year_start] by blast+

lemma year_of_unique: "day_from_year y \<le> d \<Longrightarrow> d < day_from_year (y + 1) \<Longrightarrow> year_of d = y"
proof -
  assume y: "day_from_year y \<le> d" "d < day_from_year (y + 1)"
  show ?thesis
  proof (rule antisym; rule ccontr)
    assume "\<not> year_of d \<le> y"
    then show False using day_from_year_mono [of "y + 1" "year_of d"] year_of_spec [of d] y by simp
  next
    assume "\<not> y \<le> year_of d"
    then show False using day_from_year_mono [of "year_of d + 1" y] year_of_spec [of d] y by simp
  qed
qed

section \<open>Months\<close>

text \<open>The days of the year before the month with index \<open>m\<close> (0 to 12).\<close>

definition month_start :: "bool \<Rightarrow> int \<Rightarrow> int" where
  "month_start lp m = [0, 31, 59, 90, 120, 151, 181, 212, 243, 273, 304, 334, 365] ! nat m + (if lp \<and> 2 \<le> m then 1 else 0)"

fun month_search :: "bool \<Rightarrow> int \<Rightarrow> int list \<Rightarrow> int" where
  "month_search lp k [] = 11"
| "month_search lp k (m # ms) = (if k < month_start lp (m + 1) then m else month_search lp k ms)"

definition month_index :: "bool \<Rightarrow> int \<Rightarrow> int" where
  "month_index lp k = month_search lp k [0, 1, 2, 3, 4, 5, 6, 7, 8, 9, 10]"

text \<open>The year, month (from 1) and day (from 1) of a day number: \<^verbatim>\<open>getUTCFullYear\<close>, \<^verbatim>\<open>getUTCMonth + 1\<close>, \<^verbatim>\<open>getUTCDate\<close>.\<close>

definition civil :: "int \<Rightarrow> int \<times> int \<times> int" where
  "civil d = (let y = year_of d; k = d - day_from_year y; m = month_index (leap y) k in (y, m + 1, k - month_start (leap y) m + 1))"

text \<open>\<^verbatim>\<open>MakeDay\<close>: months outside 0 to 11 carry into the year, days outside the month into the neighbours.\<close>

definition make_day :: "int \<Rightarrow> int \<Rightarrow> int \<Rightarrow> int" where
  "make_day y m dt = (let ym = y + m div 12 in day_from_year ym + month_start (leap ym) (m mod 12) + dt - 1)"

text \<open>\<^verbatim>\<open>Date.UTC\<close>: a year from 0 to 99 counts from 1900.\<close>

definition full_year :: "int \<Rightarrow> int" where
  "full_year y = (if 0 \<le> y \<and> y \<le> 99 then 1900 + y else y)"

definition date_utc :: "int \<Rightarrow> int \<Rightarrow> int \<Rightarrow> int \<Rightarrow> int \<Rightarrow> int \<Rightarrow> int" where
  "date_utc y m dt h mi s = make_day (full_year y) m dt * ms_per_day + h * 3600000 + mi * 60000 + s * 1000"

subsection \<open>Round trips\<close>

lemma month_cases:
  assumes "0 \<le> m" "m \<le> 12"
  shows "m \<in> {0, 1, 2, 3, 4, 5, 6, 7, 8, 9, 10, 11, 12 :: int}"
proof -
  have "[0..12] = [0, 1, 2, 3, 4, 5, 6, 7, 8, 9, 10, 11, 12 :: int]" by code_simp
  moreover have "m \<in> set [0..12]" using assms by (simp only: set_upto atLeastAtMost_iff)
  ultimately show ?thesis by (simp only: list.set)
qed

lemma month_search_spec:
  assumes "i \<le> 11" "month_start lp i \<le> k" "k < month_start lp 12"
  shows "i \<le> month_search lp k [i..10] \<and> month_search lp k [i..10] \<le> 11
    \<and> month_start lp (month_search lp k [i..10]) \<le> k \<and> k < month_start lp (month_search lp k [i..10] + 1)"
  using assms
proof (induction "nat (11 - i)" arbitrary: i)
  case 0
  then show ?case by simp
next
  case (Suc n)
  then have "[i..10] = i # [i + 1..10]" by (simp add: upto_rec1)
  moreover have "n = nat (11 - (i + 1))" "i + 1 \<le> 11" using Suc.hyps(2) by simp_all
  ultimately show ?case using Suc.hyps(1) [of "i + 1"] Suc.prems by (cases "k < month_start lp (i + 1)") auto
qed

lemma month_index_spec:
  assumes "0 \<le> k" "k < month_start lp 12"
  shows "0 \<le> month_index lp k \<and> month_index lp k \<le> 11 \<and> month_start lp (month_index lp k) \<le> k \<and> k < month_start lp (month_index lp k + 1)"
proof -
  have "[0..10] = [0, 1, 2, 3, 4, 5, 6, 7, 8, 9, 10 :: int]" by code_simp
  then have "month_index lp k = month_search lp k [0..10]" by (simp only: month_index_def)
  moreover have "month_start lp 0 \<le> k" using assms by (simp add: month_start_def)
  ultimately show ?thesis using month_search_spec [of 0 lp k] assms by simp
qed

lemma month_index_unique:
  assumes "0 \<le> m" "m \<le> 11" "month_start lp m \<le> k" "k < month_start lp (m + 1)"
  shows "month_index lp k = m"
proof -
  have "m \<in> {0, 1, 2, 3, 4, 5, 6, 7, 8, 9, 10, 11, 12}" using assms by (intro month_cases) simp_all
  then show ?thesis using assms by (cases lp; elim insertE emptyE) (simp_all add: month_index_def month_start_def)
qed

lemma month_start_ends: "month_start lp 0 = 0" "month_start lp 12 = (if lp then 366 else 365)"
  by (simp_all add: month_start_def)

lemma month_start_range: "0 \<le> m \<Longrightarrow> m \<le> 12 \<Longrightarrow> 0 \<le> month_start lp m \<and> month_start lp m \<le> month_start lp 12"
  by (drule (1) month_cases) (cases lp; elim insertE emptyE; simp add: month_start_def)

lemma civil_bounds: "civil d = (y, m, dt) \<Longrightarrow> 1 \<le> m \<and> m \<le> 12 \<and> 1 \<le> dt"
proof -
  assume c: "civil d = (y, m, dt)"
  let ?k = "d - day_from_year (year_of d)"
  have "0 \<le> ?k" "?k < month_start (leap (year_of d)) 12"
    using year_of_spec [of d] day_from_year_Suc [of "year_of d"] by (auto simp: month_start_ends)
  from month_index_spec [OF this] c show ?thesis by (auto simp: civil_def Let_def)
qed

lemma make_day_civil: "civil d = (y, m, dt) \<Longrightarrow> make_day y (m - 1) dt = d"
  using civil_bounds [of d y m dt] by (auto simp: civil_def Let_def make_day_def)

lemma civil_make_day:
  assumes "0 \<le> m" "m \<le> 11" "1 \<le> dt" "month_start (leap y) m + dt \<le> month_start (leap y) (m + 1)"
  shows "civil (make_day y m dt) = (y, m + 1, dt)"
proof -
  let ?k = "month_start (leap y) m + dt - 1"
  have d: "make_day y m dt = day_from_year y + ?k" using assms(1,2) by (simp add: make_day_def)
  have k: "month_start (leap y) m \<le> ?k" "?k < month_start (leap y) (m + 1)" using assms by simp_all
  have "0 \<le> month_start (leap y) m" "month_start (leap y) (m + 1) \<le> month_start (leap y) 12"
    using month_start_range [of m "leap y"] month_start_range [of "m + 1" "leap y"] assms by simp_all
  then have "year_of (make_day y m dt) = y"
    using k by (intro year_of_unique) (auto simp: d day_from_year_Suc month_start_ends)
  then show ?thesis using month_index_unique [OF assms(1,2) k] by (simp add: civil_def Let_def d)
qed

end
