(* ===== verification/Js_Numbers.thy ===== *)
theory Js_Numbers
  imports Floe_Prelude "HOL-Library.Log_Nat"
begin

text \<open>
  The IEEE 754 double arithmetic behind an ECMAScript \<^verbatim>\<open>Number\<close>: a finite double is the rational it
  stands for, and a sum is rounded to the nearest double, ties to the one with an even significand.
  A double has 53 significant bits and no exponent below -1074. Overflow is not cut off at infinity:
  a value of 2 to the 1024 or more stands for it, and compares like it with every finite double.
\<close>

section \<open>Rounding\<close>

definition half_even :: "rat \<Rightarrow> int" where
  "half_even x = (let n = \<lfloor>x\<rfloor>; r = x - of_int n in
     if r < 1 / 2 then n else if 1 / 2 < r then n + 1 else if even n then n else n + 1)"

text \<open>The exponent of the leading binary digit of a positive number.\<close>

definition leading_exponent :: "rat \<Rightarrow> int" where
  "leading_exponent x = (if 1 \<le> x then bitlen \<lfloor>x\<rfloor> - 1 else - bitlen (\<lceil>1 / x\<rceil> - 1))"

definition two_to :: "int \<Rightarrow> rat" where
  "two_to k = (if 0 \<le> k then 2 ^ nat k else 1 / 2 ^ nat (- k))"

definition unit_in_last_place :: "rat \<Rightarrow> rat" where
  "unit_in_last_place x = two_to (max (leading_exponent \<bar>x\<bar> - 52) (- 1074))"

definition js_double :: "rat \<Rightarrow> rat" where
  "js_double x = (if x = 0 then 0 else let u = unit_in_last_place x in of_int (half_even (x / u)) * u)"

definition js_add :: "rat \<Rightarrow> rat \<Rightarrow> rat" where
  "js_add x y = js_double (x + y)"

section \<open>Exact cases and the rounding error\<close>

lemma two_to_pos [simp]: "0 < two_to k"
  by (simp add: two_to_def)

lemma half_even_near: "\<bar>of_int (half_even x) - x\<bar> \<le> 1 / 2"
  using floor_correct [of x] by (auto simp: half_even_def Let_def abs_le_iff field_simps)

lemma half_even_int [simp]: "half_even (of_int n) = n"
  by (simp add: half_even_def)

lemma leading_exponent_bounds:
  assumes "0 < x"
  shows "two_to (leading_exponent x) \<le> x \<and> x < two_to (leading_exponent x + 1)"
proof (cases "1 \<le> x")
  case True
  then have n: "0 < \<lfloor>x\<rfloor>" by simp
  then have e: "leading_exponent x = bitlen \<lfloor>x\<rfloor> - 1" "0 < bitlen \<lfloor>x\<rfloor>" using True bitlen_nonneg [of "\<lfloor>x\<rfloor>"] bitlen_eq_zero_iff [of "\<lfloor>x\<rfloor>"]
    by (auto simp: leading_exponent_def)
  have "of_int (2 ^ nat (bitlen \<lfloor>x\<rfloor> - 1)) \<le> x" "x < of_int (2 ^ nat (bitlen \<lfloor>x\<rfloor>))"
    using bitlen_bounds [OF n] by (simp_all only: le_floor_iff floor_less_iff)
  then show ?thesis using e by (simp add: two_to_def)
next
  case False
  define c where "c = \<lceil>1 / x\<rceil> - 1"
  have c: "0 < c" using assms False by (simp add: c_def less_ceiling_iff)
  then have e: "leading_exponent x = - bitlen c" "0 < bitlen c" using False bitlen_nonneg [of c] bitlen_eq_zero_iff [of c]
    by (auto simp: leading_exponent_def c_def)
  have "2 ^ nat (bitlen c - 1) < \<lceil>1 / x\<rceil>" "\<lceil>1 / x\<rceil> \<le> 2 ^ nat (bitlen c)" using bitlen_bounds [OF c] by (simp_all add: c_def)
  then have "of_int (2 ^ nat (bitlen c - 1)) < 1 / x" "1 / x \<le> of_int (2 ^ nat (bitlen c))" by (simp_all only: less_ceiling_iff ceiling_le_iff)
  then have "1 / 2 ^ nat (bitlen c) \<le> x" "x < 1 / 2 ^ nat (bitlen c - 1)" using assms by (simp_all add: field_simps)
  then show ?thesis using e by (auto simp: two_to_def)
qed

lemma js_double_near: "x \<noteq> 0 \<Longrightarrow> \<bar>js_double x - x\<bar> \<le> unit_in_last_place x / 2"
proof -
  assume x: "x \<noteq> 0"
  have u: "0 < unit_in_last_place x" by (simp add: unit_in_last_place_def)
  let ?u = "unit_in_last_place x"
  have "js_double x - x = (of_int (half_even (x / ?u)) - x / ?u) * ?u" using x u by (simp add: js_double_def Let_def field_simps)
  then have "\<bar>js_double x - x\<bar> = \<bar>of_int (half_even (x / ?u)) - x / ?u\<bar> * ?u" using u by (simp add: abs_mult)
  also have "\<dots> \<le> 1 / 2 * ?u" using half_even_near u by (intro mult_right_mono) simp_all
  finally show ?thesis by simp
qed

text \<open>Integers up to 2 to the 53 are doubles.\<close>

lemma js_double_int:
  assumes "0 \<le> n" and "n \<le> 2 ^ 53"
  shows "js_double (of_int n) = of_int n"
proof (cases "n = 0 \<or> n = 2 ^ 53")
  case True
  then show ?thesis
  proof
    assume n: "n = 2 ^ 53"
    have "bitlen (2 ^ 53) = 54" by code_simp
    then have "unit_in_last_place (of_int n) = 2" by (simp add: n unit_in_last_place_def leading_exponent_def two_to_def)
    moreover have "half_even (of_int n / 2) = 2 ^ 52" using half_even_int [of "2 ^ 52"] by (simp add: n)
    ultimately show ?thesis by (simp add: n js_double_def Let_def)
  qed (simp add: js_double_def)
next
  case False
  then have n: "0 < n" "n < 2 ^ 53" using assms by auto
  define k where "k = nat (52 - leading_exponent (of_int n))"
  have "bitlen n \<le> 53" using n by (simp add: bitlen_le_iff_power)
  moreover have "0 \<le> bitlen n" by (rule bitlen_nonneg)
  ultimately have u: "unit_in_last_place (of_int n) = 1 / 2 ^ k"
    using n by (auto simp: unit_in_last_place_def leading_exponent_def two_to_def k_def)
  have "half_even (of_int n * 2 ^ k) = n * 2 ^ k" using half_even_int [of "n * 2 ^ k"] by simp
  then show ?thesis using n by (simp add: js_double_def u Let_def)
qed

lemma js_add_nat:
  assumes "x \<in> \<nat>" and "y \<in> \<nat>" and "x + y \<le> 2 ^ 53"
  shows "js_add x y = x + y"
proof -
  obtain n where n: "x + y = of_nat n" using assms(1,2) by (metis Nats_add Nats_cases)
  then have "int n \<le> 2 ^ 53" using assms(3) by (metis of_int_le_iff of_int_numeral of_int_of_nat_eq of_int_power)
  then have "js_double (of_int (int n)) = of_int (int n)" by (intro js_double_int) simp_all
  then show ?thesis by (simp add: js_add_def n)
qed

lemma js_add_nonneg: "0 \<le> x \<Longrightarrow> 0 \<le> y \<Longrightarrow> 0 \<le> js_add x y"
proof -
  have half: "0 \<le> half_even z" if "0 \<le> z" for z using that by (auto simp: half_even_def Let_def)
  assume "0 \<le> x" and "0 \<le> y"
  then have "0 \<le> (x + y) / unit_in_last_place (x + y)" by (simp add: unit_in_last_place_def less_imp_le)
  then show ?thesis using half unfolding js_add_def js_double_def Let_def
    by (simp add: unit_in_last_place_def less_imp_le)
qed

text \<open>Sums of three amounts are rounded twice, so their order matters.\<close>

lemma rounding_depends_on_order:
  "js_add (js_add (js_double (3 / 10)) (js_double (1 / 5))) (js_double (1 / 10)) = js_double (3 / 5)
    \<and> js_double (3 / 5) < js_add (js_double (3 / 10)) (js_add (js_double (1 / 5)) (js_double (1 / 10)))"
  by code_simp

end
