(* ===== verification/Budgets.thy ===== *)
theory Budgets
  imports Policy_Evaluation Js_Calendar Js_Numbers
begin

text \<open>
  \<^verbatim>\<open>floe-bus/src/budgets.ts\<close>: reservations of resources against the limits of a policy evaluation, the
  usage they become when they are committed, and the calendar windows the limits run over. An
  amount is the rational a finite double stands for, and sums of amounts are rounded as the code's
  are. The entries of a usage object are listed in the
  order \<^verbatim>\<open>Object.entries\<close> gives them.
\<close>

section \<open>Data\<close>

record budget_source =
  src_kind :: string
  src_id :: string

record usage_facts =
  uf_workspace :: string
  uf_principal :: string
  uf_operation :: string
  uf_scope :: "string option"
  uf_execution :: "string option"
  uf_actor :: "string option"
  uf_composition :: "string option"
  uf_placement :: "string option"
  uf_connector :: "string option"
  uf_installation :: "string option"

datatype reservation_state = Reserved | Committed | Released | Outcome_Unknown | Exceeded

record item_row =
  it_id :: string
  it_reservation :: string
  it_revision :: string
  it_binding :: string
  it_rule :: string
  it_subject_kind :: string
  it_subject_id :: string
  it_subject_revision :: string
  it_metric :: string
  it_maximum :: rat
  it_window :: string
  it_timezone :: "string option"
  it_start :: "string option"
  it_end :: "string option"
  it_estimate :: rat

record reservation_row =
  resv_id :: string
  res_workspace :: string
  res_source :: budget_source
  res_evaluation :: string
  res_facts :: usage_facts
  res_estimates :: "(string \<times> rat) list"
  res_state :: reservation_state
  res_digest :: string
  res_actual :: "string option"
  res_created :: string
  res_updated :: string
  res_completed :: "string option"

text \<open>\<^verbatim>\<open>BudgetReservationRecord\<close>: a row with its items.\<close>

type_synonym reservation = "reservation_row \<times> item_row list"

record usage_row =
  us_id :: string
  us_workspace :: string
  us_source :: budget_source
  us_facts :: usage_facts
  us_metric :: string
  us_amount :: rat
  us_at :: string

record budget_db =
  reservations :: "reservation_row list"
  reservation_items :: "item_row list"
  usage_entries :: "usage_row list"

datatype budget_error =
    BudgetInvalid string
  | BudgetExceeded string binding_subject rat rat rat rat
  | BudgetConflict budget_source string
  | BudgetConstraint string
  | BudgetZone string

section \<open>Normalisation\<close>

definition budget_text :: "string \<Rightarrow> string \<Rightarrow> (budget_error, string) result" where
  "budget_text v field = (if is_blank v then Inl (BudgetInvalid (field @ '' is required'')) else Inr (js_trim v))"

definition budget_nullable :: "string option \<Rightarrow> (budget_error, string option) result" where
  "budget_nullable v = (case v of None \<Rightarrow> Inr None | Some s \<Rightarrow> rbind (budget_text s ''usage fact'') (\<lambda>t. Inr (Some t)))"

definition source_kinds :: "string list" where
  "source_kinds = [''operation_invocation'', ''execution_attempt'', ''connector_action'', ''extension_activation'']"

definition normalizeSource :: "budget_source \<Rightarrow> (budget_error, budget_source) result" where
  "normalizeSource s = throw_if (src_kind s \<notin> set source_kinds) (BudgetInvalid ''source kind is invalid'')
     (rbind (budget_text (src_id s) ''source id'') (\<lambda>i. Inr \<lparr>src_kind = src_kind s, src_id = i\<rparr>))"

definition normalizeUsageFacts :: "usage_facts \<Rightarrow> (budget_error, usage_facts) result" where
  "normalizeUsageFacts f =
     rbind (budget_text (uf_workspace f) ''workspace_id'') (\<lambda>w.
     rbind (budget_text (uf_principal f) ''principal_id'') (\<lambda>p.
     rbind (budget_text (uf_operation f) ''operation_id'') (\<lambda>op.
     rbind (budget_nullable (uf_scope f)) (\<lambda>scope.
     rbind (budget_nullable (uf_execution f)) (\<lambda>ex.
     rbind (budget_nullable (uf_actor f)) (\<lambda>actor.
     rbind (budget_nullable (uf_composition f)) (\<lambda>comp.
     rbind (budget_nullable (uf_placement f)) (\<lambda>place.
     rbind (budget_nullable (uf_connector f)) (\<lambda>conn.
     rbind (budget_nullable (uf_installation f)) (\<lambda>inst.
     throw_if (truthy place \<noteq> truthy comp)
       (BudgetInvalid ''NodePlacement usage requires both node_placement_id and scope_composition_revision_id'')
     (Inr \<lparr>uf_workspace = w, uf_principal = p, uf_operation = op, uf_scope = scope, uf_execution = ex, uf_actor = actor,
           uf_composition = comp, uf_placement = place, uf_connector = conn, uf_installation = inst\<rparr>)))))))))))"

definition assertEvaluationMatchesUsage :: "policy_facts \<Rightarrow> usage_facts \<Rightarrow> (budget_error, unit) result" where
  "assertEvaluationMatchesUsage e u =
     (case find (\<lambda>(name, l, r). l \<noteq> r)
        [(''workspace_id'', pf_workspace e, Some (uf_workspace u)),
         (''principal_id'', Some (pf_principal e), Some (uf_principal u)),
         (''operation_id'', Some (pf_operation e), Some (uf_operation u)),
         (''scope_id'', pf_scope e, uf_scope u),
         (''actor_id'', pf_actor e, uf_actor u),
         (''scope_composition_revision_id'', pf_composition e, uf_composition u),
         (''node_placement_id'', pf_placement e, uf_placement u),
         (''connector_binding_id'', pf_connector e, uf_connector u),
         (''extension_installation_id'', pf_installation e, uf_installation u)] of
       None \<Rightarrow> Inr ()
     | Some m \<Rightarrow> Inl (BudgetInvalid (''Policy evaluation '' @ fst m @ '' does not match the resource-use source'')))"

fun normalize_amounts :: "string \<Rightarrow> (string \<times> rat) list \<Rightarrow> (string \<times> rat) list \<Rightarrow> (budget_error, (string \<times> rat) list) result" where
  "normalize_amounts label acc [] = Inr acc"
| "normalize_amounts label acc ((m, a) # rest) =
     rbind (budget_text m ''metric'') (\<lambda>metric.
     throw_if (a < 0) (BudgetInvalid (label @ '' '' @ quoted metric @ '' must be a non-negative finite number''))
     (normalize_amounts label (map_put metric a acc) rest))"

definition normalizeUsage :: "platform \<Rightarrow> (string \<times> rat) list \<Rightarrow> string \<Rightarrow> (budget_error, (string \<times> rat) list) result" where
  "normalizeUsage js values label = rbind (normalize_amounts label [] values) (\<lambda>m.
     Inr (js_sort (\<lambda>l r. locale_compare js (fst l) (fst r)) m))"

section \<open>Windows\<close>

type_synonym civil_date = "int \<times> int \<times> int"

definition addCalendarDays :: "civil_date \<Rightarrow> int \<Rightarrow> civil_date" where
  "addCalendarDays p n = (case p of (y, m, d) \<Rightarrow> civil (date_utc y (m - 1) (d + n) 0 0 0 div ms_per_day))"

definition addCalendarMonths :: "civil_date \<Rightarrow> int \<Rightarrow> civil_date" where
  "addCalendarMonths p n = (case p of (y, m, d) \<Rightarrow>
     case civil (date_utc y (m - 1 + n) 1 0 0 0 div ms_per_day) of (y', m', _) \<Rightarrow> (y', m', 1))"

text \<open>An unknown zone makes the formatter throw.\<close>

definition zone_read :: "platform \<Rightarrow> string \<Rightarrow> int \<Rightarrow> (budget_error, int \<times> int \<times> int \<times> int \<times> int \<times> int) result" where
  "zone_read js z t = (case zone_fields js z t of None \<Rightarrow> Inl (BudgetZone z) | Some f \<Rightarrow> Inr f)"

definition zonedDateParts :: "platform \<Rightarrow> int \<Rightarrow> string \<Rightarrow> (budget_error, civil_date) result" where
  "zonedDateParts js t z = rbind (zone_read js z t) (\<lambda>(y, m, d, _). Inr (y, m, d))"

text \<open>The correction loop of \<^verbatim>\<open>zonedMidnight\<close> runs at most four times.\<close>

fun correct_midnight :: "platform \<Rightarrow> string \<Rightarrow> int \<Rightarrow> nat \<Rightarrow> int \<Rightarrow> (budget_error, int) result" where
  "correct_midnight js z target 0 guess = Inr guess"
| "correct_midnight js z target (Suc n) guess =
     rbind (zone_read js z guess) (\<lambda>(y, m, d, h, mi, s).
       let correction = target - date_utc y (m - 1) d h mi s in
       if correction = 0 then Inr (guess + correction) else correct_midnight js z target n (guess + correction))"

definition zonedMidnight :: "platform \<Rightarrow> civil_date \<Rightarrow> string \<Rightarrow> (budget_error, int) result" where
  "zonedMidnight js p z = (case p of (y, m, d) \<Rightarrow>
     let target = date_utc y (m - 1) d 0 0 0 in correct_midnight js z target 4 target)"

definition budgetWindowBounds ::
  "platform \<Rightarrow> string \<Rightarrow> string option \<Rightarrow> string \<Rightarrow> usage_facts \<Rightarrow> (budget_error, string option \<times> string option) result" where
  "budgetWindowBounds js window timezone now facts =
     (if window = ''operation'' \<or> window = ''all_time'' then Inr (None, None)
      else if window = ''scope_execution'' then
        throw_if (\<not> truthy (uf_execution facts)) (BudgetInvalid ''scope_execution budget requires a ScopeExecution'') (Inr (None, None))
      else throw_if (\<not> truthy timezone) (BudgetInvalid (window @ '' budget requires a timezone''))
      (case date_parse js now of None \<Rightarrow> Inl (BudgetInvalid ''budget time is invalid'')
       | Some t \<Rightarrow>
         let z = the timezone in
         rbind (zonedDateParts js t z) (\<lambda>(y, m, d).
         let start = (if window = ''day'' then (y, m, d) else (y, m, 1));
             end' = (if window = ''day'' then addCalendarDays start 1 else addCalendarMonths start 1) in
         rbind (zonedMidnight js start z) (\<lambda>s.
         rbind (zonedMidnight js end' z) (\<lambda>e.
           Inr (Some (to_iso_string js s), Some (to_iso_string js e)))))))"

section \<open>Accounting\<close>

definition usageSubjectColumn :: "string \<Rightarrow> (usage_row \<Rightarrow> string option) option" where
  "usageSubjectColumn kind =
     (if kind = ''workspace'' then Some (\<lambda>u. Some (us_workspace u))
      else if kind = ''scope'' then Some (\<lambda>u. uf_scope (us_facts u))
      else if kind = ''actor'' then Some (\<lambda>u. uf_actor (us_facts u))
      else if kind = ''node_placement'' then Some (\<lambda>u. uf_placement (us_facts u))
      else if kind = ''connector_binding'' then Some (\<lambda>u. uf_connector (us_facts u))
      else if kind = ''extension_installation'' then Some (\<lambda>u. uf_installation (us_facts u))
      else None)"

text \<open>What the two sums are asked for: Workspace, subject, metric, window, bounds and ScopeExecution.\<close>

record account =
  ac_workspace :: string
  ac_subject :: binding_subject
  ac_metric :: string
  ac_window :: string
  ac_start :: "string option"
  ac_end :: "string option"
  ac_execution :: "string option"

definition usage_counts :: "account \<Rightarrow> (usage_row \<Rightarrow> string option) \<Rightarrow> usage_row \<Rightarrow> bool" where
  "usage_counts a col u = (us_workspace u = ac_workspace a \<and> col u = Some (subj_id (ac_subject a)) \<and> us_metric u = ac_metric a
     \<and> (subj_kind (ac_subject a) = ''node_placement'' \<longrightarrow> uf_composition (us_facts u) = Some (or_empty (subj_revision (ac_subject a))))
     \<and> (ac_window a = ''scope_execution'' \<longrightarrow> uf_execution (us_facts u) = ac_execution a)
     \<and> (truthy (ac_start a) \<longrightarrow> the (ac_start a) \<le> us_at u)
     \<and> (truthy (ac_end a) \<longrightarrow> us_at u < the (ac_end a)))"

text \<open>
  \<^verbatim>\<open>COALESCE(SUM(x), 0)\<close>: \<open>sql_sum\<close> is the sum SQLite forms of the \<^verbatim>\<open>REAL\<close> values of the selected rows. Its
  rounding, and the order in which the rows are added, are the database's.
\<close>

definition sum_or_zero :: "(rat list \<Rightarrow> rat) \<Rightarrow> rat list \<Rightarrow> rat" where
  "sum_or_zero sql_sum xs = (if xs = [] then 0 else sql_sum xs)"

definition committedAmount :: "(rat list \<Rightarrow> rat) \<Rightarrow> budget_db \<Rightarrow> account \<Rightarrow> (budget_error, rat) result" where
  "committedAmount sql_sum db a =
     (if ac_window a = ''operation'' then Inr 0
      else throw_if (ac_window a = ''scope_execution'' \<and> \<not> truthy (ac_execution a))
        (BudgetInvalid ''scope_execution budget requires a ScopeExecution'')
      (case usageSubjectColumn (subj_kind (ac_subject a)) of
         None \<Rightarrow> Inl (BudgetConstraint ''resource_usage_entries'')
       | Some col \<Rightarrow> Inr (sum_or_zero sql_sum (map us_amount (filter (usage_counts a col) (usage_entries db))))))"

definition holds_open :: "account \<Rightarrow> string option \<Rightarrow> item_row \<Rightarrow> reservation_row \<Rightarrow> bool" where
  "holds_open a excluding i r = (resv_id r = it_reservation i \<and> res_workspace r = ac_workspace a
     \<and> res_state r \<in> {Reserved, Outcome_Unknown}
     \<and> (ac_window a = ''scope_execution'' \<longrightarrow> uf_execution (res_facts r) = ac_execution a)
     \<and> (truthy excluding \<longrightarrow> resv_id r \<noteq> the excluding))"

definition item_counts :: "account \<Rightarrow> item_row \<Rightarrow> bool" where
  "item_counts a i = (it_subject_kind i = subj_kind (ac_subject a) \<and> it_subject_id i = subj_id (ac_subject a)
     \<and> it_subject_revision i = or_empty (subj_revision (ac_subject a)) \<and> it_metric i = ac_metric a \<and> it_window i = ac_window a
     \<and> (truthy (ac_start a) \<longrightarrow> it_start i = ac_start a) \<and> (truthy (ac_end a) \<longrightarrow> it_end i = ac_end a))"

definition reservedAmount :: "(rat list \<Rightarrow> rat) \<Rightarrow> budget_db \<Rightarrow> account \<Rightarrow> string option \<Rightarrow> (budget_error, rat) result" where
  "reservedAmount sql_sum db a excluding =
     (if ac_window a = ''operation'' then Inr 0
      else throw_if (ac_window a = ''scope_execution'' \<and> \<not> truthy (ac_execution a))
        (BudgetInvalid ''scope_execution budget requires a ScopeExecution'')
      (Inr (sum_or_zero sql_sum (map it_estimate (filter (\<lambda>i. item_counts a i \<and> list_ex (holds_open a excluding i) (reservations db))
              (reservation_items db))))))"

section \<open>Reading\<close>

text \<open>\<^verbatim>\<open>mapReservationItem\<close>: the subject an item row stands for.\<close>

definition item_subject :: "item_row \<Rightarrow> binding_subject" where
  "item_subject i = \<lparr>subj_kind = it_subject_kind i, subj_id = it_subject_id i,
     subj_revision = (if it_subject_kind i = ''node_placement'' then Some (it_subject_revision i) else None)\<rparr>"

definition item_compare :: "item_row \<Rightarrow> item_row \<Rightarrow> int" where
  "item_compare =
     or_compare (\<lambda>l r. binary_compare (it_subject_kind l) (it_subject_kind r))
    (or_compare (\<lambda>l r. binary_compare (it_subject_id l) (it_subject_id r))
    (or_compare (\<lambda>l r. binary_compare (it_metric l) (it_metric r))
    (or_compare (\<lambda>l r. binary_compare (it_window l) (it_window r))
                (\<lambda>l r. binary_compare (it_id l) (it_id r)))))"

definition mapReservation :: "budget_db \<Rightarrow> reservation_row \<Rightarrow> reservation" where
  "mapReservation db r = (r, js_sort item_compare (filter (\<lambda>i. it_reservation i = resv_id r) (reservation_items db)))"

definition getReservation :: "budget_db \<Rightarrow> string \<Rightarrow> reservation option" where
  "getReservation db i = map_option (mapReservation db) (row_where (\<lambda>r. resv_id r = i) (reservations db))"

definition requireReservation :: "budget_db \<Rightarrow> string \<Rightarrow> (budget_error, reservation) result" where
  "requireReservation db i = (case getReservation db i of
      None \<Rightarrow> Inl (BudgetInvalid (''reservation '' @ quoted i @ '' was not found'')) | Some r \<Rightarrow> Inr r)"

definition requireReservationForWorkspace :: "budget_db \<Rightarrow> string \<Rightarrow> string \<Rightarrow> (budget_error, reservation) result" where
  "requireReservationForWorkspace db i w = rbind (requireReservation db i) (\<lambda>r.
     throw_if (res_workspace (fst r) \<noteq> w) (BudgetInvalid (''reservation '' @ quoted i @ '' was not found'')) (Inr r))"

definition getBySource :: "budget_db \<Rightarrow> string \<Rightarrow> budget_source \<Rightarrow> reservation option" where
  "getBySource db w s = map_option (mapReservation db)
     (row_where (\<lambda>r. res_workspace r = w \<and> src_kind (res_source r) = src_kind s \<and> src_id (res_source r) = src_id s) (reservations db))"

definition listReservations :: "budget_db \<Rightarrow> string \<Rightarrow> reservation_state option \<Rightarrow> reservation list" where
  "listReservations db w state = map (mapReservation db)
     (js_sort (or_compare (\<lambda>l r. binary_compare (res_created r) (res_created l)) (\<lambda>l r. binary_compare (resv_id r) (resv_id l)))
       (filter (\<lambda>r. res_workspace r = w \<and> (case state of None \<Rightarrow> True | Some s \<Rightarrow> res_state r = s)) (reservations db)))"

definition listUsage :: "budget_db \<Rightarrow> string \<Rightarrow> string option \<Rightarrow> rat \<Rightarrow> usage_row list" where
  "listUsage db w metric limit = take (nat (min (max \<lfloor>limit\<rfloor> 1) 500))
     (js_sort (or_compare (\<lambda>l r. binary_compare (us_at r) (us_at l)) (\<lambda>l r. binary_compare (us_id r) (us_id l)))
       (filter (\<lambda>u. us_workspace u = w \<and> (truthy metric \<longrightarrow> us_metric u = the metric)) (usage_entries db)))"

section \<open>Digests\<close>

definition subject_json :: "binding_subject \<Rightarrow> json" where
  "subject_json s = JObj ([(''kind'', JStr (subj_kind s)), (''id'', JStr (subj_id s))]
     @ (case subj_revision s of None \<Rightarrow> [] | Some r \<Rightarrow> [(''composition_revision_id'', JStr r)]))"

definition budget_limit_json :: "budget_limit \<Rightarrow> json" where
  "budget_limit_json l = JObj ([(''policy_revision_id'', JStr (bl_revision l)), (''policy_binding_id'', JStr (bl_binding l)),
     (''rule_id'', JStr (bl_rule l)), (''subject'', subject_json (bl_subject l)), (''metric'', JStr (bl_metric l)),
     (''maximum'', JNum (bl_maximum l)), (''window'', JStr (bl_window l))]
     @ (case bl_timezone l of None \<Rightarrow> [] | Some z \<Rightarrow> [(''timezone'', JStr z)]))"

definition usage_facts_json :: "usage_facts \<Rightarrow> json" where
  "usage_facts_json f = JObj [(''workspace_id'', JStr (uf_workspace f)), (''principal_id'', JStr (uf_principal f)),
     (''operation_id'', JStr (uf_operation f)), (''scope_id'', jopt JStr (uf_scope f)), (''scope_execution_id'', jopt JStr (uf_execution f)),
     (''actor_id'', jopt JStr (uf_actor f)), (''scope_composition_revision_id'', jopt JStr (uf_composition f)),
     (''node_placement_id'', jopt JStr (uf_placement f)), (''connector_binding_id'', jopt JStr (uf_connector f)),
     (''extension_installation_id'', jopt JStr (uf_installation f))]"

definition amounts_json :: "(string \<times> rat) list \<Rightarrow> json" where
  "amounts_json m = JObj (map (\<lambda>(k, a). (k, JNum a)) m)"

definition request_json :: "budget_source \<Rightarrow> string \<Rightarrow> usage_facts \<Rightarrow> (string \<times> rat) list \<Rightarrow> budget_limit list \<Rightarrow> json" where
  "request_json s ev f est ls = JObj [(''source'', JObj [(''kind'', JStr (src_kind s)), (''id'', JStr (src_id s))]),
     (''policy_evaluation_id'', JStr ev), (''facts'', usage_facts_json f), (''estimates'', amounts_json est),
     (''limits'', JArr (map budget_limit_json ls))]"

section \<open>Reserving\<close>

definition limit_account :: "usage_facts \<Rightarrow> budget_limit \<Rightarrow> string option \<times> string option \<Rightarrow> account" where
  "limit_account f l bounds = \<lparr>ac_workspace = uf_workspace f, ac_subject = bl_subject l, ac_metric = bl_metric l,
     ac_window = bl_window l, ac_start = fst bounds, ac_end = snd bounds, ac_execution = uf_execution f\<rparr>"

definition reserve_item ::
  "platform \<Rightarrow> (rat list \<Rightarrow> rat) \<Rightarrow> string \<Rightarrow> string \<Rightarrow> usage_facts \<Rightarrow> (string \<times> rat) list \<Rightarrow> budget_db \<Rightarrow> string \<times> budget_limit
    \<Rightarrow> (budget_error, item_row) result" where
  "reserve_item js sql_sum now reservationId facts estimates db fl = (case fl of (fresh, l) \<Rightarrow>
     case map_of estimates (bl_metric l) of
       None \<Rightarrow> Inl (BudgetInvalid (''estimate for constrained metric '' @ quoted (bl_metric l) @ '' is required''))
     | Some amount \<Rightarrow>
       rbind (budgetWindowBounds js (bl_window l) (bl_timezone l) now facts) (\<lambda>bounds.
       rbind (committedAmount sql_sum db (limit_account facts l bounds)) (\<lambda>committed.
       rbind (reservedAmount sql_sum db (limit_account facts l bounds) None) (\<lambda>reserved.
       throw_if (js_add (js_add committed reserved) amount > bl_maximum l)
         (BudgetExceeded (bl_metric l) (bl_subject l) (bl_maximum l) committed reserved amount)
       (Inr \<lparr>it_id = ''budget_reservation_item_'' @ fresh, it_reservation = reservationId, it_revision = bl_revision l,
          it_binding = bl_binding l, it_rule = bl_rule l, it_subject_kind = subj_kind (bl_subject l),
          it_subject_id = subj_id (bl_subject l), it_subject_revision = or_empty (subj_revision (bl_subject l)),
          it_metric = bl_metric l, it_maximum = bl_maximum l, it_window = bl_window l, it_timezone = bl_timezone l,
          it_start = fst bounds, it_end = snd bounds, it_estimate = amount\<rparr>)))))"

text \<open>The keys the schema declares unique, and its checks.\<close>

definition item_key :: "item_row \<Rightarrow> string \<times> string \<times> string \<times> string \<times> string \<times> string \<times> string \<times> string" where
  "item_key i = (it_reservation i, it_binding i, it_rule i, it_subject_kind i, it_subject_id i, it_subject_revision i, it_metric i, it_window i)"

fun insert_items :: "item_row list \<Rightarrow> budget_db \<Rightarrow> (budget_error, budget_db) result" where
  "insert_items [] db = Inr db"
| "insert_items (i # is) db =
     throw_if (\<exists>x \<in> set (reservation_items db). it_id x = it_id i \<or> item_key x = item_key i) (BudgetConstraint ''budget_reservation_items'')
     (throw_if (it_subject_kind i \<notin> set subject_kinds \<or> it_window i \<notin> set budget_windows \<or> it_maximum i < 0 \<or> it_estimate i < 0)
       (BudgetConstraint ''budget_reservation_items'')
     (insert_items is (db\<lparr>reservation_items := reservation_items db @ [i]\<rparr>)))"

definition insert_reservation :: "policy_db \<Rightarrow> reservation_row \<Rightarrow> budget_db \<Rightarrow> (budget_error, budget_db) result" where
  "insert_reservation pdb r db =
     throw_if (\<exists>x \<in> set (reservations db). resv_id x = resv_id r \<or> (res_workspace x = res_workspace r \<and> res_source x = res_source r))
       (BudgetConstraint ''budget_reservations'')
     (throw_if (\<not> (\<exists>e \<in> set (policy_evaluations pdb). ev_id e = res_evaluation r)) (BudgetConstraint ''policy_evaluations'')
     (Inr (db\<lparr>reservations := reservations db @ [r]\<rparr>)))"

record reserve_input =
  rs_source :: budget_source
  rs_evaluation :: evaluation_rec
  rs_facts :: usage_facts
  rs_estimates :: "(string \<times> rat) list"

text \<open>The \<^verbatim>\<open>randomUUID\<close> values are \<open>fresh 0\<close> for the reservation and \<open>fresh 1\<close>, \<open>fresh 2\<close>, ... for its items.\<close>

definition reserve ::
  "platform \<Rightarrow> (rat list \<Rightarrow> rat) \<Rightarrow> string \<Rightarrow> (nat \<Rightarrow> string) \<Rightarrow> reserve_input \<Rightarrow> policy_db \<Rightarrow> budget_db
    \<Rightarrow> (budget_error, reservation option \<times> budget_db) result" where
  "reserve js sql_sum now fresh input pdb db =
     (let ev = rs_evaluation input in
      throw_if (ev_workspace ev \<noteq> Some (uf_workspace (rs_facts input)))
        (BudgetInvalid ''Policy evaluation and usage facts belong to different Workspaces'')
     (case ev_facts ev of
       None \<Rightarrow> Inl (BudgetInvalid ''Policy evaluation does not retain the exact facts required for a reservation'')
     | Some evaluated \<Rightarrow>
       throw_if (ev_decision ev = Pd_Deny) (BudgetInvalid ''a denied Policy evaluation cannot reserve resources'')
      (rbind (normalizeSource (rs_source input)) (\<lambda>source.
       rbind (normalizeUsageFacts (rs_facts input)) (\<lambda>facts.
       rbind (assertEvaluationMatchesUsage evaluated facts) (\<lambda>_.
       rbind (normalizeUsage js (rs_estimates input) ''estimate'') (\<lambda>estimates.
       if ev_limits ev = [] then Inr (None, db)
       else
         let requestDigest = json_digest js (request_json source (ev_id ev) facts estimates (ev_limits ev)) in
         case getBySource db (uf_workspace facts) source of
           Some existing \<Rightarrow>
             throw_if (res_digest (fst existing) \<noteq> requestDigest)
               (BudgetConflict source ''the source was already reserved with different facts or limits'')
             (Inr (Some existing, db))
         | None \<Rightarrow>
             let reservationId = ''budget_reservation_'' @ fresh 0 in
             rbind (rmapM (reserve_item js sql_sum now reservationId facts estimates db)
                      (zip (map (\<lambda>n. fresh (Suc n)) [0..<length (ev_limits ev)]) (ev_limits ev))) (\<lambda>items.
             rbind (insert_reservation pdb \<lparr>resv_id = reservationId, res_workspace = uf_workspace facts, res_source = source,
                      res_evaluation = ev_id ev, res_facts = facts, res_estimates = estimates, res_state = Reserved,
                      res_digest = requestDigest, res_actual = None, res_created = now, res_updated = now, res_completed = None\<rparr> db) (\<lambda>db1.
             rbind (insert_items items db1) (\<lambda>db2.
             rbind (requireReservation db2 reservationId) (\<lambda>r. Inr (Some r, db2))))))))))))"

section \<open>Settling\<close>

definition item_account :: "reservation_row \<Rightarrow> item_row \<Rightarrow> account" where
  "item_account r i = \<lparr>ac_workspace = res_workspace r, ac_subject = item_subject i, ac_metric = it_metric i, ac_window = it_window i,
     ac_start = it_start i, ac_end = it_end i, ac_execution = uf_execution (res_facts r)\<rparr>"

definition item_exceeded :: "(rat list \<Rightarrow> rat) \<Rightarrow> budget_db \<Rightarrow> reservation_row \<Rightarrow> (string \<times> rat) list \<Rightarrow> item_row \<Rightarrow> (budget_error, bool) result" where
  "item_exceeded sql_sum db r actual i = (case map_of actual (it_metric i) of
      None \<Rightarrow> Inl (BudgetInvalid (''actual usage for constrained metric '' @ quoted (it_metric i) @ '' is required''))
    | Some amount \<Rightarrow>
      rbind (committedAmount sql_sum db (item_account r i)) (\<lambda>committed.
      rbind (reservedAmount sql_sum db (item_account r i) (Some (resv_id r))) (\<lambda>reserved.
        Inr (js_add (js_add committed reserved) amount > it_maximum i))))"

fun insert_usage :: "string \<Rightarrow> reservation_row \<Rightarrow> (string \<times> string \<times> rat) list \<Rightarrow> budget_db \<Rightarrow> (budget_error, budget_db) result" where
  "insert_usage now r [] db = Inr db"
| "insert_usage now r ((fresh, metric, amount) # rest) db =
     throw_if (\<exists>u \<in> set (usage_entries db). us_id u = ''resource_usage_'' @ fresh
         \<or> (us_workspace u = res_workspace r \<and> us_source u = res_source r \<and> us_metric u = metric))
       (BudgetConstraint ''resource_usage_entries'')
     (insert_usage now r rest (db\<lparr>usage_entries := usage_entries db @ [\<lparr>us_id = ''resource_usage_'' @ fresh,
        us_workspace = res_workspace r, us_source = res_source r, us_facts = res_facts r, us_metric = metric,
        us_amount = amount, us_at = now\<rparr>]\<rparr>))"

definition settle :: "(reservation_row \<Rightarrow> reservation_row) \<Rightarrow> reservation_state set \<Rightarrow> reservation_row \<Rightarrow> budget_db \<Rightarrow> budget_db" where
  "settle f from r db = db\<lparr>reservations := set_where
     (\<lambda>x. resv_id x = resv_id r \<and> res_workspace x = res_workspace r \<and> res_state x \<in> from) f (reservations db)\<rparr>"

definition commit ::
  "platform \<Rightarrow> (rat list \<Rightarrow> rat) \<Rightarrow> string \<Rightarrow> (nat \<Rightarrow> string) \<Rightarrow> string \<Rightarrow> string \<Rightarrow> (string \<times> rat) list \<Rightarrow> budget_db
    \<Rightarrow> (budget_error, reservation \<times> budget_db) result" where
  "commit js sql_sum now fresh w i usage db =
     rbind (requireReservationForWorkspace db i w) (\<lambda>(r, items).
     rbind (normalizeUsage js usage ''actual usage'') (\<lambda>actual.
     let actualDigest = json_digest js (amounts_json actual) in
     if res_state r \<in> {Committed, Exceeded} then
       throw_if (res_actual r \<noteq> Some actualDigest) (BudgetConflict (res_source r) ''actual usage changed after it was committed'')
         (Inr ((r, items), db))
     else throw_if (res_state r = Released) (BudgetConflict (res_source r) ''a released reservation cannot be committed'')
      (rbind (rmapM (item_exceeded sql_sum db r actual) items) (\<lambda>over.
       rbind (insert_usage now r (zip (map fresh [0..<length actual]) actual) db) (\<lambda>db1.
       let db2 = settle (\<lambda>x. x\<lparr>res_state := (if True \<in> set over then Exceeded else Committed), res_actual := Some actualDigest,
                   res_updated := now, res_completed := Some now\<rparr>) {Reserved, Outcome_Unknown} r db1
       in rbind (requireReservation db2 (resv_id r)) (\<lambda>r'. Inr (r', db2)))))))"

definition state_text :: "reservation_state \<Rightarrow> string" where
  "state_text s = (case s of Reserved \<Rightarrow> ''reserved'' | Committed \<Rightarrow> ''committed'' | Released \<Rightarrow> ''released''
     | Outcome_Unknown \<Rightarrow> ''outcome_unknown'' | Exceeded \<Rightarrow> ''exceeded'')"

definition release :: "string \<Rightarrow> string \<Rightarrow> string \<Rightarrow> budget_db \<Rightarrow> (budget_error, reservation \<times> budget_db) result" where
  "release now w i db = rbind (requireReservationForWorkspace db i w) (\<lambda>(r, items).
     if res_state r = Released then Inr ((r, items), db)
     else throw_if (res_state r \<noteq> Reserved)
       (BudgetConflict (res_source r) (''a '' @ state_text (res_state r) @ '' reservation cannot be released''))
     (let db' = settle (\<lambda>x. x\<lparr>res_state := Released, res_updated := now, res_completed := Some now\<rparr>) {Reserved} r db
      in rbind (requireReservation db' (resv_id r)) (\<lambda>r'. Inr (r', db'))))"

definition markOutcomeUnknown :: "string \<Rightarrow> string \<Rightarrow> string \<Rightarrow> budget_db \<Rightarrow> (budget_error, reservation \<times> budget_db) result" where
  "markOutcomeUnknown now w i db = rbind (requireReservationForWorkspace db i w) (\<lambda>(r, items).
     if res_state r = Outcome_Unknown then Inr ((r, items), db)
     else throw_if (res_state r \<noteq> Reserved)
       (BudgetConflict (res_source r) (''a '' @ state_text (res_state r) @ '' reservation cannot become outcome_unknown''))
     (let db' = settle (\<lambda>x. x\<lparr>res_state := Outcome_Unknown, res_updated := now\<rparr>) {Reserved} r db
      in rbind (requireReservation db' (resv_id r)) (\<lambda>r'. Inr (r', db'))))"

definition reconcileNoEffect :: "string \<Rightarrow> string \<Rightarrow> string \<Rightarrow> budget_db \<Rightarrow> (budget_error, reservation \<times> budget_db) result" where
  "reconcileNoEffect now w i db = rbind (requireReservationForWorkspace db i w) (\<lambda>(r, items).
     if res_state r = Released then Inr ((r, items), db)
     else throw_if (res_state r \<noteq> Outcome_Unknown)
       (BudgetConflict (res_source r) ''only outcome_unknown can be reconciled as no effect'')
     (let db' = settle (\<lambda>x. x\<lparr>res_state := Released, res_updated := now, res_completed := Some now\<rparr>) {Outcome_Unknown} r db
      in rbind (requireReservation db' (resv_id r)) (\<lambda>r'. Inr (r', db'))))"

end
