(* ===== verification/Simulation.thy ===== *)
theory Simulation
  imports Main
begin

text \<open>
  The contract between a component and the abstract machine it implements: under an invariant that
  its steps keep, every concrete step is a step of the abstract machine. What the machine never
  undoes, the component never undoes.
\<close>

locale simulation =
  fixes cstep :: "'c \<Rightarrow> 'c \<Rightarrow> bool" and astep :: "'a \<Rightarrow> 'a \<Rightarrow> bool" and abst :: "'c \<Rightarrow> 'a" and inv :: "'c \<Rightarrow> bool"
  assumes inv_step: "inv c \<Longrightarrow> cstep c c' \<Longrightarrow> inv c'"
    and sim: "inv c \<Longrightarrow> cstep c c' \<Longrightarrow> astep (abst c) (abst c')"
begin

lemma inv_run: "cstep\<^sup>*\<^sup>* c c' \<Longrightarrow> inv c \<Longrightarrow> inv c'"
  by (induction rule: rtranclp_induct) (auto intro: inv_step)

lemma sim_run: "cstep\<^sup>*\<^sup>* c c' \<Longrightarrow> inv c \<Longrightarrow> astep\<^sup>*\<^sup>* (abst c) (abst c')"
proof (induction rule: rtranclp_induct)
  case (step c1 c2)
  then have "inv c1" using inv_run by blast
  then show ?case using step sim by (meson rtranclp.rtrancl_into_rtrancl)
qed simp

lemma stable_run:
  assumes "cstep\<^sup>*\<^sup>* c c'" and "inv c" and "P (abst c)" and "\<And>a a'. P a \<Longrightarrow> astep a a' \<Longrightarrow> P a'"
  shows "P (abst c')"
proof -
  have "astep\<^sup>*\<^sup>* (abst c) (abst c')" using assms(1,2) by (rule sim_run)
  then show ?thesis by (induction rule: rtranclp_induct) (use assms(3,4) in auto)
qed

end

end
