(* ===== verification/Budget_Ledger.thy ===== *)
theory Budget_Ledger
  imports Budgets Normal_Forms Simulation
begin

text \<open>
  The budget store as a transition system: what each operation writes, the keys its tables keep, and
  the ledger of reservation states it implements.
\<close>

section \<open>What each operation writes\<close>

lemma insert_itemsD:
  "insert_items is db = Inr db' \<Longrightarrow> db' = db\<lparr>reservation_items := reservation_items db @ is\<rparr>
    \<and> distinct (map item_key is) \<and> item_key ` set is \<inter> item_key ` set (reservation_items db) = {}
    \<and> distinct (map it_id is) \<and> it_id ` set is \<inter> it_id ` set (reservation_items db) = {}"
proof (induction "is" db rule: insert_items.induct)
  case (2 i "is" db)
  then have "\<forall>x \<in> set (reservation_items db). it_id x \<noteq> it_id i \<and> item_key x \<noteq> item_key i"
    and "insert_items is (db\<lparr>reservation_items := reservation_items db @ [i]\<rparr>) = Inr db'" by (auto simp: result_simps)
  moreover from this 2 have "db' = (db\<lparr>reservation_items := reservation_items db @ [i]\<rparr>)\<lparr>reservation_items := (reservation_items db @ [i]) @ is\<rparr>
      \<and> distinct (map item_key is) \<and> item_key ` set is \<inter> item_key ` set (reservation_items db @ [i]) = {}
      \<and> distinct (map it_id is) \<and> it_id ` set is \<inter> it_id ` set (reservation_items db @ [i]) = {}" by (auto simp: result_simps)
  ultimately show ?case by auto
qed auto

lemma insert_reservationD:
  "insert_reservation pdb r db = Inr db' \<Longrightarrow> db' = db\<lparr>reservations := reservations db @ [r]\<rparr> \<and> resv_id r \<notin> resv_id ` set (reservations db)
    \<and> (res_workspace r, res_source r) \<notin> (\<lambda>r. (res_workspace r, res_source r)) ` set (reservations db)"
  by (auto simp: insert_reservation_def result_simps)

lemma insert_usageD:
  "insert_usage now r xs db = Inr db' \<Longrightarrow> \<exists>new. db' = db\<lparr>usage_entries := usage_entries db @ new\<rparr>
    \<and> map (\<lambda>u. (us_metric u, us_amount u)) new = map snd xs
    \<and> (\<forall>u \<in> set new. us_workspace u = res_workspace r \<and> us_source u = res_source r \<and> us_facts u = res_facts r \<and> us_at u = now)"
proof (induction now r xs db rule: insert_usage.induct)
  case (2 now r fresh metric amount rest db)
  let ?u = "\<lparr>us_id = ''resource_usage_'' @ fresh, us_workspace = res_workspace r, us_source = res_source r, us_facts = res_facts r,
    us_metric = metric, us_amount = amount, us_at = now\<rparr>"
  from 2 obtain new where "db' = (db\<lparr>usage_entries := usage_entries db @ [?u]\<rparr>)\<lparr>usage_entries := (usage_entries db @ [?u]) @ new\<rparr>"
    "map (\<lambda>u. (us_metric u, us_amount u)) new = map snd rest"
    "\<forall>u \<in> set new. us_workspace u = res_workspace r \<and> us_source u = res_source r \<and> us_facts u = res_facts r \<and> us_at u = now"
    by (auto simp: result_simps)
  then show ?case by (intro exI [of _ "?u # new"]) simp
qed (auto intro: exI [of _ "[]"])

lemma key_fresh: "k \<notin> key ` set rs \<Longrightarrow> row_where (\<lambda>r. key r = k) rs = None"
  by (auto simp: row_where_None_iff)

lemma requireReservation_Inr:
  "requireReservation db i = Inr r \<longleftrightarrow> (\<exists>x. row_where (\<lambda>r. resv_id r = i) (reservations db) = Some x \<and> r = mapReservation db x)"
  by (auto simp: requireReservation_def getReservation_def split: option.splits)

lemma requireReservationForWorkspace_Inr:
  "requireReservationForWorkspace db i w = Inr (r, items) \<longleftrightarrow> row_where (\<lambda>r. resv_id r = i) (reservations db) = Some r
     \<and> (r, items) = mapReservation db r \<and> res_workspace r = w"
  by (auto simp: requireReservationForWorkspace_def result_simps requireReservation_Inr mapReservation_def)

definition new_reservation ::
  "platform \<Rightarrow> string \<Rightarrow> string \<Rightarrow> evaluation_rec \<Rightarrow> budget_source \<Rightarrow> usage_facts \<Rightarrow> (string \<times> rat) list \<Rightarrow> reservation_row" where
  "new_reservation js now i ev source facts estimates = \<lparr>resv_id = i, res_workspace = uf_workspace facts, res_source = source,
     res_evaluation = ev_id ev, res_facts = facts, res_estimates = estimates, res_state = Reserved,
     res_digest = json_digest js (request_json source (ev_id ev) facts estimates (ev_limits ev)), res_actual = None,
     res_created = now, res_updated = now, res_completed = None\<rparr>"

text \<open>What a request is normalised to before the store is consulted.\<close>

definition request_of :: "platform \<Rightarrow> reserve_input \<Rightarrow> (budget_error, budget_source \<times> usage_facts \<times> (string \<times> rat) list) result" where
  "request_of js input = (let ev = rs_evaluation input in
     throw_if (ev_workspace ev \<noteq> Some (uf_workspace (rs_facts input)))
       (BudgetInvalid ''Policy evaluation and usage facts belong to different Workspaces'')
     (case ev_facts ev of
       None \<Rightarrow> Inl (BudgetInvalid ''Policy evaluation does not retain the exact facts required for a reservation'')
     | Some evaluated \<Rightarrow>
       throw_if (ev_decision ev = Pd_Deny) (BudgetInvalid ''a denied Policy evaluation cannot reserve resources'')
      (rbind (normalizeSource (rs_source input)) (\<lambda>source.
       rbind (normalizeUsageFacts (rs_facts input)) (\<lambda>facts.
       rbind (assertEvaluationMatchesUsage evaluated facts) (\<lambda>_.
       rbind (normalizeUsage js (rs_estimates input) ''estimate'') (\<lambda>estimates. Inr (source, facts, estimates))))))))"

lemma reserve_eq:
  "reserve js sql_sum now fresh input pdb db = rbind (request_of js input) (\<lambda>(source, facts, estimates).
     let ev = rs_evaluation input; i = ''budget_reservation_'' @ fresh 0; row = new_reservation js now i ev source facts estimates in
     if ev_limits ev = [] then Inr (None, db)
     else case getBySource db (uf_workspace facts) source of
       Some existing \<Rightarrow> throw_if (res_digest (fst existing) \<noteq> res_digest row)
         (BudgetConflict source ''the source was already reserved with different facts or limits'') (Inr (Some existing, db))
     | None \<Rightarrow>
         rbind (rmapM (reserve_item js sql_sum now i facts estimates db)
           (zip (map (\<lambda>n. fresh (Suc n)) [0..<length (ev_limits ev)]) (ev_limits ev))) (\<lambda>items.
         rbind (insert_reservation pdb row db) (\<lambda>db1. rbind (insert_items items db1) (\<lambda>db2.
         rbind (requireReservation db2 i) (\<lambda>r. Inr (Some r, db2))))))"
proof -
  have assoc: "rbind (rbind m k) h = rbind m (\<lambda>x. rbind (k x) h)" for m :: "(budget_error, 'x) result" and k :: "'x \<Rightarrow> (budget_error, 'y) result"
      and h :: "'y \<Rightarrow> (budget_error, 'z) result" by (cases m) simp_all
  have th: "rbind (throw_if b e m) k = throw_if b e (rbind m k)" for b e and m :: "(budget_error, 'x) result" and k :: "'x \<Rightarrow> (budget_error, 'y) result"
    by (simp add: throw_if_def)
  show ?thesis unfolding reserve_def request_of_def Let_def new_reservation_def
    by (cases "ev_facts (rs_evaluation input)") (simp_all add: assoc th cong: if_cong option.case_cong)
qed

definition item_for :: "string \<Rightarrow> string \<Rightarrow> budget_limit \<Rightarrow> string option \<times> string option \<Rightarrow> rat \<Rightarrow> item_row" where
  "item_for fresh i l bounds amount = \<lparr>it_id = ''budget_reservation_item_'' @ fresh, it_reservation = i, it_revision = bl_revision l,
     it_binding = bl_binding l, it_rule = bl_rule l, it_subject_kind = subj_kind (bl_subject l),
     it_subject_id = subj_id (bl_subject l), it_subject_revision = or_empty (subj_revision (bl_subject l)),
     it_metric = bl_metric l, it_maximum = bl_maximum l, it_window = bl_window l, it_timezone = bl_timezone l,
     it_start = fst bounds, it_end = snd bounds, it_estimate = amount\<rparr>"

lemma reserve_item_Inr:
  "reserve_item js sql_sum now i facts estimates db (fresh, l) = Inr x \<longleftrightarrow>
    (\<exists>amount bounds c q. map_of estimates (bl_metric l) = Some amount \<and> budgetWindowBounds js (bl_window l) (bl_timezone l) now facts = Inr bounds
      \<and> committedAmount sql_sum db (limit_account facts l bounds) = Inr c \<and> reservedAmount sql_sum db (limit_account facts l bounds) None = Inr q
      \<and> js_add (js_add c q) amount \<le> bl_maximum l \<and> x = item_for fresh i l bounds amount)"
  unfolding reserve_item_def item_for_def
  by (cases "map_of estimates (bl_metric l)") (auto simp: rbind_Inr_iff throw_if_Inr_iff not_less simp del: append.simps)

lemma reserveE:
  assumes "reserve js sql_sum now fresh input pdb db = Inr (res, db')"
  obtains (none) "res = None" "db' = db"
  | (existing) source facts estimates r where "request_of js input = Inr (source, facts, estimates)" "ev_limits (rs_evaluation input) \<noteq> []"
      "getBySource db (uf_workspace facts) source = Some r" "res = Some r" "db' = db"
      "res_digest (fst r) = res_digest (new_reservation js now '''' (rs_evaluation input) source facts estimates)"
  | (opened) source facts estimates items row i where "request_of js input = Inr (source, facts, estimates)" "ev_limits (rs_evaluation input) \<noteq> []"
      "i = ''budget_reservation_'' @ fresh 0" "row = new_reservation js now i (rs_evaluation input) source facts estimates"
      "rmapM (reserve_item js sql_sum now i facts estimates db)
         (zip (map (\<lambda>n. fresh (Suc n)) [0..<length (ev_limits (rs_evaluation input))]) (ev_limits (rs_evaluation input))) = Inr items"
      "insert_reservation pdb row db = Inr (db\<lparr>reservations := reservations db @ [row]\<rparr>)"
      "insert_items items (db\<lparr>reservations := reservations db @ [row]\<rparr>) = Inr db'"
      "db' = db\<lparr>reservations := reservations db @ [row], reservation_items := reservation_items db @ items\<rparr>"
      "res = Some (mapReservation db' row)" "i \<notin> resv_id ` set (reservations db)"
      "(uf_workspace facts, source) \<notin> (\<lambda>r. (res_workspace r, res_source r)) ` set (reservations db)"
proof -
  from assms obtain source facts estimates where req: "request_of js input = Inr (source, facts, estimates)"
    unfolding reserve_eq rbind_Inr_iff by auto
  show thesis
  proof (cases "ev_limits (rs_evaluation input) = []")
    case True
    then show thesis using none assms req by (simp add: reserve_eq)
  next
    case lim: False
    show thesis
    proof (cases "getBySource db (uf_workspace facts) source")
      case (Some r)
      then show thesis using existing [OF req lim Some] assms req lim
        by (simp add: reserve_eq result_simps Let_def new_reservation_def)
    next
      case None
      let ?i = "''budget_reservation_'' @ fresh 0"
      let ?row = "new_reservation js now ?i (rs_evaluation input) source facts estimates"
      from assms req lim None obtain items db1 r where
          items: "rmapM (reserve_item js sql_sum now ?i facts estimates db)
            (zip (map (\<lambda>n. fresh (Suc n)) [0..<length (ev_limits (rs_evaluation input))]) (ev_limits (rs_evaluation input))) = Inr items"
          and ins: "insert_reservation pdb ?row db = Inr db1" and its: "insert_items items db1 = Inr db'"
          and r: "requireReservation db' ?i = Inr r" "res = Some r"
        by (auto simp: reserve_eq result_simps Let_def)
      note d = insert_reservationD [OF ins] and e = insert_itemsD [OF its]
      have i: "?i \<notin> resv_id ` set (reservations db)" and s: "(uf_workspace facts, source) \<notin> (\<lambda>r. (res_workspace r, res_source r)) ` set (reservations db)"
        using d by (simp_all add: new_reservation_def)
      have db1: "db1 = db\<lparr>reservations := reservations db @ [?row]\<rparr>" using d by blast
      then have db': "db' = db\<lparr>reservations := reservations db @ [?row], reservation_items := reservation_items db @ items\<rparr>" using e by simp
      have "row_where (\<lambda>r. resv_id r = ?i) (reservations db) = None" using i by (rule key_fresh)
      then have "row_where (\<lambda>r. resv_id r = ?i) (reservations db') = Some ?row"
        by (simp add: db' row_where_append new_reservation_def)
      then have res: "res = Some (mapReservation db' ?row)" using r by (simp add: requireReservation_Inr)
      show thesis by (rule opened [OF req lim refl refl items ins [unfolded db1] its [unfolded db1] db' res i s])
    qed
  qed
qed

lemma commitE:
  assumes "commit js sql_sum now fresh w i usage db = Inr (res, db')"
  obtains (replay) "db' = db" "row_where (\<lambda>r. resv_id r = i) (reservations db) = Some (fst res)" "res_state (fst res) \<in> {Committed, Exceeded}"
  | (settled) r actual over new where "row_where (\<lambda>r. resv_id r = i) (reservations db) = Some r" "res_workspace r = w"
      "normalizeUsage js usage ''actual usage'' = Inr actual" "res_state r \<in> {Reserved, Outcome_Unknown}"
      "rmapM (item_exceeded sql_sum db r actual) (snd (mapReservation db r)) = Inr over"
      "map (\<lambda>u. (us_metric u, us_amount u)) new = actual"
      "\<forall>u \<in> set new. us_workspace u = w \<and> us_source u = res_source r \<and> us_facts u = res_facts r \<and> us_at u = now"
      "db' = settle (\<lambda>x. x\<lparr>res_state := (if True \<in> set over then Exceeded else Committed),
         res_actual := Some (json_digest js (amounts_json actual)), res_updated := now, res_completed := Some now\<rparr>)
         {Reserved, Outcome_Unknown} r (db\<lparr>usage_entries := usage_entries db @ new\<rparr>)"
      "requireReservation db' i = Inr res"
proof -
  from assms obtain r items actual where r: "requireReservationForWorkspace db i w = Inr (r, items)"
      and a: "normalizeUsage js usage ''actual usage'' = Inr actual"
    unfolding commit_def rbind_Inr_iff by (auto simp: rbind_Inr_iff)
  have row: "row_where (\<lambda>r. resv_id r = i) (reservations db) = Some r" "(r, items) = mapReservation db r" "res_workspace r = w"
    using r by (simp_all add: requireReservationForWorkspace_Inr)
  have i: "resv_id r = i" using row(1) by (auto dest: row_where_SomeD)
  show thesis
  proof (cases "res_state r \<in> {Committed, Exceeded}")
    case True
    then have "res = (r, items)" "db' = db" using assms r a by (auto simp: commit_def result_simps)
    then show thesis using replay row(1) True by simp
  next
    case False
    then have open': "res_state r \<in> {Reserved, Outcome_Unknown}"
      using assms r a by (cases "res_state r") (auto simp: commit_def result_simps)
    from assms r a False obtain over db1 where over: "rmapM (item_exceeded sql_sum db r actual) items = Inr over"
        and use: "insert_usage now r (zip (map fresh [0..<length actual]) actual) db = Inr db1"
        and db': "db' = settle (\<lambda>x. x\<lparr>res_state := (if True \<in> set over then Exceeded else Committed),
         res_actual := Some (json_digest js (amounts_json actual)), res_updated := now, res_completed := Some now\<rparr>)
         {Reserved, Outcome_Unknown} r db1" and res: "requireReservation db' (resv_id r) = Inr res"
      by (auto simp: commit_def result_simps Let_def)
    from insert_usageD [OF use] obtain new where new: "db1 = db\<lparr>usage_entries := usage_entries db @ new\<rparr>"
        "map (\<lambda>u. (us_metric u, us_amount u)) new = map snd (zip (map fresh [0..<length actual]) actual)"
        "\<forall>u \<in> set new. us_workspace u = res_workspace r \<and> us_source u = res_source r \<and> us_facts u = res_facts r \<and> us_at u = now" by blast
    have "map snd (zip (map fresh [0..<length actual]) actual) = actual" by simp
    then show thesis
      using settled [OF row(1,3) a open' _ _ _ _ res [unfolded i], of over new] over new row(2,3) db' by (metis snd_conv)
  qed
qed

text \<open>The three operations that only move a reservation: each is a replay or one \<^const>\<open>settle\<close>.\<close>

lemma moveE:
  assumes "rbind (requireReservationForWorkspace db i w) (\<lambda>(r, items). if res_state r = final then Inr ((r, items), db)
      else throw_if (res_state r \<noteq> from) (e r) (let db' = settle f {from} r db
        in rbind (requireReservation db' (resv_id r)) (\<lambda>r'. Inr (r', db')))) = Inr (res, db')"
  obtains (replay) "db' = db"
  | (moved) r where "row_where (\<lambda>r. resv_id r = i) (reservations db) = Some r" "res_state r = from" "db' = settle f {from} r db"
proof -
  from assms obtain r items where r: "requireReservationForWorkspace db i w = Inr (r, items)" unfolding rbind_Inr_iff by auto
  show thesis
  proof (cases "res_state r = final")
    case True
    then show thesis using assms r replay by simp
  next
    case False
    then show thesis using assms r moved [of r] by (auto simp: result_simps Let_def requireReservationForWorkspace_Inr)
  qed
qed

lemmas move_defs = release_def markOutcomeUnknown_def reconcileNoEffect_def

section \<open>Keys\<close>

inductive budget_step :: "platform \<Rightarrow> (rat list \<Rightarrow> rat) \<Rightarrow> budget_db \<Rightarrow> budget_db \<Rightarrow> bool" for js sql_sum where
  reserve: "reserve js sql_sum now fresh input pdb db = Inr (res, db') \<Longrightarrow> budget_step js sql_sum db db'"
| commit: "commit js sql_sum now fresh w i usage db = Inr (r, db') \<Longrightarrow> budget_step js sql_sum db db'"
| release: "release now w i db = Inr (r, db') \<Longrightarrow> budget_step js sql_sum db db'"
| unknown: "markOutcomeUnknown now w i db = Inr (r, db') \<Longrightarrow> budget_step js sql_sum db db'"
| reconcile: "reconcileNoEffect now w i db = Inr (r, db') \<Longrightarrow> budget_step js sql_sum db db'"

definition empty_budget_db :: budget_db where
  "empty_budget_db = \<lparr>reservations = [], reservation_items = [], usage_entries = []\<rparr>"

definition res_key :: "reservation_row \<Rightarrow> string \<times> string \<times> budget_source \<times> string \<times> usage_facts" where
  "res_key r = (resv_id r, res_workspace r, res_source r, res_digest r, res_facts r)"

definition budget_inv :: "budget_db \<Rightarrow> bool" where
  "budget_inv db \<longleftrightarrow> distinct (map resv_id (reservations db)) \<and> distinct (map (\<lambda>r. (res_workspace r, res_source r)) (reservations db))
     \<and> it_reservation ` set (reservation_items db) \<subseteq> resv_id ` set (reservations db)"

lemma settle_tables:
  assumes "\<And>x. res_key (f x) = res_key x"
  shows "map res_key (reservations (settle f S r db)) = map res_key (reservations db)"
    and "reservation_items (settle f S r db) = reservation_items db" and "usage_entries (settle f S r db) = usage_entries db"
  using assms by (simp_all add: settle_def map_set_where)

lemma budget_inv_keys:
  assumes "map res_key (reservations db') = map res_key (reservations db)" and "reservation_items db' = reservation_items db"
  shows "budget_inv db' = budget_inv db"
proof -
  have p: "map resv_id rs = map fst (map res_key rs)"
    "map (\<lambda>r. (res_workspace r, res_source r)) rs = map (\<lambda>(i, w, s, d). (w, s)) (map res_key rs)" for rs
    by (simp_all add: res_key_def)
  have "map resv_id (reservations db') = map resv_id (reservations db)"
    "map (\<lambda>r. (res_workspace r, res_source r)) (reservations db') = map (\<lambda>r. (res_workspace r, res_source r)) (reservations db)"
    unfolding p assms(1) by (rule refl)+
  moreover from this(1) have "resv_id ` set (reservations db') = resv_id ` set (reservations db)" by (metis list.set_map)
  ultimately show ?thesis using assms(2) by (simp add: budget_inv_def)
qed

text \<open>Every step either opens one reservation or keeps the keys of all of them.\<close>

lemma budget_stepE:
  assumes "budget_step js sql_sum db db'"
  obtains (opened) row items where "resv_id row \<notin> resv_id ` set (reservations db)" "res_state row = Reserved"
      "(res_workspace row, res_source row) \<notin> (\<lambda>r. (res_workspace r, res_source r)) ` set (reservations db)"
      "reservations db' = reservations db @ [row]" "reservation_items db' = reservation_items db @ items"
      "\<forall>i \<in> set items. it_reservation i = resv_id row"
  | (same) "reservations db' = reservations db" "reservation_items db' = reservation_items db"
  | (settled) r s' f S where "row_where (\<lambda>x. resv_id x = resv_id r) (reservations db) = Some r" "res_state r \<in> S"
      "S \<subseteq> {Reserved, Outcome_Unknown}" "(res_state r, s') \<in> {Reserved, Outcome_Unknown} \<times> {Committed, Exceeded, Released} \<union> {(Reserved, Outcome_Unknown)}"
      "\<And>x. res_key (f x) = res_key x \<and> res_state (f x) = s'"
      "reservations db' = reservations (settle f S r db)" "reservation_items db' = reservation_items db"
  using assms
proof cases
  case (reserve now fresh input pdb res)
  from reserve(1) show thesis
  proof (cases rule: reserveE)
    case (opened source facts estimates items row i)
    have "\<forall>x \<in> set items. it_reservation x = i"
    proof
      fix x assume "x \<in> set items"
      from rmapM_Inr_mem [OF opened(5) this] show "it_reservation x = i"
        by (auto simp: reserve_item_Inr item_for_def)
    qed
    then show thesis using opened that(1) [of row items] by (simp add: new_reservation_def)
  qed (use that(2) in auto)
next
  case (commit now fresh w i usage r)
  from commit(1) show thesis
  proof (cases rule: commitE)
    case replay
    then show thesis using that(2) by simp
  next
    case (settled r actual over new)
    let ?f = "\<lambda>x. x\<lparr>res_state := (if True \<in> set over then Exceeded else Committed),
         res_actual := Some (json_digest js (amounts_json actual)), res_updated := now, res_completed := Some now\<rparr>"
    have "resv_id r = i" using settled(1) by (blast dest: row_where_SomeD)
    moreover have "reservations db' = reservations (settle ?f {Reserved, Outcome_Unknown} r db)" "reservation_items db' = reservation_items db"
      unfolding settled(8) by (simp_all add: settle_def)
    ultimately show thesis
      by (intro that(3) [of r "{Reserved, Outcome_Unknown}" "if True \<in> set over then Exceeded else Committed" ?f])
        (use settled(1,4) in \<open>auto simp: res_key_def\<close>)
  qed
next
  case (release now w i r)
  from release(1) [unfolded release_def] show thesis
  proof (cases rule: moveE)
    case (moved r)
    then have "resv_id r = i" by (blast dest: row_where_SomeD)
    then show thesis by (intro that(3) [of r "{Reserved}" Released "\<lambda>x. x\<lparr>res_state := Released, res_updated := now, res_completed := Some now\<rparr>"])
      (use moved in \<open>auto simp: res_key_def settle_def\<close>)
  qed (use that(2) in simp)
next
  case (unknown now w i r)
  from unknown(1) [unfolded markOutcomeUnknown_def] show thesis
  proof (cases rule: moveE)
    case (moved r)
    then have "resv_id r = i" by (blast dest: row_where_SomeD)
    then show thesis by (intro that(3) [of r "{Reserved}" Outcome_Unknown "\<lambda>x. x\<lparr>res_state := Outcome_Unknown, res_updated := now\<rparr>"])
      (use moved in \<open>auto simp: res_key_def settle_def\<close>)
  qed (use that(2) in simp)
next
  case (reconcile now w i r)
  from reconcile(1) [unfolded reconcileNoEffect_def] show thesis
  proof (cases rule: moveE)
    case (moved r)
    then have "resv_id r = i" by (blast dest: row_where_SomeD)
    then show thesis by (intro that(3) [of r "{Outcome_Unknown}" Released "\<lambda>x. x\<lparr>res_state := Released, res_updated := now, res_completed := Some now\<rparr>"])
      (use moved in \<open>auto simp: res_key_def settle_def\<close>)
  qed (use that(2) in simp)
qed

lemma budget_step_inv: "budget_inv db \<Longrightarrow> budget_step js sql_sum db db' \<Longrightarrow> budget_inv db'"
proof -
  assume inv: "budget_inv db" and "budget_step js sql_sum db db'"
  from this(2) show ?thesis
  proof (cases rule: budget_stepE)
    case (opened row items)
    then show ?thesis using inv by (auto simp: budget_inv_def)
  next
    case same
    then show ?thesis using inv budget_inv_keys [of db' db] by simp
  next
    case (settled r s' f S)
    then show ?thesis using inv budget_inv_keys [of db' db] settle_tables(1) [of f S r db] by simp
  qed
qed

section \<open>The ledger\<close>

text \<open>
  The abstract machine: a ledger maps a reservation to its state. A reservation is opened once, and
  settled from an open state; nothing leaves a final state.
\<close>

inductive moves :: "reservation_state \<Rightarrow> reservation_state \<Rightarrow> bool" where
  "s \<in> {Reserved, Outcome_Unknown} \<Longrightarrow> t \<in> {Committed, Exceeded, Released} \<Longrightarrow> moves s t"
| "moves Reserved Outcome_Unknown"

inductive ledger_step :: "(string \<rightharpoonup> reservation_state) \<Rightarrow> (string \<rightharpoonup> reservation_state) \<Rightarrow> bool" where
  stutter: "ledger_step L L"
| opened: "L i = None \<Longrightarrow> ledger_step L (L(i \<mapsto> Reserved))"
| settled: "L i = Some s \<Longrightarrow> moves s t \<Longrightarrow> ledger_step L (L(i \<mapsto> t))"

inductive_cases moves_finalE: "moves Committed t" "moves Exceeded t" "moves Released t"

definition ledger :: "budget_db \<Rightarrow> string \<rightharpoonup> reservation_state" where
  "ledger db i = map_option res_state (row_where (\<lambda>r. resv_id r = i) (reservations db))"

lemma budget_step_ledger:
  assumes inv: "budget_inv db" and "budget_step js sql_sum db db'"
  shows "ledger_step (ledger db) (ledger db')"
  using assms(2)
proof (cases rule: budget_stepE)
  case (opened row items)
  have "row_where (\<lambda>r. resv_id r = resv_id row) (reservations db) = None" using opened(1) by (rule key_fresh)
  then have "ledger db (resv_id row) = None" and "ledger db' = (ledger db)(resv_id row \<mapsto> Reserved)"
    using opened(2) by (auto simp: ledger_def opened(4) row_where_append fun_eq_iff split: option.splits)
  then show ?thesis by (simp add: ledger_step.opened)
next
  case same
  then have "ledger db' = ledger db" by (simp add: ledger_def fun_eq_iff)
  then show ?thesis by (simp add: ledger_step.stutter)
next
  case (settled r s' f S)
  let ?P = "\<lambda>x. resv_id x = resv_id r \<and> res_workspace x = res_workspace r \<and> res_state x \<in> S"
  have keys: "resv_id (f x) = resv_id x" for x using settled(5) [of x] by (simp add: res_key_def)
  have r: "r \<in> set (reservations db)" using settled(1) by (blast dest: row_where_SomeD)
  have "ledger db' j = (if j = resv_id r then Some s' else ledger db j)" for j
  proof (cases "row_where (\<lambda>x. resv_id x = j) (reservations db)")
    case None
    then show ?thesis using settled(1,6) keys by (auto simp: ledger_def settle_def row_where_set_where)
  next
    case (Some x)
    then have x: "x \<in> set (reservations db)" "resv_id x = j" by (blast dest: row_where_SomeD)+
    have "x = r" if "j = resv_id r" using x r that inv by (auto simp: budget_inv_def distinct_map inj_on_def)
    moreover have "ledger db' j = Some (res_state (if ?P x then f x else x))"
      using Some keys by (simp add: ledger_def settled(6) settle_def row_where_set_where)
    ultimately show ?thesis using x Some settled(2,5) by (auto simp: ledger_def)
  qed
  then have "ledger db' = (ledger db)(resv_id r \<mapsto> s')" by auto
  moreover have "ledger db (resv_id r) = Some (res_state r)" using settled(1) by (simp add: ledger_def)
  moreover have "moves (res_state r) s'" using settled(4) by (auto intro: moves.intros)
  ultimately show ?thesis by (simp add: ledger_step.settled)
qed

interpretation budget: simulation "budget_step js sql_sum" ledger_step ledger budget_inv
  by unfold_locales (use budget_step_inv budget_step_ledger in blast)+

lemma ledger_final_stays:
  assumes "ledger_step L L'" and "L i = Some s" and "s \<in> {Committed, Exceeded, Released}"
  shows "L' i = Some s"
  using assms by cases (auto elim: moves_finalE)

lemma budget_inv_empty: "budget_inv empty_budget_db"
  by (simp add: budget_inv_def empty_budget_db_def)

end
