(* ===== verification/Budget_Properties.thy ===== *)
theory Budget_Properties
  imports Budget_Ledger Policy_Properties
begin

text \<open>
  Properties of the budget store: a reservation stays within its limits, a source is reserved once,
  states follow the ledger, usage is recorded once, and calendar windows are civil days.
\<close>

section \<open>A worked run\<close>

text \<open>An evaluation that allows an operation under given limits, and a reservation under it.\<close>

definition quick_platform :: platform where
  "quick_platform = sample_platform\<lparr>locale_compare := (\<lambda>_ _. 0), sha256_hex := take 3, to_iso_string := (\<lambda>_. ''i'')\<rparr>"

definition sample_limit :: "string \<Rightarrow> string \<Rightarrow> string option \<Rightarrow> budget_limit" where
  "sample_limit rule window tz = \<lparr>bl_revision = ''v'', bl_binding = ''b'', bl_rule = rule,
     bl_subject = \<lparr>subj_kind = ''workspace'', subj_id = ''w'', subj_revision = None\<rparr>, bl_metric = ''tok'', bl_maximum = 3,
     bl_window = window, bl_timezone = tz\<rparr>"

definition allowed :: "budget_limit list \<Rightarrow> evaluation_rec" where
  "allowed ls = \<lparr>ev_id = ''e'', ev_workspace = Some ''w'', ev_boundary = Workspace ''w'', ev_facts = Some sample_policy_facts, ev_digest = [],
     ev_revision_ids = [''v''], ev_matched = [], ev_decision = Pd_Allow, ev_denials = [], ev_approvals = [], ev_limits = ls, ev_at = ''t4''\<rparr>"

definition allowed_db :: "budget_limit list \<Rightarrow> policy_db" where
  "allowed_db ls = empty_policy_db\<lparr>policy_evaluations := [allowed ls]\<rparr>"

definition sample_usage :: usage_facts where
  "sample_usage = \<lparr>uf_workspace = ''w'', uf_principal = ''ada'', uf_operation = ''op'', uf_scope = None, uf_execution = None,
     uf_actor = None, uf_composition = None, uf_placement = None, uf_connector = None, uf_installation = None\<rparr>"

definition sample_reserve :: "budget_limit list \<Rightarrow> reserve_input" where
  "sample_reserve ls = \<lparr>rs_source = \<lparr>src_kind = ''execution_attempt'', src_id = ''a1''\<rparr>, rs_evaluation = allowed ls,
     rs_facts = sample_usage, rs_estimates = [(''tok'', 2)]\<rparr>"

definition one_limit :: "budget_limit list" where
  "one_limit = [sample_limit ''r1'' ''all_time'' None]"

definition uuid :: "nat \<Rightarrow> string" where
  "uuid n = replicate n (CHR ''u'')"

text \<open>A sum of rows as doubles, last row first.\<close>

definition sample_sum :: "rat list \<Rightarrow> rat" where
  "sample_sum xs = foldr js_add xs 0"

definition budget1 :: "reservation option \<times> budget_db" where
  "budget1 = projr (reserve quick_platform sample_sum ''t5'' uuid (sample_reserve one_limit) (allowed_db one_limit) empty_budget_db)"

definition budget2 :: "reservation \<times> budget_db" where
  "budget2 = projr (commit quick_platform sample_sum ''t6'' uuid ''w'' ''budget_reservation_'' [(''tok'', 4)] (snd budget1))"

lemma budget1_run: "reserve quick_platform sample_sum ''t5'' uuid (sample_reserve one_limit) (allowed_db one_limit) empty_budget_db = Inr budget1"
  unfolding budget1_def by (rule returns_projr) code_simp

lemma budget2_run: "commit quick_platform sample_sum ''t6'' uuid ''w'' ''budget_reservation_'' [(''tok'', 4)] (snd budget1) = Inr budget2"
  unfolding budget2_def by (rule returns_projr) code_simp

lemma budget1_new: "reserve quick_platform sample_sum ''t5'' uuid (sample_reserve one_limit) (allowed_db one_limit) empty_budget_db
    = Inr (Some (the (fst budget1)), snd budget1)"
proof -
  have "fst budget1 = Some (the (fst budget1))" by code_simp
  then show ?thesis using budget1_run by (metis prod.collapse)
qed

section \<open>Reservations stay within their limits\<close>

definition limit_slot :: "budget_limit \<Rightarrow> string \<times> string \<times> string \<times> string \<times> string" where
  "limit_slot l = (subj_kind (bl_subject l), subj_id (bl_subject l), or_empty (subj_revision (bl_subject l)), bl_metric l, bl_window l)"

definition item_slot :: "item_row \<Rightarrow> string \<times> string \<times> string \<times> string \<times> string" where
  "item_slot i = (it_subject_kind i, it_subject_id i, it_subject_revision i, it_metric i, it_window i)"

lemma normalize_amounts_nonneg:
  "normalize_amounts label acc xs = Inr ys \<Longrightarrow> \<forall>x \<in> set acc. 0 \<le> snd x \<Longrightarrow> y \<in> set ys \<Longrightarrow> 0 \<le> snd y"
proof (induction label acc xs arbitrary: ys rule: normalize_amounts.induct)
  case (2 label acc m a rest)
  from 2(2) obtain metric where "budget_text m ''metric'' = Inr metric" "\<not> a < 0" "normalize_amounts label (map_put metric a acc) rest = Inr ys"
    by (auto simp: result_simps)
  with 2 set_map_put [of metric a acc] show ?case by fastforce
qed auto

lemma normalizeUsage_nonneg: "normalizeUsage js xs label = Inr ys \<Longrightarrow> map_of ys k = Some a \<Longrightarrow> 0 \<le> a"
  using normalize_amounts_nonneg [of label "[]" xs] by (fastforce simp: normalizeUsage_def result_simps dest: map_of_SomeD)

lemma request_of_nonneg: "request_of js input = Inr (source, facts, estimates) \<Longrightarrow> map_of estimates k = Some a \<Longrightarrow> 0 \<le> a"
  by (auto simp: request_of_def Let_def result_simps split: option.splits dest: normalizeUsage_nonneg)

lemma filter_unique_slot:
  "distinct (map g xs) \<Longrightarrow> (\<And>x. x \<in> set xs \<Longrightarrow> P x \<Longrightarrow> g x = k) \<Longrightarrow> filter P xs = [] \<or> (\<exists>x \<in> set xs. P x \<and> filter P xs = [x])"
proof (induction xs)
  case (Cons x xs)
  show ?case
  proof (cases "P x")
    case True
    then have "\<not> P y" if "y \<in> set xs" for y using Cons.prems that by (metis distinct.simps(2) image_eqI list.set_intros list.simps(9) set_map)
    then show ?thesis using True by (simp add: filter_empty_conv)
  next
    case False
    then show ?thesis using Cons by auto
  qed
qed simp

lemma opened_items:
  assumes "rmapM (reserve_item js sql_sum now i facts estimates db) (zip frs ls) = Inr items" and "length frs = length ls"
  shows "map item_slot items = map limit_slot ls" and "\<forall>x \<in> set items. it_reservation x = i \<and> map_of estimates (it_metric x) = Some (it_estimate x)"
proof -
  have l: "list_all2 (\<lambda>fl x. reserve_item js sql_sum now i facts estimates db fl = Inr x) (zip frs ls) items" using assms(1) by (simp add: rmapM_Inr_iff)
  then have "list_all2 (\<lambda>fl x. item_slot x = limit_slot (snd fl)) (zip frs ls) items"
    by (rule list_all2_mono) (auto simp: reserve_item_Inr item_for_def item_slot_def limit_slot_def)
  then have "map item_slot items = map (limit_slot \<circ> snd) (zip frs ls)" by (induction rule: list_all2_induct) auto
  then show "map item_slot items = map limit_slot ls" using assms(2) by (metis map_map map_snd_zip)
  show "\<forall>x \<in> set items. it_reservation x = i \<and> map_of estimates (it_metric x) = Some (it_estimate x)"
  proof
    fix x assume "x \<in> set items"
    from rmapM_Inr_mem [OF assms(1) this] show "it_reservation x = i \<and> map_of estimates (it_metric x) = Some (it_estimate x)"
      by (auto simp: reserve_item_Inr item_for_def)
  qed
qed

lemma committed_cong: "usage_entries db' = usage_entries db \<Longrightarrow> committedAmount sql_sum db' a = committedAmount sql_sum db a"
  by (simp only: committedAmount_def)

definition counts_open :: "account \<Rightarrow> reservation_row \<Rightarrow> bool" where
  "counts_open a r \<longleftrightarrow> res_workspace r = ac_workspace a \<and> res_state r \<in> {Reserved, Outcome_Unknown}
     \<and> (ac_window a = ''scope_execution'' \<longrightarrow> uf_execution (res_facts r) = ac_execution a)"

lemma holds_open_None: "holds_open a None i r \<longleftrightarrow> resv_id r = it_reservation i \<and> counts_open a r"
  by (auto simp: holds_open_def counts_open_def truthy_def)

text \<open>The items an account sums.\<close>

definition held :: "budget_db \<Rightarrow> account \<Rightarrow> string option \<Rightarrow> item_row list" where
  "held db a excluding = filter (\<lambda>i. item_counts a i \<and> list_ex (holds_open a excluding i) (reservations db)) (reservation_items db)"

definition used :: "budget_db \<Rightarrow> account \<Rightarrow> (usage_row \<Rightarrow> string option) \<Rightarrow> usage_row list" where
  "used db a col = filter (usage_counts a col) (usage_entries db)"

lemma reservedAmount_held:
  "ac_window a \<noteq> ''operation'' \<Longrightarrow> reservedAmount sql_sum db a ex = Inr q \<longleftrightarrow>
    \<not> (ac_window a = ''scope_execution'' \<and> \<not> truthy (ac_execution a)) \<and> q = sum_or_zero sql_sum (map it_estimate (held db a ex))"
  by (auto simp: reservedAmount_def held_def result_simps)

lemma committedAmount_used:
  "ac_window a \<noteq> ''operation'' \<Longrightarrow> committedAmount sql_sum db a = Inr c \<Longrightarrow> \<exists>col. c = sum_or_zero sql_sum (map us_amount (used db a col))"
  by (auto simp: committedAmount_def used_def result_simps split: option.splits)

lemma held_after_open:
  assumes inv: "budget_inv db" and row: "resv_id row \<notin> resv_id ` set (reservations db)" "resv_id row \<noteq> []"
    and its: "\<forall>x \<in> set items. it_reservation x = resv_id row"
    and db': "reservations db' = reservations db @ [row]" "reservation_items db' = reservation_items db @ items"
    and row_counts: "counts_open a row"
  shows "held db' a None = held db a None @ filter (item_counts a) items" and "held db' a (Some (resv_id row)) = held db a None"
proof -
  have o: "it_reservation x \<noteq> resv_id row" if "x \<in> set (reservation_items db)" for x
    using inv that row(1) by (metis budget_inv_def image_eqI subsetD)
  have old: "list_ex (holds_open a ex x) (reservations db') = list_ex (holds_open a None x) (reservations db)"
    if "x \<in> set (reservation_items db)" and "ex = None \<or> ex = Some (resv_id row)" for x ex
    using that(2) o [OF that(1)] row by (auto simp: db' holds_open_def truthy_def list_ex_iff)
  have new: "list_ex (holds_open a None x) (reservations db')" if "x \<in> set items" for x
    using its that row_counts by (simp add: db' holds_open_None)
  have gone: "\<not> list_ex (holds_open a (Some (resv_id row)) x) (reservations db')" if "x \<in> set items" for x
    using its that row(2) by (auto simp: holds_open_def truthy_def list_ex_iff)
  have f: "filter (\<lambda>x. item_counts a x \<and> list_ex (holds_open a ex x) (reservations db')) (reservation_items db) = held db a None"
    if "ex = None \<or> ex = Some (resv_id row)" for ex
    unfolding held_def using old [OF _ that] by (intro filter_cong) auto
  have n: "filter (\<lambda>x. item_counts a x \<and> list_ex (holds_open a None x) (reservations db')) items = filter (item_counts a) items"
    using new by (intro filter_cong) auto
  have g: "filter (\<lambda>x. item_counts a x \<and> list_ex (holds_open a (Some (resv_id row)) x) (reservations db')) items = []"
    using gone by (simp add: filter_empty_conv)
  show "held db' a None = held db a None @ filter (item_counts a) items" using f [of None] n by (simp add: held_def [of db'] db'(2))
  show "held db' a (Some (resv_id row)) = held db a None" using f [of "Some (resv_id row)"] g by (simp add: held_def [of db'] db'(2))
qed

text \<open>
  What the database documents of its sum: integers whose sum is at most 2 to the 53 are added exactly.
\<close>

definition sums_integers :: "(rat list \<Rightarrow> rat) \<Rightarrow> bool" where
  "sums_integers sql_sum \<longleftrightarrow> (\<forall>xs. set xs \<subseteq> \<nat> \<and> sum_list xs \<le> 2 ^ 53 \<longrightarrow> sql_sum xs = sum_list xs)"

text \<open>Every amount the store keeps is an integer, and together they stay below 2 to the 53.\<close>

definition whole_amounts :: "budget_db \<Rightarrow> bool" where
  "whole_amounts db \<longleftrightarrow> us_amount ` set (usage_entries db) \<subseteq> \<nat> \<and> it_estimate ` set (reservation_items db) \<subseteq> \<nat>
     \<and> sum_list (map us_amount (usage_entries db)) + sum_list (map it_estimate (reservation_items db)) \<le> 2 ^ 53"

lemma sum_list_Nats: "set xs \<subseteq> \<nat> \<Longrightarrow> sum_list xs \<in> (\<nat> :: rat set)"
  by (induction xs) auto

lemma Nats_nonneg: "x \<in> \<nat> \<Longrightarrow> 0 \<le> (x :: rat)"
  by (auto elim: Nats_cases)

lemma sum_filter_le: "f ` set xs \<subseteq> \<nat> \<Longrightarrow> sum_list (map f (filter P xs)) \<le> (sum_list (map f xs) :: rat)"
  by (induction xs) (auto simp: Nats_nonneg add_increasing)

lemma sum_or_zero_exact: "sums_integers sql_sum \<Longrightarrow> set xs \<subseteq> \<nat> \<Longrightarrow> sum_list xs \<le> 2 ^ 53 \<Longrightarrow> sum_or_zero sql_sum xs = sum_list xs"
  by (simp add: sum_or_zero_def sums_integers_def)

lemma whole_sums:
  assumes "sums_integers sql_sum" and "whole_amounts db"
  shows "sum_or_zero sql_sum (map us_amount (used db a col)) = sum_list (map us_amount (used db a col))"
    and "sum_or_zero sql_sum (map it_estimate (held db a ex)) = sum_list (map it_estimate (held db a ex))"
    and "sum_list (map us_amount (used db a col)) + sum_list (map it_estimate (held db a ex)) \<le> 2 ^ 53"
    and "sum_list (map us_amount (used db a col)) \<in> \<nat>" and "sum_list (map it_estimate (held db a ex)) \<in> \<nat>"
proof -
  let ?u = "sum_list (map us_amount (used db a col))" and ?h = "sum_list (map it_estimate (held db a ex))"
  have w: "us_amount ` set (usage_entries db) \<subseteq> \<nat>" "it_estimate ` set (reservation_items db) \<subseteq> \<nat>"
      "sum_list (map us_amount (usage_entries db)) + sum_list (map it_estimate (reservation_items db)) \<le> 2 ^ 53"
    using assms(2) by (simp_all add: whole_amounts_def)
  have n: "set (map us_amount (used db a col)) \<subseteq> \<nat>" "set (map it_estimate (held db a ex)) \<subseteq> \<nat>"
    using w(1,2) by (auto simp: used_def held_def)
  show N: "?u \<in> \<nat>" "?h \<in> \<nat>" using sum_list_Nats n by blast+
  have "?u \<le> sum_list (map us_amount (usage_entries db))" "?h \<le> sum_list (map it_estimate (reservation_items db))"
    unfolding used_def held_def using w(1,2) by (simp_all add: sum_filter_le)
  then show le: "?u + ?h \<le> 2 ^ 53" using w(3) by linarith
  show "sum_or_zero sql_sum (map us_amount (used db a col)) = ?u" "sum_or_zero sql_sum (map it_estimate (held db a ex)) = ?h"
    using sum_or_zero_exact [OF assms(1)] n le Nats_nonneg [OF N(1)] Nats_nonneg [OF N(2)] by simp_all
qed

text \<open>The item a new reservation opens for a limit is the only one of its items the limit's account counts.\<close>

lemma opened_item:
  assumes "reserve_item js sql_sum now i facts estimates db (fr, l) = Inr x"
    and "budgetWindowBounds js (bl_window l) (bl_timezone l) now facts = Inr bounds"
  obtains amount c q where "map_of estimates (bl_metric l) = Some amount" "it_estimate x = amount" "item_counts (limit_account facts l bounds) x"
    "committedAmount sql_sum db (limit_account facts l bounds) = Inr c" "reservedAmount sql_sum db (limit_account facts l bounds) None = Inr q"
    "js_add (js_add c q) amount \<le> bl_maximum l"
proof -
  from assms(1) obtain amount b c q where a: "map_of estimates (bl_metric l) = Some amount"
      "budgetWindowBounds js (bl_window l) (bl_timezone l) now facts = Inr b"
      "committedAmount sql_sum db (limit_account facts l b) = Inr c" "reservedAmount sql_sum db (limit_account facts l b) None = Inr q"
      "js_add (js_add c q) amount \<le> bl_maximum l" "x = item_for fr i l b amount"
    unfolding reserve_item_Inr by blast
  have b: "b = bounds" using a(2) assms(2) by simp
  show thesis
    by (rule that [OF a(1) _ _ a(3,4,5) [unfolded b]]) (simp_all add: a(6) b item_for_def item_counts_def limit_account_def)
qed

text \<open>
  C13: a reservation never over-commits. When a reservation is opened, then for each of its limits
  the test \<open>used + reserved by others + estimate \<le> maximum\<close> holds as the code computes it: sums of rows by
  the database, the other two additions rounded to doubles, whatever the amounts. When the database
  adds integers exactly, every stored amount is an integer, all of them together are at most 2 to
  the 53 and no two of the limits are about the same subject, metric and window, then what the
  database reports as used and as reserved, the new reservation included, has an exact sum within
  the maximum. Fractional amounts have no such bound: \<open>rounding_depends_on_order\<close> shows a case.
\<close>

theorem reserve_within_limits:
  assumes "(budget_step js sql_sum)\<^sup>*\<^sup>* empty_budget_db db" and "reserve js sql_sum now fresh input pdb db = Inr (Some r, db')"
    and "fst r \<notin> set (reservations db)" and "l \<in> set (ev_limits (rs_evaluation input))"
    and "budgetWindowBounds js (bl_window l) (bl_timezone l) now (res_facts (fst r)) = Inr bounds"
  shows "\<exists>amount c q q'. map_of (res_estimates (fst r)) (bl_metric l) = Some amount
    \<and> committedAmount sql_sum db' (limit_account (res_facts (fst r)) l bounds) = Inr c
    \<and> reservedAmount sql_sum db' (limit_account (res_facts (fst r)) l bounds) (Some (resv_id (fst r))) = Inr q
    \<and> reservedAmount sql_sum db' (limit_account (res_facts (fst r)) l bounds) None = Inr q'
    \<and> js_add (js_add c q) amount \<le> bl_maximum l
    \<and> (sums_integers sql_sum \<and> whole_amounts db' \<and> distinct (map limit_slot (ev_limits (rs_evaluation input)))
        \<longrightarrow> c + q' \<le> bl_maximum l)"
  using assms(2)
proof (cases rule: reserveE)
  case (existing source facts estimates r')
  then have "fst r \<in> set (reservations db)" by (auto simp: getBySource_def mapReservation_def dest: row_where_SomeD)
  with assms(3) show ?thesis by blast
next
  case (opened source facts estimates items row i)
  let ?ls = "ev_limits (rs_evaluation input)"
  let ?a = "limit_account facts l bounds"
  have inv: "budget_inv db" using budget.inv_run [OF assms(1) budget_inv_empty] .
  have r: "fst r = row" using opened(9) by (simp add: mapReservation_def)
  have facts: "res_facts row = facts" "resv_id row = i" "res_state row = Reserved" "res_workspace row = uf_workspace facts" "res_estimates row = estimates"
    using opened(4) by (simp_all add: new_reservation_def)
  note its = opened_items [OF opened(5)]
  obtain fr where fr: "(fr, l) \<in> set (zip (map (\<lambda>n. fresh (Suc n)) [0..<length ?ls]) ?ls)"
    using assms(4) by (metis in_set_impl_in_set_zip2 length_map length_upt minus_nat.diff_0)
  obtain x where x: "x \<in> set items" "reserve_item js sql_sum now i facts estimates db (fr, l) = Inr x" using rmapM_all [OF opened(5) fr] by blast
  obtain amount c q where a: "map_of estimates (bl_metric l) = Some amount" "it_estimate x = amount" "item_counts ?a x"
      "committedAmount sql_sum db ?a = Inr c" "reservedAmount sql_sum db ?a None = Inr q" "js_add (js_add c q) amount \<le> bl_maximum l"
    using opened_item [OF x(2)] assms(5) unfolding r facts by metis
  have pos: "0 \<le> amount" using request_of_nonneg [OF opened(1) a(1)] .
  have c': "committedAmount sql_sum db' ?a = Inr c" using a(4) committed_cong [of db' db sql_sum ?a] by (simp add: opened(8))
  show ?thesis
  proof (cases "bl_window l = ''operation''")
    case True
    then have z: "c = 0" "q = 0" "reservedAmount sql_sum db' ?a ex = Inr 0" for ex
      using a(4,5) by (simp_all add: committedAmount_def reservedAmount_def limit_account_def)
    have "0 \<le> js_add (js_add c q) amount" using pos z by (simp add: js_add_nonneg)
    then show ?thesis using c' a(1,6) z unfolding r facts by auto
  next
    case False
    then have w: "ac_window ?a \<noteq> ''operation''" by (simp add: limit_account_def)
    have i: "i \<noteq> []" using opened(3) by simp
    have co: "counts_open ?a row" using facts by (simp add: counts_open_def limit_account_def)
    have held: "held db' ?a None = held db ?a None @ filter (item_counts ?a) items" "held db' ?a (Some i) = held db ?a None"
      using held_after_open [OF inv, of row items db' ?a] opened(8,10) its(2) i co by (simp_all add: facts(2))
    have q: "reservedAmount sql_sum db' ?a (Some i) = Inr q"
      using a(5) unfolding reservedAmount_held [OF w] held(2) .
    obtain q' where q': "reservedAmount sql_sum db' ?a None = Inr q'" "q' = sum_or_zero sql_sum (map it_estimate (held db' ?a None))"
      using a(5) unfolding reservedAmount_held [OF w] by simp
    have "c + q' \<le> bl_maximum l" if H: "sums_integers sql_sum" "whole_amounts db'" "distinct (map limit_slot ?ls)"
    proof -
      have d: "distinct (map item_slot items)" using its(1) H(3) by simp
      have s: "item_slot y = limit_slot l" if "y \<in> set items" "item_counts ?a y" for y
        using that(2) by (simp add: item_counts_def item_slot_def limit_slot_def limit_account_def)
      have "x \<in> set (filter (item_counts ?a) items)" using x(1) a(3) by simp
      moreover have "filter (item_counts ?a) items = [] \<or> (\<exists>y \<in> set items. item_counts ?a y \<and> filter (item_counts ?a) items = [y])"
        by (rule filter_unique_slot [OF d s])
      ultimately have one: "filter (item_counts ?a) items = [x]" by (elim disjE bexE conjE) simp_all
      note W = whole_sums [OF H(1,2)]
      obtain col where "c = sum_or_zero sql_sum (map us_amount (used db' ?a col))" using committedAmount_used [OF w c'] by blast
      then have c: "c = sum_list (map us_amount (used db' ?a col))" using W(1) by simp
      have qs: "q = sum_list (map it_estimate (held db' ?a (Some i)))" "q' = sum_list (map it_estimate (held db' ?a None))"
        using q q' W(2) by (simp_all add: reservedAmount_held [OF w])
      have sum: "q' = q + amount" using a(2) by (simp add: qs held one)
      have "amount \<in> \<nat>" using H(2) x(1) a(2) opened(8) by (auto simp: whole_amounts_def)
      moreover have "c \<in> \<nat>" "q \<in> \<nat>" "c + q' \<le> 2 ^ 53" using W(3-5) by (simp_all add: c qs)
      ultimately have "js_add (js_add c q) amount = c + q + amount" using pos by (simp add: js_add_nat sum)
      then show ?thesis using a(6) by (simp add: sum)
    qed
    then show ?thesis using c' a(1,6) q q'(1) unfolding r facts by blast
  qed
qed simp

lemma sample_sum_integers: "sums_integers sample_sum"
proof -
  have "sample_sum xs = sum_list xs" if "set xs \<subseteq> \<nat>" "sum_list xs \<le> 2 ^ 53" for xs
    using that
  proof (induction xs)
    case (Cons x xs)
    have n: "x \<in> \<nat>" "sum_list xs \<in> \<nat>" using Cons.prems sum_list_Nats by auto
    then have "sum_list xs \<le> 2 ^ 53" using Cons.prems Nats_nonneg [of x] by simp
    then show ?case using Cons n js_add_nat [of x "sum_list xs"] by (simp add: sample_sum_def)
  qed (simp add: sample_sum_def)
  then show ?thesis by (simp add: sums_integers_def)
qed

theorem reserve_within_limits_witness:
  "\<exists>c q. committedAmount sample_sum (snd budget1) (limit_account (res_facts (fst (the (fst budget1)))) (sample_limit ''r1'' ''all_time'' None) (None, None)) = Inr c
    \<and> reservedAmount sample_sum (snd budget1) (limit_account (res_facts (fst (the (fst budget1)))) (sample_limit ''r1'' ''all_time'' None) (None, None)) None = Inr q
    \<and> c + q \<le> bl_maximum (sample_limit ''r1'' ''all_time'' None)"
proof -
  have l: "sample_limit ''r1'' ''all_time'' None \<in> set (ev_limits (rs_evaluation (sample_reserve one_limit)))"
      "distinct (map limit_slot (ev_limits (rs_evaluation (sample_reserve one_limit))))"
    by (simp_all add: sample_reserve_def allowed_def one_limit_def)
  have b: "budgetWindowBounds quick_platform (bl_window (sample_limit ''r1'' ''all_time'' None)) (bl_timezone (sample_limit ''r1'' ''all_time'' None))
      ''t5'' (res_facts (fst (the (fst budget1)))) = Inr (None, None)"
    by (simp add: budgetWindowBounds_def sample_limit_def)
  have "usage_entries (snd budget1) = []" "map it_estimate (reservation_items (snd budget1)) = [2]" by code_simp+
  then have w: "whole_amounts (snd budget1)" by (auto simp: whole_amounts_def)
  have n: "fst (the (fst budget1)) \<notin> set (reservations empty_budget_db)" by (simp add: empty_budget_db_def)
  from reserve_within_limits [OF rtranclp.rtrancl_refl budget1_new n l(1) b] show ?thesis
    using sample_sum_integers w l(2) by blast
qed

section \<open>One reservation per source\<close>

lemma keys_stay: "budget_step js sql_sum db db' \<Longrightarrow> res_key ` set (reservations db) \<subseteq> res_key ` set (reservations db')"
proof (erule budget_stepE)
  fix r s' f S
  assume k: "\<And>x. res_key (f x) = res_key x \<and> res_state (f x) = s'" and db': "reservations db' = reservations (settle f S r db)"
  have "map res_key (reservations (settle f S r db)) = map res_key (reservations db)" using k by (intro settle_tables(1)) blast
  then have "res_key ` set (reservations db') = res_key ` set (reservations db)" unfolding db' by (metis list.set_map)
  then show ?thesis by simp
qed auto

lemma keys_stay_run: "(budget_step js sql_sum)\<^sup>*\<^sup>* db db' \<Longrightarrow> res_key ` set (reservations db) \<subseteq> res_key ` set (reservations db')"
  by (induction rule: rtranclp_induct) (use keys_stay in blast)+

lemma getBySource_key:
  assumes "budget_inv db" and "x \<in> set (reservations db)"
  shows "getBySource db (res_workspace x) (res_source x) = Some (mapReservation db x)"
proof -
  have "row_where (\<lambda>r. (res_workspace r, res_source r) = (res_workspace x, res_source x)) (reservations db) = Some x"
    using assms by (intro row_where_key) (simp_all add: budget_inv_def)
  moreover have "(\<lambda>r :: reservation_row. res_workspace r = res_workspace x \<and> src_kind (res_source r) = src_kind (res_source x) \<and> src_id (res_source r) = src_id (res_source x))
      = (\<lambda>r. (res_workspace r, res_source r) = (res_workspace x, res_source x))" by (rule ext) auto
  ultimately show ?thesis by (simp only: getBySource_def option.map)
qed

text \<open>
  A source is reserved at most once. However the store has changed since, asking again with the
  same source, evaluation, facts and estimates changes nothing and answers with the same reservation.
\<close>

theorem reserve_at_most_once:
  assumes "(budget_step js sql_sum)\<^sup>*\<^sup>* empty_budget_db db" and "reserve js sql_sum now fresh input pdb db = Inr (Some r, db1)"
    and "(budget_step js sql_sum)\<^sup>*\<^sup>* db1 db2"
  shows "\<exists>r'. reserve js sql_sum now' fresh' input pdb' db2 = Inr (Some r', db2) \<and> resv_id (fst r') = resv_id (fst r)"
proof -
  have inv: "budget_inv db" using budget.inv_run [OF assms(1) budget_inv_empty] .
  have inv1: "budget_inv db1" using budget_step_inv [OF inv] assms(2) budget_step.reserve by blast
  have inv2: "budget_inv db2" using budget.inv_run [OF assms(3) inv1] .
  obtain source facts estimates where req: "request_of js input = Inr (source, facts, estimates)" and lim: "ev_limits (rs_evaluation input) \<noteq> []"
    and r: "fst r \<in> set (reservations db1)" "res_workspace (fst r) = uf_workspace facts" "res_source (fst r) = source"
      "res_digest (fst r) = res_digest (new_reservation js now' [] (rs_evaluation input) source facts estimates)"
    using assms(2)
  proof (cases rule: reserveE)
    case (existing source facts estimates r')
    then have "fst r \<in> set (reservations db) \<and> res_workspace (fst r) = uf_workspace facts \<and> res_source (fst r) = source"
      by (auto simp: getBySource_def mapReservation_def dest!: row_where_SomeD)
    then show thesis using that [OF existing(1,2)] existing by (simp add: new_reservation_def)
  next
    case (opened source facts estimates items row i)
    then show thesis using that [OF opened(1,2)] by (simp add: mapReservation_def new_reservation_def)
  qed simp
  have "res_key (fst r) \<in> res_key ` set (reservations db2)" using keys_stay_run [OF assms(3)] r(1) by blast
  then obtain x where x: "x \<in> set (reservations db2)" "res_key x = res_key (fst r)" by auto
  then have k: "resv_id x = resv_id (fst r)" "res_workspace x = uf_workspace facts" "res_source x = source" "res_digest x = res_digest (fst r)"
    using r by (simp_all add: res_key_def)
  have "getBySource db2 (uf_workspace facts) source = Some (mapReservation db2 x)" using getBySource_key [OF inv2 x(1)] k by simp
  then have "reserve js sql_sum now' fresh' input pdb' db2 = Inr (Some (mapReservation db2 x), db2)"
    using req lim k(4) r(4) by (simp add: reserve_eq mapReservation_def new_reservation_def)
  then show ?thesis using k(1) by (auto simp: mapReservation_def)
qed

theorem reserve_at_most_once_witness:
  "\<exists>r'. reserve quick_platform sample_sum ''t9'' uuid (sample_reserve one_limit) empty_policy_db (snd budget2) = Inr (Some r', snd budget2)
    \<and> resv_id (fst r') = resv_id (fst (the (fst budget1)))"
proof (rule reserve_at_most_once [OF _ budget1_new])
  have "budget_step quick_platform sample_sum (snd budget1) (snd budget2)"
    by (rule budget_step.commit [of _ _ "''t6''" uuid "''w''" "''budget_reservation_''" "[(''tok'', 4)]" _ "fst budget2"]) (simp add: budget2_run)
  then show "(budget_step quick_platform sample_sum)\<^sup>*\<^sup>* (snd budget1) (snd budget2)" by (rule r_into_rtranclp)
qed simp

section \<open>The ledger\<close>

text \<open>
  C14: the store implements the ledger of reservation states: every history of reserving, committing,
  releasing and reconciling is a history of the ledger, so a reservation that was committed, exceeded
  or released keeps that state for ever.
\<close>

theorem budgets_refine_ledger:
  assumes "(budget_step js sql_sum)\<^sup>*\<^sup>* empty_budget_db db" and "(budget_step js sql_sum)\<^sup>*\<^sup>* db db'"
  shows "ledger_step\<^sup>*\<^sup>* (ledger db) (ledger db')
    \<and> (\<forall>i s. ledger db i = Some s \<and> s \<in> {Committed, Exceeded, Released} \<longrightarrow> ledger db' i = Some s)"
proof -
  have inv: "budget_inv db" using budget.inv_run [OF assms(1) budget_inv_empty] .
  have "ledger_step\<^sup>*\<^sup>* (ledger db) (ledger db')" using budget.sim_run [OF assms(2) inv] .
  moreover have "ledger db' i = Some s" if "ledger db i = Some s" "s \<in> {Committed, Exceeded, Released}" for i s
    using budget.stable_run [OF assms(2) inv, of "\<lambda>L. L i = Some s"] that ledger_final_stays by blast
  ultimately show ?thesis by blast
qed

theorem budgets_refine_ledger_witness:
  "ledger_step\<^sup>*\<^sup>* (ledger (snd budget1)) (ledger (snd budget2)) \<and> ledger (snd budget2) ''budget_reservation_'' = Some Exceeded"
proof
  have s1: "budget_step quick_platform sample_sum empty_budget_db (snd budget1)"
    by (rule budget_step.reserve [of _ _ "''t5''" uuid "sample_reserve one_limit" "allowed_db one_limit" _ "fst budget1"]) (simp add: budget1_run)
  have s2: "budget_step quick_platform sample_sum (snd budget1) (snd budget2)"
    by (rule budget_step.commit [of _ _ "''t6''" uuid "''w''" "''budget_reservation_''" "[(''tok'', 4)]" _ "fst budget2"]) (simp add: budget2_run)
  show "ledger_step\<^sup>*\<^sup>* (ledger (snd budget1)) (ledger (snd budget2))"
    using budgets_refine_ledger [OF r_into_rtranclp [of "budget_step quick_platform sample_sum", OF s1] r_into_rtranclp [of "budget_step quick_platform sample_sum", OF s2]] by blast
  show "ledger (snd budget2) ''budget_reservation_'' = Some Exceeded" by code_simp
qed

section \<open>Committing\<close>

text \<open>
  Committing an open reservation appends one usage entry per metric of the actual usage and
  nothing else, marks it exceeded exactly when one of its items is over its maximum with the usage
  counted in, and is idempotent: the same usage again changes nothing, different usage is refused.
\<close>

theorem commit_settles_once:
  assumes "(budget_step js sql_sum)\<^sup>*\<^sup>* empty_budget_db db" and "commit js sql_sum now fresh w i usage db = Inr (res, db')"
    and "row_where (\<lambda>r. resv_id r = i) (reservations db) = Some r" and "res_state r \<in> {Reserved, Outcome_Unknown}"
    and "normalizeUsage js usage ''actual usage'' = Inr actual"
    and "normalizeUsage js usage' ''actual usage'' = Inr actual'"
  shows "(\<exists>new. usage_entries db' = usage_entries db @ new \<and> map (\<lambda>u. (us_metric u, us_amount u)) new = actual)
    \<and> res_state (fst res) = (if \<exists>x \<in> set (snd (mapReservation db r)). item_exceeded sql_sum db r actual x = Inr True then Exceeded else Committed)
    \<and> commit js sql_sum now' fresh' w i usage' db' = (if json_digest js (amounts_json actual') = json_digest js (amounts_json actual) then Inr (res, db')
        else Inl (BudgetConflict (res_source r) ''actual usage changed after it was committed''))"
  using assms(2)
proof (cases rule: commitE)
  case replay
  then have "fst res = r" using assms(3) by simp
  with replay(3) assms(4) show ?thesis by auto
next
  case (settled r2 actual2 over new)
  have eq: "r2 = r" "actual2 = actual" using settled(1,3) assms(3,5) by simp_all
  let ?f = "\<lambda>x. x\<lparr>res_state := (if True \<in> set over then Exceeded else Committed),
         res_actual := Some (json_digest js (amounts_json actual)), res_updated := now, res_completed := Some now\<rparr>"
  have i: "resv_id r = i" using assms(3) by (blast dest: row_where_SomeD)
  have row: "row_where (\<lambda>x. resv_id x = i) (reservations db') = Some (?f r)"
    unfolding settled(8) eq using assms(3,4) i by (simp add: settle_def row_where_set_where)
  then have res: "res = mapReservation db' (?f r)" using settled(9) by (simp add: requireReservation_Inr)
  have over: "True \<in> set over \<longleftrightarrow> (\<exists>x \<in> set (snd (mapReservation db r)). item_exceeded sql_sum db r actual x = Inr True)"
    using rmapM_Inr_mem [OF settled(5), of True] rmapM_all [OF settled(5)] unfolding eq by (metis sum.inject(2))
  have "usage_entries db' = usage_entries db @ new" unfolding settled(8) by (simp add: settle_def)
  moreover have "res_state (fst res) = (if True \<in> set over then Exceeded else Committed)" by (simp add: res mapReservation_def)
  moreover have "requireReservationForWorkspace db' i w = Inr (?f r, snd res)"
    using row settled(2) unfolding requireReservationForWorkspace_Inr res eq by (simp add: mapReservation_def)
  then have "commit js sql_sum now' fresh' w i usage' db' = (if json_digest js (amounts_json actual') = json_digest js (amounts_json actual) then Inr (res, db')
        else Inl (BudgetConflict (res_source r) ''actual usage changed after it was committed''))"
    using assms(6) by (auto simp: commit_def res mapReservation_def)
  ultimately show ?thesis using settled(6) over eq by auto
qed

theorem commit_settles_once_witness:
  "commit quick_platform sample_sum ''t9'' uuid ''w'' ''budget_reservation_'' [(''tok'', 4)] (snd budget2) = Inr budget2"
proof -
  have s1: "budget_step quick_platform sample_sum empty_budget_db (snd budget1)"
    by (rule budget_step.reserve [of _ _ "''t5''" uuid "sample_reserve one_limit" "allowed_db one_limit" _ "fst budget1"]) (simp add: budget1_run)
  have run: "commit quick_platform sample_sum ''t6'' uuid ''w'' ''budget_reservation_'' [(''tok'', 4)] (snd budget1) = Inr (fst budget2, snd budget2)"
    by (simp add: budget2_run)
  have row: "row_where (\<lambda>r. resv_id r = ''budget_reservation_'') (reservations (snd budget1)) = Some (fst (the (fst budget1)))" by code_simp
  have st: "res_state (fst (the (fst budget1))) \<in> {Reserved, Outcome_Unknown}" by code_simp
  have n: "normalizeUsage quick_platform [(''tok'', 4)] ''actual usage'' = Inr [(''tok'', 4)]" by code_simp
  from commit_settles_once [OF r_into_rtranclp [of "budget_step quick_platform sample_sum", OF s1] run row st n n, of "''t9''" uuid]
  show ?thesis by simp
qed

section \<open>Calendar windows\<close>

text \<open>The clock of a zone with a fixed offset: the civil date and time of day.\<close>

definition clock :: "int \<Rightarrow> int \<times> int \<times> int \<times> int \<times> int \<times> int" where
  "clock t = (case civil (t div ms_per_day) of (y, m, d) \<Rightarrow>
     (y, m, d, t mod ms_per_day div 3600000, t div 60000 mod 60, t div 1000 mod 60))"

lemma year_of_recent: "- 365 \<le> d \<Longrightarrow> 1969 \<le> year_of d"
proof (rule ccontr)
  assume d: "- 365 \<le> d" and "\<not> 1969 \<le> year_of d"
  then have "day_from_year (year_of d + 1) \<le> day_from_year 1969" by (intro day_from_year_mono) simp
  moreover have "day_from_year 1969 = - 365" by (simp add: day_from_year_def)
  ultimately show False using year_of_spec(2) [of d] d by simp
qed

lemma date_utc_civil:
  assumes "civil d = (y, m, dt)" and "- 365 \<le> d"
  shows "date_utc y (m - 1) (dt + n) h mi s = (d + n) * ms_per_day + h * 3600000 + mi * 60000 + s * 1000"
proof -
  have "y = year_of d" using assms(1) by (simp add: civil_def Let_def)
  then have "full_year y = y" using year_of_recent [OF assms(2)] by (simp add: full_year_def)
  moreover have "make_day y (m - 1) (dt + n) = d + n" using make_day_civil [OF assms(1)] by (simp add: make_day_def Let_def)
  ultimately show ?thesis by (simp add: date_utc_def)
qed

lemma time_of_day: "t div ms_per_day * ms_per_day + t mod ms_per_day div 3600000 * 3600000 + t div 60000 mod 60 * 60000 + t div 1000 mod 60 * 1000
    = t - t mod 1000" for t :: int
proof -
  have a: "t mod ms_per_day div 3600000 = t div 3600000 - t div ms_per_day * 24"
    unfolding ms_per_day_def by (simp add: minus_mult_div_eq_mod [symmetric] zdiv_zmult2_eq [of 24 t 3600000, simplified, symmetric])
  have b: "t div 60000 mod 60 = t div 60000 - t div 3600000 * 60" using minus_div_mult_eq_mod [of "t div 60000" 60] by (simp add: zdiv_zmult2_eq [of 60 t 60000, simplified])
  have c: "t div 1000 mod 60 = t div 1000 - t div 60000 * 60" using minus_div_mult_eq_mod [of "t div 1000" 60] by (simp add: zdiv_zmult2_eq [of 60 t 1000, simplified])
  have e: "t - t mod 1000 = t div 1000 * 1000" by (simp add: minus_mod_eq_div_mult)
  show ?thesis unfolding a b c e by (simp add: ms_per_day_def algebra_simps)
qed

text \<open>
  C15: in a zone with a fixed offset of whole seconds, the window of a day budget is the civil day of
  the zone that contains the instant: it starts at the zone's midnight on or before it and ends
  exactly one day later. The correction loop of \<^verbatim>\<open>zonedMidnight\<close> needs two of its four rounds.
\<close>

theorem day_window_exact:
  assumes "\<forall>t. zone_fields js z t = Some (clock (t + off))" and "off mod 1000 = 0" and "\<bar>off\<bar> \<le> ms_per_day" and "z \<noteq> []"
    and "date_parse js now = Some t" and "0 \<le> t"
  shows "budgetWindowBounds js ''day'' (Some z) now facts
      = Inr (Some (to_iso_string js ((t + off) div ms_per_day * ms_per_day - off)), Some (to_iso_string js (((t + off) div ms_per_day + 1) * ms_per_day - off)))
    \<and> (t + off) div ms_per_day * ms_per_day - off \<le> t \<and> t < ((t + off) div ms_per_day + 1) * ms_per_day - off"
proof -
  define D where "D = (t + off) div ms_per_day"
  have D: "- 1 \<le> D" using assms(3,6) by (simp add: D_def ms_per_day_def)
  have off: "- 1 \<le> off div ms_per_day" using assms(3) by (simp add: ms_per_day_def)
  have read: "zone_read js z u = Inr (clock (u + off))" for u using assms(1) by (simp add: zone_read_def)
  have represented: "(case clock u of (y, m, d, h, mi, s) \<Rightarrow> date_utc y (m - 1) d h mi s) = u - u mod 1000" if "- 365 \<le> u div ms_per_day" for u
  proof -
    obtain y m d where c: "civil (u div ms_per_day) = (y, m, d)" by (cases "civil (u div ms_per_day)")
    show ?thesis using date_utc_civil [OF c that, of 0] time_of_day [of u] by (simp add: clock_def c)
  qed
  have step: "correct_midnight js z target (Suc n) guess = (let c = target - (guess + off - (guess + off) mod 1000) in
      if c = 0 then Inr (guess + c) else correct_midnight js z target n (guess + c))" if "- 365 \<le> (guess + off) div ms_per_day" for target n guess
    using represented [OF that] by (simp add: read split: prod.splits)
  have midnight: "zonedMidnight js (civil d) z = Inr (d * ms_per_day - off)" if "- 1 \<le> d" for d
  proof -
    obtain y m dt where c: "civil d = (y, m, dt)" by (cases "civil d")
    have target: "date_utc y (m - 1) dt 0 0 0 = d * ms_per_day" using date_utc_civil [OF c, of 0 0 0 0] that by simp
    have whole: "(d * ms_per_day) mod 1000 = 0" "(d * ms_per_day + off) mod 1000 = 0"
      using assms(2) by (simp_all add: ms_per_day_def mod_add_eq [symmetric] mod_mult_eq [symmetric])
    let ?T = "d * ms_per_day"
    have a: "- 365 \<le> (?T + off) div ms_per_day" "- 365 \<le> (?T - off + off) div ms_per_day" using that off by (simp_all add: ms_per_day_def)
    have "correct_midnight js z ?T (Suc 3) ?T = (if off = 0 then Inr ?T else correct_midnight js z ?T (Suc 2) (?T - off))"
      unfolding step [OF a(1)] whole Let_def by (simp add: eval_nat_numeral del: correct_midnight.simps)
    also have "correct_midnight js z ?T (Suc 2) (?T - off) = Inr (?T - off)"
      unfolding step [OF a(2)] Let_def by (simp add: whole del: correct_midnight.simps)
    finally have "correct_midnight js z ?T (Suc 3) ?T = Inr (?T - off)" by (simp del: correct_midnight.simps)
    moreover have "(4 :: nat) = Suc 3" by simp
    ultimately show ?thesis unfolding zonedMidnight_def c prod.case Let_def target by metis
  qed
  have next_day: "addCalendarDays (civil d) 1 = civil (d + 1)" if "- 1 \<le> d" for d
  proof -
    obtain y m dt where c: "civil d = (y, m, dt)" by (cases "civil d")
    have "date_utc y (m - 1) (dt + 1) 0 0 0 = (d + 1) * ms_per_day" using date_utc_civil [OF c, of 1 0 0 0] that by simp
    then show ?thesis by (simp add: addCalendarDays_def c ms_per_day_def)
  qed
  have parts: "zonedDateParts js t z = Inr (civil D)"
    by (simp add: zonedDateParts_def read clock_def D_def split: prod.splits)
  obtain y m d where c: "civil D = (y, m, d)" by (cases "civil D")
  have "budgetWindowBounds js ''day'' (Some z) now facts
      = Inr (Some (to_iso_string js (D * ms_per_day - off)), Some (to_iso_string js ((D + 1) * ms_per_day - off)))"
    using assms(4,5) parts midnight [OF D] midnight [of "D + 1"] next_day [OF D] D
    by (simp add: budgetWindowBounds_def truthy_def c Let_def)
  moreover have "D * ms_per_day \<le> t + off" "t + off < (D + 1) * ms_per_day"
    unfolding D_def ms_per_day_def by (simp_all add: algebra_simps)
  ultimately show ?thesis by (simp add: D_def [symmetric])
qed

definition utc_platform :: platform where
  "utc_platform = sample_platform\<lparr>zone_fields := (\<lambda>z t. Some (clock t))\<rparr>"

theorem day_window_exact_witness:
  "budgetWindowBounds utc_platform ''day'' (Some ''UTC'') ''now'' sample_usage
    = Inr (Some (to_iso_string utc_platform 0), Some (to_iso_string utc_platform ms_per_day))"
proof -
  have "budgetWindowBounds utc_platform ''day'' (Some ''UTC'') ''now'' sample_usage
      = Inr (Some (to_iso_string utc_platform ((3 + 0) div ms_per_day * ms_per_day - 0)), Some (to_iso_string utc_platform (((3 + 0) div ms_per_day + 1) * ms_per_day - 0)))
    \<and> (3 + 0) div ms_per_day * ms_per_day - 0 \<le> 3 \<and> 3 < ((3 + 0) div ms_per_day + 1) * ms_per_day - 0"
    by (rule day_window_exact) (simp_all add: utc_platform_def sample_platform_def ms_per_day_def)
  then show ?thesis by (simp add: ms_per_day_def)
qed

section \<open>Two zones on one rule\<close>

definition two_zones :: "policy_limit list" where
  "two_zones = [\<lparr>lim_metric = ''tok'', lim_maximum = 3, lim_window = ''day'', lim_timezone = Some ''UTC''\<rparr>,
     \<lparr>lim_metric = ''tok'', lim_maximum = 3, lim_window = ''day'', lim_timezone = Some ''CET''\<rparr>]"

definition limit_key_of :: "budget_limit \<Rightarrow> string \<times> string \<times> string \<times> string \<times> string \<times> string \<times> string" where
  "limit_key_of l = (bl_binding l, bl_rule l, limit_slot l)"

lemma opened_item_keys:
  assumes "rmapM (reserve_item js sql_sum now i facts estimates db) (zip frs ls) = Inr items" and "length frs = length ls"
  shows "map item_key items = map (\<lambda>l. (i, limit_key_of l)) ls"
proof -
  have "list_all2 (\<lambda>fl x. reserve_item js sql_sum now i facts estimates db fl = Inr x) (zip frs ls) items" using assms(1) by (simp add: rmapM_Inr_iff)
  then have "list_all2 (\<lambda>fl x. item_key x = (i, limit_key_of (snd fl))) (zip frs ls) items"
    by (rule list_all2_mono) (auto simp: reserve_item_Inr item_for_def item_key_def limit_key_of_def limit_slot_def)
  then have "map item_key items = map ((\<lambda>l. (i, limit_key_of l)) \<circ> snd) (zip frs ls)" by (induction rule: list_all2_induct) auto
  then show ?thesis using assms(2) by (metis map_map map_snd_zip)
qed

text \<open>
  C16: a reservation is only opened when no two of its limits come from the same binding and rule and
  are about the same subject, metric and window: the unique key of a reservation item leaves out the
  zone. Yet a rule with two day limits on one metric in two zones is accepted as policy content in
  normal form, and an evaluation reports both limits, so an operation it governs can never reserve.
\<close>

theorem two_zone_limits_unreservable:
  assumes "reserve js sql_sum now fresh input pdb db = Inr (Some r, db')" and "fst r \<notin> set (reservations db)"
  shows "distinct (map limit_key_of (ev_limits (rs_evaluation input)))
    \<and> normalizeEffect quick_platform (Limit two_zones) ''r1'' = Inr (Limit two_zones)
    \<and> strictestLimits quick_platform [sample_limit ''r1'' ''day'' (Some ''UTC''), sample_limit ''r1'' ''day'' (Some ''CET'')]
      = [sample_limit ''r1'' ''day'' (Some ''UTC''), sample_limit ''r1'' ''day'' (Some ''CET'')]
    \<and> limit_key_of (sample_limit ''r1'' ''day'' (Some ''UTC'')) = limit_key_of (sample_limit ''r1'' ''day'' (Some ''CET''))"
proof (intro conjI)
  from assms(1) show "distinct (map limit_key_of (ev_limits (rs_evaluation input)))"
  proof (cases rule: reserveE)
    case (existing source facts estimates r')
    then have "fst r \<in> set (reservations db)" by (auto simp: getBySource_def mapReservation_def dest: row_where_SomeD)
    with assms(2) show ?thesis by blast
  next
    case (opened source facts estimates items row i)
    have "distinct (map item_key items)" using insert_itemsD [OF opened(7)] by blast
    moreover have "map item_key items = map (\<lambda>l. (i, limit_key_of l)) (ev_limits (rs_evaluation input))"
      using opened(5) by (rule opened_item_keys) simp
    ultimately show ?thesis by (simp add: distinct_map inj_on_def comp_def)
  qed simp
  show "normalizeEffect quick_platform (Limit two_zones) ''r1'' = Inr (Limit two_zones)" by code_simp
  show "strictestLimits quick_platform [sample_limit ''r1'' ''day'' (Some ''UTC''), sample_limit ''r1'' ''day'' (Some ''CET'')]
      = [sample_limit ''r1'' ''day'' (Some ''UTC''), sample_limit ''r1'' ''day'' (Some ''CET'')]" by code_simp
  show "limit_key_of (sample_limit ''r1'' ''day'' (Some ''UTC'')) = limit_key_of (sample_limit ''r1'' ''day'' (Some ''CET''))"
    by (simp add: limit_key_of_def limit_slot_def sample_limit_def)
qed

theorem two_zone_limits_unreservable_witness:
  "distinct (map limit_key_of (ev_limits (rs_evaluation (sample_reserve one_limit))))"
  using two_zone_limits_unreservable [OF budget1_new] by (simp add: empty_budget_db_def)

end
