(* ===== verification/Authority_Sessions.thy ===== *)
theory Authority_Sessions
  imports Capability_Grants Policies
begin

text \<open>
  \<^verbatim>\<open>floe-bus/src/operation-authority-sessions.ts\<close>: bearer sessions that refer to capability grants, and
  the verifier that turns a bearer token into the authority of an operation. Only a hash of a token
  is stored. The JSON columns of a row are modelled by the values they encode.
\<close>

section \<open>Data\<close>

record session_row =
  as_id :: string
  as_token_hash :: string
  as_principal :: string
  as_workspace :: string
  as_grant_ids :: "string list"
  as_interaction :: interaction
  as_provenance :: provenance
  as_issued_at :: string
  as_expires_at :: string
  as_revoked_at :: "string option"

text \<open>\<open>revocations\<close> records the calls of the \<^verbatim>\<open>on_revoked\<close> dependency, oldest first.\<close>

record session_db =
  sessions :: "session_row list"
  revocations :: "string list"

record issue_session =
  is_principal :: string
  is_workspace :: string
  is_grant_ids :: "string list"
  is_mode :: interaction_mode
  is_session_id :: string
  is_broker :: "string option"
  is_prompts :: "string list option"
  is_approvals :: "string list option"
  is_provenance :: provenance
  is_expires_at :: string

datatype session_error =
    SessionEmpty string | SessionTimestamp string | SessionExpiry | SessionToken
  | SessionGrants grant_error | SessionConstraint

datatype verification_failure =
  authority_token_invalid | authority_boundary_mismatch | authority_session_expired | authority_session_revoked

record verified_authority =
  va_session :: string
  va_expires_at :: string
  va_resolved :: resolved_authority
  va_provenance :: provenance

datatype verification = Verified verified_authority | Refused verification_failure string

section \<open>Normalisation\<close>

definition session_nonempty :: "string \<Rightarrow> string \<Rightarrow> (session_error, unit) result" where
  "session_nonempty label v = throw_if (is_blank v) (SessionEmpty label) (Inr ())"

definition session_time :: "platform \<Rightarrow> string \<Rightarrow> string \<Rightarrow> (session_error, int) result" where
  "session_time js label v = (case date_parse js v of None \<Rightarrow> Inl (SessionTimestamp label) | Some t \<Rightarrow> Inr t)"

definition normalizedSet :: "platform \<Rightarrow> string list \<Rightarrow> string \<Rightarrow> (session_error, string list) result" where
  "normalizedSet js vs label = rbind (rmapM (session_nonempty label) vs) (\<lambda>_. Inr (js_sort (locale_compare js) (js_uniq vs)))"

definition optionalRef :: "string \<Rightarrow> string option \<Rightarrow> (session_error, string option) result" where
  "optionalRef label v = (case v of None \<Rightarrow> Inr None | Some s \<Rightarrow> rbind (session_nonempty label s) (\<lambda>_. Inr (Some s)))"

definition session_provenance :: "platform \<Rightarrow> provenance \<Rightarrow> (session_error, provenance) result" where
  "session_provenance js p =
     rbind (optionalRef ''provenance.cause_event_id'' (cause_event_id p)) (\<lambda>c.
     rbind (normalizedSet js (delivery_ids p) ''provenance delivery_id'') (\<lambda>ds.
     rbind (optionalRef ''provenance.execution_attempt_id'' (execution_attempt_id p)) (\<lambda>a.
     rbind (optionalRef ''provenance.node_execution_id'' (node_execution_id p)) (\<lambda>n.
     rbind (optionalRef ''provenance.scope_execution_id'' (prov_scope_execution_id p)) (\<lambda>s.
       Inr \<lparr>cause_event_id = c, delivery_ids = ds, execution_attempt_id = a, node_execution_id = n, prov_scope_execution_id = s\<rparr>)))))"

definition hashBearerToken :: "platform \<Rightarrow> string \<Rightarrow> string" where
  "hashBearerToken js token = sha256_hex js (''floe-operation-authority-token:v1'' @ [CHR 0x00] @ token)"

definition lift_grant :: "(grant_error, 'a) result \<Rightarrow> (session_error, 'a) result" where
  "lift_grant r = (case r of Inl e \<Rightarrow> Inl (SessionGrants e) | Inr x \<Rightarrow> Inr x)"

section \<open>The store\<close>

text \<open>
  \<open>now\<close> is read by the session store and \<open>grantNow\<close> by the grant store it consults; \<open>token\<close> and
  \<open>fresh\<close> are the results of the token and session id factories.
\<close>

definition issueSession ::
  "platform \<Rightarrow> string \<Rightarrow> string \<Rightarrow> string \<Rightarrow> string \<Rightarrow> issue_session \<Rightarrow> grant_db \<Rightarrow> session_db
    \<Rightarrow> (session_error, (string \<times> session_row) \<times> session_db) result" where
  "issueSession js now grantNow token fresh input gdb db =
     rbind (session_nonempty ''principal_id'' (is_principal input)) (\<lambda>_.
     rbind (session_nonempty ''workspace_id'' (is_workspace input)) (\<lambda>_.
     rbind (session_nonempty ''interaction.session_id'' (is_session_id input)) (\<lambda>_.
     rbind (session_time js ''issued_at'' now) (\<lambda>issuedMs.
     rbind (session_time js ''expires_at'' (is_expires_at input)) (\<lambda>expiresMs.
     throw_if (expiresMs \<le> issuedMs) SessionExpiry
     (throw_if (length token < 32) SessionToken
     (rbind (lift_grant (requireActiveSessionGrantIds js gdb grantNow
               \<lparr>sb_principal_id = is_principal input, sb_boundary = Workspace (is_workspace input), sb_grant_ids = is_grant_ids input\<rparr>)) (\<lambda>ids.
      rbind (normalizedSet js (case is_prompts input of None \<Rightarrow> [] | Some ps \<Rightarrow> ps) ''confirmation'') (\<lambda>prompts.
      rbind (normalizedSet js (case is_approvals input of None \<Rightarrow> [] | Some ps \<Rightarrow> ps) ''approval reference'') (\<lambda>approvals.
      rbind (session_provenance js (is_provenance input)) (\<lambda>prov.
      let row = \<lparr>as_id = fresh, as_token_hash = hashBearerToken js token, as_principal = is_principal input,
            as_workspace = is_workspace input, as_grant_ids = ids,
            as_interaction = \<lparr>mode = is_mode input, session_id = is_session_id input, broker_id = is_broker input,
              confirmed_prompts = prompts, approval_refs = approvals\<rparr>,
            as_provenance = prov, as_issued_at = now, as_expires_at = is_expires_at input, as_revoked_at = None\<rparr>
      in throw_if (\<exists>x \<in> set (sessions db). as_id x = fresh \<or> as_token_hash x = hashBearerToken js token) SessionConstraint
         (Inr ((token, row), db\<lparr>sessions := sessions db @ [row]\<rparr>)))))))))))))"

definition revokeSession :: "platform \<Rightarrow> string \<Rightarrow> string \<Rightarrow> session_db \<Rightarrow> (session_error, bool \<times> session_db) result" where
  "revokeSession js i revokedAt db =
     rbind (session_time js ''revoked_at'' revokedAt) (\<lambda>_.
     let hit = (\<lambda>x. as_id x = i \<and> as_revoked_at x = None);
         revoked = (length (filter hit (sessions db)) = 1);
         db' = db\<lparr>sessions := set_where hit (\<lambda>x. x\<lparr>as_revoked_at := Some revokedAt\<rparr>) (sessions db)\<rparr>
     in Inr (revoked, if revoked then db'\<lparr>revocations := revocations db' @ [i]\<rparr> else db'))"

fun revoke_each :: "platform \<Rightarrow> string list \<Rightarrow> string \<Rightarrow> session_db \<Rightarrow> (session_error, session_db) result" where
  "revoke_each js [] revokedAt db = Inr db"
| "revoke_each js (i # is) revokedAt db = rbind (revokeSession js i revokedAt db) (\<lambda>(_, db'). revoke_each js is revokedAt db')"

definition revokeSessionsForInteraction ::
  "platform \<Rightarrow> string \<Rightarrow> string \<Rightarrow> session_db \<Rightarrow> (session_error, string list \<times> session_db) result" where
  "revokeSessionsForInteraction js interaction revokedAt db =
     rbind (session_time js ''revoked_at'' revokedAt) (\<lambda>_.
     let ids = map as_id (filter (\<lambda>x. session_id (as_interaction x) = interaction \<and> as_revoked_at x = None) (sessions db))
     in rbind (revoke_each js ids revokedAt db) (\<lambda>db'. Inr (ids, db')))"

text \<open>\<^verbatim>\<open>rowToSession\<close> normalises the stored provenance again.\<close>

definition rowToSession :: "platform \<Rightarrow> session_row \<Rightarrow> (session_error, session_row) result" where
  "rowToSession js r = rbind (session_provenance js (as_provenance r)) (\<lambda>p. Inr (r\<lparr>as_provenance := p\<rparr>))"

definition getSession :: "platform \<Rightarrow> session_db \<Rightarrow> string \<Rightarrow> (session_error, session_row option) result" where
  "getSession js db i = (case row_where (\<lambda>r. as_id r = i) (sessions db) of
      None \<Rightarrow> Inr None | Some r \<Rightarrow> rbind (rowToSession js r) (\<lambda>r'. Inr (Some r')))"

definition findByTokenHash :: "platform \<Rightarrow> session_db \<Rightarrow> string \<Rightarrow> (session_error, session_row option) result" where
  "findByTokenHash js db h = (case row_where (\<lambda>r. as_token_hash r = h) (sessions db) of
      None \<Rightarrow> Inr None | Some r \<Rightarrow> rbind (rowToSession js r) (\<lambda>r'. Inr (Some r')))"

section \<open>Verification\<close>

definition sessionGrantBinding :: "session_row \<Rightarrow> session_binding" where
  "sessionGrantBinding r = \<lparr>sb_principal_id = as_principal r, sb_boundary = Workspace (as_workspace r), sb_grant_ids = as_grant_ids r\<rparr>"

definition verifyBearerToken ::
  "platform \<Rightarrow> string \<Rightarrow> string \<Rightarrow> string \<Rightarrow> string \<Rightarrow> resource_identity option \<Rightarrow> grant_db \<Rightarrow> session_db
    \<Rightarrow> (session_error, verification) result" where
  "verifyBearerToken js now grantNow token w target gdb db =
     (if token = [] then Inr (Refused authority_token_invalid ''The authority credential is invalid.'')
      else rbind (findByTokenHash js db (hashBearerToken js token)) (\<lambda>found.
        case found of
          None \<Rightarrow> Inr (Refused authority_token_invalid ''The authority credential is invalid.'')
        | Some s \<Rightarrow>
          if as_workspace s \<noteq> w then
            Inr (Refused authority_boundary_mismatch ''The authority credential is not valid for this authority boundary.'')
          else if as_revoked_at s \<noteq> None then Inr (Refused authority_session_revoked ''The authority session has been revoked.'')
          else rbind (session_time js ''expires_at'' (as_expires_at s)) (\<lambda>expires.
          rbind (session_time js ''now'' now) (\<lambda>nowMs.
          if expires \<le> nowMs then Inr (Refused authority_session_expired ''The authority session has expired.'')
          else rbind (lift_grant (resolveSessionAuthority js gdb grantNow (sessionGrantBinding s) (as_interaction s) target)) (\<lambda>ra.
            Inr (Verified \<lparr>va_session = as_id s, va_expires_at = as_expires_at s, va_resolved = ra, va_provenance = as_provenance s\<rparr>))))))"

end
