(* ===== verification/Session_Properties.thy ===== *)
theory Session_Properties
  imports Authority_Sessions Grant_Sessions
begin

text \<open>
  Properties of authority sessions: what the store keeps, exactly which tokens verify and with which
  authority, and that a revoked session stays revoked.
\<close>

section \<open>The invariant\<close>

definition session_row_ok :: "platform \<Rightarrow> session_row \<Rightarrow> bool" where
  "session_row_ok js s \<longleftrightarrow> session_ok (sessionGrantBinding s) \<and> \<not> is_blank (session_id (as_interaction s))
     \<and> (\<exists>p. session_provenance js (as_provenance s) = Inr p) \<and> date_parse js (as_expires_at s) \<noteq> None"

definition session_inv :: "platform \<Rightarrow> session_db \<Rightarrow> bool" where
  "session_inv js db \<longleftrightarrow> distinct (map as_id (sessions db)) \<and> distinct (map as_token_hash (sessions db))
     \<and> (\<forall>s \<in> set (sessions db). session_row_ok js s)"

definition empty_session_db :: session_db where
  "empty_session_db = \<lparr>sessions = [], revocations = []\<rparr>"

inductive session_step :: "platform \<Rightarrow> session_db \<Rightarrow> session_db \<Rightarrow> bool" for js where
  issue: "issueSession js now gnow token fresh input gdb db = Inr (res, db') \<Longrightarrow> session_step js db db'"
| revoke: "revokeSession js i at' db = Inr (res, db') \<Longrightarrow> session_step js db db'"
| revoke_all: "revokeSessionsForInteraction js i at' db = Inr (res, db') \<Longrightarrow> session_step js db db'"

lemma session_nonempty_Inr [result_simps]: "session_nonempty l v = Inr u \<longleftrightarrow> \<not> is_blank v"
  by (simp add: session_nonempty_def result_simps)

lemma session_time_Inr [result_simps]: "session_time js l v = Inr t \<longleftrightarrow> date_parse js v = Some t"
  by (auto simp: session_time_def split: option.splits)

lemma normalizedSet_Inr: "normalizedSet js vs l = Inr ws \<longleftrightarrow> (\<forall>v \<in> set vs. \<not> is_blank v) \<and> ws = js_sort (locale_compare js) (js_uniq vs)"
proof -
  have "(\<exists>us. rmapM (session_nonempty l) vs = Inr us) \<longleftrightarrow> (\<forall>v \<in> set vs. \<not> is_blank v)"
    by (induction vs) (auto simp: result_simps)
  then show ?thesis by (auto simp: normalizedSet_def rbind_Inr_iff)
qed

lemma optionalRef_Inr: "optionalRef l v = Inr w \<longleftrightarrow> w = v \<and> (\<forall>s. v = Some s \<longrightarrow> \<not> is_blank s)"
  by (auto simp: optionalRef_def result_simps split: option.splits)

lemma session_provenance_again: "session_provenance js p = Inr q \<Longrightarrow> \<exists>q'. session_provenance js q = Inr q'"
  by (auto simp: session_provenance_def rbind_Inr_iff optionalRef_Inr normalizedSet_Inr)

lemma requireActive_nonblank:
  "requireActiveSessionGrantIds js gdb now s = Inr ids \<Longrightarrow> i \<in> set ids \<Longrightarrow> \<not> is_blank i"
  by (auto simp: requireActiveSessionGrantIds_def result_simps normalizeNonEmptySet_Inr)

lemma issueSessionE:
  assumes "issueSession js now gnow token fresh input gdb db = Inr ((t, row), db')"
  obtains "db' = db\<lparr>sessions := sessions db @ [row]\<rparr>" "t = token" "as_token_hash row = hashBearerToken js token" "as_id row = fresh"
    "as_revoked_at row = None" "session_row_ok js row" "fresh \<notin> as_id ` set (sessions db)"
    "hashBearerToken js token \<notin> as_token_hash ` set (sessions db)" "as_workspace row = is_workspace input" "token \<noteq> []"
    "as_expires_at row = is_expires_at input" "as_principal row = is_principal input"
    "requireActiveSessionGrantIds js gdb gnow (sessionGrantBinding row\<lparr>sb_grant_ids := is_grant_ids input\<rparr>) = Inr (as_grant_ids row)"
proof -
  from assms obtain ids prompts approvals prov e where
      ok: "\<not> is_blank (is_principal input)" "\<not> is_blank (is_workspace input)" "\<not> is_blank (is_session_id input)"
        "date_parse js (is_expires_at input) = Some e" "\<not> length token < 32"
      and g: "requireActiveSessionGrantIds js gdb gnow
        \<lparr>sb_principal_id = is_principal input, sb_boundary = Workspace (is_workspace input), sb_grant_ids = is_grant_ids input\<rparr> = Inr ids"
      and p: "session_provenance js (is_provenance input) = Inr prov"
      and row: "row = \<lparr>as_id = fresh, as_token_hash = hashBearerToken js token, as_principal = is_principal input,
            as_workspace = is_workspace input, as_grant_ids = ids,
            as_interaction = \<lparr>mode = is_mode input, session_id = is_session_id input, broker_id = is_broker input,
              confirmed_prompts = prompts, approval_refs = approvals\<rparr>,
            as_provenance = prov, as_issued_at = now, as_expires_at = is_expires_at input, as_revoked_at = None\<rparr>"
      and u: "\<not> (\<exists>x \<in> set (sessions db). as_id x = fresh \<or> as_token_hash x = hashBearerToken js token)"
      and db': "t = token" "db' = db\<lparr>sessions := sessions db @ [row]\<rparr>"
    unfolding issueSession_def rbind_Inr_iff throw_if_Inr_iff Let_def result_simps
    by (auto simp: lift_grant_def split: sum.splits)
  have "session_row_ok js row"
    using ok requireActive_nonblank [OF g] session_provenance_again [OF p]
    by (auto simp: session_row_ok_def row sessionGrantBinding_def session_ok_def boundaryId_def)
  moreover have "token \<noteq> []" using ok(5) by auto
  moreover have "fresh \<notin> as_id ` set (sessions db)" "hashBearerToken js token \<notin> as_token_hash ` set (sessions db)" using u by auto
  ultimately show thesis by (intro that) (use db' g in \<open>simp_all add: row sessionGrantBinding_def\<close>)
qed

lemma revokeSessionE:
  assumes "revokeSession js i t db = Inr (res, db')"
  shows "sessions db' = set_where (\<lambda>x. as_id x = i \<and> as_revoked_at x = None) (\<lambda>x. x\<lparr>as_revoked_at := Some t\<rparr>) (sessions db)"
  using assms by (auto simp: revokeSession_def result_simps Let_def)

text \<open>Revoking changes only the revocation time of live rows: the shape of what every revocation writes.\<close>

definition revoked_row :: "session_row \<Rightarrow> session_row \<Rightarrow> bool" where
  "revoked_row x y \<longleftrightarrow> y = x \<or> as_revoked_at x = None \<and> (\<exists>t. y = x\<lparr>as_revoked_at := Some t\<rparr>)"

definition revokes :: "session_db \<Rightarrow> session_db \<Rightarrow> bool" where
  "revokes db db' \<longleftrightarrow> list_all2 revoked_row (sessions db) (sessions db')"

lemma revokes_refl: "revokes db db"
  by (simp add: revokes_def revoked_row_def list_all2_refl)

lemma revokes_trans: "revokes a b \<Longrightarrow> revokes b c \<Longrightarrow> revokes a c"
  unfolding revokes_def by (rule list_all2_trans [of revoked_row revoked_row revoked_row]) (auto simp: revoked_row_def)

lemma revokes_step: "revokeSession js i t db = Inr (res, db') \<Longrightarrow> revokes db db'"
  unfolding revokes_def revoked_row_def by (auto simp: revokeSessionE set_where_def list_all2_map2 intro!: list_all2_refl)

lemma revokes_each: "revoke_each js ids t db = Inr db' \<Longrightarrow> revokes db db'"
  by (induction js ids t db rule: revoke_each.induct) (auto simp: rbind_Inr_iff revokes_refl dest: revokes_step intro: revokes_trans)

lemma revokes_all: "revokeSessionsForInteraction js i t db = Inr (res, db') \<Longrightarrow> revokes db db'"
  by (auto simp: revokeSessionsForInteraction_def result_simps Let_def dest: revokes_each)

lemma revokes_inv:
  assumes r: "revokes db db'" and inv: "session_inv js db"
  shows "session_inv js db'"
proof -
  have l: "list_all2 (\<lambda>x y. as_id y = as_id x \<and> as_token_hash y = as_token_hash x \<and> (session_row_ok js x \<longrightarrow> session_row_ok js y)) (sessions db) (sessions db')"
    using r unfolding revokes_def revoked_row_def by (rule list_all2_mono) (auto simp: session_row_ok_def sessionGrantBinding_def)
  then have "map as_id (sessions db') = map as_id (sessions db)" "map as_token_hash (sessions db') = map as_token_hash (sessions db)"
    "(\<forall>s \<in> set (sessions db). session_row_ok js s) \<Longrightarrow> (\<forall>s \<in> set (sessions db'). session_row_ok js s)"
    by (induction rule: list_all2_induct) auto
  then show ?thesis using inv by (simp add: session_inv_def)
qed

lemma session_step_inv: "session_step js db db' \<Longrightarrow> session_inv js db \<Longrightarrow> session_inv js db'"
proof (induction rule: session_step.induct)
  case (issue now gnow token fresh input gdb db res db')
  obtain t row where "res = (t, row)" by (cases res)
  with issue(1) have i: "issueSession js now gnow token fresh input gdb db = Inr ((t, row), db')" by simp
  from i show ?case by (rule issueSessionE) (use issue(2) in \<open>auto simp: session_inv_def\<close>)
qed (auto intro: revokes_inv revokes_step revokes_all)

lemma session_reachable_inv: "(session_step js)\<^sup>*\<^sup>* empty_session_db db \<Longrightarrow> session_inv js db"
proof (induction rule: rtranclp_induct)
  case base
  show ?case by (simp add: session_inv_def empty_session_db_def)
qed (rule session_step_inv)

lemma find_token:
  assumes inv: "session_inv js db"
  shows "findByTokenHash js db h = Inr (case row_where (\<lambda>r. as_token_hash r = h) (sessions db) of None \<Rightarrow> None
    | Some r \<Rightarrow> Some (r\<lparr>as_provenance := projr (session_provenance js (as_provenance r))\<rparr>))"
proof (cases "row_where (\<lambda>r. as_token_hash r = h) (sessions db)")
  case (Some r)
  then have "r \<in> set (sessions db)" by (blast dest: row_where_SomeD)
  with inv obtain p where "session_provenance js (as_provenance r) = Inr p" by (auto simp: session_inv_def session_row_ok_def)
  then show ?thesis using Some by (simp add: findByTokenHash_def rowToSession_def)
qed (simp add: findByTokenHash_def)

section \<open>Verification\<close>

text \<open>The rows a token is accepted for at a Workspace and a time.\<close>

definition accepts :: "platform \<Rightarrow> string \<Rightarrow> string \<Rightarrow> int \<Rightarrow> session_row \<Rightarrow> bool" where
  "accepts js token w t s \<longleftrightarrow> token \<noteq> [] \<and> as_token_hash s = hashBearerToken js token \<and> as_workspace s = w \<and> as_revoked_at s = None
     \<and> (\<exists>e. date_parse js (as_expires_at s) = Some e \<and> t < e)"

lemma verify_row:
  assumes inv: "session_inv js db" and s: "s \<in> set (sessions db)" "as_token_hash s = hashBearerToken js token" and "token \<noteq> []"
  obtains p e where "date_parse js (as_expires_at s) = Some e"
    "verifyBearerToken js now gnow token w target gdb db =
      (if as_workspace s \<noteq> w then Inr (Refused authority_boundary_mismatch ''The authority credential is not valid for this authority boundary.'')
       else if as_revoked_at s \<noteq> None then Inr (Refused authority_session_revoked ''The authority session has been revoked.'')
       else rbind (session_time js ''now'' now) (\<lambda>t.
         if e \<le> t then Inr (Refused authority_session_expired ''The authority session has expired.'')
         else rbind (lift_grant (resolveSessionAuthority js gdb gnow (sessionGrantBinding s) (as_interaction s) target)) (\<lambda>ra.
           Inr (Verified \<lparr>va_session = as_id s, va_expires_at = as_expires_at s, va_resolved = ra, va_provenance = p\<rparr>))))"
proof -
  have "row_where (\<lambda>r. as_token_hash r = hashBearerToken js token) (sessions db) = Some s"
    using inv s row_where_key [of as_token_hash "sessions db" s] by (simp add: session_inv_def)
  then have found: "findByTokenHash js db (hashBearerToken js token) = Inr (Some (s\<lparr>as_provenance := projr (session_provenance js (as_provenance s))\<rparr>))"
    by (simp add: find_token [OF inv])
  from inv s(1) obtain e where e: "date_parse js (as_expires_at s) = Some e" by (auto simp: session_inv_def session_row_ok_def)
  have binding: "sessionGrantBinding (s\<lparr>as_provenance := q\<rparr>) = sessionGrantBinding s" for q by (simp add: sessionGrantBinding_def)
  show thesis
    by (rule that [where p = "projr (session_provenance js (as_provenance s))", OF e])
      (simp add: verifyBearerToken_def found assms(4) e session_time_def binding cong: if_cong)
qed

text \<open>
  C17: a bearer token is verified exactly when it hashes to a stored session of the same Workspace that
  is neither revoked nor expired. The authority it then carries is exactly that of the session's own
  grants which are live at that moment and apply to the target: a session never outlives or exceeds
  the grants it refers to.
\<close>

theorem session_verification_exact:
  assumes "(session_step js)\<^sup>*\<^sup>* empty_session_db db" and "grant_reachable js gdb" and "date_parse js now = Some t" and "date_parse js gnow = Some gt"
  shows "((\<exists>v. verifyBearerToken js now gnow token w target gdb db = Inr (Verified v)) \<longleftrightarrow> (\<exists>s \<in> set (sessions db). accepts js token w t s))
    \<and> (\<forall>v. verifyBearerToken js now gnow token w target gdb db = Inr (Verified v) \<longrightarrow>
        (\<exists>s \<in> set (sessions db). accepts js token w t s \<and> va_session v = as_id s
          \<and> set (auth_grants (ra_authority (va_resolved v))) = {op. \<exists>i \<in> set (as_grant_ids s). \<exists>g.
              getGrant js gdb i = Inr (Some g) \<and> principal_id g = as_principal s \<and> grant_boundary g = Workspace w
              \<and> current js g gt \<and> live_chain js gdb gt i \<and> \<not> delegation_only g
              \<and> grantAppliesToTarget g target \<and> op \<in> set (operation_ids g)}))"
proof -
  have inv: "session_inv js db" using assms(1) by (rule session_reachable_inv)
  let ?verify = "verifyBearerToken js now gnow token w target gdb db"
  have ok: "\<exists>v. ?verify = Inr (Verified v) \<and> va_session v = as_id s \<and> set (auth_grants (ra_authority (va_resolved v))) = {op. \<exists>i \<in> set (as_grant_ids s). \<exists>g.
              getGrant js gdb i = Inr (Some g) \<and> principal_id g = as_principal s \<and> grant_boundary g = Workspace w
              \<and> current js g gt \<and> live_chain js gdb gt i \<and> \<not> delegation_only g
              \<and> grantAppliesToTarget g target \<and> op \<in> set (operation_ids g)}"
    if s: "s \<in> set (sessions db)" "accepts js token w t s" for s
  proof -
    have a: "token \<noteq> []" "as_token_hash s = hashBearerToken js token" using s(2) by (simp_all add: accepts_def)
    have "session_row_ok js s" using inv s(1) by (simp add: session_inv_def)
    then obtain ra where ra: "resolveSessionAuthority js gdb gnow (sessionGrantBinding s) (as_interaction s) target = Inr ra"
        "set (auth_grants (ra_authority ra)) = {op. \<exists>i \<in> set (sb_grant_ids (sessionGrantBinding s)). \<exists>g.
        getGrant js gdb i = Inr (Some g) \<and> principal_id g = sb_principal_id (sessionGrantBinding s) \<and> grant_boundary g = sb_boundary (sessionGrantBinding s)
        \<and> current js g gt \<and> live_chain js gdb gt i \<and> \<not> delegation_only g
        \<and> grantAppliesToTarget g target \<and> op \<in> set (operation_ids g)}"
      using resolve_exact [OF assms(2) _ _ assms(4), of "sessionGrantBinding s" "as_interaction s" target] by (auto simp: session_row_ok_def)
    obtain p e where e: "date_parse js (as_expires_at s) = Some e" and v: "?verify =
      (if as_workspace s \<noteq> w then Inr (Refused authority_boundary_mismatch ''The authority credential is not valid for this authority boundary.'')
       else if as_revoked_at s \<noteq> None then Inr (Refused authority_session_revoked ''The authority session has been revoked.'')
       else rbind (session_time js ''now'' now) (\<lambda>t.
         if e \<le> t then Inr (Refused authority_session_expired ''The authority session has expired.'')
         else rbind (lift_grant (resolveSessionAuthority js gdb gnow (sessionGrantBinding s) (as_interaction s) target)) (\<lambda>ra.
           Inr (Verified \<lparr>va_session = as_id s, va_expires_at = as_expires_at s, va_resolved = ra, va_provenance = p\<rparr>))))"
      by (rule verify_row [OF inv s(1) a(2,1)])
    have w: "as_workspace s = w" using s(2) by (simp add: accepts_def)
    have "?verify = Inr (Verified \<lparr>va_session = as_id s, va_expires_at = as_expires_at s, va_resolved = ra, va_provenance = p\<rparr>)"
      using s(2) e assms(3) ra(1) unfolding v by (auto simp: accepts_def session_time_def lift_grant_def)
    then show ?thesis using ra(2) by (simp add: sessionGrantBinding_def w)
  qed
  have conv: "\<exists>s \<in> set (sessions db). accepts js token w t s" if v: "?verify = Inr (Verified v)" for v
  proof -
    have tok: "token \<noteq> []" using v by (auto simp: verifyBearerToken_def)
    show ?thesis
    proof (cases "row_where (\<lambda>r. as_token_hash r = hashBearerToken js token) (sessions db)")
      case None
      then show ?thesis using v tok by (simp add: verifyBearerToken_def find_token [OF inv])
    next
      case (Some s)
      then have s: "s \<in> set (sessions db)" "as_token_hash s = hashBearerToken js token" by (blast dest: row_where_SomeD)+
      show ?thesis
        by (rule verify_row [OF inv s tok, of now gnow w target gdb])
          (use v s tok assms(3) in \<open>auto simp: accepts_def session_time_def split: if_splits intro!: bexI [of _ s]\<close>)
    qed
  qed
  show ?thesis
  proof (intro conjI allI impI)
    show "(\<exists>v. ?verify = Inr (Verified v)) \<longleftrightarrow> (\<exists>s \<in> set (sessions db). accepts js token w t s)" using ok conv by blast
  next
    fix v assume v: "?verify = Inr (Verified v)"
    from conv [OF v] obtain s where s: "s \<in> set (sessions db)" "accepts js token w t s" by blast
    from ok [OF s] v s show "\<exists>s \<in> set (sessions db). accepts js token w t s \<and> va_session v = as_id s
          \<and> set (auth_grants (ra_authority (va_resolved v))) = {op. \<exists>i \<in> set (as_grant_ids s). \<exists>g.
              getGrant js gdb i = Inr (Some g) \<and> principal_id g = as_principal s \<and> grant_boundary g = Workspace w
              \<and> current js g gt \<and> live_chain js gdb gt i \<and> \<not> delegation_only g
              \<and> grantAppliesToTarget g target \<and> op \<in> set (operation_ids g)}"
      by (intro bexI [of _ s]) simp_all
  qed
qed

text \<open>A worked run: a session over the grants of the sample store.\<close>

definition session_input :: issue_session where
  "session_input = \<lparr>is_principal = ''ada'', is_workspace = ''w'', is_grant_ids = [''g1''], is_mode = Interactive, is_session_id = ''i1'',
     is_broker = None, is_prompts = None, is_approvals = None,
     is_provenance = \<lparr>cause_event_id = None, delivery_ids = [], execution_attempt_id = None, node_execution_id = None, prov_scope_execution_id = None\<rparr>,
     is_expires_at = ''.........''\<rparr>"

definition sample_token :: string where
  "sample_token = replicate 32 (CHR ''k'')"

definition session1 :: "(string \<times> session_row) \<times> session_db" where
  "session1 = projr (issueSession sample_platform ''...'' ''...'' sample_token ''s1'' session_input (snd sample1) empty_session_db)"

definition session2 :: "bool \<times> session_db" where
  "session2 = projr (revokeSession sample_platform ''s1'' ''....'' (snd session1))"

lemma session1_run: "issueSession sample_platform ''...'' ''...'' sample_token ''s1'' session_input (snd sample1) empty_session_db = Inr session1"
  unfolding session1_def by (rule returns_projr) code_simp

lemma session2_run: "revokeSession sample_platform ''s1'' ''....'' (snd session1) = Inr (True, snd session2)"
proof -
  have "revokeSession sample_platform ''s1'' ''....'' (snd session1) = Inr session2" unfolding session2_def by (rule returns_projr) code_simp
  moreover have "fst session2" by code_simp
  ultimately show ?thesis by (metis prod.collapse)
qed

lemma session1_reachable: "(session_step sample_platform)\<^sup>*\<^sup>* empty_session_db (snd session1)"
proof -
  have "issueSession sample_platform ''...'' ''...'' sample_token ''s1'' session_input (snd sample1) empty_session_db = Inr (fst session1, snd session1)"
    by (simp add: session1_run)
  then show ?thesis by (intro r_into_rtranclp session_step.issue)
qed

theorem session_verification_exact_witness:
  "\<exists>v. verifyBearerToken sample_platform ''...'' ''...'' sample_token ''w'' None (snd sample1) (snd session1) = Inr (Verified v)"
proof -
  have "list_ex (\<lambda>s. as_token_hash s = hashBearerToken sample_platform sample_token \<and> as_workspace s = ''w'' \<and> as_revoked_at s = None
      \<and> date_parse sample_platform (as_expires_at s) = Some 9) (sessions (snd session1))" by code_simp
  moreover have "sample_token \<noteq> []" by (simp add: sample_token_def)
  ultimately have "\<exists>s \<in> set (sessions (snd session1)). accepts sample_platform sample_token ''w'' 3 s"
    unfolding list_ex_iff accepts_def by force
  moreover have d: "date_parse sample_platform ''...'' = Some 3" by code_simp
  ultimately show ?thesis
    using session_verification_exact [OF session1_reachable sample_reachable(1) d d, of sample_token "''w''" None] by blast
qed

section \<open>Revocation\<close>

lemma revoked_stays:
  assumes "session_step js db db'" and "s \<in> set (sessions db)" and "as_revoked_at s \<noteq> None"
  shows "s \<in> set (sessions db')"
proof -
  have keep: "s \<in> set (sessions db')" if "revokes db db'"
    using that assms(2,3) unfolding revokes_def revoked_row_def list_all2_conv_all_nth in_set_conv_nth by (metis option.discI)
  from assms(1) show ?thesis
  proof cases
    case (issue now gnow token fresh input gdb res)
    obtain t row where "res = (t, row)" by (cases res)
    with issue have i: "issueSession js now gnow token fresh input gdb db = Inr ((t, row), db')" by simp
    from i show ?thesis by (rule issueSessionE) (use assms(2) in simp)
  qed (auto intro: keep revokes_step revokes_all)
qed

lemma revoked_stays_run:
  "(session_step js)\<^sup>*\<^sup>* db db' \<Longrightarrow> s \<in> set (sessions db) \<Longrightarrow> as_revoked_at s \<noteq> None \<Longrightarrow> s \<in> set (sessions db')"
  by (induction rule: rtranclp_induct) (auto intro: revoked_stays)

text \<open>
  C18: revocation is final. Once a session has been revoked, its token is refused in every later state
  of the store, whatever the grants, the time and the target: as revoked at its own Workspace, and as
  belonging elsewhere at any other.
\<close>

theorem session_revocation_final:
  assumes "(session_step js)\<^sup>*\<^sup>* empty_session_db db" and "revokeSession js i t db = Inr (True, db1)" and "(session_step js)\<^sup>*\<^sup>* db1 db2"
    and "s \<in> set (sessions db)" and "as_id s = i" and "as_token_hash s = hashBearerToken js token" and "token \<noteq> []"
  shows "verifyBearerToken js now gnow token w target gdb db2 = Inr
    (if as_workspace s = w then Refused authority_session_revoked ''The authority session has been revoked.''
     else Refused authority_boundary_mismatch ''The authority credential is not valid for this authority boundary.'')"
proof -
  have step: "session_step js db db1" using assms(2) by (rule session_step.revoke)
  have inv2: "session_inv js db2"
    using session_reachable_inv [of js db2] assms(1,3) step by (meson converse_rtranclp_into_rtranclp rtranclp_trans)
  have "(if as_revoked_at s = None then s\<lparr>as_revoked_at := Some t\<rparr> else s) \<in> set (sessions db1)"
    using assms(4,5) unfolding revokeSessionE [OF assms(2)] in_set_where by (intro bexI [of _ s]) auto
  then obtain s' where s': "s' \<in> set (sessions db1)" "as_revoked_at s' \<noteq> None" "as_workspace s' = as_workspace s" "as_token_hash s' = as_token_hash s"
    by (cases "as_revoked_at s") auto
  have "s' \<in> set (sessions db2)" using revoked_stays_run [OF assms(3) s'(1,2)] .
  then show ?thesis
    by (rule verify_row [OF inv2 _ _ assms(7), of s' now gnow w target gdb]) (use s' assms(6) in simp_all)
qed

theorem session_revocation_final_witness:
  "verifyBearerToken sample_platform ''.....'' ''.....'' sample_token ''w'' None (snd sample1) (snd session2)
    = Inr (Refused authority_session_revoked ''The authority session has been revoked.'')"
proof -
  have s: "snd (fst session1) \<in> set (sessions (snd session1))" "as_id (snd (fst session1)) = ''s1''"
    "as_token_hash (snd (fst session1)) = hashBearerToken sample_platform sample_token" "as_workspace (snd (fst session1)) = ''w''" by code_simp+
  have t: "sample_token \<noteq> []" by (simp add: sample_token_def)
  from session_revocation_final [OF session1_reachable session2_run _ s(1-3) t, of "snd session2"] s(4) show ?thesis by simp
qed

lemma revoke_each_sessions:
  "revoke_each js ids t db = Inr db' \<Longrightarrow>
    sessions db' = set_where (\<lambda>x. as_id x \<in> set ids \<and> as_revoked_at x = None) (\<lambda>x. x\<lparr>as_revoked_at := Some t\<rparr>) (sessions db)"
proof (induction js ids t db rule: revoke_each.induct)
  case (2 js i ids t db)
  then obtain res db1 where "revokeSession js i t db = Inr (res, db1)" "revoke_each js ids t db1 = Inr db'" by (auto simp: rbind_Inr_iff)
  with 2 show ?case by (auto simp: revokeSessionE set_where_def)
qed (simp add: set_where_def)

text \<open>
  Ending an interaction revokes every session that was minted for it and no other: afterwards none
  of its sessions is live, each of them that was live has been revoked at the given time, and the rows
  of all other interactions are as they were.
\<close>

theorem interaction_revocation_complete:
  assumes "(session_step js)\<^sup>*\<^sup>* empty_session_db db" and "revokeSessionsForInteraction js i t db = Inr (ids, db')"
  shows "sessions db' = map (\<lambda>x. if session_id (as_interaction x) = i \<and> as_revoked_at x = None then x\<lparr>as_revoked_at := Some t\<rparr> else x) (sessions db)
    \<and> set ids = as_id ` {x \<in> set (sessions db). session_id (as_interaction x) = i \<and> as_revoked_at x = None}"
proof -
  have inv: "session_inv js db" using assms(1) by (rule session_reachable_inv)
  have ids: "ids = map as_id (filter (\<lambda>x. session_id (as_interaction x) = i \<and> as_revoked_at x = None) (sessions db))"
    and each: "revoke_each js ids t db = Inr db'" using assms(2) by (auto simp: revokeSessionsForInteraction_def result_simps Let_def)
  have inj: "x = y" if "x \<in> set (sessions db)" "y \<in> set (sessions db)" "as_id x = as_id y" for x y
    using inv that by (auto simp: session_inv_def distinct_map inj_on_def)
  have mem: "as_id x \<in> set ids \<and> as_revoked_at x = None \<longleftrightarrow> session_id (as_interaction x) = i \<and> as_revoked_at x = None" if "x \<in> set (sessions db)" for x
    using that inj [of x] unfolding ids by auto
  show ?thesis unfolding revoke_each_sessions [OF each] set_where_def using mem ids by auto
qed

theorem interaction_revocation_complete_witness:
  "sessions (snd (projr (revokeSessionsForInteraction sample_platform ''i1'' ''....'' (snd session1))))
    = map (\<lambda>x. if session_id (as_interaction x) = ''i1'' \<and> as_revoked_at x = None then x\<lparr>as_revoked_at := Some ''....''\<rparr> else x) (sessions (snd session1))"
proof -
  let ?r = "projr (revokeSessionsForInteraction sample_platform ''i1'' ''....'' (snd session1))"
  have "revokeSessionsForInteraction sample_platform ''i1'' ''....'' (snd session1) = Inr ?r" by (rule returns_projr) code_simp
  then have "revokeSessionsForInteraction sample_platform ''i1'' ''....'' (snd session1) = Inr (fst ?r, snd ?r)" by simp
  from interaction_revocation_complete [OF session1_reachable this] show ?thesis by blast
qed

end
