(* ===== verification/Transport_Credentials.thy ===== *)
theory Transport_Credentials
  imports Floe_Prelude
begin

text \<open>
  \<^verbatim>\<open>floe-bus/src/transport-credentials.ts\<close>: the long-lived credentials of the native host and of Bridge
  processes. A store operation takes the results of the clock, of the token and of the identifier
  factory as arguments.
\<close>

section \<open>Data\<close>

datatype audience = Host_Control | Bridge_Service

record credential_row =
  tc_id :: string
  tc_audience :: audience
  tc_host :: "string option"
  tc_bridge :: "string option"
  tc_authorized :: "string option"
  tc_hash :: string
  tc_issued :: string
  tc_expires :: string
  tc_revoked :: "string option"
  tc_replaces :: "string option"

datatype process_identity = Host_Process string | Bridge_Process string string

record credential =
  cr_id :: string
  cr_identity :: process_identity
  cr_issued :: string
  cr_expires :: string
  cr_revoked :: "string option"
  cr_replaces :: "string option"

type_synonym credential_db = "credential_row list"

datatype lifecycle_error = Lifecycle string

section \<open>Checks\<close>

definition control_char :: "char \<Rightarrow> bool" where
  "control_char c = (let n = of_char c :: nat in n < 32 \<or> n = 127)"

definition requireIdentifier :: "string \<Rightarrow> string \<Rightarrow> (lifecycle_error, string) result" where
  "requireIdentifier v label = (if is_blank v \<or> length v > 512 \<or> list_ex control_char v
     then Inl (Lifecycle (label @ '' must be non-empty text without control characters.'')) else Inr v)"

definition requireBindingId :: "string \<Rightarrow> (lifecycle_error, string) result" where
  "requireBindingId v = requireIdentifier v ''transport credential binding''"

definition requireBearerMaterial :: "string \<Rightarrow> (lifecycle_error, string) result" where
  "requireBearerMaterial v = throw_if (length v < 32)
     (Lifecycle ''Transport credentials must contain at least 32 characters of bearer material.'') (Inr v)"

definition validTimestamp :: "platform \<Rightarrow> string \<Rightarrow> string \<Rightarrow> (lifecycle_error, string \<times> int) result" where
  "validTimestamp js label v = (case date_parse js v of None \<Rightarrow> Inl (Lifecycle (label @ '' must be an ISO timestamp.''))
     | Some ms \<Rightarrow> Inr (to_iso_string js ms, ms))"

definition safeCurrentTimestamp :: "platform \<Rightarrow> string \<Rightarrow> string" where
  "safeCurrentTimestamp js v = (case date_parse js v of None \<Rightarrow> ''0000-01-01T00:00:00.000Z'' | Some ms \<Rightarrow> to_iso_string js ms)"

definition audience_text :: "audience \<Rightarrow> string" where
  "audience_text a = (case a of Host_Control \<Rightarrow> ''host_control'' | Bridge_Service \<Rightarrow> ''bridge_service'')"

definition hashTransportBearerToken :: "platform \<Rightarrow> audience \<Rightarrow> string \<Rightarrow> string" where
  "hashTransportBearerToken js a token = sha256_hex js (''floe-transport-credential:'' @ audience_text a @ '':v1'' @ [CHR 0x00] @ token)"

section \<open>Rows\<close>

definition present :: "string option \<Rightarrow> bool" where
  "present v = (v \<noteq> None \<and> v \<noteq> Some [])"

definition rowToCredential :: "credential_row \<Rightarrow> (lifecycle_error, credential) result" where
  "rowToCredential r =
     (let base = (\<lambda>who. \<lparr>cr_id = tc_id r, cr_identity = who, cr_issued = tc_issued r, cr_expires = tc_expires r,
                   cr_revoked = tc_revoked r, cr_replaces = tc_replaces r\<rparr>) in
      if tc_audience r = Host_Control \<and> present (tc_host r) \<and> tc_bridge r = None \<and> tc_authorized r = None
      then Inr (base (Host_Process (the (tc_host r))))
      else if tc_audience r = Bridge_Service \<and> present (tc_bridge r) \<and> tc_host r = None \<and> present (tc_authorized r)
      then Inr (base (Bridge_Process (the (tc_bridge r)) (the (tc_authorized r))))
      else Inl (Lifecycle ''Stored transport credential identity is invalid.''))"

definition credentialBindingId :: "credential \<Rightarrow> string" where
  "credentialBindingId c = (case cr_identity c of Host_Process h \<Rightarrow> h | Bridge_Process b _ \<Rightarrow> b)"

definition identity_audience :: "process_identity \<Rightarrow> audience" where
  "identity_audience i = (case i of Host_Process _ \<Rightarrow> Host_Control | Bridge_Process _ _ \<Rightarrow> Bridge_Service)"

text \<open>The row is bound to an identity: the disjunction the queries repeat.\<close>

definition bound_to :: "audience \<Rightarrow> string \<Rightarrow> credential_row \<Rightarrow> bool" where
  "bound_to a b r = ((a = Host_Control \<and> tc_host r = Some b) \<or> (a = Bridge_Service \<and> tc_bridge r = Some b))"

text \<open>The check of the schema; SQL's \<^verbatim>\<open>trim\<close> removes spaces only.\<close>

definition sql_text :: "string option \<Rightarrow> bool" where
  "sql_text v = (case v of None \<Rightarrow> False | Some s \<Rightarrow> list_ex (\<lambda>c. c \<noteq> CHR '' '') s)"

definition row_check :: "credential_row \<Rightarrow> bool" where
  "row_check r = (tc_audience r = Host_Control \<and> sql_text (tc_host r) \<and> tc_bridge r = None \<and> tc_authorized r = None
     \<or> tc_audience r = Bridge_Service \<and> sql_text (tc_bridge r) \<and> tc_host r = None \<and> sql_text (tc_authorized r))"

definition insert_credential :: "credential_row \<Rightarrow> credential_db \<Rightarrow> (lifecycle_error, credential_db) result" where
  "insert_credential r db =
     throw_if ((\<exists>x \<in> set db. tc_id x = tc_id r \<or> (tc_audience x = tc_audience r \<and> tc_hash x = tc_hash r)) \<or> \<not> row_check r
        \<or> (case tc_replaces r of None \<Rightarrow> False | Some p \<Rightarrow> \<not> (\<exists>x \<in> set db. tc_id x = p)))
       (Lifecycle ''Transport credential issuance could not be completed.'') (Inr (db @ [r]))"

definition findCredential :: "credential_db \<Rightarrow> string \<Rightarrow> (lifecycle_error, credential option) result" where
  "findCredential db i = (case row_where (\<lambda>r. tc_id r = i) db of None \<Rightarrow> Inr None
     | Some r \<Rightarrow> rbind (rowToCredential r) (\<lambda>c. Inr (Some c)))"

definition requireCredential :: "credential_db \<Rightarrow> string \<Rightarrow> (lifecycle_error, credential) result" where
  "requireCredential db i = rbind (findCredential db i) (\<lambda>c.
     case c of None \<Rightarrow> Inl (Lifecycle ''Transport credential issuance could not be completed.'') | Some x \<Rightarrow> Inr x)"

section \<open>Issue\<close>

definition issueCredential ::
  "platform \<Rightarrow> audience \<Rightarrow> string \<Rightarrow> string \<Rightarrow> string option \<Rightarrow> string \<Rightarrow> string \<Rightarrow> string option \<Rightarrow> string \<Rightarrow> credential_db
    \<Rightarrow> (lifecycle_error, (string \<times> credential) \<times> credential_db) result" where
  "issueCredential js a bindingId expiresAt replaces issuedAt bearer authorizedHost fresh db =
     rbind (requireBindingId bindingId) (\<lambda>binding.
     rbind (validTimestamp js ''issued_at'' issuedAt) (\<lambda>issued.
     rbind (validTimestamp js ''expires_at'' expiresAt) (\<lambda>expires.
     throw_if (snd expires \<le> snd issued) (Lifecycle ''Transport credential expiry must be after its issue time.'')
     (rbind (requireBearerMaterial bearer) (\<lambda>token.
      rbind (if a = Bridge_Service
             then rbind (requireBindingId (case authorizedHost of None \<Rightarrow> [] | Some h \<Rightarrow> h)) (\<lambda>h. Inr (Some h)) else Inr None) (\<lambda>bridgeHost.
      rbind (requireIdentifier fresh ''transport_credential_id'') (\<lambda>i.
      rbind (insert_credential \<lparr>tc_id = i, tc_audience = a, tc_host = (if a = Host_Control then Some binding else None),
               tc_bridge = (if a = Bridge_Service then Some binding else None), tc_authorized = bridgeHost,
               tc_hash = hashTransportBearerToken js a token, tc_issued = fst issued, tc_expires = fst expires,
               tc_revoked = None, tc_replaces = replaces\<rparr> db) (\<lambda>db'.
      rbind (requireCredential db' i) (\<lambda>c. Inr ((token, c), db'))))))))))"

definition issueHostControlCredential ::
  "platform \<Rightarrow> string \<Rightarrow> string \<Rightarrow> string \<Rightarrow> string \<Rightarrow> string \<Rightarrow> credential_db
    \<Rightarrow> (lifecycle_error, (string \<times> credential) \<times> credential_db) result" where
  "issueHostControlCredential js now token fresh hostId expiresAt db =
     issueCredential js Host_Control hostId expiresAt None now token None fresh db"

definition issueBridgeServiceCredential ::
  "platform \<Rightarrow> string \<Rightarrow> string \<Rightarrow> string \<Rightarrow> string \<Rightarrow> string \<Rightarrow> string \<Rightarrow> credential_db
    \<Rightarrow> (lifecycle_error, (string \<times> credential) \<times> credential_db) result" where
  "issueBridgeServiceCredential js now token fresh bridgeId hostId expiresAt db =
     issueCredential js Bridge_Service bridgeId expiresAt None now token (Some hostId) fresh db"

section \<open>Verification\<close>

text \<open>\<^const>\<open>None\<close> is the one denial contract of the store.\<close>

definition live_at :: "string \<Rightarrow> credential_row \<Rightarrow> bool" where
  "live_at now r = (tc_issued r \<le> now \<and> now < tc_expires r \<and> tc_revoked r = None)"

definition accepted :: "credential_row option \<Rightarrow> credential option" where
  "accepted r = (case r of None \<Rightarrow> None | Some x \<Rightarrow> (case rowToCredential x of Inl _ \<Rightarrow> None | Inr c \<Rightarrow> Some c))"

definition verifyCredential :: "platform \<Rightarrow> string \<Rightarrow> audience \<Rightarrow> string \<Rightarrow> string \<Rightarrow> credential_db \<Rightarrow> credential option" where
  "verifyCredential js now a token binding db = accepted (row_where (\<lambda>r. tc_audience r = a
     \<and> tc_hash r = hashTransportBearerToken js a token \<and> bound_to a binding r \<and> live_at (safeCurrentTimestamp js now) r) db)"

definition verifyCredentialByBearer :: "platform \<Rightarrow> string \<Rightarrow> audience \<Rightarrow> string \<Rightarrow> credential_db \<Rightarrow> credential option" where
  "verifyCredentialByBearer js now a token db = accepted (row_where (\<lambda>r. tc_audience r = a
     \<and> tc_hash r = hashTransportBearerToken js a token \<and> live_at (safeCurrentTimestamp js now) r) db)"

definition verifyHostControlCredential where
  "verifyHostControlCredential js now token hostId db = verifyCredential js now Host_Control token hostId db"

definition verifyHostControlBearerToken where
  "verifyHostControlBearerToken js now token db = verifyCredentialByBearer js now Host_Control token db"

definition verifyBridgeServiceCredential where
  "verifyBridgeServiceCredential js now token bridgeId db = verifyCredential js now Bridge_Service token bridgeId db"

definition verifyBridgeServiceBearerToken where
  "verifyBridgeServiceBearerToken js now token db = verifyCredentialByBearer js now Bridge_Service token db"

section \<open>Installing, replacing, rotating and revoking\<close>

definition installHostControlCredential ::
  "platform \<Rightarrow> string \<Rightarrow> string \<Rightarrow> string \<Rightarrow> string \<Rightarrow> string \<Rightarrow> string \<Rightarrow> credential_db
    \<Rightarrow> (lifecycle_error, credential \<times> credential_db) result" where
  "installHostControlCredential js now now' fresh host bearer expiresAt db =
     rbind (requireBindingId host) (\<lambda>hostId.
     rbind (requireBearerMaterial bearer) (\<lambda>token.
     let t = safeCurrentTimestamp js now in
     if list_ex (\<lambda>r. tc_audience r = Host_Control \<and> tc_host r = Some hostId \<and> tc_revoked r = None \<and> t < tc_expires r) db then
       (case verifyHostControlBearerToken js now' token db of
          Some c \<Rightarrow> if cr_identity c = Host_Process hostId then Inr (c, db)
            else Inl (Lifecycle ''The supplied host-control credential does not match the installed credential.'')
        | None \<Rightarrow> Inl (Lifecycle ''The supplied host-control credential does not match the installed credential.''))
     else rbind (issueCredential js Host_Control hostId expiresAt None now' token None fresh db) (\<lambda>((_, c), db'). Inr (c, db'))))"

definition replaceable :: "string \<Rightarrow> string \<Rightarrow> credential_row \<Rightarrow> bool" where
  "replaceable bridgeId hostId r = (tc_audience r = Bridge_Service \<and> tc_bridge r = Some bridgeId \<and> tc_authorized r = Some hostId \<and> tc_revoked r = None)"

definition newest_first :: "credential_row \<Rightarrow> credential_row \<Rightarrow> int" where
  "newest_first = or_compare (\<lambda>l r. binary_compare (tc_issued r) (tc_issued l)) (\<lambda>l r. binary_compare (tc_id r) (tc_id l))"

definition replaceBridgeServiceCredential ::
  "platform \<Rightarrow> string \<Rightarrow> string \<Rightarrow> string \<Rightarrow> string \<Rightarrow> string \<Rightarrow> string \<Rightarrow> credential_db
    \<Rightarrow> (lifecycle_error, (string \<times> credential) \<times> credential_db) result" where
  "replaceBridgeServiceCredential js now token fresh bridge host expiresAt db =
     rbind (requireBindingId bridge) (\<lambda>bridgeId.
     rbind (requireBindingId host) (\<lambda>hostId.
     rbind (validTimestamp js ''replacement time'' now) (\<lambda>replacementAt.
     rbind (validTimestamp js ''expires_at'' expiresAt) (\<lambda>expires.
     throw_if (snd expires \<le> snd replacementAt) (Lifecycle ''Transport credential expiry must be after replacement.'')
     (let current = js_sort newest_first (filter (replaceable bridgeId hostId) db);
          db1 = set_where (replaceable bridgeId hostId) (\<lambda>r. r\<lparr>tc_revoked := Some (fst replacementAt)\<rparr>) db
      in issueCredential js Bridge_Service bridgeId (fst expires)
           (case current of [] \<Rightarrow> None | c # _ \<Rightarrow> Some (tc_id c)) (fst replacementAt) token (Some hostId) fresh db1)))))"

definition rotateCredential ::
  "platform \<Rightarrow> string \<Rightarrow> string \<Rightarrow> string \<Rightarrow> audience \<Rightarrow> string \<Rightarrow> string \<Rightarrow> string \<Rightarrow> credential_db
    \<Rightarrow> (lifecycle_error, (string \<times> credential) \<times> credential_db) result" where
  "rotateCredential js now token fresh a credentialId bindingId expiresAt db =
     rbind (requireIdentifier credentialId ''transport_credential_id'') (\<lambda>i.
     rbind (requireBindingId bindingId) (\<lambda>binding.
     rbind (findCredential db i) (\<lambda>found.
     let refused = Inl (Lifecycle ''Transport credential rotation was not accepted.'') in
     case found of None \<Rightarrow> refused
     | Some current \<Rightarrow>
       if identity_audience (cr_identity current) \<noteq> a \<or> credentialBindingId current \<noteq> binding \<or> cr_revoked current \<noteq> None then refused
       else rbind (validTimestamp js ''rotation time'' now) (\<lambda>rotatedAt.
       rbind (validTimestamp js ''expires_at'' expiresAt) (\<lambda>expires.
       throw_if (snd expires \<le> snd rotatedAt) (Lifecycle ''Transport credential expiry must be after rotation.'')
       (let hit = (\<lambda>r. tc_id r = i \<and> tc_audience r = a \<and> tc_revoked r = None);
            db1 = set_where hit (\<lambda>r. r\<lparr>tc_revoked := Some (fst rotatedAt)\<rparr>) db
        in if length (filter hit db) \<noteq> 1 then refused
           else issueCredential js a binding (fst expires) (Some i) (fst rotatedAt) token
             (case cr_identity current of Bridge_Process _ h \<Rightarrow> Some h | Host_Process _ \<Rightarrow> None) fresh db1))))))"

definition rotateHostControlCredential where
  "rotateHostControlCredential js now token fresh i hostId expiresAt db = rotateCredential js now token fresh Host_Control i hostId expiresAt db"

definition rotateBridgeServiceCredential where
  "rotateBridgeServiceCredential js now token fresh i bridgeId expiresAt db = rotateCredential js now token fresh Bridge_Service i bridgeId expiresAt db"

definition revokeCredential ::
  "platform \<Rightarrow> audience \<Rightarrow> string \<Rightarrow> string \<Rightarrow> string \<Rightarrow> credential_db \<Rightarrow> (lifecycle_error, bool \<times> credential_db) result" where
  "revokeCredential js a credentialId bindingId revokedAt db =
     rbind (requireIdentifier credentialId ''transport_credential_id'') (\<lambda>i.
     rbind (requireBindingId bindingId) (\<lambda>binding.
     rbind (validTimestamp js ''revoked_at'' revokedAt) (\<lambda>revoked.
     let hit = (\<lambda>r. tc_id r = i \<and> tc_audience r = a \<and> tc_revoked r = None \<and> bound_to a binding r \<and> tc_issued r \<le> fst revoked)
     in Inr (length (filter hit db) = 1, set_where hit (\<lambda>r. r\<lparr>tc_revoked := Some (fst revoked)\<rparr>) db))))"

definition revokeHostControlCredential where
  "revokeHostControlCredential js i hostId revokedAt db = revokeCredential js Host_Control i hostId revokedAt db"

definition revokeBridgeServiceCredential where
  "revokeBridgeServiceCredential js i bridgeId revokedAt db = revokeCredential js Bridge_Service i bridgeId revokedAt db"

end
