(* ===== verification/Transport_Properties.thy ===== *)
theory Transport_Properties
  imports Transport_Credentials
begin

text \<open>
  Properties of the transport credential store: every stored row is a well-formed identity, a bearer
  token verifies exactly for its own live row, and replacing a Bridge credential leaves one.
\<close>

section \<open>The invariant\<close>

definition credential_inv :: "credential_db \<Rightarrow> bool" where
  "credential_inv db \<longleftrightarrow> distinct (map tc_id db) \<and> distinct (map (\<lambda>r. (tc_audience r, tc_hash r)) db) \<and> (\<forall>r \<in> set db. row_check r)"

inductive credential_step :: "platform \<Rightarrow> credential_db \<Rightarrow> credential_db \<Rightarrow> bool" for js where
  issue_host: "issueHostControlCredential js now token fresh h e db = Inr (res, db') \<Longrightarrow> credential_step js db db'"
| install: "installHostControlCredential js now now' fresh h token e db = Inr (c, db') \<Longrightarrow> credential_step js db db'"
| issue_bridge: "issueBridgeServiceCredential js now token fresh b h e db = Inr (res, db') \<Longrightarrow> credential_step js db db'"
| replace: "replaceBridgeServiceCredential js now token fresh b h e db = Inr (res, db') \<Longrightarrow> credential_step js db db'"
| rotate_host: "rotateHostControlCredential js now token fresh i h e db = Inr (res, db') \<Longrightarrow> credential_step js db db'"
| rotate_bridge: "rotateBridgeServiceCredential js now token fresh i b e db = Inr (res, db') \<Longrightarrow> credential_step js db db'"
| revoke_host: "revokeHostControlCredential js i h t db = Inr (done', db') \<Longrightarrow> credential_step js db db'"
| revoke_bridge: "revokeBridgeServiceCredential js i b t db = Inr (done', db') \<Longrightarrow> credential_step js db db'"

text \<open>What a step writes: it may revoke rows, and may append one.\<close>

definition revokes_rows :: "credential_db \<Rightarrow> credential_db \<Rightarrow> bool" where
  "revokes_rows db db' \<longleftrightarrow> (\<exists>P t. db' = set_where (\<lambda>r. P r \<and> tc_revoked r = None) (\<lambda>r. r\<lparr>tc_revoked := Some t\<rparr>) db)"

definition fresh_row :: "credential_row \<Rightarrow> credential_db \<Rightarrow> bool" where
  "fresh_row r db \<longleftrightarrow> tc_id r \<notin> tc_id ` set db \<and> (tc_audience r, tc_hash r) \<notin> (\<lambda>r. (tc_audience r, tc_hash r)) ` set db \<and> row_check r
     \<and> tc_revoked r = None"

definition identifier_ok :: "string \<Rightarrow> bool" where
  "identifier_ok v \<longleftrightarrow> \<not> (is_blank v \<or> length v > 512 \<or> list_ex control_char v)"

lemma requireIdentifier_Inr [result_simps]: "requireIdentifier v l = Inr w \<longleftrightarrow> identifier_ok v \<and> w = v"
  by (auto simp: requireIdentifier_def identifier_ok_def)

lemma requireBindingId_Inr [result_simps]: "requireBindingId v = Inr w \<longleftrightarrow> identifier_ok v \<and> w = v"
  by (simp only: requireBindingId_def requireIdentifier_Inr)

lemma requireBearerMaterial_Inr [result_simps]: "requireBearerMaterial v = Inr w \<longleftrightarrow> 32 \<le> length v \<and> w = v"
  by (auto simp: requireBearerMaterial_def throw_if_def)

lemma validTimestamp_Inr [result_simps]: "validTimestamp js l v = Inr p \<longleftrightarrow> (\<exists>ms. date_parse js v = Some ms \<and> p = (to_iso_string js ms, ms))"
  by (auto simp: validTimestamp_def split: option.splits)

lemma insert_credential_Inr:
  "insert_credential r db = Inr db' \<Longrightarrow> db' = db @ [r] \<and> (tc_revoked r = None \<longrightarrow> fresh_row r db)"
  by (auto simp: insert_credential_def result_simps fresh_row_def)

lemma row_check_reads: "row_check r \<Longrightarrow> \<exists>c. rowToCredential r = Inr c \<and> identity_audience (cr_identity c) = tc_audience r
    \<and> bound_to (tc_audience r) (credentialBindingId c) r \<and> cr_id c = tc_id r \<and> cr_revoked c = tc_revoked r"
  by (cases "tc_audience r") (auto simp: row_check_def rowToCredential_def sql_text_def present_def Let_def identity_audience_def bound_to_def
      credentialBindingId_def split: option.splits)

definition new_row :: "platform \<Rightarrow> audience \<Rightarrow> string \<Rightarrow> string option \<Rightarrow> string \<Rightarrow> int \<Rightarrow> int \<Rightarrow> string option \<Rightarrow> string \<Rightarrow> credential_row" where
  "new_row js a b replaces bearer iss ex bh fresh = \<lparr>tc_id = fresh, tc_audience = a, tc_host = (if a = Host_Control then Some b else None),
     tc_bridge = (if a = Bridge_Service then Some b else None), tc_authorized = bh,
     tc_hash = hashTransportBearerToken js a bearer, tc_issued = to_iso_string js iss, tc_expires = to_iso_string js ex,
     tc_revoked = None, tc_replaces = replaces\<rparr>"

lemma issueCredential_Inr:
  assumes "issueCredential js a b e replaces issuedAt bearer auth fresh db = Inr (res, db')"
  obtains bh iss ex c where "date_parse js issuedAt = Some iss" "date_parse js e = Some ex" "iss < ex"
    "(if a = Bridge_Service then rbind (requireBindingId (case auth of None \<Rightarrow> [] | Some h \<Rightarrow> h)) (\<lambda>h. Inr (Some h)) else Inr None) = Inr bh"
    "insert_credential (new_row js a b replaces bearer iss ex bh fresh) db = Inr db'" "requireCredential db' fresh = Inr c" "res = (bearer, c)"
  using assms unfolding issueCredential_def
proof (elim rbind_InrE throw_if_InrE, goal_cases)
  case (1 binding issued expires token bh i db1 c)
  then show ?case
    by (intro 1(1) [of "snd issued" "snd expires" bh c])
      (auto simp only: requireBindingId_Inr requireIdentifier_Inr requireBearerMaterial_Inr validTimestamp_Inr fst_conv snd_conv new_row_def
        sum.inject prod.inject not_le)
qed

lemma issueCredentialE:
  assumes "issueCredential js a b e replaces issuedAt bearer auth fresh db = Inr ((t, c), db')"
  obtains row where "db' = db @ [row]" "fresh_row row db" "tc_id row = fresh" "tc_audience row = a" "tc_hash row = hashTransportBearerToken js a bearer"
    "t = bearer" "bound_to a b row" "rowToCredential row = Inr c" "a = Bridge_Service \<Longrightarrow> tc_authorized row = auth"
    "tc_issued row = to_iso_string js (the (date_parse js issuedAt))" "tc_expires row = to_iso_string js (the (date_parse js e))"
proof -
  from assms obtain bh iss ex where
      times: "date_parse js issuedAt = Some iss" "date_parse js e = Some ex"
      and bh: "(if a = Bridge_Service then rbind (requireBindingId (case auth of None \<Rightarrow> [] | Some h \<Rightarrow> h)) (\<lambda>h. Inr (Some h)) else Inr None) = Inr bh"
      and ins: "insert_credential (new_row js a b replaces bearer iss ex bh fresh) db = Inr db'" (is "insert_credential ?r db = _")
      and rest: "requireCredential db' fresh = Inr c" "t = bearer"
    by (rule issueCredential_Inr) simp
  have auth: "a = Bridge_Service \<Longrightarrow> bh = auth"
    using bh by (cases auth) (auto simp: result_simps identifier_ok_def)
  note d = insert_credential_Inr [OF ins]
  have new: "tc_id ?r = fresh" "tc_revoked ?r = None" by (simp_all add: new_row_def)
  have "row_where (\<lambda>r. tc_id r = fresh) db = None" using d new by (auto simp: fresh_row_def row_where_None_iff)
  then have "row_where (\<lambda>r. tc_id r = fresh) db' = Some ?r" using d new by (simp add: row_where_append)
  then have "rowToCredential ?r = Inr c"
    using rest(1) by (auto simp: requireCredential_def findCredential_def rbind_Inr_iff split: option.splits)
  then show thesis
    using d new rest times auth by (intro that [of ?r]) (cases a; simp add: bound_to_def new_row_def)+
qed

lemma revokes_rows_refl: "revokes_rows db db"
  unfolding revokes_rows_def by (rule exI [of _ "\<lambda>_. False"]) (simp add: set_where_def)

lemma revokes_rowsI: "revokes_rows db (set_where (\<lambda>r. P r \<and> tc_revoked r = None) (\<lambda>r. r\<lparr>tc_revoked := Some t\<rparr>) db)"
  unfolding revokes_rows_def by blast

lemma rotateCredential_Inr:
  assumes "rotateCredential js now token fresh a i b e db = Inr (res, db')"
  obtains current :: credential and at' ex where "issueCredential js a b ex (Some i) at' token
        (case cr_identity current of Bridge_Process _ h \<Rightarrow> Some h | Host_Process _ \<Rightarrow> None) fresh
        (set_where (\<lambda>r. tc_id r = i \<and> tc_audience r = a \<and> tc_revoked r = None) (\<lambda>r. r\<lparr>tc_revoked := Some at'\<rparr>) db) = Inr (res, db')"
  using assms unfolding rotateCredential_def Let_def
proof (elim rbind_InrE, goal_cases)
  case (1 i' binding found)
  then obtain current where found: "found = Some current" by (cases found) simp_all
  have "\<exists>ms msa. issueCredential js a b (to_iso_string js msa) (Some i) (to_iso_string js ms) token
        (case cr_identity current of Bridge_Process _ h \<Rightarrow> Some h | Host_Process _ \<Rightarrow> None) fresh
        (set_where (\<lambda>r. tc_id r = i \<and> tc_audience r = a \<and> tc_revoked r = None) (\<lambda>r. r\<lparr>tc_revoked := Some (to_iso_string js ms)\<rparr>) db) = Inr (res, db')"
    using 1(2-) unfolding found by (auto simp only: option.case requireBindingId_Inr requireIdentifier_Inr result_simps fst_conv snd_conv split: if_splits)
      blast
  then show ?case by (elim exE) (rule 1(1), assumption)
qed

lemma credential_stepE:
  assumes "credential_step js db db'"
  obtains (revoked) "revokes_rows db db'" | (issued) db1 row where "revokes_rows db db1" "fresh_row row db1" "db' = db1 @ [row]"
proof -
  have issue: thesis if "issueCredential js a b e replaces issuedAt bearer auth fresh db1 = Inr (res, db')" "revokes_rows db db1"
    for a b e replaces issuedAt bearer auth fresh db1 res
  proof -
    obtain t c where "res = (t, c)" by (cases res)
    with that(1) have "issueCredential js a b e replaces issuedAt bearer auth fresh db1 = Inr ((t, c), db')" by simp
    then show thesis by (rule issueCredentialE) (use issued that(2) in blast)
  qed
  have rotate: thesis if "rotateCredential js now token fresh a i b e db = Inr (res, db')" for now token fresh a i b e res
  proof -
    let ?hit = "\<lambda>r :: credential_row. tc_id r = i \<and> tc_audience r = a \<and> tc_revoked r = None"
    from that obtain current :: credential and at' ex where "issueCredential js a b ex (Some i) at' token
        (case cr_identity current of Bridge_Process _ h \<Rightarrow> Some h | Host_Process _ \<Rightarrow> None) fresh
        (set_where ?hit (\<lambda>r. r\<lparr>tc_revoked := Some at'\<rparr>) db) = Inr (res, db')"
      by (rule rotateCredential_Inr)
    then have "issueCredential js a b ex (Some i) at' token
        (case cr_identity current of Bridge_Process _ h \<Rightarrow> Some h | Host_Process _ \<Rightarrow> None) fresh
        (set_where (\<lambda>r. (tc_id r = i \<and> tc_audience r = a) \<and> tc_revoked r = None) (\<lambda>r. r\<lparr>tc_revoked := Some at'\<rparr>) db) = Inr (res, db')"
      by (simp only: conj_assoc)
    then show thesis by (rule issue) (rule revokes_rowsI)
  qed
  have revoke: thesis if "revokeCredential js a i b t db = Inr (res, db')" for a i b t res
  proof -
    from that obtain t' where db': "db' = set_where (\<lambda>r. tc_id r = i \<and> tc_audience r = a \<and> tc_revoked r = None \<and> bound_to a b r \<and> tc_issued r \<le> t')
        (\<lambda>r. r\<lparr>tc_revoked := Some t'\<rparr>) db"
      unfolding revokeCredential_def result_simps Let_def by (elim exE conjE) auto
    have hit: "(\<lambda>r. tc_id r = i \<and> tc_audience r = a \<and> tc_revoked r = None \<and> bound_to a b r \<and> tc_issued r \<le> t')
      = (\<lambda>r :: credential_row. (tc_id r = i \<and> tc_audience r = a \<and> bound_to a b r \<and> tc_issued r \<le> t') \<and> tc_revoked r = None)" by (rule ext) blast
    show thesis by (rule revoked) (unfold db' hit, rule revokes_rowsI)
  qed
  from assms show thesis
  proof cases
    case (issue_host now token fresh h e res)
    then show thesis using issue [OF _ revokes_rows_refl] by (simp add: issueHostControlCredential_def)
  next
    case (install now now' fresh h token e c)
    then consider "db' = db" | r where "issueCredential js Host_Control h e None now' token None fresh db = Inr r" "db' = snd r"
      unfolding installHostControlCredential_def Let_def
      by (elim rbind_InrE) (auto simp only: requireBindingId_Inr requireBearerMaterial_Inr rbind_Inr_iff sum.inject prod.inject sum.distinct case_prod_beta split: if_split_asm option.split_asm)
    then show thesis
    proof cases
      case 1
      then show thesis by (intro revoked) (simp add: revokes_rows_refl)
    next
      case 2
      then have "issueCredential js Host_Control h e None now' token None fresh db = Inr (fst r, db')" by simp
      then show thesis by (rule issue) (rule revokes_rows_refl)
    qed
  next
    case (issue_bridge now token fresh b h e res)
    then show thesis using issue [OF _ revokes_rows_refl] by (simp add: issueBridgeServiceCredential_def)
  next
    case (replace now token fresh b h e res)
    then obtain p x y where "issueCredential js Bridge_Service b x p y token (Some h) fresh
        (set_where (replaceable b h) (\<lambda>r. r\<lparr>tc_revoked := Some y\<rparr>) db) = Inr (res, db')"
      unfolding replaceBridgeServiceCredential_def result_simps Let_def by (elim exE conjE) auto
    moreover have "replaceable b h = (\<lambda>r. (tc_audience r = Bridge_Service \<and> tc_bridge r = Some b \<and> tc_authorized r = Some h) \<and> tc_revoked r = None)"
      by (rule ext) (simp add: replaceable_def)
    ultimately have "issueCredential js Bridge_Service b x p y token (Some h) fresh
        (set_where (\<lambda>r. (tc_audience r = Bridge_Service \<and> tc_bridge r = Some b \<and> tc_authorized r = Some h) \<and> tc_revoked r = None)
          (\<lambda>r. r\<lparr>tc_revoked := Some y\<rparr>) db) = Inr (res, db')" by simp
    then show thesis by (rule issue) (rule revokes_rowsI)
  qed (use rotate revoke in \<open>auto simp: rotateHostControlCredential_def rotateBridgeServiceCredential_def revokeHostControlCredential_def
      revokeBridgeServiceCredential_def\<close>)
qed

lemma row_check_revoke [simp]: "row_check (r\<lparr>tc_revoked := t\<rparr>) = row_check r"
  by (simp add: row_check_def)

lemma revokes_rows_inv: "revokes_rows db db' \<Longrightarrow> credential_inv db \<Longrightarrow> credential_inv db'"
  by (auto simp: revokes_rows_def credential_inv_def map_set_where in_set_where split: if_splits)

lemma credential_step_inv: "credential_step js db db' \<Longrightarrow> credential_inv db \<Longrightarrow> credential_inv db'"
  by (elim credential_stepE) (use revokes_rows_inv in \<open>auto simp: credential_inv_def fresh_row_def\<close>)

lemma credential_reachable_inv: "(credential_step js)\<^sup>*\<^sup>* [] db \<Longrightarrow> credential_inv db"
  by (induction rule: rtranclp_induct) (simp add: credential_inv_def, rule credential_step_inv)

text \<open>
  C21: every stored credential is readable and well typed. In each reachable store a lookup never
  throws; it finds exactly the stored identifiers, and what it returns is an identity of the audience
  and the binding of its row, with the row's revocation.
\<close>

theorem stored_credentials_typed:
  assumes "(credential_step js)\<^sup>*\<^sup>* [] db"
  shows "\<exists>c. findCredential db i = Inr c \<and> (c = None \<longleftrightarrow> i \<notin> tc_id ` set db)
    \<and> (\<forall>x. c = Some x \<longrightarrow> cr_id x = i \<and> (\<exists>r \<in> set db. tc_id r = i \<and> identity_audience (cr_identity x) = tc_audience r
          \<and> bound_to (tc_audience r) (credentialBindingId x) r \<and> cr_revoked x = tc_revoked r))"
proof (cases "row_where (\<lambda>r. tc_id r = i) db")
  case None
  moreover from None have "i \<notin> tc_id ` set db" by (auto simp: row_where_None_iff)
  ultimately show ?thesis by (simp add: findCredential_def)
next
  case (Some r)
  then have r: "r \<in> set db" "tc_id r = i" by (blast dest: row_where_SomeD)+
  then have "row_check r" using credential_reachable_inv [OF assms] by (simp add: credential_inv_def)
  from row_check_reads [OF this] obtain c where "rowToCredential r = Inr c" "identity_audience (cr_identity c) = tc_audience r"
    "bound_to (tc_audience r) (credentialBindingId c) r" "cr_id c = tc_id r" "cr_revoked c = tc_revoked r" by blast
  then show ?thesis using Some r by (intro exI [of _ "Some c"]) (auto simp: findCredential_def intro: rev_image_eqI)
qed

section \<open>Verification\<close>

lemma unique_hash:
  assumes "credential_inv db" and "r \<in> set db" and "r' \<in> set db" and "tc_audience r = tc_audience r'" and "tc_hash r = tc_hash r'"
  shows "r = r'"
  using assms by (auto simp: credential_inv_def distinct_map inj_on_def)

lemma accepted_row:
  assumes inv: "credential_inv db" and key: "\<And>r. P r \<Longrightarrow> tc_audience r = a \<and> tc_hash r = h"
  shows "accepted (row_where P db) = Some c \<longleftrightarrow> (\<exists>r \<in> set db. P r \<and> rowToCredential r = Inr c)"
proof (cases "row_where P db")
  case None
  moreover from None have "\<forall>r \<in> set db. \<not> P r" by (simp add: row_where_None_iff)
  ultimately show ?thesis by (auto simp: accepted_def)
next
  case (Some r)
  then have r: "r \<in> set db" "P r" by (blast dest: row_where_SomeD)+
  have "r' = r" if "r' \<in> set db" "P r'" for r'
    using unique_hash [OF inv that(1) r(1)] key [OF that(2)] key [OF r(2)] by simp
  then have "(\<exists>r \<in> set db. P r \<and> rowToCredential r = Inr c) \<longleftrightarrow> rowToCredential r = Inr c" using r by blast
  then show ?thesis using Some by (simp add: accepted_def split: sum.split)
qed

lemma row_binding: "rowToCredential r = Inr c \<Longrightarrow> bound_to (tc_audience r) b r \<longleftrightarrow> credentialBindingId c = b"
  by (cases "tc_audience r") (auto simp: rowToCredential_def Let_def bound_to_def credentialBindingId_def present_def split: if_splits)

text \<open>
  C20: a bearer token of an audience is accepted for an identity exactly when its hash is that of a
  stored credential of that audience, bound to that identity, issued, not expired and not revoked at
  the current time. Verifying by the token alone finds the same credential and tells its binding.
\<close>

theorem credential_verification_exact:
  assumes "(credential_step js)\<^sup>*\<^sup>* [] db"
  shows "(verifyCredential js now a token b db = Some c \<longleftrightarrow>
      (\<exists>r \<in> set db. tc_audience r = a \<and> tc_hash r = hashTransportBearerToken js a token \<and> bound_to a b r
        \<and> live_at (safeCurrentTimestamp js now) r \<and> rowToCredential r = Inr c))
    \<and> (verifyCredential js now a token b db = Some c \<longleftrightarrow> verifyCredentialByBearer js now a token db = Some c \<and> credentialBindingId c = b)"
proof -
  have inv: "credential_inv db" using assms by (rule credential_reachable_inv)
  let ?key = "\<lambda>r. tc_audience r = a \<and> tc_hash r = hashTransportBearerToken js a token"
  let ?live = "live_at (safeCurrentTimestamp js now)"
  have v: "verifyCredential js now a token b db = Some c \<longleftrightarrow> (\<exists>r \<in> set db. ?key r \<and> bound_to a b r \<and> ?live r \<and> rowToCredential r = Inr c)"
    unfolding verifyCredential_def by (subst accepted_row [OF inv, where a = a and h = "hashTransportBearerToken js a token"]) auto
  moreover have "verifyCredentialByBearer js now a token db = Some c \<longleftrightarrow> (\<exists>r \<in> set db. ?key r \<and> ?live r \<and> rowToCredential r = Inr c)"
    unfolding verifyCredentialByBearer_def by (subst accepted_row [OF inv, where a = a and h = "hashTransportBearerToken js a token"]) auto
  ultimately show ?thesis using row_binding [of _ c b] by auto
qed

section \<open>Replacement\<close>

lemma revoked_row_stays:
  assumes "credential_step js db db'" and "r \<in> set db" and "tc_revoked r \<noteq> None"
  shows "r \<in> set db'"
proof -
  have keep: "r \<in> set db1" if "revokes_rows db db1" for db1
    using that assms(2,3) unfolding revokes_rows_def in_set_where by (auto simp: in_set_where intro!: bexI [of _ r])
  from assms(1) show ?thesis by (cases rule: credential_stepE) (use keep in auto)
qed

lemma revoked_row_stays_run:
  "(credential_step js)\<^sup>*\<^sup>* db db' \<Longrightarrow> r \<in> set db \<Longrightarrow> tc_revoked r \<noteq> None \<Longrightarrow> r \<in> set db'"
  by (induction rule: rtranclp_induct) (auto intro: revoked_row_stays)

lemma revoked_never_verifies:
  assumes "credential_inv db" and "r \<in> set db" and "tc_revoked r \<noteq> None" and "tc_hash r = hashTransportBearerToken js (tc_audience r) token"
  shows "verifyCredential js now (tc_audience r) token b db = None"
proof -
  have "\<not> live_at t x" if "x \<in> set db" "tc_audience x = tc_audience r" "tc_hash x = hashTransportBearerToken js (tc_audience r) token" for t x
    using unique_hash [OF assms(1) that(1) assms(2)] that assms(3,4) by (simp add: live_at_def)
  then show ?thesis by (auto simp: verifyCredential_def accepted_def row_where_None_iff split: option.splits dest!: row_where_SomeD)
qed

lemma replaceBridgeE:
  assumes "replaceBridgeServiceCredential js now token fresh b h e db = Inr ((t, c), db')"
  obtains at' row where "db' = set_where (replaceable b h) (\<lambda>r. r\<lparr>tc_revoked := Some at'\<rparr>) db @ [row]" "replaceable b h row"
    "rowToCredential row = Inr c" "t = token" "tc_hash row = hashTransportBearerToken js Bridge_Service token"
proof -
  from assms obtain p x y where "issueCredential js Bridge_Service b x p y token (Some h) fresh
        (set_where (replaceable b h) (\<lambda>r. r\<lparr>tc_revoked := Some y\<rparr>) db) = Inr ((t, c), db')"
    unfolding replaceBridgeServiceCredential_def result_simps Let_def by (elim exE conjE) auto
  then show thesis by (rule issueCredentialE) (rule that, auto simp: replaceable_def bound_to_def fresh_row_def)
qed

text \<open>
  C19: replacing a Bridge credential leaves exactly one unrevoked credential of that Bridge for that
  host, the one it returns; every earlier one has been revoked, and the tokens of the earlier ones are
  refused for every Bridge and at every time in all later states of the store.
\<close>

theorem bridge_replacement_exclusive:
  assumes "(credential_step js)\<^sup>*\<^sup>* [] db" and "replaceBridgeServiceCredential js now token fresh b h e db = Inr ((t, c), db1)"
    and "(credential_step js)\<^sup>*\<^sup>* db1 db2"
    and "r \<in> set db" and "tc_audience r = Bridge_Service" and "tc_bridge r = Some b" and "tc_authorized r = Some h"
    and "tc_hash r = hashTransportBearerToken js Bridge_Service old"
  shows "(\<exists>row. filter (replaceable b h) db1 = [row] \<and> rowToCredential row = Inr c \<and> tc_hash row = hashTransportBearerToken js Bridge_Service token)
    \<and> verifyBridgeServiceCredential js now' old b' db2 = None"
proof -
  from assms(2) obtain at' row where db1: "db1 = set_where (replaceable b h) (\<lambda>r. r\<lparr>tc_revoked := Some at'\<rparr>) db @ [row]" "replaceable b h row"
    "rowToCredential row = Inr c" "tc_hash row = hashTransportBearerToken js Bridge_Service token" by (rule replaceBridgeE)
  have "filter (replaceable b h) (set_where (replaceable b h) (\<lambda>r. r\<lparr>tc_revoked := Some at'\<rparr>) db) = []"
    by (auto simp: filter_empty_conv in_set_where replaceable_def)
  then have one: "filter (replaceable b h) db1 = [row]" using db1(1,2) by simp
  let ?r = "if replaceable b h r then r\<lparr>tc_revoked := Some at'\<rparr> else r"
  have "?r \<in> set db1" using db1(1) assms(4) by (auto simp: in_set_where)
  moreover have rev: "tc_revoked ?r \<noteq> None" "tc_audience ?r = Bridge_Service" "tc_hash ?r = hashTransportBearerToken js (tc_audience ?r) old"
    using assms(5-8) by (auto simp: replaceable_def)
  ultimately have in2: "?r \<in> set db2" using revoked_row_stays_run [OF assms(3)] by blast
  have "credential_step js db db1" using assms(2) by (rule credential_step.replace)
  then have "(credential_step js)\<^sup>*\<^sup>* [] db2" using assms(1,3) by (meson converse_rtranclp_into_rtranclp rtranclp_trans)
  then have "credential_inv db2" by (rule credential_reachable_inv)
  from revoked_never_verifies [OF this in2 rev(1,3), of now' b'] rev(2) one db1 show ?thesis by (simp add: verifyBridgeServiceCredential_def)
qed

text \<open>A worked run: a Bridge credential is issued and then replaced.\<close>

definition old_token :: string where
  "old_token = replicate 32 (CHR ''k'')"

definition new_token :: string where
  "new_token = replicate 33 (CHR ''k'')"

definition issued1 :: "(string \<times> credential) \<times> credential_db" where
  "issued1 = projr (issueBridgeServiceCredential sample_platform ''..'' old_token ''c1'' ''b'' ''h'' ''.........'' [])"

definition issued2 :: "(string \<times> credential) \<times> credential_db" where
  "issued2 = projr (replaceBridgeServiceCredential sample_platform ''...'' new_token ''c2'' ''b'' ''h'' ''.........'' (snd issued1))"

lemma issued_runs:
  "issueBridgeServiceCredential sample_platform ''..'' old_token ''c1'' ''b'' ''h'' ''.........'' [] = Inr (fst issued1, snd issued1)"
  "replaceBridgeServiceCredential sample_platform ''...'' new_token ''c2'' ''b'' ''h'' ''.........'' (snd issued1) = Inr ((fst (fst issued2), snd (fst issued2)), snd issued2)"
proof -
  have "issueBridgeServiceCredential sample_platform ''..'' old_token ''c1'' ''b'' ''h'' ''.........'' [] = Inr issued1"
    unfolding issued1_def by (rule returns_projr) code_simp
  then show "issueBridgeServiceCredential sample_platform ''..'' old_token ''c1'' ''b'' ''h'' ''.........'' [] = Inr (fst issued1, snd issued1)" by simp
  have "replaceBridgeServiceCredential sample_platform ''...'' new_token ''c2'' ''b'' ''h'' ''.........'' (snd issued1) = Inr issued2"
    unfolding issued2_def by (rule returns_projr) code_simp
  then show "replaceBridgeServiceCredential sample_platform ''...'' new_token ''c2'' ''b'' ''h'' ''.........'' (snd issued1)
      = Inr ((fst (fst issued2), snd (fst issued2)), snd issued2)" by simp
qed

lemma issued1_reachable: "(credential_step sample_platform)\<^sup>*\<^sup>* [] (snd issued1)"
  using issued_runs(1) by (intro r_into_rtranclp credential_step.issue_bridge)

theorem stored_credentials_typed_witness: "\<exists>c. findCredential (snd issued1) ''c1'' = Inr (Some c) \<and> cr_id c = ''c1''"
proof -
  have "''c1'' \<in> tc_id ` set (snd issued1)" by code_simp
  with stored_credentials_typed [OF issued1_reachable, of "''c1''"] show ?thesis by fastforce
qed

theorem credential_verification_exact_witness:
  "\<exists>c. verifyCredential sample_platform ''....'' Bridge_Service old_token ''b'' (snd issued1) = Some c \<and> credentialBindingId c = ''b''"
proof -
  have "verifyCredential sample_platform ''....'' Bridge_Service old_token ''b'' (snd issued1) \<noteq> None" by code_simp
  then obtain c where "verifyCredential sample_platform ''....'' Bridge_Service old_token ''b'' (snd issued1) = Some c" by blast
  with credential_verification_exact [OF issued1_reachable, of "''....''" Bridge_Service old_token "''b''" c] show ?thesis by blast
qed

theorem bridge_replacement_exclusive_witness:
  "verifyBridgeServiceCredential sample_platform ''....'' old_token ''b'' (snd issued2) = None \<and> length (filter (replaceable ''b'' ''h'') (snd issued2)) = 1"
proof -
  have r: "hd (snd issued1) \<in> set (snd issued1)" "tc_audience (hd (snd issued1)) = Bridge_Service" "tc_bridge (hd (snd issued1)) = Some ''b''"
    "tc_authorized (hd (snd issued1)) = Some ''h''" "tc_hash (hd (snd issued1)) = hashTransportBearerToken sample_platform Bridge_Service old_token"
    by code_simp+
  from bridge_replacement_exclusive [OF issued1_reachable issued_runs(2) rtranclp.rtrancl_refl r, of "''....''" "''b''"] show ?thesis by auto
qed

end
