(* ===== verification/Operations.thy ===== *)
theory Operations
  imports Policy_Evaluation
begin

text \<open>
  \<^verbatim>\<open>floe-bus/src/operations.ts\<close>: the contracts of semantic operations, their refusals, the registry and
  the receipts of invocations. What an operation itself does (its handler, its own availability check
  and its measurement) is code of its definition; here a definition only says whether it has them.
\<close>

section \<open>Contracts\<close>

record op_schema =
  sc_version :: string
  sc_schema :: json

record op_confirmation =
  cf_required :: bool
  cf_prompt :: string
  cf_title :: string
  cf_description :: string

record op_broker =
  bk_id :: string
  bk_purpose :: string

datatype revision_policy = Not_Applicable | Revision_Optional | Revision_Required

datatype boundary_kind = Workspace_Kind | Host_Kind

record op_definition =
  od_id :: string
  od_version :: string
  od_boundary_kinds :: "boundary_kind list"
  od_category :: string
  od_title :: string
  od_description :: string
  od_effects :: operation_effects
  od_required_grants :: "string list"
  od_modes :: "interaction_mode list"
  od_confirmation :: "op_confirmation option"
  od_session_approval :: bool
  od_broker :: "op_broker option"
  od_target_kinds :: "string list"
  od_expected_revision :: revision_policy
  od_input :: op_schema
  od_result :: op_schema
  od_measures :: bool
  od_availability :: bool

section \<open>Refusals\<close>

record action_ref =
  ac_operation :: string
  ac_version :: "string option"
  ac_target :: "resource_identity option"

record required_action =
  rq_code :: string
  rq_title :: string
  rq_description :: string
  rq_operation :: "action_ref option"

record op_refusal =
  rf_code :: string
  rf_message :: string
  rf_retryable :: bool
  rf_action :: "required_action option"
  rf_details :: json

definition requiredAction :: "string \<Rightarrow> string \<Rightarrow> string \<Rightarrow> required_action" where
  "requiredAction c t d = \<lparr>rq_code = c, rq_title = t, rq_description = d, rq_operation = None\<rparr>"

definition op_refuse :: "string \<Rightarrow> string \<Rightarrow> bool \<Rightarrow> required_action \<Rightarrow> (string \<times> json) list \<Rightarrow> op_refusal" where
  "op_refuse c m retry a details = \<lparr>rf_code = c, rf_message = m, rf_retryable = retry, rf_action = Some a, rf_details = JObj details\<rparr>"

datatype availability = Available | Unavailable op_refusal

definition kind_of :: "boundary \<Rightarrow> boundary_kind" where
  "kind_of b = (case b of Workspace _ \<Rightarrow> Workspace_Kind | Host _ \<Rightarrow> Host_Kind)"

definition kind_text :: "boundary_kind \<Rightarrow> string" where
  "kind_text k = (case k of Workspace_Kind \<Rightarrow> ''workspace'' | Host_Kind \<Rightarrow> ''host'')"

section \<open>Requests\<close>

text \<open>
  \<^const>\<open>None\<close> is a field that was left out, \<^term>\<open>Some None\<close> is \<^verbatim>\<open>null\<close>; the digest of a request
  distinguishes them.
\<close>

record op_request =
  op_id :: string
  op_version :: string
  op_schema_version :: string
  op_target :: "resource_identity option option"
  op_expected :: "string option option"
  op_key :: "string option"
  op_input :: json

definition or_null :: "'a option option \<Rightarrow> 'a option" where
  "or_null v = (case v of None \<Rightarrow> None | Some x \<Rightarrow> x)"

record resolved =
  rs_ref :: resource_ref
  rs_state :: json

definition identity_json :: "resource_identity \<Rightarrow> json" where
  "identity_json t = JObj [(''kind'', JStr (res_kind t)), (''id'', JStr (res_id t))]"

definition field :: "string \<Rightarrow> ('a \<Rightarrow> json) \<Rightarrow> 'a option \<Rightarrow> (string \<times> json) list" where
  "field k f v = (case v of None \<Rightarrow> [] | Some x \<Rightarrow> [(k, f x)])"

definition request_json :: "op_request \<Rightarrow> json" where
  "request_json r = JObj ([(''operation_id'', JStr (op_id r)), (''operation_version'', JStr (op_version r)),
       (''input_schema_version'', JStr (op_schema_version r))]
     @ field ''target'' (jopt identity_json) (op_target r) @ field ''expected_resource_revision'' (jopt JStr) (op_expected r)
     @ field ''idempotency_key'' JStr (op_key r) @ [(''input'', op_input r)])"

section \<open>Canonical text\<close>

text \<open>
  \<^verbatim>\<open>canonicalize\<close> sorts the entries of an object and builds a new object from them, whose own keys
  JavaScript lists with the array indices first, in numeric order.
\<close>

definition digit_char :: "char \<Rightarrow> bool" where
  "digit_char c = (let n = of_char c :: nat in 48 \<le> n \<and> n \<le> 57)"

definition decimal :: "string \<Rightarrow> nat" where
  "decimal s = foldl (\<lambda>n c. 10 * n + (of_char c - 48)) 0 s"

definition array_index :: "string \<Rightarrow> bool" where
  "array_index s = (s \<noteq> [] \<and> list_all digit_char s \<and> (s = ''0'' \<or> hd s \<noteq> CHR ''0'') \<and> decimal s < 4294967295)"

definition object_order :: "(string \<times> 'a) list \<Rightarrow> (string \<times> 'a) list" where
  "object_order kvs = js_sort (\<lambda>l r. binary_compare (decimal (fst l)) (decimal (fst r))) (filter (array_index \<circ> fst) kvs)
     @ filter (\<lambda>e. \<not> array_index (fst e)) kvs"

fun registry_json :: "platform \<Rightarrow> json \<Rightarrow> string" where
  "registry_json js JNull = ''null''"
| "registry_json js (JBool b) = (if b then ''true'' else ''false'')"
| "registry_json js (JNum r) = number_text js r"
| "registry_json js (JStr s) = json_string s"
| "registry_json js (JArr vs) = ''['' @ join '','' (map (registry_json js) vs) @ '']''"
| "registry_json js (JObj kvs) = ''{'' @ join '','' (map (\<lambda>(k, t). json_string k @ '':'' @ t)
     (object_order (js_sort (\<lambda>l r. locale_compare js (fst l) (fst r)) (map (\<lambda>(k, v). (k, registry_json js v)) kvs)))) @ ''}''"

definition op_digest :: "platform \<Rightarrow> json \<Rightarrow> string" where
  "op_digest js v = sha256_hex js (registry_json js v)"

definition invocationLedgerKey :: "platform \<Rightarrow> authority_context \<Rightarrow> string \<Rightarrow> string \<Rightarrow> string" where
  "invocationLedgerKey js auth operation key = registry_json js (JObj [(''authority_boundary'', boundary_json (auth_boundary auth)),
     (''principal_id'', JStr (auth_principal_id auth)), (''operation_id'', JStr operation), (''idempotency_key'', JStr key)])"

definition invocationId :: "platform \<Rightarrow> string \<Rightarrow> string" where
  "invocationId js ledgerKey = ''opinv_'' @ take 32 (op_digest js (JObj [(''ledger_key'', JStr ledgerKey)]))"

section \<open>Receipts\<close>

datatype receipt_state = Op_Running | Op_Awaiting | Op_Accepted | Op_Completed | Op_Refused | Op_Unknown

record governance_evidence =
  ge_evaluation :: "string option"
  ge_requests :: "string list"
  ge_receipts :: "string list"
  ge_reservation :: "string option"

definition EMPTY_GOVERNANCE_EVIDENCE :: governance_evidence where
  "EMPTY_GOVERNANCE_EVIDENCE = \<lparr>ge_evaluation = None, ge_requests = [], ge_receipts = [], ge_reservation = None\<rparr>"

definition EMPTY_OPERATION_PROVENANCE :: provenance where
  "EMPTY_OPERATION_PROVENANCE = \<lparr>cause_event_id = None, delivery_ids = [], execution_attempt_id = None, node_execution_id = None,
     prov_scope_execution_id = None\<rparr>"

record op_receipt =
  rc_receipt_id :: string
  rc_invocation_id :: string
  rc_operation_id :: string
  rc_operation_version :: string
  rc_principal_id :: string
  rc_boundary :: boundary
  rc_target :: "resource_ref option"
  rc_expected :: "string option"
  rc_key :: string
  rc_digest :: string
  rc_provenance :: provenance
  rc_state :: receipt_state
  rc_schema_version :: string
  rc_result :: json
  rc_refusal :: "op_refusal option"
  rc_changed :: "resource_ref list"
  rc_progress :: "resource_ref option"
  rc_cancel :: "action_ref option"
  rc_audit :: "resource_ref option"
  rc_governance :: governance_evidence
  rc_owner :: "string option"
  rc_started :: string
  rc_updated :: string
  rc_completed :: "string option"

type_synonym stored_invocation = "string \<times> op_receipt"

datatype invocation_response = Receipt bool op_receipt | Conflict op_refusal op_receipt | Rejected op_refusal

section \<open>The registry\<close>

text \<open>
  \<open>rg_definitions\<close> lists the registered definitions and \<open>rg_current\<close> is \<^verbatim>\<open>currentVersions\<close>, each in the
  order of insertion. The schema validator and the governance of the registry are called by \<^verbatim>\<open>invoke\<close>.
\<close>

record registry =
  rg_definitions :: "op_definition list"
  rg_current :: "(string \<times> string) list"
  rg_owner :: string
  rg_pid :: nat

datatype registry_error = Already_Registered string string | Invalid_Definition string

definition find_definition :: "registry \<Rightarrow> string \<Rightarrow> string \<Rightarrow> op_definition option" where
  "find_definition reg i v = find (\<lambda>d. od_id d = i \<and> od_version d = v) (rg_definitions reg)"

definition assertDefinition :: "op_definition \<Rightarrow> (registry_error, unit) result" where
  "assertDefinition d =
     throw_if (is_blank (od_id d)) (Invalid_Definition ''Semantic operation operation_id must not be empty.'')
     (throw_if (is_blank (od_version d)) (Invalid_Definition ''Semantic operation operation_version must not be empty.'')
     (throw_if (is_blank (sc_version (od_input d))) (Invalid_Definition ''Semantic operation input schema version must not be empty.'')
     (throw_if (is_blank (sc_version (od_result d))) (Invalid_Definition ''Semantic operation result schema version must not be empty.'')
     (throw_if (od_modes d = []) (Invalid_Definition (''Operation '' @ quoted (od_id d) @ '' must allow at least one interaction mode.''))
     (throw_if (od_session_approval d) (Invalid_Definition (''Operation '' @ quoted (od_id d)
        @ '' declares a session approval. Approval must be a canonical bound Policy decision.''))
     (throw_if (od_boundary_kinds d = []) (Invalid_Definition (''Operation '' @ quoted (od_id d) @ '' must allow at least one authority boundary kind.''))
     (throw_if (\<not> distinct (od_boundary_kinds d)) (Invalid_Definition (''Operation '' @ quoted (od_id d) @ '' declares invalid authority boundary kinds.''))
     (Inr ()))))))))"

definition register :: "op_definition \<Rightarrow> bool \<Rightarrow> registry \<Rightarrow> (registry_error, registry) result" where
  "register d current reg =
     rbind (assertDefinition d) (\<lambda>_.
     throw_if (find_definition reg (od_id d) (od_version d) \<noteq> None) (Already_Registered (od_id d) (od_version d))
     (Inr (reg\<lparr>rg_definitions := rg_definitions reg @ [d],
        rg_current := (if current then map_put (od_id d) (od_version d) (rg_current reg) else rg_current reg)\<rparr>)))"

definition current_definitions :: "registry \<Rightarrow> op_definition list" where
  "current_definitions reg = concat (map (\<lambda>(i, v). case find_definition reg i v of None \<Rightarrow> [] | Some d \<Rightarrow> [d]) (rg_current reg))"

definition usable_in :: "interaction_mode \<Rightarrow> boundary_kind option \<Rightarrow> op_definition \<Rightarrow> bool" where
  "usable_in m kind d = (m \<in> set (od_modes d) \<and> (case kind of None \<Rightarrow> True | Some k \<Rightarrow> k \<in> set (od_boundary_kinds d)))"

definition listCurrentOperationIds :: "platform \<Rightarrow> registry \<Rightarrow> interaction_mode \<Rightarrow> boundary_kind option \<Rightarrow> string list" where
  "listCurrentOperationIds js reg m kind = js_sort (locale_compare js) (map od_id (filter (usable_in m kind) (current_definitions reg)))"

record operation_metadata =
  om_id :: string
  om_version :: string
  om_category :: string
  om_title :: string
  om_effects :: operation_effects

definition metadata :: "op_definition \<Rightarrow> operation_metadata" where
  "metadata d = \<lparr>om_id = od_id d, om_version = od_version d, om_category = od_category d, om_title = od_title d, om_effects = od_effects d\<rparr>"

definition listCurrentOperationMetadata :: "platform \<Rightarrow> registry \<Rightarrow> interaction_mode \<Rightarrow> boundary_kind option \<Rightarrow> operation_metadata list" where
  "listCurrentOperationMetadata js reg m kind = js_sort (\<lambda>l r. locale_compare js (om_id l) (om_id r))
     (map metadata (filter (usable_in m kind) (current_definitions reg)))"

end
