(* ===== verification/Operation_Invocations.thy ===== *)
theory Operation_Invocations
  imports Operations
begin

text \<open>
  \<^verbatim>\<open>SemanticOperationRegistry.invoke\<close> and \<^verbatim>\<open>project\<close> of \<^verbatim>\<open>floe-bus/src/operations.ts\<close>. Both are asynchronous: at
  every \<^verbatim>\<open>await\<close> other invocations may run. A run is therefore modelled as the tree of the calls it
  makes to its dependencies, each with the continuation that takes the answer; \<^const>\<open>None\<close> or
  \<^const>\<open>False\<close> is a call that throws. What the dependencies answer is left open, except the ledger.
  The clock and the schema validator are called without an \<^verbatim>\<open>await\<close>; letting other runs take a step
  there too only adds histories. The validator compiles a schema on its first use, in strict mode,
  and a schema that does not compile makes it throw.
\<close>

section \<open>Calls\<close>

record prepared =
  pr_evidence :: governance_evidence
  pr_audit :: "resource_ref option"
  pr_provenance :: provenance

datatype preparation = Authorized prepared | Awaiting op_refusal prepared | Withheld op_refusal prepared

record success =
  su_accepted :: bool
  su_result :: json
  su_changed :: "resource_ref list option"
  su_progress :: "resource_ref option"
  su_cancel :: "action_ref option"
  su_audit :: "resource_ref option"

datatype outcome = Succeeded success | Handler_Refused op_refusal

record gov_invocation =
  gi_id :: string
  gi_definition :: op_definition
  gi_authority :: authority_context
  gi_provenance :: provenance
  gi_target :: "resolved option"
  gi_request :: op_request
  gi_digest :: string
  gi_input :: json
  gi_refusal :: "op_refusal option"
  gi_prior :: "governance_evidence option"

record exec_context =
  ec_authority :: authority_context
  ec_target :: "resolved option"
  ec_id :: string
  ec_key :: string
  ec_expected :: "string option"
  ec_provenance :: provenance
  ec_governance :: governance_evidence

text \<open>What \<^verbatim>\<open>OperationSchemaValidator.validate\<close> returns.\<close>

datatype validation = Valid_Value | Invalid_Value "json list"

type_synonym usage = "(string \<times> rat) list"

record settlement =
  st_prepared :: prepared
  st_state :: receipt_state
  st_result :: json
  st_refusal :: "op_refusal option"
  st_changed :: "resource_ref list"
  st_after :: "resolved option"
  st_usage :: "usage option"

datatype 'r prog =
    Done 'r
  | Threw
  | Now "string \<Rightarrow> 'r prog"
  | Probe nat "bool \<Rightarrow> 'r prog"
  | Begin string string op_receipt "stored_invocation option \<Rightarrow> 'r prog"
  | Update string op_receipt "'r prog"
  | Validate json json "validation option \<Rightarrow> 'r prog"
  | Resolve resource_identity "resolved option option \<Rightarrow> 'r prog"
  | Check op_definition authority_context "resolved option" "availability option \<Rightarrow> 'r prog"
  | Prepare gov_invocation "preparation option \<Rightarrow> 'r prog"
  | Recover gov_invocation op_receipt "bool \<Rightarrow> 'r prog"
  | Handle op_definition exec_context json "outcome option \<Rightarrow> 'r prog"
  | Measure op_definition authority_context "resolved option" json json "usage option \<Rightarrow> 'r prog"
  | Settle gov_invocation settlement "bool \<Rightarrow> 'r prog"

section \<open>Availability\<close>

definition missing_grants :: "op_definition \<Rightarrow> authority_context \<Rightarrow> string list" where
  "missing_grants d auth = filter (\<lambda>g. g \<notin> set (auth_grants auth)) (od_required_grants d)"

definition contract_refusal :: "op_definition \<Rightarrow> authority_context \<Rightarrow> resolved option \<Rightarrow> op_refusal option" where
  "contract_refusal d auth target =
     (if missing_grants d auth \<noteq> [] then Some (op_refuse ''operation_grant_required'' ''The current principal is not authorised to use this operation.'' False
        (requiredAction ''request_grant'' ''Request access'' ''Request the narrow grants required for this operation.'')
        [(''missing_grants'', jtexts (missing_grants d auth))])
      else if mode (auth_interaction auth) \<notin> set (od_modes d) then Some (op_refuse ''operation_interaction_not_supported''
        (''This operation cannot run in '' @ quoted (mode_text (mode (auth_interaction auth))) @ '' interaction mode.'') False
        (requiredAction ''change_interaction'' ''Use a supported interaction''
          ''Run this operation through a client that can satisfy its declared interaction constraints.'')
        [(''allowed_modes'', jtexts (map mode_text (od_modes d)))])
      else case od_broker d of
        Some b \<Rightarrow> if broker_id (auth_interaction auth) \<noteq> Some (bk_id b)
          then Some (op_refuse ''operation_broker_required'' (''This operation requires the trusted '' @ quoted (bk_id b) @ '' broker.'') False
            (requiredAction ''use_broker'' ''Open the trusted broker'' (bk_purpose b)) [(''broker_id'', JStr (bk_id b))])
          else if od_target_kinds d \<noteq> [] \<and> target = None then Some (op_refuse ''operation_target_required''
            ''Select a target resource to determine whether this operation is available.'' False
            (requiredAction ''select_resource'' ''Select a target'' ''Select the resource this operation should act on.'')
            [(''resource_kinds'', jtexts (od_target_kinds d))])
          else None
      | None \<Rightarrow> if od_target_kinds d \<noteq> [] \<and> target = None then Some (op_refuse ''operation_target_required''
            ''Select a target resource to determine whether this operation is available.'' False
            (requiredAction ''select_resource'' ''Select a target'' ''Select the resource this operation should act on.'')
            [(''resource_kinds'', jtexts (od_target_kinds d))])
          else None)"

definition availability_unknown :: op_refusal where
  "availability_unknown = op_refuse ''operation_availability_unknown''
     ''Floe could not determine whether this operation is currently safe and available.'' True
     (requiredAction ''refresh_resource'' ''Refresh current state'' ''Refresh the target and try discovery again.'') []"

definition evaluateAvailability :: "op_definition \<Rightarrow> authority_context \<Rightarrow> resolved option \<Rightarrow> (availability \<Rightarrow> 'r prog) \<Rightarrow> 'r prog" where
  "evaluateAvailability d auth target k = (case contract_refusal d auth target of
      Some r \<Rightarrow> k (Unavailable r)
    | None \<Rightarrow> if \<not> od_availability d then k Available
        else Check d auth target (\<lambda>a. case a of None \<Rightarrow> k (Unavailable availability_unknown) | Some x \<Rightarrow> k x))"

definition validateExpectedRevision :: "op_definition \<Rightarrow> op_request \<Rightarrow> resolved option \<Rightarrow> op_refusal option" where
  "validateExpectedRevision d r target =
     (let expected = or_null (op_expected r);
          current = (case target of None \<Rightarrow> None | Some t \<Rightarrow> ref_revision (rs_ref t)) in
      if od_expected_revision d = Not_Applicable then
        (if expected = None then None else Some (op_refuse ''operation_revision_not_supported''
           ''This operation does not accept an expected resource revision.'' False
           (requiredAction ''remove_expected_revision'' ''Remove the revision'' ''Retry without an expected resource revision.'') []))
      else if od_expected_revision d = Revision_Required \<and> expected = None then Some (op_refuse ''operation_expected_revision_required''
           ''The current resource revision is required before this operation can change it.'' True
           (requiredAction ''refresh_resource'' ''Refresh the resource'' ''Read the current resource and retry with its exact revision.'')
           [(''current_revision'', jopt JStr current)])
      else if expected \<noteq> None \<and> current \<noteq> expected then Some (op_refuse ''operation_resource_revision_conflict''
           ''The target changed after this operation was prepared.'' True
           (requiredAction ''refresh_resource'' ''Review the latest version'' ''Refresh the resource, review the change, and create a new invocation.'')
           [(''expected_revision'', jopt JStr expected), (''current_revision'', jopt JStr current)])
      else None)"

section \<open>The refusals of an invocation\<close>

definition version_not_found :: "op_request \<Rightarrow> op_refusal" where
  "version_not_found r = op_refuse ''operation_version_not_found'' (''Operation '' @ quoted (op_id r @ ''@'' @ op_version r) @ '' is not registered.'') False
     (requiredAction ''rediscover_operation'' ''Refresh available actions'' ''Discover the current operation contract before trying again.'')
     [(''operation_id'', JStr (op_id r)), (''operation_version'', JStr (op_version r))]"

definition key_required :: op_refusal where
  "key_required = op_refuse ''idempotency_key_required''
     ''A write needs an idempotency key, so a retry replays instead of applying twice. Reads do not.'' True
     (requiredAction ''supply_idempotency_key'' ''Retry safely'' ''Retry with one stable idempotency key for this intended operation.'') []"

definition key_reused :: "op_receipt \<Rightarrow> op_refusal" where
  "key_reused existing = op_refuse ''idempotency_key_reused'' ''This idempotency key already identifies a different invocation request.'' False
     (requiredAction ''new_idempotency_key'' ''Use a new idempotency key''
       ''Keep the existing key for the original intent and use a new key for this different request.'')
     [(''existing_receipt_id'', JStr (rc_receipt_id existing))]"

definition ownership_lost :: "string \<Rightarrow> op_refusal" where
  "ownership_lost i = op_refuse ''operation_outcome_unknown''
     ''The Bus restarted or lost ownership while this operation might have been causing effects.'' False
     (requiredAction ''inspect_state'' ''Inspect current state''
       ''Inspect the target and retained audit evidence before deciding whether another operation is safe.'')
     [(''invocation_id'', JStr i)]"

definition boundary_not_supported :: "op_definition \<Rightarrow> boundary \<Rightarrow> op_refusal" where
  "boundary_not_supported d b = op_refuse ''operation_authority_boundary_not_supported''
     (''Operation '' @ quoted (od_id d) @ '' cannot run with '' @ quoted (kind_text (kind_of b)) @ '' authority.'') False
     (requiredAction ''use_supported_authority'' ''Use the correct authority''
       ''Discover and invoke this operation through one of its declared authority boundaries.'')
     [(''allowed_boundary_kinds'', jtexts (map kind_text (od_boundary_kinds d)))]"

definition target_required :: "op_definition \<Rightarrow> op_refusal" where
  "target_required d = op_refuse ''operation_target_required'' ''This operation requires a target resource.'' False
     (requiredAction ''select_resource'' ''Select a target'' ''Select the resource this operation should act on.'')
     [(''resource_kinds'', jtexts (od_target_kinds d))]"

definition target_invalid :: "op_definition \<Rightarrow> resource_identity \<Rightarrow> op_refusal" where
  "target_invalid d t = op_refuse ''operation_target_invalid''
     (''Operation '' @ quoted (od_id d) @ '' does not support resource kind '' @ quoted (res_kind t) @ ''.'') False
     (requiredAction ''select_resource'' ''Select a supported target'' ''Select a resource supported by the current operation contract.'')
     [(''resource_kinds'', jtexts (od_target_kinds d))]"

definition target_not_found :: "resource_identity \<Rightarrow> op_refusal" where
  "target_not_found t = op_refuse ''operation_target_not_found''
     (''Target '' @ quoted (res_kind t @ '':'' @ res_id t) @ '' was not found in the authenticated authority boundary.'') False
     (requiredAction ''refresh_resource'' ''Refresh the Workspace'' ''Refresh current state and select an available resource.'') []"

definition target_not_supported :: "op_definition \<Rightarrow> op_refusal" where
  "target_not_supported d = op_refuse ''operation_target_not_supported''
     (''Operation '' @ quoted (od_id d) @ '' does not accept a target resource.'') False
     (requiredAction ''remove_target'' ''Remove the target'' ''Retry the operation without a target resource.'') []"

definition schema_mismatch :: "op_definition \<Rightarrow> op_request \<Rightarrow> op_refusal" where
  "schema_mismatch d r = op_refuse ''operation_input_schema_version_mismatch''
     (''Input schema version '' @ quoted (op_schema_version r) @ '' is not accepted by '' @ quoted (od_id d @ ''@'' @ od_version d) @ ''.'') False
     (requiredAction ''rediscover_operation'' ''Refresh available actions''
       ''Discover the current operation contract and rebuild the request from its input schema.'')
     [(''expected'', JStr (sc_version (od_input d))), (''received'', JStr (op_schema_version r))]"

definition input_invalid :: "json list \<Rightarrow> op_refusal" where
  "input_invalid issues = op_refuse ''operation_input_invalid'' ''The operation input does not match its discovered schema.'' False
     (requiredAction ''correct_input'' ''Correct the input'' ''Use the exact versioned input schema returned by operation discovery.'')
     [(''issues'', JArr issues)]"

definition confirmation_required :: "op_definition \<Rightarrow> op_request \<Rightarrow> op_confirmation \<Rightarrow> op_refusal" where
  "confirmation_required d r c = op_refuse ''operation_confirmation_required'' (cf_description c) True
     ((requiredAction ''confirm'' (cf_title c) (cf_description c))\<lparr>rq_operation :=
        Some \<lparr>ac_operation = od_id d, ac_version = Some (od_version d), ac_target = or_null (op_target r)\<rparr>\<rparr>)
     [(''prompt_id'', JStr (cf_prompt c))]"

definition governance_unavailable :: "string \<Rightarrow> op_refusal" where
  "governance_unavailable i = op_refuse ''operation_governance_unavailable''
     ''Floe could not establish the canonical Policy, approval, Budget, and audit decision for this operation.'' True
     (requiredAction ''inspect_governance'' ''Inspect governance'' ''Inspect retained governance state before retrying this exact idempotent invocation.'')
     [(''invocation_id'', JStr i)]"

definition handler_stopped :: "string \<Rightarrow> op_refusal" where
  "handler_stopped i = op_refuse ''operation_outcome_unknown'' ''The operation handler stopped without proving whether its effects completed.'' False
     (requiredAction ''inspect_state'' ''Inspect current state''
       ''Inspect the target and invocation evidence before deciding whether a new operation is safe.'')
     [(''invocation_id'', JStr i)]"

definition result_invalid :: "json list \<Rightarrow> string \<Rightarrow> op_refusal" where
  "result_invalid issues i = op_refuse ''operation_result_invalid''
     ''The operation handler returned a result that violates its published result schema.'' False
     (requiredAction ''inspect_contract'' ''Inspect the operation contract''
       ''The Bus operation implementation and its published result schema must be corrected together.'')
     [(''issues'', JArr issues), (''invocation_id'', JStr i)]"

definition progress_required :: "string \<Rightarrow> op_refusal" where
  "progress_required i = op_refuse ''operation_progress_ref_required''
     ''An accepted asynchronous operation must return an inspectable progress reference.'' False
     (requiredAction ''inspect_contract'' ''Inspect the operation contract'' ''The handler must expose progress for accepted asynchronous work.'')
     [(''invocation_id'', JStr i)]"

definition governance_outcome_unknown :: "string \<Rightarrow> op_refusal" where
  "governance_outcome_unknown i = op_refuse ''operation_governance_outcome_unknown''
     ''The operation completed its handler, but Floe could not prove its final governance records.'' False
     (requiredAction ''inspect_state'' ''Inspect current state''
       ''Inspect the operation receipt, target, Budget, and audit evidence before retrying.'')
     [(''invocation_id'', JStr i)]"

section \<open>The context of one invocation\<close>

text \<open>The constants of a run of \<^verbatim>\<open>invoke\<close>; \<open>ic_base\<close> is \<^verbatim>\<open>baseReceipt\<close> and \<open>ic_prior\<close> the evidence of an invocation that is resumed.\<close>

record environment =
  en_authority :: authority_context
  en_provenance :: "provenance option"

record inv_context =
  ic_definition :: op_definition
  ic_environment :: environment
  ic_request :: op_request
  ic_key :: string
  ic_ledger_key :: string
  ic_digest :: string
  ic_id :: string
  ic_provenance :: provenance
  ic_prior :: "governance_evidence option"
  ic_base :: op_receipt

definition identity_ref :: "resource_identity \<Rightarrow> resource_ref" where
  "identity_ref t = \<lparr>ref_kind = res_kind t, ref_id = res_id t, ref_revision = None\<rparr>"

definition request_target :: "inv_context \<Rightarrow> resource_identity option" where
  "request_target c = or_null (op_target (ic_request c))"

definition progress_of :: "string \<Rightarrow> resource_ref" where
  "progress_of i = \<lparr>ref_kind = ''operation_invocation'', ref_id = i, ref_revision = None\<rparr>"

definition running_receipt :: "registry \<Rightarrow> environment \<Rightarrow> op_definition \<Rightarrow> op_request \<Rightarrow> string \<Rightarrow> string \<Rightarrow> string \<Rightarrow> string \<Rightarrow> op_receipt" where
  "running_receipt reg env d r key dg i started = \<lparr>rc_receipt_id = i, rc_invocation_id = i, rc_operation_id = od_id d, rc_operation_version = od_version d,
     rc_principal_id = auth_principal_id (en_authority env), rc_boundary = auth_boundary (en_authority env),
     rc_target = map_option identity_ref (or_null (op_target r)), rc_expected = or_null (op_expected r), rc_key = key, rc_digest = dg,
     rc_provenance = (case en_provenance env of None \<Rightarrow> EMPTY_OPERATION_PROVENANCE | Some p \<Rightarrow> p), rc_state = Op_Running,
     rc_schema_version = sc_version (od_result d), rc_result = JNull, rc_refusal = None, rc_changed = [], rc_progress = Some (progress_of i),
     rc_cancel = None, rc_audit = None, rc_governance = EMPTY_GOVERNANCE_EVIDENCE, rc_owner = Some (rg_owner reg),
     rc_started = started, rc_updated = started, rc_completed = None\<rparr>"

definition governance_invocation :: "inv_context \<Rightarrow> provenance \<Rightarrow> resolved option \<Rightarrow> op_refusal option \<Rightarrow> governance_evidence option \<Rightarrow> gov_invocation" where
  "governance_invocation c p target r prior = \<lparr>gi_id = ic_id c, gi_definition = ic_definition c, gi_authority = en_authority (ic_environment c),
     gi_provenance = p, gi_target = target, gi_request = ic_request c, gi_digest = ic_digest c, gi_input = op_input (ic_request c),
     gi_refusal = r, gi_prior = prior\<rparr>"

section \<open>Settling\<close>

definition completeRefusal :: "inv_context \<Rightarrow> op_refusal \<Rightarrow> resource_ref option \<Rightarrow> invocation_response prog" where
  "completeRefusal c r target = Now (\<lambda>t.
     let receipt = (ic_base c)\<lparr>rc_target := target, rc_state := Op_Refused, rc_refusal := Some r, rc_progress := None, rc_owner := None,
           rc_updated := t, rc_completed := Some t\<rparr>
     in Update (ic_ledger_key c) receipt (Done (Receipt False receipt)))"

definition settle :: "inv_context \<Rightarrow> gov_invocation \<Rightarrow> settlement \<Rightarrow> (bool \<Rightarrow> 'r prog) \<Rightarrow> 'r prog" where
  "settle c gi s k = (case request_target c of
      None \<Rightarrow> Settle gi (s\<lparr>st_after := None\<rparr>) k
    | Some t \<Rightarrow> Resolve t (\<lambda>found. case found of None \<Rightarrow> k False | Some after \<Rightarrow> Settle gi (s\<lparr>st_after := after\<rparr>) k))"

definition completeUnknown ::
  "inv_context \<Rightarrow> gov_invocation \<Rightarrow> prepared \<Rightarrow> op_receipt \<Rightarrow> op_refusal \<Rightarrow> json \<Rightarrow> resource_ref list \<Rightarrow> invocation_response prog" where
  "completeUnknown c gi p authorized r result changed =
     settle c gi \<lparr>st_prepared = p, st_state = Op_Unknown, st_result = result, st_refusal = Some r, st_changed = changed, st_after = None, st_usage = None\<rparr> (\<lambda>_.
     Now (\<lambda>t.
       let receipt = authorized\<lparr>rc_state := Op_Unknown, rc_result := result, rc_refusal := Some r, rc_changed := changed, rc_progress := None,
             rc_owner := None, rc_updated := t, rc_completed := Some t\<rparr>
       in Update (ic_ledger_key c) receipt (Done (Receipt False receipt))))"

definition DEFAULT_OPERATION_USAGE :: usage where
  "DEFAULT_OPERATION_USAGE = [(''operation.count'', 1)]"

fun valid_usage :: "usage \<Rightarrow> usage \<Rightarrow> usage option" where
  "valid_usage [] acc = Some acc"
| "valid_usage ((metric, amount) # es) acc =
     (if js_trim metric = [] \<or> amount < 0 then None else valid_usage es (map_put (js_trim metric) amount acc))"

definition normalizeResourceUsage :: "platform \<Rightarrow> usage \<Rightarrow> usage option" where
  "normalizeResourceUsage js es = map_option (\<lambda>ns. object_order (js_sort (\<lambda>l r. locale_compare js (fst l) (fst r)) (object_order ns)))
     (valid_usage (object_order (fold (\<lambda>(k, v). map_put k v) es DEFAULT_OPERATION_USAGE)) [])"

section \<open>Running the handler\<close>

definition changed_of :: "success \<Rightarrow> resource_ref list" where
  "changed_of s = (case su_changed s of None \<Rightarrow> [] | Some xs \<Rightarrow> xs)"

definition success_state :: "success \<Rightarrow> receipt_state" where
  "success_state s = (if su_accepted s then Op_Accepted else Op_Completed)"

definition finish :: "inv_context \<Rightarrow> gov_invocation \<Rightarrow> prepared \<Rightarrow> op_receipt \<Rightarrow> resource_ref option \<Rightarrow> success \<Rightarrow> usage \<Rightarrow> invocation_response prog" where
  "finish c gi p authorized targetRef s actual =
     settle c gi \<lparr>st_prepared = p, st_state = success_state s, st_result = su_result s, st_refusal = None, st_changed = changed_of s,
         st_after = None, st_usage = Some actual\<rparr> (\<lambda>ok.
       if \<not> ok then completeUnknown c gi p authorized (governance_outcome_unknown (ic_id c)) (su_result s) (changed_of s)
       else Now (\<lambda>t.
         let receipt = authorized\<lparr>rc_target := targetRef, rc_state := success_state s, rc_result := su_result s, rc_changed := changed_of s,
               rc_progress := su_progress s, rc_cancel := su_cancel s,
               rc_audit := (case pr_audit p of None \<Rightarrow> su_audit s | Some a \<Rightarrow> Some a), rc_owner := None, rc_updated := t,
               rc_completed := (if su_accepted s then None else Some t)\<rparr>
         in Update (ic_ledger_key c) receipt (Done (Receipt False receipt))))"

definition after_handler ::
  "platform \<Rightarrow> registry \<Rightarrow> inv_context \<Rightarrow> gov_invocation \<Rightarrow> prepared \<Rightarrow> op_receipt \<Rightarrow> resolved option \<Rightarrow> outcome option \<Rightarrow> invocation_response prog" where
  "after_handler js reg c gi p authorized target out = (case out of
      None \<Rightarrow> completeUnknown c gi p authorized (handler_stopped (ic_id c)) JNull []
    | Some (Handler_Refused r) \<Rightarrow>
        settle c gi \<lparr>st_prepared = p, st_state = Op_Refused, st_result = JNull, st_refusal = Some r, st_changed = [], st_after = None, st_usage = None\<rparr> (\<lambda>ok.
          if \<not> ok then Threw
          else Now (\<lambda>t.
            let receipt = authorized\<lparr>rc_state := Op_Refused, rc_refusal := Some r, rc_progress := None, rc_owner := None,
                  rc_updated := t, rc_completed := Some t\<rparr>
            in Update (ic_ledger_key c) receipt (Done (Receipt False receipt))))
    | Some (Succeeded s) \<Rightarrow>
        Validate (sc_schema (od_result (ic_definition c))) (su_result s) (\<lambda>v. case v of
          None \<Rightarrow> Threw
        | Some (Invalid_Value issues) \<Rightarrow> completeUnknown c gi p authorized (result_invalid issues (ic_id c)) JNull (changed_of s)
        | Some Valid_Value \<Rightarrow>
          if su_accepted s \<and> su_progress s = None
          then completeUnknown c gi p authorized (progress_required (ic_id c)) (su_result s) (changed_of s)
          else if \<not> od_measures (ic_definition c) then finish c gi p authorized (map_option rs_ref target) s DEFAULT_OPERATION_USAGE
          else Measure (ic_definition c) (en_authority (ic_environment c)) target (op_input (ic_request c)) (su_result s) (\<lambda>measured.
            case measured of
              None \<Rightarrow> completeUnknown c gi p authorized (governance_outcome_unknown (ic_id c)) (su_result s) (changed_of s)
            | Some m \<Rightarrow> (case normalizeResourceUsage js m of
                None \<Rightarrow> completeUnknown c gi p authorized (governance_outcome_unknown (ic_id c)) (su_result s) (changed_of s)
              | Some actual \<Rightarrow> finish c gi p authorized (map_option rs_ref target) s actual))))"

definition authorized_receipt :: "registry \<Rightarrow> inv_context \<Rightarrow> prepared \<Rightarrow> resource_ref option \<Rightarrow> string \<Rightarrow> op_receipt" where
  "authorized_receipt reg c p targetRef t = (ic_base c)\<lparr>rc_target := targetRef, rc_state := Op_Running, rc_refusal := None,
     rc_governance := pr_evidence p, rc_audit := pr_audit p, rc_provenance := pr_provenance p, rc_progress := Some (progress_of (ic_id c)),
     rc_owner := Some (rg_owner reg), rc_updated := t, rc_completed := None\<rparr>"

definition withhold :: "inv_context \<Rightarrow> prepared \<Rightarrow> resource_ref option \<Rightarrow> receipt_state \<Rightarrow> op_refusal \<Rightarrow> invocation_response prog" where
  "withhold c p targetRef st r = Now (\<lambda>t.
     let receipt = (ic_base c)\<lparr>rc_target := targetRef, rc_state := st, rc_refusal := Some r, rc_governance := pr_evidence p, rc_audit := pr_audit p,
           rc_provenance := pr_provenance p, rc_progress := None, rc_owner := None, rc_updated := t,
           rc_completed := (if st = Op_Refused then Some t else None)\<rparr>
     in Update (ic_ledger_key c) receipt (Done (Receipt False receipt)))"

definition run_authorized ::
  "platform \<Rightarrow> registry \<Rightarrow> inv_context \<Rightarrow> gov_invocation \<Rightarrow> prepared \<Rightarrow> resolved option \<Rightarrow> invocation_response prog" where
  "run_authorized js reg c gi p target = Now (\<lambda>t.
     let authorized = authorized_receipt reg c p (map_option rs_ref target) t in
     Update (ic_ledger_key c) authorized
       (Handle (ic_definition c) \<lparr>ec_authority = en_authority (ic_environment c), ec_target = target, ec_id = ic_id c, ec_key = ic_key c,
           ec_expected = or_null (op_expected (ic_request c)), ec_provenance = pr_provenance p, ec_governance = pr_evidence p\<rparr>
         (op_input (ic_request c)) (after_handler js reg c gi p authorized target)))"

section \<open>Governance and the checks before it\<close>

definition pre_effect_refusal :: "inv_context \<Rightarrow> availability \<Rightarrow> op_refusal option" where
  "pre_effect_refusal c a = (case a of
      Unavailable r \<Rightarrow> Some r
    | Available \<Rightarrow> (case od_confirmation (ic_definition c) of
        None \<Rightarrow> None
      | Some cf \<Rightarrow> if cf_required cf \<and> cf_prompt cf \<notin> set (confirmed_prompts (auth_interaction (en_authority (ic_environment c))))
          then Some (confirmation_required (ic_definition c) (ic_request c) cf) else None))"

definition govern :: "platform \<Rightarrow> registry \<Rightarrow> inv_context \<Rightarrow> resolved option \<Rightarrow> availability \<Rightarrow> invocation_response prog" where
  "govern js reg c target a =
     (let gi = governance_invocation c (ic_provenance c) target (pre_effect_refusal c a) (ic_prior c) in
      Prepare gi (\<lambda>prep. case prep of
         None \<Rightarrow> completeRefusal c (governance_unavailable (ic_id c)) (map_option rs_ref target)
       | Some (Awaiting r p) \<Rightarrow> withhold c p (map_option rs_ref target) Op_Awaiting r
       | Some (Withheld r p) \<Rightarrow> withhold c p (map_option rs_ref target) Op_Refused r
       | Some (Authorized p) \<Rightarrow> run_authorized js reg c gi p target))"

definition check_request :: "platform \<Rightarrow> registry \<Rightarrow> inv_context \<Rightarrow> resolved option \<Rightarrow> invocation_response prog" where
  "check_request js reg c target =
     (let d = ic_definition c; r = ic_request c; targetRef = map_option rs_ref target in
      case validateExpectedRevision d r target of
        Some refusal \<Rightarrow> completeRefusal c refusal targetRef
      | None \<Rightarrow>
        if op_schema_version r \<noteq> sc_version (od_input d)
        then completeRefusal c (schema_mismatch d r) (map_option identity_ref (request_target c))
        else Validate (sc_schema (od_input d)) (op_input r) (\<lambda>v. case v of
          None \<Rightarrow> Threw
        | Some (Invalid_Value issues) \<Rightarrow> completeRefusal c (input_invalid issues) targetRef
        | Some Valid_Value \<Rightarrow> evaluateAvailability d (en_authority (ic_environment c)) target (govern js reg c target)))"

definition resolve_target :: "platform \<Rightarrow> registry \<Rightarrow> inv_context \<Rightarrow> invocation_response prog" where
  "resolve_target js reg c =
     (let d = ic_definition c; refuse = (\<lambda>r. completeRefusal c r (map_option identity_ref (request_target c))) in
      if kind_of (auth_boundary (en_authority (ic_environment c))) \<notin> set (od_boundary_kinds d)
      then refuse (boundary_not_supported d (auth_boundary (en_authority (ic_environment c))))
      else if od_target_kinds d \<noteq> [] then
        (case request_target c of
          None \<Rightarrow> refuse (target_required d)
        | Some t \<Rightarrow>
          if res_kind t \<notin> set (od_target_kinds d) then refuse (target_invalid d t)
          else Resolve t (\<lambda>found. case found of
              None \<Rightarrow> Threw
            | Some None \<Rightarrow> refuse (target_not_found t)
            | Some (Some x) \<Rightarrow>
              if ref_kind (rs_ref x) \<noteq> res_kind t \<or> ref_id (rs_ref x) \<noteq> res_id t then refuse (target_not_found t)
              else check_request js reg c (Some x)))
      else if request_target c \<noteq> None then refuse (target_not_supported d)
      else check_request js reg c None)"

section \<open>Replays\<close>

text \<open>\<open>owner_pid\<close> reads the process id out of an owner id: the pattern \<^verbatim>\<open>^operation_owner_(\d+)_\<close>.\<close>

definition owner_prefix :: string where
  "owner_prefix = ''operation_owner_''"

definition owner_pid :: "string \<Rightarrow> nat option" where
  "owner_pid s = (if take (length owner_prefix) s \<noteq> owner_prefix then None
     else let rest = drop (length owner_prefix) s; ds = takeWhile digit_char rest; after = dropWhile digit_char rest
       in if ds = [] \<or> after = [] \<or> hd after \<noteq> CHR ''_'' then None else Some (decimal ds))"

definition ownerMayStillBeRunning :: "registry \<Rightarrow> string option \<Rightarrow> (bool \<Rightarrow> 'r prog) \<Rightarrow> 'r prog" where
  "ownerMayStillBeRunning reg owner k = (case owner of
      None \<Rightarrow> k False
    | Some s \<Rightarrow>
      if s = [] then k False else if s = rg_owner reg then k True
      else (case owner_pid s of
          None \<Rightarrow> k False
        | Some pid \<Rightarrow> if pid = 0 then k False else if pid = rg_pid reg then k True else Probe pid k))"

definition recovered_receipt :: "op_receipt \<Rightarrow> string \<Rightarrow> string \<Rightarrow> op_receipt" where
  "recovered_receipt r i t = r\<lparr>rc_state := Op_Unknown, rc_refusal := Some (ownership_lost i), rc_progress := None, rc_owner := None,
     rc_updated := t, rc_completed := Some t\<rparr>"

definition replay :: "registry \<Rightarrow> inv_context \<Rightarrow> op_receipt \<Rightarrow> invocation_response prog \<Rightarrow> invocation_response prog" where
  "replay reg c existing resume =
     (let gi = governance_invocation c (rc_provenance existing) None None (Some (rc_governance existing)) in
      if rc_state existing = Op_Running then
        ownerMayStillBeRunning reg (rc_owner existing) (\<lambda>running.
          if running then Done (Receipt True existing)
          else Recover gi existing (\<lambda>ok. if \<not> ok then Threw
            else Now (\<lambda>t. let recovered = recovered_receipt existing (ic_id c) t
              in Update (ic_ledger_key c) recovered (Done (Receipt True recovered)))))
      else if rc_state existing = Op_Unknown then Recover gi existing (\<lambda>_. Done (Receipt True existing))
      else if rc_state existing \<noteq> Op_Awaiting then Done (Receipt True existing)
      else resume)"

section \<open>Invocation\<close>

definition supplied_key :: "op_request \<Rightarrow> string option" where
  "supplied_key r = (case op_key r of None \<Rightarrow> None | Some k \<Rightarrow> if is_blank k then None else Some k)"

definition after_begin :: "platform \<Rightarrow> registry \<Rightarrow> inv_context \<Rightarrow> stored_invocation option \<Rightarrow> invocation_response prog" where
  "after_begin js reg c existing = (case existing of
      None \<Rightarrow> resolve_target js reg c
    | Some (dg, r) \<Rightarrow>
      if dg \<noteq> ic_digest c then Done (Conflict (key_reused r) r)
      else replay reg c r (resolve_target js reg (c\<lparr>ic_base := r, ic_prior := Some (rc_governance r), ic_provenance := rc_provenance r\<rparr>)))"

text \<open>The key an invocation runs under: a read without one gets a key of its own.\<close>

definition effective_key :: "string \<Rightarrow> op_request \<Rightarrow> string" where
  "effective_key fresh r = (case supplied_key r of None \<Rightarrow> ''read:'' @ fresh | Some k \<Rightarrow> k)"

definition start_context :: "platform \<Rightarrow> registry \<Rightarrow> environment \<Rightarrow> op_definition \<Rightarrow> string \<Rightarrow> op_request \<Rightarrow> string \<Rightarrow> inv_context" where
  "start_context js reg env d key invocation started =
     (let request = invocation\<lparr>op_key := Some key\<rparr>;
          lk = invocationLedgerKey js (en_authority env) (op_id request) key;
          dg = op_digest js (request_json request);
          i = invocationId js lk;
          running = running_receipt reg env d request key dg i started
      in \<lparr>ic_definition = d, ic_environment = env, ic_request = request, ic_key = key, ic_ledger_key = lk, ic_digest = dg, ic_id = i,
           ic_provenance = rc_provenance running, ic_prior = None, ic_base = running\<rparr>)"

definition invoke :: "platform \<Rightarrow> registry \<Rightarrow> environment \<Rightarrow> string \<Rightarrow> op_request \<Rightarrow> invocation_response prog" where
  "invoke js reg env fresh invocation = (case find_definition reg (op_id invocation) (op_version invocation) of
      None \<Rightarrow> Done (Rejected (version_not_found invocation))
    | Some d \<Rightarrow>
      if supplied_key invocation = None \<and> eff_mode (od_effects d) \<noteq> ''read'' then Done (Rejected key_required)
      else Now (\<lambda>started.
        let c = start_context js reg env d (effective_key fresh invocation) invocation started
        in Begin (ic_ledger_key c) (ic_digest c) (ic_base c) (after_begin js reg c)))"

section \<open>Discovery\<close>

text \<open>A descriptor is the published part of a definition with its availability.\<close>

type_synonym descriptor = "op_definition \<times> availability"

record projection_request =
  pj_authority :: authority_context
  pj_target :: "resolved option"
  pj_query :: "string option"
  pj_category :: "string option"

fun split_spaces :: "string \<Rightarrow> string \<Rightarrow> string list" where
  "split_spaces acc [] = [rev acc]"
| "split_spaces acc (c # cs) = (if is_js_space c then rev acc # split_spaces [] cs else split_spaces (c # acc) cs)"

definition query_tokens :: "string option \<Rightarrow> string list" where
  "query_tokens q = js_uniq (filter (\<lambda>t. 2 \<le> length t) (split_spaces [] (js_lower (case q of None \<Rightarrow> [] | Some s \<Rightarrow> s))))"

definition text_includes :: "string \<Rightarrow> string \<Rightarrow> bool" where
  "text_includes hay needle = list_ex (\<lambda>n. take (length needle) (drop n hay) = needle) [0..<Suc (length hay)]"

definition haystack :: "op_definition \<Rightarrow> string" where
  "haystack d = js_lower (od_id d @ '' '' @ od_category d @ '' '' @ od_title d @ '' '' @ od_description d)"

definition projected :: "projection_request \<Rightarrow> op_definition \<Rightarrow> bool" where
  "projected r d = (kind_of (auth_boundary (pj_authority r)) \<in> set (od_boundary_kinds d)
     \<and> (case pj_category r of None \<Rightarrow> True | Some c \<Rightarrow> c = [] \<or> js_lower (od_category d) = js_lower c)
     \<and> (case pj_target r of None \<Rightarrow> True | Some t \<Rightarrow> ref_kind (rs_ref t) \<in> set (od_target_kinds d))
     \<and> (query_tokens (pj_query r) = [] \<or> list_ex (text_includes (haystack d)) (query_tokens (pj_query r))))"

fun project_each :: "projection_request \<Rightarrow> op_definition list \<Rightarrow> (descriptor list \<Rightarrow> 'r prog) \<Rightarrow> 'r prog" where
  "project_each r [] k = k []"
| "project_each r (d # ds) k = (if projected r d
     then evaluateAvailability d (pj_authority r) (pj_target r) (\<lambda>a. project_each r ds (\<lambda>rest. k ((d, a) # rest)))
     else project_each r ds k)"

definition match_rank :: "string list \<Rightarrow> op_definition \<Rightarrow> nat list" where
  "match_rank ts d = (let i = js_lower (od_id d) in
     [if i = join ''.'' ts \<or> i = join '' '' ts then 1 else 0,
      length (filter (text_includes (haystack d)) ts), length (filter (text_includes i) ts), length (filter (text_includes (js_lower (od_title d))) ts)])"

fun rank_compare :: "nat list \<Rightarrow> nat list \<Rightarrow> int" where
  "rank_compare (l # ls) (r # rs) = (if int r - int l \<noteq> 0 then int r - int l else rank_compare ls rs)"
| "rank_compare _ _ = 0"

definition rank_descriptors :: "string list \<Rightarrow> descriptor list \<Rightarrow> descriptor list" where
  "rank_descriptors ts ds = (if ts = [] then ds else js_sort (\<lambda>l r. rank_compare (match_rank ts (fst l)) (match_rank ts (fst r))) ds)"

definition project :: "registry \<Rightarrow> projection_request \<Rightarrow> descriptor list prog" where
  "project reg r = project_each r (current_definitions reg) (\<lambda>ds. Done (rank_descriptors (query_tokens (pj_query r)) ds))"

end
