(* ===== verification/Invocation_Ledger.thy ===== *)
theory Invocation_Ledger
  imports Operation_Invocations
begin

text \<open>
  The ledger an invocation reserves itself in: the contract that \<^verbatim>\<open>operations.ts\<close> relies on as a
  locale, and its two implementations, the map of \<^verbatim>\<open>InMemoryOperationInvocationLedger\<close> and the table of
  \<^verbatim>\<open>floe-bus/src/operation-invocation-ledger-sqlite.ts\<close>. The receipt column is modelled by the receipt
  it encodes; a ledger operation is atomic.
\<close>

section \<open>The contract\<close>

datatype ledger_error = Not_Reserved string string | Not_Recovered

locale invocation_ledger =
  fixes begin' :: "string \<Rightarrow> string \<Rightarrow> op_receipt \<Rightarrow> 's \<Rightarrow> (ledger_error, stored_invocation option \<times> 's) result"
    and update' :: "string \<Rightarrow> op_receipt \<Rightarrow> 's \<Rightarrow> (ledger_error, 's) result"
    and stored :: "'s \<Rightarrow> string \<Rightarrow> stored_invocation option"
    and ok :: "'s \<Rightarrow> bool"
  assumes begin_reserves: "ok s \<Longrightarrow> begin' k d r s = Inr (None, s') \<Longrightarrow> ok s' \<and> stored s k = None \<and> stored s' = (stored s)(k \<mapsto> (d, r))"
    and begin_finds: "ok s \<Longrightarrow> begin' k d r s = Inr (Some e, s') \<Longrightarrow> s' = s \<and> stored s k = Some e"
    and update_replaces: "ok s \<Longrightarrow> update' k r s = Inr s' \<Longrightarrow>
      ok s' \<and> (\<exists>d r0. stored s k = Some (d, r0) \<and> rc_invocation_id r0 = rc_invocation_id r \<and> stored s' = (stored s)(k \<mapsto> (d, r)))"
    and update_accepts: "ok s \<Longrightarrow> stored s k = Some (d, r0) \<Longrightarrow> rc_invocation_id r0 = rc_invocation_id r \<Longrightarrow> \<exists>s'. update' k r s = Inr s'"

section \<open>In memory\<close>

type_synonym memory_ledger = "(string \<times> stored_invocation) list"

definition memory_begin :: "string \<Rightarrow> string \<Rightarrow> op_receipt \<Rightarrow> memory_ledger \<Rightarrow> (ledger_error, stored_invocation option \<times> memory_ledger) result" where
  "memory_begin k d r m = (case map_of m k of Some e \<Rightarrow> Inr (Some e, m) | None \<Rightarrow> Inr (None, map_put k (d, r) m))"

definition memory_update :: "string \<Rightarrow> op_receipt \<Rightarrow> memory_ledger \<Rightarrow> (ledger_error, memory_ledger) result" where
  "memory_update k r m = (case map_of m k of
      None \<Rightarrow> Inl (Not_Reserved k (rc_invocation_id r))
    | Some (d, r0) \<Rightarrow> throw_if (rc_invocation_id r0 \<noteq> rc_invocation_id r) (Not_Reserved k (rc_invocation_id r)) (Inr (map_put k (d, r) m)))"

lemma map_of_map_put: "map_of (map_put k v m) = (map_of m)(k \<mapsto> v)"
  by (induction m) auto

interpretation memory: invocation_ledger memory_begin memory_update map_of "\<lambda>_. True"
  by unfold_locales (auto simp: memory_begin_def memory_update_def map_of_map_put throw_if_def split: option.splits if_splits)

section \<open>SQLite\<close>

record ledger_row =
  lr_key :: string
  lr_digest :: string
  lr_receipt_id :: string
  lr_invocation_id :: string
  lr_receipt :: op_receipt

text \<open>
  \<^verbatim>\<open>INSERT OR IGNORE\<close> skips a row that repeats the primary key or a unique column or fails a check;
  \<^verbatim>\<open>boundary_id\<close> must hold more than spaces.
\<close>

definition ledger_ignores :: "string \<Rightarrow> op_receipt \<Rightarrow> ledger_row list \<Rightarrow> bool" where
  "ledger_ignores k r rows = (list_ex (\<lambda>x. lr_key x = k \<or> lr_receipt_id x = rc_receipt_id r \<or> lr_invocation_id x = rc_invocation_id r) rows
     \<or> list_all (\<lambda>c. c = CHR '' '') (boundaryId (rc_boundary r)))"

definition getByLedgerKey :: "string \<Rightarrow> ledger_row list \<Rightarrow> stored_invocation option" where
  "getByLedgerKey k rows = map_option (\<lambda>x. (lr_digest x, lr_receipt x)) (row_where (\<lambda>x. lr_key x = k) rows)"

definition sqlite_begin :: "string \<Rightarrow> string \<Rightarrow> op_receipt \<Rightarrow> ledger_row list \<Rightarrow> (ledger_error, stored_invocation option \<times> ledger_row list) result" where
  "sqlite_begin k d r rows =
     (if \<not> ledger_ignores k r rows
      then Inr (None, rows @ [\<lparr>lr_key = k, lr_digest = d, lr_receipt_id = rc_receipt_id r, lr_invocation_id = rc_invocation_id r, lr_receipt = r\<rparr>])
      else case getByLedgerKey k rows of None \<Rightarrow> Inl Not_Recovered | Some e \<Rightarrow> Inr (Some e, rows))"

definition sqlite_update :: "string \<Rightarrow> op_receipt \<Rightarrow> ledger_row list \<Rightarrow> (ledger_error, ledger_row list) result" where
  "sqlite_update k r rows = (let hit = (\<lambda>x. lr_key x = k \<and> lr_invocation_id x = rc_invocation_id r) in
     throw_if (length (filter hit rows) \<noteq> 1) (Not_Reserved k (rc_invocation_id r)) (Inr (set_where hit (\<lambda>x. x\<lparr>lr_receipt := r\<rparr>) rows)))"

definition getByReceiptId :: "string \<Rightarrow> ledger_row list \<Rightarrow> op_receipt option" where
  "getByReceiptId i rows = map_option lr_receipt (row_where (\<lambda>x. lr_receipt_id x = i) rows)"

definition getByInvocationId :: "string \<Rightarrow> ledger_row list \<Rightarrow> op_receipt option" where
  "getByInvocationId i rows = map_option lr_receipt (row_where (\<lambda>x. lr_invocation_id x = i) rows)"

text \<open>The invariant of the table: its unique columns, which also name what the receipts say.\<close>

definition ledger_inv :: "ledger_row list \<Rightarrow> bool" where
  "ledger_inv rows \<longleftrightarrow> distinct (map lr_key rows) \<and> distinct (map lr_receipt_id rows) \<and> distinct (map lr_invocation_id rows)
     \<and> (\<forall>x \<in> set rows. lr_invocation_id x = rc_invocation_id (lr_receipt x))"

lemma stored_append: "getByLedgerKey j (rows @ [x]) = (case getByLedgerKey j rows of None \<Rightarrow> if lr_key x = j then Some (lr_digest x, lr_receipt x) else None | e \<Rightarrow> e)"
  by (simp add: getByLedgerKey_def row_where_append split: option.split)

lemma ledger_hit:
  assumes inv: "ledger_inv rows" and one: "length (filter (\<lambda>x. lr_key x = k \<and> lr_invocation_id x = i) rows) = 1"
  obtains x where "x \<in> set rows" "lr_key x = k" "lr_invocation_id x = i" "row_where (\<lambda>x. lr_key x = k) rows = Some x"
proof -
  from one obtain x where "filter (\<lambda>x. lr_key x = k \<and> lr_invocation_id x = i) rows = [x]" by (auto simp: length_Suc_conv)
  then have "x \<in> set (filter (\<lambda>x. lr_key x = k \<and> lr_invocation_id x = i) rows)" by simp
  then have x: "x \<in> set rows" "lr_key x = k" "lr_invocation_id x = i" by auto
  moreover have "row_where (\<lambda>y. lr_key y = lr_key x) rows = Some x"
    using inv x(1) by (intro row_where_key) (simp_all add: ledger_inv_def)
  ultimately show thesis using that by simp
qed

lemma single_hit:
  assumes inv: "ledger_inv rows" and x: "x \<in> set rows"
  shows "filter (\<lambda>y. lr_key y = lr_key x \<and> lr_invocation_id y = lr_invocation_id x) rows = [x]"
proof -
  have "distinct (map lr_key rows)" using inv by (simp add: ledger_inv_def)
  then show ?thesis using x
  proof (induction rows)
    case (Cons y ys)
    then show ?case
    proof (cases "y = x")
      case True
      with Cons.prems have "filter (\<lambda>y. lr_key y = lr_key x \<and> lr_invocation_id y = lr_invocation_id x) ys = []"
        by (auto simp: filter_empty_conv image_iff)
      with True show ?thesis by simp
    next
      case False
      with Cons.prems have "lr_key y \<noteq> lr_key x" by auto
      with False Cons show ?thesis by auto
    qed
  qed simp
qed

lemma update_stored:
  assumes x: "row_where (\<lambda>x. lr_key x = k) rows = Some x" "lr_invocation_id x = rc_invocation_id r"
  shows "(\<lambda>j. getByLedgerKey j (set_where (\<lambda>x. lr_key x = k \<and> lr_invocation_id x = rc_invocation_id r) (\<lambda>x. x\<lparr>lr_receipt := r\<rparr>) rows))
    = (\<lambda>j. getByLedgerKey j rows)(k \<mapsto> (lr_digest x, r))"
proof (rule ext)
  fix j
  let ?hit = "\<lambda>x. lr_key x = k \<and> lr_invocation_id x = rc_invocation_id r"
  have s: "row_where (\<lambda>x. lr_key x = j) (set_where ?hit (\<lambda>x. x\<lparr>lr_receipt := r\<rparr>) rows)
      = map_option (\<lambda>x. if ?hit x then x\<lparr>lr_receipt := r\<rparr> else x) (row_where (\<lambda>x. lr_key x = j) rows)"
    by (rule row_where_set_where) simp
  show "getByLedgerKey j (set_where ?hit (\<lambda>x. x\<lparr>lr_receipt := r\<rparr>) rows) = ((\<lambda>j. getByLedgerKey j rows)(k \<mapsto> (lr_digest x, r))) j"
  proof (cases "j = k")
    case True
    have "lr_key x = k" using row_where_SomeD [OF x(1)] by blast
    with True x show ?thesis unfolding getByLedgerKey_def s by simp
  next
    case False
    show ?thesis
    proof (cases "row_where (\<lambda>x. lr_key x = j) rows")
      case (Some y)
      then have "lr_key y \<noteq> k" using False by (auto dest: row_where_SomeD)
      with Some False show ?thesis unfolding getByLedgerKey_def s by simp
    qed (use False in \<open>simp add: getByLedgerKey_def s\<close>)
  qed
qed

lemma update_inv: "ledger_inv rows \<Longrightarrow> ledger_inv (set_where (\<lambda>x. lr_key x = k \<and> lr_invocation_id x = rc_invocation_id r) (\<lambda>x. x\<lparr>lr_receipt := r\<rparr>) rows)"
  by (auto simp: ledger_inv_def map_set_where in_set_where split: if_splits)

interpretation sqlite: invocation_ledger sqlite_begin sqlite_update "\<lambda>rows k. getByLedgerKey k rows" ledger_inv
proof
  fix rows k d r s'
  assume inv: "ledger_inv rows" and b: "sqlite_begin k d r rows = Inr (None, s')"
  from b have new: "\<not> ledger_ignores k r rows"
    and s': "s' = rows @ [\<lparr>lr_key = k, lr_digest = d, lr_receipt_id = rc_receipt_id r, lr_invocation_id = rc_invocation_id r, lr_receipt = r\<rparr>]"
    by (auto simp: sqlite_begin_def split: if_splits option.splits)
  have none: "getByLedgerKey k rows = None" using new by (auto simp: ledger_ignores_def getByLedgerKey_def row_where_None_iff list_ex_iff)
  then show "ledger_inv s' \<and> getByLedgerKey k rows = None \<and> (\<lambda>j. getByLedgerKey j s') = (\<lambda>j. getByLedgerKey j rows)(k \<mapsto> (d, r))"
    using inv new unfolding s' by (auto simp: ledger_inv_def ledger_ignores_def list_ex_iff stored_append split: option.splits)
next
  fix rows k d r e s'
  assume "ledger_inv rows" and "sqlite_begin k d r rows = Inr (Some e, s')"
  then show "s' = rows \<and> getByLedgerKey k rows = Some e" by (auto simp: sqlite_begin_def split: if_splits option.splits)
next
  fix rows k s' and r :: op_receipt
  assume inv: "ledger_inv rows" and u: "sqlite_update k r rows = Inr s'"
  let ?hit = "\<lambda>x. lr_key x = k \<and> lr_invocation_id x = rc_invocation_id r"
  from u have one: "length (filter ?hit rows) = 1" and s': "s' = set_where ?hit (\<lambda>x. x\<lparr>lr_receipt := r\<rparr>) rows"
    by (simp_all add: sqlite_update_def Let_def throw_if_Inr_iff)
  from ledger_hit [OF inv one] obtain x where x: "x \<in> set rows" "lr_invocation_id x = rc_invocation_id r" "row_where (\<lambda>x. lr_key x = k) rows = Some x" .
  have "getByLedgerKey k rows = Some (lr_digest x, lr_receipt x)" using x(3) by (simp add: getByLedgerKey_def)
  moreover have "rc_invocation_id (lr_receipt x) = rc_invocation_id r" using inv x by (simp add: ledger_inv_def)
  ultimately show "ledger_inv s' \<and> (\<exists>d r0. getByLedgerKey k rows = Some (d, r0) \<and> rc_invocation_id r0 = rc_invocation_id r
      \<and> (\<lambda>j. getByLedgerKey j s') = (\<lambda>j. getByLedgerKey j rows)(k \<mapsto> (d, r)))"
    unfolding s' using update_inv [OF inv] update_stored [OF x(3,2)] by blast
next
  fix rows k d and r0 r :: op_receipt
  assume inv: "ledger_inv rows" and "getByLedgerKey k rows = Some (d, r0)" and i: "rc_invocation_id r0 = rc_invocation_id r"
  then obtain x where x: "row_where (\<lambda>x. lr_key x = k) rows = Some x" "lr_receipt x = r0" by (auto simp: getByLedgerKey_def)
  then have xs: "x \<in> set rows" "lr_key x = k" by (blast dest: row_where_SomeD)+
  then have "lr_invocation_id x = rc_invocation_id r" using inv x(2) i by (simp add: ledger_inv_def)
  with single_hit [OF inv xs(1)] xs(2) show "\<exists>s'. sqlite_update k r rows = Inr s'" by (simp add: sqlite_update_def Let_def throw_if_def)
qed

end
