(* ===== verification/Operation_Runs.thy ===== *)
theory Operation_Runs
  imports Invocation_Ledger
begin

text \<open>
  Invocations at work: many runs of \<^verbatim>\<open>invoke\<close>, of several registries, over one ledger, interleaved at
  every call; and one run on its own with given answers of its dependencies. How often a handler is
  entered is read off the log of a bus.
\<close>

section \<open>Events\<close>

datatype event = Reserved string | Resumed string | Authorised string | Handled string

text \<open>The ledger key of an invocation, from what governance and the handler are told of it.\<close>

definition gov_key :: "platform \<Rightarrow> gov_invocation \<Rightarrow> string" where
  "gov_key js gi = invocationLedgerKey js (gi_authority gi) (op_id (gi_request gi)) (case op_key (gi_request gi) of None \<Rightarrow> [] | Some k \<Rightarrow> k)"

definition exec_key :: "platform \<Rightarrow> op_definition \<Rightarrow> exec_context \<Rightarrow> string" where
  "exec_key js d ec = invocationLedgerKey js (ec_authority ec) (od_id d) (ec_key ec)"

definition begin_events :: "string \<Rightarrow> string \<Rightarrow> stored_invocation option \<Rightarrow> event list" where
  "begin_events k dg e = (case e of None \<Rightarrow> [Reserved k] | Some (d, r) \<Rightarrow> if d = dg \<and> rc_state r = Op_Awaiting then [Resumed k] else [])"

definition prepare_events :: "platform \<Rightarrow> gov_invocation \<Rightarrow> preparation option \<Rightarrow> event list" where
  "prepare_events js gi a = (case a of Some (Authorized _) \<Rightarrow> [Authorised (gov_key js gi)] | _ \<Rightarrow> [])"

section \<open>The bus\<close>

record 's bus =
  bus_ledger :: 's
  bus_runs :: "invocation_response prog list"
  bus_log :: "event list"

definition put_run :: "nat \<Rightarrow> invocation_response prog \<Rightarrow> 's bus \<Rightarrow> 's bus" where
  "put_run i p b = b\<lparr>bus_runs := (bus_runs b)[i := p]\<rparr>"

definition log_events :: "event list \<Rightarrow> 's bus \<Rightarrow> 's bus" where
  "log_events es b = b\<lparr>bus_log := bus_log b @ es\<rparr>"

text \<open>
  One step: a new run, or one call of one run. The dependencies other than the ledger may give any
  answer. A run may be lost at any moment; when its handler was entered that is logged.
\<close>

inductive bus_step ::
  "platform \<Rightarrow> (string \<Rightarrow> string \<Rightarrow> op_receipt \<Rightarrow> 's \<Rightarrow> (ledger_error, stored_invocation option \<times> 's) result)
    \<Rightarrow> (string \<Rightarrow> op_receipt \<Rightarrow> 's \<Rightarrow> (ledger_error, 's) result) \<Rightarrow> 's bus \<Rightarrow> 's bus \<Rightarrow> bool" for js B U where
  start: "bus_step js B U b (b\<lparr>bus_runs := bus_runs b @ [invoke js reg env fresh request]\<rparr>)"
| lost: "i < length (bus_runs b) \<Longrightarrow> bus_step js B U b (put_run i Threw b)"
| now: "i < length (bus_runs b) \<Longrightarrow> bus_runs b ! i = Now f \<Longrightarrow> bus_step js B U b (put_run i (f t) b)"
| probe: "i < length (bus_runs b) \<Longrightarrow> bus_runs b ! i = Probe pid f \<Longrightarrow> bus_step js B U b (put_run i (f alive) b)"
| begin_ok: "i < length (bus_runs b) \<Longrightarrow> bus_runs b ! i = Begin k d r f \<Longrightarrow> B k d r (bus_ledger b) = Inr (e, s) \<Longrightarrow>
    bus_step js B U b (log_events (begin_events k d e) (put_run i (f e) (b\<lparr>bus_ledger := s\<rparr>)))"
| begin_throws: "i < length (bus_runs b) \<Longrightarrow> bus_runs b ! i = Begin k d r f \<Longrightarrow> B k d r (bus_ledger b) = Inl err \<Longrightarrow> bus_step js B U b (put_run i Threw b)"
| update_ok: "i < length (bus_runs b) \<Longrightarrow> bus_runs b ! i = Update k r p \<Longrightarrow> U k r (bus_ledger b) = Inr s \<Longrightarrow>
    bus_step js B U b (put_run i p (b\<lparr>bus_ledger := s\<rparr>))"
| update_throws: "i < length (bus_runs b) \<Longrightarrow> bus_runs b ! i = Update k r p \<Longrightarrow> U k r (bus_ledger b) = Inl err \<Longrightarrow> bus_step js B U b (put_run i Threw b)"
| validate: "i < length (bus_runs b) \<Longrightarrow> bus_runs b ! i = Validate sc v vf \<Longrightarrow> bus_step js B U b (put_run i (vf va) b)"
| resolve: "i < length (bus_runs b) \<Longrightarrow> bus_runs b ! i = Resolve t f \<Longrightarrow> bus_step js B U b (put_run i (f a) b)"
| check: "i < length (bus_runs b) \<Longrightarrow> bus_runs b ! i = Check d auth t g \<Longrightarrow> bus_step js B U b (put_run i (g av) b)"
| prepare: "i < length (bus_runs b) \<Longrightarrow> bus_runs b ! i = Prepare gi h \<Longrightarrow> bus_step js B U b (log_events (prepare_events js gi pa) (put_run i (h pa) b))"
| recover: "i < length (bus_runs b) \<Longrightarrow> bus_runs b ! i = Recover gi r f' \<Longrightarrow> bus_step js B U b (put_run i (f' done') b)"
| handle: "i < length (bus_runs b) \<Longrightarrow> bus_runs b ! i = Handle d ec x hf \<Longrightarrow> bus_step js B U b (log_events [Handled (exec_key js d ec)] (put_run i (hf out) b))"
| handle_lost: "i < length (bus_runs b) \<Longrightarrow> bus_runs b ! i = Handle d ec x hf \<Longrightarrow> bus_step js B U b (log_events [Handled (exec_key js d ec)] (put_run i Threw b))"
| measure: "i < length (bus_runs b) \<Longrightarrow> bus_runs b ! i = Measure d auth t x y mf \<Longrightarrow> bus_step js B U b (put_run i (mf us) b)"
| settle: "i < length (bus_runs b) \<Longrightarrow> bus_runs b ! i = Settle gi st f' \<Longrightarrow> bus_step js B U b (put_run i (f' done') b)"

section \<open>Paying for events\<close>

text \<open>
  An accounting for the events of a run: \<open>c\<close> is what an event earns and \<open>w\<close> what it costs. A run is
  \<open>funded\<close> with a balance when it never spends more than it has, whatever it is answered.
\<close>

definition pays :: "(event \<Rightarrow> nat) \<Rightarrow> (event \<Rightarrow> nat) \<Rightarrow> event list \<Rightarrow> nat \<Rightarrow> (nat \<Rightarrow> bool) \<Rightarrow> bool" where
  "pays c w es n k \<longleftrightarrow> sum_list (map w es) \<le> n + sum_list (map c es) \<and> k (n + sum_list (map c es) - sum_list (map w es))"

primrec funded :: "platform \<Rightarrow> (event \<Rightarrow> nat) \<Rightarrow> (event \<Rightarrow> nat) \<Rightarrow> 'r prog \<Rightarrow> nat \<Rightarrow> bool" where
  "funded js c w (Done r) n \<longleftrightarrow> True"
| "funded js c w Threw n \<longleftrightarrow> True"
| "funded js c w (Now f) n \<longleftrightarrow> (\<forall>t. funded js c w (f t) n)"
| "funded js c w (Probe p f) n \<longleftrightarrow> (\<forall>a. funded js c w (f a) n)"
| "funded js c w (Begin k d r f) n \<longleftrightarrow> (\<forall>e. pays c w (begin_events k d e) n (funded js c w (f e)))"
| "funded js c w (Update k r p) n \<longleftrightarrow> funded js c w p n"
| "funded js c w (Validate sc v f) n \<longleftrightarrow> (\<forall>a. funded js c w (f a) n)"
| "funded js c w (Resolve t f) n \<longleftrightarrow> (\<forall>a. funded js c w (f a) n)"
| "funded js c w (Check d auth t f) n \<longleftrightarrow> (\<forall>a. funded js c w (f a) n)"
| "funded js c w (Prepare gi f) n \<longleftrightarrow> (\<forall>a. pays c w (prepare_events js gi a) n (funded js c w (f a)))"
| "funded js c w (Recover gi r f) n \<longleftrightarrow> (\<forall>a. funded js c w (f a) n)"
| "funded js c w (Handle d ec x f) n \<longleftrightarrow> (\<forall>a. pays c w [Handled (exec_key js d ec)] n (funded js c w (f a)))"
| "funded js c w (Measure d auth t x y f) n \<longleftrightarrow> (\<forall>a. funded js c w (f a) n)"
| "funded js c w (Settle gi st f) n \<longleftrightarrow> (\<forall>a. funded js c w (f a) n)"

definition balanced :: "platform \<Rightarrow> (event \<Rightarrow> nat) \<Rightarrow> (event \<Rightarrow> nat) \<Rightarrow> 's bus \<Rightarrow> bool" where
  "balanced js c w b \<longleftrightarrow> (\<exists>ns. list_all2 (funded js c w) (bus_runs b) ns
     \<and> sum_list (map w (bus_log b)) + sum_list ns \<le> sum_list (map c (bus_log b)))"

lemma sum_list_update: "i < length ns \<Longrightarrow> sum_list (ns[i := m]) + ns ! i = sum_list ns + (m :: nat)"
  by (induction ns arbitrary: i) (auto split: nat.splits)

lemma balanced_put:
  assumes b: "balanced js c w b" and i: "i < length (bus_runs b)"
    and pay: "\<And>n. funded js c w (bus_runs b ! i) n \<Longrightarrow> pays c w es n (funded js c w p)"
  shows "balanced js c w (log_events es (put_run i p b))"
proof -
  from b obtain ns where ns: "list_all2 (funded js c w) (bus_runs b) ns" "sum_list (map w (bus_log b)) + sum_list ns \<le> sum_list (map c (bus_log b))"
    by (auto simp: balanced_def)
  have len: "i < length ns" using ns(1) i by (simp add: list_all2_lengthD)
  have "funded js c w (bus_runs b ! i) (ns ! i)" using ns(1) i by (rule list_all2_nthD)
  from pay [OF this] have p: "sum_list (map w es) \<le> ns ! i + sum_list (map c es)" "funded js c w p (ns ! i + sum_list (map c es) - sum_list (map w es))"
    by (simp_all add: pays_def)
  let ?m = "ns ! i + sum_list (map c es) - sum_list (map w es)"
  have "list_all2 (funded js c w) ((bus_runs b)[i := p]) (ns[i := ?m])" using ns(1) p(2) by (rule list_all2_update_cong)
  moreover have "sum_list (map w (bus_log b @ es)) + sum_list (ns[i := ?m]) \<le> sum_list (map c (bus_log b @ es))"
    using sum_list_update [OF len, of ?m] ns(2) p(1) by simp
  ultimately show ?thesis unfolding balanced_def log_events_def put_run_def by auto
qed

lemma balanced_ledger [simp]: "balanced js c w (b\<lparr>bus_ledger := s\<rparr>) = balanced js c w b"
  by (simp add: balanced_def)

lemma log_none: "log_events [] b = b"
  by (simp add: log_events_def)

lemma pays_none: "pays c w [] n k = k n"
  by (simp add: pays_def)

lemma balanced_quiet:
  assumes "balanced js c w b" and "i < length (bus_runs b)" and "\<And>n. funded js c w (bus_runs b ! i) n \<Longrightarrow> funded js c w p n"
  shows "balanced js c w (put_run i p b)"
  using balanced_put [OF assms(1,2), of "[]" p] assms(3) by (simp add: log_none pays_none)

lemma balanced_put':
  assumes "balanced js c w b" and "i < length (bus_runs b)" and "\<And>n. funded js c w (bus_runs b ! i) n \<Longrightarrow> pays c w es n (funded js c w p)"
  shows "balanced js c w (log_events es (put_run i p (b\<lparr>bus_ledger := s\<rparr>)))"
  using assms by (intro balanced_put) simp_all

theorem balanced_step:
  assumes "bus_step js B U b b'" and "balanced js c w b"
    and fresh: "\<And>reg env u request. funded js c w (invoke js reg env u request) 0"
  shows "balanced js c w b'"
  using assms(1,2)
proof (induction rule: bus_step.induct)
  case (start b reg env u request)
  then obtain ns where "list_all2 (funded js c w) (bus_runs b) ns" "sum_list (map w (bus_log b)) + sum_list ns \<le> sum_list (map c (bus_log b))"
    by (auto simp: balanced_def)
  with fresh show ?case unfolding balanced_def by (intro exI [of _ "ns @ [0]"]) (simp add: list_all2_appendI)
next
  case (handle_lost i b d ec x hf)
  from handle_lost(3,1) show ?case by (rule balanced_put) (simp add: handle_lost(2) pays_def)
qed (auto intro!: balanced_quiet balanced_put balanced_put' simp: pays_none)

lemma balanced_run:
  assumes "(bus_step js B U)\<^sup>*\<^sup>* b b'" and "balanced js c w b" and "\<And>reg env u request. funded js c w (invoke js reg env u request) 0"
  shows "balanced js c w b'"
  using assms(1) by (induction rule: rtranclp_induct) (use assms(2) balanced_step assms(3) in blast)+

section \<open>One run on its own\<close>

text \<open>What the dependencies answer, by the number of calls made before; \<open>perform\<close> runs a program to its end.\<close>

record services =
  sv_now :: "nat \<Rightarrow> string"
  sv_alive :: "nat \<Rightarrow> nat \<Rightarrow> bool"
  sv_validate :: "nat \<Rightarrow> json \<Rightarrow> json \<Rightarrow> validation option"
  sv_resolve :: "nat \<Rightarrow> resource_identity \<Rightarrow> resolved option option"
  sv_check :: "nat \<Rightarrow> op_definition \<Rightarrow> authority_context \<Rightarrow> resolved option \<Rightarrow> availability option"
  sv_prepare :: "nat \<Rightarrow> gov_invocation \<Rightarrow> preparation option"
  sv_recover :: "nat \<Rightarrow> gov_invocation \<Rightarrow> op_receipt \<Rightarrow> bool"
  sv_handle :: "nat \<Rightarrow> op_definition \<Rightarrow> exec_context \<Rightarrow> json \<Rightarrow> outcome option"
  sv_measure :: "nat \<Rightarrow> op_definition \<Rightarrow> authority_context \<Rightarrow> resolved option \<Rightarrow> json \<Rightarrow> json \<Rightarrow> usage option"
  sv_settle :: "nat \<Rightarrow> gov_invocation \<Rightarrow> settlement \<Rightarrow> bool"

primrec perform ::
  "platform \<Rightarrow> (string \<Rightarrow> string \<Rightarrow> op_receipt \<Rightarrow> 's \<Rightarrow> (ledger_error, stored_invocation option \<times> 's) result)
    \<Rightarrow> (string \<Rightarrow> op_receipt \<Rightarrow> 's \<Rightarrow> (ledger_error, 's) result) \<Rightarrow> services \<Rightarrow> 'r prog \<Rightarrow> nat \<Rightarrow> 's \<Rightarrow> event list
    \<Rightarrow> 'r option \<times> 's \<times> event list" where
  "perform js B U sv (Done r) n s l = (Some r, s, l)"
| "perform js B U sv Threw n s l = (None, s, l)"
| "perform js B U sv (Now f) n s l = perform js B U sv (f (sv_now sv n)) (Suc n) s l"
| "perform js B U sv (Probe pid f) n s l = perform js B U sv (f (sv_alive sv n pid)) (Suc n) s l"
| "perform js B U sv (Begin k d r f) n s l = (case B k d r s of Inl _ \<Rightarrow> (None, s, l)
     | Inr (e, s') \<Rightarrow> perform js B U sv (f e) (Suc n) s' (l @ begin_events k d e))"
| "perform js B U sv (Update k r p) n s l = (case U k r s of Inl _ \<Rightarrow> (None, s, l) | Inr s' \<Rightarrow> perform js B U sv p (Suc n) s' l)"
| "perform js B U sv (Validate sc v f) n s l = perform js B U sv (f (sv_validate sv n sc v)) (Suc n) s l"
| "perform js B U sv (Resolve t f) n s l = perform js B U sv (f (sv_resolve sv n t)) (Suc n) s l"
| "perform js B U sv (Check d auth t f) n s l = perform js B U sv (f (sv_check sv n d auth t)) (Suc n) s l"
| "perform js B U sv (Prepare gi f) n s l =
     perform js B U sv (f (sv_prepare sv n gi)) (Suc n) s (l @ prepare_events js gi (sv_prepare sv n gi))"
| "perform js B U sv (Recover gi r f) n s l = perform js B U sv (f (sv_recover sv n gi r)) (Suc n) s l"
| "perform js B U sv (Handle d ec x f) n s l = perform js B U sv (f (sv_handle sv n d ec x)) (Suc n) s (l @ [Handled (exec_key js d ec)])"
| "perform js B U sv (Measure d auth t x y f) n s l = perform js B U sv (f (sv_measure sv n d auth t x y)) (Suc n) s l"
| "perform js B U sv (Settle gi st f) n s l = perform js B U sv (f (sv_settle sv n gi st)) (Suc n) s l"

text \<open>A run on its own is a run of the bus in which no other run takes a step.\<close>

definition ends_as :: "invocation_response option \<Rightarrow> invocation_response prog" where
  "ends_as r = (case r of None \<Rightarrow> Threw | Some x \<Rightarrow> Done x)"

lemma step_then:
  assumes "bus_step js B U \<lparr>bus_ledger = s, bus_runs = ps, bus_log = l\<rparr> \<lparr>bus_ledger = s1, bus_runs = ps[i := q], bus_log = l1\<rparr>"
    and "(bus_step js B U)\<^sup>*\<^sup>* \<lparr>bus_ledger = s1, bus_runs = ps[i := q], bus_log = l1\<rparr> \<lparr>bus_ledger = s2, bus_runs = (ps[i := q])[i := e], bus_log = l2\<rparr>"
  shows "(bus_step js B U)\<^sup>*\<^sup>* \<lparr>bus_ledger = s, bus_runs = ps, bus_log = l\<rparr> \<lparr>bus_ledger = s2, bus_runs = ps[i := e], bus_log = l2\<rparr>"
  using assms by (simp add: converse_rtranclp_into_rtranclp)

lemma perform_on_bus:
  assumes "i < length ps" and "ps ! i = p" and "perform js B U sv p n s l = (r, s', l')"
  shows "(bus_step js B U)\<^sup>*\<^sup>* \<lparr>bus_ledger = s, bus_runs = ps, bus_log = l\<rparr> \<lparr>bus_ledger = s', bus_runs = ps[i := ends_as r], bus_log = l'\<rparr>"
  using assms
proof (induction p arbitrary: ps n s l)
  case (Done x)
  then have "ps[i := ends_as r] = ps" by (auto simp: ends_as_def intro: list_update_same_conv [THEN iffD2])
  with Done show ?case by simp
next
  case Threw
  then have "ps[i := ends_as r] = ps" by (auto simp: ends_as_def intro: list_update_same_conv [THEN iffD2])
  with Threw show ?case by simp
next
  case (Now f)
  show ?case
    by (rule step_then [OF _ Now.IH [of "f (sv_now sv n)" "ps[i := f (sv_now sv n)]" "Suc n" s l]])
      (use Now.prems bus_step.now [of i "\<lparr>bus_ledger = s, bus_runs = ps, bus_log = l\<rparr>" f js B U "sv_now sv n"] in \<open>simp_all add: put_run_def\<close>)
next
  case (Probe pid f)
  show ?case
    by (rule step_then [OF _ Probe.IH [of "f (sv_alive sv n pid)" "ps[i := f (sv_alive sv n pid)]" "Suc n" s l]])
      (use Probe.prems bus_step.probe [of i "\<lparr>bus_ledger = s, bus_runs = ps, bus_log = l\<rparr>" pid f js B U "sv_alive sv n pid"] in \<open>simp_all add: put_run_def\<close>)
next
  case (Begin k d rc f)
  show ?case
  proof (cases "B k d rc s")
    case (Inl err)
    then have "bus_step js B U \<lparr>bus_ledger = s, bus_runs = ps, bus_log = l\<rparr> (put_run i Threw \<lparr>bus_ledger = s, bus_runs = ps, bus_log = l\<rparr>)"
      using Begin.prems by (intro bus_step.begin_throws) simp_all
    then show ?thesis using Inl Begin.prems by (auto simp: put_run_def ends_as_def)
  next
    case (Inr es)
    obtain e s1 where es: "es = (e, s1)" by (cases es)
    have "bus_step js B U \<lparr>bus_ledger = s, bus_runs = ps, bus_log = l\<rparr> (log_events (begin_events k d e) (put_run i (f e) (\<lparr>bus_ledger = s, bus_runs = ps, bus_log = l\<rparr>\<lparr>bus_ledger := s1\<rparr>)))"
      using Begin.prems Inr es by (intro bus_step.begin_ok) simp_all
    then show ?thesis
      using Begin.prems Inr es
      by (intro step_then [OF _ Begin.IH [of "f e" "ps[i := f e]" "Suc n" s1 "l @ begin_events k d e"]]) (simp_all add: put_run_def log_events_def)
  qed
next
  case (Update k rc p)
  show ?case
  proof (cases "U k rc s")
    case (Inl err)
    then have "bus_step js B U \<lparr>bus_ledger = s, bus_runs = ps, bus_log = l\<rparr> (put_run i Threw \<lparr>bus_ledger = s, bus_runs = ps, bus_log = l\<rparr>)"
      using Update.prems by (intro bus_step.update_throws) simp_all
    then show ?thesis using Inl Update.prems by (auto simp: put_run_def ends_as_def)
  next
    case (Inr s1)
    have "bus_step js B U \<lparr>bus_ledger = s, bus_runs = ps, bus_log = l\<rparr> (put_run i p (\<lparr>bus_ledger = s, bus_runs = ps, bus_log = l\<rparr>\<lparr>bus_ledger := s1\<rparr>))"
      using Update.prems Inr by (intro bus_step.update_ok) simp_all
    then show ?thesis
      using Update.prems Inr by (intro step_then [OF _ Update.IH [of "ps[i := p]" "Suc n" s1 l]]) (simp_all add: put_run_def)
  qed
next
  case (Validate sc v f)
  let ?a = "sv_validate sv n sc v"
  show ?case
    by (rule step_then [OF _ Validate.IH [of "f ?a" "ps[i := f ?a]" "Suc n" s l]])
      (use Validate.prems bus_step.validate [of i "\<lparr>bus_ledger = s, bus_runs = ps, bus_log = l\<rparr>" sc v f js B U ?a] in \<open>simp_all add: put_run_def\<close>)
next
  case (Resolve t f)
  let ?a = "sv_resolve sv n t"
  show ?case
    by (rule step_then [OF _ Resolve.IH [of "f ?a" "ps[i := f ?a]" "Suc n" s l]])
      (use Resolve.prems bus_step.resolve [of i "\<lparr>bus_ledger = s, bus_runs = ps, bus_log = l\<rparr>" t f js B U ?a] in \<open>simp_all add: put_run_def\<close>)
next
  case (Check d auth t f)
  let ?a = "sv_check sv n d auth t"
  show ?case
    by (rule step_then [OF _ Check.IH [of "f ?a" "ps[i := f ?a]" "Suc n" s l]])
      (use Check.prems bus_step.check [of i "\<lparr>bus_ledger = s, bus_runs = ps, bus_log = l\<rparr>" d auth t f js B U ?a] in \<open>simp_all add: put_run_def\<close>)
next
  case (Prepare gi f)
  let ?a = "sv_prepare sv n gi"
  show ?case
    by (rule step_then [OF _ Prepare.IH [of "f ?a" "ps[i := f ?a]" "Suc n" s "l @ prepare_events js gi ?a"]])
      (use Prepare.prems bus_step.prepare [of i "\<lparr>bus_ledger = s, bus_runs = ps, bus_log = l\<rparr>" gi f js B U ?a] in \<open>simp_all add: put_run_def log_events_def\<close>)
next
  case (Recover gi rc f)
  let ?a = "sv_recover sv n gi rc"
  show ?case
    by (rule step_then [OF _ Recover.IH [of "f ?a" "ps[i := f ?a]" "Suc n" s l]])
      (use Recover.prems bus_step.recover [of i "\<lparr>bus_ledger = s, bus_runs = ps, bus_log = l\<rparr>" gi rc f js B U ?a] in \<open>simp_all add: put_run_def\<close>)
next
  case (Handle d ec x f)
  let ?a = "sv_handle sv n d ec x"
  show ?case
    by (rule step_then [OF _ Handle.IH [of "f ?a" "ps[i := f ?a]" "Suc n" s "l @ [Handled (exec_key js d ec)]"]])
      (use Handle.prems bus_step.handle [of i "\<lparr>bus_ledger = s, bus_runs = ps, bus_log = l\<rparr>" d ec x f js B U ?a] in \<open>simp_all add: put_run_def log_events_def\<close>)
next
  case (Measure d auth t x y f)
  let ?a = "sv_measure sv n d auth t x y"
  show ?case
    by (rule step_then [OF _ Measure.IH [of "f ?a" "ps[i := f ?a]" "Suc n" s l]])
      (use Measure.prems bus_step.measure [of i "\<lparr>bus_ledger = s, bus_runs = ps, bus_log = l\<rparr>" d auth t x y f js B U ?a] in \<open>simp_all add: put_run_def\<close>)
next
  case (Settle gi st f)
  let ?a = "sv_settle sv n gi st"
  show ?case
    by (rule step_then [OF _ Settle.IH [of "f ?a" "ps[i := f ?a]" "Suc n" s l]])
      (use Settle.prems bus_step.settle [of i "\<lparr>bus_ledger = s, bus_runs = ps, bus_log = l\<rparr>" gi st f js B U ?a] in \<open>simp_all add: put_run_def\<close>)
qed

lemma perform_from_start:
  assumes "perform js B U sv (invoke js reg env fresh request) n s [] = (r, s', l)"
  shows "(bus_step js B U)\<^sup>*\<^sup>* \<lparr>bus_ledger = s, bus_runs = [], bus_log = []\<rparr> \<lparr>bus_ledger = s', bus_runs = [ends_as r], bus_log = l\<rparr>"
proof -
  have "bus_step js B U \<lparr>bus_ledger = s, bus_runs = [], bus_log = []\<rparr> \<lparr>bus_ledger = s, bus_runs = [invoke js reg env fresh request], bus_log = []\<rparr>"
    using bus_step.start [of js B U "\<lparr>bus_ledger = s, bus_runs = [], bus_log = []\<rparr>" reg env fresh request] by simp
  moreover have "(bus_step js B U)\<^sup>*\<^sup>* \<lparr>bus_ledger = s, bus_runs = [invoke js reg env fresh request], bus_log = []\<rparr>
      \<lparr>bus_ledger = s', bus_runs = [ends_as r], bus_log = l\<rparr>"
    using perform_on_bus [OF _ _ assms, of 0 "[invoke js reg env fresh request]"] by simp
  ultimately show ?thesis by (rule converse_rtranclp_into_rtranclp)
qed

end
