(* ===== verification/Operation_Properties.thy ===== *)
theory Operation_Properties
  imports Operation_Runs
begin

text \<open>
  Properties of semantic operations: how often a handler is entered, that an invocation settles, what
  a replay answers, and where a refused settlement leaves a receipt running.
\<close>

section \<open>At most once\<close>

definition admits :: "string \<Rightarrow> event \<Rightarrow> nat" where
  "admits k e = (if e = Reserved k \<or> e = Resumed k then 1 else 0)"

definition authorises :: "string \<Rightarrow> event \<Rightarrow> nat" where
  "authorises k e = (if e = Authorised k then 1 else 0)"

definition enters :: "string \<Rightarrow> event \<Rightarrow> nat" where
  "enters k e = (if e = Handled k then 1 else 0)"

lemmas event_weights = admits_def authorises_def enters_def

text \<open>What the parts of \<^const>\<open>invoke\<close> after the handler do is free of events.\<close>

lemma funded_completeRefusal [simp]: "funded js c w (completeRefusal cx r t) n"
  by (simp add: completeRefusal_def Let_def)

lemma funded_settle [simp]: "(\<And>b. funded js c w (k b) n) \<Longrightarrow> funded js c w (settle cx gi s k) n"
  by (simp add: settle_def split: option.split)

lemma funded_completeUnknown [simp]: "funded js c w (completeUnknown cx gi p a r x ch) n"
  by (simp add: completeUnknown_def Let_def)

lemma funded_withhold [simp]: "funded js c w (withhold cx p t st r) n"
  by (simp add: withhold_def Let_def)

lemma funded_finish [simp]: "funded js c w (finish cx gi p a t s u) n"
  by (simp add: finish_def Let_def)

lemma funded_after_handler [simp]: "funded js c w (after_handler js reg cx gi p a t out) n"
  by (simp add: after_handler_def Let_def split: option.split outcome.split validation.split)

definition context_ok :: "platform \<Rightarrow> inv_context \<Rightarrow> bool" where
  "context_ok js cx \<longleftrightarrow> ic_ledger_key cx = invocationLedgerKey js (en_authority (ic_environment cx)) (od_id (ic_definition cx)) (ic_key cx)
     \<and> op_id (ic_request cx) = od_id (ic_definition cx) \<and> op_key (ic_request cx) = Some (ic_key cx)"

lemma funded_run_authorized:
  "context_ok js cx \<Longrightarrow> pays c w [Handled (ic_ledger_key cx)] n (\<lambda>_. True) \<Longrightarrow> funded js c w (run_authorized js reg cx gi p t) n"
  by (simp add: run_authorized_def Let_def exec_key_def context_ok_def pays_def)

lemma funded_evaluateAvailability [simp]: "(\<And>a. funded js c w (k a) n) \<Longrightarrow> funded js c w (evaluateAvailability d auth t k) n"
  by (simp add: evaluateAvailability_def split: option.split)

text \<open>Entering the handler needs the credit of an authorisation, or of an admission that was not used before.\<close>

definition can_enter :: "(event \<Rightarrow> nat) \<Rightarrow> (event \<Rightarrow> nat) \<Rightarrow> string \<Rightarrow> nat \<Rightarrow> bool" where
  "can_enter c w k n \<longleftrightarrow> pays c w [Authorised k] n (\<lambda>m. pays c w [Handled k] m (\<lambda>_. True))"

lemma funded_govern:
  assumes "context_ok js cx" and "can_enter c w (ic_ledger_key cx) n"
  shows "funded js c w (govern js reg cx t a) n"
  using assms
  by (auto simp: govern_def Let_def prepare_events_def can_enter_def pays_none gov_key_def governance_invocation_def context_ok_def
      pays_def [of c w "[Authorised _]"] intro!: funded_run_authorized split: option.split preparation.split)

lemma funded_resolve_target:
  assumes "context_ok js cx" and "can_enter c w (ic_ledger_key cx) n"
  shows "funded js c w (resolve_target js reg cx) n"
proof -
  have "funded js c w (check_request js reg cx t) n" for t
    using funded_govern [OF assms] by (simp add: check_request_def Let_def split: option.split validation.split)
  then show ?thesis by (simp add: resolve_target_def Let_def split: option.split)
qed

lemma funded_replay:
  assumes "rc_state e = Op_Awaiting \<Longrightarrow> funded js c w p n"
  shows "funded js c w (replay reg cx e p) n"
  using assms by (simp add: replay_def ownerMayStillBeRunning_def Let_def split: option.split)

lemma funded_invoke:
  assumes "\<And>k dg e n. e = None \<or> (\<exists>r. e = Some (dg, r) \<and> rc_state r = Op_Awaiting) \<Longrightarrow> pays c w (begin_events k dg e) n (can_enter c w k)"
    and "\<And>k. w (Reserved k) = 0" and "\<And>k. w (Resumed k) = 0"
  shows "funded js c w (invoke js reg env fresh request) n"
proof (cases "find_definition reg (op_id request) (op_version request)")
  case (Some d)
  then have d: "od_id d = op_id request" unfolding find_definition_def by (auto simp: find_Some_iff)
  have "pays c w (begin_events (ic_ledger_key cx) (ic_digest cx) e) n (funded js c w (after_begin js reg cx e))"
    if ok: "context_ok js cx" for cx e
  proof (cases "e = None \<or> (\<exists>r. e = Some (ic_digest cx, r) \<and> rc_state r = Op_Awaiting)")
    case True
    from assms(1) [OF this, of "ic_ledger_key cx" n]
    show ?thesis using True ok
      by (auto simp: pays_def after_begin_def context_ok_def intro!: funded_resolve_target funded_replay)
  next
    case False
    then have "begin_events (ic_ledger_key cx) (ic_digest cx) e = []" by (auto simp: begin_events_def split: option.split)
    with False show ?thesis by (auto simp: pays_none after_begin_def intro!: funded_replay split: option.split)
  qed
  moreover have "context_ok js (start_context js reg env d key request started)" for key started
    by (simp add: context_ok_def start_context_def Let_def d)
  ultimately show ?thesis using Some by (simp add: invoke_def Let_def)
qed (simp add: invoke_def)

lemma funded_admission: "funded js (admits k) (enters k) (invoke js reg env fresh request) n"
  by (rule funded_invoke) (auto simp: pays_def can_enter_def begin_events_def event_weights)

lemma funded_authorisation: "funded js (authorises k) (enters k) (invoke js reg env fresh request) n"
  by (rule funded_invoke) (auto simp: pays_def can_enter_def begin_events_def event_weights)

lemma sum_weights: "sum_list (map (enters k) es) = count_list es (Handled k)" "sum_list (map (authorises k) es) = count_list es (Authorised k)"
  "sum_list (map (admits k) es) = count_list es (Reserved k) + count_list es (Resumed k)"
  by (induction es) (auto simp: event_weights)

text \<open>The ledger reserves a key once.\<close>

definition reserved_inv :: "('s \<Rightarrow> bool) \<Rightarrow> ('s \<Rightarrow> string \<Rightarrow> stored_invocation option) \<Rightarrow> 's bus \<Rightarrow> bool" where
  "reserved_inv ok stored b \<longleftrightarrow> ok (bus_ledger b)
     \<and> (\<forall>k. count_list (bus_log b) (Reserved k) \<le> (if stored (bus_ledger b) k = None then 0 else 1))"

context invocation_ledger
begin

lemma reserved_step:
  assumes "bus_step js begin' update' b b'" and inv: "reserved_inv ok stored b"
  shows "reserved_inv ok stored b'"
  using assms
proof (induction rule: bus_step.induct)
  case (begin_ok i b k d r f e s)
  then show ?case
  proof (cases e)
    case None
    with begin_ok have "ok s \<and> stored (bus_ledger b) k = None \<and> stored s = (stored (bus_ledger b))(k \<mapsto> (d, r))"
      using begin_reserves [of "bus_ledger b" k d r s] by (simp add: reserved_inv_def)
    moreover have count: "count_list (bus_log b) (Reserved j) \<le> (if stored (bus_ledger b) j = None then 0 else 1)" for j
      using begin_ok(4) by (simp add: reserved_inv_def)
    ultimately have s: "ok s" "stored s = (stored (bus_ledger b))(k \<mapsto> (d, r))" "stored (bus_ledger b) k = None" by blast+
    have "count_list (bus_log b @ [Reserved k]) (Reserved j) \<le> (if stored s j = None then 0 else 1)" for j
      using count [of j] s(2,3) by (cases "j = k") simp_all
    then show ?thesis using s(1) None by (simp add: reserved_inv_def log_events_def put_run_def begin_events_def)
  next
    case (Some x)
    with begin_ok have "s = bus_ledger b" using begin_finds [of "bus_ledger b" k d r x s] by (simp add: reserved_inv_def)
    then show ?thesis using begin_ok(4) Some by (auto simp: reserved_inv_def log_events_def put_run_def begin_events_def)
  qed
next
  case (update_ok i b k r p s)
  then obtain d r0 where s: "ok s" "stored (bus_ledger b) k = Some (d, r0)" "stored s = (stored (bus_ledger b))(k \<mapsto> (d, r))"
    using update_replaces [of "bus_ledger b" k r s] by (auto simp: reserved_inv_def)
  have "count_list (bus_log b) (Reserved j) \<le> (if stored s j = None then 0 else 1)" for j
  proof -
    have "count_list (bus_log b) (Reserved j) \<le> (if stored (bus_ledger b) j = None then 0 else 1)" using update_ok(4) by (simp add: reserved_inv_def)
    then show ?thesis using s(2,3) by (cases "j = k") simp_all
  qed
  then show ?case using s(1) by (simp add: reserved_inv_def put_run_def)
qed (auto simp: reserved_inv_def put_run_def log_events_def prepare_events_def split: option.splits preparation.splits)

lemma entered_at_most_once:
  assumes run: "(bus_step js begin' update')\<^sup>*\<^sup>* \<lparr>bus_ledger = s0, bus_runs = [], bus_log = []\<rparr> b" and "ok s0"
  shows "count_list (bus_log b) (Handled k) \<le> 1 + count_list (bus_log b) (Resumed k)
    \<and> count_list (bus_log b) (Handled k) \<le> count_list (bus_log b) (Authorised k)"
proof -
  have "reserved_inv ok stored b"
    using run by (induction rule: rtranclp_induct) (use assms(2) reserved_step in \<open>auto simp: reserved_inv_def\<close>)
  then have one: "count_list (bus_log b) (Reserved k) \<le> 1" unfolding reserved_inv_def by (metis le_zero_eq nat_le_linear)
  have start: "balanced js c w \<lparr>bus_ledger = s0, bus_runs = [], bus_log = []\<rparr>" for c w by (simp add: balanced_def)
  have "balanced js (admits k) (enters k) b" "balanced js (authorises k) (enters k) b"
    using balanced_run [OF run start] funded_admission funded_authorisation by blast+
  then show ?thesis using one by (auto simp: balanced_def sum_weights)
qed

end

text \<open>
  C22: however the runs of any registries are interleaved over one durable ledger, and whatever their
  dependencies answer or wherever they are lost, the handler of an invocation (a principal's operation
  under one idempotency key) is entered at most once, plus once for every resumption of the invocation
  after it was left awaiting approval; and never without an authorisation by governance of its own.
\<close>

theorem handler_at_most_once:
  assumes "(bus_step js sqlite_begin sqlite_update)\<^sup>*\<^sup>* \<lparr>bus_ledger = [], bus_runs = [], bus_log = []\<rparr> b"
  shows "count_list (bus_log b) (Handled k) \<le> 1 + count_list (bus_log b) (Resumed k)
    \<and> count_list (bus_log b) (Handled k) \<le> count_list (bus_log b) (Authorised k)"
  by (rule sqlite.entered_at_most_once [OF assms]) (simp add: ledger_inv_def)

section \<open>Names\<close>

text \<open>Every receipt that a run writes is named by its ledger key.\<close>

primrec named :: "platform \<Rightarrow> 'r prog \<Rightarrow> bool" where
  "named js (Done r) \<longleftrightarrow> True"
| "named js Threw \<longleftrightarrow> True"
| "named js (Now f) \<longleftrightarrow> (\<forall>t. named js (f t))"
| "named js (Probe p f) \<longleftrightarrow> (\<forall>a. named js (f a))"
| "named js (Begin k d r f) \<longleftrightarrow> rc_invocation_id r = invocationId js k
     \<and> (\<forall>e. (\<forall>d' r'. e = Some (d', r') \<longrightarrow> rc_invocation_id r' = invocationId js k) \<longrightarrow> named js (f e))"
| "named js (Update k r p) \<longleftrightarrow> rc_invocation_id r = invocationId js k \<and> named js p"
| "named js (Validate sc v f) \<longleftrightarrow> (\<forall>a. named js (f a))"
| "named js (Resolve t f) \<longleftrightarrow> (\<forall>a. named js (f a))"
| "named js (Check d auth t f) \<longleftrightarrow> (\<forall>a. named js (f a))"
| "named js (Prepare gi f) \<longleftrightarrow> (\<forall>a. named js (f a))"
| "named js (Recover gi r f) \<longleftrightarrow> (\<forall>a. named js (f a))"
| "named js (Handle d ec x f) \<longleftrightarrow> (\<forall>a. named js (f a))"
| "named js (Measure d auth t x y f) \<longleftrightarrow> (\<forall>a. named js (f a))"
| "named js (Settle gi st f) \<longleftrightarrow> (\<forall>a. named js (f a))"

definition base_named :: "platform \<Rightarrow> inv_context \<Rightarrow> bool" where
  "base_named js cx \<longleftrightarrow> rc_invocation_id (ic_base cx) = invocationId js (ic_ledger_key cx)"

lemma named_settle: "(\<And>b. named js (k b)) \<Longrightarrow> named js (settle cx gi s k)"
  by (simp add: settle_def split: option.split)

lemma named_completeRefusal: "base_named js cx \<Longrightarrow> named js (completeRefusal cx r t)"
  by (simp add: completeRefusal_def base_named_def Let_def)

lemma named_completeUnknown: "rc_invocation_id a = invocationId js (ic_ledger_key cx) \<Longrightarrow> named js (completeUnknown cx gi p a r x ch)"
  by (simp add: completeUnknown_def Let_def named_settle)

lemma named_finish: "rc_invocation_id a = invocationId js (ic_ledger_key cx) \<Longrightarrow> named js (finish cx gi p a t s u)"
  by (simp add: finish_def Let_def named_settle named_completeUnknown)

lemma named_after_handler: "rc_invocation_id a = invocationId js (ic_ledger_key cx) \<Longrightarrow> named js (after_handler js reg cx gi p a t out)"
  by (simp add: after_handler_def Let_def named_settle named_completeUnknown named_finish split: option.split outcome.split validation.split)

lemma authorized_id [simp]: "rc_invocation_id (authorized_receipt reg cx p t tm) = rc_invocation_id (ic_base cx)"
  by (simp add: authorized_receipt_def)

lemma named_govern: "base_named js cx \<Longrightarrow> named js (govern js reg cx t a)"
  by (simp add: govern_def withhold_def run_authorized_def Let_def named_completeRefusal named_after_handler split: option.split preparation.split)
    (simp add: base_named_def named_after_handler)

lemma named_resolve_target:
  assumes "base_named js cx"
  shows "named js (resolve_target js reg cx)"
proof -
  have "named js (evaluateAvailability d auth t (govern js reg cx u))" for d auth t u
    using assms by (simp add: evaluateAvailability_def named_govern split: option.split)
  then have "named js (check_request js reg cx t)" for t
    using assms by (simp add: check_request_def Let_def named_completeRefusal split: option.split validation.split)
  then show ?thesis using assms by (simp add: resolve_target_def Let_def named_completeRefusal split: option.split)
qed

lemma named_after_begin:
  assumes "base_named js cx" and "\<And>d r. e = Some (d, r) \<Longrightarrow> rc_invocation_id r = invocationId js (ic_ledger_key cx)"
  shows "named js (after_begin js reg cx e)"
  using assms
  by (auto simp: after_begin_def replay_def ownerMayStillBeRunning_def recovered_receipt_def Let_def base_named_def
      intro!: named_resolve_target split: option.split)

lemma named_invoke: "named js (invoke js reg env fresh request)"
  by (auto simp: invoke_def start_context_def Let_def running_receipt_def base_named_def intro!: named_after_begin split: option.split)

definition named_inv :: "platform \<Rightarrow> ('s \<Rightarrow> bool) \<Rightarrow> ('s \<Rightarrow> string \<Rightarrow> stored_invocation option) \<Rightarrow> 's bus \<Rightarrow> bool" where
  "named_inv js ok stored b \<longleftrightarrow> ok (bus_ledger b) \<and> (\<forall>p \<in> set (bus_runs b). named js p)
     \<and> (\<forall>k d r. stored (bus_ledger b) k = Some (d, r) \<longrightarrow> rc_invocation_id r = invocationId js k)"

lemma named_put:
  "named_inv js ok stored b \<Longrightarrow> named js p \<Longrightarrow> named_inv js ok stored (put_run i p b)"
  "named_inv js ok stored (log_events es b) = named_inv js ok stored b"
  by (auto simp: named_inv_def put_run_def log_events_def dest: set_update_subset_insert [THEN subsetD])

lemma named_run: "named_inv js ok stored b \<Longrightarrow> i < length (bus_runs b) \<Longrightarrow> named js (bus_runs b ! i)"
  by (simp add: named_inv_def)

lemma named_advance:
  "named_inv js ok stored b \<Longrightarrow> i < length (bus_runs b) \<Longrightarrow> (named js (bus_runs b ! i) \<Longrightarrow> named js p) \<Longrightarrow> named_inv js ok stored (put_run i p b)"
  using named_run named_put(1) by blast

context invocation_ledger
begin

lemma named_step:
  assumes "bus_step js begin' update' b b'" and inv: "named_inv js ok stored b"
  shows "named_inv js ok stored b'"
  using assms
proof (induction rule: bus_step.induct)
  case (start b reg env fresh request)
  then show ?case by (auto simp: named_inv_def named_invoke)
next
  case (begin_ok i b k d r f e s)
  have n: "named js (Begin k d r f)" using named_run [OF begin_ok(4,1)] begin_ok(2) by simp
  have o: "ok (bus_ledger b)" using begin_ok(4) by (simp add: named_inv_def)
  have e: "\<forall>d' r'. e = Some (d', r') \<longrightarrow> rc_invocation_id r' = invocationId js k"
    using begin_finds [OF o] begin_ok(3,4) by (auto simp: named_inv_def)
  have "named_inv js ok stored (b\<lparr>bus_ledger := s\<rparr>)"
  proof (cases e)
    case None
    then have "ok s" "stored s = (stored (bus_ledger b))(k \<mapsto> (d, r))" using begin_reserves [OF o] begin_ok(3) by blast+
    then show ?thesis using begin_ok(4) n by (simp add: named_inv_def)
  next
    case (Some x)
    then have "s = bus_ledger b" using begin_finds [OF o] begin_ok(3) by blast
    then show ?thesis using begin_ok(4) by (simp add: named_inv_def)
  qed
  then show ?case using n e by (simp add: named_put)
next
  case (update_ok i b k r p s)
  have n: "named js (Update k r p)" using named_run [OF update_ok(4,1)] update_ok(2) by simp
  have o: "ok (bus_ledger b)" using update_ok(4) by (simp add: named_inv_def)
  obtain d where "ok s" "stored s = (stored (bus_ledger b))(k \<mapsto> (d, r))" using update_replaces [OF o update_ok(3)] by blast
  then have "named_inv js ok stored (b\<lparr>bus_ledger := s\<rparr>)" using update_ok(4) n by (simp add: named_inv_def)
  then show ?case using n by (simp add: named_put)
qed (auto simp: named_put(2) intro!: named_advance)

lemma named_reachable:
  "(bus_step js begin' update')\<^sup>*\<^sup>* \<lparr>bus_ledger = s0, bus_runs = [], bus_log = []\<rparr> b \<Longrightarrow> ok s0 \<Longrightarrow> (\<And>k. stored s0 k = None) \<Longrightarrow> named_inv js ok stored b"
proof (induction rule: rtranclp_induct)
  case base
  then show ?case by (simp add: named_inv_def)
qed (use named_step in blast)

end

end
