(* ===== verification/Operation_Settling.thy ===== *)
theory Operation_Settling
  imports Operation_Properties
begin

text \<open>
  How an invocation ends: an admitted run settles its receipt unless a call outside the code's guards
  throws; a settled invocation is replayed; and a throw after its handler ran leaves it running.
\<close>

section \<open>Settling\<close>

text \<open>
  A program that ends by settling the receipt of \<open>lk\<close>, when the schema validator, resolving a resource
  and settling a refusal do not throw; every other call may.
\<close>

definition settled :: "op_receipt \<Rightarrow> bool" where
  "settled r \<longleftrightarrow> rc_state r \<noteq> Op_Running \<and> rc_owner r = None"

primrec closing :: "string \<Rightarrow> string \<Rightarrow> invocation_response prog \<Rightarrow> bool" where
  "closing lk i (Done r) \<longleftrightarrow> False"
| "closing lk i Threw \<longleftrightarrow> False"
| "closing lk i (Now f) \<longleftrightarrow> (\<forall>t. closing lk i (f t))"
| "closing lk i (Probe p f) \<longleftrightarrow> False"
| "closing lk i (Begin k d r f) \<longleftrightarrow> False"
| "closing lk i (Update k r p) \<longleftrightarrow> k = lk \<and> rc_invocation_id r = i \<and> (closing lk i p \<or> p = Done (Receipt False r) \<and> settled r)"
| "closing lk i (Validate sc v f) \<longleftrightarrow> (\<forall>a. closing lk i (f (Some a)))"
| "closing lk i (Resolve t f) \<longleftrightarrow> (\<forall>a. closing lk i (f (Some a)))"
| "closing lk i (Check d auth t f) \<longleftrightarrow> (\<forall>a. closing lk i (f a))"
| "closing lk i (Prepare gi f) \<longleftrightarrow> (\<forall>a. closing lk i (f a))"
| "closing lk i (Recover gi r f) \<longleftrightarrow> False"
| "closing lk i (Handle d ec x f) \<longleftrightarrow> (\<forall>a. closing lk i (f a))"
| "closing lk i (Measure d auth t x y f) \<longleftrightarrow> (\<forall>a. closing lk i (f a))"
| "closing lk i (Settle gi st f) \<longleftrightarrow> closing lk i (f True) \<and> (st_state st \<noteq> Op_Refused \<longrightarrow> closing lk i (f False))"

lemma closing_settle:
  assumes "closing lk i (k True)" and "st_state s \<noteq> Op_Refused \<Longrightarrow> closing lk i (k False)"
  shows "closing lk i (settle cx gi s k)"
  using assms by (auto simp: settle_def split: option.split)

lemma closing_completeRefusal:
  "ic_ledger_key cx = lk \<Longrightarrow> rc_invocation_id (ic_base cx) = i \<Longrightarrow> closing lk i (completeRefusal cx r t)"
  by (simp add: completeRefusal_def Let_def settled_def)

lemma closing_withhold:
  "ic_ledger_key cx = lk \<Longrightarrow> rc_invocation_id (ic_base cx) = i \<Longrightarrow> st \<noteq> Op_Running \<Longrightarrow> closing lk i (withhold cx p t st r)"
  by (simp add: withhold_def Let_def settled_def)

lemma closing_completeUnknown:
  "ic_ledger_key cx = lk \<Longrightarrow> rc_invocation_id a = i \<Longrightarrow> closing lk i (completeUnknown cx gi p a r x ch)"
  by (auto simp: completeUnknown_def Let_def settled_def intro!: closing_settle)

lemma closing_finish: "ic_ledger_key cx = lk \<Longrightarrow> rc_invocation_id a = i \<Longrightarrow> closing lk i (finish cx gi p a t s u)"
  by (auto simp: finish_def Let_def settled_def success_state_def closing_completeUnknown intro!: closing_settle)

lemma closing_after_handler: "ic_ledger_key cx = lk \<Longrightarrow> rc_invocation_id a = i \<Longrightarrow> closing lk i (after_handler js reg cx gi p a t out)"
  by (auto simp: after_handler_def Let_def settled_def closing_completeUnknown closing_finish intro!: closing_settle split: option.split outcome.split validation.split)

lemma closing_govern: "ic_ledger_key cx = lk \<Longrightarrow> rc_invocation_id (ic_base cx) = i \<Longrightarrow> closing lk i (govern js reg cx t a)"
  by (auto simp: govern_def run_authorized_def Let_def closing_completeRefusal closing_withhold closing_after_handler split: option.split preparation.split)

lemma closing_resolve_target:
  assumes "ic_ledger_key cx = lk" and "rc_invocation_id (ic_base cx) = i"
  shows "closing lk i (resolve_target js reg cx)"
proof -
  have "closing lk i (evaluateAvailability d auth t (govern js reg cx u))" for d auth t u
    using assms by (simp add: evaluateAvailability_def closing_govern split: option.split)
  then have "closing lk i (check_request js reg cx t)" for t
    using assms by (simp add: check_request_def Let_def closing_completeRefusal split: option.split validation.split)
  then show ?thesis using assms by (simp add: resolve_target_def Let_def closing_completeRefusal split: option.split)
qed

definition dependable :: "services \<Rightarrow> bool" where
  "dependable sv \<longleftrightarrow> (\<forall>n sc v. sv_validate sv n sc v \<noteq> None) \<and> (\<forall>n t. sv_resolve sv n t \<noteq> None) \<and> (\<forall>n gi st. st_state st = Op_Refused \<longrightarrow> sv_settle sv n gi st)"

text \<open>The ledger key of a request.\<close>

definition request_key :: "platform \<Rightarrow> environment \<Rightarrow> string \<Rightarrow> op_request \<Rightarrow> string" where
  "request_key js env fresh request = invocationLedgerKey js (en_authority env) (op_id request) (effective_key fresh request)"

definition request_digest :: "platform \<Rightarrow> string \<Rightarrow> op_request \<Rightarrow> string" where
  "request_digest js fresh request = op_digest js (request_json (request\<lparr>op_key := Some (effective_key fresh request)\<rparr>))"

definition context_for :: "platform \<Rightarrow> registry \<Rightarrow> environment \<Rightarrow> string \<Rightarrow> op_request \<Rightarrow> inv_context \<Rightarrow> bool" where
  "context_for js reg env fresh request cx \<longleftrightarrow> ic_ledger_key cx = request_key js env fresh request \<and> ic_digest cx = request_digest js fresh request
     \<and> rc_invocation_id (ic_base cx) = invocationId js (request_key js env fresh request)"

lemma invoke_cases:
  obtains (rejected) r where "invoke js reg env fresh request = Done (Rejected r)"
  | (begins) cx where "\<And>t. context_for js reg env fresh request (cx t)"
      "invoke js reg env fresh request = Now (\<lambda>t. Begin (request_key js env fresh request) (request_digest js fresh request) (ic_base (cx t)) (after_begin js reg (cx t)))"
proof (cases "find_definition reg (op_id request) (op_version request)")
  case None
  then show thesis by (intro rejected) (simp add: invoke_def)
next
  case (Some d)
  let ?cx = "start_context js reg env d (effective_key fresh request) request"
  have c: "context_for js reg env fresh request (?cx t)" for t
    by (simp add: context_for_def start_context_def request_key_def request_digest_def running_receipt_def Let_def)
  show thesis
  proof (cases "supplied_key request = None \<and> eff_mode (od_effects d) \<noteq> ''read''")
    case True
    then show thesis using Some by (intro rejected) (simp add: invoke_def)
  next
    case False
    then have "invoke js reg env fresh request = Now (\<lambda>t. Begin (ic_ledger_key (?cx t)) (ic_digest (?cx t)) (ic_base (?cx t)) (after_begin js reg (?cx t)))"
      using Some by (simp add: invoke_def Let_def)
    then show thesis using c by (intro begins [of ?cx]) (simp_all add: context_for_def)
  qed
qed

context invocation_ledger
begin

lemma perform_closing:
  assumes "closing lk i p" and "ok s" and "stored s lk = Some (d, r0)" and "rc_invocation_id r0 = i" and "dependable sv"
  shows "\<exists>r s' l'. perform js begin' update' sv p n s l = (Some (Receipt False r), s', l') \<and> stored s' lk = Some (d, r) \<and> settled r"
  using assms(1-4)
proof (induction p arbitrary: n s l r0)
  case (Update k r p)
  then have k: "k = lk" "rc_invocation_id r = i" "closing lk i p \<or> p = Done (Receipt False r) \<and> settled r" by auto
  obtain s1 where s1: "update' k r s = Inr s1" using update_accepts [OF Update.prems(2), of k d r0 r] Update.prems(3,4) k(1,2) by auto
  from update_replaces [OF Update.prems(2) s1] obtain d' r' where
    "ok s1" "stored s k = Some (d', r')" "stored s1 = (stored s)(k \<mapsto> (d', r))" by blast
  then have s1': "ok s1" "stored s1 lk = Some (d, r)" using Update.prems(3) k(1) by auto
  from k(3) show ?case
  proof
    assume "closing lk i p"
    from Update.IH [OF this s1' k(2)] show ?thesis using s1 by simp
  next
    assume "p = Done (Receipt False r) \<and> settled r"
    then show ?thesis using s1 s1' by simp
  qed
next
  case (Validate sc v f)
  then obtain a where a: "sv_validate sv n sc v = Some a" using assms(5) unfolding dependable_def by (meson not_None_eq)
  show ?case using Validate.IH [of "f (Some a)" s] Validate.prems a by simp
next
  case (Resolve t f)
  then obtain a where a: "sv_resolve sv n t = Some a" using assms(5) unfolding dependable_def by (meson not_None_eq)
  show ?case using Resolve.IH [of "f (Some a)" s] Resolve.prems a by simp
next
  case (Settle gi st f)
  then show ?case using assms(5) by (cases "sv_settle sv n gi st") (auto simp: dependable_def)
qed auto

lemma perform_replay_log: "rc_state r \<noteq> Op_Awaiting \<Longrightarrow> snd (snd (perform js begin' update' sv (replay reg cx r p) n s l)) = l"
  by (auto simp: replay_def ownerMayStillBeRunning_def Let_def split: option.split sum.split)

lemma perform_not_admitted:
  assumes "\<not> (e = None \<or> (\<exists>r. e = Some (ic_digest cx, r) \<and> rc_state r = Op_Awaiting))"
  shows "begin_events k (ic_digest cx) e = []" "snd (snd (perform js begin' update' sv (after_begin js reg cx e) n s l)) = l"
  using assms by (auto simp: begin_events_def after_begin_def perform_replay_log split: option.split)

lemma admitted_settles:
  assumes inv: "named_inv js ok stored b" and sv: "dependable sv"
    and run: "perform js begin' update' sv (invoke js reg env fresh request) n (bus_ledger b) [] = (res, s', es)"
    and admitted: "es \<noteq> []"
  shows "\<exists>d r. res = Some (Receipt False r) \<and> stored s' (request_key js env fresh request) = Some (d, r) \<and> settled r"
proof -
  let ?k = "request_key js env fresh request"
  have o: "ok (bus_ledger b)" using inv by (simp add: named_inv_def)
  obtain cx e s1 where cx: "context_for js reg env fresh request cx" and reserve: "begin' ?k (ic_digest cx) (ic_base cx) (bus_ledger b) = Inr (e, s1)"
      and rest: "perform js begin' update' sv (after_begin js reg cx e) (Suc (Suc n)) s1 (begin_events ?k (ic_digest cx) e) = (res, s', es)"
  proof (cases rule: invoke_cases [of js reg env fresh request])
    case (rejected r)
    then show thesis using run admitted by simp
  next
    case (begins cx)
    let ?cx = "cx (sv_now sv n)"
    have d: "ic_digest ?cx = request_digest js fresh request" using begins(1) by (simp add: context_for_def)
    show thesis
      using run admitted that [OF begins(1) [of "sv_now sv n"]] unfolding begins(2) d
      by (auto split: sum.splits)
  qed
  have cx: "ic_ledger_key cx = ?k" "rc_invocation_id (ic_base cx) = invocationId js ?k" using cx by (simp_all add: context_for_def)
  have admitted': "e = None \<or> (\<exists>r. e = Some (ic_digest cx, r) \<and> rc_state r = Op_Awaiting)"
  proof (rule ccontr)
    assume no: "\<not> ?thesis"
    then have "begin_events ?k (ic_digest cx) e = []" "snd (snd (perform js begin' update' sv (after_begin js reg cx e) (Suc (Suc n)) s1 [])) = []"
      using perform_not_admitted [of e cx] by auto
    then have "es = []" using rest by simp
    then show False using admitted by simp
  qed
  from admitted' show ?thesis
  proof
    assume e: "e = None"
    then have "ok s1" "stored s1 ?k = Some (ic_digest cx, ic_base cx)" using begin_reserves [OF o] reserve by auto
    from perform_closing [OF closing_resolve_target [OF cx] this cx(2) sv, of js js reg "Suc (Suc n)" "begin_events ?k (ic_digest cx) e"]
    show ?thesis using rest e by (auto simp: after_begin_def)
  next
    assume "\<exists>r. e = Some (ic_digest cx, r) \<and> rc_state r = Op_Awaiting"
    then obtain r where e: "e = Some (ic_digest cx, r)" "rc_state r = Op_Awaiting" by blast
    then have s1: "s1 = bus_ledger b" "stored s1 ?k = Some (ic_digest cx, r)" using begin_finds [OF o, of ?k "ic_digest cx" "ic_base cx"] reserve by auto
    then have r: "rc_invocation_id r = invocationId js ?k" using inv by (auto simp: named_inv_def)
    let ?cx = "cx\<lparr>ic_base := r, ic_prior := Some (rc_governance r), ic_provenance := rc_provenance r\<rparr>"
    have "closing ?k (invocationId js ?k) (resolve_target js reg ?cx)" by (rule closing_resolve_target) (simp_all add: cx r)
    from perform_closing [OF this _ s1(2) r sv, of js "Suc (Suc n)" "begin_events ?k (ic_digest cx) e"]
    show ?thesis using o s1(1) rest e by (auto simp: after_begin_def replay_def Let_def)
  qed
qed

end

text \<open>
  C23: an invocation that was admitted settles, unless one of three unguarded calls throws: the schema
  validator, resolving a resource, and settling a refusal by the handler. Whatever its handler, the
  availability check, governance and measuring answer and wherever they throw, and whatever the clock
  reads and the validator finds, a run that reserved its key or resumed it then answers with a fresh
  receipt which is durably stored under its key, is no longer running and belongs to no process.
\<close>

theorem admitted_invocation_settles:
  assumes "(bus_step js sqlite_begin sqlite_update)\<^sup>*\<^sup>* \<lparr>bus_ledger = [], bus_runs = [], bus_log = []\<rparr> b" and "dependable sv"
    and "perform js sqlite_begin sqlite_update sv (invoke js reg env fresh request) 0 (bus_ledger b) [] = (res, rows, es)"
    and "Reserved (request_key js env fresh request) \<in> set es \<or> Resumed (request_key js env fresh request) \<in> set es"
  shows "\<exists>d r. res = Some (Receipt False r) \<and> getByLedgerKey (request_key js env fresh request) rows = Some (d, r)
    \<and> rc_state r \<noteq> Op_Running \<and> rc_owner r = None"
proof -
  have "named_inv js ledger_inv (\<lambda>rows k. getByLedgerKey k rows) b"
    using assms(1) by (rule sqlite.named_reachable) (simp_all add: ledger_inv_def getByLedgerKey_def)
  moreover have "es \<noteq> []" using assms(4) by auto
  ultimately show ?thesis using sqlite.admitted_settles [OF _ assms(2,3)] by (auto simp: settled_def)
qed

section \<open>Replays\<close>

text \<open>
  C24: a settled invocation is replayed and nothing else happens. When the ledger holds an accepted,
  completed or refused receipt under the key of a request, invoking the same request again answers
  with exactly that receipt, and invoking a different request under that key is a conflict; in either
  case no dependency is asked, no handler entered and the ledger stays as it is.
\<close>

theorem settled_invocation_replays:
  assumes "ledger_inv rows" and "getByLedgerKey (request_key js env fresh request) rows = Some (dg, r)"
    and "rc_state r = Op_Accepted \<or> rc_state r = Op_Completed \<or> rc_state r = Op_Refused"
    and "find_definition reg (op_id request) (op_version request) = Some d" and "supplied_key request \<noteq> None"
  shows "perform js sqlite_begin sqlite_update sv (invoke js reg env fresh request) 0 rows []
    = (Some (if dg = request_digest js fresh request then Receipt True r else Conflict (key_reused r) r), rows, [])"
proof (cases rule: invoke_cases [of js reg env fresh request])
  case (rejected x)
  then show ?thesis using assms(4,5) by (simp add: invoke_def Let_def)
next
  case (begins cx)
  let ?k = "request_key js env fresh request"
  have found: "\<exists>x \<in> set rows. lr_key x = ?k" using assms(2) by (auto simp: getByLedgerKey_def dest: row_where_SomeD)
  then have "sqlite_begin ?k d' r' rows = Inr (Some (dg, r), rows)" for d' r'
    using assms(2) by (auto simp: sqlite_begin_def ledger_ignores_def list_ex_iff)
  moreover have "ic_digest (cx t) = request_digest js fresh request" for t using begins(1) by (simp add: context_for_def)
  ultimately show ?thesis using assms(3) unfolding begins(2)
    by (auto simp: after_begin_def replay_def Let_def begin_events_def)
qed

section \<open>A throw after the handler\<close>

text \<open>After its handler a program only updates the ledger as its last act.\<close>

primrec after_entry :: "string \<Rightarrow> string \<Rightarrow> invocation_response prog \<Rightarrow> bool" where
  "after_entry lk i (Done r) \<longleftrightarrow> True"
| "after_entry lk i Threw \<longleftrightarrow> True"
| "after_entry lk i (Now f) \<longleftrightarrow> (\<forall>t. after_entry lk i (f t))"
| "after_entry lk i (Probe p f) \<longleftrightarrow> False"
| "after_entry lk i (Begin k d r f) \<longleftrightarrow> False"
| "after_entry lk i (Update k r p) \<longleftrightarrow> k = lk \<and> rc_invocation_id r = i \<and> (\<exists>x. p = Done x)"
| "after_entry lk i (Validate sc v f) \<longleftrightarrow> (\<forall>a. after_entry lk i (f a))"
| "after_entry lk i (Resolve t f) \<longleftrightarrow> (\<forall>a. after_entry lk i (f a))"
| "after_entry lk i (Check d auth t f) \<longleftrightarrow> False"
| "after_entry lk i (Prepare gi f) \<longleftrightarrow> False"
| "after_entry lk i (Recover gi r f) \<longleftrightarrow> False"
| "after_entry lk i (Handle d ec x f) \<longleftrightarrow> False"
| "after_entry lk i (Measure d auth t x y f) \<longleftrightarrow> (\<forall>a. after_entry lk i (f a))"
| "after_entry lk i (Settle gi st f) \<longleftrightarrow> (\<forall>a. after_entry lk i (f a))"

lemma after_entry_settle: "(\<And>b. after_entry lk i (k b)) \<Longrightarrow> after_entry lk i (settle cx gi s k)"
  by (simp add: settle_def split: option.split)

lemma after_entry_completeUnknown:
  "ic_ledger_key cx = lk \<Longrightarrow> rc_invocation_id a = i \<Longrightarrow> after_entry lk i (completeUnknown cx gi p a r x ch)"
  by (simp add: completeUnknown_def Let_def after_entry_settle)

lemma after_entry_handler: "ic_ledger_key cx = lk \<Longrightarrow> rc_invocation_id a = i \<Longrightarrow> after_entry lk i (after_handler js reg cx gi p a t out)"
  by (simp add: after_handler_def finish_def Let_def after_entry_settle after_entry_completeUnknown split: option.split outcome.split validation.split)

text \<open>Before it, the handler is entered only right after the running receipt has been stored.\<close>

primrec guarded_entry :: "string \<Rightarrow> string \<Rightarrow> string \<Rightarrow> invocation_response prog \<Rightarrow> bool" where
  "guarded_entry ow lk i (Done r) \<longleftrightarrow> True"
| "guarded_entry ow lk i Threw \<longleftrightarrow> True"
| "guarded_entry ow lk i (Now f) \<longleftrightarrow> (\<forall>t. guarded_entry ow lk i (f t))"
| "guarded_entry ow lk i (Probe p f) \<longleftrightarrow> (\<forall>a. guarded_entry ow lk i (f a))"
| "guarded_entry ow lk i (Begin k d r f) \<longleftrightarrow> False"
| "guarded_entry ow lk i (Update k r p) \<longleftrightarrow> (\<exists>x. p = Done x) \<or> k = lk \<and> rc_invocation_id r = i \<and> rc_state r = Op_Running \<and> rc_owner r = Some ow
     \<and> (\<exists>d ec x f. p = Handle d ec x f \<and> (\<forall>a. after_entry lk i (f a)))"
| "guarded_entry ow lk i (Validate sc v f) \<longleftrightarrow> (\<forall>a. guarded_entry ow lk i (f a))"
| "guarded_entry ow lk i (Resolve t f) \<longleftrightarrow> (\<forall>a. guarded_entry ow lk i (f a))"
| "guarded_entry ow lk i (Check d auth t f) \<longleftrightarrow> (\<forall>a. guarded_entry ow lk i (f a))"
| "guarded_entry ow lk i (Prepare gi f) \<longleftrightarrow> (\<forall>a. guarded_entry ow lk i (f a))"
| "guarded_entry ow lk i (Recover gi r f) \<longleftrightarrow> (\<forall>a. guarded_entry ow lk i (f a))"
| "guarded_entry ow lk i (Handle d ec x f) \<longleftrightarrow> False"
| "guarded_entry ow lk i (Measure d auth t x y f) \<longleftrightarrow> False"
| "guarded_entry ow lk i (Settle gi st f) \<longleftrightarrow> False"

lemma guarded_completeRefusal [simp]: "guarded_entry ow lk i (completeRefusal cx r t)"
  by (simp add: completeRefusal_def Let_def)

lemma guarded_govern:
  "ic_ledger_key cx = lk \<Longrightarrow> rc_invocation_id (ic_base cx) = i \<Longrightarrow> guarded_entry (rg_owner reg) lk i (govern js reg cx t a)"
  by (simp add: govern_def withhold_def run_authorized_def Let_def after_entry_handler split: option.split preparation.split)
    (simp add: authorized_receipt_def)

lemma guarded_resolve_target:
  assumes "ic_ledger_key cx = lk" and "rc_invocation_id (ic_base cx) = i"
  shows "guarded_entry (rg_owner reg) lk i (resolve_target js reg cx)"
proof -
  have "guarded_entry (rg_owner reg) lk i (evaluateAvailability d auth t (govern js reg cx u))" for d auth t u
    using assms by (simp add: evaluateAvailability_def guarded_govern split: option.split)
  then have "guarded_entry (rg_owner reg) lk i (check_request js reg cx t)" for t
    using assms by (simp add: check_request_def Let_def split: option.split validation.split)
  then show ?thesis using assms by (simp add: resolve_target_def Let_def split: option.split)
qed

context invocation_ledger
begin

lemma perform_after_entry:
  assumes "after_entry lk i p" and "ok s" and "stored s lk = Some (d, r0)" and "rc_invocation_id r0 = i"
    and "perform js begin' update' sv p n s l = (None, s', l')"
  shows "s' = s \<and> l' = l"
  using assms
proof (induction p arbitrary: n)
  case (Update k r p)
  then obtain s1 where "update' k r s = Inr s1" using update_accepts [OF Update.prems(2), of k d r0 r] by auto
  then show ?case using Update.prems(1,5) by auto
qed auto

lemma perform_guarded:
  assumes "guarded_entry ow lk i p" and "ok s" and "stored s lk = Some (d, r0)" and "rc_invocation_id r0 = i"
    and "perform js begin' update' sv p n s l = (None, s', l')" and "\<forall>k. Handled k \<notin> set l" and "\<exists>k. Handled k \<in> set l'"
  shows "ok s' \<and> (\<exists>r. stored s' lk = Some (d, r) \<and> rc_state r = Op_Running \<and> rc_owner r = Some ow)"
  using assms
proof (induction p arbitrary: n l)
  case (Update k r p)
  show ?case
  proof (cases "\<exists>x. p = Done x")
    case True
    then show ?thesis using Update.prems(5-7) by (auto split: sum.splits)
  next
    case False
    with Update.prems(1) obtain dd ec x f where
      p: "k = lk" "rc_invocation_id r = i" "rc_state r = Op_Running" "rc_owner r = Some ow" "p = Handle dd ec x f" "\<And>a. after_entry lk i (f a)" by auto
    obtain s1 where s1: "update' k r s = Inr s1" using update_accepts [OF Update.prems(2), of k d r0 r] Update.prems(3,4) p(1,2) by auto
    from update_replaces [OF Update.prems(2) s1] Update.prems(3) p(1) have st: "ok s1" "stored s1 lk = Some (d, r)" by auto
    from Update.prems(5) s1 p(5) have "perform js begin' update' sv (f (sv_handle sv (Suc n) dd ec x)) (Suc (Suc n)) s1 (l @ [Handled (exec_key js dd ec)]) = (None, s', l')"
      by simp
    from perform_after_entry [OF p(6) st p(2) this] have "s' = s1" by blast
    then show ?thesis using st p(3,4) by simp
  qed
next
  case (Prepare gi f)
  let ?a = "sv_prepare sv n gi"
  have "\<forall>k. Handled k \<notin> set (l @ prepare_events js gi ?a)"
    using Prepare.prems(6) by (auto simp: prepare_events_def split: option.splits preparation.splits)
  then show ?case using Prepare.IH [of "f ?a" "Suc n" "l @ prepare_events js gi ?a"] Prepare.prems by auto
qed (simp_all, blast+)

lemma thrown_after_entry:
  assumes inv: "named_inv js ok stored b"
    and run: "perform js begin' update' sv (invoke js reg env fresh request) n (bus_ledger b) [] = (None, s', es)"
    and entered: "Handled k \<in> set es"
  shows "ok s' \<and> (\<exists>r. stored s' (request_key js env fresh request) = Some (request_digest js fresh request, r)
    \<and> rc_state r = Op_Running \<and> rc_owner r = Some (rg_owner reg))"
proof -
  let ?k = "request_key js env fresh request" and ?d = "request_digest js fresh request"
  have o: "ok (bus_ledger b)" using inv by (simp add: named_inv_def)
  obtain cx e s1 where cx: "context_for js reg env fresh request cx" and reserve: "begin' ?k ?d (ic_base cx) (bus_ledger b) = Inr (e, s1)"
      and rest: "perform js begin' update' sv (after_begin js reg cx e) (Suc (Suc n)) s1 (begin_events ?k ?d e) = (None, s', es)"
  proof (cases rule: invoke_cases [of js reg env fresh request])
    case (rejected r)
    then show thesis using run entered by simp
  next
    case (begins cx)
    show thesis using run entered that [OF begins(1) [of "sv_now sv n"]] unfolding begins(2) by (auto split: sum.splits)
  qed
  have c: "ic_ledger_key cx = ?k" "rc_invocation_id (ic_base cx) = invocationId js ?k" "ic_digest cx = ?d" using cx by (simp_all add: context_for_def)
  have quiet: "\<forall>k. Handled k \<notin> set (begin_events ?k ?d e)" by (auto simp: begin_events_def split: option.splits)
  consider "e = None" | r where "e = Some (?d, r)" "rc_state r = Op_Awaiting"
  proof (cases "e = None \<or> (\<exists>r. e = Some (?d, r) \<and> rc_state r = Op_Awaiting)")
    case False
    with c(3) have "begin_events ?k ?d e = []" "snd (snd (perform js begin' update' sv (after_begin js reg cx e) (Suc (Suc n)) s1 [])) = []"
      using perform_not_admitted [of e cx] by auto
    then have "es = []" using rest by simp
    then show thesis using entered by simp
  qed auto
  then show ?thesis
  proof cases
    case 1
    then have s1: "ok s1" "stored s1 ?k = Some (?d, ic_base cx)" using begin_reserves [OF o, of ?k ?d "ic_base cx"] reserve by auto
    have "perform js begin' update' sv (resolve_target js reg cx) (Suc (Suc n)) s1 (begin_events ?k ?d e) = (None, s', es)"
      using rest 1 by (simp add: after_begin_def)
    from perform_guarded [OF guarded_resolve_target [OF c(1,2)] s1 c(2) this quiet] entered show ?thesis by blast
  next
    case (2 r)
    have s1: "s1 = bus_ledger b" "stored s1 ?k = Some (?d, r)" using begin_finds [OF o, of ?k ?d "ic_base cx"] reserve 2 by auto
    have r: "rc_invocation_id r = invocationId js ?k" using inv s1 by (auto simp: named_inv_def)
    let ?cx = "cx\<lparr>ic_base := r, ic_prior := Some (rc_governance r), ic_provenance := rc_provenance r\<rparr>"
    have "perform js begin' update' sv (resolve_target js reg ?cx) (Suc (Suc n)) s1 (begin_events ?k ?d e) = (None, s', es)"
      using rest 2 c(3) by (simp add: after_begin_def replay_def Let_def)
    from perform_guarded [OF guarded_resolve_target [of ?cx, OF _ _] _ s1(2) r this quiet] c(1) r o s1(1) entered show ?thesis by auto
  qed
qed

end

text \<open>
  C25: a call that throws after the handler was entered leaves the invocation running. The code leaves
  two calls there unguarded, the settlement of a refusal by the handler and the validation of its
  result; when one of them throws, so does \<^verbatim>\<open>invoke\<close>, the ledger keeps the running receipt owned by this process, and every retry through the same
  registry answers with that receipt without settling it, whatever the dependencies do by then.
\<close>

theorem thrown_refusal_stays_running:
  assumes "(bus_step js sqlite_begin sqlite_update)\<^sup>*\<^sup>* \<lparr>bus_ledger = [], bus_runs = [], bus_log = []\<rparr> b"
    and "perform js sqlite_begin sqlite_update sv (invoke js reg env fresh request) 0 (bus_ledger b) [] = (None, rows, es)"
    and "Handled k \<in> set es" and "supplied_key request \<noteq> None" and "rg_owner reg \<noteq> []"
  shows "\<exists>r. getByLedgerKey (request_key js env fresh request) rows = Some (request_digest js fresh request, r) \<and> rc_state r = Op_Running
    \<and> (\<forall>sv' fresh'. perform js sqlite_begin sqlite_update sv' (invoke js reg env fresh' request) 0 rows [] = (Some (Receipt True r), rows, []))"
proof -
  have "named_inv js ledger_inv (\<lambda>rows k. getByLedgerKey k rows) b"
    using assms(1) by (rule sqlite.named_reachable) (simp_all add: ledger_inv_def getByLedgerKey_def)
  from sqlite.thrown_after_entry [OF this assms(2,3)] obtain r where
    r: "getByLedgerKey (request_key js env fresh request) rows = Some (request_digest js fresh request, r)" "rc_state r = Op_Running"
      "rc_owner r = Some (rg_owner reg)" by blast
  have same: "request_key js env fresh' request = request_key js env fresh request" "request_digest js fresh' request = request_digest js fresh request" for fresh'
    using assms(4) by (auto simp: request_key_def request_digest_def effective_key_def)
  obtain d where d: "find_definition reg (op_id request) (op_version request) = Some d"
    using assms(2,3) by (cases "find_definition reg (op_id request) (op_version request)") (simp_all add: invoke_def)
  have "perform js sqlite_begin sqlite_update sv' (invoke js reg env fresh' request) 0 rows [] = (Some (Receipt True r), rows, [])" for sv' fresh'
  proof (cases rule: invoke_cases [of js reg env fresh' request])
    case (rejected x)
    then show ?thesis using d assms(4) by (simp add: invoke_def Let_def)
  next
    case (begins cx)
    have "\<exists>x \<in> set rows. lr_key x = request_key js env fresh request" using r(1) by (auto simp: getByLedgerKey_def dest: row_where_SomeD)
    then have "sqlite_begin (request_key js env fresh request) d' r' rows = Inr (Some (request_digest js fresh request, r), rows)" for d' r'
      using r(1) by (auto simp: sqlite_begin_def ledger_ignores_def list_ex_iff)
    moreover have "ic_digest (cx t) = request_digest js fresh request" for t using begins(1) by (simp add: context_for_def same [of fresh'])
    ultimately show ?thesis using r(2,3) assms(5) unfolding begins(2) same [of fresh']
      by (simp add: after_begin_def replay_def ownerMayStillBeRunning_def Let_def begin_events_def)
  qed
  then show ?thesis using r by blast
qed

section \<open>Worked runs\<close>

definition sample_effects :: operation_effects where
  "sample_effects = \<lparr>eff_mode = ''write'', eff_reversibility = ''reversible'', eff_external = False, eff_secret_access = ''none'', eff_restore_hold = False\<rparr>"

definition sample_operation :: op_definition where
  "sample_operation = \<lparr>od_id = ''o'', od_version = ''1'', od_boundary_kinds = [Workspace_Kind], od_category = ''c'', od_title = ''t'',
     od_description = ''d'', od_effects = sample_effects, od_required_grants = [], od_modes = [Interactive], od_confirmation = None,
     od_session_approval = False, od_broker = None, od_target_kinds = [], od_expected_revision = Not_Applicable,
     od_input = \<lparr>sc_version = ''1'', sc_schema = JNull\<rparr>, od_result = \<lparr>sc_version = ''1'', sc_schema = JNull\<rparr>, od_measures = False, od_availability = False\<rparr>"

definition sample_registry :: registry where
  "sample_registry = \<lparr>rg_definitions = [sample_operation], rg_current = [(''o'', ''1'')], rg_owner = ''operation_owner_7_x'', rg_pid = 7\<rparr>"

definition sample_environment :: environment where
  "sample_environment = \<lparr>en_authority = \<lparr>auth_principal_id = ''p'', auth_boundary = Workspace ''w'', capability_grant_ids = [], session_capability_grant_ids = [],
     auth_grants = [], auth_interaction = \<lparr>mode = Interactive, session_id = ''s'', broker_id = None, confirmed_prompts = [], approval_refs = []\<rparr>\<rparr>,
     en_provenance = None\<rparr>"

definition sample_request :: op_request where
  "sample_request = \<lparr>op_id = ''o'', op_version = ''1'', op_schema_version = ''1'', op_target = None, op_expected = None, op_key = Some ''k'', op_input = JNull\<rparr>"

definition sample_prepared :: prepared where
  "sample_prepared = \<lparr>pr_evidence = EMPTY_GOVERNANCE_EVIDENCE, pr_audit = None, pr_provenance = EMPTY_OPERATION_PROVENANCE\<rparr>"

definition answering :: "preparation \<Rightarrow> outcome \<Rightarrow> bool \<Rightarrow> services" where
  "answering prep out settles = \<lparr>sv_now = (\<lambda>_. ''.''), sv_alive = (\<lambda>_ _. False), sv_validate = (\<lambda>_ _ _. Some Valid_Value), sv_resolve = (\<lambda>_ _. Some None), sv_check = (\<lambda>_ _ _ _. None),
     sv_prepare = (\<lambda>_ _. Some prep), sv_recover = (\<lambda>_ _ _. True), sv_handle = (\<lambda>_ _ _ _. Some out), sv_measure = (\<lambda>_ _ _ _ _ _. None),
     sv_settle = (\<lambda>_ _ _. settles)\<rparr>"

definition sample_success :: outcome where
  "sample_success = Succeeded \<lparr>su_accepted = False, su_result = JNull, su_changed = None, su_progress = None, su_cancel = None, su_audit = None\<rparr>"

definition completing :: services where
  "completing = answering (Authorized sample_prepared) sample_success True"

definition completed_run :: "invocation_response option \<times> ledger_row list \<times> event list" where
  "completed_run = perform sample_platform sqlite_begin sqlite_update completing (invoke sample_platform sample_registry sample_environment [] sample_request) 0 [] []"

abbreviation sample_key :: string where
  "sample_key \<equiv> request_key sample_platform sample_environment [] sample_request"

lemma completed_run_log: "snd (snd completed_run) = [Reserved sample_key, Authorised sample_key, Handled sample_key]"
  by code_simp

lemma completed_run_result: "map_option (\<lambda>(d, r). (d, rc_state r)) (getByLedgerKey sample_key (fst (snd completed_run)))
    = Some (request_digest sample_platform [] sample_request, Op_Completed)"
  by code_simp

lemma run_reaches:
  assumes "x = perform js B U sv (invoke js reg env fresh request) n s []"
  shows "(bus_step js B U)\<^sup>*\<^sup>* \<lparr>bus_ledger = s, bus_runs = [], bus_log = []\<rparr> \<lparr>bus_ledger = fst (snd x), bus_runs = [ends_as (fst x)], bus_log = snd (snd x)\<rparr>"
  by (rule perform_from_start [of js B U sv reg env fresh request n]) (simp add: assms [symmetric])

theorem handler_at_most_once_witness:
  "count_list (snd (snd completed_run)) (Handled sample_key) = 1 \<and> count_list (snd (snd completed_run)) (Handled sample_key)
    \<le> count_list (snd (snd completed_run)) (Authorised sample_key)"
  using handler_at_most_once [OF run_reaches [OF completed_run_def], of sample_key] by (simp add: completed_run_log)

definition waiting_run :: "invocation_response option \<times> ledger_row list \<times> event list" where
  "waiting_run = perform sample_platform sqlite_begin sqlite_update (answering (Awaiting key_required sample_prepared) sample_success True)
     (invoke sample_platform sample_registry sample_environment [] sample_request) 0 [] []"

definition resumed_run :: "invocation_response option \<times> ledger_row list \<times> event list" where
  "resumed_run = perform sample_platform sqlite_begin sqlite_update completing
     (invoke sample_platform sample_registry sample_environment [] sample_request) 0 (fst (snd waiting_run)) []"

lemma resumed_run_log: "snd (snd resumed_run) = [Resumed sample_key, Authorised sample_key, Handled sample_key]"
  by code_simp

theorem admitted_invocation_settles_witness: "\<exists>d r. fst resumed_run = Some (Receipt False r) \<and> getByLedgerKey sample_key (fst (snd resumed_run)) = Some (d, r)
    \<and> rc_state r \<noteq> Op_Running"
proof -
  have sv: "dependable completing" by (simp add: dependable_def completing_def answering_def)
  have run: "perform sample_platform sqlite_begin sqlite_update completing (invoke sample_platform sample_registry sample_environment [] sample_request) 0
      (bus_ledger \<lparr>bus_ledger = fst (snd waiting_run), bus_runs = [ends_as (fst waiting_run)], bus_log = snd (snd waiting_run)\<rparr>) []
      = (fst resumed_run, fst (snd resumed_run), snd (snd resumed_run))" by (simp add: resumed_run_def)
  have "Resumed sample_key \<in> set (snd (snd resumed_run))" by (simp add: resumed_run_log)
  with admitted_invocation_settles [OF run_reaches [OF waiting_run_def] sv run] show ?thesis by blast
qed

theorem settled_invocation_replays_witness:
  "\<exists>r. perform sample_platform sqlite_begin sqlite_update completing (invoke sample_platform sample_registry sample_environment [] sample_request) 0
    (fst (snd completed_run)) [] = (Some (Receipt True r), fst (snd completed_run), [])"
proof -
  obtain r where r: "getByLedgerKey sample_key (fst (snd completed_run)) = Some (request_digest sample_platform [] sample_request, r)" "rc_state r = Op_Completed"
    using completed_run_result by auto
  have "named_inv sample_platform ledger_inv (\<lambda>rows k. getByLedgerKey k rows)
      \<lparr>bus_ledger = fst (snd completed_run), bus_runs = [ends_as (fst completed_run)], bus_log = snd (snd completed_run)\<rparr>"
    using run_reaches [OF completed_run_def] by (rule sqlite.named_reachable) (simp_all add: ledger_inv_def getByLedgerKey_def)
  then have "ledger_inv (fst (snd completed_run))" by (simp add: named_inv_def)
  moreover have "find_definition sample_registry (op_id sample_request) (op_version sample_request) = Some sample_operation" by code_simp
  moreover have "supplied_key sample_request \<noteq> None" by code_simp
  ultimately show ?thesis
    using settled_invocation_replays [OF _ r(1), of sample_registry sample_operation completing] r(2) by auto
qed

definition refusing :: services where
  "refusing = answering (Authorized sample_prepared) (Handler_Refused key_required) False"

definition thrown_run :: "invocation_response option \<times> ledger_row list \<times> event list" where
  "thrown_run = perform sample_platform sqlite_begin sqlite_update refusing (invoke sample_platform sample_registry sample_environment [] sample_request) 0 [] []"

lemma thrown_run_end: "fst thrown_run = None" "snd (snd thrown_run) = [Reserved sample_key, Authorised sample_key, Handled sample_key]"
  by code_simp+

text \<open>A result schema that does not compile: the handler has run, and its invocation stays running.\<close>

definition unvalidated_run :: "invocation_response option \<times> ledger_row list \<times> event list" where
  "unvalidated_run = perform sample_platform sqlite_begin sqlite_update (completing\<lparr>sv_validate := (\<lambda>n _ _. if n = 2 then Some Valid_Value else None)\<rparr>)
     (invoke sample_platform sample_registry sample_environment [] sample_request) 0 [] []"

lemma unvalidated_result_stays_running:
  "fst unvalidated_run = None" "snd (snd unvalidated_run) = [Reserved sample_key, Authorised sample_key, Handled sample_key]"
  "map_option (\<lambda>(d, r). (rc_state r, rc_owner r)) (getByLedgerKey sample_key (fst (snd unvalidated_run))) = Some (Op_Running, Some (rg_owner sample_registry))"
  by code_simp+

theorem thrown_refusal_stays_running_witness:
  "\<exists>r. perform sample_platform sqlite_begin sqlite_update completing (invoke sample_platform sample_registry sample_environment [] sample_request) 0
    (fst (snd thrown_run)) [] = (Some (Receipt True r), fst (snd thrown_run), []) \<and> rc_state r = Op_Running"
proof -
  have run: "perform sample_platform sqlite_begin sqlite_update refusing (invoke sample_platform sample_registry sample_environment [] sample_request) 0
      (bus_ledger \<lparr>bus_ledger = [], bus_runs = [], bus_log = []\<rparr>) [] = (None, fst (snd thrown_run), snd (snd thrown_run))"
    using thrown_run_end(1) unfolding thrown_run_def bus.simps by (metis prod.collapse)
  have "Handled sample_key \<in> set (snd (snd thrown_run))" by (simp add: thrown_run_end)
  moreover have "supplied_key sample_request \<noteq> None" "rg_owner sample_registry \<noteq> []" by code_simp+
  ultimately show ?thesis using thrown_refusal_stays_running [OF rtranclp.rtrancl_refl run] by blast
qed

end
