(* ===== verification/Approvals.thy ===== *)
theory Approvals
  imports Policy_Evaluation
begin

text \<open>
  \<^verbatim>\<open>floe-bus/src/approvals.ts\<close>: requests for approval of one exact action, the individual decisions on
  them, the receipt an approved request yields and the uses of it. The JSON columns of a row are the
  values they encode. What the store asks of its dependencies (the current authority of an approver,
  whether an action is still current) is an argument of the operation that asks.
\<close>

section \<open>Data\<close>

text \<open>A resource reference whose revision may be left out or \<^verbatim>\<open>null\<close>, which its digest distinguishes.\<close>

record approval_ref =
  af_kind :: string
  af_id :: string
  af_revision :: "string option option"

record expected_effect =
  ee_summary :: string
  ee_external :: bool
  ee_reversibility :: string
  ee_refs :: "approval_ref list"

record approval_action =
  aa_operation :: string
  aa_principal :: string
  aa_target :: "approval_ref option"
  aa_input :: string
  aa_artefacts :: "string list"
  aa_composition :: "string option"
  aa_placement :: "string option"
  aa_scope_execution :: "string option"
  aa_node_execution :: "string option"
  aa_connector :: "string option"
  aa_package :: "string option"
  aa_policy_ref :: "approval_ref option"
  aa_grants :: "string list"
  aa_effect :: expected_effect

datatype request_status = Pending | Approved | Rejected | Cancelled | Invalidated

datatype vote = Vote_Approved | Vote_Rejected | Vote_Changes

datatype decision_source = From_Evaluation string string string string | Legacy_Any_One | Local_Operator string

record decision_policy =
  dp_source :: decision_source
  dp_approvers :: approvers

type_synonym role_mark = "string \<times> string"

record individual_decision =
  dn_id :: string
  dn_request :: string
  dn_workspace :: string
  dn_principal :: string
  dn_vote :: vote
  dn_reason :: string
  dn_event :: string
  dn_grants :: "string list"
  dn_roles :: "role_mark list"
  dn_supersedes :: "string option"
  dn_key :: string
  dn_at :: string
  dn_set_digest :: string
  dn_resolution :: "vote option"

record decision_binding =
  nb_scope_execution :: string
  nb_composition :: string
  nb_execution :: string
  nb_placement :: string
  nb_revision :: int
  nb_approved :: string
  nb_rejected :: string
  nb_changes :: string

record request_row =
  qr_id :: string
  qr_workspace :: string
  qr_action :: approval_action
  qr_action_digest :: string
  qr_context :: "string option"
  qr_binding :: "decision_binding option"
  qr_response :: "string option"
  qr_policy :: decision_policy
  qr_policy_digest :: string
  qr_set_digest :: string
  qr_requester :: string
  qr_reason :: string
  qr_requested_at :: string
  qr_expires_at :: string
  qr_maximum :: int
  qr_key :: string
  qr_status :: request_status
  qr_outcome :: "vote option"
  qr_revision :: int
  qr_decided_by :: "string option"
  qr_event :: "string option"
  qr_decision_reason :: "string option"
  qr_decided_at :: "string option"

record receipt_row =
  rr_id :: string
  rr_request :: string
  rr_workspace :: string
  rr_action :: approval_action
  rr_action_digest :: string
  rr_set_digest :: string
  rr_context :: "string option"
  rr_requester :: string
  rr_approver :: string
  rr_event :: string
  rr_issued_at :: string
  rr_expires_at :: string
  rr_maximum :: int

record use_row =
  us_receipt :: string
  us_id :: string
  us_workspace :: string
  us_principal :: string
  us_operation :: string
  us_digest :: string
  us_at :: string

record revocation_row =
  rv_receipt :: string
  rv_workspace :: string
  rv_at :: string
  rv_by :: string
  rv_reason :: string

record approval_db =
  ap_requests :: "request_row list"
  ap_decisions :: "individual_decision list"
  ap_receipts :: "receipt_row list"
  ap_uses :: "use_row list"
  ap_revocations :: "revocation_row list"

record approval_progress =
  pg_received :: nat
  pg_required :: int
  pg_active :: nat
  pg_remaining :: "string list"
  pg_resolution :: "vote option"

record approval_request =
  rq_row :: request_row
  rq_decisions :: "individual_decision list"
  rq_progress :: approval_progress

record approval_receipt =
  rp_row :: receipt_row
  rp_use_count :: nat
  rp_revocation :: "revocation_row option"

datatype denial_code =
    approval_receipt_not_found | approval_workspace_mismatch | approval_principal_mismatch | approval_operation_mismatch
  | approval_action_changed | approval_approver_ineligible | approval_approver_authority_changed | approval_not_yet_active
  | approval_expired | approval_revoked | approval_uses_exhausted

datatype approval_error =
    Approval_Invalid string | Approval_Not_Found string string | Approval_Conflict string string | Approval_Denied denial_code
  | Approval_Constraint

section \<open>Texts\<close>

definition approval_control :: "char \<Rightarrow> bool" where
  "approval_control c = (let n = of_char c :: nat in n \<le> 8 \<or> n = 11 \<or> n = 12 \<or> (14 \<le> n \<and> n \<le> 31) \<or> n = 127)"

definition text_ok :: "nat \<Rightarrow> string \<Rightarrow> bool" where
  "text_ok maximum v = (\<not> is_blank v \<and> length v \<le> maximum \<and> \<not> list_ex approval_control v)"

definition requireText :: "nat \<Rightarrow> string \<Rightarrow> string \<Rightarrow> (approval_error, string) result" where
  "requireText maximum v label = (if text_ok maximum v then Inr v else Inl (Approval_Invalid (label @ '' must be non-empty text'')))"

definition optionalText :: "string option \<Rightarrow> string \<Rightarrow> (approval_error, string option) result" where
  "optionalText v label = (case v of None \<Rightarrow> Inr None | Some s \<Rightarrow> rbind (requireText 1024 s label) (\<lambda>t. Inr (Some t)))"

definition hex_char :: "char \<Rightarrow> bool" where
  "hex_char c = (let n = of_char c :: nat in (48 \<le> n \<and> n \<le> 57) \<or> (97 \<le> n \<and> n \<le> 102))"

definition requireSha256 :: "string \<Rightarrow> string \<Rightarrow> (approval_error, string) result" where
  "requireSha256 v label = rbind (requireText 64 v label) (\<lambda>t.
     if length (js_lower t) = 64 \<and> list_all hex_char (js_lower t) then Inr (js_lower t)
     else Inl (Approval_Invalid (label @ '' must be a SHA-256 digest'')))"

definition requireTimestamp :: "platform \<Rightarrow> string \<Rightarrow> string \<Rightarrow> (approval_error, string \<times> int) result" where
  "requireTimestamp js v label = rbind (requireText 1024 v label) (\<lambda>t. case date_parse js t of
      None \<Rightarrow> Inl (Approval_Invalid (label @ '' must be a canonical UTC ISO timestamp''))
    | Some ms \<Rightarrow> if to_iso_string js ms = t then Inr (t, ms) else Inl (Approval_Invalid (label @ '' must be a canonical UTC ISO timestamp'')))"

text \<open>\<^verbatim>\<open>Date.parse\<close> of a stored or clock value inside a comparison: \<^verbatim>\<open>NaN\<close> makes every comparison false.\<close>

definition time_le :: "platform \<Rightarrow> string \<Rightarrow> string \<Rightarrow> bool" where
  "time_le js a b = (case (date_parse js a, date_parse js b) of (Some x, Some y) \<Rightarrow> x \<le> y | _ \<Rightarrow> False)"

definition time_less :: "platform \<Rightarrow> string \<Rightarrow> string \<Rightarrow> bool" where
  "time_less js a b = (case (date_parse js a, date_parse js b) of (Some x, Some y) \<Rightarrow> x < y | _ \<Rightarrow> False)"

definition requireFutureTimestamp :: "platform \<Rightarrow> string \<Rightarrow> string \<Rightarrow> string \<Rightarrow> (approval_error, string) result" where
  "requireFutureTimestamp js v after label = rbind (requireTimestamp js v label) (\<lambda>(t, _).
     if time_le js t after then Inl (Approval_Invalid (label @ '' must be in the future'')) else Inr t)"

definition requirePositiveInteger :: "int \<Rightarrow> string \<Rightarrow> (approval_error, int) result" where
  "requirePositiveInteger v label = (if v < 1 then Inl (Approval_Invalid (label @ '' must be a positive integer'')) else Inr v)"

definition requireReversibility :: "string \<Rightarrow> (approval_error, string) result" where
  "requireReversibility v = (if v \<in> {''none'', ''reversible'', ''irreversible''} then Inr v
     else Inl (Approval_Invalid ''expected_effect.reversibility is invalid''))"

definition uniqueSorted :: "string list \<Rightarrow> string \<Rightarrow> (approval_error, string list) result" where
  "uniqueSorted vs label = rbind (rmapM (\<lambda>v. requireText 1024 v label) vs) (\<lambda>ts. Inr (js_sort binary_compare (js_uniq ts)))"

section \<open>Normal forms\<close>

definition normalizeResourceRef :: "string \<Rightarrow> approval_ref \<Rightarrow> (approval_error, approval_ref) result" where
  "normalizeResourceRef label r =
     rbind (requireText 1024 (af_kind r) (label @ ''.kind'')) (\<lambda>k.
     rbind (requireText 1024 (af_id r) (label @ ''.id'')) (\<lambda>i.
     rbind (case af_revision r of None \<Rightarrow> Inr None
            | Some v \<Rightarrow> rbind (optionalText v (label @ ''.revision'')) (\<lambda>t. Inr (Some t))) (\<lambda>v.
     Inr \<lparr>af_kind = k, af_id = i, af_revision = v\<rparr>)))"

definition normalizeOptionalRef :: "string \<Rightarrow> approval_ref option \<Rightarrow> (approval_error, approval_ref option) result" where
  "normalizeOptionalRef label r = (case r of None \<Rightarrow> Inr None | Some x \<Rightarrow> rbind (normalizeResourceRef label x) (\<lambda>y. Inr (Some y)))"

definition ref_text :: "approval_ref \<Rightarrow> string" where
  "ref_text r = af_kind r @ [CHR 0x00] @ af_id r @ [CHR 0x00] @ (case af_revision r of Some (Some v) \<Rightarrow> v | _ \<Rightarrow> [])"

definition compareResourceRefs :: "platform \<Rightarrow> approval_ref \<Rightarrow> approval_ref \<Rightarrow> int" where
  "compareResourceRefs js l r = locale_compare js (ref_text l) (ref_text r)"

definition normalizeApprovalAction :: "platform \<Rightarrow> approval_action \<Rightarrow> (approval_error, approval_action) result" where
  "normalizeApprovalAction js a =
     rbind (normalizeOptionalRef ''target'' (aa_target a)) (\<lambda>target.
     rbind (uniqueSorted (aa_artefacts a) ''artefact_version_id'') (\<lambda>artefacts.
     rbind (rmapM (normalizeResourceRef ''expected_effect.resource_refs'') (ee_refs (aa_effect a))) (\<lambda>refs.
     rbind (requireText 1024 (aa_operation a) ''operation_id'') (\<lambda>operation.
     rbind (requireText 1024 (aa_principal a) ''authorized_principal_id'') (\<lambda>principal.
     rbind (requireSha256 (aa_input a) ''input_digest'') (\<lambda>inputDigest.
     rbind (optionalText (aa_composition a) ''composition_revision_id'') (\<lambda>composition.
     rbind (optionalText (aa_placement a) ''node_placement_id'') (\<lambda>placement.
     rbind (optionalText (aa_scope_execution a) ''scope_execution_id'') (\<lambda>scopeExecution.
     rbind (optionalText (aa_node_execution a) ''node_execution_id'') (\<lambda>nodeExecution.
     rbind (optionalText (aa_connector a) ''connector_binding_revision_id'') (\<lambda>connector.
     rbind (optionalText (aa_package a) ''extension_package_version_id'') (\<lambda>package.
     rbind (normalizeOptionalRef ''approval_policy_ref'' (aa_policy_ref a)) (\<lambda>policyRef.
     rbind (uniqueSorted (aa_grants a) ''capability_grant_id'') (\<lambda>grants.
     rbind (requireText 16384 (ee_summary (aa_effect a)) ''expected_effect.summary'') (\<lambda>summary.
     rbind (requireReversibility (ee_reversibility (aa_effect a))) (\<lambda>reversibility.
     Inr \<lparr>aa_operation = operation, aa_principal = principal, aa_target = target, aa_input = inputDigest, aa_artefacts = artefacts,
       aa_composition = composition, aa_placement = placement, aa_scope_execution = scopeExecution, aa_node_execution = nodeExecution,
       aa_connector = connector, aa_package = package, aa_policy_ref = policyRef, aa_grants = grants,
       aa_effect = \<lparr>ee_summary = summary, ee_external = ee_external (aa_effect a), ee_reversibility = reversibility,
         ee_refs = js_sort (compareResourceRefs js) refs\<rparr>\<rparr>))))))))))))))))"

definition normalizeApprovalDecisionBinding :: "decision_binding option \<Rightarrow> (approval_error, decision_binding option) result" where
  "normalizeApprovalDecisionBinding b = (case b of None \<Rightarrow> Inr None
    | Some x \<Rightarrow>
      rbind (requireText 1024 (nb_scope_execution x) ''decision_binding.scope_execution_id'') (\<lambda>s.
      rbind (requireText 1024 (nb_composition x) ''decision_binding.composition_revision_id'') (\<lambda>c.
      rbind (requireText 1024 (nb_execution x) ''decision_binding.node_execution_id'') (\<lambda>e.
      rbind (requireText 1024 (nb_placement x) ''decision_binding.node_placement_id'') (\<lambda>p.
      rbind (requirePositiveInteger (nb_revision x) ''decision_binding.node_execution_state_revision'') (\<lambda>v.
      rbind (requireText 1024 (nb_approved x) ''decision_binding.outcome_port_ids.approved'') (\<lambda>oa.
      rbind (requireText 1024 (nb_rejected x) ''decision_binding.outcome_port_ids.rejected'') (\<lambda>orj.
      rbind (requireText 1024 (nb_changes x) ''decision_binding.outcome_port_ids.changes_requested'') (\<lambda>oc.
      Inr (Some \<lparr>nb_scope_execution = s, nb_composition = c, nb_execution = e, nb_placement = p, nb_revision = v, nb_approved = oa,
        nb_rejected = orj, nb_changes = oc\<rparr>))))))))))"

definition legacyDecisionPolicy :: decision_policy where
  "legacyDecisionPolicy = \<lparr>dp_source = Legacy_Any_One, dp_approvers = Any_Of [] [''legacy:approval_decider'']\<rparr>"

definition normalize_source :: "decision_source \<Rightarrow> (approval_error, decision_source) result" where
  "normalize_source s = (case s of
      From_Evaluation e v r f \<Rightarrow>
        rbind (requireText 1024 e ''decision_policy.source.policy_evaluation_id'') (\<lambda>e'.
        rbind (requireText 1024 v ''decision_policy.source.policy_revision_id'') (\<lambda>v'.
        rbind (requireText 1024 r ''decision_policy.source.rule_id'') (\<lambda>r'.
        rbind (requireSha256 f ''decision_policy.source.facts_digest'') (\<lambda>f'. Inr (From_Evaluation e' v' r' f')))))
    | Local_Operator p \<Rightarrow> rbind (requireText 1024 p ''decision_policy.source.principal_id'') (\<lambda>p'. Inr (Local_Operator p'))
    | Legacy_Any_One \<Rightarrow> Inr Legacy_Any_One)"

definition normalize_approvers :: "approvers \<Rightarrow> (approval_error, approvers) result" where
  "normalize_approvers a =
     (let principals = (case a of Any_Of ps _ \<Rightarrow> ps | All_Named ps \<Rightarrow> ps | Quorum ps _ _ \<Rightarrow> ps);
          roles = (case a of Any_Of _ rs \<Rightarrow> rs | All_Named _ \<Rightarrow> [] | Quorum _ rs _ \<Rightarrow> rs) in
      rbind (uniqueSorted principals ''decision_policy.approvers.principal_id'') (\<lambda>ps.
      case a of
        All_Named _ \<Rightarrow> throw_if (ps = []) (Approval_Invalid ''an all_named decision policy requires at least one principal'') (Inr (All_Named ps))
      | Any_Of _ _ \<Rightarrow> rbind (uniqueSorted roles ''decision_policy.approvers.role'') (\<lambda>rs.
          throw_if (ps = [] \<and> rs = []) (Approval_Invalid ''an approval decision policy must name a principal or role'') (Inr (Any_Of ps rs)))
      | Quorum _ _ q \<Rightarrow> rbind (uniqueSorted roles ''decision_policy.approvers.role'') (\<lambda>rs.
          throw_if (ps = [] \<and> rs = []) (Approval_Invalid ''an approval decision policy must name a principal or role'')
          (rbind (requirePositiveInteger q ''decision_policy.approvers.quorum'') (\<lambda>n.
           throw_if (rs = [] \<and> n > int (length ps)) (Approval_Invalid ''approval quorum exceeds the named eligible principals'')
           (Inr (Quorum ps rs n)))))))"

definition normalizeApprovalDecisionPolicy :: "decision_policy \<Rightarrow> (approval_error, decision_policy) result" where
  "normalizeApprovalDecisionPolicy p =
     rbind (normalize_source (dp_source p)) (\<lambda>s. rbind (normalize_approvers (dp_approvers p)) (\<lambda>a. Inr \<lparr>dp_source = s, dp_approvers = a\<rparr>))"

end
