(* ===== verification/Approval_Decisions.thy ===== *)
theory Approval_Decisions
  imports Approvals
begin

text \<open>
  \<^verbatim>\<open>floe-bus/src/approvals.ts\<close>: the digests of an action, of a decision policy and of a set of decisions,
  who may decide, which decisions are active and what they resolve to.
\<close>

section \<open>Digests\<close>

definition domain_digest :: "platform \<Rightarrow> string \<Rightarrow> json \<Rightarrow> string" where
  "domain_digest js domain v = sha256_hex js (domain @ [CHR 0x00] @ canonicalJson js v)"

definition approval_ref_json :: "approval_ref \<Rightarrow> json" where
  "approval_ref_json r = JObj ([(''kind'', JStr (af_kind r)), (''id'', JStr (af_id r))]
     @ (case af_revision r of None \<Rightarrow> [] | Some v \<Rightarrow> [(''revision'', jopt JStr v)]))"

definition expected_effect_json :: "expected_effect \<Rightarrow> json" where
  "expected_effect_json e = JObj [(''summary'', JStr (ee_summary e)), (''external'', JBool (ee_external e)),
     (''reversibility'', JStr (ee_reversibility e)), (''resource_refs'', JArr (map approval_ref_json (ee_refs e)))]"

definition action_json :: "approval_action \<Rightarrow> json" where
  "action_json a = JObj [(''operation_id'', JStr (aa_operation a)), (''authorized_principal_id'', JStr (aa_principal a)),
     (''target'', jopt approval_ref_json (aa_target a)), (''input_digest'', JStr (aa_input a)),
     (''artefact_version_ids'', jtexts (aa_artefacts a)), (''composition_revision_id'', jopt JStr (aa_composition a)),
     (''node_placement_id'', jopt JStr (aa_placement a)), (''scope_execution_id'', jopt JStr (aa_scope_execution a)),
     (''node_execution_id'', jopt JStr (aa_node_execution a)), (''connector_binding_revision_id'', jopt JStr (aa_connector a)),
     (''extension_package_version_id'', jopt JStr (aa_package a)), (''approval_policy_ref'', jopt approval_ref_json (aa_policy_ref a)),
     (''capability_grant_ids'', jtexts (aa_grants a)), (''expected_effect'', expected_effect_json (aa_effect a))]"

definition approvalActionDigest :: "platform \<Rightarrow> approval_action \<Rightarrow> (approval_error, string) result" where
  "approvalActionDigest js a =
     rbind (normalizeApprovalAction js a) (\<lambda>n. Inr (domain_digest js ''floe-approval-action:v1'' (action_json n)))"

definition decision_source_json :: "decision_source \<Rightarrow> json" where
  "decision_source_json s = (case s of
      From_Evaluation e v r f \<Rightarrow> JObj [(''kind'', JStr ''policy_evaluation''), (''policy_evaluation_id'', JStr e),
        (''policy_revision_id'', JStr v), (''rule_id'', JStr r), (''facts_digest'', JStr f)]
    | Local_Operator p \<Rightarrow> JObj [(''kind'', JStr ''local_operator''), (''principal_id'', JStr p)]
    | Legacy_Any_One \<Rightarrow> JObj [(''kind'', JStr ''legacy_any_one'')])"

definition decision_policy_json :: "decision_policy \<Rightarrow> json" where
  "decision_policy_json p = JObj [(''source'', decision_source_json (dp_source p)), (''approvers'', approvers_json (dp_approvers p))]"

definition policy_digest :: "platform \<Rightarrow> decision_policy \<Rightarrow> string" where
  "policy_digest js p = domain_digest js ''floe-approval-decision-policy:v1'' (decision_policy_json p)"

definition vote_text :: "vote \<Rightarrow> string" where
  "vote_text v = (case v of Vote_Approved \<Rightarrow> ''approved'' | Vote_Rejected \<Rightarrow> ''rejected'' | Vote_Changes \<Rightarrow> ''changes_requested'')"

definition mark_text :: "role_mark \<Rightarrow> string" where
  "mark_text m = fst m @ [CHR 0x00] @ snd m"

definition compare_marks :: "platform \<Rightarrow> role_mark \<Rightarrow> role_mark \<Rightarrow> int" where
  "compare_marks js l r = locale_compare js (mark_text l) (mark_text r)"

definition mark_json :: "role_mark \<Rightarrow> json" where
  "mark_json m = JObj [(''role'', JStr (fst m)), (''authority_ref'', JStr (snd m))]"

text \<open>The digest of a decision leaves out its own digest and the resolution after it.\<close>

definition decision_json :: "platform \<Rightarrow> individual_decision \<Rightarrow> json" where
  "decision_json js d = JObj [(''approval_decision_id'', JStr (dn_id d)), (''approval_request_id'', JStr (dn_request d)),
     (''workspace_id'', JStr (dn_workspace d)), (''principal_id'', JStr (dn_principal d)), (''decision'', JStr (vote_text (dn_vote d))),
     (''reason'', JStr (dn_reason d)), (''decision_event_id'', JStr (dn_event d)),
     (''authority_grant_ids'', jtexts (js_sort binary_compare (dn_grants d))),
     (''role_evidence'', JArr (map mark_json (js_sort (compare_marks js) (dn_roles d)))),
     (''supersedes_decision_id'', jopt JStr (dn_supersedes d)), (''idempotency_key'', JStr (dn_key d)), (''decided_at'', JStr (dn_at d))]"

definition approvalDecisionSetDigest :: "platform \<Rightarrow> individual_decision list \<Rightarrow> string" where
  "approvalDecisionSetDigest js ds = domain_digest js ''floe-approval-decision-set:v1'' (JArr (map (decision_json js) ds))"

definition approvalReceiptStateRevision :: "platform \<Rightarrow> approval_receipt \<Rightarrow> string" where
  "approvalReceiptStateRevision js r = domain_digest js ''floe-approval-receipt-state:v1''
     (JObj [(''approval_receipt_id'', JStr (rr_id (rp_row r))), (''action_digest'', JStr (rr_action_digest (rp_row r))),
        (''decision_set_digest'', JStr (rr_set_digest (rp_row r))), (''maximum_uses'', JNum (of_int (rr_maximum (rp_row r)))),
        (''use_count'', JNum (of_nat (rp_use_count r))), (''expires_at'', JStr (rr_expires_at (rp_row r))),
        (''revoked_at'', jopt JStr (map_option rv_at (rp_revocation r))),
        (''revoked_by_principal_id'', jopt JStr (map_option rv_by (rp_revocation r)))])"

section \<open>Who may decide\<close>

definition stands_in_prefix :: string where
  "stands_in_prefix = ''stands_in_for:''"

definition stands_in_for :: "role_mark \<Rightarrow> string option" where
  "stands_in_for m = (if starts_with (fst m) stands_in_prefix then Some (drop (length stands_in_prefix) (fst m)) else None)"

definition creditedPrincipalId :: "individual_decision \<Rightarrow> string" where
  "creditedPrincipalId d = (case find (\<lambda>m. stands_in_for m \<noteq> None) (dn_roles d) of
      Some m \<Rightarrow> the (stands_in_for m) | None \<Rightarrow> dn_principal d)"

record decision_authority =
  da_grants :: "string list"
  da_roles :: "role_mark list"

definition named_principals :: "approvers \<Rightarrow> string list" where
  "named_principals a = (case a of Any_Of ps _ \<Rightarrow> ps | All_Named ps \<Rightarrow> ps | Quorum ps _ _ \<Rightarrow> ps)"

definition permitted_roles :: "approvers \<Rightarrow> string list" where
  "permitted_roles a = (case a of Any_Of _ rs \<Rightarrow> rs | All_Named _ \<Rightarrow> [] | Quorum _ rs _ \<Rightarrow> rs)"

definition stand_ins :: "approvers \<Rightarrow> string \<Rightarrow> role_mark list \<Rightarrow> role_mark list" where
  "stand_ins a who marks = (if who \<in> set (named_principals a) then []
     else filter (\<lambda>m. case stands_in_for m of None \<Rightarrow> False | Some p \<Rightarrow> p \<in> set (named_principals a)) marks)"

definition require_mark :: "role_mark \<Rightarrow> (approval_error, role_mark) result" where
  "require_mark m = rbind (requireText 1024 (fst m) ''role_evidence.role'') (\<lambda>r.
     rbind (requireText 1024 (snd m) ''role_evidence.authority_ref'') (\<lambda>a. Inr (r, a)))"

text \<open>
  The first component says whether the principal may decide, the second is the evidence its decision
  records. \<^verbatim>\<open>standsIn.includes(item)\<close> compares object identities; an item of the evidence is a stand-in
  exactly when its contents are, so comparing contents gives the same answer.
\<close>

definition eligibleDecisionAuthority ::
  "platform \<Rightarrow> decision_policy \<Rightarrow> string \<Rightarrow> decision_authority \<Rightarrow> (approval_error, bool \<times> role_mark list) result" where
  "eligibleDecisionAuthority js p who au =
     (let a = dp_approvers p; standsIn = stand_ins a who (da_roles au);
          named = (who \<in> set (named_principals a) \<or> standsIn \<noteq> []);
          legacy = (dp_source p = Legacy_Any_One) in
      rbind (rmapM require_mark (filter (\<lambda>m. fst m \<in> set (permitted_roles a) \<or> m \<in> set standsIn) (da_roles au))) (\<lambda>marks.
      let recorded = js_sort (compare_marks js) marks in
      Inr ((legacy \<or> da_grants au \<noteq> []) \<and> (named \<or> recorded \<noteq> [] \<or> legacy), recorded)))"

section \<open>What the decisions resolve to\<close>

definition superseded_ids :: "individual_decision list \<Rightarrow> string list" where
  "superseded_ids ds = concat (map (\<lambda>d. case dn_supersedes d of None \<Rightarrow> [] | Some i \<Rightarrow> if i = [] then [] else [i]) ds)"

definition activeApprovalDecisions :: "individual_decision list \<Rightarrow> individual_decision list" where
  "activeApprovalDecisions ds = filter (\<lambda>d. dn_id d \<notin> set (superseded_ids ds)) ds"

definition approved_principals :: "individual_decision list \<Rightarrow> string list" where
  "approved_principals active = js_uniq (map creditedPrincipalId (filter (\<lambda>d. dn_vote d = Vote_Approved) active))"

definition resolveApprovalDecisionPolicy :: "decision_policy \<Rightarrow> individual_decision list \<Rightarrow> vote option" where
  "resolveApprovalDecisionPolicy p active = (case find (\<lambda>d. dn_vote d \<noteq> Vote_Approved) active of
      Some d \<Rightarrow> Some (dn_vote d)
    | None \<Rightarrow> (let approvals = approved_principals active in
        case dp_approvers p of
          Any_Of _ _ \<Rightarrow> if length approvals \<ge> 1 then Some Vote_Approved else None
        | Quorum _ _ q \<Rightarrow> if int (length approvals) \<ge> q then Some Vote_Approved else None
        | All_Named ps \<Rightarrow> if list_all (\<lambda>p. p \<in> set approvals) ps then Some Vote_Approved else None))"

definition approvalProgress :: "decision_policy \<Rightarrow> individual_decision list \<Rightarrow> vote option \<Rightarrow> approval_progress" where
  "approvalProgress p ds resolution =
     (let active = activeApprovalDecisions ds; approvals = approved_principals active; a = dp_approvers p in
      \<lparr>pg_received = length approvals,
       pg_required = (case a of Quorum _ _ q \<Rightarrow> q | All_Named ps \<Rightarrow> int (length ps) | Any_Of _ _ \<Rightarrow> 1),
       pg_active = length active, pg_remaining = filter (\<lambda>i. i \<notin> set approvals) (named_principals a), pg_resolution = resolution\<rparr>)"

end
