(* ===== verification/Approval_Store.thy ===== *)
theory Approval_Store
  imports Approval_Decisions
begin

text \<open>
  \<^verbatim>\<open>floe-bus/src/approvals.ts\<close>, class \<^verbatim>\<open>ApprovalStore\<close>. The dependencies the constructor takes are an
  environment: the authority a principal has for a request now, whether the action of a request is
  still current, and which contexts exist (the table the foreign key of a request names). Clock and
  identifier results are arguments. An error leaves the database as it was, except in the
  verification of a receipt, which retains a revocation and then refuses: that operation and the
  consumption built on it return the database beside the result.
\<close>

section \<open>Dependencies\<close>

record authority_query =
  aq_workspace :: string
  aq_principal :: string
  aq_request :: string
  aq_context :: "string option"
  aq_binding :: "decision_binding option"

record action_query =
  cq_workspace :: string
  cq_request :: string
  cq_action :: approval_action
  cq_policy :: decision_policy
  cq_context :: "string option"
  cq_binding :: "decision_binding option"

record approval_env =
  ae_js :: platform
  ae_authority :: "authority_query \<Rightarrow> decision_authority"
  ae_current :: "action_query \<Rightarrow> bool"
  ae_context :: "string \<Rightarrow> bool"

definition authority_of :: "approval_env \<Rightarrow> request_row \<Rightarrow> string \<Rightarrow> decision_authority" where
  "authority_of env q who = ae_authority env \<lparr>aq_workspace = qr_workspace q, aq_principal = who, aq_request = qr_id q,
     aq_context = qr_context q, aq_binding = qr_binding q\<rparr>"

definition action_is_current :: "approval_env \<Rightarrow> request_row \<Rightarrow> bool" where
  "action_is_current env q = ae_current env \<lparr>cq_workspace = qr_workspace q, cq_request = qr_id q, cq_action = qr_action q,
     cq_policy = qr_policy q, cq_context = qr_context q, cq_binding = qr_binding q\<rparr>"

definition decisionAuthorityIsCurrent :: "approval_env \<Rightarrow> request_row \<Rightarrow> individual_decision \<Rightarrow> bool" where
  "decisionAuthorityIsCurrent env q d =
     (dp_source (qr_policy q) = Legacy_Any_One \<or>
      (let now = authority_of env q (dn_principal d) in
       dn_grants d \<noteq> [] \<and> list_all (\<lambda>g. g \<in> set (da_grants now)) (dn_grants d)
       \<and> list_all (\<lambda>m. mark_text m \<in> set (map mark_text (da_roles now))) (dn_roles d)))"

section \<open>Reading rows\<close>

definition stored_invalid :: "(approval_error, 'a) result \<Rightarrow> (approval_error, 'a) result" where
  "stored_invalid m = (case m of Inr x \<Rightarrow> Inr x | Inl _ \<Rightarrow> Inl (Approval_Invalid ''the stored value is invalid''))"

definition mapIndividualDecision :: "individual_decision \<Rightarrow> (approval_error, individual_decision) result" where
  "mapIndividualDecision d = throw_if (list_ex (\<lambda>g. g = []) (dn_grants d)) (Approval_Invalid ''stored authority_grant_ids_json is invalid'') (Inr d)"

definition decision_compare :: "individual_decision \<Rightarrow> individual_decision \<Rightarrow> int" where
  "decision_compare = or_compare (\<lambda>l r. binary_compare (dn_at l) (dn_at r)) (\<lambda>l r. binary_compare (dn_id l) (dn_id r))"

definition listDecisions :: "approval_db \<Rightarrow> string \<Rightarrow> (approval_error, individual_decision list) result" where
  "listDecisions db i = rmapM mapIndividualDecision (js_sort decision_compare (filter (\<lambda>d. dn_request d = i) (ap_decisions db)))"

definition getDecision :: "approval_db \<Rightarrow> string \<Rightarrow> (approval_error, individual_decision option) result" where
  "getDecision db i = (case row_where (\<lambda>d. dn_id d = i) (ap_decisions db) of None \<Rightarrow> Inr None
     | Some d \<Rightarrow> rbind (mapIndividualDecision d) (\<lambda>x. Inr (Some x)))"

definition mapRequest :: "platform \<Rightarrow> request_row \<Rightarrow> individual_decision list \<Rightarrow> (approval_error, approval_request) result" where
  "mapRequest js q ds =
     rbind (normalizeApprovalDecisionPolicy (qr_policy q)) (\<lambda>p.
     rbind (stored_invalid (normalizeApprovalAction js (qr_action q))) (\<lambda>a.
     rbind (stored_invalid (normalizeApprovalDecisionBinding (qr_binding q))) (\<lambda>b.
     Inr \<lparr>rq_row = q\<lparr>qr_policy := p, qr_action := a, qr_binding := b\<rparr>, rq_decisions = ds,
       rq_progress = approvalProgress p ds (qr_outcome q)\<rparr>)))"

definition read_request :: "platform \<Rightarrow> approval_db \<Rightarrow> request_row \<Rightarrow> (approval_error, approval_request) result" where
  "read_request js db q = rbind (listDecisions db (qr_id q)) (mapRequest js q)"

definition getRequest :: "platform \<Rightarrow> approval_db \<Rightarrow> string \<Rightarrow> (approval_error, approval_request option) result" where
  "getRequest js db i = (case row_where (\<lambda>q. qr_id q = i) (ap_requests db) of None \<Rightarrow> Inr None
     | Some q \<Rightarrow> rbind (read_request js db q) (\<lambda>r. Inr (Some r)))"

definition requireRequest :: "platform \<Rightarrow> approval_db \<Rightarrow> string \<Rightarrow> (approval_error, approval_request) result" where
  "requireRequest js db i = rbind (getRequest js db i) (\<lambda>r. case r of None \<Rightarrow> Inl (Approval_Not_Found ''request'' i) | Some x \<Rightarrow> Inr x)"

definition requireRequestForWorkspace :: "platform \<Rightarrow> approval_db \<Rightarrow> string \<Rightarrow> string \<Rightarrow> (approval_error, approval_request) result" where
  "requireRequestForWorkspace js db i w = rbind (requireRequest js db i) (\<lambda>r.
     throw_if (qr_workspace (rq_row r) \<noteq> w) (Approval_Not_Found ''request'' i) (Inr r))"

definition read_receipt :: "platform \<Rightarrow> approval_db \<Rightarrow> receipt_row \<Rightarrow> (approval_error, approval_receipt) result" where
  "read_receipt js db r = rbind (stored_invalid (normalizeApprovalAction js (rr_action r))) (\<lambda>a.
     Inr \<lparr>rp_row = r\<lparr>rr_action := a\<rparr>, rp_use_count = length (filter (\<lambda>u. us_receipt u = rr_id r) (ap_uses db)),
       rp_revocation = row_where (\<lambda>v. rv_receipt v = rr_id r) (ap_revocations db)\<rparr>)"

definition getReceipt :: "platform \<Rightarrow> approval_db \<Rightarrow> string \<Rightarrow> (approval_error, approval_receipt option) result" where
  "getReceipt js db i = (case row_where (\<lambda>r. rr_id r = i) (ap_receipts db) of None \<Rightarrow> Inr None
     | Some r \<Rightarrow> rbind (read_receipt js db r) (\<lambda>x. Inr (Some x)))"

definition getReceiptForRequest :: "platform \<Rightarrow> approval_db \<Rightarrow> string \<Rightarrow> (approval_error, approval_receipt option) result" where
  "getReceiptForRequest js db i = (case row_where (\<lambda>r. rr_request r = i) (ap_receipts db) of None \<Rightarrow> Inr None
     | Some r \<Rightarrow> rbind (read_receipt js db r) (\<lambda>x. Inr (Some x)))"

definition requireReceipt :: "platform \<Rightarrow> approval_db \<Rightarrow> string \<Rightarrow> (approval_error, approval_receipt) result" where
  "requireReceipt js db i = rbind (getReceipt js db i) (\<lambda>r. case r of None \<Rightarrow> Inl (Approval_Not_Found ''receipt'' i) | Some x \<Rightarrow> Inr x)"

definition requireReceiptForWorkspace :: "platform \<Rightarrow> approval_db \<Rightarrow> string \<Rightarrow> string \<Rightarrow> (approval_error, approval_receipt) result" where
  "requireReceiptForWorkspace js db i w = rbind (requireReceipt js db i) (\<lambda>r.
     throw_if (rr_workspace (rp_row r) \<noteq> w) (Approval_Not_Found ''receipt'' i) (Inr r))"

definition use_compare :: "use_row \<Rightarrow> use_row \<Rightarrow> int" where
  "use_compare = or_compare (\<lambda>l r. binary_compare (us_at l) (us_at r)) (\<lambda>l r. binary_compare (us_id l) (us_id r))"

definition listUses :: "platform \<Rightarrow> approval_db \<Rightarrow> string \<Rightarrow> string \<Rightarrow> (approval_error, use_row list) result" where
  "listUses js db i w = rbind (requireReceiptForWorkspace js db i w) (\<lambda>_.
     Inr (js_sort use_compare (filter (\<lambda>u. us_receipt u = i \<and> us_workspace u = w) (ap_uses db))))"

definition getUse :: "approval_db \<Rightarrow> string \<Rightarrow> string \<Rightarrow> use_row option" where
  "getUse db r i = row_where (\<lambda>u. us_receipt u = r \<and> us_id u = i) (ap_uses db)"

definition newest_request :: "request_row \<Rightarrow> request_row \<Rightarrow> int" where
  "newest_request = or_compare (\<lambda>l r. binary_compare (qr_requested_at r) (qr_requested_at l)) (\<lambda>l r. binary_compare (qr_id r) (qr_id l))"

definition oldest_request :: "request_row \<Rightarrow> request_row \<Rightarrow> int" where
  "oldest_request = or_compare (\<lambda>l r. binary_compare (qr_requested_at l) (qr_requested_at r)) (\<lambda>l r. binary_compare (qr_id l) (qr_id r))"

definition listRequests ::
  "platform \<Rightarrow> string \<Rightarrow> string \<Rightarrow> request_status option \<Rightarrow> bool \<Rightarrow> int \<Rightarrow> approval_db \<Rightarrow> (approval_error, approval_request list) result" where
  "listRequests js now w status includeExpired limit db =
     rbind (requirePositiveInteger limit ''limit'') (\<lambda>n.
     let rows = take (nat (min 500 n)) (js_sort newest_request
           (filter (\<lambda>q. qr_workspace q = w \<and> (status = None \<or> status = Some (qr_status q))) (ap_requests db))) in
     rbind (rmapM (read_request js db) rows) (\<lambda>rs.
     Inr (filter (\<lambda>r. includeExpired \<or> qr_status (rq_row r) \<noteq> Pending \<or> time_less js now (qr_expires_at (rq_row r))) rs)))"

definition listAttention :: "platform \<Rightarrow> string \<Rightarrow> string \<Rightarrow> int \<Rightarrow> approval_db \<Rightarrow> (approval_error, approval_request list) result" where
  "listAttention js now w limit db =
     rbind (requirePositiveInteger limit ''limit'') (\<lambda>n.
     rmapM (read_request js db) (take (nat (min 500 n)) (js_sort oldest_request
       (filter (\<lambda>q. qr_workspace q = w \<and> qr_status q = Pending \<and> now < qr_expires_at q) (ap_requests db)))))"

section \<open>Requests\<close>

record create_input =
  ci_workspace :: string
  ci_action :: approval_action
  ci_context :: "string option"
  ci_binding :: "decision_binding option"
  ci_policy :: "decision_policy option"
  ci_requester :: string
  ci_reason :: string
  ci_expires :: string
  ci_maximum :: "int option"
  ci_key :: string

definition insert_request :: "approval_env \<Rightarrow> request_row \<Rightarrow> approval_db \<Rightarrow> (approval_error, approval_db) result" where
  "insert_request env q db = throw_if (list_ex (\<lambda>x. qr_id x = qr_id q \<or> (qr_workspace x = qr_workspace q \<and> qr_requester x = qr_requester q
       \<and> qr_key x = qr_key q)) (ap_requests db) \<or> (case qr_context q of None \<Rightarrow> False | Some c \<Rightarrow> \<not> ae_context env c)
       \<or> qr_maximum q \<le> 0)
     Approval_Constraint (Inr (db\<lparr>ap_requests := ap_requests db @ [q]\<rparr>))"

text \<open>The row a request is retained as, from the checked input.\<close>

definition build_request :: "approval_env \<Rightarrow> string \<Rightarrow> create_input \<Rightarrow> (approval_error, request_row) result" where
  "build_request env now ci = (let js = ae_js env in
     rbind (requireText 1024 (ci_workspace ci) ''workspace_id'') (\<lambda>w.
     rbind (case ci_context ci of None \<Rightarrow> Inr None | Some c \<Rightarrow> rbind (requireText 1024 c ''context_id'') (\<lambda>x. Inr (Some x))) (\<lambda>context.
     rbind (requireText 1024 (ci_requester ci) ''requested_by_principal_id'') (\<lambda>requester.
     rbind (requireText 16384 (ci_reason ci) ''reason'') (\<lambda>reason.
     rbind (requireFutureTimestamp js (ci_expires ci) now ''expires_at'') (\<lambda>expires.
     rbind (requirePositiveInteger (case ci_maximum ci of None \<Rightarrow> 1 | Some n \<Rightarrow> n) ''maximum_uses'') (\<lambda>maximum.
     rbind (requireText 512 (ci_key ci) ''idempotency_key'') (\<lambda>key.
     rbind (normalizeApprovalAction js (ci_action ci)) (\<lambda>action.
     rbind (normalizeApprovalDecisionBinding (ci_binding ci)) (\<lambda>binding.
     throw_if (context = None \<and> (binding \<noteq> None \<or> aa_scope_execution action \<noteq> None \<or> aa_node_execution action \<noteq> None))
       (Approval_Invalid ''a Scope- or NodeExecution-bound approval requires its exact active Context'')
     (rbind (normalizeApprovalDecisionPolicy (case ci_policy ci of None \<Rightarrow> legacyDecisionPolicy | Some p \<Rightarrow> p)) (\<lambda>policy.
      rbind (approvalActionDigest js action) (\<lambda>actionDigest.
      Inr \<lparr>qr_id = [], qr_workspace = w, qr_action = action, qr_action_digest = actionDigest, qr_context = context,
        qr_binding = binding, qr_response = None, qr_policy = policy, qr_policy_digest = policy_digest js policy,
        qr_set_digest = approvalDecisionSetDigest js [], qr_requester = requester, qr_reason = reason, qr_requested_at = [],
        qr_expires_at = expires, qr_maximum = maximum, qr_key = key, qr_status = Pending, qr_outcome = None, qr_revision = 1,
        qr_decided_by = None, qr_event = None, qr_decision_reason = None, qr_decided_at = None\<rparr>)))))))))))))"

definition binding_json :: "decision_binding option \<Rightarrow> json" where
  "binding_json b = (case b of None \<Rightarrow> JNull
    | Some x \<Rightarrow> JObj [(''scope_execution_id'', JStr (nb_scope_execution x)), (''composition_revision_id'', JStr (nb_composition x)),
        (''node_execution_id'', JStr (nb_execution x)), (''node_placement_id'', JStr (nb_placement x)),
        (''node_execution_state_revision'', JNum (of_int (nb_revision x))),
        (''outcome_port_ids'', JObj [(''approved'', JStr (nb_approved x)), (''rejected'', JStr (nb_rejected x)),
          (''changes_requested'', JStr (nb_changes x))])])"

definition same_details :: "platform \<Rightarrow> request_row \<Rightarrow> request_row \<Rightarrow> bool" where
  "same_details js r q = (qr_action_digest r = qr_action_digest q \<and> qr_context r = qr_context q
     \<and> canonicalJson js (binding_json (qr_binding r)) = canonicalJson js (binding_json (qr_binding q))
     \<and> qr_policy_digest r = qr_policy_digest q \<and> qr_reason r = qr_reason q \<and> qr_expires_at r = qr_expires_at q \<and> qr_maximum r = qr_maximum q)"

definition createRequest ::
  "approval_env \<Rightarrow> string \<Rightarrow> string \<Rightarrow> string \<Rightarrow> create_input \<Rightarrow> approval_db \<Rightarrow> (approval_error, approval_request \<times> approval_db) result" where
  "createRequest env now now' fresh ci db =
     rbind (build_request env now ci) (\<lambda>q.
     case row_where (\<lambda>x. qr_workspace x = qr_workspace q \<and> qr_requester x = qr_requester q \<and> qr_key x = qr_key q) (ap_requests db) of
       Some x \<Rightarrow> rbind (read_request (ae_js env) db x) (\<lambda>r.
         throw_if (\<not> same_details (ae_js env) (rq_row r) q)
           (Approval_Conflict (qr_id x) ''the idempotency key was already used for different approval details'') (Inr (r, db)))
     | None \<Rightarrow>
         throw_if (time_le (ae_js env) (qr_expires_at q) now') (Approval_Invalid ''expires_at must be later than requested_at'')
         (rbind (insert_request env (q\<lparr>qr_id := fresh, qr_requested_at := now'\<rparr>) db) (\<lambda>db'.
          rbind (requireRequest (ae_js env) db' fresh) (\<lambda>r. Inr (r, db')))))"

section \<open>Decisions\<close>

record decide_input =
  di_workspace :: string
  di_request :: string
  di_expected :: int
  di_vote :: vote
  di_principal :: string
  di_event :: string
  di_reason :: string
  di_receipt_expires :: "string option"
  di_supersedes :: "string option"
  di_key :: "string option"

type_synonym decide_result = "approval_request \<times> approval_receipt option \<times> individual_decision"

definition replays :: "string \<Rightarrow> string \<Rightarrow> individual_decision \<Rightarrow> bool" where
  "replays who key d = (dn_principal d = who \<and> dn_key d = key)"

definition replay_decision ::
  "platform \<Rightarrow> approval_db \<Rightarrow> request_row \<Rightarrow> (approval_error, approval_request) result \<Rightarrow> decide_input \<Rightarrow> individual_decision
    \<Rightarrow> (approval_error, decide_result) result" where
  "replay_decision js db q answer di d =
     throw_if (dn_vote d \<noteq> di_vote di \<or> dn_reason d \<noteq> di_reason di \<or> dn_supersedes d \<noteq> di_supersedes di)
       (Approval_Conflict (qr_id q) ''the decision idempotency key was reused for different vote details'')
     (rbind answer (\<lambda>r. rbind (getReceiptForRequest js db (qr_id q)) (\<lambda>receipt. Inr (r, receipt, d))))"

definition insert_decision :: "individual_decision \<Rightarrow> approval_db \<Rightarrow> (approval_error, approval_db) result" where
  "insert_decision d db = throw_if (list_ex (\<lambda>x. dn_id x = dn_id d \<or> dn_event x = dn_event d
        \<or> (dn_request x = dn_request d \<and> dn_principal x = dn_principal d \<and> dn_key x = dn_key d)
        \<or> (dn_request x = dn_request d \<and> dn_supersedes d \<noteq> None \<and> dn_supersedes x = dn_supersedes d)) (ap_decisions db)
      \<or> (case dn_supersedes d of None \<Rightarrow> False | Some i \<Rightarrow> i \<noteq> dn_id d \<and> \<not> list_ex (\<lambda>x. dn_id x = i) (ap_decisions db)))
     Approval_Constraint (Inr (db\<lparr>ap_decisions := ap_decisions db @ [d]\<rparr>))"

definition insert_receipt :: "receipt_row \<Rightarrow> approval_db \<Rightarrow> (approval_error, approval_db) result" where
  "insert_receipt r db = throw_if (list_ex (\<lambda>x. rr_id x = rr_id r \<or> rr_request x = rr_request r) (ap_receipts db) \<or> rr_maximum r \<le> 0)
     Approval_Constraint (Inr (db\<lparr>ap_receipts := ap_receipts db @ [r]\<rparr>))"

definition resolved_status :: "vote option \<Rightarrow> request_status" where
  "resolved_status v = (case v of None \<Rightarrow> Pending | Some Vote_Approved \<Rightarrow> Approved | Some _ \<Rightarrow> Rejected)"

definition pending_row :: "string \<Rightarrow> string \<Rightarrow> request_row \<Rightarrow> bool" where
  "pending_row i w q = (qr_id q = i \<and> qr_workspace q = w \<and> qr_status q = Pending)"

definition resolve_row :: "vote option \<Rightarrow> individual_decision \<Rightarrow> request_row \<Rightarrow> request_row" where
  "resolve_row v d q = (let kept = (\<lambda>x. if v = None then None else Some x) in
     q\<lparr>qr_status := resolved_status v, qr_outcome := v, qr_set_digest := dn_set_digest d, qr_revision := qr_revision q + 1,
       qr_decided_by := kept (dn_principal d), qr_event := kept (dn_event d), qr_decision_reason := kept (dn_reason d),
       qr_decided_at := kept (dn_at d)\<rparr>)"

definition receipt_of :: "request_row \<Rightarrow> individual_decision \<Rightarrow> string \<Rightarrow> string \<Rightarrow> receipt_row" where
  "receipt_of q d fresh expires = \<lparr>rr_id = fresh, rr_request = qr_id q, rr_workspace = qr_workspace q, rr_action = qr_action q,
     rr_action_digest = qr_action_digest q, rr_set_digest = dn_set_digest d, rr_context = qr_context q, rr_requester = qr_requester q,
     rr_approver = dn_principal d, rr_event = dn_event d, rr_issued_at = dn_at d, rr_expires_at = expires, rr_maximum = qr_maximum q\<rparr>"

text \<open>Recording a new decision: the insertion, the resolution of the request and, when it is approved, its receipt.\<close>

definition resolution_of :: "request_row \<Rightarrow> individual_decision list \<Rightarrow> vote option" where
  "resolution_of q ds = resolveApprovalDecisionPolicy (qr_policy q) (activeApprovalDecisions ds)"

definition sealed :: "platform \<Rightarrow> request_row \<Rightarrow> individual_decision list \<Rightarrow> individual_decision \<Rightarrow> individual_decision" where
  "sealed js q retained provisional = provisional\<lparr>dn_set_digest := approvalDecisionSetDigest js (retained @ [provisional]),
     dn_resolution := resolution_of q (retained @ [provisional])\<rparr>"

definition record_decision ::
  "platform \<Rightarrow> string \<Rightarrow> string \<Rightarrow> request_row \<Rightarrow> individual_decision list \<Rightarrow> individual_decision \<Rightarrow> approval_db
    \<Rightarrow> (approval_error, decide_result \<times> approval_db) result" where
  "record_decision js receiptId expires q retained provisional db =
     (let d = sealed js q retained provisional in
      rbind (insert_decision d db) (\<lambda>db1.
      throw_if (\<not> list_ex (pending_row (qr_id q) (qr_workspace q)) (ap_requests db1))
        (Approval_Conflict (qr_id q) ''the request resolved while this decision was being recorded'')
      (let db2 = db1\<lparr>ap_requests := set_where (pending_row (qr_id q) (qr_workspace q)) (resolve_row (dn_resolution d) d) (ap_requests db1)\<rparr> in
       rbind (if dn_resolution d = Some Vote_Approved then
                rbind (insert_receipt (receipt_of q d receiptId expires) db2) (\<lambda>db3.
                rbind (requireReceipt js db3 receiptId) (\<lambda>r. Inr (Some r, db3)))
              else Inr (None, db2)) (\<lambda>(receipt, db4).
       rbind (requireRequest js db4 (qr_id q)) (\<lambda>r. Inr ((r, receipt, d), db4))))))"

definition receipt_expiry :: "platform \<Rightarrow> string \<Rightarrow> request_row \<Rightarrow> decide_input \<Rightarrow> (approval_error, string) result" where
  "receipt_expiry js now q di = (if di_vote di \<noteq> Vote_Approved then Inr []
     else rbind (if truthy (di_receipt_expires di)
                 then requireFutureTimestamp js (the (di_receipt_expires di)) now ''receipt_expires_at'' else Inr (qr_expires_at q)) (\<lambda>expires.
       throw_if (time_less js (qr_expires_at q) expires)
         (Approval_Invalid ''receipt_expires_at cannot exceed the approval request expiry'') (Inr expires)))"

text \<open>The savepoint of a decision, once the request, the principal and its authority are checked.\<close>

definition decide_retained ::
  "approval_env \<Rightarrow> string \<Rightarrow> string \<Rightarrow> string \<Rightarrow> string \<Rightarrow> string \<Rightarrow> request_row \<Rightarrow> decision_authority \<Rightarrow> role_mark list \<Rightarrow> decide_input
    \<Rightarrow> approval_db \<Rightarrow> (approval_error, decide_result \<times> approval_db) result" where
  "decide_retained env now decisionId receiptId expires key q au marks di db = (let js = ae_js env; who = di_principal di in
     rbind (listDecisions db (qr_id q)) (\<lambda>retained.
     case find (replays who key) retained of
       Some d \<Rightarrow> rbind (replay_decision js db q (requireRequest js db (qr_id q)) di d) (\<lambda>x. Inr (x, db))
     | None \<Rightarrow> (let active = activeApprovalDecisions retained;
                   fresh_decision = rbind (uniqueSorted (da_grants au) ''authority_grant_id'') (\<lambda>grants.
                     record_decision js receiptId expires q retained
                       \<lparr>dn_id = decisionId, dn_request = qr_id q, dn_workspace = di_workspace di, dn_principal = who, dn_vote = di_vote di,
                        dn_reason = di_reason di, dn_event = di_event di, dn_grants = grants, dn_roles = marks,
                        dn_supersedes = di_supersedes di, dn_key = key, dn_at = now, dn_set_digest = [], dn_resolution = None\<rparr> db) in
         throw_if (\<not> list_all (decisionAuthorityIsCurrent env q) active)
           (Approval_Conflict (qr_id q) ''approver authority is no longer current'')
         (case find (\<lambda>d. dn_principal d = who) active of
            Some prior \<Rightarrow>
              if \<not> truthy (di_supersedes di) then
                if dn_vote prior = di_vote di \<and> dn_reason prior = di_reason di
                then rbind (requireRequest js db (qr_id q)) (\<lambda>r. rbind (getReceiptForRequest js db (qr_id q)) (\<lambda>receipt. Inr ((r, receipt, prior), db)))
                else Inl (Approval_Conflict (qr_id q) ''a changed decision must explicitly supersede the active decision of the principal'')
              else throw_if (di_supersedes di \<noteq> Some (dn_id prior))
                (Approval_Conflict (qr_id q) ''supersedes_decision_id is not the active decision of the principal'') fresh_decision
          | None \<Rightarrow> throw_if (truthy (di_supersedes di))
                (Approval_Conflict (qr_id q) ''there is no active decision by this principal to supersede'') fresh_decision))))"

definition decideRequest ::
  "approval_env \<Rightarrow> string \<Rightarrow> string \<Rightarrow> string \<Rightarrow> decide_input \<Rightarrow> approval_db \<Rightarrow> (approval_error, decide_result \<times> approval_db) result" where
  "decideRequest env now decisionId receiptId di db = (let js = ae_js env in
     rbind (requireText 1024 (di_workspace di) ''workspace_id'') (\<lambda>w.
     rbind (requireRequestForWorkspace js db (di_request di) w) (\<lambda>request. let q = rq_row request in
     rbind (requireText 1024 (di_principal di) ''decided_by_principal_id'') (\<lambda>who.
     rbind (requireText 1024 (di_event di) ''decision_event_id'') (\<lambda>event.
     rbind (requireText 16384 (di_reason di) ''decision_reason'') (\<lambda>reason.
     rbind (requireText 512 (case di_key di of None \<Rightarrow> event | Some k \<Rightarrow> k) ''idempotency_key'') (\<lambda>key.
     rbind (listDecisions db (qr_id q)) (\<lambda>earlier.
     case find (replays who key) earlier of
       Some d \<Rightarrow> rbind (replay_decision js db q (Inr request) di d) (\<lambda>x. Inr (x, db))
     | None \<Rightarrow>
         throw_if (qr_status q \<noteq> Pending) (Approval_Conflict (qr_id q) ''it is already resolved'')
         (throw_if (time_le js (qr_expires_at q) now) (Approval_Conflict (qr_id q) ''it expired before the decision was recorded'')
         (throw_if (\<not> action_is_current env q)
            (Approval_Conflict (qr_id q) ''its exact action, evidence, authority, or Policy is no longer current'')
         (let au = authority_of env q who in
          rbind (eligibleDecisionAuthority js (qr_policy q) who au) (\<lambda>(eligible, marks).
          throw_if (\<not> eligible) (Approval_Denied approval_approver_ineligible)
          (rbind (receipt_expiry js now q di) (\<lambda>expires.
           decide_retained env now decisionId receiptId expires key q au marks di db))))))))))))))"

section \<open>Cancelling, invalidating and configuring\<close>

definition pending_at :: "string \<Rightarrow> string \<Rightarrow> int \<Rightarrow> request_row \<Rightarrow> bool" where
  "pending_at i w n q = (pending_row i w q \<and> qr_revision q = n)"

definition finishPendingRequest ::
  "platform \<Rightarrow> string \<Rightarrow> request_status \<Rightarrow> string \<Rightarrow> string \<Rightarrow> int \<Rightarrow> string \<Rightarrow> string \<Rightarrow> approval_db
    \<Rightarrow> (approval_error, approval_request \<times> approval_db) result" where
  "finishPendingRequest js now status w i expected who reason db =
     rbind (requireRequestForWorkspace js db i w) (\<lambda>request. let q = rq_row request in
     throw_if (qr_status q \<noteq> Pending \<or> qr_revision q \<noteq> expected) (Approval_Conflict (qr_id q) ''the pending request changed after it was inspected'')
     (rbind (requireText 1024 who ''principal_id'') (\<lambda>p.
      rbind (requireText 16384 reason ''reason'') (\<lambda>t.
      throw_if (\<not> list_ex (pending_at (qr_id q) (qr_workspace q) expected) (ap_requests db))
        (Approval_Conflict (qr_id q) ''the request changed while it was being updated'')
      (let db' = db\<lparr>ap_requests := set_where (pending_at (qr_id q) (qr_workspace q) expected)
             (\<lambda>x. x\<lparr>qr_status := status, qr_revision := qr_revision x + 1, qr_decided_by := Some p, qr_decision_reason := Some t,
                qr_decided_at := Some now\<rparr>) (ap_requests db)\<rparr> in
       rbind (requireRequest js db' (qr_id q)) (\<lambda>r. Inr (r, db')))))))"

definition cancelRequest where
  "cancelRequest js now w i expected who reason db = finishPendingRequest js now Cancelled w i expected who reason db"

definition invalidateRequest where
  "invalidateRequest js now w i expected who reason db = finishPendingRequest js now Invalidated w i expected who reason db"

definition stale_reason :: "approval_env \<Rightarrow> approval_request \<Rightarrow> string option \<Rightarrow> string option" where
  "stale_reason env r given =
     (if \<not> action_is_current env (rq_row r)
      then Some (case given of Some t \<Rightarrow> t | None \<Rightarrow> ''The exact action, evidence, authority, or Policy is no longer current.'')
      else (case find (\<lambda>d. \<not> decisionAuthorityIsCurrent env (rq_row r) d) (activeApprovalDecisions (rq_decisions r)) of
          None \<Rightarrow> None | Some d \<Rightarrow> Some (''Approver authority for '' @ dn_principal d @ '' is no longer current.'')))"

definition refreshRequestValidity ::
  "approval_env \<Rightarrow> string \<Rightarrow> string \<Rightarrow> string \<Rightarrow> string \<Rightarrow> string option \<Rightarrow> approval_db
    \<Rightarrow> (approval_error, (approval_request \<times> bool) \<times> approval_db) result" where
  "refreshRequestValidity env now w i who given db =
     rbind (requireRequestForWorkspace (ae_js env) db i w) (\<lambda>request.
     if qr_status (rq_row request) \<noteq> Pending then Inr ((request, False), db)
     else if \<not> truthy (stale_reason env request given) then Inr ((request, False), db)
     else rbind (invalidateRequest (ae_js env) now (qr_workspace (rq_row request)) (qr_id (rq_row request)) (qr_revision (rq_row request))
            who (the (stale_reason env request given)) db) (\<lambda>(r, db'). Inr ((r, True), db')))"

definition configureResponse ::
  "platform \<Rightarrow> string \<Rightarrow> string \<Rightarrow> string \<Rightarrow> int \<Rightarrow> string option \<Rightarrow> approval_db \<Rightarrow> (approval_error, approval_request \<times> approval_db) result" where
  "configureResponse js now w i expected recipient db =
     rbind (requireRequestForWorkspace js db i w) (\<lambda>request. let q = rq_row request in
     throw_if (qr_status q \<noteq> Pending \<or> qr_revision q \<noteq> expected \<or> qr_expires_at q \<le> now)
       (Approval_Conflict (qr_id q) ''inspect the current pending request before changing its response recipient'')
     (rbind (case recipient of None \<Rightarrow> Inr None
             | Some p \<Rightarrow> rbind (requireText 1024 p ''response_participant_id'') (\<lambda>t. Inr (Some t))) (\<lambda>to.
      if to = qr_response q then Inr (request, db)
      else throw_if (\<not> list_ex (pending_at (qr_id q) (qr_workspace q) expected) (ap_requests db))
        (Approval_Conflict (qr_id q) ''the request changed while its response recipient was being configured'')
      (let db' = db\<lparr>ap_requests := set_where (pending_at (qr_id q) (qr_workspace q) expected)
             (\<lambda>x. x\<lparr>qr_response := to, qr_revision := qr_revision x + 1\<rparr>) (ap_requests db)\<rparr> in
       rbind (requireRequest js db' (qr_id q)) (\<lambda>r. Inr (r, db'))))))"

section \<open>Receipts\<close>

definition is_revoked :: "approval_receipt \<Rightarrow> bool" where
  "is_revoked r = (case rp_revocation r of None \<Rightarrow> False | Some v \<Rightarrow> rv_at v \<noteq> [])"

definition revokeReceipt ::
  "platform \<Rightarrow> string \<Rightarrow> string \<Rightarrow> string \<Rightarrow> string \<Rightarrow> string \<Rightarrow> approval_db \<Rightarrow> (approval_error, approval_receipt \<times> approval_db) result" where
  "revokeReceipt js now w i who reason db =
     rbind (requireReceiptForWorkspace js db i w) (\<lambda>receipt.
     if is_revoked receipt then Inr (receipt, db)
     else rbind (requireText 1024 who ''revoked_by_principal_id'') (\<lambda>p.
          rbind (requireText 16384 reason ''reason'') (\<lambda>t.
          throw_if (list_ex (\<lambda>v. rv_receipt v = rr_id (rp_row receipt)) (ap_revocations db)) Approval_Constraint
          (let db' = db\<lparr>ap_revocations := ap_revocations db @ [\<lparr>rv_receipt = rr_id (rp_row receipt), rv_workspace = rr_workspace (rp_row receipt),
                 rv_at = now, rv_by = p, rv_reason = t\<rparr>]\<rparr> in
           rbind (requireReceipt js db' (rr_id (rp_row receipt))) (\<lambda>r. Inr (r, db'))))))"

record verify_input =
  vi_receipt :: string
  vi_workspace :: string
  vi_principal :: string
  vi_action :: approval_action
  vi_at :: "string option"

text \<open>The checks that precede those on the request, in the order of the code.\<close>

definition match_receipt :: "platform \<Rightarrow> string \<Rightarrow> verify_input \<Rightarrow> approval_db \<Rightarrow> (approval_error, approval_receipt \<times> string) result" where
  "match_receipt js now vi db =
     rbind (getReceipt js db (vi_receipt vi)) (\<lambda>found.
     case found of None \<Rightarrow> Inl (Approval_Denied approval_receipt_not_found)
     | Some receipt \<Rightarrow> (let r = rp_row receipt in
        rbind (requireTimestamp js (case vi_at vi of None \<Rightarrow> now | Some t \<Rightarrow> t) ''at'') (\<lambda>(t, _).
        throw_if (rr_workspace r \<noteq> vi_workspace vi) (Approval_Denied approval_workspace_mismatch)
        (throw_if (aa_principal (rr_action r) \<noteq> vi_principal vi) (Approval_Denied approval_principal_mismatch)
        (throw_if (aa_operation (rr_action r) \<noteq> aa_operation (vi_action vi)) (Approval_Denied approval_operation_mismatch)
        (rbind (approvalActionDigest js (vi_action vi)) (\<lambda>dg.
         throw_if (rr_action_digest r \<noteq> dg) (Approval_Denied approval_action_changed)
         (throw_if (is_revoked receipt) (Approval_Denied approval_revoked) (Inr (receipt, t))))))))))"

definition request_supports :: "approval_env \<Rightarrow> receipt_row \<Rightarrow> approval_request option \<Rightarrow> bool" where
  "request_supports env r request = (case request of None \<Rightarrow> False
     | Some x \<Rightarrow> (let q = rq_row x in
         qr_status q = Approved \<and> qr_outcome q = Some Vote_Approved \<and> qr_action_digest q = rr_action_digest r
         \<and> qr_set_digest q = rr_set_digest r \<and> approvalDecisionSetDigest (ae_js env) (rq_decisions x) = rr_set_digest r
         \<and> action_is_current env q))"

definition lost_authority :: "approval_env \<Rightarrow> approval_request \<Rightarrow> individual_decision option" where
  "lost_authority env x = find (\<lambda>d. dn_vote d = Vote_Approved \<and> \<not> decisionAuthorityIsCurrent env (rq_row x) d)
     (activeApprovalDecisions (rq_decisions x))"

text \<open>Revoking the receipt and refusing: an error of the revocation itself comes first.\<close>

definition revoke_and_deny ::
  "platform \<Rightarrow> string \<Rightarrow> receipt_row \<Rightarrow> string \<Rightarrow> denial_code \<Rightarrow> approval_db \<Rightarrow> (approval_error, 'a) result \<times> approval_db" where
  "revoke_and_deny js now r reason code db =
     (case revokeReceipt js now (rr_workspace r) (rr_id r) ''system:approval-validity'' reason db of
        Inl e \<Rightarrow> (Inl e, db) | Inr (_, db') \<Rightarrow> (Inl (Approval_Denied code), db'))"

definition usable_at :: "platform \<Rightarrow> string \<Rightarrow> approval_receipt \<Rightarrow> (approval_error, approval_receipt) result" where
  "usable_at js t x =
     throw_if (time_less js t (rr_issued_at (rp_row x))) (Approval_Denied approval_not_yet_active)
     (throw_if (time_le js (rr_expires_at (rp_row x)) t) (Approval_Denied approval_expired)
     (throw_if (int (rp_use_count x) \<ge> rr_maximum (rp_row x)) (Approval_Denied approval_uses_exhausted) (Inr x)))"

definition verifyReceipt ::
  "approval_env \<Rightarrow> string \<Rightarrow> string \<Rightarrow> verify_input \<Rightarrow> approval_db \<Rightarrow> (approval_error, approval_receipt) result \<times> approval_db" where
  "verifyReceipt env now now' vi db = (let js = ae_js env in
     case match_receipt js now vi db of Inl e \<Rightarrow> (Inl e, db)
     | Inr (receipt, t) \<Rightarrow>
        (case getRequest js db (rr_request (rp_row receipt)) of Inl e \<Rightarrow> (Inl e, db)
         | Inr request \<Rightarrow>
            if \<not> request_supports env (rp_row receipt) request
            then revoke_and_deny js now' (rp_row receipt) ''The exact approved action, evidence, or Policy is no longer current.''
              approval_action_changed db
            else (case lost_authority env (the request) of
                Some d \<Rightarrow> revoke_and_deny js now' (rp_row receipt)
                  (''Approver authority for '' @ dn_principal d @ '' is no longer current.'') approval_approver_authority_changed db
              | None \<Rightarrow> (usable_at js t receipt, db))))"

definition insert_use :: "use_row \<Rightarrow> approval_db \<Rightarrow> (approval_error, approval_db) result" where
  "insert_use u db = throw_if (list_ex (\<lambda>x. us_receipt x = us_receipt u \<and> us_id x = us_id u) (ap_uses db)
        \<or> \<not> list_ex (\<lambda>r. rr_id r = us_receipt u) (ap_receipts db)
        \<or> (\<exists>r \<in> set (ap_receipts db). rr_id r = us_receipt u
             \<and> int (length (filter (\<lambda>x. us_receipt x = us_receipt u) (ap_uses db))) \<ge> rr_maximum r))
     Approval_Constraint (Inr (db\<lparr>ap_uses := ap_uses db @ [u]\<rparr>))"

definition replay_use :: "platform \<Rightarrow> verify_input \<Rightarrow> use_row \<Rightarrow> approval_db \<Rightarrow> (approval_error, approval_receipt \<times> use_row option) result" where
  "replay_use js vi u db =
     throw_if (us_workspace u \<noteq> vi_workspace vi \<or> us_principal u \<noteq> vi_principal vi \<or> us_operation u \<noteq> aa_operation (vi_action vi))
       (Approval_Denied approval_action_changed)
     (rbind (approvalActionDigest js (vi_action vi)) (\<lambda>dg.
      throw_if (us_digest u \<noteq> dg) (Approval_Denied approval_action_changed)
      (rbind (requireReceipt js db (vi_receipt vi)) (\<lambda>r. Inr (r, Some u)))))"

definition record_use ::
  "platform \<Rightarrow> string \<Rightarrow> string \<Rightarrow> verify_input \<Rightarrow> approval_receipt \<Rightarrow> approval_db
    \<Rightarrow> (approval_error, (approval_receipt \<times> use_row option) \<times> approval_db) result" where
  "record_use js now useId vi verified db =
     rbind (requireTimestamp js (case vi_at vi of None \<Rightarrow> now | Some t \<Rightarrow> t) ''at'') (\<lambda>(t, _).
     rbind (insert_use \<lparr>us_receipt = rr_id (rp_row verified), us_id = useId, us_workspace = vi_workspace vi, us_principal = vi_principal vi,
       us_operation = aa_operation (vi_action vi), us_digest = rr_action_digest (rp_row verified), us_at = t\<rparr> db) (\<lambda>db'.
     rbind (requireReceipt js db' (vi_receipt vi)) (\<lambda>r. Inr ((r, None), db'))))"

definition consumeReceipt ::
  "approval_env \<Rightarrow> string \<Rightarrow> string \<Rightarrow> string \<Rightarrow> string \<Rightarrow> verify_input \<Rightarrow> approval_db
    \<Rightarrow> (approval_error, approval_receipt \<times> use_row option) result \<times> approval_db" where
  "consumeReceipt env now now' now'' useId vi db = (let js = ae_js env in
     case requireText 512 useId ''use_id'' of Inl e \<Rightarrow> (Inl e, db)
     | Inr i \<Rightarrow>
        (case getUse db (vi_receipt vi) i of
           Some u \<Rightarrow> (replay_use js vi u db, db)
         | None \<Rightarrow>
            (case verifyReceipt env now now' vi db of
               (Inl e, db') \<Rightarrow> (Inl e, db')
             | (Inr verified, db') \<Rightarrow>
                (case record_use js now'' i vi verified db' of Inl e \<Rightarrow> (Inl e, db') | Inr (x, db'') \<Rightarrow> (Inr x, db'')))))"

end
