(* ===== verification/Approval_Changes.thy ===== *)
theory Approval_Changes
  imports Approval_Store Normal_Forms Simulation
begin

text \<open>
  What each operation of the approval store does to the stored rows: the operations of
  \<^verbatim>\<open>approvals.ts\<close> as steps, and the changes of the tables those steps amount to.
\<close>

section \<open>Reading\<close>

definition decisions_of :: "approval_db \<Rightarrow> string \<Rightarrow> individual_decision list" where
  "decisions_of db i = filter (\<lambda>d. dn_request d = i) (ap_decisions db)"

lemma mapIndividualDecision_Inr [result_simps]: "mapIndividualDecision d = Inr e \<longleftrightarrow> (\<forall>g \<in> set (dn_grants d). g \<noteq> []) \<and> e = d"
  by (auto simp: mapIndividualDecision_def throw_if_def list_ex_iff)

lemma rmapM_same: "rmapM mapIndividualDecision ds = Inr es \<Longrightarrow> es = ds"
  by (induction ds arbitrary: es) (auto simp: result_simps)

lemma listDecisions_Inr: "listDecisions db i = Inr ds \<Longrightarrow> ds = js_sort decision_compare (decisions_of db i)"
  unfolding listDecisions_def decisions_of_def by (rule rmapM_same)

text \<open>The record a row reads as.\<close>

definition reads :: "platform \<Rightarrow> approval_db \<Rightarrow> request_row \<Rightarrow> approval_request \<Rightarrow> bool" where
  "reads js db q x \<longleftrightarrow> (\<exists>p a b. normalizeApprovalDecisionPolicy (qr_policy q) = Inr p \<and> normalizeApprovalAction js (qr_action q) = Inr a
     \<and> normalizeApprovalDecisionBinding (qr_binding q) = Inr b \<and> rq_row x = q\<lparr>qr_policy := p, qr_action := a, qr_binding := b\<rparr>
     \<and> rq_decisions x = js_sort decision_compare (decisions_of db (qr_id q))
     \<and> rq_progress x = approvalProgress p (rq_decisions x) (qr_outcome q))"

lemma stored_invalid_Inr [result_simps]: "stored_invalid m = Inr x \<longleftrightarrow> m = Inr x"
  by (cases m) (simp_all add: stored_invalid_def)

lemma read_request_Inr: "read_request js db q = Inr x \<Longrightarrow> reads js db q x"
  unfolding read_request_def mapRequest_def
  by (elim rbind_InrE) (auto simp: reads_def result_simps dest!: listDecisions_Inr)

lemma getRequest_Some: "getRequest js db i = Inr (Some x) \<Longrightarrow> \<exists>q \<in> set (ap_requests db). qr_id q = i \<and> reads js db q x"
  by (auto simp: getRequest_def result_simps split: option.splits dest!: read_request_Inr row_where_SomeD)

lemma requireRequestE:
  assumes "requireRequest js db i = Inr x"
  obtains q where "q \<in> set (ap_requests db)" "qr_id q = i" "reads js db q x"
  using assms unfolding requireRequest_def by (elim rbind_InrE) (auto split: option.splits dest!: getRequest_Some)

lemma requireRequestForWorkspaceE:
  assumes "requireRequestForWorkspace js db i w = Inr x"
  obtains q where "q \<in> set (ap_requests db)" "qr_id q = i" "reads js db q x" "qr_workspace (rq_row x) = w"
  using assms unfolding requireRequestForWorkspace_def by (elim rbind_InrE throw_if_InrE requireRequestE) (auto intro: that)

lemma reads_fields:
  assumes "reads js db q x"
  shows "qr_id (rq_row x) = qr_id q" "qr_workspace (rq_row x) = qr_workspace q" "qr_status (rq_row x) = qr_status q"
    "qr_revision (rq_row x) = qr_revision q" "qr_outcome (rq_row x) = qr_outcome q" "qr_action_digest (rq_row x) = qr_action_digest q"
    "qr_set_digest (rq_row x) = qr_set_digest q" "qr_maximum (rq_row x) = qr_maximum q" "qr_expires_at (rq_row x) = qr_expires_at q"
    "normalizeApprovalDecisionPolicy (qr_policy q) = Inr (qr_policy (rq_row x))"
    "rq_decisions x = js_sort decision_compare (decisions_of db (qr_id q))"
  using assms by (auto simp: reads_def)

definition reads_receipt :: "platform \<Rightarrow> approval_db \<Rightarrow> receipt_row \<Rightarrow> approval_receipt \<Rightarrow> bool" where
  "reads_receipt js db r x \<longleftrightarrow> (\<exists>a. normalizeApprovalAction js (rr_action r) = Inr a \<and> rp_row x = r\<lparr>rr_action := a\<rparr>
     \<and> rp_use_count x = length (filter (\<lambda>u. us_receipt u = rr_id r) (ap_uses db))
     \<and> rp_revocation x = row_where (\<lambda>v. rv_receipt v = rr_id r) (ap_revocations db))"

lemma read_receipt_Inr: "read_receipt js db r = Inr x \<Longrightarrow> reads_receipt js db r x"
  unfolding read_receipt_def by (elim rbind_InrE) (auto simp: reads_receipt_def result_simps)

lemma getReceipt_Some: "getReceipt js db i = Inr (Some x) \<Longrightarrow> \<exists>r \<in> set (ap_receipts db). rr_id r = i \<and> reads_receipt js db r x"
  by (auto simp: getReceipt_def result_simps split: option.splits dest!: read_receipt_Inr row_where_SomeD)

lemma requireReceiptE:
  assumes "requireReceipt js db i = Inr x"
  obtains r where "r \<in> set (ap_receipts db)" "rr_id r = i" "reads_receipt js db r x"
  using assms unfolding requireReceipt_def by (elim rbind_InrE) (auto split: option.splits dest!: getReceipt_Some)

section \<open>Steps\<close>

inductive approval_step :: "platform \<Rightarrow> approval_db \<Rightarrow> approval_db \<Rightarrow> bool" for js where
  create: "createRequest env now now' fresh ci db = Inr (x, db') \<Longrightarrow> ae_js env = js \<Longrightarrow> approval_step js db db'"
| decide: "decideRequest env now decisionId receiptId di db = Inr (res, db') \<Longrightarrow> ae_js env = js \<Longrightarrow> approval_step js db db'"
| cancel: "cancelRequest js now w i n who reason db = Inr (x, db') \<Longrightarrow> approval_step js db db'"
| invalidate: "invalidateRequest js now w i n who reason db = Inr (x, db') \<Longrightarrow> approval_step js db db'"
| refresh: "refreshRequestValidity env now w i who given db = Inr (x, db') \<Longrightarrow> ae_js env = js \<Longrightarrow> approval_step js db db'"
| configure: "configureResponse js now w i n recipient db = Inr (x, db') \<Longrightarrow> approval_step js db db'"
| revoke: "revokeReceipt js now w i who reason db = Inr (r, db') \<Longrightarrow> approval_step js db db'"
| verify: "verifyReceipt env now now' vi db = (res, db') \<Longrightarrow> ae_js env = js \<Longrightarrow> approval_step js db db'"
| consume: "consumeReceipt env now now' now'' useId vi db = (out, db') \<Longrightarrow> ae_js env = js \<Longrightarrow> approval_step js db db'"

text \<open>A row as \<^verbatim>\<open>createRequest\<close> inserts it.\<close>

definition fresh_request :: "request_row \<Rightarrow> approval_db \<Rightarrow> bool" where
  "fresh_request q db \<longleftrightarrow> qr_id q \<notin> qr_id ` set (ap_requests db) \<and> qr_status q = Pending \<and> qr_outcome q = None \<and> qr_revision q = 1
     \<and> qr_decided_by q = None \<and> qr_event q = None \<and> qr_decision_reason q = None \<and> qr_decided_at q = None \<and> 0 < qr_maximum q
     \<and> (\<exists>p. normalizeApprovalDecisionPolicy p = Inr (qr_policy q))"

lemma requirePositiveInteger_Inr [result_simps]: "requirePositiveInteger v l = Inr n \<longleftrightarrow> 1 \<le> v \<and> n = v"
  by (auto simp: requirePositiveInteger_def)

lemma insert_request_Inr [result_simps]: "insert_request env q db = Inr db' \<longleftrightarrow>
    \<not> list_ex (\<lambda>x. qr_id x = qr_id q \<or> (qr_workspace x = qr_workspace q \<and> qr_requester x = qr_requester q \<and> qr_key x = qr_key q)) (ap_requests db)
    \<and> \<not> (case qr_context q of None \<Rightarrow> False | Some c \<Rightarrow> \<not> ae_context env c) \<and> 0 < qr_maximum q
    \<and> db' = db\<lparr>ap_requests := ap_requests db @ [q]\<rparr>"
  unfolding insert_request_def throw_if_Inr_iff by auto

lemma build_request_row:
  assumes "build_request env now ci = Inr q"
  shows "qr_status q = Pending \<and> qr_outcome q = None \<and> qr_revision q = 1 \<and> qr_decided_by q = None \<and> qr_event q = None
    \<and> qr_decision_reason q = None \<and> qr_decided_at q = None \<and> (\<exists>p. normalizeApprovalDecisionPolicy p = Inr (qr_policy q))"
  using assms unfolding build_request_def Let_def by (elim rbind_InrE throw_if_InrE, goal_cases) auto

lemma createRequestE:
  assumes "createRequest env now now' fresh ci db = Inr (x, db')"
  obtains "db' = db" | q where "fresh_request q db" "db' = db\<lparr>ap_requests := ap_requests db @ [q]\<rparr>"
  using assms unfolding createRequest_def
proof (elim rbind_InrE, goal_cases)
  case (1 q)
  show ?case
  proof (cases "row_where (\<lambda>x. qr_workspace x = qr_workspace q \<and> qr_requester x = qr_requester q \<and> qr_key x = qr_key q) (ap_requests db)")
    case None
    with 1(4) obtain db1 where "insert_request env (q\<lparr>qr_id := fresh, qr_requested_at := now'\<rparr>) db = Inr db1" "db' = db1"
      by (auto simp: result_simps)
    then have "fresh_request (q\<lparr>qr_id := fresh, qr_requested_at := now'\<rparr>) db"
        "db' = db\<lparr>ap_requests := ap_requests db @ [q\<lparr>qr_id := fresh, qr_requested_at := now'\<rparr>]\<rparr>"
      using build_request_row [OF 1(3)] by (auto simp: fresh_request_def result_simps list_ex_iff)
    then show ?thesis by (rule 1(2))
  next
    case (Some y)
    then show ?thesis using 1(4) by (intro 1(1)) (auto simp: result_simps)
  qed
qed

section \<open>Decisions\<close>

lemma insert_decision_Inr [result_simps]: "insert_decision d db = Inr db' \<longleftrightarrow>
    (\<forall>x \<in> set (ap_decisions db). dn_id x \<noteq> dn_id d \<and> dn_event x \<noteq> dn_event d
      \<and> \<not> (dn_request x = dn_request d \<and> dn_principal x = dn_principal d \<and> dn_key x = dn_key d)
      \<and> \<not> (dn_request x = dn_request d \<and> dn_supersedes d \<noteq> None \<and> dn_supersedes x = dn_supersedes d))
    \<and> (\<forall>i. dn_supersedes d = Some i \<longrightarrow> i = dn_id d \<or> i \<in> dn_id ` set (ap_decisions db))
    \<and> db' = db\<lparr>ap_decisions := ap_decisions db @ [d]\<rparr>"
  by (cases "dn_supersedes d") (auto simp: insert_decision_def result_simps list_ex_iff)

lemma insert_receipt_Inr [result_simps]: "insert_receipt r db = Inr db' \<longleftrightarrow>
    (\<forall>x \<in> set (ap_receipts db). rr_id x \<noteq> rr_id r \<and> rr_request x \<noteq> rr_request r) \<and> 0 < rr_maximum r
    \<and> db' = db\<lparr>ap_receipts := ap_receipts db @ [r]\<rparr>"
  by (auto simp: insert_receipt_def result_simps list_ex_iff)

definition decided_db :: "request_row \<Rightarrow> individual_decision \<Rightarrow> receipt_row \<Rightarrow> approval_db \<Rightarrow> approval_db" where
  "decided_db q d r db = db\<lparr>ap_requests := set_where (pending_row (qr_id q) (qr_workspace q)) (resolve_row (dn_resolution d) d) (ap_requests db),
     ap_decisions := ap_decisions db @ [d],
     ap_receipts := ap_receipts db @ (if dn_resolution d = Some Vote_Approved then [r] else [])\<rparr>"

lemma record_decisionE:
  assumes "record_decision js receiptId expires q ds d db = Inr ((x, receipt, e), db')"
  obtains "e = sealed js q ds d" "db' = decided_db q e (receipt_of q e receiptId expires) db" "insert_decision e db = Inr (db\<lparr>ap_decisions := ap_decisions db @ [e]\<rparr>)"
    "dn_resolution e = Some Vote_Approved \<Longrightarrow> insert_receipt (receipt_of q e receiptId expires) db
      = Inr (db\<lparr>ap_receipts := ap_receipts db @ [receipt_of q e receiptId expires]\<rparr>)"
    "requireRequest js db' (qr_id q) = Inr x"
    "if dn_resolution e = Some Vote_Approved then \<exists>r. receipt = Some r \<and> requireReceipt js db' receiptId = Inr r else receipt = None"
proof (rule that)
  show "e = sealed js q ds d" "db' = decided_db q e (receipt_of q e receiptId expires) db" "insert_decision e db = Inr (db\<lparr>ap_decisions := ap_decisions db @ [e]\<rparr>)"
    "dn_resolution e = Some Vote_Approved \<Longrightarrow> insert_receipt (receipt_of q e receiptId expires) db
      = Inr (db\<lparr>ap_receipts := ap_receipts db @ [receipt_of q e receiptId expires]\<rparr>)"
    "requireRequest js db' (qr_id q) = Inr x"
    "if dn_resolution e = Some Vote_Approved then \<exists>r. receipt = Some r \<and> requireReceipt js db' receiptId = Inr r else receipt = None"
    using assms unfolding record_decision_def Let_def
    by (auto simp: result_simps decided_db_def split: if_splits)
qed

lemma find_None_mem: "find P xs = None \<longleftrightarrow> (\<forall>x \<in> set xs. \<not> P x)"
  by (auto simp: find_None_iff)

lemma receipt_lookup_Inr: "rbind m (\<lambda>r. rbind n (\<lambda>c. Inr ((r, c, p), db))) = Inr (res, db') \<Longrightarrow> db' = db"
  by (auto simp: result_simps)

lemma replay_keeps: "rbind (replay_decision js db q a di d) (\<lambda>x. Inr (x, db)) = Inr (res, db') \<Longrightarrow> db' = db"
  by (auto simp: result_simps)

definition supersedes_active :: "individual_decision list \<Rightarrow> string \<Rightarrow> string option \<Rightarrow> bool" where
  "supersedes_active active who s \<longleftrightarrow> (\<exists>p \<in> set active. dn_principal p = who \<and> s = Some (dn_id p) \<and> truthy s)
     \<or> (\<forall>p \<in> set active. dn_principal p \<noteq> who) \<and> \<not> truthy s"

lemma decide_retainedE:
  assumes "decide_retained env now decisionId receiptId expires key q au marks di db = Inr (res, db')"
  obtains (same) "db' = db" | (recorded) ds grants where "listDecisions db (qr_id q) = Inr ds"
    "uniqueSorted (da_grants au) ''authority_grant_id'' = Inr grants"
    "list_all (decisionAuthorityIsCurrent env q) (activeApprovalDecisions ds)"
    "supersedes_active (activeApprovalDecisions ds) (di_principal di) (di_supersedes di)"
    "record_decision (ae_js env) receiptId expires q ds
       \<lparr>dn_id = decisionId, dn_request = qr_id q, dn_workspace = di_workspace di, dn_principal = di_principal di, dn_vote = di_vote di,
        dn_reason = di_reason di, dn_event = di_event di, dn_grants = grants, dn_roles = marks,
        dn_supersedes = di_supersedes di, dn_key = key, dn_at = now, dn_set_digest = [], dn_resolution = None\<rparr> db = Inr (res, db')"
  using assms unfolding decide_retained_def Let_def
proof (elim rbind_InrE, goal_cases)
  case (1 ds)
  show ?case
  proof (cases "find (replays (di_principal di) key) ds")
    case (Some d)
    then show ?thesis using 1(1,4) by (auto dest: replay_keeps)
  next
    case None
    note run = 1(4) [unfolded None option.case throw_if_Inr_iff]
    let ?stored = "rbind (uniqueSorted (da_grants au) ''authority_grant_id'') (\<lambda>grants. record_decision (ae_js env) receiptId expires q ds
       \<lparr>dn_id = decisionId, dn_request = qr_id q, dn_workspace = di_workspace di, dn_principal = di_principal di, dn_vote = di_vote di,
        dn_reason = di_reason di, dn_event = di_event di, dn_grants = grants, dn_roles = marks,
        dn_supersedes = di_supersedes di, dn_key = key, dn_at = now, dn_set_digest = [], dn_resolution = None\<rparr> db)"
    from run have auth: "list_all (decisionAuthorityIsCurrent env q) (activeApprovalDecisions ds)" by simp
    have new: ?thesis if "supersedes_active (activeApprovalDecisions ds) (di_principal di) (di_supersedes di)" "?stored = Inr (res, db')"
      using that(2) by (elim rbind_InrE) (rule 1(2) [OF 1(3) _ auth that(1)])
    show ?thesis
    proof (cases "find (\<lambda>d. dn_principal d = di_principal di) (activeApprovalDecisions ds)")
      case none: None
      from run have "\<not> truthy (di_supersedes di)" "?stored = Inr (res, db')" unfolding none option.case throw_if_Inr_iff by blast+
      moreover from none have "\<forall>p \<in> set (activeApprovalDecisions ds). dn_principal p \<noteq> di_principal di" by (simp add: find_None_mem)
      ultimately show ?thesis by (intro new) (auto simp: supersedes_active_def)
    next
      case (Some p)
      then have p: "p \<in> set (activeApprovalDecisions ds)" "dn_principal p = di_principal di" by (auto dest: find_SomeD)
      show ?thesis
      proof (cases "truthy (di_supersedes di)")
        case False
        with run have "db' = db" unfolding Some option.case by (auto split: if_splits dest: receipt_lookup_Inr)
        then show ?thesis by (rule 1(1))
      next
        case True
        with run have "di_supersedes di = Some (dn_id p)" "?stored = Inr (res, db')"
          unfolding Some option.case throw_if_Inr_iff by (auto simp only: if_False not_True_eq_False throw_if_Inr_iff not_not)
        with p True show ?thesis by (intro new) (auto simp: supersedes_active_def)
      qed
    qed
  qed
qed

text \<open>What \<^verbatim>\<open>decideRequest\<close> has checked when it records the decision \<open>d\<close> on the stored row \<open>q\<close>, read as \<open>x\<close>.\<close>

definition may_record :: "approval_env \<Rightarrow> string \<Rightarrow> approval_db \<Rightarrow> request_row \<Rightarrow> approval_request \<Rightarrow> individual_decision \<Rightarrow> bool" where
  "may_record env now db q x d \<longleftrightarrow> q \<in> set (ap_requests db) \<and> qr_status q = Pending \<and> reads (ae_js env) db q x
     \<and> \<not> time_le (ae_js env) (qr_expires_at q) now \<and> action_is_current env (rq_row x)
     \<and> dn_request d = qr_id q \<and> dn_at d = now
     \<and> eligibleDecisionAuthority (ae_js env) (qr_policy (rq_row x)) (dn_principal d) (authority_of env (rq_row x) (dn_principal d)) = Inr (True, dn_roles d)
     \<and> uniqueSorted (da_grants (authority_of env (rq_row x) (dn_principal d))) ''authority_grant_id'' = Inr (dn_grants d)
     \<and> list_all (decisionAuthorityIsCurrent env (rq_row x)) (activeApprovalDecisions (rq_decisions x))
     \<and> supersedes_active (activeApprovalDecisions (rq_decisions x)) (dn_principal d) (dn_supersedes d)"

lemma requireText_Inr [result_simps]: "requireText m v l = Inr w \<longleftrightarrow> text_ok m v \<and> w = v"
  by (auto simp: requireText_def)

lemma decideRequestE:
  assumes "decideRequest env now decisionId receiptId di db = Inr (res, db')"
  obtains (same) "db' = db" | (recorded) q x d expires where "may_record env now db q x d" "dn_id d = decisionId" "dn_vote d = di_vote di"
    "dn_principal d = di_principal di"
    "receipt_expiry (ae_js env) now (rq_row x) di = Inr expires"
    "record_decision (ae_js env) receiptId expires (rq_row x) (rq_decisions x) d db = Inr (res, db')"
  using assms unfolding decideRequest_def Let_def
proof (elim rbind_InrE requireRequestForWorkspaceE, goal_cases)
  case (1 w x who event reason key earlier q)
  note outer = 1
  have earlier: "earlier = rq_decisions x" using listDecisions_Inr [OF outer(8)] reads_fields [OF outer(12)] by simp
  show ?case
  proof (cases "find (replays who key) earlier")
    case (Some d)
    then show ?thesis using outer(1,9) by (auto dest: replay_keeps)
  next
    case None
    from outer(9) [unfolded None option.case] show ?thesis
    proof (elim throw_if_InrE rbind_InrE, goal_cases)
      case (1 em)
      obtain ok marks where em: "em = (ok, marks)" by (cases em)
      from 1(5) [unfolded em prod.case] have ok: ok by (simp add: throw_if_Inr_iff)
      from 1(5) [unfolded em prod.case] obtain expires where expires: "receipt_expiry (ae_js env) now (rq_row x) di = Inr expires"
          and run: "decide_retained env now decisionId receiptId expires key (rq_row x) (authority_of env (rq_row x) who) marks di db = Inr (res, db')"
        by (elim throw_if_InrE rbind_InrE) (rule that)
      have who: "who = di_principal di" using outer(4) by (simp add: requireText_Inr)
      from run show ?thesis
      proof (cases rule: decide_retainedE)
        case same
        then show ?thesis by (rule outer(1))
      next
        case (recorded ds grants)
        have ds: "ds = rq_decisions x" using listDecisions_Inr [OF recorded(1)] reads_fields [OF outer(12)] by simp
        show ?thesis
        proof (rule outer(2))
          show "may_record env now db q x \<lparr>dn_id = decisionId, dn_request = qr_id (rq_row x), dn_workspace = di_workspace di,
              dn_principal = di_principal di, dn_vote = di_vote di, dn_reason = di_reason di, dn_event = di_event di, dn_grants = grants,
              dn_roles = marks, dn_supersedes = di_supersedes di, dn_key = key, dn_at = now, dn_set_digest = [], dn_resolution = None\<rparr>"
            using 1(1-4) ok outer(10,12) recorded(2-4) reads_fields [OF outer(12)] unfolding may_record_def em who ds by simp
        qed (use expires recorded(5) ds in simp_all)
      qed
    qed
  qed
qed

section \<open>Cancelling, invalidating and configuring\<close>

definition finished_row :: "request_status \<Rightarrow> string \<Rightarrow> string \<Rightarrow> string \<Rightarrow> request_row \<Rightarrow> request_row" where
  "finished_row status who reason now q = q\<lparr>qr_status := status, qr_revision := qr_revision q + 1, qr_decided_by := Some who,
     qr_decision_reason := Some reason, qr_decided_at := Some now\<rparr>"

definition answered_row :: "string option \<Rightarrow> request_row \<Rightarrow> request_row" where
  "answered_row to q = q\<lparr>qr_response := to, qr_revision := qr_revision q + 1\<rparr>"

lemma finishPendingRequestE:
  assumes "finishPendingRequest js now status w i n who reason db = Inr (x, db')"
  obtains "db' = db\<lparr>ap_requests := set_where (pending_at i w n) (finished_row status who reason now) (ap_requests db)\<rparr>"
    "list_ex (pending_at i w n) (ap_requests db)" "requireRequest js db' i = Inr x"
  using assms unfolding finishPendingRequest_def Let_def
proof (elim rbind_InrE throw_if_InrE requireRequestForWorkspaceE, goal_cases)
  case (1 y p t z q)
  have "qr_id (rq_row y) = i" "qr_workspace (rq_row y) = w" "p = who" "t = reason" "z = x"
    and "db' = db\<lparr>ap_requests := set_where (pending_at (qr_id (rq_row y)) (qr_workspace (rq_row y)) n)
      (\<lambda>x. x\<lparr>qr_status := status, qr_revision := qr_revision x + 1, qr_decided_by := Some p, qr_decision_reason := Some t, qr_decided_at := Some now\<rparr>)
      (ap_requests db)\<rparr>"
    using 1 reads_fields [of js db q y] by (auto simp: requireText_Inr)
  then show ?case using 1 by (intro 1(1)) (simp_all add: finished_row_def [abs_def] list_ex_iff)
qed

lemma configureResponseE:
  assumes "configureResponse js now w i n recipient db = Inr (x, db')"
  obtains "db' = db" | to where "db' = db\<lparr>ap_requests := set_where (pending_at i w n) (answered_row to) (ap_requests db)\<rparr>"
  using assms unfolding configureResponse_def Let_def
proof (elim rbind_InrE throw_if_InrE requireRequestForWorkspaceE, goal_cases)
  case (1 y to q)
  have y: "qr_id (rq_row y) = i" "qr_workspace (rq_row y) = w" using 1 reads_fields [of js db q y] by auto
  show ?case
  proof (cases "to = qr_response (rq_row y)")
    case True
    then show ?thesis using 1 by (intro 1(1)) auto
  next
    case False
    then have "db' = db\<lparr>ap_requests := set_where (pending_at i w n) (\<lambda>x. x\<lparr>qr_response := to, qr_revision := qr_revision x + 1\<rparr>) (ap_requests db)\<rparr>"
      using 1 unfolding y by (auto simp: result_simps)
    then show ?thesis by (intro 1(2) [of to]) (simp add: answered_row_def [abs_def])
  qed
qed

lemma refreshRequestValidityE:
  assumes "refreshRequestValidity env now w i who given db = Inr (out, db')"
  obtains "db' = db" | x n reason where "invalidateRequest (ae_js env) now w i n who reason db = Inr (x, db')"
  using assms unfolding refreshRequestValidity_def
proof (elim rbind_InrE requireRequestForWorkspaceE, goal_cases)
  case (1 y q)
  have y: "qr_id (rq_row y) = i" "qr_workspace (rq_row y) = w" using 1 reads_fields [of "ae_js env" db q y] by auto
  then show ?case using 1 by (auto simp: result_simps split: if_splits)
qed

section \<open>Receipts\<close>

lemma reads_receipt_fields:
  assumes "reads_receipt js db r x"
  shows "rr_id (rp_row x) = rr_id r" "rr_workspace (rp_row x) = rr_workspace r" "rr_request (rp_row x) = rr_request r"
    "rr_action_digest (rp_row x) = rr_action_digest r" "rr_set_digest (rp_row x) = rr_set_digest r" "rr_maximum (rp_row x) = rr_maximum r"
    "rr_issued_at (rp_row x) = rr_issued_at r" "rr_expires_at (rp_row x) = rr_expires_at r"
    "rp_use_count x = length (filter (\<lambda>u. us_receipt u = rr_id r) (ap_uses db))"
    "rp_revocation x = row_where (\<lambda>v. rv_receipt v = rr_id r) (ap_revocations db)"
  using assms by (auto simp: reads_receipt_def)

definition new_revocation :: "revocation_row \<Rightarrow> approval_db \<Rightarrow> bool" where
  "new_revocation v db \<longleftrightarrow> rv_receipt v \<in> rr_id ` set (ap_receipts db) \<and> rv_receipt v \<notin> rv_receipt ` set (ap_revocations db)"

lemma revokeReceiptE:
  assumes "revokeReceipt js now w i who reason db = Inr (x, db')"
  obtains "db' = db" "is_revoked x" | v where "new_revocation v db" "rv_receipt v = i" "rv_at v = now" "db' = db\<lparr>ap_revocations := ap_revocations db @ [v]\<rparr>"
  using assms unfolding revokeReceipt_def requireReceiptForWorkspace_def Let_def
proof (elim rbind_InrE throw_if_InrE requireReceiptE, goal_cases)
  case (1 y z r)
  have y: "rr_id (rp_row y) = i" "i \<in> rr_id ` set (ap_receipts db)" using 1(5-8) reads_receipt_fields(1) [OF 1(8)] by auto
  show ?case
  proof (cases "is_revoked y")
    case True
    with 1(3) show ?thesis by (intro 1(1)) simp_all
  next
    case False
    from 1(3) [unfolded y if_not_P [OF False]] have "\<not> list_ex (\<lambda>v. rv_receipt v = i) (ap_revocations db)"
        "db' = db\<lparr>ap_revocations := ap_revocations db @ [\<lparr>rv_receipt = i, rv_workspace = rr_workspace (rp_row y), rv_at = now, rv_by = who, rv_reason = reason\<rparr>]\<rparr>"
      by (elim rbind_InrE throw_if_InrE, simp only: requireText_Inr sum.inject prod.inject)+
    with y(2) show ?thesis by (intro 1(2)) (auto simp: new_revocation_def list_ex_iff)
  qed
qed

lemma verifyReceipt_db:
  assumes "verifyReceipt env now now' vi db = (res, db')"
  obtains "db' = db" | x w i who reason where "revokeReceipt (ae_js env) now' w i who reason db = Inr (x, db')"
  using assms unfolding verifyReceipt_def Let_def revoke_and_deny_def
  by (auto split: sum.splits prod.splits if_splits option.splits)

lemma match_receipt_Inr:
  assumes "match_receipt js now vi db = Inr (x, t)"
  shows "getReceipt js db (vi_receipt vi) = Inr (Some x) \<and> \<not> is_revoked x \<and> rr_workspace (rp_row x) = vi_workspace vi
    \<and> aa_principal (rr_action (rp_row x)) = vi_principal vi \<and> aa_operation (rr_action (rp_row x)) = aa_operation (vi_action vi)
    \<and> approvalActionDigest js (vi_action vi) = Inr (rr_action_digest (rp_row x))
    \<and> (\<exists>ms. requireTimestamp js (case vi_at vi of None \<Rightarrow> now | Some t \<Rightarrow> t) ''at'' = Inr (t, ms))"
  using assms unfolding match_receipt_def Let_def by (elim rbind_InrE) (auto simp: result_simps split: option.splits)

text \<open>The state a verification that succeeds has found.\<close>

definition verified :: "approval_env \<Rightarrow> string \<Rightarrow> verify_input \<Rightarrow> approval_db \<Rightarrow> approval_receipt \<Rightarrow> bool" where
  "verified env now vi db x \<longleftrightarrow> (\<exists>t q. match_receipt (ae_js env) now vi db = Inr (x, t)
     \<and> getRequest (ae_js env) db (rr_request (rp_row x)) = Inr (Some q) \<and> request_supports env (rp_row x) (Some q)
     \<and> lost_authority env q = None \<and> usable_at (ae_js env) t x = Inr x)"

lemma usable_at_Inr [result_simps]: "usable_at js t x = Inr y \<longleftrightarrow> \<not> time_less js t (rr_issued_at (rp_row x))
    \<and> \<not> time_le js (rr_expires_at (rp_row x)) t \<and> int (rp_use_count x) < rr_maximum (rp_row x) \<and> y = x"
  by (auto simp: usable_at_def result_simps)

lemma verifyReceipt_Inr: "verifyReceipt env now now' vi db = (Inr x, db') \<longleftrightarrow> verified env now vi db x \<and> db' = db"
proof (cases "match_receipt (ae_js env) now vi db")
  case (Inl e)
  then show ?thesis by (simp add: verifyReceipt_def Let_def verified_def)
next
  case m: (Inr p)
  obtain y t where p: "p = (y, t)" by (cases p)
  show ?thesis
  proof (cases "getRequest (ae_js env) db (rr_request (rp_row y))")
    case (Inl e)
    then show ?thesis using m p by (auto simp: verifyReceipt_def Let_def verified_def)
  next
    case (Inr r)
    have "(usable_at (ae_js env) t y, db) = (Inr x, db') \<longleftrightarrow> usable_at (ae_js env) t y = Inr x \<and> y = x \<and> db' = db"
      by (auto simp: result_simps)
    then show ?thesis using m p Inr
      by (cases r; cases "request_supports env (rp_row y) r")
        (auto simp: verifyReceipt_def Let_def verified_def revoke_and_deny_def request_supports_def split: sum.splits prod.splits option.splits)
  qed
qed

definition use_of :: "string \<Rightarrow> string \<Rightarrow> verify_input \<Rightarrow> approval_receipt \<Rightarrow> use_row" where
  "use_of i t vi x = \<lparr>us_receipt = rr_id (rp_row x), us_id = i, us_workspace = vi_workspace vi, us_principal = vi_principal vi,
     us_operation = aa_operation (vi_action vi), us_digest = rr_action_digest (rp_row x), us_at = t\<rparr>"

lemma insert_use_Inr [result_simps]: "insert_use u db = Inr db' \<longleftrightarrow>
    (\<forall>x \<in> set (ap_uses db). us_receipt x = us_receipt u \<longrightarrow> us_id x \<noteq> us_id u) \<and> us_receipt u \<in> rr_id ` set (ap_receipts db)
    \<and> (\<forall>r \<in> set (ap_receipts db). rr_id r = us_receipt u
        \<longrightarrow> int (length (filter (\<lambda>x. us_receipt x = us_receipt u) (ap_uses db))) < rr_maximum r)
    \<and> db' = db\<lparr>ap_uses := ap_uses db @ [u]\<rparr>"
  unfolding insert_use_def throw_if_Inr_iff list_ex_iff by (auto simp: not_le intro: rev_image_eqI)

lemma record_useE:
  assumes "record_use js now i vi x db = Inr (out, db')"
  obtains t where "insert_use (use_of i t vi x) db = Inr db'" "\<exists>r. out = (r, None) \<and> requireReceipt js db' (vi_receipt vi) = Inr r"
proof -
  from assms obtain t ms d where "insert_use (use_of i t vi x) db = Inr d" "rbind (requireReceipt js d (vi_receipt vi)) (\<lambda>r. Inr ((r, None), d)) = Inr (out, db')"
    unfolding record_use_def use_of_def by (elim rbind_InrE) (auto simp only: prod.case rbind_Inr_iff split: prod.split_asm)
  then show thesis by (intro that [of t]) (auto simp only: rbind_Inr_iff sum.inject prod.inject)
qed

lemma consumeReceiptE:
  assumes "consumeReceipt env now now' now'' i vi db = (out, db')"
  obtains (same) "db' = db" "isl out \<or> (\<exists>u. getUse db (vi_receipt vi) i = Some u \<and> out = replay_use (ae_js env) vi u db)"
  | (refused) res where "verifyReceipt env now now' vi db = (res, db')" "isl out"
  | (used) x t r where "verified env now vi db x" "insert_use (use_of i t vi x) db = Inr db'" "getUse db (vi_receipt vi) i = None"
      "out = Inr (r, None)" "requireReceipt (ae_js env) db' (vi_receipt vi) = Inr r"
proof (cases "requireText 512 i ''use_id''")
  case (Inl e)
  with assms show thesis by (intro same) (auto simp: consumeReceipt_def Let_def)
next
  case (Inr k)
  then have k: "k = i" by (simp add: requireText_Inr)
  show thesis
  proof (cases "getUse db (vi_receipt vi) i")
    case (Some u)
    with assms Inr k show thesis by (intro same) (auto simp: consumeReceipt_def Let_def)
  next
    case None
    obtain res db1 where v: "verifyReceipt env now now' vi db = (res, db1)" by fastforce
    show thesis
    proof (cases res)
      case (Inl e)
      with assms Inr k None v show thesis by (intro refused [of res]) (auto simp: consumeReceipt_def Let_def)
    next
      case ok: (Inr x)
      with v have x: "verified env now vi db x" "db1 = db" by (simp_all add: verifyReceipt_Inr)
      show thesis
      proof (cases "record_use (ae_js env) now'' i vi x db")
        case (Inl e)
        with assms Inr k None v ok x show thesis by (intro same) (auto simp: consumeReceipt_def Let_def)
      next
        case r: (Inr p)
        with assms Inr k None v ok x have p: "p = (projr out, db')" "\<not> isl out" by (auto simp: consumeReceipt_def Let_def split: prod.splits)
        from r p have "record_use (ae_js env) now'' i vi x db = Inr (projr out, db')" by simp
        then show thesis
        proof (rule record_useE)
          fix t
          assume u: "insert_use (use_of i t vi x) db = Inr db'" "\<exists>r. projr out = (r, None) \<and> requireReceipt (ae_js env) db' (vi_receipt vi) = Inr r"
          from u(2) obtain r where "out = Inr (r, None)" "requireReceipt (ae_js env) db' (vi_receipt vi) = Inr r" using p(2) by (cases out) auto
          then show thesis by (rule used [OF x(1) u(1) None])
        qed
      qed
    qed
  qed
qed

section \<open>Changes of the tables\<close>

inductive approval_change :: "platform \<Rightarrow> approval_db \<Rightarrow> approval_db \<Rightarrow> bool" for js where
  same: "approval_change js db db"
| request: "fresh_request q db \<Longrightarrow> approval_change js db (db\<lparr>ap_requests := ap_requests db @ [q]\<rparr>)"
| decision: "may_record env now db q x d \<Longrightarrow> ae_js env = js \<Longrightarrow> e = sealed js (rq_row x) (rq_decisions x) d \<Longrightarrow>
    insert_decision e db = Inr db1 \<Longrightarrow> r = receipt_of (rq_row x) e receiptId expires \<Longrightarrow>
    (dn_resolution e = Some Vote_Approved \<Longrightarrow> insert_receipt r db = Inr (db\<lparr>ap_receipts := ap_receipts db @ [r]\<rparr>)) \<Longrightarrow>
    approval_change js db (decided_db (rq_row x) e r db)"
| finish: "status = Cancelled \<or> status = Invalidated \<Longrightarrow>
    approval_change js db (db\<lparr>ap_requests := set_where (pending_at i w n) (finished_row status who reason now) (ap_requests db)\<rparr>)"
| answer: "approval_change js db (db\<lparr>ap_requests := set_where (pending_at i w n) (answered_row to) (ap_requests db)\<rparr>)"
| revocation: "new_revocation v db \<Longrightarrow> approval_change js db (db\<lparr>ap_revocations := ap_revocations db @ [v]\<rparr>)"
| use: "verified env now vi db x \<Longrightarrow> ae_js env = js \<Longrightarrow> insert_use (use_of i t vi x) db = Inr db' \<Longrightarrow> approval_change js db db'"

lemma revoke_change: "revokeReceipt js now w i who reason db = Inr (x, db') \<Longrightarrow> approval_change js db db'"
  by (erule revokeReceiptE) (auto intro: approval_change.intros)

lemma finish_change:
  "finishPendingRequest js now status w i n who reason db = Inr (x, db') \<Longrightarrow> status = Cancelled \<or> status = Invalidated \<Longrightarrow> approval_change js db db'"
  by (erule finishPendingRequestE) (auto intro: approval_change.finish)

lemma verify_change: "verifyReceipt env now now' vi db = (res, db') \<Longrightarrow> approval_change (ae_js env) db db'"
  by (erule verifyReceipt_db) (auto intro: approval_change.same revoke_change)

lemma decide_change:
  assumes "decideRequest env now decisionId receiptId di db = Inr (res, db')"
  shows "approval_change (ae_js env) db db'"
  using assms
proof (cases rule: decideRequestE)
  case (recorded q x d expires)
  obtain y receipt e where "res = (y, receipt, e)" by (cases res)
  with recorded(6) have "record_decision (ae_js env) receiptId expires (rq_row x) (rq_decisions x) d db = Inr ((y, receipt, e), db')" by simp
  then show ?thesis
  proof (cases rule: record_decisionE)
    case 1
    show ?thesis unfolding 1(2) by (rule approval_change.decision [OF recorded(1) refl 1(1,3) refl 1(4)])
  qed
qed (simp add: approval_change.same)

lemma approval_step_change: "approval_step js db db' \<Longrightarrow> approval_change js db db'"
proof (induction rule: approval_step.induct)
  case (create env now now' fresh ci db x db')
  from create(1) show ?case by (rule createRequestE) (auto intro: approval_change.intros)
next
  case (refresh env now w i who given db x db')
  from refresh(1) show ?case
    by (rule refreshRequestValidityE) (use refresh(2) in \<open>auto simp: invalidateRequest_def intro: approval_change.same finish_change\<close>)
next
  case (configure now w i n recipient db x db')
  from configure show ?case by (rule configureResponseE) (auto intro: approval_change.intros)
next
  case (consume env now now' now'' useId vi db out db')
  from consume(1) show ?case
    by (cases rule: consumeReceiptE) (use consume(2) in \<open>auto intro: approval_change.same verify_change approval_change.use\<close>)
qed (auto simp: cancelRequest_def invalidateRequest_def intro: decide_change finish_change revoke_change verify_change)

end
