(* ===== verification/Approval_Invariants.thy ===== *)
theory Approval_Invariants
  imports Approval_Changes
begin

text \<open>
  Invariants of the approval store: the keys of its tables and the life of a request, what an
  approved request has collected, and what a receipt rests on.
\<close>

section \<open>Normal forms\<close>

lemma required_texts: "rmapM (\<lambda>v. requireText m v l) vs = Inr ts \<Longrightarrow> ts = vs \<and> (\<forall>t \<in> set ts. text_ok m t)"
  by (induction vs arbitrary: ts) (auto simp: result_simps)

lemma uniqueSorted_Inr: "uniqueSorted vs l = Inr ts \<Longrightarrow> set ts = set vs \<and> (\<forall>t \<in> set ts. text_ok 1024 t) \<and> ts = js_sort binary_compare (js_uniq vs)"
  unfolding uniqueSorted_def by (elim rbind_InrE) (auto dest: required_texts)

lemma uniqueSorted_idem: "uniqueSorted vs l = Inr ts \<Longrightarrow> uniqueSorted ts l' = Inr ts"
proof -
  assume "uniqueSorted vs l = Inr ts"
  from uniqueSorted_Inr [OF this] have t: "\<forall>t \<in> set ts. text_ok 1024 t" and ts: "ts = js_sort binary_compare (js_uniq vs)" by blast+
  from t have "rmapM (\<lambda>v. requireText 1024 v l') ts = Inr ts" by (intro rmapM_fixed) (simp add: requireText_Inr)
  moreover have "js_uniq ts = ts" unfolding ts by (intro js_uniq_distinct) simp
  moreover have "js_sort binary_compare ts = ts" unfolding ts by (rule binary.sort_idem)
  ultimately show ?thesis by (simp add: uniqueSorted_def)
qed

lemma hex_not_control: "hex_char c \<Longrightarrow> \<not> approval_control c"
  by (auto simp: hex_char_def approval_control_def Let_def)

lemma requireSha256_idem: "requireSha256 v l = Inr w \<Longrightarrow> requireSha256 w l' = Inr w"
proof -
  assume r: "requireSha256 v l = Inr w"
  then have w: "w = js_lower v" "length w = 64" "list_all hex_char w" and v: "text_ok 64 v"
    by (auto simp: requireSha256_def requireText_Inr rbind_Inr_iff split: if_splits)
  have "text_ok 64 w" using v w hex_not_control by (auto simp: text_ok_def list_ex_iff list_all_iff)
  then show ?thesis using w by (simp add: requireSha256_def requireText_Inr rbind_Inr_iff)
qed

lemma normalize_source_idem: "normalize_source s = Inr t \<Longrightarrow> normalize_source t = Inr t"
proof (cases s)
  case (From_Evaluation e v r f)
  assume "normalize_source s = Inr t"
  then obtain f' where t: "t = From_Evaluation e v r f'" "text_ok 1024 e" "text_ok 1024 v" "text_ok 1024 r"
      and f: "requireSha256 f ''decision_policy.source.facts_digest'' = Inr f'"
    unfolding From_Evaluation normalize_source_def decision_source.case
    by (elim rbind_InrE) (rule that, simp_all only: requireText_Inr sum.inject simp_thms)
  show ?thesis using t requireSha256_idem [OF f] by (simp add: normalize_source_def requireText_def)
qed (auto simp: normalize_source_def requireText_Inr rbind_Inr_iff)

definition selector_positive :: "approvers \<Rightarrow> bool" where
  "selector_positive a = (case a of Any_Of _ _ \<Rightarrow> True | All_Named ps \<Rightarrow> ps \<noteq> [] | Quorum _ _ n \<Rightarrow> 1 \<le> n)"

lemma normalize_approvers_idem: "normalize_approvers a = Inr b \<Longrightarrow> normalize_approvers b = Inr b \<and> selector_positive b"
proof (cases a)
  case (Any_Of ps rs)
  assume "normalize_approvers a = Inr b"
  then obtain ps' rs' where u: "uniqueSorted ps ''decision_policy.approvers.principal_id'' = Inr ps'"
      "uniqueSorted rs ''decision_policy.approvers.role'' = Inr rs'" and b: "b = Any_Of ps' rs'" "\<not> (ps' = [] \<and> rs' = [])"
    unfolding Any_Of normalize_approvers_def Let_def approvers.case by (elim rbind_InrE throw_if_InrE) (rule that, auto)
  show ?thesis using uniqueSorted_idem [OF u(1)] uniqueSorted_idem [OF u(2)] b(2) unfolding b(1) by (simp add: normalize_approvers_def throw_if_def selector_positive_def)
next
  case (All_Named ps)
  assume "normalize_approvers a = Inr b"
  then obtain ps' where u: "uniqueSorted ps ''decision_policy.approvers.principal_id'' = Inr ps'" and b: "b = All_Named ps'" "ps' \<noteq> []"
    unfolding All_Named normalize_approvers_def Let_def approvers.case by (elim rbind_InrE throw_if_InrE) (rule that, auto)
  show ?thesis using uniqueSorted_idem [OF u(1)] b(2) unfolding b(1) by (simp add: normalize_approvers_def selector_positive_def)
next
  case (Quorum ps rs n)
  assume "normalize_approvers a = Inr b"
  then obtain ps' rs' where u: "uniqueSorted ps ''decision_policy.approvers.principal_id'' = Inr ps'"
      "uniqueSorted rs ''decision_policy.approvers.role'' = Inr rs'" and b: "b = Quorum ps' rs' n" "\<not> (ps' = [] \<and> rs' = [])" "1 \<le> n"
      "\<not> (rs' = [] \<and> n > int (length ps'))"
    unfolding Quorum normalize_approvers_def Let_def approvers.case by (elim rbind_InrE throw_if_InrE) (rule that, auto simp: requirePositiveInteger_Inr)
  show ?thesis using uniqueSorted_idem [OF u(1)] uniqueSorted_idem [OF u(2)] b(2-4) unfolding b(1)
    by (simp add: normalize_approvers_def requirePositiveInteger_Inr throw_if_def requirePositiveInteger_def selector_positive_def)
qed

lemma normalizeApprovalDecisionPolicy_idem:
  "normalizeApprovalDecisionPolicy p = Inr q \<Longrightarrow> normalizeApprovalDecisionPolicy q = Inr q \<and> selector_positive (dp_approvers q)"
  unfolding normalizeApprovalDecisionPolicy_def
proof (elim rbind_InrE, goal_cases)
  case (1 s a)
  from normalize_source_idem [OF 1(1)] normalize_approvers_idem [OF 1(2)] 1(3) show ?case by auto
qed

section \<open>Resolution\<close>

text \<open>The ballots of the active decisions, and when they satisfy the frozen selector.\<close>

definition ballot :: "individual_decision \<Rightarrow> vote \<times> string" where
  "ballot d = (dn_vote d, creditedPrincipalId d)"

definition approval_satisfied :: "approvers \<Rightarrow> (vote \<times> string) set \<Rightarrow> bool" where
  "approval_satisfied a B = (fst ` B \<subseteq> {Vote_Approved} \<and>
     (case a of Any_Of _ _ \<Rightarrow> B \<noteq> {} | All_Named ps \<Rightarrow> set ps \<subseteq> snd ` B | Quorum _ _ n \<Rightarrow> n \<le> int (card (snd ` B))))"

lemma approved_principals_card: "length (approved_principals ds) = card (creditedPrincipalId ` {d \<in> set ds. dn_vote d = Vote_Approved})"
proof -
  have "distinct (approved_principals ds)" by (simp add: approved_principals_def)
  then have "length (approved_principals ds) = card (set (approved_principals ds))" by (simp add: distinct_card)
  then show ?thesis by (simp add: approved_principals_def)
qed

lemma find_vote: "find (\<lambda>d. dn_vote d \<noteq> Vote_Approved) ds = None \<longleftrightarrow> fst ` ballot ` set ds \<subseteq> {Vote_Approved}"
  by (auto simp: find_None_iff ballot_def image_image)

lemma resolve_approved_iff:
  "resolveApprovalDecisionPolicy p ds = Some Vote_Approved \<longleftrightarrow> approval_satisfied (dp_approvers p) (ballot ` set ds)"
proof (cases "find (\<lambda>d. dn_vote d \<noteq> Vote_Approved) ds")
  case (Some d)
  then have "dn_vote d \<noteq> Vote_Approved" "\<not> fst ` ballot ` set ds \<subseteq> {Vote_Approved}"
    using find_vote [of ds] by (auto dest: find_SomeD)
  with Some show ?thesis by (simp add: resolveApprovalDecisionPolicy_def approval_satisfied_def)
next
  case None
  then have all: "fst ` ballot ` set ds \<subseteq> {Vote_Approved}" by (simp add: find_vote)
  then have f: "{d \<in> set ds. dn_vote d = Vote_Approved} = set ds" by (auto simp: ballot_def image_image)
  have snd: "snd ` ballot ` set ds = creditedPrincipalId ` set ds" by (auto simp: ballot_def image_image)
  have s: "set (approved_principals ds) = creditedPrincipalId ` set ds" using f by (simp add: approved_principals_def)
  have n: "length (approved_principals ds) = card (creditedPrincipalId ` set ds)" using f by (simp add: approved_principals_card)
  have one: "Suc 0 \<le> card (creditedPrincipalId ` set ds) \<longleftrightarrow> ds \<noteq> []" by (simp add: Suc_le_eq card_gt_0_iff)
  from None all show ?thesis
    unfolding resolveApprovalDecisionPolicy_def approval_satisfied_def Let_def n snd s by (auto simp: list_all_iff one split: approvers.split)
qed

lemma resolve_negative_iff:
  "(\<exists>v. resolveApprovalDecisionPolicy p ds = Some v \<and> v \<noteq> Vote_Approved) \<longleftrightarrow> \<not> fst ` ballot ` set ds \<subseteq> {Vote_Approved}"
proof (cases "find (\<lambda>d. dn_vote d \<noteq> Vote_Approved) ds")
  case (Some d)
  then have "dn_vote d \<noteq> Vote_Approved" by (auto dest: find_SomeD)
  with Some show ?thesis by (simp add: resolveApprovalDecisionPolicy_def flip: find_vote)
next
  case None
  then have "fst ` ballot ` set ds \<subseteq> {Vote_Approved}" by (simp add: find_vote)
  with None show ?thesis by (auto simp: resolveApprovalDecisionPolicy_def Let_def split: approvers.splits if_splits)
qed

definition ballots :: "individual_decision list \<Rightarrow> (vote \<times> string) set" where
  "ballots ds = ballot ` set (activeApprovalDecisions ds)"

lemma set_superseded: "set (superseded_ids ds) = {i. i \<noteq> [] \<and> (\<exists>d \<in> set ds. dn_supersedes d = Some i)}"
  by (force simp: superseded_ids_def split: option.splits if_splits)

lemma set_active: "set (activeApprovalDecisions ds) = {d \<in> set ds. \<not> (dn_id d \<noteq> [] \<and> (\<exists>e \<in> set ds. dn_supersedes e = Some (dn_id d)))}"
  by (auto simp: activeApprovalDecisions_def set_superseded)

lemma ballots_set: "set ds = set es \<Longrightarrow> ballots ds = ballots es"
  by (simp add: ballots_def set_active)

lemma sealed_credited [simp]: "creditedPrincipalId (sealed js q rs d) = creditedPrincipalId d"
  by (simp add: sealed_def creditedPrincipalId_def split: option.split)

lemma ballots_sealed: "ballots (ds @ [sealed js q rs d]) = ballots (ds @ [d])"
proof -
  have "ballot (sealed js q rs d) = ballot d" "dn_id (sealed js q rs d) = dn_id d" "dn_supersedes (sealed js q rs d) = dn_supersedes d"
    by (simp_all add: sealed_def ballot_def creditedPrincipalId_def split: option.split)
  moreover from this have "superseded_ids (ds @ [sealed js q rs d]) = superseded_ids (ds @ [d])" by (simp add: superseded_ids_def)
  ultimately show ?thesis unfolding ballots_def activeApprovalDecisions_def by simp
qed

section \<open>Tables\<close>

text \<open>The life of a row: the check of its schema, and the outcome that goes with each status.\<close>

definition request_ok :: "request_row \<Rightarrow> bool" where
  "request_ok q \<longleftrightarrow> 0 < qr_maximum q \<and> 1 \<le> qr_revision q \<and> normalizeApprovalDecisionPolicy (qr_policy q) = Inr (qr_policy q)
     \<and> (if qr_status q = Pending then qr_decided_at q = None \<and> qr_decided_by q = None \<and> qr_decision_reason q = None
        else qr_decided_at q \<noteq> None \<and> qr_decided_by q \<noteq> None \<and> qr_decision_reason q \<noteq> None)
     \<and> (qr_event q \<noteq> None \<longleftrightarrow> qr_status q \<in> {Approved, Rejected})
     \<and> (qr_outcome q = Some Vote_Approved \<longleftrightarrow> qr_status q = Approved)
     \<and> (qr_outcome q \<in> {Some Vote_Rejected, Some Vote_Changes} \<longleftrightarrow> qr_status q = Rejected)"

definition tables_inv :: "approval_db \<Rightarrow> bool" where
  "tables_inv db \<longleftrightarrow> distinct (map qr_id (ap_requests db)) \<and> (\<forall>q \<in> set (ap_requests db). request_ok q)
     \<and> distinct (map dn_id (ap_decisions db)) \<and> (\<forall>d \<in> set (ap_decisions db). dn_request d \<in> qr_id ` set (ap_requests db))
     \<and> (\<forall>d \<in> set (ap_decisions db). \<forall>s. dn_supersedes d = Some s \<longrightarrow> s \<in> dn_id ` set (ap_decisions db))
     \<and> distinct (map rr_id (ap_receipts db)) \<and> distinct (map rr_request (ap_receipts db)) \<and> (\<forall>r \<in> set (ap_receipts db). 0 < rr_maximum r)
     \<and> distinct (map rv_receipt (ap_revocations db)) \<and> (\<forall>v \<in> set (ap_revocations db). rv_receipt v \<in> rr_id ` set (ap_receipts db))"

lemma pending_row_eq: "distinct (map qr_id rs) \<Longrightarrow> q \<in> set rs \<Longrightarrow> x \<in> set rs \<Longrightarrow> qr_id x = qr_id q \<Longrightarrow> x = q"
  by (auto simp: distinct_map inj_on_def)

lemma set_where_one:
  assumes "distinct (map qr_id rs)" and "q \<in> set rs" and "P q" and "\<And>x. P x \<Longrightarrow> qr_id x = qr_id q"
  shows "x \<in> set (set_where P f rs) \<longleftrightarrow> x = f q \<or> x \<in> set rs \<and> qr_id x \<noteq> qr_id q"
  using assms pending_row_eq [OF assms(1,2)] unfolding in_set_where by metis

lemma may_record_row:
  assumes "may_record env now db q x d"
  shows "qr_id (rq_row x) = qr_id q" "qr_workspace (rq_row x) = qr_workspace q" "qr_status q = Pending" "q \<in> set (ap_requests db)"
    "reads (ae_js env) db q x" "dn_request d = qr_id q" "pending_row (qr_id (rq_row x)) (qr_workspace (rq_row x)) q"
  using assms reads_fields [of "ae_js env" db q x] by (auto simp: may_record_def pending_row_def)

lemma decided_requests:
  assumes "may_record env now db q x d" and "distinct (map qr_id (ap_requests db))"
  shows "y \<in> set (ap_requests (decided_db (rq_row x) e r db))
    \<longleftrightarrow> y = resolve_row (dn_resolution e) e q \<or> y \<in> set (ap_requests db) \<and> qr_id y \<noteq> qr_id q"
proof -
  note row = may_record_row [OF assms(1)]
  have "y \<in> set (set_where (pending_row (qr_id (rq_row x)) (qr_workspace (rq_row x))) (resolve_row (dn_resolution e) e) (ap_requests db))
    \<longleftrightarrow> y = resolve_row (dn_resolution e) e q \<or> y \<in> set (ap_requests db) \<and> qr_id y \<noteq> qr_id q"
    by (rule set_where_one [where P = "pending_row (qr_id (rq_row x)) (qr_workspace (rq_row x))", OF assms(2) row(4) row(7)]) (simp add: pending_row_def row(1))
  then show ?thesis by (simp add: decided_db_def)
qed

lemma request_ok_resolve: "request_ok q \<Longrightarrow> qr_status q = Pending \<Longrightarrow> request_ok (resolve_row v d q)"
  by (cases v; cases "the v") (auto simp: request_ok_def resolve_row_def resolved_status_def Let_def)

lemma request_ok_finish:
  "request_ok q \<Longrightarrow> qr_status q = Pending \<Longrightarrow> status = Cancelled \<or> status = Invalidated \<Longrightarrow> request_ok (finished_row status who reason now q)"
  by (auto simp: request_ok_def finished_row_def)

lemma request_ok_answer: "request_ok q \<Longrightarrow> request_ok (answered_row to q)"
  by (simp add: request_ok_def answered_row_def)

lemma row_ids [simp]: "qr_id (resolve_row v d q) = qr_id q" "qr_id (finished_row s w t n q) = qr_id q" "qr_id (answered_row to q) = qr_id q"
  by (simp_all add: resolve_row_def finished_row_def answered_row_def Let_def)

lemma sealed_fields [simp]: "dn_id (sealed js q rs d) = dn_id d" "dn_request (sealed js q rs d) = dn_request d"
  "dn_supersedes (sealed js q rs d) = dn_supersedes d" "dn_principal (sealed js q rs d) = dn_principal d"
  "dn_resolution (sealed js q rs d) = resolution_of q (rs @ [d])" "dn_grants (sealed js q rs d) = dn_grants d"
  "dn_roles (sealed js q rs d) = dn_roles d" "dn_vote (sealed js q rs d) = dn_vote d" "dn_at (sealed js q rs d) = dn_at d"
  by (simp_all add: sealed_def)

lemma ids_set_where: "(\<And>r. qr_id (f r) = qr_id r) \<Longrightarrow> qr_id ` set (set_where P f rs) = qr_id ` set rs"
  using map_set_where [of P qr_id f rs] by (metis list.set_map)

lemma update_requests_inv:
  assumes "tables_inv db" and "\<And>q. P q \<Longrightarrow> q \<in> set (ap_requests db) \<Longrightarrow> request_ok q \<Longrightarrow> request_ok (f q)" and "\<And>q. qr_id (f q) = qr_id q"
  shows "tables_inv (db\<lparr>ap_requests := set_where P f (ap_requests db)\<rparr>)"
proof -
  have "map qr_id (set_where P f (ap_requests db)) = map qr_id (ap_requests db)" by (intro map_set_where) (rule assms(3))
  moreover have "qr_id ` set (set_where P f (ap_requests db)) = qr_id ` set (ap_requests db)" using assms(3) by (rule ids_set_where)
  ultimately show ?thesis using assms(1,2) by (auto simp: tables_inv_def in_set_where)
qed

lemma tables_inv_change: "approval_change js db db' \<Longrightarrow> tables_inv db \<Longrightarrow> tables_inv db'"
proof (induction rule: approval_change.induct)
  case (request q db)
  then have "request_ok q" by (auto simp: fresh_request_def request_ok_def dest: normalizeApprovalDecisionPolicy_idem)
  with request show ?case by (auto simp: tables_inv_def fresh_request_def)
next
  case (decision env now db q x d e db1 r receiptId expires)
  note row = may_record_row [OF decision(1)]
  let ?upd = "db\<lparr>ap_requests := set_where (pending_row (qr_id (rq_row x)) (qr_workspace (rq_row x))) (resolve_row (dn_resolution e) e) (ap_requests db)\<rparr>"
  have upd: "tables_inv ?upd" by (rule update_requests_inv [OF decision(7)]) (simp_all add: pending_row_def request_ok_resolve)
  have ids: "qr_id ` set (ap_requests ?upd) = qr_id ` set (ap_requests db)" by (simp add: ids_set_where)
  have d: "dn_id e \<notin> dn_id ` set (ap_decisions db)" "\<forall>s. dn_supersedes e = Some s \<longrightarrow> s = dn_id e \<or> s \<in> dn_id ` set (ap_decisions db)"
    using decision(4) by (auto simp: insert_decision_Inr)
  have "dn_request e \<in> qr_id ` set (ap_requests ?upd)" unfolding ids using row by (simp add: decision(3))
  moreover have "rr_id r \<notin> rr_id ` set (ap_receipts db) \<and> rr_request r \<notin> rr_request ` set (ap_receipts db) \<and> 0 < rr_maximum r"
    if "dn_resolution e = Some Vote_Approved" using decision(6) [OF that] by (auto simp: insert_receipt_Inr)
  ultimately show ?case using upd d by (auto simp: tables_inv_def decided_db_def)
next
  case (finish status db i w n who reason now)
  from finish(2) show ?case
    by (rule update_requests_inv) (use finish(1) in \<open>auto simp: pending_at_def pending_row_def intro: request_ok_finish\<close>)
next
  case (answer db i w n to)
  then show ?case by (rule update_requests_inv) (simp_all add: request_ok_answer)
qed (auto simp: tables_inv_def new_revocation_def insert_use_Inr)

end
