(* ===== verification/Approval_Safety.thy ===== *)
theory Approval_Safety
  imports Approval_Invariants
begin

text \<open>
  What an approval rests on: the votes behind a resolved request, the request behind a receipt, and the
  uses of a receipt.
\<close>

section \<open>Votes\<close>

text \<open>A decision that may count: of someone the selector names, or stands in for, or gives a role.\<close>

definition decision_eligible :: "decision_policy \<Rightarrow> individual_decision \<Rightarrow> bool" where
  "decision_eligible p d \<longleftrightarrow> dp_source p = Legacy_Any_One \<or> dn_grants d \<noteq> []
     \<and> (creditedPrincipalId d \<in> set (named_principals (dp_approvers p)) \<or> (\<exists>m \<in> set (dn_roles d). fst m \<in> set (permitted_roles (dp_approvers p))))"

definition votes_inv :: "approval_db \<Rightarrow> bool" where
  "votes_inv db \<longleftrightarrow> (\<forall>q \<in> set (ap_requests db). let ds = decisions_of db (qr_id q) in
     (qr_status q = Approved \<longleftrightarrow> approval_satisfied (dp_approvers (qr_policy q)) (ballots ds))
     \<and> (qr_status q = Rejected \<longleftrightarrow> \<not> fst ` ballots ds \<subseteq> {Vote_Approved})
     \<and> (\<forall>d \<in> set ds. decision_eligible (qr_policy q) d)
     \<and> inj_on dn_principal (set (activeApprovalDecisions ds)))"

lemma require_mark_Inr [result_simps]: "require_mark m = Inr n \<longleftrightarrow> text_ok 1024 (fst m) \<and> text_ok 1024 (snd m) \<and> n = m"
  by (cases m) (auto simp: require_mark_def result_simps requireText_Inr)

lemma require_marks: "rmapM require_mark ms = Inr ns \<Longrightarrow> ns = ms"
  by (induction ms arbitrary: ns) (auto simp: result_simps)

lemma eligible_decision:
  assumes "eligibleDecisionAuthority js p (dn_principal d) au = Inr (True, dn_roles d)" and "uniqueSorted (da_grants au) l = Inr (dn_grants d)"
  shows "decision_eligible p d"
proof -
  let ?named = "set (named_principals (dp_approvers p))" and ?roles = "set (permitted_roles (dp_approvers p))"
  let ?ins = "stand_ins (dp_approvers p) (dn_principal d) (da_roles au)"
  from assms(1) obtain marks where m: "rmapM require_mark (filter (\<lambda>m. fst m \<in> ?roles \<or> m \<in> set ?ins) (da_roles au)) = Inr marks"
      and roles: "dn_roles d = js_sort (compare_marks js) marks"
      and ok: "dp_source p = Legacy_Any_One \<or> da_grants au \<noteq> []"
        "dp_source p = Legacy_Any_One \<or> dn_principal d \<in> ?named \<or> ?ins \<noteq> [] \<or> dn_roles d \<noteq> []"
    unfolding eligibleDecisionAuthority_def Let_def by (elim rbind_InrE) auto
  have set_roles: "set (dn_roles d) = {m \<in> set (da_roles au). fst m \<in> ?roles \<or> m \<in> set ?ins}"
    using require_marks [OF m] by (simp add: roles)
  have grants: "dn_grants d \<noteq> []" if "da_grants au \<noteq> []" using uniqueSorted_Inr [OF assms(2)] that by auto
  show ?thesis
  proof (cases "dp_source p = Legacy_Any_One \<or> (\<exists>m \<in> set (dn_roles d). fst m \<in> ?roles)")
    case True
    then show ?thesis using ok grants by (auto simp: decision_eligible_def)
  next
    case False
    then have stand: "set (dn_roles d) \<subseteq> set ?ins" using set_roles by blast
    have named: "\<exists>n \<in> ?named. stands_in_for m = Some n" if "m \<in> set ?ins" for m
      using that by (auto simp: stand_ins_def split: if_splits option.splits)
    have "set ?ins \<subseteq> set (da_roles au)" by (auto simp: stand_ins_def)
    then have empty: "?ins = []" if "dn_roles d = []"
    proof -
      have "set ?ins \<subseteq> set (dn_roles d)" using set_roles \<open>set ?ins \<subseteq> set (da_roles au)\<close> by blast
      with that show ?thesis by simp
    qed
    have "creditedPrincipalId d \<in> ?named"
    proof (cases "find (\<lambda>m. stands_in_for m \<noteq> None) (dn_roles d)")
      case (Some m)
      then have "m \<in> set (dn_roles d)" by (auto dest: find_SomeD)
      then show ?thesis using named stand Some by (fastforce simp: creditedPrincipalId_def)
    next
      case None
      then have "dn_roles d = []" using stand named by (cases "dn_roles d") (fastforce simp: find_None_iff)+
      then show ?thesis using ok(2) False None empty by (auto simp: creditedPrincipalId_def)
    qed
    then show ?thesis using ok(1) grants False by (auto simp: decision_eligible_def)
  qed
qed

lemma satisfied_empty: "selector_positive a \<Longrightarrow> \<not> approval_satisfied a {}"
  by (auto simp: selector_positive_def approval_satisfied_def split: approvers.splits)

lemma decisions_of_decided: "decisions_of (decided_db q e r db) i = decisions_of db i @ (if dn_request e = i then [e] else [])"
  by (simp add: decisions_of_def decided_db_def)

lemma active_one_per_principal:
  assumes inj: "inj_on dn_principal (set (activeApprovalDecisions ds))"
    and s: "supersedes_active (activeApprovalDecisions ds) (dn_principal e) (dn_supersedes e)"
  shows "inj_on dn_principal (set (activeApprovalDecisions (ds @ [e])))"
proof -
  have old: "set (activeApprovalDecisions (ds @ [e])) \<subseteq> insert e (set (activeApprovalDecisions ds))" by (auto simp: set_active)
  have ne: "dn_principal p \<noteq> dn_principal e" if p: "p \<in> set (activeApprovalDecisions (ds @ [e]))" "p \<noteq> e" for p
  proof
    assume same: "dn_principal p = dn_principal e"
    from p old have pd: "p \<in> set (activeApprovalDecisions ds)" by blast
    with s same obtain o' where o': "o' \<in> set (activeApprovalDecisions ds)" "dn_principal o' = dn_principal e" "dn_supersedes e = Some (dn_id o')" "dn_id o' \<noteq> []"
      by (auto simp: supersedes_active_def truthy_def)
    with inj pd same have "o' = p" by (metis inj_onD)
    with o' p(1) show False by (auto simp: set_active)
  qed
  show ?thesis
  proof (rule inj_onI)
    fix a b assume ab: "a \<in> set (activeApprovalDecisions (ds @ [e]))" "b \<in> set (activeApprovalDecisions (ds @ [e]))" "dn_principal a = dn_principal b"
    show "a = b"
    proof (cases "a = e \<or> b = e")
      case True
      then show ?thesis using ne ab by metis
    next
      case False
      then have "a \<in> set (activeApprovalDecisions ds)" "b \<in> set (activeApprovalDecisions ds)" using ab old by blast+
      with inj ab(3) show ?thesis by (metis inj_onD)
    qed
  qed
qed

lemma resolved_status_iff:
  "resolved_status v = Approved \<longleftrightarrow> v = Some Vote_Approved" "resolved_status v = Rejected \<longleftrightarrow> (\<exists>w. v = Some w \<and> w \<noteq> Vote_Approved)"
  by (cases v; cases "the v"; simp add: resolved_status_def)+

lemma status_by_ballots:
  "resolved_status (resolution_of q ds) = Approved \<longleftrightarrow> approval_satisfied (dp_approvers (qr_policy q)) (ballots ds)"
  "resolved_status (resolution_of q ds) = Rejected \<longleftrightarrow> \<not> fst ` ballots ds \<subseteq> {Vote_Approved}"
  unfolding resolved_status_iff resolution_of_def ballots_def by (simp only: resolve_approved_iff, simp only: resolve_negative_iff)

definition votes_ok :: "request_row \<Rightarrow> individual_decision list \<Rightarrow> bool" where
  "votes_ok q ds \<longleftrightarrow> (qr_status q = Approved \<longleftrightarrow> approval_satisfied (dp_approvers (qr_policy q)) (ballots ds))
     \<and> (qr_status q = Rejected \<longleftrightarrow> \<not> fst ` ballots ds \<subseteq> {Vote_Approved})
     \<and> (\<forall>d \<in> set ds. decision_eligible (qr_policy q) d)
     \<and> inj_on dn_principal (set (activeApprovalDecisions ds))"

lemma votes_inv_iff: "votes_inv db \<longleftrightarrow> (\<forall>q \<in> set (ap_requests db). votes_ok q (decisions_of db (qr_id q)))"
  by (simp add: votes_inv_def votes_ok_def Let_def)

lemma stored_policy_normal:
  assumes "tables_inv db" and "q \<in> set (ap_requests db)"
  shows "normalizeApprovalDecisionPolicy (qr_policy q) = Inr (qr_policy q)" "selector_positive (dp_approvers (qr_policy q))"
proof -
  show n: "normalizeApprovalDecisionPolicy (qr_policy q) = Inr (qr_policy q)" using assms by (simp add: tables_inv_def request_ok_def)
  from normalizeApprovalDecisionPolicy_idem [OF n] show "selector_positive (dp_approvers (qr_policy q))" by simp
qed

lemma read_policy: "tables_inv db \<Longrightarrow> q \<in> set (ap_requests db) \<Longrightarrow> reads js db q x \<Longrightarrow> qr_policy (rq_row x) = qr_policy q"
  using stored_policy_normal(1) reads_fields(10) by fastforce

lemma retained_set: "reads js db q x \<Longrightarrow> set (rq_decisions x) = set (decisions_of db (qr_id q))"
  by (simp add: reads_fields(11))

lemma votes_ok_fresh:
  assumes "fresh_request q db" and "tables_inv db"
  shows "votes_ok q (decisions_of db (qr_id q))"
proof -
  have "\<forall>d \<in> set (ap_decisions db). dn_request d \<noteq> qr_id q" using assms unfolding fresh_request_def tables_inv_def by metis
  then have "decisions_of db (qr_id q) = []" by (simp add: decisions_of_def filter_empty_conv)
  moreover from assms(1) have "selector_positive (dp_approvers (qr_policy q))" by (auto simp: fresh_request_def dest: normalizeApprovalDecisionPolicy_idem)
  moreover have "ballots [] = {}" by (simp add: ballots_def activeApprovalDecisions_def)
  ultimately show ?thesis using assms(1) by (simp add: votes_ok_def satisfied_empty fresh_request_def activeApprovalDecisions_def)
qed

lemma votes_ok_decided:
  assumes rec: "may_record env now db q x d" and inv: "tables_inv db" and ok: "votes_ok q (decisions_of db (qr_id q))"
    and e: "e = sealed (ae_js env) (rq_row x) (rq_decisions x) d"
  shows "votes_ok (resolve_row (dn_resolution e) e q) (decisions_of db (qr_id q) @ [e])"
proof -
  let ?ds = "decisions_of db (qr_id q)"
  note row = may_record_row [OF rec]
  have pol: "qr_policy (rq_row x) = qr_policy q" using inv row(4,5) by (rule read_policy)
  have act: "set (activeApprovalDecisions (rq_decisions x)) = set (activeApprovalDecisions ?ds)" using retained_set [OF row(5)] by (simp add: set_active)
  have b: "ballots (rq_decisions x @ [d]) = ballots (?ds @ [e])"
  proof -
    have "ballots (rq_decisions x @ [d]) = ballots (?ds @ [d])" using retained_set [OF row(5)] by (intro ballots_set) simp
    then show ?thesis by (simp add: e ballots_sealed)
  qed
  have v: "dn_resolution e = resolution_of (rq_row x) (rq_decisions x @ [d])" by (simp add: e)
  have status: "qr_status (resolve_row (dn_resolution e) e q) = resolved_status (dn_resolution e)"
    and policy: "qr_policy (resolve_row (dn_resolution e) e q) = qr_policy q" by (simp_all add: resolve_row_def Let_def)
  have "decision_eligible (qr_policy q) d"
    using rec eligible_decision [of "ae_js env" "qr_policy (rq_row x)" d] unfolding may_record_def pol by blast
  then have elig: "decision_eligible (qr_policy q) e" by (simp add: e decision_eligible_def)
  have "inj_on dn_principal (set (activeApprovalDecisions (?ds @ [e])))"
  proof (rule active_one_per_principal)
    show "inj_on dn_principal (set (activeApprovalDecisions ?ds))" using ok by (simp add: votes_ok_def)
    show "supersedes_active (activeApprovalDecisions ?ds) (dn_principal e) (dn_supersedes e)"
      using rec act by (simp add: may_record_def supersedes_active_def e)
  qed
  with elig ok show ?thesis unfolding votes_ok_def status policy by (simp add: v status_by_ballots pol b)
qed

lemma votes_ok_row: "votes_ok q ds \<Longrightarrow> qr_status q = Pending \<Longrightarrow> qr_status p \<in> {Pending, Cancelled, Invalidated} \<Longrightarrow> qr_policy p = qr_policy q \<Longrightarrow> votes_ok p ds"
  by (auto simp: votes_ok_def)

lemma votes_update:
  assumes "votes_inv db" and "\<And>q. P q \<Longrightarrow> qr_status q = Pending" and "\<And>q. qr_id (f q) = qr_id q \<and> qr_policy (f q) = qr_policy q"
    and "\<And>q. P q \<Longrightarrow> qr_status (f q) \<in> {Pending, Cancelled, Invalidated}"
  shows "votes_inv (db\<lparr>ap_requests := set_where P f (ap_requests db)\<rparr>)"
  unfolding votes_inv_iff
proof
  fix p assume "p \<in> set (ap_requests (db\<lparr>ap_requests := set_where P f (ap_requests db)\<rparr>))"
  then obtain q where q: "q \<in> set (ap_requests db)" "p = (if P q then f q else q)" by (auto simp: in_set_where)
  then have "votes_ok q (decisions_of db (qr_id q))" using assms(1) by (simp add: votes_inv_iff)
  then have "votes_ok p (decisions_of db (qr_id p))" using q(2) assms(2-4) by (auto intro: votes_ok_row)
  then show "votes_ok p (decisions_of (db\<lparr>ap_requests := set_where P f (ap_requests db)\<rparr>) (qr_id p))" by (simp add: decisions_of_def)
qed

lemma votes_inv_change: "approval_change js db db' \<Longrightarrow> tables_inv db \<Longrightarrow> votes_inv db \<Longrightarrow> votes_inv db'"
proof (induction rule: approval_change.induct)
  case (request q db)
  then show ?case using votes_ok_fresh [OF request(1,2)] by (auto simp: votes_inv_iff decisions_of_def)
next
  case (decision env now db q x d e db1 r receiptId expires)
  note row = may_record_row [OF decision(1)]
  have dist: "distinct (map qr_id (ap_requests db))" using decision(7) by (simp add: tables_inv_def)
  have req: "dn_request e = qr_id q" using row by (simp add: decision(3))
  have "e = sealed (ae_js env) (rq_row x) (rq_decisions x) d" using decision(2,3) by simp
  moreover have "votes_ok q (decisions_of db (qr_id q))" using decision(8) row(4) by (simp add: votes_inv_iff)
  ultimately have new: "votes_ok (resolve_row (dn_resolution e) e q) (decisions_of db (qr_id q) @ [e])"
    using votes_ok_decided [OF decision(1,7)] by blast
  show ?case unfolding votes_inv_iff decisions_of_decided req
  proof
    fix p assume "p \<in> set (ap_requests (decided_db (rq_row x) e r db))"
    then have "p = resolve_row (dn_resolution e) e q \<or> p \<in> set (ap_requests db) \<and> qr_id p \<noteq> qr_id q"
      by (simp add: decided_requests [OF decision(1) dist])
    then show "votes_ok p (decisions_of db (qr_id p) @ (if qr_id q = qr_id p then [e] else []))"
    proof
      assume "p = resolve_row (dn_resolution e) e q"
      with new show ?thesis by simp
    next
      assume p: "p \<in> set (ap_requests db) \<and> qr_id p \<noteq> qr_id q"
      with decision(8) have "votes_ok p (decisions_of db (qr_id p))" unfolding votes_inv_iff by blast
      with p show ?thesis by auto
    qed
  qed
next
  case (finish status db i w n who reason now)
  from finish(3) show ?case by (rule votes_update) (use finish(1) in \<open>auto simp: pending_at_def pending_row_def finished_row_def\<close>)
next
  case (answer db i w n to)
  from answer(2) show ?case by (rule votes_update) (auto simp: pending_at_def pending_row_def answered_row_def)
qed (auto simp: votes_inv_def decisions_of_def insert_use_Inr)

section \<open>Receipts\<close>

definition backs :: "request_row \<Rightarrow> receipt_row \<Rightarrow> bool" where
  "backs q r \<longleftrightarrow> qr_id q = rr_request r \<and> qr_status q = Approved \<and> rr_workspace r = qr_workspace q \<and> rr_action_digest r = qr_action_digest q
     \<and> rr_set_digest r = qr_set_digest q \<and> rr_maximum r = qr_maximum q \<and> rr_context r = qr_context q"

definition receipts_inv :: "approval_db \<Rightarrow> bool" where
  "receipts_inv db \<longleftrightarrow> (\<forall>r \<in> set (ap_receipts db). \<exists>q \<in> set (ap_requests db). backs q r)
     \<and> (\<forall>q \<in> set (ap_requests db). qr_status q = Approved \<longrightarrow> (\<exists>r \<in> set (ap_receipts db). rr_request r = qr_id q))"

lemma receipts_update:
  assumes "receipts_inv db" and "\<And>q. P q \<Longrightarrow> qr_status q = Pending" and "\<And>q. P q \<Longrightarrow> qr_status (f q) \<noteq> Approved"
  shows "receipts_inv (db\<lparr>ap_requests := set_where P f (ap_requests db)\<rparr>)"
proof -
  have keep: "q \<in> set (set_where P f (ap_requests db)) \<longleftrightarrow> q \<in> set (ap_requests db)" if "qr_status q = Approved" for q
  proof -
    from assms(2) that have "\<not> P q" by auto
    with assms(3) that show ?thesis unfolding in_set_where by fastforce
  qed
  have "\<exists>q \<in> set (set_where P f (ap_requests db)). backs q r" if "r \<in> set (ap_receipts db)" for r
  proof -
    from assms(1) that obtain q where q: "q \<in> set (ap_requests db)" "backs q r" unfolding receipts_inv_def by blast
    then have "q \<in> set (set_where P f (ap_requests db))" by (subst keep) (simp_all add: backs_def)
    with q(2) show ?thesis by blast
  qed
  then show ?thesis using assms(1) keep by (auto simp: receipts_inv_def)
qed

lemma receipts_inv_change: "approval_change js db db' \<Longrightarrow> tables_inv db \<Longrightarrow> receipts_inv db \<Longrightarrow> receipts_inv db'"
proof (induction rule: approval_change.induct)
  case (decision env now db q x d e db1 r receiptId expires)
  note row = may_record_row [OF decision(1)] and fields = reads_fields [OF may_record_row(5) [OF decision(1)]]
  have dist: "distinct (map qr_id (ap_requests db))" using decision(7) by (simp add: tables_inv_def)
  let ?q = "resolve_row (dn_resolution e) e q"
  have status: "qr_status ?q = resolved_status (dn_resolution e)" by (simp add: resolve_row_def Let_def)
  have backed: "backs ?q r" if "dn_resolution e = Some Vote_Approved"
  proof -
    have "qr_context (rq_row x) = qr_context q" using row(5) by (auto simp: reads_def)
    then show ?thesis using that fields by (simp add: backs_def decision(5) receipt_of_def resolve_row_def resolved_status_def Let_def)
  qed
  have other: "qr_id y \<noteq> qr_id q" if "y \<in> set (ap_requests db)" "qr_status y = Approved" for y
    using that row(3,4) pending_row_eq [OF dist row(4) that(1)] by auto
  have reqs: "y \<in> set (ap_requests (decided_db (rq_row x) e r db)) \<longleftrightarrow> y = ?q \<or> y \<in> set (ap_requests db) \<and> qr_id y \<noteq> qr_id q" for y
    by (rule decided_requests [OF decision(1) dist])
  have recs: "ap_receipts (decided_db (rq_row x) e r db) = ap_receipts db @ (if dn_resolution e = Some Vote_Approved then [r] else [])"
    by (simp add: decided_db_def)
  show ?case unfolding receipts_inv_def
  proof (intro conjI ballI impI)
    fix s assume "s \<in> set (ap_receipts (decided_db (rq_row x) e r db))"
    then consider "s \<in> set (ap_receipts db)" | "s = r" "dn_resolution e = Some Vote_Approved" unfolding recs by (auto split: if_splits)
    then show "\<exists>y \<in> set (ap_requests (decided_db (rq_row x) e r db)). backs y s"
    proof cases
      case 1
      then obtain y where "y \<in> set (ap_requests db)" "backs y s" using decision(8) by (auto simp: receipts_inv_def)
      moreover from this have "qr_id y \<noteq> qr_id q" by (intro other) (simp_all add: backs_def)
      ultimately show ?thesis using reqs by blast
    qed (use backed reqs in blast)
  next
    fix y assume y: "y \<in> set (ap_requests (decided_db (rq_row x) e r db))" "qr_status y = Approved"
    show "\<exists>s \<in> set (ap_receipts (decided_db (rq_row x) e r db)). rr_request s = qr_id y"
    proof (cases "y = ?q")
      case True
      with y(2) have v: "dn_resolution e = Some Vote_Approved" by (simp add: status resolved_status_iff)
      have "rr_request r = qr_id y" using backed [OF v] by (simp add: True backs_def)
      then show ?thesis unfolding recs v by auto
    next
      case False
      then show ?thesis using y reqs decision(8) unfolding recs by (auto simp: receipts_inv_def)
    qed
  qed
next
  case (finish status db i w n who reason now)
  from finish(3) show ?case by (rule receipts_update) (use finish(1) in \<open>auto simp: pending_at_def pending_row_def finished_row_def\<close>)
next
  case (answer db i w n to)
  from answer(2) show ?case by (rule receipts_update) (auto simp: pending_at_def pending_row_def answered_row_def)
qed (auto simp: receipts_inv_def fresh_request_def insert_use_Inr)

section \<open>Uses\<close>

definition uses_inv :: "approval_db \<Rightarrow> bool" where
  "uses_inv db \<longleftrightarrow> distinct (map (\<lambda>u. (us_receipt u, us_id u)) (ap_uses db))
     \<and> (\<forall>u \<in> set (ap_uses db). \<exists>r \<in> set (ap_receipts db). rr_id r = us_receipt u \<and> us_digest u = rr_action_digest r)
     \<and> (\<forall>r \<in> set (ap_receipts db). int (length (filter (\<lambda>u. us_receipt u = rr_id r) (ap_uses db))) \<le> rr_maximum r)"

lemma verified_receipt:
  assumes "verified env now vi db x"
  obtains r where "r \<in> set (ap_receipts db)" "rr_id r = vi_receipt vi" "reads_receipt (ae_js env) db r x" "rr_id (rp_row x) = rr_id r"
proof -
  from assms have "getReceipt (ae_js env) db (vi_receipt vi) = Inr (Some x)" by (auto simp: verified_def dest: match_receipt_Inr)
  then obtain r where "r \<in> set (ap_receipts db)" "rr_id r = vi_receipt vi" "reads_receipt (ae_js env) db r x" by (auto dest: getReceipt_Some)
  then show thesis by (intro that [of r]) (simp_all only: reads_receipt_fields(1))
qed

lemma uses_inv_change: "approval_change js db db' \<Longrightarrow> tables_inv db \<Longrightarrow> uses_inv db \<Longrightarrow> uses_inv db'"
proof (induction rule: approval_change.induct)
  case (decision env now db q x d e db1 r receiptId expires)
  have new: "(\<forall>u \<in> set (ap_uses db). us_receipt u \<noteq> rr_id r) \<and> 0 < rr_maximum r" if "dn_resolution e = Some Vote_Approved"
  proof -
    have "\<forall>s \<in> set (ap_receipts db). rr_id s \<noteq> rr_id r" "0 < rr_maximum r" using decision(6) [OF that] by (auto simp: insert_receipt_Inr)
    moreover have "us_receipt u \<in> rr_id ` set (ap_receipts db)" if "u \<in> set (ap_uses db)" for u
      using decision(8) that unfolding uses_inv_def by (metis image_eqI)
    ultimately show ?thesis by fastforce
  qed
  then have "filter (\<lambda>u. us_receipt u = rr_id r) (ap_uses db) = []" "0 < rr_maximum r" if "dn_resolution e = Some Vote_Approved"
    using new [OF that] by (auto simp: filter_empty_conv)
  then show ?case using decision(8) by (auto simp: uses_inv_def decided_db_def)
next
  case (use env now vi db x i t db')
  from use(1) obtain r where r: "r \<in> set (ap_receipts db)" "reads_receipt (ae_js env) db r x" "rr_id (rp_row x) = rr_id r" by (rule verified_receipt)
  have fresh: "\<forall>u \<in> set (ap_uses db). us_receipt u = rr_id r \<longrightarrow> us_id u \<noteq> i"
    and room: "\<forall>s \<in> set (ap_receipts db). rr_id s = rr_id r \<longrightarrow> int (length (filter (\<lambda>u. us_receipt u = rr_id r) (ap_uses db))) < rr_maximum s"
    and db': "db' = db\<lparr>ap_uses := ap_uses db @ [use_of i t vi x]\<rparr>" using use(3) r(3) by (auto simp: insert_use_Inr use_of_def)
  have "us_receipt (use_of i t vi x) = rr_id r" "us_id (use_of i t vi x) = i" "us_digest (use_of i t vi x) = rr_action_digest r"
    using r(2,3) by (simp_all add: use_of_def reads_receipt_fields)
  moreover have "int (length (filter (\<lambda>u. us_receipt u = rr_id s) (ap_uses db))) + 1 \<le> rr_maximum s"
    if "s \<in> set (ap_receipts db)" "rr_id s = rr_id r" for s using room that by force
  ultimately show ?case using use(5) r(1) fresh by (auto simp: uses_inv_def db')
qed (simp_all add: uses_inv_def)

definition approval_inv :: "approval_db \<Rightarrow> bool" where
  "approval_inv db \<longleftrightarrow> tables_inv db \<and> votes_inv db \<and> receipts_inv db \<and> uses_inv db"

lemma approval_step_inv: "approval_inv db \<Longrightarrow> approval_step js db db' \<Longrightarrow> approval_inv db'"
  unfolding approval_inv_def
  by (meson approval_step_change tables_inv_change votes_inv_change receipts_inv_change uses_inv_change)

definition empty_approvals :: approval_db where
  "empty_approvals = \<lparr>ap_requests = [], ap_decisions = [], ap_receipts = [], ap_uses = [], ap_revocations = []\<rparr>"

lemma approval_inv_empty: "approval_inv empty_approvals"
  by (simp add: approval_inv_def tables_inv_def votes_inv_def receipts_inv_def uses_inv_def empty_approvals_def)

section \<open>An approval as a token\<close>

text \<open>
  The abstract machine: a request is open, then granted a number of uses or closed. Granted uses are
  spent one by one and nothing gives them back; a closed request stays closed.
\<close>

datatype grant_state = Open | Granted nat | Closed

inductive token_step :: "(string \<rightharpoonup> grant_state) \<Rightarrow> (string \<rightharpoonup> grant_state) \<Rightarrow> bool" where
  stay: "token_step T T"
| opened: "T i = None \<Longrightarrow> token_step T (T(i \<mapsto> Open))"
| granted: "T i = Some Open \<Longrightarrow> 0 < n \<Longrightarrow> token_step T (T(i \<mapsto> Granted n))"
| closed: "T i = Some Open \<Longrightarrow> token_step T (T(i \<mapsto> Closed))"
| spent: "T i = Some (Granted (Suc n)) \<Longrightarrow> token_step T (T(i \<mapsto> Granted n))"

definition uses_of_request :: "approval_db \<Rightarrow> string \<Rightarrow> use_row list" where
  "uses_of_request db i = filter (\<lambda>u. \<exists>r \<in> set (ap_receipts db). rr_id r = us_receipt u \<and> rr_request r = i) (ap_uses db)"

definition token_of :: "approval_db \<Rightarrow> request_row \<Rightarrow> grant_state" where
  "token_of db q = (case qr_status q of Pending \<Rightarrow> Open
     | Approved \<Rightarrow> Granted (nat (qr_maximum q) - length (uses_of_request db (qr_id q))) | _ \<Rightarrow> Closed)"

definition tokens :: "approval_db \<Rightarrow> string \<rightharpoonup> grant_state" where
  "tokens db i = map_option (token_of db) (row_where (\<lambda>q. qr_id q = i) (ap_requests db))"

lemma token_of_cong: "uses_of_request db' (qr_id x) = uses_of_request db (qr_id x) \<Longrightarrow> token_of db' x = token_of db x"
  by (cases "qr_status x") (simp_all add: token_of_def)

lemma token_of_requests [simp]: "token_of (db\<lparr>ap_requests := rs\<rparr>) = token_of db"
  by (rule ext, rule token_of_cong) (simp add: uses_of_request_def)

lemma token_of_revocations [simp]: "token_of (db\<lparr>ap_revocations := rs\<rparr>) = token_of db"
  by (rule ext, rule token_of_cong) (simp add: uses_of_request_def)

lemma tokens_row: "distinct (map qr_id (ap_requests db)) \<Longrightarrow> q \<in> set (ap_requests db) \<Longrightarrow> tokens db (qr_id q) = Some (token_of db q)"
  by (simp add: tokens_def row_where_key)

lemma tokens_update:
  assumes d: "distinct (map qr_id (ap_requests db))" and q: "q \<in> set (ap_requests db)" "P q" and P: "\<And>x. P x \<Longrightarrow> qr_id x = qr_id q"
    and f: "\<And>x. qr_id (f x) = qr_id x" and db': "ap_requests db' = set_where P f (ap_requests db)"
    and same: "\<And>x. x \<in> set (ap_requests db) \<Longrightarrow> qr_id x \<noteq> qr_id q \<Longrightarrow> token_of db' x = token_of db x"
  shows "tokens db' = (tokens db)(qr_id q \<mapsto> token_of db' (f q))"
proof
  fix i
  have upd: "row_where (\<lambda>x. qr_id x = i) (ap_requests db') = map_option (\<lambda>x. if P x then f x else x) (row_where (\<lambda>x. qr_id x = i) (ap_requests db))"
    unfolding db' by (rule row_where_set_where) (simp add: f)
  show "tokens db' i = ((tokens db)(qr_id q \<mapsto> token_of db' (f q))) i"
  proof (cases "i = qr_id q")
    case True
    have "row_where (\<lambda>x. qr_id x = i) (ap_requests db') = Some (f q)"
      using upd row_where_key [OF d q(1)] q(2) by (simp add: True)
    then show ?thesis using True by (simp add: tokens_def)
  next
    case False
    show ?thesis
    proof (cases "row_where (\<lambda>x. qr_id x = i) (ap_requests db)")
      case None
      then show ?thesis using upd False by (simp add: tokens_def)
    next
      case (Some z)
      then have z: "z \<in> set (ap_requests db)" "qr_id z = i" by (blast dest: row_where_SomeD)+
      then have "\<not> P z" "token_of db' z = token_of db z" using False P same by auto
      then show ?thesis using upd Some False by (simp add: tokens_def)
    qed
  qed
qed

lemma tokens_pending_update:
  assumes inv: "approval_inv db" and P: "\<And>x. P x \<Longrightarrow> qr_status x = Pending \<and> qr_id x = i"
    and f: "\<And>x. qr_id (f x) = qr_id x" "\<And>x. P x \<Longrightarrow> qr_status (f x) \<in> {Pending, Cancelled, Invalidated}"
  shows "token_step (tokens db) (tokens (db\<lparr>ap_requests := set_where P f (ap_requests db)\<rparr>))" (is "token_step _ (tokens ?db)")
proof (cases "\<exists>q \<in> set (ap_requests db). P q")
  case False
  then have "set_where P f (ap_requests db) = ap_requests db" unfolding set_where_def by (intro map_idI) auto
  then show ?thesis by (simp add: token_step.stay)
next
  case True
  then obtain q where q: "q \<in> set (ap_requests db)" "P q" by blast
  have dist: "distinct (map qr_id (ap_requests db))" using inv by (simp add: approval_inv_def tables_inv_def)
  have upd: "tokens ?db = (tokens db)(qr_id q \<mapsto> token_of ?db (f q))"
    by (rule tokens_update [where P = P, OF dist q]) (use P q(2) f(1) in auto)
  have pending: "tokens db (qr_id q) = Some Open" using tokens_row [OF dist q(1)] P [OF q(2)] by (simp add: token_of_def)
  from f(2) [OF q(2)] have "token_of ?db (f q) = Open \<or> token_of ?db (f q) = Closed" by (auto simp: token_of_def)
  then show ?thesis
  proof
    assume "token_of ?db (f q) = Open"
    then have "tokens ?db = tokens db" using pending unfolding upd by auto
    then show ?thesis by (simp add: token_step.stay)
  next
    assume "token_of ?db (f q) = Closed"
    then show ?thesis using pending unfolding upd by (simp add: token_step.closed)
  qed
qed

lemma token_spent:
  assumes inv: "approval_inv db" and x: "verified env now vi db x" and u: "insert_use (use_of i t vi x) db = Inr db'"
  shows "token_step (tokens db) (tokens db')"
proof -
  from x obtain r where r: "r \<in> set (ap_receipts db)" "rr_id (rp_row x) = rr_id r" by (rule verified_receipt)
  let ?count = "\<lambda>us. length (filter (\<lambda>u. us_receipt u = rr_id r) us)" and ?u = "use_of i t vi x"
  have mine: "us_receipt ?u = rr_id r" by (simp add: use_of_def r(2))
  have room: "int (?count (ap_uses db)) < rr_maximum r" and db': "db' = db\<lparr>ap_uses := ap_uses db @ [?u]\<rparr>"
    using u r(1) mine by (auto simp: insert_use_Inr)
  have receipts: "ap_receipts db' = ap_receipts db" and requests: "ap_requests db' = ap_requests db" and uses: "ap_uses db' = ap_uses db @ [?u]"
    by (simp_all add: db')
  have ids: "s = r" if "s \<in> set (ap_receipts db)" "rr_id s = rr_id r \<or> rr_request s = rr_request r" for s
    using inv that r(1) by (auto simp: approval_inv_def tables_inv_def distinct_map inj_on_def)
  from inv r(1) obtain q where q: "q \<in> set (ap_requests db)" "backs q r" by (auto simp: approval_inv_def receipts_inv_def)
  then have rq: "qr_id q = rr_request r" "qr_status q = Approved" "rr_maximum r = qr_maximum q" by (simp_all add: backs_def)
  have dist: "distinct (map qr_id (ap_requests db))" using inv by (simp add: approval_inv_def tables_inv_def)
  have count: "uses_of_request d (qr_id q) = filter (\<lambda>u. us_receipt u = rr_id r) (ap_uses d)" if "ap_receipts d = ap_receipts db" for d
    unfolding uses_of_request_def that rq(1) by (intro filter_cong [OF refl]) (metis ids r(1))
  have other: "uses_of_request db' j = uses_of_request db j" if "j \<noteq> qr_id q" for j
  proof -
    have "\<not> (\<exists>s \<in> set (ap_receipts db). rr_id s = us_receipt ?u \<and> rr_request s = j)" using ids rq(1) that mine by metis
    then show ?thesis unfolding uses_of_request_def receipts uses by simp
  qed
  have upd: "tokens db' = (tokens db)(qr_id q \<mapsto> token_of db' ((\<lambda>y. y) q))"
  proof (rule tokens_update [where P = "\<lambda>y. y = q", OF dist q(1)])
    show "token_of db' y = token_of db y" if "qr_id y \<noteq> qr_id q" for y using other [OF that] by (rule token_of_cong)
  qed (simp_all add: requests set_where_def)
  have more: "?count (ap_uses db') = Suc (?count (ap_uses db))" by (simp add: uses mine)
  then have "nat (qr_maximum q) - ?count (ap_uses db) = Suc (nat (qr_maximum q) - ?count (ap_uses db'))" using room rq(3) by linarith
  then have "token_of db q = Granted (Suc (nat (qr_maximum q) - ?count (ap_uses db')))"
    and "token_of db' q = Granted (nat (qr_maximum q) - ?count (ap_uses db'))"
    using rq(2) by (simp_all add: token_of_def count receipts)
  then show ?thesis using tokens_row [OF dist q(1)] unfolding upd by (simp add: token_step.spent)
qed

lemma token_step_change:
  assumes inv: "approval_inv db" and "approval_change js db db'"
  shows "token_step (tokens db) (tokens db')"
  using assms(2)
proof (cases rule: approval_change.cases)
  case same
  then show ?thesis by (simp add: token_step.stay)
next
  case (request q)
  have none: "row_where (\<lambda>x. qr_id x = qr_id q) (ap_requests db) = None" 
    using request(2) unfolding fresh_request_def row_where_None_iff by (metis image_eqI)
  have "token_of db' x = token_of db x" for x by (simp add: request(1))
  then have "tokens db' = (tokens db)(qr_id q \<mapsto> token_of db q)" using none
    by (auto simp: tokens_def request(1) row_where_append fun_eq_iff split: option.splits)
  moreover have "token_of db q = Open" using request(2) by (simp add: fresh_request_def token_of_def)
  ultimately show ?thesis using none by (simp add: token_step.opened tokens_def)
next
  case (decision env now q x d e db1 r receiptId expires)
  note row = may_record_row [OF decision(2)]
  have dist: "distinct (map qr_id (ap_requests db))" using inv by (simp add: approval_inv_def tables_inv_def)
  have uses: "uses_of_request db' i = uses_of_request db i" for i
  proof -
    have "us_receipt u \<noteq> rr_id r" if "u \<in> set (ap_uses db)" "dn_resolution e = Some Vote_Approved" for u
      using decision(7) [OF that(2)] inv that(1) unfolding approval_inv_def uses_inv_def insert_receipt_Inr by metis
    then have "(\<exists>s \<in> set (ap_receipts db'). rr_id s = us_receipt u \<and> rr_request s = i)
        \<longleftrightarrow> (\<exists>s \<in> set (ap_receipts db). rr_id s = us_receipt u \<and> rr_request s = i)" if "u \<in> set (ap_uses db)" for u
      using that unfolding decision(1) decided_db_def by fastforce
    then show ?thesis unfolding uses_of_request_def by (simp add: decision(1) decided_db_def cong: filter_cong)
  qed
  have tok: "token_of db' y = token_of db y" for y by (rule token_of_cong) (rule uses)
  let ?q = "resolve_row (dn_resolution e) e q"
  have requests: "ap_requests db' = set_where (pending_row (qr_id (rq_row x)) (qr_workspace (rq_row x))) (resolve_row (dn_resolution e) e) (ap_requests db)"
    by (simp add: decision(1) decided_db_def)
  have upd: "tokens db' = (tokens db)(qr_id q \<mapsto> token_of db' ?q)"
    by (rule tokens_update [where P = "pending_row (qr_id (rq_row x)) (qr_workspace (rq_row x))", OF dist row(4) row(7)])
      (simp_all only: tok row_ids, simp_all add: pending_row_def row(1,2) requests)
  have pending: "tokens db (qr_id q) = Some Open" using tokens_row [OF dist row(4)] row(3) by (simp add: token_of_def)
  have status: "qr_status ?q = resolved_status (dn_resolution e)" "qr_maximum ?q = qr_maximum q" by (simp_all add: resolve_row_def Let_def)
  show ?thesis
  proof (cases "dn_resolution e = Some Vote_Approved")
    case True
    have "rr_request r = qr_id q" by (simp add: decision(6) receipt_of_def row(1))
    then have "\<forall>s \<in> set (ap_receipts db). rr_request s \<noteq> qr_id q" using decision(7) [OF True] by (simp add: insert_receipt_Inr)
    then have "uses_of_request db (qr_id q) = []" by (auto simp: uses_of_request_def filter_empty_conv)
    then have "token_of db' ?q = Granted (nat (qr_maximum q))" using status True by (simp add: token_of_def resolved_status_def uses)
    moreover have "0 < qr_maximum q" using inv row(4) by (simp add: approval_inv_def tables_inv_def request_ok_def)
    ultimately show ?thesis using pending unfolding upd by (simp add: token_step.granted)
  next
    case False
    then consider "resolved_status (dn_resolution e) = Pending" | "resolved_status (dn_resolution e) = Rejected"
      by (cases "dn_resolution e"; cases "the (dn_resolution e)") (auto simp: resolved_status_def)
    then show ?thesis
    proof cases
      case 1
      then have "tokens db' = tokens db" unfolding upd using status pending by (auto simp: token_of_def)
      then show ?thesis by (simp add: token_step.stay)
    next
      case 2
      then have "token_of db' ?q = Closed" using status by (simp add: token_of_def)
      then show ?thesis using pending unfolding upd by (simp add: token_step.closed)
    qed
  qed
next
  case (finish status i w n who reason now)
  show ?thesis unfolding finish(1) by (rule tokens_pending_update [OF inv, where i = i])
      (use finish(2) in \<open>auto simp: pending_at_def pending_row_def finished_row_def\<close>)
next
  case (answer i w n to)
  show ?thesis unfolding answer by (rule tokens_pending_update [OF inv, where i = i])
      (auto simp: pending_at_def pending_row_def answered_row_def)
next
  case (revocation v)
  then have "tokens db' = tokens db" by (simp add: tokens_def fun_eq_iff)
  then show ?thesis by (simp add: token_step.stay)
next
  case (use env now vi x i t)
  from use(1) show ?thesis by (rule token_spent [OF inv _ use(3)])
qed

interpretation approvals: simulation "approval_step js" token_step tokens approval_inv
  by unfold_locales (blast intro: approval_step_inv, blast intro: token_step_change approval_step_change)

end
