(* ===== verification/Approval_Run.thy ===== *)
theory Approval_Run
  imports Approval_Safety
begin

text \<open>
  A worked run of the approval store: a request that needs both of two principals, and their decisions,
  the second one recorded at a later or at the same instant with the smaller identifier.
\<close>

section \<open>A worked run\<close>

definition run_action :: approval_action where
  "run_action = \<lparr>aa_operation = ''ops.run'', aa_principal = ''worker'', aa_target = None, aa_input = replicate 64 (CHR ''a''), aa_artefacts = [],
     aa_composition = None, aa_placement = None, aa_scope_execution = None, aa_node_execution = None, aa_connector = None, aa_package = None,
     aa_policy_ref = None, aa_grants = [''g''], aa_effect = \<lparr>ee_summary = ''s'', ee_external = False, ee_reversibility = ''none'', ee_refs = []\<rparr>\<rparr>"

text \<open>A platform for the run: the digest keeps the digits of a text, and keys are written in the order they are given.\<close>

definition run_js :: platform where
  "run_js = sample_platform\<lparr>sha256_hex := filter (\<lambda>c. c = CHR ''1'' \<or> c = CHR ''2''), locale_compare := (\<lambda>_ _. 0)\<rparr>"

definition run_env :: approval_env where
  "run_env = \<lparr>ae_js = run_js, ae_authority = (\<lambda>_. \<lparr>da_grants = [''g''], da_roles = []\<rparr>), ae_current = (\<lambda>_. True), ae_context = (\<lambda>_. False)\<rparr>"

text \<open>The same dependencies after the grants of the approvers are gone.\<close>

definition stripped_env :: approval_env where
  "stripped_env = run_env\<lparr>ae_authority := (\<lambda>_. \<lparr>da_grants = [], da_roles = []\<rparr>)\<rparr>"

definition run_create :: create_input where
  "run_create = \<lparr>ci_workspace = ''w'', ci_action = run_action, ci_context = None, ci_binding = None,
     ci_policy = Some \<lparr>dp_source = Local_Operator ''op'', dp_approvers = Quorum [''p1'', ''p2''] [] 2\<rparr>, ci_requester = ''worker'', ci_reason = ''r'',
     ci_expires = ''xxxxxxxx'', ci_maximum = None, ci_key = ''k''\<rparr>"

definition run_vote :: "string \<Rightarrow> string \<Rightarrow> decide_input" where
  "run_vote who event = \<lparr>di_workspace = ''w'', di_request = ''q'', di_expected = 1, di_vote = Vote_Approved, di_principal = who, di_event = event,
     di_reason = ''ok'', di_receipt_expires = None, di_supersedes = None, di_key = None\<rparr>"

definition run_verify :: verify_input where
  "run_verify = \<lparr>vi_receipt = ''r'', vi_workspace = ''w'', vi_principal = ''worker'', vi_action = run_action, vi_at = Some ''xxx''\<rparr>"

definition run_row :: request_row where
  "run_row = \<lparr>qr_id = ''q'', qr_workspace = ''w'', qr_action = run_action, qr_action_digest = ''1'', qr_context = None, qr_binding = None,
     qr_response = None, qr_policy = \<lparr>dp_source = Local_Operator ''op'', dp_approvers = Quorum [''p1'', ''p2''] [] 2\<rparr>,
     qr_policy_digest = ''11211'', qr_set_digest = ''1'', qr_requester = ''worker'', qr_reason = ''r'', qr_requested_at = ''x'',
     qr_expires_at = ''xxxxxxxx'', qr_maximum = 1, qr_key = ''k'', qr_status = Pending, qr_outcome = None, qr_revision = 1,
     qr_decided_by = None, qr_event = None, qr_decision_reason = None, qr_decided_at = None\<rparr>"

definition run_created :: approval_db where
  "run_created = empty_approvals\<lparr>ap_requests := [run_row]\<rparr>"

definition run_cast :: "string \<Rightarrow> string \<Rightarrow> string \<Rightarrow> string \<Rightarrow> individual_decision" where
  "run_cast who i event t = \<lparr>dn_id = i, dn_request = ''q'', dn_workspace = ''w'', dn_principal = who, dn_vote = Vote_Approved, dn_reason = ''ok'',
     dn_event = event, dn_grants = [''g''], dn_roles = [], dn_supersedes = None, dn_key = event, dn_at = t, dn_set_digest = [], dn_resolution = None\<rparr>"

definition run_first :: approval_db where
  "run_first = run_created\<lparr>ap_requests := [run_row\<lparr>qr_set_digest := ''12111'', qr_revision := 2\<rparr>],
     ap_decisions := [(run_cast ''p1'' ''d2'' ''e1'' ''xx'')\<lparr>dn_set_digest := ''12111''\<rparr>]\<rparr>"

lemma run_decides:
  assumes "requireRequestForWorkspace run_js db ''q'' ''w'' = Inr x" and "listDecisions db ''q'' = Inr ds" and "find (replays who event) ds = None"
    and "rq_row x = run_row\<lparr>qr_set_digest := g, qr_revision := n\<rparr>" and "text_ok 1024 who \<and> text_ok 1024 event \<and> text_ok 512 event"
    and "\<not> time_le run_js ''xxxxxxxx'' t" and "eligibleDecisionAuthority run_js (qr_policy run_row) who \<lparr>da_grants = [''g''], da_roles = []\<rparr> = Inr (True, [])"
    and "find (\<lambda>d. dn_principal d = who) (activeApprovalDecisions ds) = None"
    and "list_all (\<lambda>d. dn_grants d = [''g''] \<and> dn_roles d = []) (activeApprovalDecisions ds)"
  shows "decideRequest run_env t i rid (run_vote who event) db = record_decision run_js rid ''xxxxxxxx'' (rq_row x) ds (run_cast who i event t) db"
proof -
  let ?q = "run_row\<lparr>qr_set_digest := g, qr_revision := n\<rparr>"
  have q: "qr_id ?q = ''q''" "qr_status ?q = Pending" "qr_expires_at ?q = ''xxxxxxxx''" "qr_policy ?q = qr_policy run_row" by (simp_all add: run_row_def)
  have texts: "text_ok 1024 ''w''" "text_ok 16384 ''ok''" by code_simp+
  have auth: "authority_of run_env ?q p = \<lparr>da_grants = [''g''], da_roles = []\<rparr>" for p by (simp add: authority_of_def run_env_def)
  have cur: "action_is_current run_env ?q" by (simp add: action_is_current_def run_env_def)
  have current: "list_all (decisionAuthorityIsCurrent run_env ?q) (activeApprovalDecisions ds)"
    using assms(9) by (auto simp: list_all_iff decisionAuthorityIsCurrent_def auth)
  have expiry: "receipt_expiry run_js t ?q (run_vote who event) = Inr ''xxxxxxxx''"
  proof -
    have "\<not> time_less run_js ''xxxxxxxx'' ''xxxxxxxx''" by code_simp
    then show ?thesis using q(3) by (simp add: receipt_expiry_def run_vote_def truthy_def)
  qed
  have "text_ok 1024 ''g''" by code_simp
  then have grants: "uniqueSorted [''g''] l = Inr [''g'']" for l by (simp add: uniqueSorted_def requireText_def js_uniq_def)
  have js: "ae_js run_env = run_js" by (simp add: run_env_def)
  have required: "text_ok m v \<Longrightarrow> requireText m v l = Inr v" for m v l by (simp add: requireText_def)
  have vote: "di_workspace (run_vote who event) = ''w''" "di_request (run_vote who event) = ''q''" "di_principal (run_vote who event) = who"
    "di_event (run_vote who event) = event" "di_reason (run_vote who event) = ''ok''" "di_key (run_vote who event) = None"
    "di_supersedes (run_vote who event) = None" "di_vote (run_vote who event) = Vote_Approved" by (simp_all add: run_vote_def)
  have "decide_retained run_env t i rid ''xxxxxxxx'' event ?q \<lparr>da_grants = [''g''], da_roles = []\<rparr> [] (run_vote who event) db
    = record_decision run_js rid ''xxxxxxxx'' ?q ds (run_cast who i event t) db"
    using assms(2,3,8) current grants unfolding decide_retained_def Let_def js vote q(1) by (simp add: truthy_def run_cast_def)
  then show ?thesis
    using assms(1-7) texts cur expiry unfolding decideRequest_def Let_def js vote by (simp add: required auth q)
qed

definition run_open :: request_row where
  "run_open = run_row\<lparr>qr_set_digest := ''12111'', qr_revision := 2\<rparr>"

definition run_second :: "string \<Rightarrow> individual_decision" where
  "run_second t = (run_cast ''p2'' ''d1'' ''e2'' t)\<lparr>dn_set_digest := ''121111222'', dn_resolution := Some Vote_Approved\<rparr>"

definition run_done :: "string \<Rightarrow> approval_db" where
  "run_done t = decided_db run_open (run_second t) (receipt_of run_open (run_second t) ''r'' ''xxxxxxxx'') run_first"

definition run_receipt :: "string \<Rightarrow> approval_receipt" where
  "run_receipt t = \<lparr>rp_row = receipt_of run_open (run_second t) ''r'' ''xxxxxxxx'', rp_use_count = 0, rp_revocation = None\<rparr>"

definition run_listed :: "string \<Rightarrow> individual_decision list" where
  "run_listed t = js_sort decision_compare (decisions_of (run_done t) ''q'')"

definition run_answer :: "string \<Rightarrow> approval_request" where
  "run_answer t = \<lparr>rq_row = resolve_row (Some Vote_Approved) (run_second t) run_open, rq_decisions = run_listed t,
     rq_progress = approvalProgress (qr_policy run_row) (run_listed t) (Some Vote_Approved)\<rparr>"

lemma run_creates: "\<exists>x. createRequest run_env ''x'' ''x'' ''q'' run_create empty_approvals = Inr (x, run_created)"
proof -
  have built: "build_request run_env ''x'' run_create = Inr (run_row\<lparr>qr_id := [], qr_requested_at := []\<rparr>)" by code_simp
  have stored: "insert_request run_env run_row empty_approvals = Inr run_created" "\<not> isl (requireRequest run_js run_created ''q'')"
    "\<not> time_le run_js ''xxxxxxxx'' ''x''" by code_simp+
  have row: "run_row\<lparr>qr_id := ''q'', qr_requested_at := ''x''\<rparr> = run_row" "qr_expires_at run_row = ''xxxxxxxx''" "ae_js run_env = run_js"
    by (simp_all add: run_row_def run_env_def)
  obtain x where "requireRequest run_js run_created ''q'' = Inr x" using stored(2) by (cases "requireRequest run_js run_created ''q''") simp_all
  then show ?thesis using stored(1,3) by (simp add: createRequest_def built row empty_approvals_def)
qed

lemma run_decides_first: "\<exists>x d. decideRequest run_env ''xx'' ''d2'' ''r0'' (run_vote ''p1'' ''e1'') run_created = Inr ((x, None, d), run_first)"
proof -
  let ?x = "\<lparr>rq_row = run_row, rq_decisions = [], rq_progress = approvalProgress (qr_policy run_row) [] None\<rparr>"
  have "decideRequest run_env ''xx'' ''d2'' ''r0'' (run_vote ''p1'' ''e1'') run_created
    = record_decision run_js ''r0'' ''xxxxxxxx'' (rq_row ?x) [] (run_cast ''p1'' ''d2'' ''e1'' ''xx'') run_created"
  proof (rule run_decides [where g = "qr_set_digest run_row" and n = "qr_revision run_row"])
    show "requireRequestForWorkspace run_js run_created ''q'' ''w'' = Inr ?x" by code_simp
    show "listDecisions run_created ''q'' = Inr []" by code_simp
    show "text_ok 1024 ''p1'' \<and> text_ok 1024 ''e1'' \<and> text_ok 512 ''e1''" by code_simp
    show "\<not> time_le run_js ''xxxxxxxx'' ''xx''" by code_simp
    show "eligibleDecisionAuthority run_js (qr_policy run_row) ''p1'' \<lparr>da_grants = [''g''], da_roles = []\<rparr> = Inr (True, [])" by code_simp
  qed (simp_all add: activeApprovalDecisions_def)
  moreover have "let R = record_decision run_js ''r0'' ''xxxxxxxx'' run_row [] (run_cast ''p1'' ''d2'' ''e1'' ''xx'') run_created in
    \<not> isl R \<and> fst (snd (fst (projr R))) = None \<and> snd (projr R) = run_first" by code_simp
  ultimately show ?thesis by (auto simp: Let_def) (metis prod.collapse returns_projr)
qed

lemma record_decision_approves:
  assumes "sealed js q ds d = e" and "dn_resolution e = Some Vote_Approved" and "insert_decision e db = Inr (db\<lparr>ap_decisions := ap_decisions db @ [e]\<rparr>)"
    and "list_ex (pending_row (qr_id q) (qr_workspace q)) (ap_requests db)"
    and "insert_receipt r db = Inr (db\<lparr>ap_receipts := ap_receipts db @ [r]\<rparr>)" and "receipt_of q e receiptId expires = r"
    and "requireReceipt js (decided_db q e r db) receiptId = Inr y" and "requireRequest js (decided_db q e r db) (qr_id q) = Inr x"
  shows "record_decision js receiptId expires q ds d db = Inr ((x, Some y, e), decided_db q e r db)"
proof -
  have "insert_receipt r d = Inr (d\<lparr>ap_receipts := ap_receipts db @ [r]\<rparr>)" if "ap_receipts d = ap_receipts db" for d
    using assms(5) that by (simp add: insert_receipt_Inr)
  then show ?thesis using assms unfolding record_decision_def by (cases db) (simp add: decided_db_def)
qed

lemma run_records:
  assumes "sealed run_js run_open (decisions_of run_first ''q'') (run_cast ''p2'' ''d1'' ''e2'' t) = run_second t"
    and "requireReceipt run_js (run_done t) ''r'' = Inr (run_receipt t)" and "requireRequest run_js (run_done t) ''q'' = Inr (run_answer t)"
  shows "record_decision run_js ''r'' ''xxxxxxxx'' run_open (decisions_of run_first ''q'') (run_cast ''p2'' ''d1'' ''e2'' t) run_first
    = Inr ((run_answer t, Some (run_receipt t), run_second t), run_done t)"
  unfolding run_done_def
proof (rule record_decision_approves [OF assms(1)])
  have id: "qr_id run_open = ''q''" by (simp add: run_open_def run_row_def)
  show "requireRequest run_js (decided_db run_open (run_second t) (receipt_of run_open (run_second t) ''r'' ''xxxxxxxx'') run_first) (qr_id run_open)
    = Inr (run_answer t)" using assms(3) by (simp only: run_done_def id)
qed (use assms(2) in \<open>simp_all add: run_second_def run_cast_def run_first_def run_created_def empty_approvals_def run_open_def run_row_def pending_row_def
    insert_decision_Inr insert_receipt_Inr receipt_of_def run_done_def\<close>)

lemma run_evaluations:
  "sealed run_js run_open (decisions_of run_first ''q'') (run_cast ''p2'' ''d1'' ''e2'' ''xx'') = run_second ''xx''"
  "requireReceipt run_js (run_done ''xx'') ''r'' = Inr (run_receipt ''xx'')"
  "requireRequest run_js (run_done ''xx'') ''q'' = Inr (run_answer ''xx'')"
  by code_simp+

lemma run_evaluations_later:
  "sealed run_js run_open (decisions_of run_first ''q'') (run_cast ''p2'' ''d1'' ''e2'' ''xxx'') = run_second ''xxx''"
  "requireReceipt run_js (run_done ''xxx'') ''r'' = Inr (run_receipt ''xxx'')"
  "requireRequest run_js (run_done ''xxx'') ''q'' = Inr (run_answer ''xxx'')"
  by code_simp+

lemma run_approves:
  assumes "t = ''xx'' \<or> t = ''xxx''"
  shows "decideRequest run_env t ''d1'' ''r'' (run_vote ''p2'' ''e2'') run_first = Inr ((run_answer t, Some (run_receipt t), run_second t), run_done t)"
proof -
  let ?ds = "decisions_of run_first ''q''"
  let ?x = "\<lparr>rq_row = run_open, rq_decisions = ?ds, rq_progress = approvalProgress (qr_policy run_row) ?ds None\<rparr>"
  have "decideRequest run_env t ''d1'' ''r'' (run_vote ''p2'' ''e2'') run_first
    = record_decision run_js ''r'' ''xxxxxxxx'' (rq_row ?x) ?ds (run_cast ''p2'' ''d1'' ''e2'' t) run_first"
  proof (rule run_decides [where g = "''12111''" and n = 2])
    show "requireRequestForWorkspace run_js run_first ''q'' ''w'' = Inr ?x" by code_simp
    show "listDecisions run_first ''q'' = Inr ?ds" by code_simp
    show "find (replays ''p2'' ''e2'') ?ds = None" by code_simp
    show "text_ok 1024 ''p2'' \<and> text_ok 1024 ''e2'' \<and> text_ok 512 ''e2''" by code_simp
    have "\<not> time_le run_js ''xxxxxxxx'' ''xx''" "\<not> time_le run_js ''xxxxxxxx'' ''xxx''" by code_simp+
    then show "\<not> time_le run_js ''xxxxxxxx'' t" using assms by auto
    show "eligibleDecisionAuthority run_js (qr_policy run_row) ''p2'' \<lparr>da_grants = [''g''], da_roles = []\<rparr> = Inr (True, [])" by code_simp
    show "find (\<lambda>d. dn_principal d = ''p2'') (activeApprovalDecisions ?ds) = None" by code_simp
    show "list_all (\<lambda>d. dn_grants d = [''g''] \<and> dn_roles d = []) (activeApprovalDecisions ?ds)" by code_simp
  qed (simp add: run_open_def)
  moreover have "record_decision run_js ''r'' ''xxxxxxxx'' run_open ?ds (run_cast ''p2'' ''d1'' ''e2'' t) run_first
      = Inr ((run_answer t, Some (run_receipt t), run_second t), run_done t)"
    using assms run_records [OF run_evaluations] run_records [OF run_evaluations_later] by blast
  ultimately show ?thesis by simp
qed

lemma approval_run_reaches: "(approval_step run_js)\<^sup>*\<^sup>* empty_approvals run_first"
proof -
  have js: "ae_js run_env = run_js" by (simp add: run_env_def)
  have "approval_step run_js empty_approvals run_created" using run_creates js by (blast intro: approval_step.create)
  moreover have "approval_step run_js run_created run_first" using run_decides_first js by (blast intro: approval_step.decide)
  ultimately show ?thesis by (meson converse_rtranclp_into_rtranclp rtranclp.rtrancl_refl)
qed

lemma run_approved: "t = ''xx'' \<or> t = ''xxx'' \<Longrightarrow> approval_step run_js run_first (run_done t)"
  by (rule approval_step.decide [OF run_approves]) (simp_all add: run_env_def)

lemma approval_run_done: "t = ''xx'' \<or> t = ''xxx'' \<Longrightarrow> (approval_step run_js)\<^sup>*\<^sup>* empty_approvals (run_done t)"
  by (rule rtranclp.rtrancl_into_rtrancl [OF approval_run_reaches run_approved])

end
