(* ===== verification/Approval_Properties.thy ===== *)
theory Approval_Properties
  imports Approval_Run
begin

text \<open>
  What the approval store promises: the votes behind an approval, the receipt as a token that is spent
  at most as often as it allows, exact verification, safe retries, and withdrawal that is final.
\<close>

lemma approval_reachable_inv: "(approval_step js)\<^sup>*\<^sup>* empty_approvals db \<Longrightarrow> approval_inv db"
  using approval_inv_empty by (rule approvals.inv_run [rotated])

text \<open>
  C28: an approval is a token. Every history of the store is a history of the abstract machine in which
  an open request is granted a number of uses or closed, and in particular a closed request is never
  reopened or granted and a granted request only loses uses.
\<close>

theorem approvals_refine_tokens:
  assumes "(approval_step js)\<^sup>*\<^sup>* empty_approvals db" and "(approval_step js)\<^sup>*\<^sup>* db db'"
  shows "token_step\<^sup>*\<^sup>* (tokens db) (tokens db') \<and> (tokens db i = Some Closed \<longrightarrow> tokens db' i = Some Closed)
    \<and> (\<forall>n. tokens db i = Some (Granted n) \<longrightarrow> (\<exists>m \<le> n. tokens db' i = Some (Granted m)))"
proof -
  have inv: "approval_inv db" using assms(1) by (rule approval_reachable_inv)
  have run: "token_step\<^sup>*\<^sup>* (tokens db) (tokens db')" using assms(2) inv by (rule approvals.sim_run)
  have "T' i = Some Closed" if "T i = Some Closed" "token_step T T'" for T T' using that(2,1) by cases auto
  then have closed: "tokens db' i = Some Closed" if "tokens db i = Some Closed"
    using approvals.stable_run [OF assms(2) inv, of "\<lambda>T. T i = Some Closed"] that by blast
  have "\<exists>m \<le> n. T' i = Some (Granted m)" if "\<exists>m \<le> n. T i = Some (Granted m)" "token_step T T'" for T T' n
    using that(2,1) by cases (auto split: if_splits)
  then have "\<exists>m \<le> n. tokens db' i = Some (Granted m)" if "tokens db i = Some (Granted n)" for n
    using approvals.stable_run [OF assms(2) inv, of "\<lambda>T. \<exists>m \<le> n. T i = Some (Granted m)"] that by blast
  with run closed show ?thesis by blast
qed

text \<open>
  C26: the status of a request is what its recorded votes say. In every reachable store a request is
  approved exactly when its active decisions all approve and credit enough of the principals its frozen
  selector asks for, and rejected exactly when one of them does not approve; each principal has at most
  one active decision, and every decision was made by someone the selector names, stands in for, or
  gives a role.
\<close>

theorem request_status_exact:
  assumes "(approval_step js)\<^sup>*\<^sup>* empty_approvals db" and "q \<in> set (ap_requests db)"
  shows "(let ds = decisions_of db (qr_id q); active = set (activeApprovalDecisions ds); a = dp_approvers (qr_policy q);
        credited = creditedPrincipalId ` active in
      (qr_status q = Approved \<longleftrightarrow> (\<forall>d \<in> active. dn_vote d = Vote_Approved)
        \<and> (case a of Any_Of _ _ \<Rightarrow> active \<noteq> {} | All_Named ps \<Rightarrow> set ps \<subseteq> credited | Quorum _ _ n \<Rightarrow> n \<le> int (card credited)))
      \<and> (qr_status q = Rejected \<longleftrightarrow> (\<exists>d \<in> active. dn_vote d \<noteq> Vote_Approved))
      \<and> inj_on dn_principal active \<and> (\<forall>d \<in> set ds. decision_eligible (qr_policy q) d))"
proof -
  have "votes_ok q (decisions_of db (qr_id q))"
    using approval_reachable_inv [OF assms(1)] assms(2) by (simp add: approval_inv_def votes_inv_iff)
  moreover have "snd ` ballots ds = creditedPrincipalId ` set (activeApprovalDecisions ds)"
    and "fst ` ballots ds \<subseteq> {Vote_Approved} \<longleftrightarrow> (\<forall>d \<in> set (activeApprovalDecisions ds). dn_vote d = Vote_Approved)"
    and "ballots ds = {} \<longleftrightarrow> set (activeApprovalDecisions ds) = {}" for ds
    by (auto simp: ballots_def ballot_def image_image)
  ultimately show ?thesis
    unfolding votes_ok_def approval_satisfied_def Let_def by (auto split: approvers.split)
qed

text \<open>
  C27: a receipt is backed and bounded. In every reachable store the approved requests are exactly those
  with a receipt, the receipt repeats the digests and the number of uses of its request, no receipt has
  been used more often than it allows, and no use is recorded twice.
\<close>

theorem receipts_backed_and_bounded:
  assumes "(approval_step js)\<^sup>*\<^sup>* empty_approvals db"
  shows "(\<forall>q \<in> set (ap_requests db). qr_status q = Approved \<longleftrightarrow> (\<exists>r \<in> set (ap_receipts db). rr_request r = qr_id q))
    \<and> (\<forall>r \<in> set (ap_receipts db). (\<exists>q \<in> set (ap_requests db). qr_id q = rr_request r \<and> rr_action_digest r = qr_action_digest q
          \<and> rr_set_digest r = qr_set_digest q \<and> rr_maximum r = qr_maximum q \<and> rr_workspace r = qr_workspace q)
        \<and> int (length (filter (\<lambda>u. us_receipt u = rr_id r) (ap_uses db))) \<le> rr_maximum r)
    \<and> distinct (map (\<lambda>u. (us_receipt u, us_id u)) (ap_uses db))"
proof -
  have inv: "tables_inv db" "receipts_inv db" "uses_inv db" using approval_reachable_inv [OF assms] by (simp_all add: approval_inv_def)
  have "qr_status q = Approved" if "q \<in> set (ap_requests db)" "r \<in> set (ap_receipts db)" "rr_request r = qr_id q" for q r
  proof -
    from inv(2) that(2) obtain p where p: "p \<in> set (ap_requests db)" "backs p r" by (auto simp: receipts_inv_def)
    moreover from this have "p = q" using inv(1) that by (intro pending_row_eq [of "ap_requests db"]) (simp_all add: tables_inv_def backs_def)
    ultimately show ?thesis by (simp add: backs_def)
  qed
  moreover have "\<exists>q \<in> set (ap_requests db). qr_id q = rr_request r \<and> rr_action_digest r = qr_action_digest q
          \<and> rr_set_digest r = qr_set_digest q \<and> rr_maximum r = qr_maximum q \<and> rr_workspace r = qr_workspace q"
    if "r \<in> set (ap_receipts db)" for r using inv(2) that unfolding receipts_inv_def backs_def by blast
  ultimately show ?thesis using inv(2,3) unfolding uses_inv_def receipts_inv_def by blast
qed

section \<open>What is retained\<close>

definition retains :: "approval_db \<Rightarrow> approval_db \<Rightarrow> bool" where
  "retains db db' \<longleftrightarrow> set (ap_receipts db) \<subseteq> set (ap_receipts db') \<and> set (ap_uses db) \<subseteq> set (ap_uses db')
     \<and> set (ap_revocations db) \<subseteq> set (ap_revocations db')"

lemma approval_change_retains: "approval_change js db db' \<Longrightarrow> retains db db'"
  by (induction rule: approval_change.induct) (auto simp: retains_def decided_db_def insert_use_Inr)

lemma approval_run_retains: "(approval_step js)\<^sup>*\<^sup>* db db' \<Longrightarrow> retains db db'"
proof (induction rule: rtranclp_induct)
  case (step db1 db2)
  from step(2) have "retains db1 db2" by (intro approval_change_retains approval_step_change)
  with step(3) show ?case by (auto simp: retains_def)
qed (simp add: retains_def)

lemma getReceipt_stored:
  assumes "distinct (map rr_id (ap_receipts db))" and "r \<in> set (ap_receipts db)" and "normalizeApprovalAction js (rr_action r) = Inr a"
  shows "getReceipt js db (rr_id r) = Inr (Some \<lparr>rp_row = r\<lparr>rr_action := a\<rparr>, rp_use_count = length (filter (\<lambda>u. us_receipt u = rr_id r) (ap_uses db)),
    rp_revocation = row_where (\<lambda>v. rv_receipt v = rr_id r) (ap_revocations db)\<rparr>)"
proof -
  have "row_where (\<lambda>x. rr_id x = rr_id r) (ap_receipts db) = Some r" using assms(1,2) by (rule row_where_key)
  then show ?thesis by (simp add: getReceipt_def read_receipt_def assms(3) stored_invalid_def)
qed

lemma getUse_stored: "uses_inv db \<Longrightarrow> u \<in> set (ap_uses db) \<Longrightarrow> us_receipt u = r \<Longrightarrow> us_id u = i \<Longrightarrow> getUse db r i = Some u"
  unfolding getUse_def uses_inv_def using row_where_key [of "\<lambda>u. (us_receipt u, us_id u)" "ap_uses db" u] by simp

lemma replay_use_prior: "replay_use js vi u db = Inr (r, v) \<Longrightarrow> v = Some u"
  by (auto simp: replay_use_def result_simps)

text \<open>
  Retrying a consumption is free. Once a use has been recorded, consuming the same receipt under the
  same use id for the same principal and action answers with that use in every later store, whatever has
  happened in between (the receipt expired, was used up or was revoked), and changes nothing.
\<close>

theorem consumption_replays:
  assumes "(approval_step (ae_js env))\<^sup>*\<^sup>* empty_approvals db"
    and "consumeReceipt env now now' now'' i vi db = (Inr (r, None), db1)"
    and "(approval_step (ae_js env))\<^sup>*\<^sup>* db1 db2" and "ae_js env2 = ae_js env"
  shows "\<exists>r' u. consumeReceipt env2 later later' later'' i (vi\<lparr>vi_at := t\<rparr>) db2 = (Inr (r', Some u), db2)
    \<and> us_receipt u = vi_receipt vi \<and> us_id u = i \<and> u \<in> set (ap_uses db1) - set (ap_uses db)"
proof -
  let ?js = "ae_js env"
  have id: "requireText 512 i ''use_id'' = Inr i"
    using assms(2) by (cases "requireText 512 i ''use_id''") (auto simp: consumeReceipt_def Let_def requireText_Inr)
  from assms(2) obtain x t0 where x: "verified env now vi db x" and use: "insert_use (use_of i t0 vi x) db = Inr db1"
  proof (cases rule: consumeReceiptE)
    case same
    then show thesis by (auto dest!: replay_use_prior [OF sym])
  qed (use that in auto)
  let ?u = "use_of i t0 vi x"
  from x obtain r0 where r0: "r0 \<in> set (ap_receipts db)" "rr_id r0 = vi_receipt vi" "reads_receipt ?js db r0 x" "rr_id (rp_row x) = rr_id r0"
    by (rule verified_receipt)
  have dg: "approvalActionDigest ?js (vi_action vi) = Inr (rr_action_digest (rp_row x))" using x by (auto simp: verified_def dest: match_receipt_Inr)
  have u: "?u \<in> set (ap_uses db1)" "?u \<notin> set (ap_uses db)" "ap_receipts db1 = ap_receipts db" using use by (auto simp: insert_use_Inr)
  have step: "approval_step ?js db db1" using assms(2) by (intro approval_step.consume) auto
  have "approval_inv db1" using approval_reachable_inv [OF assms(1)] step by (rule approval_step_inv)
  then have inv: "approval_inv db2" by (rule approvals.inv_run [OF assms(3)])
  from approval_run_retains [OF assms(3)] have kept: "?u \<in> set (ap_uses db2)" "r0 \<in> set (ap_receipts db2)" using u r0(1) by (auto simp: retains_def)
  have found: "getUse db2 (vi_receipt vi) i = Some ?u"
    using inv kept(1) by (intro getUse_stored) (simp_all add: approval_inv_def use_of_def r0(2,4))
  from r0(3) obtain a where "normalizeApprovalAction ?js (rr_action r0) = Inr a" by (auto simp: reads_receipt_def)
  from getReceipt_stored [OF _ kept(2) this] inv obtain y where "requireReceipt ?js db2 (vi_receipt vi) = Inr y"
    by (simp add: approval_inv_def tables_inv_def requireReceipt_def r0(2))
  then have "replay_use ?js (vi\<lparr>vi_at := t\<rparr>) ?u db2 = Inr (y, Some ?u)" using dg by (simp add: replay_use_def use_of_def)
  then have "consumeReceipt env2 later later' later'' i (vi\<lparr>vi_at := t\<rparr>) db2 = (Inr (y, Some ?u), db2)"
    using id found assms(4) by (simp add: consumeReceipt_def)
  then show ?thesis using u r0 by (intro exI [of _ y] exI [of _ ?u]) (simp add: use_of_def)
qed

section \<open>Withdrawal\<close>

lemma verify_revokes:
  assumes "verifyReceipt env now now' vi db = (res, db')" and "db' \<noteq> db"
  obtains v where "new_revocation v db" "rv_receipt v = vi_receipt vi" "rv_at v = now'" "db' = db\<lparr>ap_revocations := ap_revocations db @ [v]\<rparr>"
proof (cases "match_receipt (ae_js env) now vi db")
  case (Inl e)
  with assms show thesis by (simp add: verifyReceipt_def Let_def)
next
  case (Inr p)
  then obtain x t where p: "match_receipt (ae_js env) now vi db = Inr (x, t)" by (cases p) auto
  then have "getReceipt (ae_js env) db (vi_receipt vi) = Inr (Some x)" by (auto dest: match_receipt_Inr)
  then have id: "rr_id (rp_row x) = vi_receipt vi" by (auto dest!: getReceipt_Some simp: reads_receipt_fields)
  from assms p obtain y reason where "revokeReceipt (ae_js env) now' (rr_workspace (rp_row x)) (vi_receipt vi) ''system:approval-validity'' reason db = Inr (y, db')"
    unfolding verifyReceipt_def Let_def revoke_and_deny_def by (auto simp: id split: sum.splits prod.splits if_splits option.splits)
  then show thesis by (rule revokeReceiptE) (use assms(2) that in auto)
qed

lemma revoked_refuses:
  assumes "tables_inv db" and "v \<in> set (ap_revocations db)" and "rv_receipt v = vi_receipt vi" and "rv_at v \<noteq> []"
  shows "isl (fst (verifyReceipt env now now' vi db)) \<and> snd (verifyReceipt env now now' vi db) = db"
proof -
  have "\<not> (match_receipt (ae_js env) now vi db = Inr p)" for p
  proof
    assume m: "match_receipt (ae_js env) now vi db = Inr p"
    obtain x t where p: "p = (x, t)" by (cases p)
    from match_receipt_Inr [OF m [unfolded p]] have x: "getReceipt (ae_js env) db (vi_receipt vi) = Inr (Some x)" "\<not> is_revoked x" by auto
    from getReceipt_Some [OF x(1)] have "rp_revocation x = row_where (\<lambda>w. rv_receipt w = rv_receipt v) (ap_revocations db)"
      by (auto simp: reads_receipt_fields assms(3))
    moreover have "row_where (\<lambda>w. rv_receipt w = rv_receipt v) (ap_revocations db) = Some v"
      using assms(1,2) by (intro row_where_key) (simp_all add: tables_inv_def)
    ultimately show False using x(2) assms(4) by (simp add: is_revoked_def)
  qed
  then obtain e where "match_receipt (ae_js env) now vi db = Inl e" by (cases "match_receipt (ae_js env) now vi db") auto
  then show ?thesis by (simp add: verifyReceipt_def Let_def)
qed

text \<open>
  C29: withdrawal is final. When a verification finds that a request no longer supports its receipt, or
  that an approver has lost the authority its decision rests on, and retains the revocation, the receipt
  is refused by every later verification, and by every consumption under a new use id, in every later
  store, even if the authority comes back.
\<close>

theorem withdrawn_receipt_refused:
  assumes "(approval_step (ae_js env))\<^sup>*\<^sup>* empty_approvals db"
    and "verifyReceipt env now now' vi db = (res, db1)" and "db1 \<noteq> db" and "now' \<noteq> []"
    and "(approval_step (ae_js env))\<^sup>*\<^sup>* db1 db2" and "vi_receipt vi2 = vi_receipt vi"
  shows "isl (fst (verifyReceipt env2 later later' vi2 db2)) \<and> snd (verifyReceipt env2 later later' vi2 db2) = db2
    \<and> (getUse db2 (vi_receipt vi) i = None \<longrightarrow> isl (fst (consumeReceipt env2 later later' later'' i vi2 db2)))"
proof -
  from assms(2,3) obtain v where v: "rv_receipt v = vi_receipt vi" "rv_at v = now'" "db1 = db\<lparr>ap_revocations := ap_revocations db @ [v]\<rparr>"
    by (rule verify_revokes)
  have "approval_step (ae_js env) db db1" using assms(2) by (rule approval_step.verify) (rule refl)
  with approval_reachable_inv [OF assms(1)] have "approval_inv db1" by (rule approval_step_inv)
  then have inv: "tables_inv db2" using approvals.inv_run [OF assms(5)] by (auto simp: approval_inv_def)
  have kept: "v \<in> set (ap_revocations db2)" using approval_run_retains [OF assms(5)] v(3) by (auto simp: retains_def)
  have refused: "isl (fst (verifyReceipt env2 later later' vi2 db2)) \<and> snd (verifyReceipt env2 later later' vi2 db2) = db2"
    using inv kept by (rule revoked_refuses) (use v assms(4,6) in simp_all)
  then obtain e where e: "verifyReceipt env2 later later' vi2 db2 = (Inl e, db2)"
    by (cases "verifyReceipt env2 later later' vi2 db2") (auto simp: isl_def)
  have "isl (fst (consumeReceipt env2 later later' later'' i vi2 db2))" if "getUse db2 (vi_receipt vi) i = None"
  proof (cases "requireText 512 i ''use_id''")
    case (Inr w)
    then have "w = i" by (simp add: requireText_Inr)
    with Inr that assms(6) e show ?thesis by (simp add: consumeReceipt_def Let_def)
  qed (simp add: consumeReceipt_def Let_def)
  with refused show ?thesis by blast
qed

section \<open>A fresh receipt\<close>

lemma js_insert_last: "cmp x e \<le> 0 \<Longrightarrow> js_insert cmp x (ys @ [e]) = js_insert cmp x ys @ [e]"
  by (induction ys) auto

lemma js_sort_last: "(\<And>x. x \<in> set xs \<Longrightarrow> cmp x e \<le> 0) \<Longrightarrow> js_sort cmp (xs @ [e]) = js_sort cmp xs @ [e]"
  by (induction xs) (simp_all add: js_insert_last)

lemma set_digest_sealed: "approvalDecisionSetDigest js (ds @ [sealed js' q rs d]) = approvalDecisionSetDigest js (ds @ [d])"
proof -
  have "decision_json js (sealed js' q rs d) = decision_json js d" by (simp add: decision_json_def sealed_def)
  then show ?thesis by (simp add: approvalDecisionSetDigest_def)
qed

lemma requireRequest_get: "requireRequest js db i = Inr x \<Longrightarrow> getRequest js db i = Inr (Some x)"
  by (auto simp: requireRequest_def result_simps split: option.splits)

lemma requireReceipt_get: "requireReceipt js db i = Inr x \<Longrightarrow> getReceipt js db i = Inr (Some x)"
  by (auto simp: requireReceipt_def result_simps split: option.splits)

text \<open>The state right after a decision that approved its request.\<close>

lemma approving_decision:
  assumes inv: "approval_inv db" and run: "decideRequest env now did rid di db = Inr ((x, Some r, d), db')" and new: "db' \<noteq> db"
  shows "getReceipt (ae_js env) db' (rr_id (rp_row r)) = Inr (Some r) \<and> getRequest (ae_js env) db' (rr_request (rp_row r)) = Inr (Some x)
    \<and> rp_revocation r = None \<and> \<not> is_revoked r \<and> rp_use_count r = 0 \<and> 0 < rr_maximum (rp_row r) \<and> qr_status (rq_row x) = Approved
    \<and> qr_outcome (rq_row x) = Some Vote_Approved \<and> qr_action_digest (rq_row x) = rr_action_digest (rp_row r)
    \<and> qr_set_digest (rq_row x) = rr_set_digest (rp_row r)
    \<and> rq_decisions x = js_sort decision_compare (decisions_of db (dn_request d) @ [d])
    \<and> rr_set_digest (rp_row r) = approvalDecisionSetDigest (ae_js env) (js_sort decision_compare (decisions_of db (dn_request d)) @ [d])"
proof -
  let ?js = "ae_js env"
  from run new obtain q y d0 expires where may: "may_record env now db q y d0"
      and rec: "record_decision ?js rid expires (rq_row y) (rq_decisions y) d0 db = Inr ((x, Some r, d), db')" by (cases rule: decideRequestE) auto
  let ?r = "receipt_of (rq_row y) d rid expires"
  from rec have d: "d = sealed ?js (rq_row y) (rq_decisions y) d0" and db': "db' = decided_db (rq_row y) d ?r db"
      and v: "dn_resolution d = Some Vote_Approved" and ins: "insert_receipt ?r db = Inr (db\<lparr>ap_receipts := ap_receipts db @ [?r]\<rparr>)"
      and x: "requireRequest ?js db' (qr_id (rq_row y)) = Inr x" and r: "requireReceipt ?js db' rid = Inr r"
    by - (rule record_decisionE [OF rec], fastforce split: if_splits)+
  note row = may_record_row [OF may] and fields = reads_fields [OF may_record_row(5) [OF may]]
  have dist: "distinct (map qr_id (ap_requests db))" using inv by (simp add: approval_inv_def tables_inv_def)
  have "approval_inv db'" using inv approval_step.decide [OF run refl] by (rule approval_step_inv)
  then have dist': "distinct (map rr_id (ap_receipts db'))" by (simp add: approval_inv_def tables_inv_def)
  have rid: "rr_id ?r = rid" "rr_request ?r = qr_id q" "rr_set_digest ?r = dn_set_digest d" "rr_maximum ?r = qr_maximum q" "rr_action_digest ?r = qr_action_digest q"
    by (simp_all add: receipt_of_def fields)
  have in': "?r \<in> set (ap_receipts db')" by (simp add: db' decided_db_def v)
  from r obtain r1 where "r1 \<in> set (ap_receipts db')" "rr_id r1 = rid" "reads_receipt ?js db' r1 r" by (rule requireReceiptE)
  moreover from this have "r1 = ?r" using dist' in' rid(1) by (auto simp: distinct_map inj_on_def)
  ultimately have rr: "reads_receipt ?js db' ?r r" by simp
  note rf = reads_receipt_fields [OF rr]
  have fresh: "\<forall>s \<in> set (ap_receipts db). rr_id s \<noteq> rid" "0 < qr_maximum q" using ins rid by (simp_all add: insert_receipt_Inr)
  have "\<forall>u \<in> set (ap_uses db). us_receipt u \<noteq> rid" "\<forall>w \<in> set (ap_revocations db). rv_receipt w \<noteq> rid"
    using inv fresh(1) unfolding approval_inv_def uses_inv_def tables_inv_def by (metis, metis imageE)
  then have count: "rp_use_count r = 0" "rp_revocation r = None"
    using rf(9,10) rid(1) by (simp_all add: db' decided_db_def row_where_None_iff filter_empty_conv)
  from x obtain q1 where q1: "q1 \<in> set (ap_requests db')" "qr_id q1 = qr_id q" "reads ?js db' q1 x" by (rule requireRequestE) (simp add: fields)
  then have "q1 = resolve_row (dn_resolution d) d q" using decided_requests [OF may dist, of q1 d ?r] by (simp add: db')
  with q1(3) have xr: "reads ?js db' (resolve_row (dn_resolution d) d q) x" by simp
  note xf = reads_fields [OF xr]
  have req: "dn_request d = qr_id q" using row(6) by (simp add: d)
  have ds: "decisions_of db' (qr_id q) = decisions_of db (qr_id q) @ [d]" by (simp add: db' decisions_of_decided req)
  have "dn_set_digest d = approvalDecisionSetDigest ?js (rq_decisions y @ [d0])" by (simp add: d sealed_def)
  also have "\<dots> = approvalDecisionSetDigest ?js (js_sort decision_compare (decisions_of db (qr_id q)) @ [d])" by (simp add: d set_digest_sealed fields(11))
  finally have dg: "dn_set_digest d = approvalDecisionSetDigest ?js (js_sort decision_compare (decisions_of db (qr_id q)) @ [d])" .
  show ?thesis
    unfolding req using requireRequest_get [OF x] requireReceipt_get [OF r] count fresh(2) dg rf xf rid ds
    by (simp add: fields is_revoked_def resolve_row_def Let_def resolved_status_def v)
qed

text \<open>
  C30: an approval can be used. The receipt that the approving decision yields verifies for the approved
  action inside its lifetime, provided the action is still current, the approvers keep their authority,
  and no earlier decision of the request is listed after the approving one.
\<close>

theorem fresh_receipt_verifies:
  assumes "(approval_step (ae_js env))\<^sup>*\<^sup>* empty_approvals db"
    and "decideRequest env now did rid di db = Inr ((x, Some r, d), db')" and "db' \<noteq> db"
    and "\<forall>p \<in> set (decisions_of db (dn_request d)). decision_compare p d \<le> 0"
    and "ae_js env2 = ae_js env" and "action_is_current env2 (rq_row x)"
    and "\<forall>p \<in> set (rq_decisions x). decisionAuthorityIsCurrent env2 (rq_row x) p"
    and "vi_receipt vi = rr_id (rp_row r)" and "vi_workspace vi = rr_workspace (rp_row r)"
    and "vi_principal vi = aa_principal (rr_action (rp_row r))" and "aa_operation (vi_action vi) = aa_operation (rr_action (rp_row r))"
    and "approvalActionDigest (ae_js env) (vi_action vi) = Inr (rr_action_digest (rp_row r))"
    and "vi_at vi = Some t" and "requireTimestamp (ae_js env) t ''at'' = Inr (t, ms)"
    and "\<not> time_less (ae_js env) t (rr_issued_at (rp_row r))" and "\<not> time_le (ae_js env) (rr_expires_at (rp_row r)) t"
  shows "verifyReceipt env2 later later' vi db' = (Inr r, db')"
proof -
  let ?js = "ae_js env"
  note made = approving_decision [OF approval_reachable_inv [OF assms(1)] assms(2,3)]
  have listed: "rq_decisions x = js_sort decision_compare (decisions_of db (dn_request d)) @ [d]" using made assms(4) by (simp add: js_sort_last)
  have m: "match_receipt ?js later vi db' = Inr (r, t)"
    using made assms(8-14) by (simp add: match_receipt_def)
  have s: "request_supports env2 (rp_row r) (Some x)" using made assms(5,6) listed by (simp add: request_supports_def)
  have "set (activeApprovalDecisions (rq_decisions x)) \<subseteq> set (rq_decisions x)" by (auto simp: set_active)
  then have l: "lost_authority env2 x = None" using assms(7) by (auto simp: lost_authority_def find_None_iff)
  have u: "usable_at ?js t r = Inr r" using made assms(15,16) by (simp add: usable_at_Inr)
  show ?thesis using m s l u made by (simp add: verifyReceipt_Inr verified_def assms(5))
qed

text \<open>A receipt that has not been revoked can be.\<close>

lemma revokeReceipt_stored:
  assumes inv: "tables_inv db" and found: "getReceipt js db i = Inr (Some r)" and unrevoked: "rp_revocation r = None"
    and "text_ok 1024 who" "text_ok 16384 reason"
  shows "\<exists>y. revokeReceipt js now (rr_workspace (rp_row r)) i who reason db
    = Inr (y, db\<lparr>ap_revocations := ap_revocations db @ [\<lparr>rv_receipt = i, rv_workspace = rr_workspace (rp_row r), rv_at = now, rv_by = who, rv_reason = reason\<rparr>]\<rparr>)"
proof -
  let ?v = "\<lparr>rv_receipt = i, rv_workspace = rr_workspace (rp_row r), rv_at = now, rv_by = who, rv_reason = reason\<rparr>"
  let ?db = "db\<lparr>ap_revocations := ap_revocations db @ [?v]\<rparr>"
  from found obtain r0 where r0: "r0 \<in> set (ap_receipts db)" "rr_id r0 = i" "reads_receipt js db r0 r" by (auto dest: getReceipt_Some)
  then obtain a where a: "normalizeApprovalAction js (rr_action r0) = Inr a" by (auto simp: reads_receipt_def)
  have "row_where (\<lambda>v. rv_receipt v = i) (ap_revocations db) = None" using r0 unrevoked by (simp add: reads_receipt_fields(10))
  then have none: "\<not> list_ex (\<lambda>v. rv_receipt v = i) (ap_revocations db)" by (auto simp: row_where_None_iff list_ex_iff)
  obtain y where y: "requireReceipt js ?db i = Inr y"
    using getReceipt_stored [of ?db r0 js a] inv r0(1,2) a by (simp add: requireReceipt_def tables_inv_def)
  have id: "rr_id (rp_row r) = i" using r0 by (simp add: reads_receipt_fields)
  have "requireReceiptForWorkspace js db i (rr_workspace (rp_row r)) = Inr r"
    using found by (simp add: requireReceiptForWorkspace_def requireReceipt_def)
  then show ?thesis using assms(3-5) none y id by (simp add: revokeReceipt_def requireText_def is_revoked_def)
qed

text \<open>
  C31: a receipt can be void from the start. The digest a receipt carries is taken over the earlier
  decisions followed by the approving one, but every verification recomputes it over the decisions in
  the order of their times and identifiers. Whenever the two sequences have different digests (the
  approving decision was recorded at the same instant as an earlier one and drew a smaller identifier,
  or at an earlier time), the first verification that gets as far revokes the approval it should honour.
\<close>

theorem out_of_order_receipt_revoked:
  assumes "(approval_step (ae_js env))\<^sup>*\<^sup>* empty_approvals db"
    and "decideRequest env now did rid di db = Inr ((x, Some r, d), db')" and "db' \<noteq> db"
    and "approvalDecisionSetDigest (ae_js env) (js_sort decision_compare (decisions_of db (dn_request d) @ [d]))
      \<noteq> approvalDecisionSetDigest (ae_js env) (js_sort decision_compare (decisions_of db (dn_request d)) @ [d])"
    and "ae_js env2 = ae_js env" and "vi_receipt vi = rr_id (rp_row r)" and "match_receipt (ae_js env) later vi db' = Inr (r, t)"
  shows "fst (verifyReceipt env2 later later' vi db') = Inl (Approval_Denied approval_action_changed)
    \<and> (\<exists>v \<in> set (ap_revocations (snd (verifyReceipt env2 later later' vi db'))). rv_receipt v = rr_id (rp_row r))"
proof -
  let ?js = "ae_js env"
  have inv: "approval_inv db" using assms(1) by (rule approval_reachable_inv)
  note made = approving_decision [OF inv assms(2,3)]
  have "approval_inv db'" using inv approval_step.decide [OF assms(2) refl] by (rule approval_step_inv)
  then have inv': "tables_inv db'" by (simp add: approval_inv_def)
  have unsupported: "\<not> request_supports env2 (rp_row r) (Some x)" using made assms(4,5) by (auto simp: request_supports_def Let_def)
  define v where "v = \<lparr>rv_receipt = rr_id (rp_row r), rv_workspace = rr_workspace (rp_row r), rv_at = later', rv_by = ''system:approval-validity'',
    rv_reason = ''The exact approved action, evidence, or Policy is no longer current.''\<rparr>"
  let ?db = "db'\<lparr>ap_revocations := ap_revocations db' @ [v]\<rparr>"
  have texts: "text_ok 1024 ''system:approval-validity''" "text_ok 16384 ''The exact approved action, evidence, or Policy is no longer current.''"
    by code_simp+
  obtain y where "revokeReceipt ?js later' (rr_workspace (rp_row r)) (rr_id (rp_row r)) ''system:approval-validity''
      ''The exact approved action, evidence, or Policy is no longer current.'' db' = Inr (y, ?db)"
    using revokeReceipt_stored [OF inv' _ _ texts] made unfolding v_def by blast
  then have "verifyReceipt env2 later later' vi db' = (Inl (Approval_Denied approval_action_changed), ?db)"
    using made assms(5,7) unsupported by (simp add: verifyReceipt_def revoke_and_deny_def)
  then show ?thesis by (simp add: v_def)
qed

section \<open>Witnesses\<close>

lemma approvals_refine_tokens_witness: "token_step\<^sup>*\<^sup>* (tokens run_first) (tokens (run_done ''xxx'')) \<and> tokens run_first ''q'' = Some Open
    \<and> tokens (run_done ''xxx'') ''q'' = Some (Granted 1)"
proof -
  have "(approval_step run_js)\<^sup>*\<^sup>* run_first (run_done ''xxx'')" by (rule r_into_rtranclp) (simp add: run_approved)
  from approvals_refine_tokens [OF approval_run_reaches this] have "token_step\<^sup>*\<^sup>* (tokens run_first) (tokens (run_done ''xxx''))" by blast
  moreover have "tokens run_first ''q'' = Some Open" "tokens (run_done ''xxx'') ''q'' = Some (Granted 1)" by code_simp+
  ultimately show ?thesis by blast
qed

lemma request_status_exact_witness: "qr_status (resolve_row (Some Vote_Approved) (run_second ''xxx'') run_open) = Approved
    \<and> creditedPrincipalId ` set (activeApprovalDecisions (decisions_of (run_done ''xxx'') ''q'')) = {''p1'', ''p2''}"
proof -
  let ?q = "resolve_row (Some Vote_Approved) (run_second ''xxx'') run_open"
  have q: "?q \<in> set (ap_requests (run_done ''xxx''))" by code_simp
  have "qr_status ?q = Approved" and id: "qr_id ?q = ''q''" "qr_policy ?q = qr_policy run_row" by code_simp+
  moreover have "dp_approvers (qr_policy run_row) = Quorum [''p1'', ''p2''] [] 2" by code_simp
  moreover have "creditedPrincipalId ` set (activeApprovalDecisions (decisions_of (run_done ''xxx'') ''q'')) = {''p1'', ''p2''}" by code_simp
  ultimately show ?thesis using request_status_exact [OF approval_run_done q] by (simp add: Let_def)
qed

lemma receipts_backed_and_bounded_witness: "\<exists>r \<in> set (ap_receipts (run_done ''xxx'')). rr_request r = ''q''
    \<and> int (length (filter (\<lambda>u. us_receipt u = rr_id r) (ap_uses (run_done ''xxx'')))) \<le> rr_maximum r"
proof -
  have r: "rp_row (run_receipt ''xxx'') \<in> set (ap_receipts (run_done ''xxx''))" "rr_request (rp_row (run_receipt ''xxx'')) = ''q''" by code_simp+
  then show ?thesis using receipts_backed_and_bounded [OF approval_run_done, of "''xxx''"] by blast
qed


lemma run_found:
  assumes "t = ''xx'' \<or> t = ''xxx''"
  shows "getReceipt run_js (run_done t) ''r'' = Inr (Some (run_receipt t)) \<and> getRequest run_js (run_done t) ''q'' = Inr (Some (run_answer t))"
  using assms run_evaluations(2,3) run_evaluations_later(2,3) by (auto dest: requireReceipt_get requireRequest_get)

lemma run_receipt_row: "rp_row (run_receipt t) = receipt_of run_open (run_second t) ''r'' ''xxxxxxxx''" "\<not> is_revoked (run_receipt t)"
  by (simp_all add: run_receipt_def is_revoked_def)

lemma run_matches:
  assumes "t = ''xx'' \<or> t = ''xxx''"
  shows "match_receipt run_js [] run_verify (run_done t) = Inr (run_receipt t, ''xxx'')"
proof -
  have "requireTimestamp run_js ''xxx'' ''at'' = Inr (''xxx'', 3)" "approvalActionDigest run_js run_action = Inr ''1''" by code_simp+
  with run_found [OF assms] show ?thesis
    by (simp add: match_receipt_def run_verify_def run_receipt_row receipt_of_def run_open_def run_row_def) (simp add: run_action_def)
qed

lemma run_supports: "request_supports run_env (rp_row (run_receipt ''xxx'')) (Some (run_answer ''xxx''))"
  by code_simp

lemma run_authority:
  "lost_authority run_env (run_answer ''xxx'') = None"
  "lost_authority stripped_env (run_answer ''xxx'') \<noteq> None"
  by code_simp+

lemma run_usable: "usable_at run_js ''xxx'' (run_receipt ''xxx'') = Inr (run_receipt ''xxx'')"
  by code_simp

lemma run_verifies: "verifyReceipt run_env [] [] run_verify (run_done ''xxx'') = (Inr (run_receipt ''xxx''), run_done ''xxx'')"
proof -
  have "rr_request (rp_row (run_receipt ''xxx'')) = ''q''" "ae_js run_env = run_js"
    by (simp_all add: run_receipt_row receipt_of_def run_open_def run_row_def run_env_def)
  then show ?thesis using run_matches [of "''xxx''"] run_found [of "''xxx''"] run_supports run_authority(1) run_usable by (simp add: verifyReceipt_def)
qed

text \<open>The first use of the receipt, and the revocation once the approvers have lost their grants.\<close>

definition run_used :: approval_db where
  "run_used = (run_done ''xxx'')\<lparr>ap_uses := [\<lparr>us_receipt = ''r'', us_id = ''u'', us_workspace = ''w'', us_principal = ''worker'',
     us_operation = ''ops.run'', us_digest = ''1'', us_at = ''xxx''\<rparr>]\<rparr>"

lemma run_records_use: "record_use run_js [] ''u'' run_verify (run_receipt ''xxx'') (run_done ''xxx'')
    = Inr (((run_receipt ''xxx'')\<lparr>rp_use_count := 1\<rparr>, None), run_used)"
  by code_simp

lemma run_consumes: "consumeReceipt run_env [] [] [] ''u'' run_verify (run_done ''xxx'') = (Inr ((run_receipt ''xxx'')\<lparr>rp_use_count := 1\<rparr>, None), run_used)"
proof -
  have "requireText 512 ''u'' ''use_id'' = Inr ''u''" "getUse (run_done ''xxx'') (vi_receipt run_verify) ''u'' = None" by code_simp+
  then show ?thesis using run_records_use run_verifies by (simp add: consumeReceipt_def run_env_def)
qed

lemma consumption_replays_witness: "\<exists>r u. consumeReceipt stripped_env [] [] [] ''u'' (run_verify\<lparr>vi_at := None\<rparr>) run_used = (Inr (r, Some u), run_used)
    \<and> us_receipt u = ''r'' \<and> us_id u = ''u''"
proof -
  have js: "ae_js run_env = run_js" "ae_js stripped_env = ae_js run_env" by (simp_all add: run_env_def stripped_env_def)
  have "vi_receipt run_verify = ''r''" by (simp add: run_verify_def)
  with consumption_replays [OF _ run_consumes rtranclp.rtrancl_refl js(2), of "[]" "[]" "[]" None] approval_run_done [of "''xxx''"] show ?thesis
    by (auto simp: js)
qed

definition run_lost :: string where
  "run_lost = ''Approver authority for p1 is no longer current.''"

lemma run_loses: "lost_authority stripped_env (run_answer ''xxx'') = Some ((run_cast ''p1'' ''d2'' ''e1'' ''xx'')\<lparr>dn_set_digest := ''12111''\<rparr>)"
  by code_simp

lemma run_revokes: "\<exists>y d. revokeReceipt run_js ''y'' ''w'' ''r'' ''system:approval-validity'' run_lost (run_done ''xxx'') = Inr (y, d) \<and> ap_revocations d \<noteq> []"
proof -
  have "tables_inv (run_done ''xxx'')" using approval_reachable_inv [OF approval_run_done [of "''xxx''"]] by (simp add: approval_inv_def)
  moreover have "text_ok 1024 ''system:approval-validity''" "text_ok 16384 run_lost" by code_simp+
  moreover have "rr_workspace (rp_row (run_receipt ''xxx'')) = ''w''" "rp_revocation (run_receipt ''xxx'') = None"
    by (simp_all add: run_receipt_def receipt_of_def run_open_def run_row_def)
  ultimately show ?thesis
    using revokeReceipt_stored [of "run_done ''xxx''" run_js "''r''" "run_receipt ''xxx''"] run_found [of "''xxx''"] by fastforce
qed

lemma run_withdraws: "\<exists>d. verifyReceipt stripped_env [] ''y'' run_verify (run_done ''xxx'') = (Inl (Approval_Denied approval_approver_authority_changed), d)
    \<and> d \<noteq> run_done ''xxx''"
proof -
  obtain y d where d: "revokeReceipt run_js ''y'' ''w'' ''r'' ''system:approval-validity'' run_lost (run_done ''xxx'') = Inr (y, d)"
      "ap_revocations d \<noteq> []" using run_revokes by blast
  have row: "rr_request (rp_row (run_receipt ''xxx'')) = ''q''" "rr_id (rp_row (run_receipt ''xxx'')) = ''r''"
      "rr_workspace (rp_row (run_receipt ''xxx'')) = ''w''" "ae_js stripped_env = run_js"
    by (simp_all add: run_receipt_row receipt_of_def run_open_def run_row_def run_env_def stripped_env_def)
  have supports: "request_supports stripped_env r x = request_supports run_env r x" for r x
    by (simp add: request_supports_def action_is_current_def stripped_env_def run_env_def Let_def split: option.splits)
  have "revoke_and_deny run_js ''y'' (rp_row (run_receipt ''xxx'')) (''Approver authority for '' @ ''p1'' @ '' is no longer current.'')
      approval_approver_authority_changed (run_done ''xxx'') = (Inl (Approval_Denied approval_approver_authority_changed) :: (_, approval_receipt) result, d)"
    using d(1) by (simp add: revoke_and_deny_def row run_lost_def)
  moreover have "dn_principal ((run_cast ''p1'' ''d2'' ''e1'' ''xx'')\<lparr>dn_set_digest := ''12111''\<rparr>) = ''p1''" by (simp add: run_cast_def)
  ultimately have "verifyReceipt stripped_env [] ''y'' run_verify (run_done ''xxx'') = (Inl (Approval_Denied approval_approver_authority_changed), d)"
    using run_matches [of "''xxx''"] run_found [of "''xxx''"] run_supports run_loses by (simp add: verifyReceipt_def row supports del: append.simps)
  moreover have "ap_revocations (run_done ''xxx'') = []" by (simp add: run_done_def decided_db_def run_first_def run_created_def empty_approvals_def)
  ultimately show ?thesis using d(2) by blast
qed

lemma withdrawn_receipt_refused_witness: "\<exists>d. isl (fst (verifyReceipt run_env [] [] run_verify d)) \<and> getUse d ''r'' ''u'' = None
    \<and> isl (fst (consumeReceipt run_env [] [] [] ''u'' run_verify d))"
proof -
  obtain d where d: "verifyReceipt stripped_env [] ''y'' run_verify (run_done ''xxx'') = (Inl (Approval_Denied approval_approver_authority_changed), d)"
      "d \<noteq> run_done ''xxx''" using run_withdraws by blast
  have "(approval_step (ae_js stripped_env))\<^sup>*\<^sup>* empty_approvals (run_done ''xxx'')"
    using approval_run_done [of "''xxx''"] by (simp add: stripped_env_def run_env_def)
  note refused = withdrawn_receipt_refused [OF this d _ rtranclp.rtrancl_refl refl, of run_env "[]" "[]" "''u''" "[]"]
  from d obtain v where "d = (run_done ''xxx'')\<lparr>ap_revocations := ap_revocations (run_done ''xxx'') @ [v]\<rparr>" by (rule verify_revokes) blast
  then have "getUse d ''r'' ''u'' = None" by (simp add: getUse_def run_done_def decided_db_def run_first_def run_created_def empty_approvals_def)
  with refused show ?thesis by (auto simp: run_verify_def)
qed

lemma fresh_receipt_verifies_witness: "\<exists>x. decideRequest run_env ''xxx'' ''d1'' ''r'' (run_vote ''p2'' ''e2'') run_first
      = Inr ((x, Some (run_receipt ''xxx''), run_second ''xxx''), run_done ''xxx'')
    \<and> verifyReceipt run_env [] [] run_verify (run_done ''xxx'') = (Inr (run_receipt ''xxx''), run_done ''xxx'')"
proof -
  let ?d = "run_second ''xxx''" and ?r = "rp_row (run_receipt ''xxx'')" and ?x = "run_answer ''xxx''"
  have js: "ae_js run_env = run_js" by (simp add: run_env_def)
  have made: "decideRequest run_env ''xxx'' ''d1'' ''r'' (run_vote ''p2'' ''e2'') run_first = Inr ((?x, Some (run_receipt ''xxx''), ?d), run_done ''xxx'')"
    by (rule run_approves) simp
  have 1: "run_done ''xxx'' \<noteq> run_first" by code_simp
  have 2: "\<forall>p \<in> set (decisions_of run_first (dn_request ?d)). decision_compare p ?d \<le> 0" by code_simp
  have 3: "action_is_current run_env (rq_row ?x)" by (simp add: action_is_current_def run_env_def)
  have 4: "\<forall>p \<in> set (rq_decisions ?x). decisionAuthorityIsCurrent run_env (rq_row ?x) p" by code_simp
  have 5: "vi_receipt run_verify = rr_id ?r" "vi_workspace run_verify = rr_workspace ?r" "vi_principal run_verify = aa_principal (rr_action ?r)"
    "aa_operation (vi_action run_verify) = aa_operation (rr_action ?r)" "vi_at run_verify = Some ''xxx''"
    by (simp_all add: run_receipt_row receipt_of_def run_open_def run_row_def run_verify_def run_action_def)
  have "approvalActionDigest run_js run_action = Inr ''1''" "rr_action_digest ?r = ''1''" "vi_action run_verify = run_action" by code_simp+
  then have 6: "approvalActionDigest (ae_js run_env) (vi_action run_verify) = Inr (rr_action_digest ?r)" by (simp add: js)
  have 7: "requireTimestamp (ae_js run_env) ''xxx'' ''at'' = Inr (''xxx'', 3)" "\<not> time_less (ae_js run_env) ''xxx'' (rr_issued_at ?r)"
    "\<not> time_le (ae_js run_env) (rr_expires_at ?r) ''xxx''" by code_simp+
  have "(approval_step (ae_js run_env))\<^sup>*\<^sup>* empty_approvals run_first" using approval_run_reaches by (simp add: js)
  from fresh_receipt_verifies [OF this made 1 2 refl 3 4 5(1-4) 6 5(5) 7] made show ?thesis by blast
qed

lemma out_of_order_receipt_revoked_witness: "\<exists>x. decideRequest run_env ''xx'' ''d1'' ''r'' (run_vote ''p2'' ''e2'') run_first
      = Inr ((x, Some (run_receipt ''xx''), run_second ''xx''), run_done ''xx'')
    \<and> fst (verifyReceipt run_env [] [] run_verify (run_done ''xx'')) = Inl (Approval_Denied approval_action_changed)"
proof -
  let ?d = "run_second ''xx''"
  have js: "ae_js run_env = run_js" by (simp add: run_env_def)
  have made: "decideRequest run_env ''xx'' ''d1'' ''r'' (run_vote ''p2'' ''e2'') run_first
      = Inr ((run_answer ''xx'', Some (run_receipt ''xx''), ?d), run_done ''xx'')" by (rule run_approves) simp
  have 1: "run_done ''xx'' \<noteq> run_first" by code_simp
  have 2: "approvalDecisionSetDigest (ae_js run_env) (js_sort decision_compare (decisions_of run_first (dn_request ?d) @ [?d]))
      \<noteq> approvalDecisionSetDigest (ae_js run_env) (js_sort decision_compare (decisions_of run_first (dn_request ?d)) @ [?d])" by code_simp
  have 3: "vi_receipt run_verify = rr_id (rp_row (run_receipt ''xx''))" by (simp add: run_receipt_row receipt_of_def run_verify_def)
  have 4: "match_receipt (ae_js run_env) [] run_verify (run_done ''xx'') = Inr (run_receipt ''xx'', ''xxx'')" using run_matches [of "''xx''"] by (simp add: js)
  have "(approval_step (ae_js run_env))\<^sup>*\<^sup>* empty_approvals run_first" using approval_run_reaches by (simp add: js)
  from out_of_order_receipt_revoked [OF this made 1 2 refl 3 4] made show ?thesis by blast
qed

end
