(* ===== verification/Scope_Compositions.thy ===== *)
theory Scope_Compositions
  imports Canonical_Json
begin

text \<open>
  \<^verbatim>\<open>floe-bus/src/scope-compositions.ts\<close>: the content of a Scope composition (nodes, ports, edges), its
  validation, its digest, the differences of two revisions and the simulation of an edge plan. Policies
  of a node are the JSON objects the code inspects field by field; the schema compiler behind
  \<^verbatim>\<open>portSchemaValidator\<close> is an argument. Counts and priorities are integers.
\<close>

section \<open>Data\<close>

datatype routing_mode = Edge_Routing | Legacy_Subscription

datatype node_kind = Event_Node | Actor_Node | Command_Node | Context_Node | Scope_Node | Capability_Node | Connector_Node

datatype direction = Input_Port | Output_Port

type_synonym json_object = "(string \<times> json) list"

record placement =
  nd_id :: string
  nd_kind :: node_kind
  nd_label :: "string option"
  nd_resource :: "string option"
  nd_config :: "json option"
  nd_bindings :: "json list option"
  nd_grants :: "string list option"
  nd_activation :: "json_object option"
  nd_context :: "json_object option"

text \<open>A maximum that is left out (\<^const>\<open>None\<close>) is one; a null maximum (\<^term>\<open>Some None\<close>) is unbounded.\<close>

record scope_port =
  sp_id :: string
  sp_node :: string
  sp_name :: string
  sp_direction :: direction
  sp_events :: "string list option"
  sp_artefacts :: "string list option"
  sp_schema_ref :: "string option"
  sp_schema :: "json option"
  sp_min :: "int option"
  sp_max :: "int option option"

record scope_edge =
  ed_id :: string
  ed_source :: string
  ed_target :: string
  ed_enabled :: "bool option"
  ed_priority :: "int option"
  ed_policy :: "json option"

record composition =
  ct_nodes :: "placement list"
  ct_ports :: "scope_port list"
  ct_edges :: "scope_edge list"

datatype comp_error =
    Comp_Invalid string | Comp_Not_Found string | Comp_Immutable string | Comp_Conflict string "string option" "string option"
  | Comp_Impact_Conflict string string | Comp_Type_Error | Comp_Constraint

section \<open>Checks\<close>

primrec each :: "('a \<Rightarrow> ('e, unit) result) \<Rightarrow> 'a list \<Rightarrow> ('e, unit) result" where
  "each f [] = Inr ()"
| "each f (x # xs) = rbind (f x) (\<lambda>_. each f xs)"

definition alnum :: "char \<Rightarrow> bool" where
  "alnum c = (let n = of_char c :: nat in (48 \<le> n \<and> n \<le> 57) \<or> (65 \<le> n \<and> n \<le> 90) \<or> (97 \<le> n \<and> n \<le> 122))"

definition stable_id :: "string \<Rightarrow> bool" where
  "stable_id v = (case v of [] \<Rightarrow> False | c # cs \<Rightarrow> alnum c \<and> list_all (\<lambda>c. alnum c \<or> c \<in> {CHR ''.'', CHR ''_'', CHR '':'', CHR ''-''}) cs)"

primrec require_unique :: "string list \<Rightarrow> string \<Rightarrow> string list \<Rightarrow> (comp_error, unit) result" where
  "require_unique seen label [] = Inr ()"
| "require_unique seen label (v # vs) =
     throw_if (\<not> stable_id v) (Comp_Invalid (label @ '' is not a stable identifier: '' @ v))
     (throw_if (v \<in> set seen) (Comp_Invalid (''duplicate '' @ label @ '': '' @ v)) (require_unique (v # seen) label vs))"

definition requireUnique :: "string list \<Rightarrow> string \<Rightarrow> (comp_error, unit) result" where
  "requireUnique vs label = require_unique [] label vs"

definition contractsOverlap :: "string list option \<Rightarrow> string list option \<Rightarrow> bool" where
  "contractsOverlap l r = (case (l, r) of
      (Some ls, Some rs) \<Rightarrow> ls = [] \<or> rs = [] \<or> ''*'' \<in> set ls \<or> ''*'' \<in> set rs \<or> list_ex (\<lambda>v. v \<in> set rs) ls
    | _ \<Rightarrow> True)"

definition jget :: "json_object \<Rightarrow> string \<Rightarrow> json option" where
  "jget o' k = map_of o' k"

definition jfield :: "json option \<Rightarrow> string \<Rightarrow> json option" where
  "jfield v k = (case v of Some (JObj kvs) \<Rightarrow> map_of kvs k | _ \<Rightarrow> None)"

definition json_truthy :: "json option \<Rightarrow> bool" where
  "json_truthy v = (case v of None \<Rightarrow> False | Some JNull \<Rightarrow> False | Some (JBool b) \<Rightarrow> b | Some (JNum n) \<Rightarrow> n \<noteq> 0 | Some (JStr s) \<Rightarrow> s \<noteq> []
     | Some (JArr _) \<Rightarrow> True | Some (JObj _) \<Rightarrow> True)"

definition stableText :: "json option \<Rightarrow> bool" where
  "stableText v = (case v of Some (JStr s) \<Rightarrow> \<not> is_blank s \<and> length s \<le> 4096 | _ \<Rightarrow> False)"

text \<open>\<^verbatim>\<open>Object.keys\<close> of a string or an array are its indices, of another primitive value nothing.\<close>

definition requireExactKeys :: "json \<Rightarrow> string list \<Rightarrow> string \<Rightarrow> (comp_error, unit) result" where
  "requireExactKeys v allowed label = throw_if (case v of JObj kvs \<Rightarrow> list_ex (\<lambda>kv. fst kv \<notin> set allowed) kvs
       | JStr s \<Rightarrow> s \<noteq> [] | JArr xs \<Rightarrow> xs \<noteq> [] | _ \<Rightarrow> False)
     (Comp_Invalid (label @ '' has an unsupported field'')) (Inr ())"

definition validateEventContentSelector :: "json option \<Rightarrow> string \<Rightarrow> (comp_error, unit) result" where
  "validateEventContentSelector s label =
     throw_if (\<not> json_truthy s \<or> jfield s ''source'' \<noteq> Some (JStr ''event_content'') \<or> \<not> stableText (jfield s ''path''))
       (Comp_Invalid (label @ '' must select a non-empty Event content path''))
     (requireExactKeys (the s) [''source'', ''path''] label)"

definition min_of :: "scope_port \<Rightarrow> int" where
  "min_of p = (case sp_min p of None \<Rightarrow> 0 | Some n \<Rightarrow> n)"

definition max_of :: "scope_port \<Rightarrow> int option" where
  "max_of p = (case sp_max p of None \<Rightarrow> Some 1 | Some m \<Rightarrow> m)"

definition has_required :: "scope_port list \<Rightarrow> bool" where
  "has_required ports = list_ex (\<lambda>p. min_of p > 0) ports"

definition validate_member_key :: "json option \<Rightarrow> string \<Rightarrow> (comp_error, unit) result" where
  "validate_member_key k i = (case k of None \<Rightarrow> Inl Comp_Type_Error | Some JNull \<Rightarrow> Inl Comp_Type_Error
    | Some _ \<Rightarrow>
        if jfield k ''source'' = Some (JStr ''event_content'') then validateEventContentSelector k (''member key for node '' @ i)
        else throw_if (jfield k ''source'' \<noteq> Some (JStr ''publication_member_key''))
          (Comp_Invalid (''unsupported member-key selector of node '' @ i)) (Inr ()))"

definition port_named :: "scope_port list \<Rightarrow> json option \<Rightarrow> scope_port option" where
  "port_named ports v = find (\<lambda>p. v = Some (JStr (sp_id p))) ports"

definition validate_expected :: "string \<Rightarrow> scope_port list \<Rightarrow> json \<Rightarrow> (comp_error, unit) result" where
  "validate_expected i inputs e =
     rbind (requireExactKeys e [''mode'', ''collection_port_id'', ''member_port_id'', ''member_key'', ''match''] (''expected membership for node '' @ i)) (\<lambda>_.
     throw_if (jfield (Some e) ''mode'' \<noteq> Some (JStr ''from_collection'')) (Comp_Invalid (''unsupported expected-membership mode of node '' @ i))
     (case (port_named inputs (jfield (Some e) ''collection_port_id''), port_named inputs (jfield (Some e) ''member_port_id'')) of
        (Some c, Some m) \<Rightarrow>
          throw_if (sp_id c = sp_id m) (Comp_Invalid (''collection and member Ports must be different on node '' @ i))
          (throw_if (min_of c < 1 \<or> max_of c \<noteq> Some 1) (Comp_Invalid (''collection Port must require exactly one ArtefactVersion on node '' @ i))
          (throw_if (max_of m \<noteq> None) (Comp_Invalid (''dynamic member Port must allow unbounded membership on node '' @ i))
          (throw_if (jfield (Some e) ''match'' \<noteq> Some (JStr ''member_key'') \<and> jfield (Some e) ''match'' \<noteq> Some (JStr ''member_key_and_version''))
             (Comp_Invalid (''unsupported member match policy of node '' @ i))
          (validate_member_key (jfield (Some e) ''member_key'') i))))
      | _ \<Rightarrow> Inl (Comp_Invalid (''expected-membership Ports must be input Ports on node '' @ i))))"

definition validateActivationPolicy :: "placement \<Rightarrow> scope_port list \<Rightarrow> (comp_error, unit) result" where
  "validateActivationPolicy n inputs = (let i = nd_id n; label = ''activation policy for node '' @ i in
     case nd_activation n of None \<Rightarrow> Inl (Comp_Invalid (''processing node must declare an activation policy: '' @ i))
     | Some policy \<Rightarrow>
       if jget policy ''mode'' = Some (JStr ''per_delivery'') then requireExactKeys (JObj policy) [''mode''] label
       else if jget policy ''mode'' = Some (JStr ''all_required_ports'') then
         rbind (requireExactKeys (JObj policy) [''mode''] label) (\<lambda>_.
         throw_if (\<not> has_required inputs) (Comp_Invalid (''all_required_ports must have at least one required input Port: '' @ i)) (Inr ()))
       else if jget policy ''mode'' = Some (JStr ''keyed_gather'') then
         rbind (requireExactKeys (JObj policy) [''mode'', ''join_key'', ''expected_members''] label) (\<lambda>_.
         rbind (validateEventContentSelector (jget policy ''join_key'') (''join key for node '' @ i)) (\<lambda>_.
         if \<not> json_truthy (jget policy ''expected_members'') then
           throw_if (\<not> has_required inputs) (Comp_Invalid (''keyed_gather must have required input Ports or dynamic expected membership: '' @ i)) (Inr ())
         else validate_expected i inputs (the (jget policy ''expected_members''))))
       else Inl (Comp_Invalid (''unsupported activation mode of node '' @ i)))"

definition validateContextPolicy :: "string \<Rightarrow> json_object \<Rightarrow> (comp_error, unit) result" where
  "validateContextPolicy i policy = (let label = ''Context policy for node '' @ i in
     if jget policy ''mode'' = Some (JStr ''new_per_execution'') then requireExactKeys (JObj policy) [''mode''] label
     else if jget policy ''mode'' = Some (JStr ''reuse_by_key'') then
       rbind (requireExactKeys (JObj policy) [''mode'', ''key_template''] label) (\<lambda>_.
       throw_if (\<not> stableText (jget policy ''key_template'')) (Comp_Invalid (''reuse_by_key policy requires key_template: '' @ i)) (Inr ()))
     else if jget policy ''mode'' = Some (JStr ''fixed'') then
       rbind (requireExactKeys (JObj policy) [''mode'', ''context_id''] label) (\<lambda>_.
       throw_if (\<not> stableText (jget policy ''context_id'')) (Comp_Invalid (''fixed policy requires context_id: '' @ i)) (Inr ()))
     else Inl (Comp_Invalid (''unsupported Context mode of node '' @ i)))"

definition validateNodePolicies :: "placement \<Rightarrow> scope_port list \<Rightarrow> routing_mode \<Rightarrow> (comp_error, unit) result" where
  "validateNodePolicies n ports mode =
     (let inputs = filter (\<lambda>p. sp_node p = nd_id n \<and> sp_direction p = Input_Port) ports;
          processing = (nd_kind n = Actor_Node \<or> nd_kind n = Command_Node);
          needsContext = (processing \<or> nd_kind n = Event_Node);
          legacy = (case nd_activation n of None \<Rightarrow> False | Some a \<Rightarrow> jget a ''mode'' = Some (JStr ''legacy_subscription'')) in
      rbind (if mode = Legacy_Subscription then
               throw_if (\<not> legacy \<or> \<not> stableText (jget (the (nd_activation n)) ''graph_id''))
                 (Comp_Invalid (''legacy node must retain its explicit legacy_subscription activation: '' @ nd_id n)) (Inr ())
             else if legacy then Inl (Comp_Invalid (''Edge-routed node cannot use legacy_subscription activation: '' @ nd_id n))
             else if processing \<or> nd_activation n \<noteq> None then validateActivationPolicy n inputs else Inr ()) (\<lambda>_.
      throw_if (needsContext \<and> nd_context n = None) (Comp_Invalid (''node must declare a Context policy: '' @ nd_id n))
      (case nd_context n of None \<Rightarrow> Inr () | Some c \<Rightarrow> validateContextPolicy (nd_id n) c)))"

section \<open>Validation\<close>

text \<open>\<^verbatim>\<open>const max = port.max_count ?? 1\<close>: the operator replaces a null maximum too.\<close>

definition checked_max :: "scope_port \<Rightarrow> int" where
  "checked_max p = (case sp_max p of None \<Rightarrow> 1 | Some None \<Rightarrow> 1 | Some (Some n) \<Rightarrow> n)"

definition validate_port :: "(json \<Rightarrow> string option) \<Rightarrow> placement list \<Rightarrow> scope_port \<Rightarrow> (comp_error, unit) result" where
  "validate_port compile nodes p =
     throw_if (\<not> list_ex (\<lambda>n. nd_id n = sp_node p) nodes) (Comp_Invalid (''port references missing node: '' @ sp_id p))
     (throw_if (min_of p < 0) (Comp_Invalid (''port has invalid min_count: '' @ sp_id p))
     (throw_if (checked_max p < min_of p) (Comp_Invalid (''port has invalid max_count: '' @ sp_id p))
     (case sp_schema p of None \<Rightarrow> Inr () | Some JNull \<Rightarrow> Inr ()
      | Some schema \<Rightarrow>
          throw_if (sp_direction p \<noteq> Output_Port) (Comp_Invalid (''only output Ports carry a schema: '' @ sp_id p))
          (throw_if (case schema of JObj _ \<Rightarrow> False | _ \<Rightarrow> True) (Comp_Invalid (''port schema must be a JSON Schema object: '' @ sp_id p))
          (throw_if (compile schema \<noteq> None) (Comp_Invalid (''port schema is not usable: '' @ sp_id p)) (Inr ()))))))"

definition port_of :: "scope_port list \<Rightarrow> string \<Rightarrow> scope_port option" where
  "port_of ports i = find (\<lambda>p. sp_id p = i) ports"

definition validate_edge :: "scope_port list \<Rightarrow> scope_edge \<Rightarrow> (comp_error, unit) result" where
  "validate_edge ports e = (case port_of ports (ed_source e) of
      None \<Rightarrow> Inl (Comp_Invalid (''edge references missing source port: '' @ ed_id e))
    | Some s \<Rightarrow> (case port_of ports (ed_target e) of
        None \<Rightarrow> Inl (Comp_Invalid (''edge references missing target port: '' @ ed_id e))
      | Some t \<Rightarrow>
          throw_if (sp_direction s \<noteq> Output_Port) (Comp_Invalid (''edge source is not an output port: '' @ ed_id e))
          (throw_if (sp_direction t \<noteq> Input_Port) (Comp_Invalid (''edge target is not an input port: '' @ ed_id e))
          (throw_if (\<not> contractsOverlap (sp_events s) (sp_events t)) (Comp_Invalid (''edge connects incompatible Event contracts: '' @ ed_id e))
          (throw_if (\<not> contractsOverlap (sp_artefacts s) (sp_artefacts t))
            (Comp_Invalid (''edge connects incompatible Artefact contracts: '' @ ed_id e)) (Inr ()))))))"

definition or_nil :: "'a list option \<Rightarrow> 'a list" where
  "or_nil v = (case v of None \<Rightarrow> [] | Some xs \<Rightarrow> xs)"

definition validateScopeComposition :: "(json \<Rightarrow> string option) \<Rightarrow> composition \<Rightarrow> routing_mode \<Rightarrow> (comp_error, unit) result" where
  "validateScopeComposition compile c mode =
     throw_if (ct_nodes c = []) (Comp_Invalid ''at least one NodePlacement is required'')
     (rbind (requireUnique (map nd_id (ct_nodes c)) ''node id'') (\<lambda>_.
      rbind (requireUnique (map sp_id (ct_ports c)) ''port id'') (\<lambda>_.
      rbind (requireUnique (map ed_id (ct_edges c)) ''edge id'') (\<lambda>_.
      rbind (each (validate_port compile (ct_nodes c)) (ct_ports c)) (\<lambda>_.
      rbind (each (validate_edge (ct_ports c)) (ct_edges c)) (\<lambda>_.
      each (\<lambda>n. rbind (requireUnique (or_nil (nd_grants n)) (''CapabilityGrant id on node '' @ nd_id n)) (\<lambda>_.
        validateNodePolicies n (ct_ports c) mode)) (ct_nodes c)))))))"

end
