(* ===== verification/Scope_Plans.thy ===== *)
theory Scope_Plans
  imports Scope_Compositions Normal_Forms
begin

text \<open>
  \<^verbatim>\<open>floe-bus/src/scope-compositions.ts\<close>, read-only: the semantic digest of a composition, the differences
  of two revisions and the simulation of the Edge plan of a revision.
\<close>

section \<open>Digest\<close>

definition or_empty :: "json option \<Rightarrow> json" where
  "or_empty v = (case v of None \<Rightarrow> JObj [] | Some JNull \<Rightarrow> JObj [] | Some x \<Rightarrow> x)"

definition nonempty_text :: "string option \<Rightarrow> string option" where
  "nonempty_text v = (case v of None \<Rightarrow> None | Some [] \<Rightarrow> None | Some t \<Rightarrow> Some t)"

definition normal_node :: "placement \<Rightarrow> placement" where
  "normal_node n = n\<lparr>nd_label := nonempty_text (nd_label n), nd_resource := nonempty_text (nd_resource n), nd_config := Some (or_empty (nd_config n)),
     nd_bindings := Some (or_nil (nd_bindings n)), nd_grants := Some (js_sort binary_compare (or_nil (nd_grants n)))\<rparr>"

definition normal_port :: "scope_port \<Rightarrow> scope_port" where
  "normal_port p = p\<lparr>sp_events := Some (or_nil (sp_events p)), sp_artefacts := Some (or_nil (sp_artefacts p)),
     sp_schema := (if json_truthy (sp_schema p) then sp_schema p else None), sp_min := Some (min_of p), sp_max := Some (max_of p)\<rparr>"

definition edge_enabled :: "scope_edge \<Rightarrow> bool" where
  "edge_enabled e = (ed_enabled e \<noteq> Some False)"

definition priority_of :: "scope_edge \<Rightarrow> int" where
  "priority_of e = (case ed_priority e of None \<Rightarrow> 0 | Some n \<Rightarrow> n)"

definition normal_edge :: "scope_edge \<Rightarrow> scope_edge" where
  "normal_edge e = e\<lparr>ed_enabled := Some (edge_enabled e), ed_priority := Some (priority_of e), ed_policy := Some (or_empty (ed_policy e))\<rparr>"

definition normalizeCompositionContent :: "composition \<Rightarrow> composition" where
  "normalizeCompositionContent c = \<lparr>ct_nodes = map normal_node (ct_nodes c), ct_ports = map normal_port (ct_ports c), ct_edges = map normal_edge (ct_edges c)\<rparr>"

text \<open>The JSON of a normalised or stored element; a field that is absent is left out, as \<^verbatim>\<open>undefined\<close> is.\<close>

definition present :: "string \<Rightarrow> ('a \<Rightarrow> json) \<Rightarrow> 'a option \<Rightarrow> json_object" where
  "present k f v = (case v of None \<Rightarrow> [] | Some x \<Rightarrow> [(k, f x)])"

definition kind_name :: "node_kind \<Rightarrow> string" where
  "kind_name k = (case k of Event_Node \<Rightarrow> ''event'' | Actor_Node \<Rightarrow> ''actor'' | Command_Node \<Rightarrow> ''command'' | Context_Node \<Rightarrow> ''context''
     | Scope_Node \<Rightarrow> ''scope'' | Capability_Node \<Rightarrow> ''capability'' | Connector_Node \<Rightarrow> ''connector'')"

definition direction_name :: "direction \<Rightarrow> string" where
  "direction_name d = (case d of Input_Port \<Rightarrow> ''input'' | Output_Port \<Rightarrow> ''output'')"

definition node_json :: "placement \<Rightarrow> json" where
  "node_json n = JObj ([(''node_id'', JStr (nd_id n)), (''kind'', JStr (kind_name (nd_kind n)))] @ present ''label'' JStr (nd_label n)
     @ present ''resource_id'' JStr (nd_resource n) @ present ''config'' id (nd_config n) @ present ''bindings'' JArr (nd_bindings n)
     @ present ''capability_grant_ids'' (\<lambda>gs. jtexts gs) (nd_grants n) @ present ''activation'' JObj (nd_activation n)
     @ present ''context_policy'' JObj (nd_context n))"

definition port_json :: "scope_port \<Rightarrow> json" where
  "port_json p = JObj ([(''port_id'', JStr (sp_id p)), (''node_id'', JStr (sp_node p)), (''name'', JStr (sp_name p)),
       (''direction'', JStr (direction_name (sp_direction p)))] @ present ''event_types'' (\<lambda>v. jtexts v) (sp_events p)
     @ present ''artefact_types'' (\<lambda>v. jtexts v) (sp_artefacts p) @ [(''schema_ref'', jopt JStr (sp_schema_ref p))] @ present ''schema'' id (sp_schema p)
     @ present ''min_count'' (\<lambda>n. JNum (of_int n)) (sp_min p) @ present ''max_count'' (jopt (\<lambda>n. JNum (of_int n))) (sp_max p))"

definition edge_json :: "scope_edge \<Rightarrow> json" where
  "edge_json e = JObj ([(''edge_id'', JStr (ed_id e)), (''source_port_id'', JStr (ed_source e)), (''target_port_id'', JStr (ed_target e))]
     @ present ''enabled'' JBool (ed_enabled e) @ present ''priority'' (\<lambda>n. JNum (of_int n)) (ed_priority e) @ present ''policy'' id (ed_policy e))"

definition content_json :: "composition \<Rightarrow> json" where
  "content_json c = JObj [(''nodes'', JArr (map node_json (ct_nodes c))), (''ports'', JArr (map port_json (ct_ports c))),
     (''edges'', JArr (map edge_json (ct_edges c)))]"

definition scopeCompositionDigest :: "platform \<Rightarrow> composition \<Rightarrow> string" where
  "scopeCompositionDigest js c = json_digest js (content_json (normalizeCompositionContent c))"

text \<open>Validation before publication: the refusal is a diagnostic, another error is thrown.\<close>

definition inspectScopeCompositionValidation ::
  "platform \<Rightarrow> (json \<Rightarrow> string option) \<Rightarrow> composition \<Rightarrow> routing_mode \<Rightarrow> (comp_error, (string, string) result) result" where
  "inspectScopeCompositionValidation js compile c routing = (case validateScopeComposition compile c routing of
      Inr _ \<Rightarrow> Inr (Inr (scopeCompositionDigest js c))
    | Inl (Comp_Invalid reason) \<Rightarrow> Inr (Inl reason)
    | Inl e \<Rightarrow> Inl e)"

section \<open>Revisions and their differences\<close>

record revision =
  re_id :: string
  re_workspace :: string
  re_scope :: string
  re_number :: int
  re_mode :: routing_mode
  re_based :: "string option"
  re_digest :: string
  re_creator :: "string option"
  re_created :: string
  re_published :: "string option"
  re_withdrawn :: "string option"
  re_content :: composition

record differences =
  df_added :: "string list"
  df_removed :: "string list"
  df_changed :: "string list"

definition compareByStableId :: "platform \<Rightarrow> ('a \<Rightarrow> string) \<Rightarrow> ('a \<Rightarrow> json) \<Rightarrow> 'a list \<Rightarrow> 'a list \<Rightarrow> differences" where
  "compareByStableId js key text was now =
     (let before' = new_map (map (\<lambda>x. (key x, x)) was); after = new_map (map (\<lambda>x. (key x, x)) now); sorted' = js_sort binary_compare in
      \<lparr>df_added = sorted' (filter (\<lambda>i. map_of before' i = None) (map fst after)),
       df_removed = sorted' (filter (\<lambda>i. map_of after i = None) (map fst before')),
       df_changed = sorted' (filter (\<lambda>i. case map_of before' i of None \<Rightarrow> False
          | Some p \<Rightarrow> canonicalJson js (text p) \<noteq> canonicalJson js (text (the (map_of after i)))) (map fst after))\<rparr>)"

record change_set =
  cs_from :: "string option"
  cs_to :: string
  cs_from_digest :: "string option"
  cs_to_digest :: string
  cs_nodes :: differences
  cs_ports :: differences
  cs_edges :: differences

definition elements_of :: "(composition \<Rightarrow> 'a list) \<Rightarrow> revision option \<Rightarrow> 'a list" where
  "elements_of f r = (case r of None \<Rightarrow> [] | Some x \<Rightarrow> f (re_content x))"

definition compareScopeCompositionRevisions :: "platform \<Rightarrow> revision option \<Rightarrow> revision \<Rightarrow> change_set" where
  "compareScopeCompositionRevisions js old new =
     \<lparr>cs_from = map_option re_id old, cs_to = re_id new, cs_from_digest = map_option re_digest old, cs_to_digest = re_digest new,
      cs_nodes = compareByStableId js nd_id node_json (elements_of ct_nodes old) (ct_nodes (re_content new)),
      cs_ports = compareByStableId js sp_id port_json (elements_of ct_ports old) (ct_ports (re_content new)),
      cs_edges = compareByStableId js ed_id edge_json (elements_of ct_edges old) (ct_edges (re_content new))\<rparr>"

section \<open>Simulation\<close>

record plan_step =
  ps_depth :: nat
  ps_edge :: string
  ps_source_node :: string
  ps_source_port :: string
  ps_target_node :: string
  ps_target_port :: string
  ps_activation :: "json_object option"
  ps_context :: "json_object option"

record plan =
  pn_queue :: "(string \<times> nat) list"
  pn_expanded :: "string list"
  pn_nodes :: "string list"
  pn_edges :: "string list"
  pn_terminal :: "string list"
  pn_steps :: "plan_step list"

record simulation =
  sm_revision :: string
  sm_digest :: string
  sm_ingress :: string
  sm_output :: string
  sm_nodes :: "string list"
  sm_edges :: "string list"
  sm_unreachable :: "string list"
  sm_terminal :: "string list"
  sm_steps :: "plan_step list"
  sm_warnings :: "string list list"

definition edge_order :: "platform \<Rightarrow> scope_edge \<Rightarrow> scope_edge \<Rightarrow> int" where
  "edge_order js l r = or_compare (\<lambda>a b. priority_of a - priority_of b) (\<lambda>a b. locale_compare js (ed_id a) (ed_id b)) l r"

definition outgoing :: "platform \<Rightarrow> composition \<Rightarrow> string \<Rightarrow> scope_edge list" where
  "outgoing js c p = js_sort (edge_order js) (filter (\<lambda>e. edge_enabled e \<and> ed_source e = p) (ct_edges c))"

definition output_ports :: "platform \<Rightarrow> composition \<Rightarrow> string \<Rightarrow> scope_port list" where
  "output_ports js c n = js_sort (\<lambda>l r. locale_compare js (sp_id l) (sp_id r))
     (filter (\<lambda>p. sp_node p = n \<and> sp_direction p = Output_Port) (ct_ports c))"

definition set_add :: "'a \<Rightarrow> 'a list \<Rightarrow> 'a list" where
  "set_add x xs = (if x \<in> set xs then xs else xs @ [x])"

text \<open>Both ends of an Edge and the Node of its target exist: the content has been validated.\<close>

definition target_node :: "composition \<Rightarrow> scope_edge \<Rightarrow> placement" where
  "target_node c e = the (find (\<lambda>n. nd_id n = sp_node (the (port_of (ct_ports c) (ed_target e)))) (ct_nodes c))"

definition step_of :: "composition \<Rightarrow> nat \<Rightarrow> scope_edge \<Rightarrow> plan_step" where
  "step_of c d e = (let s = the (port_of (ct_ports c) (ed_source e)); t = the (port_of (ct_ports c) (ed_target e)); n = target_node c e in
     \<lparr>ps_depth = d + 1, ps_edge = ed_id e, ps_source_node = sp_node s, ps_source_port = sp_id s, ps_target_node = nd_id n, ps_target_port = sp_id t,
      ps_activation = nd_activation n, ps_context = nd_context n\<rparr>)"

definition follow :: "platform \<Rightarrow> composition \<Rightarrow> nat \<Rightarrow> scope_edge \<Rightarrow> plan \<Rightarrow> plan" where
  "follow js c d e pl = (let n = target_node c e in
     pl\<lparr>pn_queue := pn_queue pl @ map (\<lambda>p. (sp_id p, d + 1)) (output_ports js c (nd_id n)),
        pn_nodes := set_add (nd_id n) (pn_nodes pl), pn_edges := set_add (ed_id e) (pn_edges pl), pn_steps := pn_steps pl @ [step_of c d e]\<rparr>)"

definition expand :: "platform \<Rightarrow> composition \<Rightarrow> string \<Rightarrow> nat \<Rightarrow> plan \<Rightarrow> plan" where
  "expand js c p d pl = (let out = outgoing js c p in
     fold (follow js c d) out (pl\<lparr>pn_expanded := pn_expanded pl @ [p],
       pn_terminal := (if out = [] then set_add p (pn_terminal pl) else pn_terminal pl)\<rparr>))"

lemma fold_follow_queue:
  "pn_queue (fold (follow js c d) es pl)
    = pn_queue pl @ concat (map (\<lambda>e. map (\<lambda>p. (sp_id p, d + 1)) (output_ports js c (nd_id (target_node c e)))) es)"
  by (induction es arbitrary: pl) (simp_all add: follow_def Let_def)

lemma fold_follow_expanded: "pn_expanded (fold (follow js c d) es pl) = pn_expanded pl"
  by (induction es arbitrary: pl) (simp_all add: follow_def Let_def)

text \<open>Each round expands a Port of the content that was not expanded or shortens the queue.\<close>

function explore :: "platform \<Rightarrow> composition \<Rightarrow> plan \<Rightarrow> plan" where
  "explore js c pl = (case pn_queue pl of [] \<Rightarrow> pl
     | (p, d) # rest \<Rightarrow> (let pl' = pl\<lparr>pn_queue := rest\<rparr> in
         if p \<in> set (pn_expanded pl) then explore js c pl' else explore js c (expand js c p d pl')))"
  by pat_completeness auto
termination
proof (relation "measures [\<lambda>(js, c, pl). card ((sp_id ` set (ct_ports c) \<union> fst ` set (pn_queue pl)) - set (pn_expanded pl)),
    \<lambda>(js, c, pl). length (pn_queue pl)]", simp, goal_cases)
  case (1 js c pl x rest p d pl')
  then have "(sp_id ` set (ct_ports c) \<union> fst ` set rest) - set (pn_expanded pl)
      \<subseteq> (sp_id ` set (ct_ports c) \<union> fst ` set (pn_queue pl)) - set (pn_expanded pl)" by auto
  then have "card ((sp_id ` set (ct_ports c) \<union> fst ` set rest) - set (pn_expanded pl))
      \<le> card ((sp_id ` set (ct_ports c) \<union> fst ` set (pn_queue pl)) - set (pn_expanded pl))" by (rule card_mono [rotated]) simp
  with 1 show ?case by auto
next
  case (2 js c pl x rest p d pl')
  let ?q = "expand js c p d pl'"
  have "fst ` set (pn_queue ?q) \<subseteq> fst ` set rest \<union> sp_id ` set (ct_ports c)"
    using 2 by (auto simp: expand_def Let_def fold_follow_queue output_ports_def)
  moreover have "set (pn_expanded ?q) = insert p (set (pn_expanded pl))" using 2 by (simp add: expand_def Let_def fold_follow_expanded)
  moreover have "pn_queue pl = (p, d) # rest" using 2(1,2) by simp
  ultimately have "(sp_id ` set (ct_ports c) \<union> fst ` set (pn_queue ?q)) - set (pn_expanded ?q)
      \<subseteq> ((sp_id ` set (ct_ports c) \<union> fst ` set (pn_queue pl)) - set (pn_expanded pl)) - {p}"
    and "p \<in> (sp_id ` set (ct_ports c) \<union> fst ` set (pn_queue pl)) - set (pn_expanded pl)" using 2(4) by auto
  then have "(sp_id ` set (ct_ports c) \<union> fst ` set (pn_queue ?q)) - set (pn_expanded ?q)
      \<subset> (sp_id ` set (ct_ports c) \<union> fst ` set (pn_queue pl)) - set (pn_expanded pl)" by blast
  then have "card ((sp_id ` set (ct_ports c) \<union> fst ` set (pn_queue ?q)) - set (pn_expanded ?q))
      < card ((sp_id ` set (ct_ports c) \<union> fst ` set (pn_queue pl)) - set (pn_expanded pl))" by (rule psubset_card_mono [rotated]) simp
  then show ?case by auto
qed

declare explore.simps [simp del]

definition start_plan :: "string \<Rightarrow> string \<Rightarrow> plan" where
  "start_plan ingress out = \<lparr>pn_queue = [(out, 0)], pn_expanded = [], pn_nodes = [ingress], pn_edges = [], pn_terminal = [], pn_steps = []\<rparr>"

definition simulateScopeComposition ::
  "platform \<Rightarrow> (json \<Rightarrow> string option) \<Rightarrow> revision \<Rightarrow> string \<Rightarrow> string \<Rightarrow> (comp_error, simulation) result" where
  "simulateScopeComposition js compile r ingress out = (let c = re_content r in
     rbind (validateScopeComposition compile c (re_mode r)) (\<lambda>_.
     throw_if (re_mode r \<noteq> Edge_Routing) (Comp_Invalid ''legacy subscription revisions cannot be simulated as an Edge plan'')
     (throw_if (case find (\<lambda>n. nd_id n = ingress) (ct_nodes c) of None \<Rightarrow> True | Some n \<Rightarrow> nd_kind n \<noteq> Event_Node)
       (Comp_Invalid (''simulation ingress is not an Event node: '' @ ingress))
     (throw_if (case port_of (ct_ports c) out of None \<Rightarrow> True | Some p \<Rightarrow> sp_node p \<noteq> ingress \<or> sp_direction p \<noteq> Output_Port)
       (Comp_Invalid (''simulation output Port does not belong to the ingress: '' @ out))
     (let pl = explore js c (start_plan ingress out); sorted' = js_sort binary_compare;
          unreachable = sorted' (filter (\<lambda>i. i \<notin> set (pn_nodes pl)) (map nd_id (ct_nodes c))) in
      Inr \<lparr>sm_revision = re_id r, sm_digest = re_digest r, sm_ingress = ingress, sm_output = out, sm_nodes = sorted' (pn_nodes pl),
        sm_edges = sorted' (pn_edges pl), sm_unreachable = unreachable, sm_terminal = sorted' (pn_terminal pl), sm_steps = pn_steps pl,
        sm_warnings = (if unreachable = [] then [] else [unreachable])\<rparr>)))))"

end
