(* ===== verification/Scope_Directory.thy ===== *)
theory Scope_Directory
  imports Floe_Prelude
begin

text \<open>
  \<^verbatim>\<open>floe-bus/src/scopes/store.ts\<close>: the directory of the Scopes of a Workspace, whose rows hold the
  pointer to the published composition revision that \<^verbatim>\<open>scope-compositions.ts\<close> moves. Clock and
  generated identifier are arguments.
\<close>

datatype scope_status = Scope_Active | Scope_Retired

record scope_row =
  so_workspace :: string
  so_scope :: string
  so_title :: string
  so_description :: "string option"
  so_status :: scope_status
  so_published :: "string option"
  so_created :: string
  so_updated :: string

datatype scope_error = Scope_Exists string string | Scope_Reserved string string

definition reserved_default_scope :: string where
  "reserved_default_scope = ''default''"

definition scope_at :: "string \<Rightarrow> string \<Rightarrow> scope_row \<Rightarrow> bool" where
  "scope_at w s r = (so_workspace r = w \<and> so_scope r = s)"

definition getScope :: "scope_row list \<Rightarrow> string \<Rightarrow> string \<Rightarrow> scope_row option" where
  "getScope rows w s = row_where (scope_at w s) rows"

definition scope_order :: "scope_row \<Rightarrow> scope_row \<Rightarrow> int" where
  "scope_order l r = or_compare (\<lambda>a b. binary_compare (so_created a) (so_created b)) (\<lambda>a b. binary_compare (so_title a) (so_title b)) l r"

definition listScopes :: "scope_row list \<Rightarrow> string \<Rightarrow> scope_row list" where
  "listScopes rows w = js_sort scope_order (filter (\<lambda>r. so_workspace r = w) rows)"

definition createScope ::
  "string \<Rightarrow> string \<Rightarrow> string \<Rightarrow> string option \<Rightarrow> string \<Rightarrow> string option \<Rightarrow> scope_row list \<Rightarrow> (scope_error, scope_row \<times> scope_row list) result" where
  "createScope now fresh w given title description rows =
     (let s = (case given of None \<Rightarrow> fresh | Some i \<Rightarrow> i);
          r = \<lparr>so_workspace = w, so_scope = s, so_title = title, so_description = description, so_status = Scope_Active,
            so_published = None, so_created = now, so_updated = now\<rparr> in
      throw_if (s = reserved_default_scope) (Scope_Reserved w s)
      (throw_if (getScope rows w s \<noteq> None) (Scope_Exists w s) (Inr (r, rows @ [r]))))"

text \<open>The outer option of the description is \<^verbatim>\<open>undefined\<close>, the inner one \<^verbatim>\<open>null\<close>.\<close>

definition updateScope ::
  "string \<Rightarrow> string \<Rightarrow> string \<Rightarrow> string option \<Rightarrow> string option option \<Rightarrow> scope_row list \<Rightarrow> scope_row option \<times> scope_row list" where
  "updateScope now w s title description rows = (case getScope rows w s of None \<Rightarrow> (None, rows)
     | Some old \<Rightarrow> (let rows' = set_where (scope_at w s) (\<lambda>r. r\<lparr>so_title := (case title of None \<Rightarrow> so_title old | Some t \<Rightarrow> t),
          so_description := (case description of None \<Rightarrow> so_description old | Some d \<Rightarrow> d), so_updated := now\<rparr>) rows in
        (getScope rows' w s, rows')))"

definition setScopeStatus :: "string \<Rightarrow> string \<Rightarrow> string \<Rightarrow> scope_status \<Rightarrow> scope_row list \<Rightarrow> scope_row option \<times> scope_row list" where
  "setScopeStatus now w s status rows = (if getScope rows w s = None then (None, rows)
     else (let rows' = set_where (scope_at w s) (\<lambda>r. r\<lparr>so_status := status, so_updated := now\<rparr>) rows in (getScope rows' w s, rows')))"

definition deleteScope :: "string \<Rightarrow> string \<Rightarrow> scope_row list \<Rightarrow> scope_row list" where
  "deleteScope w s rows = filter (\<lambda>r. \<not> scope_at w s r) rows"

text \<open>The directory changes by these operations; the pointer is moved by the composition store alone.\<close>

inductive scope_change :: "scope_row list \<Rightarrow> scope_row list \<Rightarrow> bool" where
  create: "createScope now fresh w given title description rows = Inr (r, rows') \<Longrightarrow> scope_change rows rows'"
| update: "updateScope now w s title description rows = (res, rows') \<Longrightarrow> scope_change rows rows'"
| status: "setScopeStatus now w s status rows = (res, rows') \<Longrightarrow> scope_change rows rows'"
| delete: "deleteScope w s rows = rows' \<Longrightarrow> scope_change rows rows'"

definition scope_key :: "scope_row \<Rightarrow> string \<times> string" where
  "scope_key r = (so_workspace r, so_scope r)"

lemma scope_at_key: "scope_at w s r \<longleftrightarrow> scope_key r = (w, s)"
  by (simp add: scope_at_def scope_key_def)

lemma getScope_key: "distinct (map scope_key rows) \<Longrightarrow> r \<in> set rows \<Longrightarrow> getScope rows (so_workspace r) (so_scope r) = Some r"
  using row_where_key [of scope_key rows r] by (simp add: getScope_def scope_at_def [abs_def] scope_key_def)

lemma getScope_SomeD: "getScope rows w s = Some r \<Longrightarrow> r \<in> set rows \<and> so_workspace r = w \<and> so_scope r = s"
  unfolding getScope_def by (drule row_where_SomeD) (simp add: scope_at_def)

lemma scope_key_updates [simp]:
  "scope_key (r\<lparr>so_title := t, so_description := d, so_updated := n\<rparr>) = scope_key r"
  "scope_key (r\<lparr>so_status := st, so_updated := n\<rparr>) = scope_key r"
  "scope_key (r\<lparr>so_published := p, so_updated := n\<rparr>) = scope_key r"
  by (simp_all add: scope_key_def)

text \<open>What the composition store relies on: keys stay unique, and a row's pointer is old or empty.\<close>

definition pointers_kept :: "scope_row list \<Rightarrow> scope_row list \<Rightarrow> bool" where
  "pointers_kept rows rows' \<longleftrightarrow> distinct (map scope_key rows')
     \<and> (\<forall>r' \<in> set rows'. so_published r' = None \<or> (\<exists>r \<in> set rows. scope_key r = scope_key r' \<and> so_published r = so_published r'))"

lemma pointers_kept_refl: "distinct (map scope_key rows) \<Longrightarrow> pointers_kept rows rows"
  by (auto simp: pointers_kept_def)

lemma pointers_kept_where:
  assumes "distinct (map scope_key rows)" and f: "\<And>r. scope_key (f r) = scope_key r" "\<And>r. so_published (f r) = so_published r"
  shows "pointers_kept rows (set_where P f rows)"
proof -
  have "map scope_key (set_where P f rows) = map scope_key rows" by (rule map_set_where) (rule f)
  moreover have "\<exists>r \<in> set rows. scope_key r = scope_key r' \<and> so_published r = so_published r'" if "r' \<in> set (set_where P f rows)" for r'
    using that f by (force simp: in_set_where)
  ultimately show ?thesis using assms(1) by (simp add: pointers_kept_def)
qed

lemma scope_change_pointers: "scope_change rows rows' \<Longrightarrow> distinct (map scope_key rows) \<Longrightarrow> pointers_kept rows rows'"
proof (induction rule: scope_change.induct)
  case (create now fresh w given title description rows r rows')
  then have "rows' = rows @ [r]" "so_published r = None" and new: "getScope rows (so_workspace r) (so_scope r) = None"
    by (auto simp: createScope_def Let_def result_simps)
  moreover from new have "scope_key r \<notin> scope_key ` set rows" by (force simp: getScope_def row_where_None_iff scope_at_def scope_key_def)
  ultimately show ?case using create by (auto simp: pointers_kept_def)
next
  case (update now w s title description rows res rows')
  then show ?case
    by (auto simp: updateScope_def Let_def split: option.splits intro!: pointers_kept_refl pointers_kept_where)
next
  case (status now w s status rows res rows')
  then show ?case
    by (auto simp: setScopeStatus_def Let_def split: if_splits intro!: pointers_kept_refl pointers_kept_where)
next
  case (delete w s rows rows')
  then show ?case by (auto simp: pointers_kept_def deleteScope_def distinct_map_filter)
qed

end
