(* ===== verification/Composition_Store.thy ===== *)
theory Composition_Store
  imports Scope_Plans Scope_Directory
begin

text \<open>
  \<^verbatim>\<open>ScopeCompositionStore\<close> of \<^verbatim>\<open>floe-bus/src/scope-compositions.ts\<close>: drafts, publication, rollback and the
  portable form of a revision, over its four tables, the directory of Scopes, and the executions that
  \<^verbatim>\<open>scope-executions.ts\<close> keeps (\<^const>\<open>None\<close> while that table does not exist). A JSON column is the value it
  encodes. The clock and the generated identifier are arguments.
\<close>

section \<open>Tables\<close>

record composition_row =
  cr_id :: string
  cr_workspace :: string
  cr_scope :: string
  cr_number :: int
  cr_mode :: routing_mode
  cr_based :: "string option"
  cr_digest :: string
  cr_creator :: "string option"
  cr_created :: string
  cr_published :: "string option"
  cr_withdrawn :: "string option"

record node_row =
  nr_revision :: string
  nr_id :: string
  nr_kind :: node_kind
  nr_label :: "string option"
  nr_resource :: "string option"
  nr_config :: json
  nr_bindings :: "json list"
  nr_grants :: "string list"
  nr_activation :: json_object
  nr_context :: json_object

record port_row =
  pr_revision :: string
  pr_id :: string
  pr_node :: string
  pr_name :: string
  pr_direction :: direction
  pr_events :: "string list"
  pr_artefacts :: "string list"
  pr_schema_ref :: "string option"
  pr_min :: int
  pr_max :: "int option"
  pr_schema :: "json option"

record edge_row =
  er_revision :: string
  er_id :: string
  er_source :: string
  er_target :: string
  er_enabled :: bool
  er_priority :: int
  er_policy :: json

record execution_row =
  xr_id :: string
  xr_workspace :: string
  xr_scope :: string
  xr_revision :: string
  xr_status :: string

record comp_db =
  cd_revisions :: "composition_row list"
  cd_nodes :: "node_row list"
  cd_ports :: "port_row list"
  cd_edges :: "edge_row list"
  cd_scopes :: "scope_row list"
  cd_executions :: "execution_row list option"

definition empty_compositions :: comp_db where
  "empty_compositions = \<lparr>cd_revisions = [], cd_nodes = [], cd_ports = [], cd_edges = [], cd_scopes = [], cd_executions = None\<rparr>"

section \<open>Content\<close>

definition node_columns :: "string \<Rightarrow> placement \<Rightarrow> node_row" where
  "node_columns i n = \<lparr>nr_revision = i, nr_id = nd_id n, nr_kind = nd_kind n, nr_label = nd_label n, nr_resource = nd_resource n,
     nr_config = or_empty (nd_config n), nr_bindings = or_nil (nd_bindings n), nr_grants = or_nil (nd_grants n),
     nr_activation = or_nil (nd_activation n), nr_context = or_nil (nd_context n)\<rparr>"

definition port_columns :: "string \<Rightarrow> scope_port \<Rightarrow> port_row" where
  "port_columns i p = \<lparr>pr_revision = i, pr_id = sp_id p, pr_node = sp_node p, pr_name = sp_name p, pr_direction = sp_direction p,
     pr_events = or_nil (sp_events p), pr_artefacts = or_nil (sp_artefacts p), pr_schema_ref = sp_schema_ref p, pr_min = min_of p,
     pr_max = max_of p, pr_schema = (if json_truthy (sp_schema p) then sp_schema p else None)\<rparr>"

definition edge_columns :: "string \<Rightarrow> scope_edge \<Rightarrow> edge_row" where
  "edge_columns i e = \<lparr>er_revision = i, er_id = ed_id e, er_source = ed_source e, er_target = ed_target e, er_enabled = edge_enabled e,
     er_priority = priority_of e, er_policy = or_empty (ed_policy e)\<rparr>"

primrec insert_rows :: "('r \<Rightarrow> 'k) \<Rightarrow> 'r list \<Rightarrow> 'r list \<Rightarrow> (comp_error, 'r list) result" where
  "insert_rows key [] table = Inr table"
| "insert_rows key (r # rs) table = throw_if (key r \<in> set (map key table)) Comp_Constraint (insert_rows key rs (table @ [r]))"

definition insertContent :: "string \<Rightarrow> composition \<Rightarrow> comp_db \<Rightarrow> (comp_error, comp_db) result" where
  "insertContent i c db =
     rbind (insert_rows (\<lambda>r. (nr_revision r, nr_id r)) (map (node_columns i) (ct_nodes c)) (cd_nodes db)) (\<lambda>ns.
     rbind (insert_rows (\<lambda>r. (pr_revision r, pr_id r)) (map (port_columns i) (ct_ports c)) (cd_ports db)) (\<lambda>ps.
     rbind (insert_rows (\<lambda>r. (er_revision r, er_id r)) (map (edge_columns i) (ct_edges c)) (cd_edges db)) (\<lambda>es.
     Inr (db\<lparr>cd_nodes := ns, cd_ports := ps, cd_edges := es\<rparr>))))"

definition deleteContent :: "string \<Rightarrow> comp_db \<Rightarrow> comp_db" where
  "deleteContent i db = db\<lparr>cd_nodes := filter (\<lambda>r. nr_revision r \<noteq> i) (cd_nodes db), cd_ports := filter (\<lambda>r. pr_revision r \<noteq> i) (cd_ports db),
     cd_edges := filter (\<lambda>r. er_revision r \<noteq> i) (cd_edges db)\<rparr>"

definition nonempty_object :: "json_object \<Rightarrow> json_object option" where
  "nonempty_object o' = (if o' = [] then None else Some o')"

definition read_node :: "node_row \<Rightarrow> placement" where
  "read_node r = \<lparr>nd_id = nr_id r, nd_kind = nr_kind r, nd_label = nonempty_text (nr_label r), nd_resource = nonempty_text (nr_resource r),
     nd_config = Some (nr_config r), nd_bindings = Some (nr_bindings r), nd_grants = Some (nr_grants r),
     nd_activation = nonempty_object (nr_activation r), nd_context = nonempty_object (nr_context r)\<rparr>"

definition read_port :: "port_row \<Rightarrow> scope_port" where
  "read_port r = \<lparr>sp_id = pr_id r, sp_node = pr_node r, sp_name = pr_name r, sp_direction = pr_direction r, sp_events = Some (pr_events r),
     sp_artefacts = Some (pr_artefacts r), sp_schema_ref = pr_schema_ref r, sp_schema = pr_schema r, sp_min = Some (pr_min r), sp_max = Some (pr_max r)\<rparr>"

definition read_edge :: "edge_row \<Rightarrow> scope_edge" where
  "read_edge r = \<lparr>ed_id = er_id r, ed_source = er_source r, ed_target = er_target r, ed_enabled = Some (er_enabled r),
     ed_priority = Some (er_priority r), ed_policy = Some (er_policy r)\<rparr>"

text \<open>Nodes and Ports are read in the order they were inserted, Edges by their priority first.\<close>

definition content_of :: "comp_db \<Rightarrow> string \<Rightarrow> composition" where
  "content_of db i = \<lparr>ct_nodes = map read_node (filter (\<lambda>r. nr_revision r = i) (cd_nodes db)),
     ct_ports = map read_port (filter (\<lambda>r. pr_revision r = i) (cd_ports db)),
     ct_edges = map read_edge (js_sort (\<lambda>l r. er_priority l - er_priority r) (filter (\<lambda>r. er_revision r = i) (cd_edges db)))\<rparr>"

definition rowToRevision :: "comp_db \<Rightarrow> composition_row \<Rightarrow> revision" where
  "rowToRevision db r = \<lparr>re_id = cr_id r, re_workspace = cr_workspace r, re_scope = cr_scope r, re_number = cr_number r, re_mode = cr_mode r,
     re_based = cr_based r, re_digest = cr_digest r, re_creator = cr_creator r, re_created = cr_created r, re_published = cr_published r,
     re_withdrawn = cr_withdrawn r, re_content = content_of db (cr_id r)\<rparr>"

definition getRevision :: "comp_db \<Rightarrow> string \<Rightarrow> revision option" where
  "getRevision db i = map_option (rowToRevision db) (row_where (\<lambda>r. cr_id r = i) (cd_revisions db))"

definition getPublishedRevision :: "comp_db \<Rightarrow> string \<Rightarrow> string \<Rightarrow> revision option" where
  "getPublishedRevision db w s = (case getScope (cd_scopes db) w s of None \<Rightarrow> None
     | Some so \<Rightarrow> (case so_published so of None \<Rightarrow> None | Some i \<Rightarrow> getRevision db i))"

definition listRevisions :: "comp_db \<Rightarrow> string \<Rightarrow> string \<Rightarrow> revision list" where
  "listRevisions db w s = map (rowToRevision db) (js_sort (\<lambda>l r. cr_number r - cr_number l)
     (filter (\<lambda>r. cr_workspace r = w \<and> cr_scope r = s) (cd_revisions db)))"

text \<open>A timestamp column is tested for truthiness.\<close>

definition stamped :: "string option \<Rightarrow> bool" where
  "stamped t = (case t of None \<Rightarrow> False | Some v \<Rightarrow> v \<noteq> [])"

section \<open>Drafts\<close>

record draft_input =
  dr_workspace :: string
  dr_scope :: string
  dr_mode :: "routing_mode option"
  dr_based :: "string option"
  dr_creator :: "string option"
  dr_content :: composition
  dr_id :: "string option"

definition next_number :: "comp_db \<Rightarrow> string \<Rightarrow> string \<Rightarrow> int" where
  "next_number db w s = (let ns = map cr_number (filter (\<lambda>r. cr_workspace r = w \<and> cr_scope r = s) (cd_revisions db)) in
     (if ns = [] then 0 else Max (set ns)) + 1)"

definition insert_revision :: "composition_row \<Rightarrow> comp_db \<Rightarrow> (comp_error, comp_db) result" where
  "insert_revision r db = throw_if (list_ex (\<lambda>x. cr_id x = cr_id r \<or> cr_workspace x = cr_workspace r \<and> cr_scope x = cr_scope r \<and> cr_number x = cr_number r)
       (cd_revisions db)) Comp_Constraint (Inr (db\<lparr>cd_revisions := cd_revisions db @ [r]\<rparr>))"

definition draft_row :: "platform \<Rightarrow> string \<Rightarrow> string \<Rightarrow> draft_input \<Rightarrow> comp_db \<Rightarrow> composition_row" where
  "draft_row js now i inp db = \<lparr>cr_id = i, cr_workspace = dr_workspace inp, cr_scope = dr_scope inp, cr_number = next_number db (dr_workspace inp) (dr_scope inp),
     cr_mode = (case dr_mode inp of None \<Rightarrow> Edge_Routing | Some m \<Rightarrow> m), cr_based = dr_based inp, cr_digest = scopeCompositionDigest js (dr_content inp),
     cr_creator = dr_creator inp, cr_created = now, cr_published = None, cr_withdrawn = None\<rparr>"

definition createDraft ::
  "platform \<Rightarrow> (json \<Rightarrow> string option) \<Rightarrow> string \<Rightarrow> string \<Rightarrow> draft_input \<Rightarrow> comp_db \<Rightarrow> (comp_error, revision \<times> comp_db) result" where
  "createDraft js compile now fresh inp db = (let i = (case dr_id inp of None \<Rightarrow> fresh | Some v \<Rightarrow> v); row = draft_row js now i inp db in
     rbind (validateScopeComposition compile (dr_content inp) (cr_mode row)) (\<lambda>_.
     rbind (insert_revision row db) (\<lambda>db1.
     rbind (insertContent i (dr_content inp) db1) (\<lambda>db2. Inr (the (getRevision db2 i), db2)))))"

definition replaceDraft ::
  "platform \<Rightarrow> (json \<Rightarrow> string option) \<Rightarrow> string \<Rightarrow> composition \<Rightarrow> string option \<Rightarrow> comp_db \<Rightarrow> (comp_error, revision \<times> comp_db) result" where
  "replaceDraft js compile i c expected db = (case getRevision db i of None \<Rightarrow> Inl (Comp_Not_Found i)
     | Some old \<Rightarrow> throw_if (stamped (re_published old)) (Comp_Immutable i)
        (rbind (validateScopeComposition compile c (re_mode old)) (\<lambda>_.
         throw_if (expected \<noteq> None \<and> expected \<noteq> Some (re_digest old)) (Comp_Conflict (re_scope old) expected (Some (re_digest old)))
         (rbind (insertContent i c (deleteContent i db)) (\<lambda>db1.
          let db2 = db1\<lparr>cd_revisions := set_where (\<lambda>r. cr_id r = i) (\<lambda>r. r\<lparr>cr_digest := scopeCompositionDigest js c\<rparr>) (cd_revisions db1)\<rparr> in
          Inr (the (getRevision db2 i), db2))))))"

definition withdrawDraft :: "string \<Rightarrow> string \<Rightarrow> comp_db \<Rightarrow> (comp_error, revision \<times> comp_db) result" where
  "withdrawDraft now i db = (case getRevision db i of None \<Rightarrow> Inl (Comp_Not_Found i)
     | Some r \<Rightarrow> throw_if (stamped (re_published r)) (Comp_Immutable i)
        (let db' = (if stamped (re_withdrawn r) then db
              else db\<lparr>cd_revisions := set_where (\<lambda>r. cr_id r = i) (\<lambda>r. r\<lparr>cr_withdrawn := Some now\<rparr>) (cd_revisions db)\<rparr>) in
         Inr (the (getRevision db' i), db')))"

section \<open>Publication\<close>

record impact =
  im_changes :: change_set
  im_current :: "string list"
  im_target :: "string list"

definition active_statuses :: "string list" where
  "active_statuses = [''queued'', ''active'', ''waiting_external'', ''pausing'', ''paused'', ''blocked'']"

definition differences_json :: "differences \<Rightarrow> json" where
  "differences_json d = JObj [(''added'', jtexts (df_added d)), (''removed'', jtexts (df_removed d)), (''changed'', jtexts (df_changed d))]"

definition impact_json :: "impact \<Rightarrow> json" where
  "impact_json m = (let c = im_changes m in JObj [(''from_revision_id'', jopt JStr (cs_from c)), (''to_revision_id'', JStr (cs_to c)),
     (''from_semantic_digest'', jopt JStr (cs_from_digest c)), (''to_semantic_digest'', JStr (cs_to_digest c)),
     (''nodes'', differences_json (cs_nodes c)), (''ports'', differences_json (cs_ports c)), (''edges'', differences_json (cs_edges c)),
     (''active_execution_ids_pinned_to_current'', jtexts (im_current m)), (''active_execution_ids_pinned_to_target'', jtexts (im_target m))])"

definition assessImpact :: "platform \<Rightarrow> string \<Rightarrow> comp_db \<Rightarrow> (comp_error, impact \<times> string) result" where
  "assessImpact js i db = (case getRevision db i of None \<Rightarrow> Inl (Comp_Not_Found i)
     | Some target \<Rightarrow>
        (let current = getPublishedRevision db (re_workspace target) (re_scope target);
             active = js_sort (\<lambda>l r. binary_compare (xr_id l) (xr_id r)) (filter (\<lambda>x. xr_workspace x = re_workspace target \<and> xr_scope x = re_scope target
               \<and> xr_status x \<in> set active_statuses) (or_nil (cd_executions db)));
             m = \<lparr>im_changes = compareScopeCompositionRevisions js current target,
               im_current = map xr_id (filter (\<lambda>x. Some (xr_revision x) = map_option re_id current) active),
               im_target = map xr_id (filter (\<lambda>x. xr_revision x = re_id target) active)\<rparr> in
         Inr (m, json_digest js (impact_json m))))"

text \<open>An expected pointer may be left out (\<^const>\<open>None\<close>) or null (\<^term>\<open>Some None\<close>).\<close>

definition publishDraft ::
  "platform \<Rightarrow> (json \<Rightarrow> string option) \<Rightarrow> string \<Rightarrow> string \<Rightarrow> string option option \<Rightarrow> string option \<Rightarrow> comp_db
    \<Rightarrow> (comp_error, revision \<times> comp_db) result" where
  "publishDraft js compile now i expected expectedImpact db = (case getRevision db i of None \<Rightarrow> Inl (Comp_Not_Found i)
     | Some r \<Rightarrow>
        if stamped (re_published r) then
          throw_if (map_option re_id (getPublishedRevision db (re_workspace r) (re_scope r)) \<noteq> Some (re_id r)) (Comp_Immutable (re_id r)) (Inr (r, db))
        else throw_if (stamped (re_withdrawn r)) (Comp_Invalid ''the revision is a withdrawn draft'')
          (rbind (validateScopeComposition compile (re_content r) (re_mode r)) (\<lambda>_.
           case getScope (cd_scopes db) (re_workspace r) (re_scope r) of None \<Rightarrow> Inl (Comp_Invalid ''the Scope does not exist'')
           | Some so \<Rightarrow>
              throw_if (expected \<noteq> None \<and> expected \<noteq> Some (so_published so)) (Comp_Conflict (re_scope r) (the expected) (so_published so))
              (rbind (assessImpact js (re_id r) db) (\<lambda>(m, dg).
               throw_if (expectedImpact \<noteq> None \<and> expectedImpact \<noteq> Some dg) (Comp_Impact_Conflict (the expectedImpact) dg)
               (let db' = db\<lparr>cd_revisions := set_where (\<lambda>x. cr_id x = re_id r \<and> cr_published x = None) (\<lambda>x. x\<lparr>cr_published := Some now\<rparr>) (cd_revisions db),
                     cd_scopes := set_where (scope_at (re_workspace r) (re_scope r)) (\<lambda>x. x\<lparr>so_published := Some (re_id r), so_updated := now\<rparr>) (cd_scopes db)\<rparr> in
                Inr (the (getRevision db' (re_id r)), db')))))))"

definition rollbackPublishedRevision ::
  "platform \<Rightarrow> string \<Rightarrow> string \<Rightarrow> string \<Rightarrow> string \<Rightarrow> comp_db \<Rightarrow> (comp_error, revision \<times> comp_db) result" where
  "rollbackPublishedRevision js now i expected expectedImpact db = (case getRevision db i of None \<Rightarrow> Inl (Comp_Not_Found i)
     | Some target \<Rightarrow>
        throw_if (\<not> stamped (re_published target) \<or> stamped (re_withdrawn target)) (Comp_Invalid ''the rollback target is not a retained published revision'')
        (let w = re_workspace target; s = re_scope target; current = map_option re_id (getPublishedRevision db w s) in
         throw_if (current \<noteq> Some expected) (Comp_Conflict s (Some expected) current)
         (rbind (assessImpact js (re_id target) db) (\<lambda>(m, dg).
          throw_if (dg \<noteq> expectedImpact) (Comp_Impact_Conflict expectedImpact dg)
          (if current = Some (re_id target) then Inr (target, db)
           else let db' = db\<lparr>cd_scopes := set_where (\<lambda>x. scope_at w s x \<and> so_published x = current)
                      (\<lambda>x. x\<lparr>so_published := Some (re_id target), so_updated := now\<rparr>) (cd_scopes db)\<rparr>;
                    updated = getPublishedRevision db' w s in
                throw_if (map_option re_id updated \<noteq> Some (re_id target)) (Comp_Conflict s current (map_option re_id updated))
                (Inr (the updated, db')))))))"

section \<open>Copies\<close>

definition cloneRevision ::
  "platform \<Rightarrow> (json \<Rightarrow> string option) \<Rightarrow> string \<Rightarrow> string \<Rightarrow> string \<Rightarrow> string \<Rightarrow> string \<Rightarrow> string option \<Rightarrow> comp_db
    \<Rightarrow> (comp_error, revision \<times> comp_db) result" where
  "cloneRevision js compile now fresh i w s creator db = (case getRevision db i of None \<Rightarrow> Inl (Comp_Not_Found i)
     | Some source \<Rightarrow> throw_if (getScope (cd_scopes db) w s = None) (Comp_Invalid ''the target Scope does not exist'')
        (createDraft js compile now fresh \<lparr>dr_workspace = w, dr_scope = s, dr_mode = Some (re_mode source), dr_based = Some (re_id source),
           dr_creator = creator, dr_content = re_content source, dr_id = None\<rparr> db))"

record portable =
  pt_format :: string
  pt_version :: int
  pt_workspace :: string
  pt_scope :: string
  pt_revision :: string
  pt_number :: int
  pt_mode :: routing_mode
  pt_digest :: string
  pt_content :: composition

definition exportRevision :: "string \<Rightarrow> comp_db \<Rightarrow> (comp_error, portable) result" where
  "exportRevision i db = (case getRevision db i of None \<Rightarrow> Inl (Comp_Not_Found i)
     | Some r \<Rightarrow> Inr \<lparr>pt_format = ''floe.scope-composition'', pt_version = 1, pt_workspace = re_workspace r, pt_scope = re_scope r,
         pt_revision = re_id r, pt_number = re_number r, pt_mode = re_mode r, pt_digest = re_digest r, pt_content = re_content r\<rparr>)"

definition digest_mismatch :: string where
  "digest_mismatch = ''portable Scope composition digest does not match its content''"

definition importRevision ::
  "platform \<Rightarrow> (json \<Rightarrow> string option) \<Rightarrow> string \<Rightarrow> string \<Rightarrow> string \<Rightarrow> string \<Rightarrow> portable \<Rightarrow> string option \<Rightarrow> comp_db
    \<Rightarrow> (comp_error, revision \<times> comp_db) result" where
  "importRevision js compile now fresh w s pt creator db =
     throw_if (pt_format pt \<noteq> ''floe.scope-composition'' \<or> pt_version pt \<noteq> 1) (Comp_Invalid ''unsupported portable Scope composition format'')
     (rbind (validateScopeComposition compile (pt_content pt) (pt_mode pt)) (\<lambda>_.
      throw_if (scopeCompositionDigest js (pt_content pt) \<noteq> pt_digest pt) (Comp_Invalid digest_mismatch)
      (createDraft js compile now fresh \<lparr>dr_workspace = w, dr_scope = s, dr_mode = Some (pt_mode pt), dr_based = None,
         dr_creator = creator, dr_content = pt_content pt, dr_id = None\<rparr> db)))"

text \<open>What \<^verbatim>\<open>applyScopeCompositionSchema\<close> does to existing rows at every start of the Bus.\<close>

definition retainDigests :: "platform \<Rightarrow> comp_db \<Rightarrow> comp_db" where
  "retainDigests js db = db\<lparr>cd_revisions := map (\<lambda>r. r\<lparr>cr_digest := scopeCompositionDigest js (content_of db (cr_id r))\<rparr>) (cd_revisions db)\<rparr>"

section \<open>Steps\<close>

inductive composition_step :: "platform \<Rightarrow> (json \<Rightarrow> string option) \<Rightarrow> comp_db \<Rightarrow> comp_db \<Rightarrow> bool" for js compile where
  create: "createDraft js compile now fresh inp db = Inr (r, db') \<Longrightarrow> composition_step js compile db db'"
| replace: "replaceDraft js compile i c expected db = Inr (r, db') \<Longrightarrow> composition_step js compile db db'"
| withdraw: "withdrawDraft now i db = Inr (r, db') \<Longrightarrow> now \<noteq> [] \<Longrightarrow> composition_step js compile db db'"
| publish: "publishDraft js compile now i expected impact db = Inr (r, db') \<Longrightarrow> now \<noteq> [] \<Longrightarrow> composition_step js compile db db'"
| rollback: "rollbackPublishedRevision js now i expected impact db = Inr (r, db') \<Longrightarrow> composition_step js compile db db'"
| clone: "cloneRevision js compile now fresh i w s creator db = Inr (r, db') \<Longrightarrow> composition_step js compile db db'"
| import: "importRevision js compile now fresh w s pt creator db = Inr (r, db') \<Longrightarrow> composition_step js compile db db'"
| restart: "composition_step js compile db (retainDigests js db)"
| scopes: "scope_change (cd_scopes db) rows \<Longrightarrow> composition_step js compile db (db\<lparr>cd_scopes := rows\<rparr>)"
| executions: "composition_step js compile db (db\<lparr>cd_executions := rows\<rparr>)"

end
