(* ===== verification/Breadth_First.thy ===== *)
theory Breadth_First
  imports Main
begin

text \<open>
  Breadth-first search with depths, as a loop over a queue of nodes and the list of the nodes already
  expanded: the invariant of the loop and what it says when the queue is empty. \<open>bfs_inv\<close> does not mention
  how the loop is written, so every worklist that pops, skips and appends like this one can use it.
\<close>

definition arcs :: "('a \<Rightarrow> 'a list) \<Rightarrow> ('a \<times> 'a) set" where
  "arcs succ = {(p, q). q \<in> set (succ p)}"

definition bfs_inv :: "('a \<Rightarrow> 'a list) \<Rightarrow> 'a \<Rightarrow> ('a \<times> nat) list \<Rightarrow> ('a \<times> nat) list \<Rightarrow> bool" where
  "bfs_inv succ start queue expanded \<longleftrightarrow> distinct (map fst expanded)
     \<and> (\<forall>(p, d) \<in> set queue \<union> set expanded. (start, p) \<in> arcs succ ^^ d)
     \<and> sorted (map snd (expanded @ queue)) \<and> (\<forall>x \<in> set queue. snd x \<le> Suc (snd (hd queue)))
     \<and> (\<forall>(p, d) \<in> set expanded. \<forall>k. (start, p) \<in> arcs succ ^^ k \<longrightarrow> d \<le> k)
     \<and> (\<forall>(p, d) \<in> set expanded. \<forall>q \<in> set (succ p). q \<in> fst ` set expanded \<or> (\<exists>e \<le> Suc d. (q, e) \<in> set queue))
     \<and> (start \<in> fst ` set expanded \<or> (start, 0) \<in> set queue)"

lemma bfs_invI:
  assumes "distinct (map fst expanded)" and "\<And>p d. (p, d) \<in> set queue \<union> set expanded \<Longrightarrow> (start, p) \<in> arcs succ ^^ d"
    and "sorted (map snd (expanded @ queue))" and "\<And>x. x \<in> set queue \<Longrightarrow> snd x \<le> Suc (snd (hd queue))"
    and "\<And>p d k. (p, d) \<in> set expanded \<Longrightarrow> (start, p) \<in> arcs succ ^^ k \<Longrightarrow> d \<le> k"
    and "\<And>p d q. (p, d) \<in> set expanded \<Longrightarrow> q \<in> set (succ p) \<Longrightarrow> q \<in> fst ` set expanded \<or> (\<exists>e \<le> Suc d. (q, e) \<in> set queue)"
    and "start \<in> fst ` set expanded \<or> (start, 0) \<in> set queue"
  shows "bfs_inv succ start queue expanded"
  unfolding bfs_inv_def using assms by (intro conjI ballI) (simp_all only: split_paired_all prod.case, blast+)

lemma bfs_inv_start: "bfs_inv succ start [(start, 0)] []"
  by (simp add: bfs_inv_def)

lemma bfs_inv_skip:
  assumes "bfs_inv succ start ((p, d) # rest) expanded" and "p \<in> fst ` set expanded"
  shows "bfs_inv succ start rest expanded"
proof -
  have "snd x \<le> Suc (snd (hd rest))" if "x \<in> set rest" for x
  proof -
    have "hd rest \<in> set rest" using that by (cases rest) auto
    then have "d \<le> snd (hd rest)" "snd x \<le> Suc d" using assms(1) that by (simp_all add: bfs_inv_def sorted_append)
    then show ?thesis by simp
  qed
  moreover have "q \<in> fst ` set expanded \<or> (\<exists>e \<le> Suc d'. (q, e) \<in> set rest)" if "(p', d') \<in> set expanded" "q \<in> set (succ p')" for p' d' q
  proof -
    have "q \<in> fst ` set expanded \<or> (\<exists>e \<le> Suc d'. (q, e) \<in> set ((p, d) # rest))" using assms(1) that unfolding bfs_inv_def by blast
    with assms(2) show ?thesis by auto
  qed
  moreover have "start \<in> fst ` set expanded \<or> (start, 0) \<in> set rest" using assms by (auto simp: bfs_inv_def)
  moreover have "distinct (map fst expanded)" "sorted (map snd (expanded @ rest))" using assms(1) by (simp_all add: bfs_inv_def sorted_append)
  moreover have "\<forall>(q, e) \<in> set rest \<union> set expanded. (start, q) \<in> arcs succ ^^ e"
    "\<forall>(q, e) \<in> set expanded. \<forall>k. (start, q) \<in> arcs succ ^^ k \<longrightarrow> e \<le> k" using assms(1) by (simp_all add: bfs_inv_def)
  ultimately show ?thesis by (intro bfs_invI) (blast+)
qed

text \<open>Along a chain of arcs from the start there is a node that is still queued, or the chain has been expanded.\<close>

lemma bfs_frontier:
  assumes inv: "bfs_inv succ start queue expanded" and "(start, p) \<in> arcs succ ^^ k"
  shows "(\<exists>d \<le> k. (p, d) \<in> set expanded) \<or> (\<exists>q e. (q, e) \<in> set queue \<and> e \<le> k)"
  using assms(2)
proof (induction k arbitrary: p)
  case 0
  then have "p = start" by simp
  moreover have "d = 0" if "(start, d) \<in> set expanded" for d using inv that unfolding bfs_inv_def by (metis (no_types, lifting) case_prodD le_zero_eq relpow_0_I)
  ultimately show ?case using inv by (force simp: bfs_inv_def)
next
  case (Suc k)
  then obtain r where r: "(start, r) \<in> arcs succ ^^ k" "p \<in> set (succ r)" by (auto simp: arcs_def)
  from Suc.IH [OF r(1)] show ?case
  proof (elim disjE exE conjE)
    fix d assume d: "d \<le> k" "(r, d) \<in> set expanded"
    with inv r(2) have "p \<in> fst ` set expanded \<or> (\<exists>e \<le> Suc d. (p, e) \<in> set queue)" by (fastforce simp: bfs_inv_def)
    then show ?case
    proof
      assume "p \<in> fst ` set expanded"
      then obtain e where e: "(p, e) \<in> set expanded" by auto
      with inv Suc.prems have "e \<le> Suc k" unfolding bfs_inv_def by blast
      with e show ?case by blast
    qed (use d in \<open>meson Suc_le_mono le_trans\<close>)
  qed (meson le_Suc_eq)
qed

lemma bfs_inv_expand:
  assumes inv: "bfs_inv succ start ((p, d) # rest) expanded" and new: "p \<notin> fst ` set expanded"
  shows "bfs_inv succ start (rest @ map (\<lambda>q. (q, Suc d)) (succ p)) (expanded @ [(p, d)])"
proof -
  let ?next = "map (\<lambda>q. (q, Suc d)) (succ p)"
  from inv have rest: "\<forall>x \<in> set rest. d \<le> snd x \<and> snd x \<le> Suc d" and p: "(start, p) \<in> arcs succ ^^ d"
    by (auto simp: bfs_inv_def sorted_append)
  have "(start, q) \<in> arcs succ ^^ Suc d" if "q \<in> set (succ p)" for q using p that by (auto simp: arcs_def)
  then have 1: "\<forall>(q, e) \<in> set (rest @ ?next) \<union> set (expanded @ [(p, d)]). (start, q) \<in> arcs succ ^^ e"
    using inv by (auto simp: bfs_inv_def)
  have "map snd ?next = replicate (length (succ p)) (Suc d)" by (simp add: map_replicate_const comp_def)
  moreover have "sorted (map snd expanded @ d # map snd rest)" using inv by (simp add: bfs_inv_def)
  ultimately have 2: "sorted (map snd ((expanded @ [(p, d)]) @ rest @ ?next))" using rest
    by (auto simp: sorted_append simp del: map_map)
  have 3: "snd x \<le> Suc (snd (hd (rest @ ?next)))" if "x \<in> set (rest @ ?next)" for x
  proof (cases rest)
    case Nil
    with that show ?thesis by (cases "succ p") auto
  next
    case (Cons y ys)
    with rest have "d \<le> snd y" by simp
    with that rest Cons show ?thesis by auto
  qed
  have 4: "d \<le> k" if "(start, p) \<in> arcs succ ^^ k" for k
    using bfs_frontier [OF inv that] inv new by (force simp: bfs_inv_def sorted_append image_iff)
  have 5: "q \<in> fst ` set (expanded @ [(p, d)]) \<or> (\<exists>e \<le> Suc d'. (q, e) \<in> set (rest @ ?next))"
    if "(p', d') \<in> set (expanded @ [(p, d)])" "q \<in> set (succ p')" for p' d' q
  proof (cases "(p', d') = (p, d)")
    case True
    with that show ?thesis by auto
  next
    case False
    with that(1) have "(p', d') \<in> set expanded" by auto
    with that(2) inv have "q \<in> fst ` set expanded \<or> (\<exists>e \<le> Suc d'. (q, e) \<in> set ((p, d) # rest))" unfolding bfs_inv_def by blast
    then show ?thesis by auto
  qed
  have 6: "start \<in> fst ` set (expanded @ [(p, d)]) \<or> (start, 0) \<in> set (rest @ ?next)" using inv by (auto simp: bfs_inv_def)
  show ?thesis
  proof (rule bfs_invI)
    show "e \<le> k" if "(q, e) \<in> set (expanded @ [(p, d)])" "(start, q) \<in> arcs succ ^^ k" for q e k
      using that 4 inv by (auto simp: bfs_inv_def)
    show "distinct (map fst (expanded @ [(p, d)]))" using inv new by (simp add: bfs_inv_def)
  qed (use 1 2 3 5 6 in blast)+
qed

text \<open>With an empty queue the expanded nodes are the reachable ones, each with the length of a shortest chain.\<close>

lemma bfs_inv_done:
  assumes inv: "bfs_inv succ start [] expanded"
  shows "fst ` set expanded = (arcs succ)\<^sup>* `` {start}" and "distinct (map fst expanded)" and "sorted (map snd expanded)"
    and "(p, d) \<in> set expanded \<Longrightarrow> (start, p) \<in> arcs succ ^^ d \<and> (\<forall>k. (start, p) \<in> arcs succ ^^ k \<longrightarrow> d \<le> k)"
proof -
  show "fst ` set expanded = (arcs succ)\<^sup>* `` {start}"
  proof (intro equalityI subsetI)
    fix p assume "p \<in> fst ` set expanded"
    then show "p \<in> (arcs succ)\<^sup>* `` {start}" using inv by (fastforce simp: bfs_inv_def rtrancl_power)
  next
    fix p assume "p \<in> (arcs succ)\<^sup>* `` {start}"
    then obtain k where "(start, p) \<in> arcs succ ^^ k" by (auto simp: rtrancl_power)
    with bfs_frontier [OF inv] show "p \<in> fst ` set expanded" by force
  qed
qed (use inv in \<open>auto simp: bfs_inv_def\<close>)

end
