(* ===== verification/Plan_Search.thy ===== *)
theory Plan_Search
  imports Scope_Plans Breadth_First
begin

text \<open>
  What validation establishes, what a stored composition keeps of it, and the simulation of an Edge
  plan: \<^const>\<open>explore\<close> is a breadth-first search over the output Ports.
\<close>

section \<open>Validation\<close>

lemma each_Inr [result_simps]: "each f xs = Inr y \<longleftrightarrow> (\<forall>x \<in> set xs. f x = Inr ())"
  by (induction xs) (auto simp: result_simps)

lemma require_unique_Inr: "require_unique seen label vs = Inr y \<longleftrightarrow> list_all stable_id vs \<and> distinct vs \<and> set vs \<inter> set seen = {}"
  by (induction vs arbitrary: seen) (auto simp: result_simps)

lemma requireUnique_Inr [result_simps]: "requireUnique vs label = Inr y \<longleftrightarrow> list_all stable_id vs \<and> distinct vs"
  by (simp add: requireUnique_def require_unique_Inr)

definition schema_ok :: "(json \<Rightarrow> string option) \<Rightarrow> scope_port \<Rightarrow> bool" where
  "schema_ok compile p \<longleftrightarrow> sp_schema p = None \<or> sp_schema p = Some JNull
     \<or> (\<exists>o'. sp_schema p = Some (JObj o') \<and> sp_direction p = Output_Port \<and> compile (JObj o') = None)"

lemma validate_port_Inr [result_simps]: "validate_port compile nodes p = Inr y \<longleftrightarrow>
    (\<exists>n \<in> set nodes. nd_id n = sp_node p) \<and> 0 \<le> min_of p \<and> min_of p \<le> checked_max p \<and> schema_ok compile p"
  by (auto simp: validate_port_def schema_ok_def result_simps list_ex_iff not_less split: option.splits json.splits)

definition edge_ok :: "scope_port list \<Rightarrow> scope_edge \<Rightarrow> bool" where
  "edge_ok ports e \<longleftrightarrow> (\<exists>s \<in> set ports. \<exists>t \<in> set ports. sp_id s = ed_source e \<and> sp_id t = ed_target e \<and> sp_direction s = Output_Port
     \<and> sp_direction t = Input_Port \<and> contractsOverlap (sp_events s) (sp_events t) \<and> contractsOverlap (sp_artefacts s) (sp_artefacts t))"

lemma port_of_iff: "distinct (map sp_id ports) \<Longrightarrow> port_of ports i = Some p \<longleftrightarrow> p \<in> set ports \<and> sp_id p = i"
  by (induction ports) (auto simp: port_of_def)

lemma validate_edge_Inr:
  assumes "distinct (map sp_id ports)"
  shows "validate_edge ports e = Inr y \<longleftrightarrow> edge_ok ports e"
proof -
  have "edge_ok ports e \<longleftrightarrow> (\<exists>s t. port_of ports (ed_source e) = Some s \<and> port_of ports (ed_target e) = Some t \<and> sp_direction s = Output_Port
     \<and> sp_direction t = Input_Port \<and> contractsOverlap (sp_events s) (sp_events t) \<and> contractsOverlap (sp_artefacts s) (sp_artefacts t))"
    using assms by (auto simp: edge_ok_def port_of_iff)
  then show ?thesis by (auto simp: validate_edge_def result_simps split: option.splits)
qed

definition structure_ok :: "composition \<Rightarrow> bool" where
  "structure_ok c \<longleftrightarrow> ct_nodes c \<noteq> [] \<and> list_all stable_id (map nd_id (ct_nodes c)) \<and> distinct (map nd_id (ct_nodes c))
     \<and> list_all stable_id (map sp_id (ct_ports c)) \<and> distinct (map sp_id (ct_ports c))
     \<and> list_all stable_id (map ed_id (ct_edges c)) \<and> distinct (map ed_id (ct_edges c))
     \<and> (\<forall>p \<in> set (ct_ports c). \<exists>n \<in> set (ct_nodes c). nd_id n = sp_node p) \<and> (\<forall>e \<in> set (ct_edges c). edge_ok (ct_ports c) e)"

definition nodes_ok :: "composition \<Rightarrow> routing_mode \<Rightarrow> bool" where
  "nodes_ok c routing \<longleftrightarrow> (\<forall>n \<in> set (ct_nodes c). list_all stable_id (or_nil (nd_grants n)) \<and> distinct (or_nil (nd_grants n))
     \<and> validateNodePolicies n (ct_ports c) routing = Inr ())"

lemma validate_Inr: "validateScopeComposition compile c routing = Inr y \<longleftrightarrow> structure_ok c \<and> nodes_ok c routing
    \<and> (\<forall>p \<in> set (ct_ports c). 0 \<le> min_of p \<and> min_of p \<le> checked_max p \<and> schema_ok compile p)"
  unfolding validateScopeComposition_def structure_ok_def nodes_ok_def
  by (auto simp: result_simps validate_edge_Inr)

section \<open>The plan of a content\<close>

definition succ_ports :: "platform \<Rightarrow> composition \<Rightarrow> string \<Rightarrow> string list" where
  "succ_ports js c p = concat (map (\<lambda>e. map sp_id (output_ports js c (nd_id (target_node c e)))) (outgoing js c p))"

definition plan_reads :: "platform \<Rightarrow> composition \<Rightarrow> string \<Rightarrow> (string \<times> nat) list \<Rightarrow> plan \<Rightarrow> bool" where
  "plan_reads js c ingress ex pl \<longleftrightarrow> pn_expanded pl = map fst ex
     \<and> pn_steps pl = concat (map (\<lambda>(p, d). map (step_of c d) (outgoing js c p)) ex)
     \<and> distinct (pn_nodes pl) \<and> set (pn_nodes pl) = insert ingress (\<Union>p \<in> fst ` set ex. (\<lambda>e. nd_id (target_node c e)) ` set (outgoing js c p))
     \<and> distinct (pn_edges pl) \<and> set (pn_edges pl) = (\<Union>p \<in> fst ` set ex. ed_id ` set (outgoing js c p))
     \<and> distinct (pn_terminal pl) \<and> set (pn_terminal pl) = {p \<in> fst ` set ex. outgoing js c p = []}"

lemma set_set_add [simp]: "set (set_add x xs) = insert x (set xs)" "distinct (set_add x xs) = distinct xs"
  by (auto simp: set_add_def)

lemma fold_follow:
  "pn_steps (fold (follow js c d) es pl) = pn_steps pl @ map (step_of c d) es"
  "set (pn_nodes (fold (follow js c d) es pl)) = set (pn_nodes pl) \<union> (\<lambda>e. nd_id (target_node c e)) ` set es"
  "distinct (pn_nodes (fold (follow js c d) es pl)) = distinct (pn_nodes pl)"
  "set (pn_edges (fold (follow js c d) es pl)) = set (pn_edges pl) \<union> ed_id ` set es"
  "distinct (pn_edges (fold (follow js c d) es pl)) = distinct (pn_edges pl)"
  "pn_terminal (fold (follow js c d) es pl) = pn_terminal pl"
  by (induction es arbitrary: pl) (auto simp: follow_def Let_def)

lemma expand_queue: "pn_queue (expand js c p d pl) = pn_queue pl @ map (\<lambda>q. (q, Suc d)) (succ_ports js c p)"
  by (simp add: expand_def Let_def fold_follow_queue succ_ports_def map_concat comp_def)

lemma expand_reads:
  assumes "plan_reads js c ingress ex pl" and "p \<notin> fst ` set ex"
  shows "plan_reads js c ingress (ex @ [(p, d)]) (expand js c p d pl)"
  using assms unfolding plan_reads_def expand_def Let_def by (auto simp: fold_follow fold_follow_expanded)

lemma plan_reads_queue [simp]: "plan_reads js c ingress ex (pl\<lparr>pn_queue := q\<rparr>) = plan_reads js c ingress ex pl"
  by (simp add: plan_reads_def)

lemma explore_reads:
  "bfs_inv (succ_ports js c) out (pn_queue pl) ex \<Longrightarrow> plan_reads js c ingress ex pl
    \<Longrightarrow> \<exists>ex'. bfs_inv (succ_ports js c) out [] ex' \<and> plan_reads js c ingress ex' (explore js c pl)"
proof (induction js c pl arbitrary: ex rule: explore.induct)
  case (1 js c pl)
  show ?case
  proof (cases "pn_queue pl")
    case Nil
    with "1.prems" show ?thesis by (subst explore.simps) auto
  next
    case (Cons x rest)
    obtain p d where x: "x = (p, d)" by (cases x)
    let ?pl = "pl\<lparr>pn_queue := rest\<rparr>"
    have expanded: "set (pn_expanded pl) = fst ` set ex" using "1.prems"(2) by (simp add: plan_reads_def)
    show ?thesis
    proof (cases "p \<in> set (pn_expanded pl)")
      case True
      have "bfs_inv (succ_ports js c) out (pn_queue ?pl) ex"
        using bfs_inv_skip [of "succ_ports js c" out p d rest ex] "1.prems"(1) True expanded Cons x by simp
      from "1.IH"(1) [OF Cons x [symmetric] refl True this] "1.prems"(2) True Cons x show ?thesis by (subst explore.simps) simp
    next
      case False
      have "bfs_inv (succ_ports js c) out (pn_queue (expand js c p d ?pl)) (ex @ [(p, d)])"
        using bfs_inv_expand [of "succ_ports js c" out p d rest ex] "1.prems"(1) False expanded Cons x by (simp add: expand_queue)
      moreover have "plan_reads js c ingress (ex @ [(p, d)]) (expand js c p d ?pl)"
        using "1.prems"(2) False expanded by (intro expand_reads) simp_all
      ultimately show ?thesis using "1.IH"(2) [OF Cons x [symmetric] refl False] False Cons x by (subst explore.simps) simp
    qed
  qed
qed

lemma start_plan_reads: "plan_reads js c ingress [] (start_plan ingress out)"
  by (simp add: plan_reads_def start_plan_def)

section \<open>The plan as a graph\<close>

text \<open>An output Port leads to the output Ports of the Nodes its enabled Edges point at.\<close>

definition live_edge :: "composition \<Rightarrow> string \<Rightarrow> scope_edge \<Rightarrow> bool" where
  "live_edge c p e \<longleftrightarrow> e \<in> set (ct_edges c) \<and> edge_enabled e \<and> ed_source e = p"

definition target_of :: "composition \<Rightarrow> scope_edge \<Rightarrow> string" where
  "target_of c e = sp_node (the (port_of (ct_ports c) (ed_target e)))"

definition plan_arcs :: "composition \<Rightarrow> (string \<times> string) set" where
  "plan_arcs c = {(p, sp_id q) | p q e. live_edge c p e \<and> q \<in> set (ct_ports c) \<and> sp_direction q = Output_Port \<and> sp_node q = target_of c e}"

lemma set_outgoing: "set (outgoing js c p) = {e. live_edge c p e}"
  by (auto simp: outgoing_def live_edge_def)

lemma target_node_id:
  assumes "structure_ok c" and "live_edge c p e"
  shows "nd_id (target_node c e) = target_of c e \<and> target_node c e \<in> set (ct_nodes c)"
proof -
  from assms obtain t where t: "t \<in> set (ct_ports c)" "sp_id t = ed_target e" by (auto simp: structure_ok_def live_edge_def edge_ok_def)
  then have port: "port_of (ct_ports c) (ed_target e) = Some t" using assms(1) by (simp add: port_of_iff structure_ok_def)
  from t assms(1) have "\<exists>n \<in> set (ct_nodes c). nd_id n = sp_node t" by (auto simp: structure_ok_def)
  then obtain n where "find (\<lambda>n. nd_id n = sp_node t) (ct_nodes c) = Some n" by (cases "find (\<lambda>n. nd_id n = sp_node t) (ct_nodes c)") (auto simp: find_None_iff)
  then show ?thesis using port find_SomeD [of "\<lambda>n. nd_id n = sp_node t" "ct_nodes c" n] by (simp add: target_node_def target_of_def)
qed

lemma arcs_succ_ports: "structure_ok c \<Longrightarrow> arcs (succ_ports js c) = plan_arcs c"
  using target_node_id by (fastforce simp: arcs_def succ_ports_def plan_arcs_def set_outgoing output_ports_def image_iff)

section \<open>The steps of a plan\<close>

definition steps_of :: "platform \<Rightarrow> composition \<Rightarrow> (string \<times> nat) list \<Rightarrow> plan_step list" where
  "steps_of js c ex = concat (map (\<lambda>(p, d). map (step_of c d) (outgoing js c p)) ex)"

lemma steps_of_simps [simp]: "steps_of js c [] = []" "steps_of js c ((p, d) # ex) = map (step_of c d) (outgoing js c p) @ steps_of js c ex"
  by (simp_all add: steps_of_def)

lemma step_of_fields: "ps_edge (step_of c d e) = ed_id e" "ps_depth (step_of c d e) = Suc d"
  by (simp_all add: step_of_def Let_def)

lemma ps_edge_steps: "map ps_edge (steps_of js c ex) = concat (map (\<lambda>(p, d). map ed_id (outgoing js c p)) ex)"
  by (induction ex) (auto simp: step_of_fields comp_def)

lemma steps_source:
  assumes "structure_ok c" and "live_edge c p e"
  shows "ps_source_port (step_of c d e) = p"
proof -
  from assms obtain s where "s \<in> set (ct_ports c)" "sp_id s = p" "ed_source e = p" by (auto simp: structure_ok_def live_edge_def edge_ok_def)
  then have "port_of (ct_ports c) (ed_source e) = Some s" using assms(1) by (simp add: port_of_iff structure_ok_def)
  with \<open>sp_id s = p\<close> show ?thesis by (simp add: step_of_def Let_def)
qed

lemma in_steps: "s \<in> set (steps_of js c ex) \<longleftrightarrow> (\<exists>p d e. (p, d) \<in> set ex \<and> live_edge c p e \<and> s = step_of c d e)"
  by (auto simp: steps_of_def set_outgoing)

lemma distinct_outgoing: "structure_ok c \<Longrightarrow> distinct (map ed_id (outgoing js c p))"
  by (simp add: outgoing_def structure_ok_def distinct_map_filter)

lemma live_edge_id: "structure_ok c \<Longrightarrow> live_edge c p e \<Longrightarrow> live_edge c q e' \<Longrightarrow> ed_id e = ed_id e' \<Longrightarrow> p = q"
  unfolding structure_ok_def live_edge_def by (metis inj_on_def distinct_map)

lemma distinct_steps: "structure_ok c \<Longrightarrow> distinct (map fst ex) \<Longrightarrow> distinct (map ps_edge (steps_of js c ex))"
proof (induction ex)
  case (Cons x ex)
  obtain p d where x: "x = (p, d)" by (cases x)
  have "ps_edge ` set (steps_of js c ex) \<inter> ed_id ` {e. live_edge c p e} = {}"
  proof -
    have "ps_edge s \<noteq> ed_id e" if s: "s \<in> set (steps_of js c ex)" and e: "live_edge c p e" for s e
    proof
      assume id: "ps_edge s = ed_id e"
      from s obtain q d' e' where q: "(q, d') \<in> set ex" "live_edge c q e'" "s = step_of c d' e'" by (auto simp: in_steps)
      then have "q = p" using live_edge_id [OF Cons.prems(1) q(2) e] id by (simp add: step_of_fields)
      with q(1) Cons.prems(2) show False by (force simp: x)
    qed
    then show ?thesis by blast
  qed
  with Cons x show ?case using distinct_outgoing [OF Cons.prems(1), of js p]
    by (auto simp: step_of_fields comp_def set_outgoing)
qed simp

lemma sorted_steps: "sorted (map snd ex) \<Longrightarrow> sorted (map ps_depth (steps_of js c ex))"
proof (induction ex)
  case (Cons x ex)
  obtain p d where x: "x = (p, d)" by (cases x)
  have "map ps_depth (map (step_of c d) es) = replicate (length es) (Suc d)" for es by (induction es) (simp_all add: step_of_fields)
  moreover have "Suc d \<le> k" if "k \<in> ps_depth ` set (steps_of js c ex)" for k
    using that Cons.prems by (fastforce simp: in_steps step_of_fields x)
  ultimately show ?case using Cons x by (auto simp: sorted_append simp del: map_map)
qed simp

end
