(* ===== verification/Composition_Invariants.thy ===== *)
theory Composition_Invariants
  imports Composition_Content
begin

text \<open>
  What every operation of the composition store changes and what all of them keep: rows have unique keys,
  every stored content is valid and in stored form, a published revision is never withdrawn, and the
  pointer of a Scope points to one of its own published revisions.
\<close>

section \<open>Content tables\<close>

lemma insert_rows_Inr [result_simps]: "insert_rows key rs t = Inr t' \<longleftrightarrow> t' = t @ rs \<and> distinct (map key rs) \<and> key ` set rs \<inter> key ` set t = {}"
  by (induction rs arbitrary: t) (auto simp: result_simps)

definition no_content :: "string \<Rightarrow> comp_db \<Rightarrow> bool" where
  "no_content i db \<longleftrightarrow> (\<forall>r \<in> set (cd_nodes db). nr_revision r \<noteq> i) \<and> (\<forall>r \<in> set (cd_ports db). pr_revision r \<noteq> i) \<and> (\<forall>r \<in> set (cd_edges db). er_revision r \<noteq> i)"

definition with_content :: "string \<Rightarrow> composition \<Rightarrow> comp_db \<Rightarrow> comp_db" where
  "with_content i c db = db\<lparr>cd_nodes := cd_nodes db @ map (node_columns i) (ct_nodes c), cd_ports := cd_ports db @ map (port_columns i) (ct_ports c),
     cd_edges := cd_edges db @ map (edge_columns i) (ct_edges c)\<rparr>"

lemma column_keys [simp]: "nr_revision (node_columns i n) = i" "pr_revision (port_columns i p) = i" "er_revision (edge_columns i e) = i"
    "nr_id (node_columns i n) = nd_id n" "pr_id (port_columns i p) = sp_id p" "er_id (edge_columns i e) = ed_id e"
  by (simp_all add: node_columns_def port_columns_def edge_columns_def)

lemma distinct_tagged: "distinct (map (\<lambda>x. (i, f x)) xs) = distinct (map f xs)"
  by (induction xs) auto

lemma insertContent_Inr:
  assumes "no_content i db"
  shows "insertContent i c db = Inr db' \<longleftrightarrow> db' = with_content i c db \<and> distinct (map nd_id (ct_nodes c)) \<and> distinct (map sp_id (ct_ports c))
    \<and> distinct (map ed_id (ct_edges c))"
proof -
  have "(\<lambda>r. (nr_revision r, nr_id r)) ` set (map (node_columns i) ns) \<inter> (\<lambda>r. (nr_revision r, nr_id r)) ` set (cd_nodes db) = {}"
    "(\<lambda>r. (pr_revision r, pr_id r)) ` set (map (port_columns i) ps) \<inter> (\<lambda>r. (pr_revision r, pr_id r)) ` set (cd_ports db) = {}"
    "(\<lambda>r. (er_revision r, er_id r)) ` set (map (edge_columns i) es) \<inter> (\<lambda>r. (er_revision r, er_id r)) ` set (cd_edges db) = {}" for ns ps es
    using assms by (auto simp: no_content_def)
  then show ?thesis by (auto simp: insertContent_def with_content_def result_simps distinct_tagged comp_def)
qed

lemma content_of_tables [simp]: "content_of (db\<lparr>cd_revisions := rs\<rparr>) i = content_of db i" "content_of (db\<lparr>cd_scopes := ss\<rparr>) i = content_of db i"
    "content_of (db\<lparr>cd_executions := xs\<rparr>) i = content_of db i"
  by (simp_all add: content_of_def)

lemma filter_columns: "filter (\<lambda>r. nr_revision r = j) (map (node_columns i) ns) = (if i = j then map (node_columns i) ns else [])"
    "filter (\<lambda>r. pr_revision r = j) (map (port_columns i) ps) = (if i = j then map (port_columns i) ps else [])"
    "filter (\<lambda>r. er_revision r = j) (map (edge_columns i) es) = (if i = j then map (edge_columns i) es else [])"
  by (simp_all add: filter_map comp_def)

lemma content_of_with:
  assumes "no_content i db"
  shows "content_of (with_content i c db) j = (if j = i then stored_content c else content_of db j)"
proof -
  have "filter (\<lambda>r. nr_revision r = i) (cd_nodes db) = []" "filter (\<lambda>r. pr_revision r = i) (cd_ports db) = []" "filter (\<lambda>r. er_revision r = i) (cd_edges db) = []"
    using assms by (simp_all add: no_content_def filter_empty_conv)
  then show ?thesis
    by (simp add: content_of_def with_content_def filter_columns stored_content_def columns_by_priority comp_def)
qed

lemma filter_other: "j \<noteq> i \<Longrightarrow> filter (\<lambda>r. f r \<noteq> i \<and> f r = j) rs = filter (\<lambda>r. f r = j) rs"
  by (auto intro: filter_cong)

lemma deleteContent_simps [simp]: "no_content i (deleteContent i db)" "j \<noteq> i \<Longrightarrow> content_of (deleteContent i db) j = content_of db j"
    "cd_revisions (deleteContent i db) = cd_revisions db" "cd_scopes (deleteContent i db) = cd_scopes db"
  by (simp_all add: no_content_def content_of_def deleteContent_def filter_other)

section \<open>The invariant\<close>

definition revision_key :: "composition_row \<Rightarrow> string \<times> string \<times> int" where
  "revision_key r = (cr_workspace r, cr_scope r, cr_number r)"

definition row_ok :: "(json \<Rightarrow> string option) \<Rightarrow> comp_db \<Rightarrow> composition_row \<Rightarrow> bool" where
  "row_ok compile db r \<longleftrightarrow> validateScopeComposition compile (content_of db (cr_id r)) (cr_mode r) = Inr ()
     \<and> stored_content (content_of db (cr_id r)) = content_of db (cr_id r) \<and> (cr_published r \<noteq> None \<longrightarrow> stamped (cr_published r) \<and> cr_withdrawn r = None)
     \<and> (cr_withdrawn r \<noteq> None \<longrightarrow> stamped (cr_withdrawn r))"

definition ids_ok :: "comp_db \<Rightarrow> bool" where
  "ids_ok db \<longleftrightarrow> distinct (map cr_id (cd_revisions db)) \<and> distinct (map revision_key (cd_revisions db))
     \<and> (\<forall>i. i \<notin> cr_id ` set (cd_revisions db) \<longrightarrow> no_content i db)"

definition points_to :: "composition_row \<Rightarrow> scope_row \<Rightarrow> bool" where
  "points_to r so \<longleftrightarrow> so_published so = Some (cr_id r) \<and> cr_workspace r = so_workspace so \<and> cr_scope r = so_scope so \<and> cr_published r \<noteq> None"

definition scopes_ok :: "comp_db \<Rightarrow> bool" where
  "scopes_ok db \<longleftrightarrow> distinct (map scope_key (cd_scopes db))
     \<and> (\<forall>so \<in> set (cd_scopes db). so_published so = None \<or> (\<exists>r \<in> set (cd_revisions db). points_to r so))"

definition comp_inv :: "(json \<Rightarrow> string option) \<Rightarrow> comp_db \<Rightarrow> bool" where
  "comp_inv compile db \<longleftrightarrow> ids_ok db \<and> scopes_ok db \<and> (\<forall>r \<in> set (cd_revisions db). row_ok compile db r)"

lemma comp_inv_empty: "comp_inv compile empty_compositions"
  by (simp add: comp_inv_def ids_ok_def scopes_ok_def empty_compositions_def no_content_def)

lemma getRevision_iff: "ids_ok db \<Longrightarrow> getRevision db i = Some x \<longleftrightarrow> (\<exists>r \<in> set (cd_revisions db). cr_id r = i \<and> x = rowToRevision db r)"
  using row_where_key [of cr_id "cd_revisions db"] by (auto simp: getRevision_def ids_ok_def dest: row_where_SomeD)

lemma getRevision_row: "getRevision db i = Some x \<Longrightarrow> \<exists>r \<in> set (cd_revisions db). cr_id r = i \<and> x = rowToRevision db r"
  unfolding getRevision_def by (auto dest: row_where_SomeD)

lemma rowToRevision_fields [simp]: "re_id (rowToRevision db r) = cr_id r" "re_workspace (rowToRevision db r) = cr_workspace r" "re_scope (rowToRevision db r) = cr_scope r"
    "re_mode (rowToRevision db r) = cr_mode r" "re_digest (rowToRevision db r) = cr_digest r" "re_published (rowToRevision db r) = cr_published r"
    "re_withdrawn (rowToRevision db r) = cr_withdrawn r" "re_content (rowToRevision db r) = content_of db (cr_id r)"
  by (simp_all add: rowToRevision_def)

section \<open>What an operation changes\<close>

definition drafted_db :: "composition_row \<Rightarrow> composition \<Rightarrow> comp_db \<Rightarrow> comp_db" where
  "drafted_db row c db = with_content (cr_id row) c (db\<lparr>cd_revisions := cd_revisions db @ [row]\<rparr>)"

definition redrafted_db :: "string \<Rightarrow> composition \<Rightarrow> string \<Rightarrow> comp_db \<Rightarrow> comp_db" where
  "redrafted_db i c dg db = (with_content i c (deleteContent i db))
     \<lparr>cd_revisions := set_where (\<lambda>r. cr_id r = i) (\<lambda>r. r\<lparr>cr_digest := dg\<rparr>) (cd_revisions db)\<rparr>"

definition published_db :: "string \<Rightarrow> composition_row \<Rightarrow> comp_db \<Rightarrow> comp_db" where
  "published_db now row db = db\<lparr>cd_revisions := set_where (\<lambda>x. cr_id x = cr_id row \<and> cr_published x = None) (\<lambda>x. x\<lparr>cr_published := Some now\<rparr>) (cd_revisions db),
     cd_scopes := set_where (scope_at (cr_workspace row) (cr_scope row)) (\<lambda>x. x\<lparr>so_published := Some (cr_id row), so_updated := now\<rparr>) (cd_scopes db)\<rparr>"

definition rolled_db :: "string \<Rightarrow> composition_row \<Rightarrow> string option \<Rightarrow> comp_db \<Rightarrow> comp_db" where
  "rolled_db now row p db = db\<lparr>cd_scopes := set_where (\<lambda>x. scope_at (cr_workspace row) (cr_scope row) x \<and> so_published x = p)
     (\<lambda>x. x\<lparr>so_published := Some (cr_id row), so_updated := now\<rparr>) (cd_scopes db)\<rparr>"

inductive composition_change :: "platform \<Rightarrow> (json \<Rightarrow> string option) \<Rightarrow> comp_db \<Rightarrow> comp_db \<Rightarrow> bool" for js compile db where
  same: "composition_change js compile db db"
| drafted: "validateScopeComposition compile c (cr_mode row) = Inr () \<Longrightarrow> cr_id row \<notin> cr_id ` set (cd_revisions db)
    \<Longrightarrow> revision_key row \<notin> revision_key ` set (cd_revisions db) \<Longrightarrow> cr_published row = None \<Longrightarrow> cr_withdrawn row = None
    \<Longrightarrow> composition_change js compile db (drafted_db row c db)"
| redrafted: "row \<in> set (cd_revisions db) \<Longrightarrow> cr_published row = None \<Longrightarrow> validateScopeComposition compile c (cr_mode row) = Inr ()
    \<Longrightarrow> composition_change js compile db (redrafted_db (cr_id row) c dg db)"
| withdrawn: "row \<in> set (cd_revisions db) \<Longrightarrow> cr_published row = None \<Longrightarrow> now \<noteq> []
    \<Longrightarrow> composition_change js compile db (db\<lparr>cd_revisions := set_where (\<lambda>r. cr_id r = cr_id row) (\<lambda>r. r\<lparr>cr_withdrawn := Some now\<rparr>) (cd_revisions db)\<rparr>)"
| published: "row \<in> set (cd_revisions db) \<Longrightarrow> cr_published row = None \<Longrightarrow> cr_withdrawn row = None \<Longrightarrow> now \<noteq> []
    \<Longrightarrow> composition_change js compile db (published_db now row db)"
| rolled: "row \<in> set (cd_revisions db) \<Longrightarrow> cr_published row \<noteq> None \<Longrightarrow> composition_change js compile db (rolled_db now row p db)"
| digests: "composition_change js compile db (retainDigests js db)"
| directory: "scope_change (cd_scopes db) rows \<Longrightarrow> composition_change js compile db (db\<lparr>cd_scopes := rows\<rparr>)"
| runs: "composition_change js compile db (db\<lparr>cd_executions := rows\<rparr>)"

lemma composition_draftE:
  assumes inv: "ids_ok db" and run: "createDraft js compile now fresh inp db = Inr (r, db')"
  obtains i row where "i = (case dr_id inp of None \<Rightarrow> fresh | Some v \<Rightarrow> v)" "row = draft_row js now i inp db"
    "validateScopeComposition compile (dr_content inp) (cr_mode row) = Inr ()" "i \<notin> cr_id ` set (cd_revisions db)"
    "revision_key row \<notin> revision_key ` set (cd_revisions db)" "db' = drafted_db row (dr_content inp) db" "getRevision db' i = Some r"
proof -
  define i where "i = (case dr_id inp of None \<Rightarrow> fresh | Some v \<Rightarrow> v)"
  define row where "row = draft_row js now i inp db"
  let ?db = "db\<lparr>cd_revisions := cd_revisions db @ [row]\<rparr>"
  have id: "cr_id row = i" by (simp add: row_def draft_row_def)
  from run have valid: "validateScopeComposition compile (dr_content inp) (cr_mode row) = Inr ()" and ins: "insert_revision row db = Inr ?db"
      and content: "insertContent i (dr_content inp) ?db = Inr db'" and r: "r = the (getRevision db' i)"
    by (auto simp: createDraft_def Let_def result_simps insert_revision_def simp flip: i_def row_def)
  from ins id have fresh: "i \<notin> cr_id ` set (cd_revisions db)" "revision_key row \<notin> revision_key ` set (cd_revisions db)"
    by (auto simp: insert_revision_def result_simps list_ex_iff revision_key_def)
  with inv have "no_content i ?db" by (simp add: ids_ok_def no_content_def)
  with content have db': "db' = drafted_db row (dr_content inp) db" by (simp add: insertContent_Inr drafted_db_def id)
  have "row_where (\<lambda>x. cr_id x = i) (cd_revisions db) = None" using fresh(1) by (force simp: row_where_None_iff)
  then have "row_where (\<lambda>x. cr_id x = i) (cd_revisions db @ [row]) = Some row" using id by (simp add: row_where_append)
  then have "getRevision db' i = Some r" by (simp add: r getRevision_def db' drafted_db_def with_content_def)
  with i_def row_def valid fresh db' show thesis by (rule that)
qed

lemma create_change:
  assumes "ids_ok db" and "createDraft js compile now fresh inp db = Inr (r, db')"
  shows "composition_change js compile db db'"
proof -
  from assms obtain i row where "row = draft_row js now i inp db" "validateScopeComposition compile (dr_content inp) (cr_mode row) = Inr ()"
    "i \<notin> cr_id ` set (cd_revisions db)" "revision_key row \<notin> revision_key ` set (cd_revisions db)" "db' = drafted_db row (dr_content inp) db"
    by (rule composition_draftE)
  then show ?thesis using composition_change.drafted [of compile "dr_content inp" row db js] by (simp add: draft_row_def)
qed

lemma unstamped: "\<forall>r \<in> set (cd_revisions db). row_ok compile db r \<Longrightarrow> row \<in> set (cd_revisions db) \<Longrightarrow> \<not> stamped (cr_published row) \<Longrightarrow> cr_published row = None"
  by (auto simp: row_ok_def)

lemma replace_change:
  assumes inv: "comp_inv compile db" and run: "replaceDraft js compile i c expected db = Inr (r, db')"
  shows "composition_change js compile db db'"
proof -
  from run obtain old where "getRevision db i = Some old" by (auto simp: replaceDraft_def split: option.splits)
  then obtain row where row: "row \<in> set (cd_revisions db)" "cr_id row = i" and old: "old = rowToRevision db row" using getRevision_row by blast
  from run \<open>getRevision db i = Some old\<close> have "\<not> stamped (cr_published row)" "validateScopeComposition compile c (cr_mode row) = Inr ()"
      "db' = redrafted_db i c (scopeCompositionDigest js c) db"
    by (auto simp: replaceDraft_def old result_simps insertContent_Inr Let_def redrafted_db_def with_content_def)
  then show ?thesis using composition_change.redrafted [OF row(1)] unstamped [OF _ row(1)] inv row(2) by (auto simp: comp_inv_def)
qed

lemma withdraw_change:
  assumes inv: "comp_inv compile db" and run: "withdrawDraft now i db = Inr (r, db')" and now: "now \<noteq> []"
  shows "composition_change js compile db db'"
proof -
  from run obtain old where "getRevision db i = Some old" by (auto simp: withdrawDraft_def split: option.splits)
  then obtain row where row: "row \<in> set (cd_revisions db)" "cr_id row = i" and old: "old = rowToRevision db row" using getRevision_row by blast
  from run \<open>getRevision db i = Some old\<close> have "\<not> stamped (cr_published row)"
      "db' = db \<or> db' = db\<lparr>cd_revisions := set_where (\<lambda>r. cr_id r = i) (\<lambda>r. r\<lparr>cr_withdrawn := Some now\<rparr>) (cd_revisions db)\<rparr>"
    by (auto simp: withdrawDraft_def old result_simps Let_def split: if_splits)
  then show ?thesis
    using composition_change.withdrawn [OF row(1) _ now, of js compile] composition_change.same unstamped [OF _ row(1)] inv row(2)
    by (auto simp: comp_inv_def)
qed

lemma publishDraftE:
  assumes "publishDraft js compile now i expected impact db = Inr (r, db')"
  obtains (same) row where "row \<in> set (cd_revisions db)" "cr_id row = i" "stamped (cr_published row)" "db' = db" "r = rowToRevision db row"
      "map_option re_id (getPublishedRevision db (cr_workspace row) (cr_scope row)) = Some i"
  | (moved) row so m dg where "row \<in> set (cd_revisions db)" "cr_id row = i" "\<not> stamped (cr_published row)" "\<not> stamped (cr_withdrawn row)"
      "getScope (cd_scopes db) (cr_workspace row) (cr_scope row) = Some so" "expected = None \<or> expected = Some (so_published so)"
      "assessImpact js i db = Inr (m, dg)" "impact = None \<or> impact = Some dg" "db' = published_db now row db" "r = the (getRevision db' i)"
proof -
  from assms obtain old where found: "getRevision db i = Some old" by (auto simp: publishDraft_def split: option.splits)
  then obtain row where row: "row \<in> set (cd_revisions db)" "cr_id row = i" and old: "old = rowToRevision db row" using getRevision_row by blast
  show thesis
  proof (cases "stamped (cr_published row)")
    case True
    with assms found same [OF row] show thesis by (auto simp: publishDraft_def old result_simps row(2))
  next
    case False
    with assms found obtain so m dg where "\<not> stamped (cr_withdrawn row)" "getScope (cd_scopes db) (cr_workspace row) (cr_scope row) = Some so"
        "expected = None \<or> expected = Some (so_published so)" "assessImpact js i db = Inr (m, dg)" "impact = None \<or> impact = Some dg"
        "db' = published_db now row db" "r = the (getRevision db' i)"
      by (auto simp: publishDraft_def old result_simps Let_def published_db_def row(2) split: option.splits prod.splits)
    then show thesis by (rule moved [OF row False])
  qed
qed

lemma published_id: "getPublishedRevision db w s = Some x \<Longrightarrow> getRevision db (re_id x) = Some x"
  by (auto simp: getPublishedRevision_def split: option.splits) (use getRevision_row in fastforce)

lemma composition_rollbackE:
  assumes "rollbackPublishedRevision js now i expected impact db = Inr (r, db')"
  obtains row where "row \<in> set (cd_revisions db)" "cr_id row = i" "stamped (cr_published row)" "\<not> stamped (cr_withdrawn row)"
    "map_option re_id (getPublishedRevision db (cr_workspace row) (cr_scope row)) = Some expected" "db' = db \<or> db' = rolled_db now row (Some expected) db"
    "getRevision db' i = Some r" "map_option re_id (getPublishedRevision db' (cr_workspace row) (cr_scope row)) = Some i"
proof -
  from assms obtain old where found: "getRevision db i = Some old" by (auto simp: rollbackPublishedRevision_def split: option.splits)
  then obtain row where row: "row \<in> set (cd_revisions db)" "cr_id row = i" and old: "old = rowToRevision db row" using getRevision_row by blast
  let ?w = "cr_workspace row" and ?s = "cr_scope row"
  let ?current = "map_option re_id (getPublishedRevision db ?w ?s)"
  from assms found have ok: "stamped (cr_published row)" "\<not> stamped (cr_withdrawn row)" "?current = Some expected"
      and rest: "if ?current = Some i then db' = db \<and> r = rowToRevision db row
        else db' = rolled_db now row ?current db \<and> map_option re_id (getPublishedRevision db' ?w ?s) = Some i \<and> r = the (getPublishedRevision db' ?w ?s)"
    by (auto simp: rollbackPublishedRevision_def old result_simps Let_def rolled_db_def row(2) split: if_splits prod.splits)
  show thesis
  proof (cases "?current = Some i")
    case True
    with rest found old have "db' = db" "getRevision db' i = Some r" by simp_all
    with True show thesis by (intro that [OF row ok]) simp_all
  next
    case False
    with rest have moved: "db' = rolled_db now row ?current db" "map_option re_id (getPublishedRevision db' ?w ?s) = Some i"
        "r = the (getPublishedRevision db' ?w ?s)" unfolding if_not_P [OF False] by blast+
    then obtain x where x: "getPublishedRevision db' ?w ?s = Some x" "re_id x = i" by blast
    with moved(3) have "getRevision db' i = Some r" using published_id [OF x(1)] by simp
    then show thesis using moved(1,2) ok(3) by (intro that [OF row ok]) simp_all
  qed
qed

lemma rollback_change:
  assumes inv: "comp_inv compile db" and run: "rollbackPublishedRevision js now i expected impact db = Inr (r, db')"
  shows "composition_change js compile db db'"
proof -
  from run obtain row where "row \<in> set (cd_revisions db)" "stamped (cr_published row)" "db' = db \<or> db' = rolled_db now row (Some expected) db" by (rule composition_rollbackE)
  then show ?thesis using composition_change.same composition_change.rolled by (auto simp: stamped_def split: option.splits)
qed

lemma composition_step_change:
  assumes "composition_step js compile db db'" and inv: "comp_inv compile db"
  shows "composition_change js compile db db'"
  using assms(1)
proof cases
  case (publish now i expected impact r)
  from publish(1) show ?thesis
  proof (cases rule: publishDraftE)
    case (moved row so m dg)
    moreover from this inv have "row_ok compile db row" by (simp add: comp_inv_def)
    ultimately show ?thesis using composition_change.published [OF moved(1) _ _ publish(2), of js compile] by (auto simp: row_ok_def)
  qed (simp add: composition_change.same)
next
  case (clone now fresh i w s creator r)
  then show ?thesis using create_change inv by (auto simp: cloneRevision_def comp_inv_def result_simps split: option.splits)
next
  case (import now fresh w s pt creator r)
  then show ?thesis using create_change inv by (auto simp: importRevision_def comp_inv_def result_simps)
next
  case create
  then show ?thesis using create_change inv by (auto simp: comp_inv_def)
next
  case replace
  with inv show ?thesis by (rule replace_change)
next
  case withdraw
  with inv show ?thesis by (rule withdraw_change)
next
  case rollback
  with inv show ?thesis by (rule rollback_change)
next
  case restart
  show ?thesis unfolding restart by (rule composition_change.digests)
next
  case (scopes rows)
  then show ?thesis by (simp add: composition_change.directory)
next
  case (executions rows)
  show ?thesis unfolding executions by (rule composition_change.runs)
qed

section \<open>The invariant is kept\<close>

lemma set_where_revisions:
  assumes "\<And>r. cr_id (f r) = cr_id r \<and> revision_key (f r) = revision_key r"
  shows "map cr_id (set_where P f rs) = map cr_id rs" "map revision_key (set_where P f rs) = map revision_key rs"
    "cr_id ` set (set_where P f rs) = cr_id ` set rs"
proof -
  show ids: "map cr_id (set_where P f rs) = map cr_id rs" and "map revision_key (set_where P f rs) = map revision_key rs"
    using assms by (auto intro: map_set_where)
  from ids show "cr_id ` set (set_where P f rs) = cr_id ` set rs" by (metis set_map)
qed

lemma points_to_map:
  assumes "points_to r so" and "r \<in> set rs" and "\<And>r. cr_id (f r) = cr_id r \<and> revision_key (f r) = revision_key r"
    and "\<And>r. cr_published r \<noteq> None \<Longrightarrow> cr_published (f r) \<noteq> None"
  shows "\<exists>r' \<in> set (set_where P f rs). points_to r' so"
proof -
  have "(if P r then f r else r) \<in> set (set_where P f rs)" using assms(2) by (auto simp: in_set_where)
  moreover have "points_to (if P r then f r else r) so" using assms(1,4) assms(3) [of r] by (simp add: points_to_def revision_key_def)
  ultimately show ?thesis by blast
qed

text \<open>Updating rows without touching their contents.\<close>

lemma comp_inv_rows:
  assumes inv: "comp_inv compile db" and f: "\<And>r. cr_id (f r) = cr_id r \<and> revision_key (f r) = revision_key r \<and> cr_mode (f r) = cr_mode r"
    and ok: "\<And>r. r \<in> set (cd_revisions db) \<Longrightarrow> P r \<Longrightarrow> row_ok compile db r \<Longrightarrow> row_ok compile db (f r)"
    and pub: "\<And>r. cr_published r \<noteq> None \<Longrightarrow> cr_published (f r) \<noteq> None"
  shows "comp_inv compile (db\<lparr>cd_revisions := set_where P f (cd_revisions db)\<rparr>)"
proof -
  have keys: "\<And>r. cr_id (f r) = cr_id r \<and> revision_key (f r) = revision_key r" using f by blast
  have "row_ok compile db r'" if "r' \<in> set (set_where P f (cd_revisions db))" for r'
    using that inv ok by (auto simp: in_set_where comp_inv_def)
  moreover have "row_ok compile (db\<lparr>cd_revisions := rs\<rparr>) r = row_ok compile db r" for rs r by (simp add: row_ok_def)
  moreover have "\<exists>r' \<in> set (set_where P f (cd_revisions db)). points_to r' so" if "r \<in> set (cd_revisions db)" "points_to r so" for r so
    using points_to_map [OF that(2,1) keys pub] .
  moreover have "ids_ok (db\<lparr>cd_revisions := set_where P f (cd_revisions db)\<rparr>)"
    using inv by (simp add: comp_inv_def ids_ok_def no_content_def set_where_revisions [OF keys])
  moreover have "scopes_ok (db\<lparr>cd_revisions := set_where P f (cd_revisions db)\<rparr>)"
    using inv calculation(3) by (simp add: comp_inv_def scopes_ok_def) blast
  ultimately show ?thesis by (simp add: comp_inv_def)
qed

lemma comp_inv_scopes:
  assumes "comp_inv compile db" and "distinct (map scope_key rows)"
    and "\<And>so. so \<in> set rows \<Longrightarrow> so_published so = None \<or> (\<exists>r \<in> set (cd_revisions db). points_to r so)"
  shows "comp_inv compile (db\<lparr>cd_scopes := rows\<rparr>)"
  using assms by (simp add: comp_inv_def ids_ok_def scopes_ok_def no_content_def row_ok_def)

text \<open>Pointing Scopes at one of their published revisions.\<close>

lemma comp_inv_pointer:
  assumes inv: "comp_inv compile db" and row: "row \<in> set (cd_revisions db)" "cr_published row \<noteq> None"
    and P: "\<And>so. P so \<Longrightarrow> so_workspace so = cr_workspace row \<and> so_scope so = cr_scope row"
  shows "comp_inv compile (db\<lparr>cd_scopes := set_where P (\<lambda>x. x\<lparr>so_published := Some (cr_id row), so_updated := now\<rparr>) (cd_scopes db)\<rparr>)"
proof (rule comp_inv_scopes [OF inv])
  let ?rows = "set_where P (\<lambda>x. x\<lparr>so_published := Some (cr_id row), so_updated := now\<rparr>) (cd_scopes db)"
  have "map scope_key ?rows = map scope_key (cd_scopes db)" by (rule map_set_where) simp
  then show "distinct (map scope_key ?rows)" using inv by (simp add: comp_inv_def scopes_ok_def)
  fix so assume "so \<in> set ?rows"
  then obtain old where old: "old \<in> set (cd_scopes db)" "so = (if P old then old\<lparr>so_published := Some (cr_id row), so_updated := now\<rparr> else old)"
    by (auto simp: in_set_where)
  show "so_published so = None \<or> (\<exists>r \<in> set (cd_revisions db). points_to r so)"
  proof (cases "P old")
    case True
    then have "points_to row so" using old(2) P row(2) by (simp add: points_to_def)
    with row(1) show ?thesis by blast
  next
    case False
    then show ?thesis using old inv by (simp add: comp_inv_def scopes_ok_def)
  qed
qed

lemma comp_inv_drafted:
  assumes inv: "comp_inv compile db" and valid: "validateScopeComposition compile c (cr_mode row) = Inr ()"
    and new: "cr_id row \<notin> cr_id ` set (cd_revisions db)" "revision_key row \<notin> revision_key ` set (cd_revisions db)"
    and unpublished: "cr_published row = None" "cr_withdrawn row = None"
  shows "comp_inv compile (drafted_db row c db)"
proof -
  let ?db = "db\<lparr>cd_revisions := cd_revisions db @ [row]\<rparr>"
  have none: "no_content (cr_id row) ?db" using inv new(1) by (simp add: comp_inv_def ids_ok_def no_content_def)
  have tables: "cd_revisions (drafted_db row c db) = cd_revisions db @ [row]" "cd_scopes (drafted_db row c db) = cd_scopes db"
    by (simp_all add: drafted_db_def with_content_def)
  have content: "content_of (drafted_db row c db) j = (if j = cr_id row then stored_content c else content_of db j)" for j
    using content_of_with [OF none] by (simp add: drafted_db_def)
  have "row_ok compile (drafted_db row c db) row"
    using stored_valid [OF valid] unpublished by (simp add: row_ok_def content stored_content_idem)
  moreover have "row_ok compile (drafted_db row c db) r" if "r \<in> set (cd_revisions db)" for r
  proof -
    have "cr_id r \<noteq> cr_id row" using that new(1) by (metis image_eqI)
    with that inv show ?thesis by (simp add: row_ok_def content comp_inv_def)
  qed
  moreover have "no_content j (drafted_db row c db)" if "j \<notin> cr_id ` set (cd_revisions db)" "j \<noteq> cr_id row" for j
    using that inv by (auto simp: no_content_def drafted_db_def with_content_def comp_inv_def ids_ok_def)
  ultimately show ?thesis
    using inv new by (auto simp: comp_inv_def ids_ok_def scopes_ok_def tables)
qed

lemma comp_inv_redrafted:
  assumes inv: "comp_inv compile db" and row: "row \<in> set (cd_revisions db)" and valid: "validateScopeComposition compile c (cr_mode row) = Inr ()"
  shows "comp_inv compile (redrafted_db (cr_id row) c dg db)"
proof -
  let ?i = "cr_id row" and ?d = "with_content (cr_id row) c (deleteContent (cr_id row) db)"
  have content: "content_of ?d j = (if j = ?i then stored_content c else content_of db j)" for j by (simp add: content_of_with)
  have tables: "cd_revisions ?d = cd_revisions db" "cd_scopes ?d = cd_scopes db" by (simp_all add: with_content_def)
  have "row_ok compile ?d r" if "r \<in> set (cd_revisions db)" for r
  proof (cases "cr_id r = ?i")
    case True
    then have "r = row" using that row inv by (auto simp: comp_inv_def ids_ok_def distinct_map inj_on_def)
    with inv row show ?thesis using stored_valid [OF valid] by (simp add: row_ok_def content stored_content_idem comp_inv_def)
  next
    case False
    with that inv show ?thesis by (simp add: row_ok_def content comp_inv_def)
  qed
  moreover have "no_content j ?d" if "j \<notin> cr_id ` set (cd_revisions db)" for j
  proof -
    have "j \<noteq> ?i" using that row by auto
    then show ?thesis using that inv by (auto simp: no_content_def with_content_def deleteContent_def comp_inv_def ids_ok_def)
  qed
  ultimately have "comp_inv compile ?d" using inv by (simp add: comp_inv_def ids_ok_def scopes_ok_def tables)
  from comp_inv_rows [OF this, of "\<lambda>r. r\<lparr>cr_digest := dg\<rparr>" "\<lambda>r. cr_id r = ?i"] show ?thesis
    by (simp add: redrafted_db_def tables revision_key_def row_ok_def)
qed

lemma comp_inv_change: "composition_change js compile db db' \<Longrightarrow> comp_inv compile db \<Longrightarrow> comp_inv compile db'"
proof (induction rule: composition_change.induct)
  case (withdrawn row now)
  have "row_ok compile db (r\<lparr>cr_withdrawn := Some now\<rparr>)" if "r \<in> set (cd_revisions db)" "cr_id r = cr_id row" "row_ok compile db r" for r
  proof -
    have "r = row" using that(1,2) withdrawn by (auto simp: comp_inv_def ids_ok_def distinct_map inj_on_def)
    with that(3) withdrawn(2,3) show ?thesis by (simp add: row_ok_def stamped_def)
  qed
  from comp_inv_rows [OF withdrawn(4), of "\<lambda>r. r\<lparr>cr_withdrawn := Some now\<rparr>" "\<lambda>r. cr_id r = cr_id row"] this show ?case
    by (simp add: revision_key_def)
next
  case (published row now)
  let ?P = "\<lambda>x. cr_id x = cr_id row \<and> cr_published x = None" and ?f = "\<lambda>x. x\<lparr>cr_published := Some now\<rparr>"
  let ?db = "db\<lparr>cd_revisions := set_where ?P ?f (cd_revisions db)\<rparr>"
  have "row_ok compile db (?f r)" if "r \<in> set (cd_revisions db)" "?P r" "row_ok compile db r" for r
  proof -
    have "r = row" using that(1,2) published by (auto simp: comp_inv_def ids_ok_def distinct_map inj_on_def)
    with that(3) published(3,4) show ?thesis by (simp add: row_ok_def stamped_def)
  qed
  with comp_inv_rows [OF published(5), of ?f ?P] have inv: "comp_inv compile ?db" by (simp add: revision_key_def)
  have "?f row \<in> set (cd_revisions ?db)" using published(1,2) by (force simp: in_set_where)
  from comp_inv_pointer [OF inv this, of "scope_at (cr_workspace row) (cr_scope row)" now] show ?case
    by (simp add: published_db_def scope_at_def)
next
  case (rolled row now p)
  then show ?case unfolding rolled_db_def by (intro comp_inv_pointer) (auto simp: scope_at_def)
next
  case digests
  have "retainDigests js db = db\<lparr>cd_revisions := set_where (\<lambda>_. True) (\<lambda>r. r\<lparr>cr_digest := scopeCompositionDigest js (content_of db (cr_id r))\<rparr>) (cd_revisions db)\<rparr>"
    by (simp add: retainDigests_def set_where_def)
  then show ?case using comp_inv_rows [OF digests] by (simp add: revision_key_def row_ok_def)
next
  case (directory rows)
  then have "pointers_kept (cd_scopes db) rows" using scope_change_pointers by (simp add: comp_inv_def scopes_ok_def)
  then show ?case
  proof (intro comp_inv_scopes [OF directory(2)])
    fix so assume "so \<in> set rows"
    then consider "so_published so = None" | old where "old \<in> set (cd_scopes db)" "scope_key old = scope_key so" "so_published old = so_published so"
      using \<open>pointers_kept (cd_scopes db) rows\<close> by (auto simp: pointers_kept_def)
    then show "so_published so = None \<or> (\<exists>r \<in> set (cd_revisions db). points_to r so)"
    proof cases
      case (2 old)
      then have "points_to r old = points_to r so" for r by (simp add: points_to_def scope_key_def)
      with 2 directory(2) show ?thesis by (auto simp: comp_inv_def scopes_ok_def)
    qed simp
  qed (simp add: pointers_kept_def)
next
  case (runs rows)
  then show ?case by (simp add: comp_inv_def ids_ok_def scopes_ok_def no_content_def row_ok_def)
qed (auto intro: comp_inv_drafted comp_inv_redrafted)

lemma composition_step_inv: "comp_inv compile db \<Longrightarrow> composition_step js compile db db' \<Longrightarrow> comp_inv compile db'"
  using composition_step_change comp_inv_change by blast

lemma composition_reachable_inv: "(composition_step js compile)\<^sup>*\<^sup>* empty_compositions db \<Longrightarrow> comp_inv compile db"
  by (induction rule: rtranclp_induct) (auto intro: comp_inv_empty composition_step_inv)

end
