(* ===== verification/Composition_Run.thy ===== *)
theory Composition_Run
  imports Composition_Store
begin

text \<open>
  A worked run of the composition store: a Scope, a composition whose Edges form a cycle, and a draft whose Edges
  are given out of the order of their priorities.
\<close>

definition flow_js :: platform where
  "flow_js = sample_platform\<lparr>sha256_hex := filter (\<lambda>c. c = CHR ''1'' \<or> c = CHR ''2''), locale_compare := (\<lambda>_ _. 0), number_text := (\<lambda>_. [])\<rparr>"

definition flow_compile :: "json \<Rightarrow> string option" where
  "flow_compile v = None"

definition flow_node :: "string \<Rightarrow> node_kind \<Rightarrow> placement" where
  "flow_node i k = \<lparr>nd_id = i, nd_kind = k, nd_label = None, nd_resource = None, nd_config = None, nd_bindings = None, nd_grants = None,
     nd_activation = (if k = Event_Node then None else Some [(''mode'', JStr ''per_delivery'')]),
     nd_context = Some [(''mode'', JStr ''new_per_execution'')]\<rparr>"

definition flow_port :: "string \<Rightarrow> string \<Rightarrow> direction \<Rightarrow> scope_port" where
  "flow_port i n d = \<lparr>sp_id = i, sp_node = n, sp_name = i, sp_direction = d, sp_events = None, sp_artefacts = None, sp_schema_ref = None,
     sp_schema = None, sp_min = None, sp_max = None\<rparr>"

definition flow_edge :: "string \<Rightarrow> string \<Rightarrow> string \<Rightarrow> bool \<Rightarrow> int \<Rightarrow> scope_edge" where
  "flow_edge i s t b n = \<lparr>ed_id = i, ed_source = s, ed_target = t, ed_enabled = Some b, ed_priority = Some n, ed_policy = None\<rparr>"

text \<open>The Actor answers to itself; the Edge to the second Actor is disabled.\<close>

definition flow_content :: composition where
  "flow_content = \<lparr>ct_nodes = [flow_node ''in'' Event_Node, flow_node ''a'' Actor_Node, flow_node ''b'' Actor_Node],
     ct_ports = [flow_port ''o'' ''in'' Output_Port, flow_port ''ai'' ''a'' Input_Port, flow_port ''ao'' ''a'' Output_Port, flow_port ''bi'' ''b'' Input_Port],
     ct_edges = [flow_edge ''e2'' ''o'' ''ai'' True 2, flow_edge ''e1'' ''ao'' ''ai'' True 1, flow_edge ''e3'' ''ao'' ''bi'' False 3]\<rparr>"

definition flow_scope :: scope_row where
  "flow_scope = \<lparr>so_workspace = ''w'', so_scope = ''s'', so_title = ''t'', so_description = None, so_status = Scope_Active, so_published = None,
     so_created = ''x'', so_updated = ''x''\<rparr>"

definition flow_start :: comp_db where
  "flow_start = empty_compositions\<lparr>cd_scopes := [flow_scope]\<rparr>"

lemma flow_starts: "composition_step flow_js flow_compile empty_compositions flow_start"
proof -
  have "createScope ''x'' ''s'' ''w'' None ''t'' None (cd_scopes empty_compositions) = Inr (flow_scope, [flow_scope])" by code_simp
  then have "scope_change (cd_scopes empty_compositions) [flow_scope]" by (rule scope_change.intros)
  then show ?thesis unfolding flow_start_def by (rule composition_step.scopes)
qed

definition flow_revision :: revision where
  "flow_revision = \<lparr>re_id = ''r'', re_workspace = ''w'', re_scope = ''s'', re_number = 1, re_mode = Edge_Routing, re_based = None, re_digest = [],
     re_creator = None, re_created = ''x'', re_published = None, re_withdrawn = None, re_content = flow_content\<rparr>"

lemmas flow_defs = flow_node_def flow_port_def flow_edge_def flow_content_def

lemma flow_stable: "list_all stable_id [''in'', ''n'', ''a'', ''b'', ''i'', ''o'', ''ai'', ''ao'', ''bi'', ''e1'', ''e2'', ''e3'']"
  by (simp add: stable_id_def alnum_def)

lemma flow_valid: "validateScopeComposition flow_compile flow_content Edge_Routing = Inr ()"
  using flow_stable by (simp add: validateScopeComposition_def requireUnique_def validate_port_def validate_edge_def validateNodePolicies_def validateActivationPolicy_def
     validateContextPolicy_def requireExactKeys_def contractsOverlap_def port_of_def or_nil_def min_of_def checked_max_def jget_def flow_defs)


text \<open>One Node with two Edges that are given out of the order of their priorities.\<close>

definition twin_content :: composition where
  "twin_content = \<lparr>ct_nodes = [flow_node ''n'' Event_Node], ct_ports = [flow_port ''o'' ''n'' Output_Port, flow_port ''i'' ''n'' Input_Port],
     ct_edges = [flow_edge ''e2'' ''o'' ''i'' True 2, flow_edge ''e1'' ''o'' ''i'' True 1]\<rparr>"

lemma twin_valid: "validateScopeComposition flow_compile twin_content Edge_Routing = Inr ()"
  using flow_stable by (simp add: validateScopeComposition_def requireUnique_def validate_port_def validate_edge_def validateNodePolicies_def validateActivationPolicy_def
     validateContextPolicy_def requireExactKeys_def contractsOverlap_def port_of_def or_nil_def min_of_def checked_max_def jget_def flow_defs twin_content_def)

definition flow_draft :: draft_input where
  "flow_draft = \<lparr>dr_workspace = ''w'', dr_scope = ''s'', dr_mode = None, dr_based = None, dr_creator = None, dr_content = twin_content, dr_id = None\<rparr>"

end
