(* ===== verification/Composition_Drafts.thy ===== *)
theory Composition_Drafts
  imports Composition_Invariants Composition_Run
begin

text \<open>
  The database after a draft is created, after the digests are computed again, and the worked run of the
  composition store up to its first publication.
\<close>

section \<open>Drafts\<close>

lemma getRevision_id: "map_option re_id (getRevision db i) = (if i \<in> cr_id ` set (cd_revisions db) then Some i else None)"
proof (cases "row_where (\<lambda>r. cr_id r = i) (cd_revisions db)")
  case None
  then show ?thesis by (auto simp: getRevision_def row_where_None_iff)
next
  case (Some r)
  from row_where_SomeD [OF this] Some show ?thesis by (auto simp: getRevision_def)
qed

lemma next_number_new: "cr_workspace r = w \<Longrightarrow> cr_scope r = s \<Longrightarrow> r \<in> set (cd_revisions db) \<Longrightarrow> cr_number r < next_number db w s"
proof -
  assume r: "cr_workspace r = w" "cr_scope r = s" "r \<in> set (cd_revisions db)"
  let ?ns = "map cr_number (filter (\<lambda>r. cr_workspace r = w \<and> cr_scope r = s) (cd_revisions db))"
  from r have "cr_number r \<in> set ?ns" by auto
  then have "?ns \<noteq> []" "cr_number r \<le> Max (set ?ns)" by (auto simp: filter_empty_conv intro: Max_ge)
  then show ?thesis by (simp only: next_number_def Let_def if_False)
qed

text \<open>A valid content can be drafted under a fresh identifier.\<close>

lemma createDraft_succeeds:
  assumes ids: "ids_ok db" and fresh: "getRevision db i = None" and i: "i = (case dr_id inp of None \<Rightarrow> new | Some v \<Rightarrow> v)"
    and valid: "validateScopeComposition compile (dr_content inp) (case dr_mode inp of None \<Rightarrow> Edge_Routing | Some m \<Rightarrow> m) = Inr ()"
  shows "\<exists>r. createDraft js compile now new inp db = Inr (r, drafted_db (draft_row js now i inp db) (dr_content inp) db)"
proof -
  let ?row = "draft_row js now i inp db" and ?c = "dr_content inp"
  let ?db = "db\<lparr>cd_revisions := cd_revisions db @ [?row]\<rparr>"
  have row: "cr_id ?row = i" "cr_workspace ?row = dr_workspace inp" "cr_scope ?row = dr_scope inp" "cr_number ?row = next_number db (dr_workspace inp) (dr_scope inp)"
    "cr_mode ?row = (case dr_mode inp of None \<Rightarrow> Edge_Routing | Some m \<Rightarrow> m)" by (simp_all add: draft_row_def)
  have unused: "i \<notin> cr_id ` set (cd_revisions db)" using getRevision_id [of db i] fresh by (auto split: if_splits)
  have "\<not> list_ex (\<lambda>x. cr_id x = cr_id ?row \<or> cr_workspace x = cr_workspace ?row \<and> cr_scope x = cr_scope ?row \<and> cr_number x = cr_number ?row) (cd_revisions db)"
    using unused next_number_new [OF refl refl, of _ db] by (fastforce simp: list_ex_iff row)
  then have ins: "insert_revision ?row db = Inr ?db" by (simp add: insert_revision_def)
  have "no_content i ?db" using ids unused by (simp add: ids_ok_def no_content_def)
  moreover have "structure_ok ?c" using valid by (simp add: validate_Inr)
  ultimately have "insertContent i ?c ?db = Inr (drafted_db ?row ?c db)" by (simp add: insertContent_Inr structure_ok_def drafted_db_def row(1))
  then show ?thesis using valid ins by (simp add: createDraft_def Let_def i [symmetric] row(5))
qed

lemma getRevision_drafted:
  assumes "comp_inv compile db" and "cr_id row \<notin> cr_id ` set (cd_revisions db)"
  shows "getRevision (drafted_db row c db) j = (if j = cr_id row then Some ((rowToRevision db row)\<lparr>re_content := stored_content c\<rparr>) else getRevision db j)"
proof -
  have none: "no_content (cr_id row) (db\<lparr>cd_revisions := cd_revisions db @ [row]\<rparr>)" using assms by (simp add: comp_inv_def ids_ok_def no_content_def)
  have "row_where (\<lambda>r. cr_id r = cr_id row) (cd_revisions db) = None" using assms(2) by (simp add: row_where_None_iff) (metis image_eqI)
  then have rows: "row_where (\<lambda>r. cr_id r = j) (cd_revisions (drafted_db row c db)) = (if j = cr_id row then Some row else row_where (\<lambda>r. cr_id r = j) (cd_revisions db))"
    by (auto simp: drafted_db_def with_content_def row_where_append split: option.splits)
  have content: "content_of (drafted_db row c db) j = (if j = cr_id row then stored_content c else content_of db j)" for j
    using content_of_with [OF none] by (simp add: drafted_db_def)
  show ?thesis
  proof (cases "j = cr_id row")
    case True
    have "row_where (\<lambda>r. cr_id r = j) (cd_revisions (drafted_db row c db)) = Some row" using rows True by (simp only: if_True simp_thms)
    moreover have "content_of (drafted_db row c db) (cr_id row) = stored_content c" by (simp add: content)
    ultimately show ?thesis by (simp add: True getRevision_def rowToRevision_def)
  next
    case False
    then show ?thesis by (cases "row_where (\<lambda>r. cr_id r = j) (cd_revisions db)") (auto simp: getRevision_def rows rowToRevision_def content dest!: row_where_SomeD)
  qed
qed

lemma retainDigests_rows: "getRevision (retainDigests js db) i = map_option (\<lambda>r. r\<lparr>re_digest := scopeCompositionDigest js (re_content r)\<rparr>) (getRevision db i)"
proof -
  let ?f = "\<lambda>r. r\<lparr>cr_digest := scopeCompositionDigest js (content_of db (cr_id r))\<rparr>"
  have "row_where (\<lambda>r. cr_id r = i) (map ?f rs) = map_option ?f (row_where (\<lambda>r. cr_id r = i) rs)" for rs by (induction rs) simp_all
  moreover have "cd_revisions (retainDigests js db) = map ?f (cd_revisions db)" by (simp add: retainDigests_def)
  ultimately have "row_where (\<lambda>r. cr_id r = i) (cd_revisions (retainDigests js db))
      = map_option ?f (row_where (\<lambda>r. cr_id r = i) (cd_revisions db))" by (simp only:)
  moreover have "content_of (retainDigests js db) j = content_of db j" for j by (simp add: retainDigests_def)
  ultimately show ?thesis by (simp add: getRevision_def option.map_comp comp_def rowToRevision_def)
qed

section \<open>The worked run\<close>

definition twin_row :: composition_row where
  "twin_row = draft_row flow_js ''y'' ''r1'' flow_draft flow_start"

definition twin_db :: comp_db where
  "twin_db = drafted_db twin_row twin_content flow_start"

definition twin_live :: comp_db where
  "twin_live = twin_db\<lparr>cd_revisions := set_where (\<lambda>x. cr_id x = ''r1'' \<and> cr_published x = None) (\<lambda>x. x\<lparr>cr_published := Some ''z''\<rparr>) (cd_revisions twin_db),
     cd_scopes := set_where (scope_at ''w'' ''s'') (\<lambda>x. x\<lparr>so_published := Some ''r1'', so_updated := ''z''\<rparr>) (cd_scopes twin_db)\<rparr>"

lemma twin_row_fields: "cr_id twin_row = ''r1''" "cr_workspace twin_row = ''w''" "cr_scope twin_row = ''s''" "cr_mode twin_row = Edge_Routing"
    "cr_published twin_row = None" "cr_withdrawn twin_row = None" "cr_digest twin_row = scopeCompositionDigest flow_js twin_content"
  by (simp_all add: twin_row_def draft_row_def flow_draft_def)

lemma flow_inv: "comp_inv flow_compile flow_start"
  by (rule composition_reachable_inv [OF r_into_rtranclp [of "composition_step flow_js flow_compile", OF flow_starts]])

lemma twin_created: "\<exists>r. createDraft flow_js flow_compile ''y'' ''r1'' flow_draft flow_start = Inr (r, twin_db)"
proof -
  have "getRevision flow_start ''r1'' = None" by (simp add: getRevision_def flow_start_def empty_compositions_def)
  then show ?thesis
    using createDraft_succeeds [where db = flow_start and i = "''r1''" and inp = flow_draft and new = "''r1''" and compile = flow_compile and js = flow_js and now = "''y''"]
      flow_inv twin_valid by (simp add: twin_db_def twin_row_def flow_draft_def comp_inv_def)
qed

lemma twin_reached: "(composition_step flow_js flow_compile)\<^sup>*\<^sup>* empty_compositions twin_db"
proof -
  obtain r where "createDraft flow_js flow_compile ''y'' ''r1'' flow_draft flow_start = Inr (r, twin_db)" using twin_created by blast
  then show ?thesis using flow_starts by (metis composition_step.create rtranclp.rtrancl_into_rtrancl r_into_rtranclp)
qed

lemma twin_revision: "getRevision twin_db ''r1'' = Some ((rowToRevision flow_start twin_row)\<lparr>re_content := stored_content twin_content\<rparr>)"
  using getRevision_drafted [OF flow_inv, of twin_row twin_content "''r1''"]
  by (simp add: twin_db_def twin_row_fields flow_start_def empty_compositions_def)

lemma twin_scopes: "cd_scopes twin_db = [flow_scope]" "cd_revisions twin_db = [twin_row]"
  by (simp_all add: twin_db_def drafted_db_def with_content_def flow_start_def empty_compositions_def)

lemma twin_live_revision: "getRevision twin_live ''r1'' = Some ((rowToRevision flow_start twin_row)\<lparr>re_published := Some ''z'', re_content := stored_content twin_content\<rparr>)"
proof -
  have "content_of twin_live i = content_of twin_db i" for i by (simp add: twin_live_def content_of_def)
  then show ?thesis using twin_revision
    by (simp add: getRevision_def twin_live_def twin_scopes twin_row_fields rowToRevision_def set_where_def row_where_def)
qed

lemma twin_publishes: "\<exists>r. publishDraft flow_js flow_compile ''z'' ''r1'' (Some None) None twin_db = Inr (r, twin_live)"
proof -
  have "validateScopeComposition flow_compile (stored_content twin_content) Edge_Routing = Inr ()" using twin_valid by (rule stored_valid)
  moreover have "getScope (cd_scopes twin_db) ''w'' ''s'' = Some flow_scope" "so_published flow_scope = None"
    by (simp_all add: twin_scopes getScope_def scope_at_def flow_scope_def)
  moreover have "\<exists>m dg. assessImpact flow_js ''r1'' twin_db = Inr (m, dg)" by (simp add: assessImpact_def twin_revision Let_def)
  ultimately show ?thesis by (auto simp: publishDraft_def twin_revision rowToRevision_def twin_row_fields stamped_def Let_def twin_live_def)
qed

lemma twin_live_reached: "(composition_step flow_js flow_compile)\<^sup>*\<^sup>* empty_compositions twin_live"
proof -
  obtain r where "publishDraft flow_js flow_compile ''z'' ''r1'' (Some None) None twin_db = Inr (r, twin_live)" using twin_publishes by blast
  then have "composition_step flow_js flow_compile twin_db twin_live" by (rule composition_step.publish) simp
  with twin_reached show ?thesis by (rule rtranclp.rtrancl_into_rtrancl)
qed

lemma twin_digests: "scopeCompositionDigest flow_js twin_content = ''21''" "scopeCompositionDigest flow_js (stored_content twin_content) = ''12''"
  by code_simp+

end
