(* ===== verification/Plan_Properties.thy ===== *)
theory Plan_Properties
  imports Plan_Search Composition_Run
begin

text \<open>
  What the validation of a composition accepts and what the simulation of its Edge plan answers.
\<close>

text \<open>
  C35: validation accepts exactly the well-formed compositions. There is a Node; identifiers are stable and
  unique; every Port belongs to a Node and every Edge leads from an output to an input Port with
  overlapping contracts; grants are unique per Node and its policies fit; schemas are on output Ports and
  compile. A Port's minimum is at most its maximum, where a null maximum, which means unbounded
  everywhere else in the program, counts as one.
\<close>

theorem validation_exact:
  "validateScopeComposition compile c routing = Inr () \<longleftrightarrow>
     ct_nodes c \<noteq> [] \<and> (\<forall>i \<in> set (map nd_id (ct_nodes c) @ map sp_id (ct_ports c) @ map ed_id (ct_edges c)). stable_id i)
     \<and> distinct (map nd_id (ct_nodes c)) \<and> distinct (map sp_id (ct_ports c)) \<and> distinct (map ed_id (ct_edges c))
     \<and> (\<forall>p \<in> set (ct_ports c). (\<exists>n \<in> set (ct_nodes c). nd_id n = sp_node p) \<and> 0 \<le> min_of p \<and> schema_ok compile p
          \<and> min_of p \<le> (case max_of p of None \<Rightarrow> 1 | Some m \<Rightarrow> m))
     \<and> (\<forall>e \<in> set (ct_edges c). edge_ok (ct_ports c) e)
     \<and> (\<forall>n \<in> set (ct_nodes c). list_all stable_id (or_nil (nd_grants n)) \<and> distinct (or_nil (nd_grants n))
          \<and> validateNodePolicies n (ct_ports c) routing = Inr ())"
proof -
  have "checked_max p = (case max_of p of None \<Rightarrow> 1 | Some m \<Rightarrow> m)" for p by (simp add: checked_max_def max_of_def split: option.splits)
  then show ?thesis
    by (auto simp: validate_Inr structure_ok_def nodes_ok_def list_all_iff image_iff)
qed

text \<open>An unbounded Port that needs two is refused.\<close>

theorem validation_exact_witness:
  "validateScopeComposition flow_compile flow_content Edge_Routing = Inr () \<and> distinct (map ed_id (ct_edges flow_content))
     \<and> (\<forall>ports edges. validateScopeComposition flow_compile
          \<lparr>ct_nodes = [flow_node ''n'' Event_Node], ct_ports = (flow_port ''i'' ''n'' Input_Port)\<lparr>sp_min := Some 2, sp_max := Some None\<rparr> # ports, ct_edges = edges\<rparr>
          Edge_Routing \<noteq> Inr ())"
proof (intro conjI allI)
  show "distinct (map ed_id (ct_edges flow_content))" using validation_exact [of flow_compile flow_content Edge_Routing] flow_valid by blast
next
  fix ports edges
  let ?p = "(flow_port ''i'' ''n'' Input_Port)\<lparr>sp_min := Some 2, sp_max := Some None\<rparr>"
  let ?c = "\<lparr>ct_nodes = [flow_node ''n'' Event_Node], ct_ports = ?p # ports, ct_edges = edges\<rparr>"
  have low: "\<not> min_of ?p \<le> (case max_of ?p of None \<Rightarrow> 1 | Some m \<Rightarrow> m)" and port: "?p \<in> set (ct_ports ?c)" by (simp_all add: min_of_def max_of_def)
  have bound: "validateScopeComposition flow_compile c Edge_Routing = Inr () \<Longrightarrow> p \<in> set (ct_ports c)
      \<Longrightarrow> min_of p \<le> (case max_of p of None \<Rightarrow> 1 | Some m \<Rightarrow> m)" for c p
    unfolding validation_exact by blast
  show "validateScopeComposition flow_compile ?c Edge_Routing \<noteq> Inr ()" using bound [OF _ port] low by (rule contrapos_nn [rotated])
qed (rule flow_valid)

text \<open>
  C34: the simulation ends and is exact. For a valid Edge-routed revision, an Event Node and one of its
  output Ports, the loop over the queue of Ports ends, whatever cycles the Edges form. The reachable Edges
  are the enabled Edges that leave a Port reachable from the ingress, each taken in exactly one step, in
  order of depth; the depth of a step is one more than the number of Edges on a shortest way to its source
  Port; the Nodes and terminal Ports are those the Edges lead to and end at.
\<close>

theorem simulation_exact:
  assumes "validateScopeComposition compile (re_content r) Edge_Routing = Inr ()" and "re_mode r = Edge_Routing"
    and "n \<in> set (ct_nodes (re_content r))" and "nd_id n = ingress" and "nd_kind n = Event_Node"
    and "p \<in> set (ct_ports (re_content r))" and "sp_id p = out" and "sp_node p = ingress" and "sp_direction p = Output_Port"
  shows "let c = re_content r; reach = (plan_arcs c)\<^sup>* `` {out}; live = {e. \<exists>q \<in> reach. live_edge c q e} in
    \<exists>sim. simulateScopeComposition js compile r ingress out = Inr sim
      \<and> set (sm_edges sim) = ed_id ` live \<and> distinct (map ps_edge (sm_steps sim)) \<and> ps_edge ` set (sm_steps sim) = ed_id ` live
      \<and> set (sm_nodes sim) = insert ingress (target_of c ` live) \<and> set (sm_unreachable sim) = nd_id ` set (ct_nodes c) - set (sm_nodes sim)
      \<and> set (sm_terminal sim) = {q \<in> reach. \<forall>e. \<not> live_edge c q e} \<and> sorted (map ps_depth (sm_steps sim))
      \<and> (\<forall>s \<in> set (sm_steps sim). \<exists>k. ps_depth s = Suc k \<and> (out, ps_source_port s) \<in> plan_arcs c ^^ k
            \<and> (\<forall>j. (out, ps_source_port s) \<in> plan_arcs c ^^ j \<longrightarrow> k \<le> j))"
proof -
  let ?c = "re_content r" and ?pl = "explore js (re_content r) (start_plan ingress out)"
  let ?reach = "(plan_arcs ?c)\<^sup>* `` {out}"
  let ?live = "{e. \<exists>q \<in> ?reach. live_edge ?c q e}"
  have ok: "structure_ok ?c" using assms(1) by (simp add: validate_Inr)
  have dist: "distinct (map nd_id (ct_nodes ?c))" "distinct (map sp_id (ct_ports ?c))" "distinct (map ed_id (ct_edges ?c))"
    using ok by (simp_all add: structure_ok_def)
  obtain ex where ex: "bfs_inv (succ_ports js ?c) out [] ex" "plan_reads js ?c ingress ex ?pl"
    using explore_reads [OF _ start_plan_reads, of js ?c out ingress out] bfs_inv_start [of "succ_ports js ?c" out]
    by (auto simp: start_plan_def)
  note bfs = bfs_inv_done [OF ex(1), unfolded arcs_succ_ports [OF ok]]
  have reach: "fst ` set ex = ?reach" by (rule bfs(1))
  have find: "find (\<lambda>n. nd_id n = ingress) (ct_nodes ?c) = Some n" using assms(3,4) dist(1) row_where_key [of nd_id "ct_nodes ?c" n] by (simp add: row_where_def)
  have port: "port_of (ct_ports ?c) out = Some p" using assms(6,7) dist(2) by (simp add: port_of_iff)
  define sim where "sim = \<lparr>sm_revision = re_id r, sm_digest = re_digest r, sm_ingress = ingress, sm_output = out, sm_nodes = js_sort binary_compare (pn_nodes ?pl),
     sm_edges = js_sort binary_compare (pn_edges ?pl), sm_unreachable = js_sort binary_compare (filter (\<lambda>i. i \<notin> set (pn_nodes ?pl)) (map nd_id (ct_nodes ?c))),
     sm_terminal = js_sort binary_compare (pn_terminal ?pl), sm_steps = pn_steps ?pl,
     sm_warnings = (let u = js_sort binary_compare (filter (\<lambda>i. i \<notin> set (pn_nodes ?pl)) (map nd_id (ct_nodes ?c))) in if u = [] then [] else [u])\<rparr>"
  have run: "simulateScopeComposition js compile r ingress out = Inr sim"
    using assms find port by (simp add: simulateScopeComposition_def Let_def sim_def)
  have steps: "sm_steps sim = steps_of js ?c ex" using ex(2) by (simp add: plan_reads_def sim_def steps_of_def)
  have live: "(\<Union>q \<in> ?reach. f ` set (outgoing js ?c q)) = f ` ?live" for f :: "scope_edge \<Rightarrow> string" by (auto simp: set_outgoing)
  have edges: "set (sm_edges sim) = ed_id ` ?live" using ex(2) live [of ed_id] by (simp add: sim_def plan_reads_def reach)
  have target: "nd_id (target_node ?c e) = target_of ?c e" if "e \<in> ?live" for e using that target_node_id [OF ok] by blast
  have "set (sm_nodes sim) = insert ingress ((\<lambda>e. nd_id (target_node ?c e)) ` ?live)"
    using ex(2) live [of "\<lambda>e. nd_id (target_node ?c e)"] by (simp add: sim_def plan_reads_def reach)
  then have nodes: "set (sm_nodes sim) = insert ingress (target_of ?c ` ?live)" using target by auto
  have unreachable: "set (sm_unreachable sim) = nd_id ` set (ct_nodes ?c) - set (sm_nodes sim)" by (auto simp: sim_def)
  have terminal: "set (sm_terminal sim) = {q \<in> ?reach. \<forall>e. \<not> live_edge ?c q e}"
  proof -
    have "outgoing js ?c q = [] \<longleftrightarrow> (\<forall>e. \<not> live_edge ?c q e)" for q using set_outgoing [of js ?c q] by (metis Collect_empty_eq set_empty)
    then show ?thesis using ex(2) by (simp add: sim_def plan_reads_def reach)
  qed
  have "ps_edge ` set (sm_steps sim) = (\<Union>q \<in> ?reach. ed_id ` set (outgoing js ?c q))"
    by (force simp: steps in_steps step_of_fields set_outgoing simp flip: reach)
  then have taken: "ps_edge ` set (sm_steps sim) = ed_id ` ?live" using live [of ed_id] by simp
  have shape: "distinct (map ps_edge (sm_steps sim))" "sorted (map ps_depth (sm_steps sim))"
    using distinct_steps [OF ok bfs(2)] sorted_steps [OF bfs(3)] by (simp_all add: steps)
  have "\<exists>k. ps_depth s = Suc k \<and> (out, ps_source_port s) \<in> plan_arcs ?c ^^ k \<and> (\<forall>j. (out, ps_source_port s) \<in> plan_arcs ?c ^^ j \<longrightarrow> k \<le> j)"
    if "s \<in> set (sm_steps sim)" for s
  proof -
    from that obtain q d e where e: "(q, d) \<in> set ex" "live_edge ?c q e" "s = step_of ?c d e" by (auto simp: steps in_steps)
    with bfs(4) [OF e(1)] show ?thesis by (simp add: step_of_fields steps_source [OF ok e(2)])
  qed
  then show ?thesis unfolding Let_def using run edges nodes unreachable terminal taken shape by blast
qed

text \<open>The Edge of the cycle is taken once, the disabled Edge never.\<close>

theorem simulation_exact_witness:
  "\<exists>sim. simulateScopeComposition flow_js flow_compile flow_revision ''in'' ''o'' = Inr sim
    \<and> distinct (map ps_edge (sm_steps sim)) \<and> {''e1'', ''e2''} \<subseteq> ps_edge ` set (sm_steps sim) \<and> ''e3'' \<notin> ps_edge ` set (sm_steps sim)"
proof -
  let ?n = "flow_node ''in'' Event_Node" and ?p = "flow_port ''o'' ''in'' Output_Port"
  let ?live = "{e. \<exists>q \<in> (plan_arcs flow_content)\<^sup>* `` {''o''}. live_edge flow_content q e}"
  have content: "re_content flow_revision = flow_content" "re_mode flow_revision = Edge_Routing" by (simp_all add: flow_revision_def)
  have valid: "validateScopeComposition flow_compile (re_content flow_revision) Edge_Routing = Inr ()" unfolding content by (rule flow_valid)
  have node: "?n \<in> set (ct_nodes (re_content flow_revision))" "nd_id ?n = ''in''" "nd_kind ?n = Event_Node"
    by (simp_all add: content flow_content_def) (simp_all add: flow_node_def)
  have port: "?p \<in> set (ct_ports (re_content flow_revision))" "sp_id ?p = ''o''" "sp_node ?p = ''in''" "sp_direction ?p = Output_Port"
    by (simp_all add: content flow_content_def) (simp_all add: flow_port_def)
  from simulation_exact [OF valid content(2) node port, of flow_js]
  obtain sim where sim: "simulateScopeComposition flow_js flow_compile flow_revision ''in'' ''o'' = Inr sim" "distinct (map ps_edge (sm_steps sim))"
      "ps_edge ` set (sm_steps sim) = ed_id ` ?live" unfolding Let_def content by (elim exE conjE) (rule that, assumption+)
  have e2: "flow_edge ''e2'' ''o'' ''ai'' True 2 \<in> ?live"
    by (auto simp: live_edge_def flow_content_def flow_edge_def edge_enabled_def)
  let ?ao = "flow_port ''ao'' ''a'' Output_Port"
  have "live_edge flow_content ''o'' (flow_edge ''e2'' ''o'' ''ai'' True 2)" "?ao \<in> set (ct_ports flow_content)"
    by (simp_all add: live_edge_def flow_content_def edge_enabled_def) (simp add: flow_edge_def)
  moreover have "sp_direction ?ao = Output_Port" "sp_node ?ao = target_of flow_content (flow_edge ''e2'' ''o'' ''ai'' True 2)" "sp_id ?ao = ''ao''"
    by (simp_all add: target_of_def flow_content_def flow_edge_def flow_port_def port_of_def)
  ultimately have "(''o'', ''ao'') \<in> plan_arcs flow_content" unfolding plan_arcs_def by (intro CollectI exI conjI) (rule prod.inject [THEN iffD2], auto)
  then have e1: "flow_edge ''e1'' ''ao'' ''ai'' True 1 \<in> ?live"
    by (auto simp: live_edge_def flow_content_def flow_edge_def edge_enabled_def intro!: bexI [of _ "''ao''"])
  have e3: "''e3'' \<notin> ed_id ` ?live" by (auto simp: live_edge_def flow_content_def flow_edge_def edge_enabled_def)
  have id: "ed_id (flow_edge i s t b n) = i" for i s t b n by (simp add: flow_edge_def)
  have "{''e1'', ''e2''} \<subseteq> ps_edge ` set (sm_steps sim)"
    unfolding sim(3) using imageI [OF e1, of ed_id] imageI [OF e2, of ed_id] by (simp only: id insert_subset empty_subsetI)
  then show ?thesis using sim(1,2) e3 [folded sim(3)] by (intro exI [of _ sim] conjI)
qed

end
