(* ===== verification/Composition_Properties.thy ===== *)
theory Composition_Properties
  imports Composition_Drafts Plan_Properties
begin

text \<open>
  What the composition store promises: stored revisions are valid, published ones are immutable, the
  pointer of a Scope moves only from the revision the caller has seen, and the portable form of a revision
  can be imported again, except for a draft whose Edges were not given in the order of their priorities.
\<close>

section \<open>Invariants\<close>

text \<open>
  C36: the tables are consistent. In every reachable store each revision is valid for its routing mode, a
  published revision has not been withdrawn, no two revisions of a Scope share a number, and whenever a
  Scope has a pointer it points to an existing published revision of that very Scope.
\<close>

theorem composition_tables_consistent:
  assumes "(composition_step js compile)\<^sup>*\<^sup>* empty_compositions db"
  shows "(\<forall>i x. getRevision db i = Some x \<longrightarrow> validateScopeComposition compile (re_content x) (re_mode x) = Inr ()
        \<and> (re_published x \<noteq> None \<longrightarrow> re_withdrawn x = None))
    \<and> distinct (map revision_key (cd_revisions db))
    \<and> (\<forall>w s so i. getScope (cd_scopes db) w s = Some so \<and> so_published so = Some i \<longrightarrow>
        (\<exists>x. getPublishedRevision db w s = Some x \<and> re_id x = i \<and> re_workspace x = w \<and> re_scope x = s \<and> re_published x \<noteq> None))"
proof -
  have inv: "comp_inv compile db" using assms by (rule composition_reachable_inv)
  have "\<exists>x. getPublishedRevision db w s = Some x \<and> re_id x = i \<and> re_workspace x = w \<and> re_scope x = s \<and> re_published x \<noteq> None"
    if so: "getScope (cd_scopes db) w s = Some so" and i: "so_published so = Some i" for w s so i
  proof -
    from getScope_SomeD [OF so] have "so \<in> set (cd_scopes db)" "so_workspace so = w" "so_scope so = s" by simp_all
    with inv i obtain r where r: "r \<in> set (cd_revisions db)" "points_to r so" by (fastforce simp: comp_inv_def scopes_ok_def)
    then have "getRevision db i = Some (rowToRevision db r)" using inv i by (auto simp: getRevision_iff comp_inv_def points_to_def)
    then show ?thesis using so i r \<open>so_workspace so = w\<close> \<open>so_scope so = s\<close> by (simp add: getPublishedRevision_def points_to_def)
  qed
  moreover have "validateScopeComposition compile (re_content x) (re_mode x) = Inr () \<and> (re_published x \<noteq> None \<longrightarrow> re_withdrawn x = None)"
    if "getRevision db i = Some x" for i x
    using getRevision_row [OF that] inv by (auto simp: comp_inv_def row_ok_def)
  ultimately show ?thesis using inv by (auto simp: comp_inv_def ids_ok_def)
qed

theorem composition_tables_consistent_witness:
  "(\<exists>x. getPublishedRevision twin_live ''w'' ''s'' = Some x \<and> re_id x = ''r1'' \<and> re_published x \<noteq> None)
     \<and> validateScopeComposition flow_compile (stored_content twin_content) Edge_Routing = Inr ()"
proof -
  have "getScope (cd_scopes twin_live) ''w'' ''s'' = Some (flow_scope\<lparr>so_published := Some ''r1'', so_updated := ''z''\<rparr>)"
    by (simp add: twin_live_def twin_scopes getScope_def scope_at_def flow_scope_def set_where_def row_where_def)
  then show ?thesis
    using composition_tables_consistent [OF twin_live_reached] twin_live_revision by (fastforce simp: rowToRevision_def twin_row_fields)
qed

section \<open>Immutability\<close>

definition keeps_revision :: "platform \<Rightarrow> composition_row \<Rightarrow> comp_db \<Rightarrow> comp_db \<Rightarrow> bool" where
  "keeps_revision js row db db' \<longleftrightarrow> content_of db' (cr_id row) = content_of db (cr_id row)
     \<and> (\<exists>dg. row\<lparr>cr_digest := dg\<rparr> \<in> set (cd_revisions db') \<and> (dg = cr_digest row \<or> dg = scopeCompositionDigest js (content_of db (cr_id row))))"

lemma untouched_row: "x \<in> set rs \<Longrightarrow> \<not> P x \<Longrightarrow> x \<in> set (set_where P f rs)"
  by (force simp: in_set_where)

lemma change_keeps_published:
  assumes "composition_change js compile db db'" and inv: "comp_inv compile db" and row: "row \<in> set (cd_revisions db)" "cr_published row \<noteq> None"
  shows "keeps_revision js row db db'"
proof -
  have other: "cr_id r \<noteq> cr_id row" if "r \<in> set (cd_revisions db)" "cr_published r = None" for r
  proof
    assume "cr_id r = cr_id row"
    then have "r = row" using that(1) row(1) inv by (auto simp: comp_inv_def ids_ok_def distinct_map inj_on_def)
    with that(2) row(2) show False by simp
  qed
  have kept: "keeps_revision js row db d" if "row \<in> set (cd_revisions d)" "content_of d (cr_id row) = content_of db (cr_id row)" for d
    using that unfolding keeps_revision_def by (intro conjI exI [of _ "cr_digest row"]) simp_all
  from assms(1) show ?thesis
  proof cases
    case (drafted c new)
    then have "cr_id new \<noteq> cr_id row" using row(1) by (metis image_eqI)
    moreover have "no_content (cr_id new) (db\<lparr>cd_revisions := cd_revisions db @ [new]\<rparr>)"
      using inv drafted(3) by (simp add: comp_inv_def ids_ok_def no_content_def)
    ultimately show ?thesis unfolding drafted(1) using row(1) by (intro kept) (simp_all add: drafted_db_def content_of_with, simp add: with_content_def)
  next
    case (redrafted old c dg)
    then have "cr_id old \<noteq> cr_id row" using other by blast
    then show ?thesis unfolding redrafted(1) using row(1) by (intro kept) (simp_all add: redrafted_db_def content_of_with untouched_row)
  next
    case (withdrawn old now)
    then have "cr_id old \<noteq> cr_id row" using other by blast
    then show ?thesis unfolding withdrawn(1) using row(1) by (intro kept) (simp_all add: untouched_row)
  next
    case (published old now)
    then show ?thesis unfolding published(1) using row by (intro kept) (simp_all add: published_db_def untouched_row)
  next
    case digests
    have "row\<lparr>cr_digest := scopeCompositionDigest js (content_of db (cr_id row))\<rparr> \<in> set (cd_revisions (retainDigests js db))"
      using row(1) by (auto simp: retainDigests_def)
    moreover have "content_of (retainDigests js db) (cr_id row) = content_of db (cr_id row)" by (simp add: retainDigests_def)
    ultimately show ?thesis unfolding digests keeps_revision_def by blast
  qed (use row(1) in \<open>auto intro!: kept simp: rolled_db_def\<close>)
qed

lemma run_keeps_published:
  assumes "(composition_step js compile)\<^sup>*\<^sup>* db db'" and inv: "comp_inv compile db" and row: "row \<in> set (cd_revisions db)" "cr_published row \<noteq> None"
  shows "keeps_revision js row db db' \<and> comp_inv compile db'"
  using assms(1)
proof (induction rule: rtranclp_induct)
  case base
  show ?case using inv row unfolding keeps_revision_def by (auto intro!: exI [of _ "cr_digest row"])
next
  case (step d d')
  from step.IH obtain dg where dg: "row\<lparr>cr_digest := dg\<rparr> \<in> set (cd_revisions d)" "content_of d (cr_id row) = content_of db (cr_id row)"
      "dg = cr_digest row \<or> dg = scopeCompositionDigest js (content_of db (cr_id row))" and inv': "comp_inv compile d" by (auto simp: keeps_revision_def)
  have "keeps_revision js (row\<lparr>cr_digest := dg\<rparr>) d d'"
    using composition_step_change [OF step(2) inv'] inv' dg(1) row(2) by (intro change_keeps_published) simp_all
  then have "keeps_revision js row db d'" using dg(2,3) by (auto simp: keeps_revision_def)
  then show ?case using composition_step_inv [OF inv' step(2)] by simp
qed

text \<open>
  C37: published revisions are immutable. Whatever happens later, a published revision is found with the
  same identity, number, content and timestamps; only its digest may change, once, at a restart, to the
  digest of its content as it is stored.
\<close>

theorem published_composition_immutable:
  assumes "(composition_step js compile)\<^sup>*\<^sup>* empty_compositions db" and "(composition_step js compile)\<^sup>*\<^sup>* db db'"
    and "getRevision db i = Some r" and "re_published r \<noteq> None"
  shows "\<exists>dg. getRevision db' i = Some (r\<lparr>re_digest := dg\<rparr>) \<and> (dg = re_digest r \<or> dg = scopeCompositionDigest js (re_content r))"
proof -
  have inv: "comp_inv compile db" using assms(1) by (rule composition_reachable_inv)
  from getRevision_row [OF assms(3)] obtain row where row: "row \<in> set (cd_revisions db)" "cr_id row = i" "r = rowToRevision db row" by blast
  then have "keeps_revision js row db db' \<and> comp_inv compile db'" using assms(4) by (intro run_keeps_published [OF assms(2) inv]) simp_all
  then obtain dg where dg: "row\<lparr>cr_digest := dg\<rparr> \<in> set (cd_revisions db')" "content_of db' (cr_id row) = content_of db (cr_id row)"
      "dg = cr_digest row \<or> dg = scopeCompositionDigest js (content_of db (cr_id row))" and ids: "ids_ok db'"
    by (auto simp: keeps_revision_def comp_inv_def)
  have "rowToRevision db' (row\<lparr>cr_digest := dg\<rparr>) = r\<lparr>re_digest := dg\<rparr>" using dg(2) by (simp add: rowToRevision_def row(3))
  then have "\<exists>x \<in> set (cd_revisions db'). cr_id x = i \<and> r\<lparr>re_digest := dg\<rparr> = rowToRevision db' x"
    using row(2) by (intro bexI [OF _ dg(1)]) simp
  then have "getRevision db' i = Some (r\<lparr>re_digest := dg\<rparr>)" by (simp only: getRevision_iff [OF ids])
  then show ?thesis using dg(3) row by auto
qed

text \<open>The digest of the draft, over its Edges as they were given, does not survive the restart.\<close>

theorem published_composition_immutable_witness:
  "\<exists>r. getRevision twin_live ''r1'' = Some r \<and> re_published r = Some ''z'' \<and> re_digest r = ''21''
     \<and> getRevision (retainDigests flow_js twin_live) ''r1'' = Some (r\<lparr>re_digest := ''12''\<rparr>)"
proof -
  let ?r = "(rowToRevision flow_start twin_row)\<lparr>re_published := Some ''z'', re_content := stored_content twin_content\<rparr>"
  have run: "(composition_step flow_js flow_compile)\<^sup>*\<^sup>* twin_live (retainDigests flow_js twin_live)"
    by (rule r_into_rtranclp) (rule composition_step.restart)
  have "\<exists>dg. getRevision (retainDigests flow_js twin_live) ''r1'' = Some (?r\<lparr>re_digest := dg\<rparr>)"
    using published_composition_immutable [OF twin_live_reached run twin_live_revision] by auto
  moreover have "map_option re_digest (getRevision (retainDigests flow_js twin_live) ''r1'') = Some ''12''"
    by (simp add: retainDigests_rows twin_live_revision twin_digests)
  ultimately show ?thesis using twin_live_revision by (auto simp: rowToRevision_def twin_row_fields twin_digests)
qed

section \<open>Publication\<close>

lemma getScope_set_where:
  assumes "\<And>r. scope_key (f r) = scope_key r"
  shows "getScope (set_where P f rows) w s = map_option (\<lambda>r. if P r then f r else r) (getScope rows w s)"
  unfolding getScope_def by (rule row_where_set_where) (use assms in \<open>simp add: scope_at_key\<close>)

text \<open>The pointer of a Scope, as it is read.\<close>

definition pointer :: "comp_db \<Rightarrow> string \<Rightarrow> string \<Rightarrow> string option" where
  "pointer db w s = map_option re_id (getPublishedRevision db w s)"

lemma pointer_eq:
  "pointer db w s = (case getScope (cd_scopes db) w s of None \<Rightarrow> None
     | Some so \<Rightarrow> (case so_published so of None \<Rightarrow> None | Some i \<Rightarrow> if i \<in> cr_id ` set (cd_revisions db) then Some i else None))"
  by (simp add: pointer_def getPublishedRevision_def getRevision_id split: option.splits)

lemma pointer_stored: "scopes_ok db \<Longrightarrow> getScope (cd_scopes db) w s = Some so \<Longrightarrow> pointer db w s = so_published so"
proof (cases "so_published so")
  case (Some i)
  assume "scopes_ok db" and so: "getScope (cd_scopes db) w s = Some so"
  with Some obtain r where "r \<in> set (cd_revisions db)" "cr_id r = i" by (auto simp: scopes_ok_def points_to_def dest!: getScope_SomeD)
  then have "i \<in> cr_id ` set (cd_revisions db)" by blast
  with so Some show ?thesis by (simp add: pointer_eq)
qed (simp add: pointer_eq)

text \<open>
  What \<^const>\<open>publishDraft\<close> and \<^const>\<open>rollbackPublishedRevision\<close> do to the pointers: rows keep their
  identifiers, and only rows of one Scope are pointed at the revision.
\<close>

lemma pointer_moved:
  assumes ids: "cr_id ` set (cd_revisions db') = cr_id ` set (cd_revisions db)"
    and scopes: "cd_scopes db' = set_where P (\<lambda>x. x\<lparr>so_published := Some i, so_updated := now\<rparr>) (cd_scopes db)"
    and P: "\<And>x. P x \<Longrightarrow> scope_at w s x" and i: "i \<in> cr_id ` set (cd_revisions db)"
  shows "(w', s') \<noteq> (w, s) \<Longrightarrow> pointer db' w' s' = pointer db w' s'"
    and "getScope (cd_scopes db) w s = Some so \<Longrightarrow> P so \<Longrightarrow> pointer db' w s = Some i"
proof -
  have get: "getScope (cd_scopes db') a b = map_option (\<lambda>x. if P x then x\<lparr>so_published := Some i, so_updated := now\<rparr> else x) (getScope (cd_scopes db) a b)" for a b
    unfolding scopes by (rule getScope_set_where) simp
  show "pointer db' w' s' = pointer db w' s'" if other: "(w', s') \<noteq> (w, s)"
  proof (cases "getScope (cd_scopes db) w' s'")
    case (Some x)
    then have "\<not> P x" using other P [of x] by (auto dest!: getScope_SomeD simp: scope_at_def)
    with Some show ?thesis unfolding pointer_eq get ids by simp
  qed (simp add: pointer_eq get)
  show "pointer db' w s = Some i" if "getScope (cd_scopes db) w s = Some so" "P so" using that i by (simp add: pointer_eq get ids)
qed

lemma published_unique: "getRevision db i = Some r \<Longrightarrow> pointer db w s = Some i \<Longrightarrow> getPublishedRevision db w s = Some r"
proof -
  assume "getRevision db i = Some r" "pointer db w s = Some i"
  then obtain z where z: "getPublishedRevision db w s = Some z" "re_id z = i" by (auto simp: pointer_def)
  with published_id [OF z(1)] \<open>getRevision db i = Some r\<close> show ?thesis by simp
qed

lemma getRevision_published:
  assumes "ids_ok db" and "row \<in> set (cd_revisions db)" and "cr_published row = None"
  shows "getRevision (published_db now row db) (cr_id row) = Some (rowToRevision db (row\<lparr>cr_published := Some now\<rparr>))"
proof -
  let ?P = "\<lambda>x. cr_id x = cr_id row \<and> cr_published x = None" and ?f = "\<lambda>x. x\<lparr>cr_published := Some now\<rparr>"
  have row: "row_where (\<lambda>r. cr_id r = cr_id row) (cd_revisions db) = Some row"
    using assms(1,2) row_where_key [of cr_id "cd_revisions db" row] by (simp add: ids_ok_def)
  have "row_where (\<lambda>r. cr_id r = cr_id row) (set_where ?P ?f (cd_revisions db))
      = map_option (\<lambda>r. if ?P r then ?f r else r) (row_where (\<lambda>r. cr_id r = cr_id row) (cd_revisions db))"
    by (rule row_where_set_where) simp
  also have "\<dots> = Some (?f row)" by (simp add: row assms(3))
  finally show ?thesis by (simp add: getRevision_def rowToRevision_def published_db_def)
qed

text \<open>
  C38: the pointer moves by compare and swap. When a publication or a rollback succeeds, the revision it
  returns is published and is the one its Scope points to; if anything changed, the pointer the caller
  expected was the current one; no other Scope and no execution is affected, so that every execution keeps
  the revision it is pinned to.
\<close>

theorem pointer_compare_and_swap:
  assumes "(composition_step js compile)\<^sup>*\<^sup>* empty_compositions db" and "now \<noteq> []"
    and "publishDraft js compile now i seen impact db = Inr (r, db')
      \<or> (\<exists>cur dg. seen = Some (Some cur) \<and> impact = Some dg \<and> rollbackPublishedRevision js now i cur dg db = Inr (r, db'))"
  shows "re_id r = i \<and> re_published r \<noteq> None \<and> getPublishedRevision db' (re_workspace r) (re_scope r) = Some r
    \<and> (db' \<noteq> db \<longrightarrow> seen = None \<or> seen = Some (pointer db (re_workspace r) (re_scope r)))
    \<and> (\<forall>w s. (w, s) \<noteq> (re_workspace r, re_scope r) \<longrightarrow> pointer db' w s = pointer db w s) \<and> cd_executions db' = cd_executions db"
proof -
  have inv: "comp_inv compile db" using assms(1) by (rule composition_reachable_inv)
  from assms(3) show ?thesis
  proof (elim disjE exE conjE)
    assume "publishDraft js compile now i seen impact db = Inr (r, db')"
    then show ?thesis
    proof (cases rule: publishDraftE)
      case (same row)
      have "getRevision db i = Some r" using getRevision_iff [of db] inv same by (auto simp: comp_inv_def)
      with same published_unique [of db i r] show ?thesis by (auto simp: pointer_def stamped_def split: option.splits)
    next
      case (moved row so m dg)
      let ?w = "cr_workspace row" and ?s = "cr_scope row"
      have i: "i \<in> cr_id ` set (cd_revisions db)" using moved(1,2) by blast
      have ids: "cr_id ` set (cd_revisions db') = cr_id ` set (cd_revisions db)"
        using moved(9) set_where_revisions(3) [of "\<lambda>x. x\<lparr>cr_published := Some now\<rparr>"] by (simp add: published_db_def revision_key_def)
      have scopes: "cd_scopes db' = set_where (scope_at ?w ?s) (\<lambda>x. x\<lparr>so_published := Some i, so_updated := now\<rparr>) (cd_scopes db)"
        using moved(2,9) by (simp add: published_db_def)
      have at: "scope_at ?w ?s so" using moved(5) by (auto dest: getScope_SomeD simp: scope_at_def)
      have p: "pointer db' ?w ?s = Some i" by (rule pointer_moved(2) [OF ids scopes _ i moved(5) at])
      have elsewhere: "pointer db' w s = pointer db w s" if "(w, s) \<noteq> (?w, ?s)" for w s by (rule pointer_moved(1) [OF ids scopes _ i that])
      have "row_ok compile db row" using inv moved(1) by (simp add: comp_inv_def)
      then have "cr_published row = None" using moved(3) by (auto simp: row_ok_def)
      then have get: "getRevision db' i = Some (rowToRevision db (row\<lparr>cr_published := Some now\<rparr>))"
        using getRevision_published [OF _ moved(1)] inv moved(2,9) by (simp add: comp_inv_def)
      then have r: "r = rowToRevision db (row\<lparr>cr_published := Some now\<rparr>)" using moved(10) by simp
      have "seen = None \<or> seen = Some (pointer db ?w ?s)" using pointer_stored [OF _ moved(5)] moved(6) inv by (simp add: comp_inv_def)
      moreover have "cd_executions db' = cd_executions db" using moved(9) by (simp add: published_db_def)
      ultimately show ?thesis using elsewhere published_unique [OF get p] moved(2) by (simp add: r)
    qed
  next
    fix cur dg
    assume "rollbackPublishedRevision js now i cur dg db = Inr (r, db')" and seen: "seen = Some (Some cur)"
    then obtain row where row: "row \<in> set (cd_revisions db)" "cr_id row = i" "stamped (cr_published row)"
        "pointer db (cr_workspace row) (cr_scope row) = Some cur" "db' = db \<or> db' = rolled_db now row (Some cur) db" "getRevision db' i = Some r"
        "pointer db' (cr_workspace row) (cr_scope row) = Some i" unfolding pointer_def by - (erule composition_rollbackE, blast)
    have same: "cd_revisions db' = cd_revisions db" "cd_executions db' = cd_executions db" using row(5) by (auto simp: rolled_db_def)
    have "ids_ok db'" using row(5) inv by (elim disjE) (simp_all add: comp_inv_def ids_ok_def rolled_db_def no_content_def)
    then have "getRevision db' i = Some (rowToRevision db' row)" using row(1,2) by (auto simp: getRevision_iff same)
    then have r: "r = rowToRevision db' row" using row(6) by simp
    have i: "i \<in> cr_id ` set (cd_revisions db)" using row(1,2) by blast
    have "pointer db' w s = pointer db w s" if "(w, s) \<noteq> (cr_workspace row, cr_scope row)" for w s
    proof (cases "db' = db")
      case False
      then have "cd_scopes db' = set_where (\<lambda>x. scope_at (cr_workspace row) (cr_scope row) x \<and> so_published x = Some cur)
          (\<lambda>x. x\<lparr>so_published := Some i, so_updated := now\<rparr>) (cd_scopes db)" using row(2,5) by (simp add: rolled_db_def)
      then show ?thesis by (rule pointer_moved(1) [OF _ _ _ i that, rotated]) (simp_all add: same)
    qed simp
    moreover have "cr_published row \<noteq> None" using row(3) by (cases "cr_published row") (simp_all add: stamped_def)
    ultimately show ?thesis using row(2,4) seen same(2) published_unique [OF row(6,7)] by (auto simp: r)
  qed
qed

theorem pointer_compare_and_swap_witness:
  "(\<exists>r. publishDraft flow_js flow_compile ''z'' ''r1'' (Some None) None twin_db = Inr (r, twin_live) \<and> re_published r \<noteq> None
       \<and> getPublishedRevision twin_live (re_workspace r) (re_scope r) = Some r) \<and> cd_executions twin_live = cd_executions twin_db"
proof -
  obtain r where r: "publishDraft flow_js flow_compile ''z'' ''r1'' (Some None) None twin_db = Inr (r, twin_live)" using twin_publishes by blast
  have "''z'' \<noteq> []" by simp
  from pointer_compare_and_swap [OF twin_reached this disjI1 [OF r]] r show ?thesis by blast
qed

section \<open>The portable form\<close>

text \<open>
  C39: after a restart every revision can be exported and imported. Importing the portable form of a
  revision under a fresh identifier yields a draft with the same routing mode, the same content and the
  same digest, and leaves the original as it is.
\<close>

theorem export_import_roundtrip:
  assumes "(composition_step js compile)\<^sup>*\<^sup>* empty_compositions db0" and "db = retainDigests js db0"
    and "getRevision db i = Some r" and "getRevision db fresh = None"
  shows "\<exists>pt r' db'. exportRevision i db = Inr pt \<and> importRevision js compile now fresh w s pt creator db = Inr (r', db')
    \<and> re_id r' = fresh \<and> re_workspace r' = w \<and> re_scope r' = s \<and> re_content r' = re_content r \<and> re_mode r' = re_mode r \<and> re_digest r' = re_digest r
    \<and> getRevision db' i = Some r"
proof -
  have inv: "comp_inv compile db"
    using comp_inv_change [OF composition_change.digests composition_reachable_inv [OF assms(1)]] by (simp add: assms(2))
  from getRevision_row [OF assms(3)] obtain row where row: "row \<in> set (cd_revisions db)" "cr_id row = i" "r = rowToRevision db row" by blast
  then have ok: "validateScopeComposition compile (re_content r) (re_mode r) = Inr ()" "stored_content (re_content r) = re_content r"
    using inv by (auto simp: comp_inv_def row_ok_def)
  have digest: "scopeCompositionDigest js (re_content r) = re_digest r" using assms(3) by (auto simp: assms(2) retainDigests_rows)
  define pt where "pt = \<lparr>pt_format = ''floe.scope-composition'', pt_version = 1, pt_workspace = re_workspace r, pt_scope = re_scope r, pt_revision = re_id r,
     pt_number = re_number r, pt_mode = re_mode r, pt_digest = re_digest r, pt_content = re_content r\<rparr>"
  define inp where "inp = \<lparr>dr_workspace = w, dr_scope = s, dr_mode = Some (re_mode r), dr_based = None, dr_creator = creator, dr_content = re_content r, dr_id = None\<rparr>"
  let ?new = "draft_row js now fresh inp db"
  have new: "cr_id ?new = fresh" "cr_digest ?new = re_digest r" "cr_mode ?new = re_mode r" "cr_workspace ?new = w" "cr_scope ?new = s"
    by (simp_all add: draft_row_def inp_def digest)
  obtain x where x: "createDraft js compile now fresh inp db = Inr (x, drafted_db ?new (re_content r) db)"
    using createDraft_succeeds [where db = db and i = fresh and inp = inp and new = fresh and compile = compile and js = js and now = now] inv assms(4) ok by (auto simp: inp_def comp_inv_def)
  have unused: "fresh \<notin> cr_id ` set (cd_revisions db)" using getRevision_id [of db fresh] assms(4) by (auto split: if_splits)
  note get = getRevision_drafted [OF inv, of ?new "re_content r", unfolded new, OF unused]
  from x have "x = the (getRevision (drafted_db ?new (re_content r) db) fresh)" by (auto simp: createDraft_def Let_def result_simps inp_def)
  then have fields: "x = (rowToRevision db ?new)\<lparr>re_content := re_content r\<rparr>" using get [of fresh] ok(2) by simp
  have "importRevision js compile now fresh w s pt creator db = Inr (x, drafted_db ?new (re_content r) db)"
    using x ok(1) digest by (simp add: importRevision_def pt_def inp_def)
  moreover have "getRevision (drafted_db ?new (re_content r) db) i = Some r" using get [of i] assms(3,4) by auto
  moreover have "exportRevision i db = Inr pt" using assms(3) by (simp add: exportRevision_def pt_def)
  ultimately show ?thesis using fields new by (intro exI [of _ pt] exI [of _ x]) simp
qed

theorem export_import_roundtrip_witness:
  "\<exists>pt r' db'. exportRevision ''r1'' (retainDigests flow_js twin_live) = Inr pt
     \<and> importRevision flow_js flow_compile ''z'' ''r2'' ''w'' ''s'' pt None (retainDigests flow_js twin_live) = Inr (r', db')
     \<and> re_id r' = ''r2'' \<and> re_content r' = stored_content twin_content"
proof -
  let ?db = "retainDigests flow_js twin_live"
  obtain r where r: "getRevision ?db ''r1'' = Some r" "re_content r = stored_content twin_content"
    by (simp add: retainDigests_rows twin_live_revision)
  have "getRevision ?db ''r2'' = None"
    by (simp add: retainDigests_rows) (simp add: getRevision_def twin_live_def twin_scopes set_where_def row_where_def twin_row_fields)
  from export_import_roundtrip [OF twin_live_reached refl r(1) this, where now = "''z''" and w = "''w''" and s = "''s''" and creator = None] r(2) show ?thesis by metis
qed

text \<open>
  C40: a fresh draft may not be importable. A draft keeps the digest of the content as it was given, but is
  read back with its Edges in the order of their priorities. Until the next restart corrects the digest,
  its portable form can be imported, even into the store that exported it, exactly when the two orders of
  the Edges have the same digest.
\<close>

theorem fresh_draft_import_exact:
  assumes "(composition_step js compile)\<^sup>*\<^sup>* empty_compositions db" and "createDraft js compile now new inp db = Inr (r, db')"
    and "getRevision db' fresh = None"
  shows "\<exists>pt. exportRevision (re_id r) db' = Inr pt
    \<and> ((\<exists>x. importRevision js compile later fresh w s pt creator db' = Inr x) \<longleftrightarrow> scopeCompositionDigest js (stored_content (dr_content inp)) = scopeCompositionDigest js (dr_content inp))
    \<and> ((\<forall>x. importRevision js compile later fresh w s pt creator db' \<noteq> Inr x) \<longrightarrow> importRevision js compile later fresh w s pt creator db' = Inl (Comp_Invalid digest_mismatch))"
proof -
  have inv: "comp_inv compile db" using assms(1) by (rule composition_reachable_inv)
  then have ids: "ids_ok db" by (simp add: comp_inv_def)
  from composition_draftE [OF ids assms(2)] obtain i row where row: "row = draft_row js now i inp db"
      "validateScopeComposition compile (dr_content inp) (cr_mode row) = Inr ()" "i \<notin> cr_id ` set (cd_revisions db)"
      "db' = drafted_db row (dr_content inp) db" "getRevision db' i = Some r" by metis
  have id: "cr_id row = i" "cr_digest row = scopeCompositionDigest js (dr_content inp)" by (simp_all add: row(1) draft_row_def)
  with getRevision_drafted [OF inv, of row "dr_content inp" i] row have r: "r = (rowToRevision db row)\<lparr>re_content := stored_content (dr_content inp)\<rparr>" by simp
  define pt where "pt = \<lparr>pt_format = ''floe.scope-composition'', pt_version = 1, pt_workspace = re_workspace r, pt_scope = re_scope r, pt_revision = re_id r,
     pt_number = re_number r, pt_mode = re_mode r, pt_digest = re_digest r, pt_content = re_content r\<rparr>"
  have export: "exportRevision (re_id r) db' = Inr pt" using row(5) id by (simp add: exportRevision_def pt_def r)
  have valid: "validateScopeComposition compile (pt_content pt) (pt_mode pt) = Inr ()" using stored_valid [OF row(2)] by (simp add: pt_def r)
  have digests: "pt_digest pt = scopeCompositionDigest js (dr_content inp)" "pt_content pt = stored_content (dr_content inp)"
    by (simp_all add: pt_def r id)
  have format: "pt_format pt = ''floe.scope-composition'' \<and> pt_version pt = 1" by (simp add: pt_def)
  have "comp_inv compile db'" using composition_step_inv [OF inv composition_step.create [OF assms(2)]] .
  then have "ids_ok db'" by (simp add: comp_inv_def)
  then have "\<exists>x. createDraft js compile later fresh \<lparr>dr_workspace = w, dr_scope = s, dr_mode = Some (pt_mode pt), dr_based = None, dr_creator = creator,
      dr_content = pt_content pt, dr_id = None\<rparr> db' = Inr x"
    using createDraft_succeeds [OF _ assms(3), where inp = "\<lparr>dr_workspace = w, dr_scope = s, dr_mode = Some (pt_mode pt), dr_based = None, dr_creator = creator,
      dr_content = pt_content pt, dr_id = None\<rparr>" and new = fresh and compile = compile and js = js and now = later] valid by auto
  then show ?thesis using export valid digests format by (intro exI [of _ pt]) (auto simp: importRevision_def throw_if_def)
qed

theorem fresh_draft_import_exact_witness:
  "\<exists>pt. exportRevision ''r1'' twin_db = Inr pt
     \<and> importRevision flow_js flow_compile ''z'' ''r2'' ''w'' ''s'' pt None twin_db = Inl (Comp_Invalid digest_mismatch)"
proof -
  obtain r where created: "createDraft flow_js flow_compile ''y'' ''r1'' flow_draft flow_start = Inr (r, twin_db)" using twin_created by blast
  have id: "re_id r = ''r1''" using created twin_revision by (auto simp: createDraft_def Let_def result_simps flow_draft_def rowToRevision_def twin_row_fields)
  have start: "(composition_step flow_js flow_compile)\<^sup>*\<^sup>* empty_compositions flow_start" by (rule r_into_rtranclp) (rule flow_starts)
  have fresh: "getRevision twin_db ''r2'' = None" by (simp add: getRevision_def twin_scopes row_where_def twin_row_fields)
  have differ: "scopeCompositionDigest flow_js (stored_content (dr_content flow_draft)) \<noteq> scopeCompositionDigest flow_js (dr_content flow_draft)"
    by (simp add: flow_draft_def twin_digests)
  from fresh_draft_import_exact [OF start created fresh, where later = "''z''" and w = "''w''" and s = "''s''" and creator = None] differ id show ?thesis by metis
qed

end
