(* ===== verification/Audit_Store.thy ===== *)
theory Audit_Store
  imports Operations
begin

text \<open>
  \<^verbatim>\<open>floe-bus/src/audit.ts\<close>: the log of requests and outcomes of semantic operations. Both tables are only
  appended to. A JSON column is the value it encodes; clock and generated identifier are arguments. A
  digest covers the normalised record with the time it was taken at, without the identifier of a request.
\<close>

section \<open>Records\<close>

datatype audit_error = Audit_Invalid string | Audit_Conflict string string

datatype outcome_state = Audit_Accepted | Audit_Completed | Audit_Refused | Audit_Unknown

record audit_request =
  ar_id :: string
  ar_workspace :: "string option"
  ar_invocation :: string
  ar_principal :: string
  ar_boundary :: boundary
  ar_grants :: "string list"
  ar_mode :: interaction_mode
  ar_operation :: string
  ar_version :: string
  ar_target :: "resource_ref option"
  ar_expected :: "string option"
  ar_key :: string
  ar_schema :: string
  ar_input :: string
  ar_summary :: json
  ar_reason :: "string option"
  ar_artefacts :: "string list"
  ar_provenance :: provenance
  ar_evaluation :: "string option"
  ar_reservation :: "string option"
  ar_digest :: string
  ar_started :: string

record audit_outcome =
  ao_id :: string
  ao_state :: outcome_state
  ao_schema :: string
  ao_result :: "string option"
  ao_summary :: json
  ao_refusal :: "op_refusal option"
  ao_changed :: "resource_ref list"
  ao_target :: "resource_ref option"
  ao_prior :: "string option"
  ao_resulting :: "string option"
  ao_artefacts :: "string list"
  ao_completed :: string

record outcome_row =
  ow_outcome :: audit_outcome
  ow_digest :: string

record audit_record =
  au_request :: audit_request
  au_outcome :: "audit_outcome option"

record audit_db =
  ad_requests :: "audit_request list"
  ad_outcomes :: "outcome_row list"

definition empty_audit :: audit_db where
  "empty_audit = \<lparr>ad_requests = [], ad_outcomes = []\<rparr>"

section \<open>Normal forms\<close>

definition audit_text :: "string \<Rightarrow> string \<Rightarrow> (audit_error, string) result" where
  "audit_text v label = (if is_blank v then Inl (Audit_Invalid (label @ '' is required'')) else Inr (js_trim v))"

definition audit_nullable :: "string option \<Rightarrow> (audit_error, string option) result" where
  "audit_nullable v = (case v of None \<Rightarrow> Inr None | Some t \<Rightarrow> rbind (audit_text t ''audit field'') (\<lambda>t'. Inr (Some t')))"

definition audit_unique :: "string list \<Rightarrow> (audit_error, string list) result" where
  "audit_unique vs = rbind (rmapM (\<lambda>v. audit_text v ''audit reference'') vs) (\<lambda>ts. Inr (sortedUnique ts))"

definition sha_char :: "char \<Rightarrow> bool" where
  "sha_char c = (let n = of_char c :: nat in (48 \<le> n \<and> n \<le> 57) \<or> (97 \<le> n \<and> n \<le> 102))"

definition audit_sha :: "string \<Rightarrow> string \<Rightarrow> (audit_error, string) result" where
  "audit_sha v label = rbind (audit_text v label) (\<lambda>t.
     if length t = 64 \<and> list_all sha_char t then Inr t else Inl (Audit_Invalid (label @ '' must be a SHA-256 digest'')))"

definition audit_sha_opt :: "string option \<Rightarrow> string \<Rightarrow> (audit_error, string option) result" where
  "audit_sha_opt v label = (case v of None \<Rightarrow> Inr None | Some t \<Rightarrow> rbind (audit_sha t label) (\<lambda>t'. Inr (Some t')))"

definition audit_time :: "platform \<Rightarrow> string \<Rightarrow> string \<Rightarrow> (audit_error, string) result" where
  "audit_time js v label = rbind (audit_text v label) (\<lambda>t.
     if date_parse js t = None then Inl (Audit_Invalid (label @ '' must be a timestamp'')) else Inr t)"

definition audit_object :: "json \<Rightarrow> string \<Rightarrow> (audit_error, json) result" where
  "audit_object v label = (case v of JObj _ \<Rightarrow> Inr v | _ \<Rightarrow> Inl (Audit_Invalid (label @ '' must be an object'')))"

definition audit_ref :: "resource_ref \<Rightarrow> (audit_error, resource_ref) result" where
  "audit_ref r = rbind (audit_text (ref_kind r) ''resource kind'') (\<lambda>k. rbind (audit_text (ref_id r) ''resource id'') (\<lambda>i.
     rbind (case ref_revision r of None \<Rightarrow> Inr None | Some v \<Rightarrow> rbind (audit_text v ''resource revision'') (\<lambda>t. Inr (Some t))) (\<lambda>v.
     Inr \<lparr>ref_kind = k, ref_id = i, ref_revision = v\<rparr>)))"

definition audit_ref_opt :: "resource_ref option \<Rightarrow> (audit_error, resource_ref option) result" where
  "audit_ref_opt r = (case r of None \<Rightarrow> Inr None | Some x \<Rightarrow> rbind (audit_ref x) (\<lambda>y. Inr (Some y)))"

definition audit_provenance :: "provenance \<Rightarrow> (audit_error, provenance) result" where
  "audit_provenance p =
     rbind (audit_nullable (cause_event_id p)) (\<lambda>c.
     rbind (audit_unique (delivery_ids p)) (\<lambda>ds.
     rbind (audit_nullable (execution_attempt_id p)) (\<lambda>a.
     rbind (audit_nullable (node_execution_id p)) (\<lambda>n.
     rbind (audit_nullable (prov_scope_execution_id p)) (\<lambda>s.
     Inr \<lparr>cause_event_id = c, delivery_ids = ds, execution_attempt_id = a, node_execution_id = n, prov_scope_execution_id = s\<rparr>)))))"

definition audit_boundary :: "boundary \<Rightarrow> (audit_error, boundary) result" where
  "audit_boundary b = (case b of Workspace w \<Rightarrow> rbind (audit_text w ''workspace_id'') (\<lambda>t. Inr (Workspace t))
     | Host h \<Rightarrow> rbind (audit_text h ''host_id'') (\<lambda>t. Inr (Host t)))"

definition boundary_workspace :: "boundary \<Rightarrow> string option" where
  "boundary_workspace b = (case b of Workspace w \<Rightarrow> Some w | Host _ \<Rightarrow> None)"

definition normalizeRequest :: "platform \<Rightarrow> audit_request \<Rightarrow> (audit_error, audit_request) result" where
  "normalizeRequest js r =
     rbind (audit_boundary (ar_boundary r)) (\<lambda>b.
     throw_if (ar_workspace r \<noteq> boundary_workspace b) (Audit_Invalid ''workspace_id must match the authenticated authority boundary'')
     (rbind (audit_text (ar_id r) ''audit_id'') (\<lambda>i.
     rbind (audit_text (ar_invocation r) ''invocation_id'') (\<lambda>inv.
     rbind (audit_text (ar_principal r) ''principal_id'') (\<lambda>who.
     rbind (audit_unique (ar_grants r)) (\<lambda>gs.
     rbind (audit_text (ar_operation r) ''operation_id'') (\<lambda>op.
     rbind (audit_text (ar_version r) ''operation_version'') (\<lambda>ver.
     rbind (audit_ref_opt (ar_target r)) (\<lambda>tgt.
     rbind (audit_nullable (ar_expected r)) (\<lambda>ex.
     rbind (audit_text (ar_key r) ''idempotency_key'') (\<lambda>key.
     rbind (audit_text (ar_schema r) ''input_schema_version'') (\<lambda>sch.
     rbind (audit_sha (ar_input r) ''input_digest'') (\<lambda>inp.
     rbind (audit_object (ar_summary r) ''request_summary'') (\<lambda>summ.
     rbind (audit_nullable (ar_reason r)) (\<lambda>why.
     rbind (audit_unique (ar_artefacts r)) (\<lambda>arts.
     rbind (audit_provenance (ar_provenance r)) (\<lambda>prov.
     rbind (audit_nullable (ar_evaluation r)) (\<lambda>ev.
     rbind (audit_nullable (ar_reservation r)) (\<lambda>res.
     rbind (audit_time js (ar_started r) ''started_at'') (\<lambda>t.
     Inr \<lparr>ar_id = i, ar_workspace = boundary_workspace b, ar_invocation = inv, ar_principal = who, ar_boundary = b, ar_grants = gs,
       ar_mode = ar_mode r, ar_operation = op, ar_version = ver, ar_target = tgt, ar_expected = ex, ar_key = key, ar_schema = sch,
       ar_input = inp, ar_summary = summ, ar_reason = why, ar_artefacts = arts, ar_provenance = prov, ar_evaluation = ev,
       ar_reservation = res, ar_digest = ar_digest r, ar_started = t\<rparr>))))))))))))))))))))"

text \<open>A refusal of the result is any refusal; only its presence is tied to the state.\<close>

definition normalizeOutcome :: "platform \<Rightarrow> audit_outcome \<Rightarrow> (audit_error, audit_outcome) result" where
  "normalizeOutcome js r =
     throw_if (ao_state r = Audit_Refused \<and> ao_refusal r = None) (Audit_Invalid ''a refused outcome requires its structured refusal'')
     (throw_if ((ao_state r = Audit_Accepted \<or> ao_state r = Audit_Completed) \<and> ao_refusal r \<noteq> None)
       (Audit_Invalid ''an accepted or completed outcome cannot contain a refusal'')
     (rbind (audit_text (ao_id r) ''audit_id'') (\<lambda>i.
     rbind (audit_text (ao_schema r) ''result_schema_version'') (\<lambda>sch.
     rbind (audit_sha_opt (ao_result r) ''result_digest'') (\<lambda>dg.
     rbind (audit_object (ao_summary r) ''result_summary'') (\<lambda>summ.
     rbind (rmapM audit_ref (ao_changed r)) (\<lambda>ch.
     rbind (audit_ref_opt (ao_target r)) (\<lambda>tgt.
     rbind (audit_sha_opt (ao_prior r) ''prior_state_digest'') (\<lambda>pr.
     rbind (audit_sha_opt (ao_resulting r) ''resulting_state_digest'') (\<lambda>rs.
     rbind (audit_unique (ao_artefacts r)) (\<lambda>arts.
     rbind (audit_time js (ao_completed r) ''completed_at'') (\<lambda>t.
     Inr \<lparr>ao_id = i, ao_state = ao_state r, ao_schema = sch, ao_result = dg, ao_summary = summ, ao_refusal = ao_refusal r, ao_changed = ch,
       ao_target = tgt, ao_prior = pr, ao_resulting = rs, ao_artefacts = arts, ao_completed = t\<rparr>))))))))))))"

section \<open>Digests\<close>

definition audit_ref_json :: "resource_ref \<Rightarrow> json" where
  "audit_ref_json r = JObj [(''kind'', JStr (ref_kind r)), (''id'', JStr (ref_id r)), (''revision'', jopt JStr (ref_revision r))]"

text \<open>The optional fields of an action reference are left out when they are absent.\<close>

definition action_ref_json :: "action_ref \<Rightarrow> json" where
  "action_ref_json a = JObj ([(''operation_id'', JStr (ac_operation a))] @ field ''operation_version'' JStr (ac_version a)
     @ field ''target'' identity_json (ac_target a))"

definition refusal_object :: "op_refusal \<Rightarrow> json" where
  "refusal_object f = JObj [(''code'', JStr (rf_code f)), (''message'', JStr (rf_message f)), (''retryable'', JBool (rf_retryable f)),
     (''required_action'', jopt (\<lambda>a. JObj [(''code'', JStr (rq_code a)), (''title'', JStr (rq_title a)),
        (''description'', JStr (rq_description a)), (''operation'', jopt action_ref_json (rq_operation a))]) (rf_action f)),
     (''details'', rf_details f)]"

definition requestDigestContent :: "audit_request \<Rightarrow> json" where
  "requestDigestContent r = JObj [(''workspace_id'', jopt JStr (ar_workspace r)), (''invocation_id'', JStr (ar_invocation r)),
     (''principal_id'', JStr (ar_principal r)), (''authority_boundary'', boundary_json (ar_boundary r)),
     (''capability_grant_ids'', jtexts (ar_grants r)), (''interaction_mode'', JStr (mode_text (ar_mode r))),
     (''operation_id'', JStr (ar_operation r)), (''operation_version'', JStr (ar_version r)),
     (''target_before'', jopt audit_ref_json (ar_target r)), (''expected_resource_revision'', jopt JStr (ar_expected r)),
     (''idempotency_key'', JStr (ar_key r)), (''input_schema_version'', JStr (ar_schema r)), (''input_digest'', JStr (ar_input r)),
     (''request_summary'', ar_summary r), (''reason'', jopt JStr (ar_reason r)), (''artefact_version_ids'', jtexts (ar_artefacts r)),
     (''provenance'', provenance_json (ar_provenance r)), (''policy_evaluation_id'', jopt JStr (ar_evaluation r)),
     (''budget_reservation_id'', jopt JStr (ar_reservation r)), (''started_at'', JStr (ar_started r))]"

definition outcome_state_text :: "outcome_state \<Rightarrow> string" where
  "outcome_state_text s = (case s of Audit_Accepted \<Rightarrow> ''accepted'' | Audit_Completed \<Rightarrow> ''completed'' | Audit_Refused \<Rightarrow> ''refused'' | Audit_Unknown \<Rightarrow> ''outcome_unknown'')"

definition outcome_json :: "audit_outcome \<Rightarrow> json" where
  "outcome_json r = JObj [(''audit_id'', JStr (ao_id r)), (''state'', JStr (outcome_state_text (ao_state r))), (''result_schema_version'', JStr (ao_schema r)),
     (''result_digest'', jopt JStr (ao_result r)), (''result_summary'', ao_summary r), (''refusal'', jopt refusal_object (ao_refusal r)),
     (''changed_refs'', JArr (map audit_ref_json (ao_changed r))), (''target_after'', jopt audit_ref_json (ao_target r)),
     (''prior_state_digest'', jopt JStr (ao_prior r)), (''resulting_state_digest'', jopt JStr (ao_resulting r)),
     (''affected_artefact_version_ids'', jtexts (ao_artefacts r)), (''completed_at'', JStr (ao_completed r))]"

section \<open>The store\<close>

definition getOutcome :: "audit_db \<Rightarrow> string \<Rightarrow> audit_outcome option" where
  "getOutcome db i = map_option ow_outcome (row_where (\<lambda>w. ao_id (ow_outcome w) = i) (ad_outcomes db))"

definition audit_of :: "audit_db \<Rightarrow> audit_request \<Rightarrow> audit_record" where
  "audit_of db r = \<lparr>au_request = r, au_outcome = getOutcome db (ar_id r)\<rparr>"

definition getAudit :: "audit_db \<Rightarrow> string \<Rightarrow> audit_record option" where
  "getAudit db i = map_option (audit_of db) (row_where (\<lambda>r. ar_id r = i) (ad_requests db))"

definition requireAudit :: "audit_db \<Rightarrow> string \<Rightarrow> (audit_error, audit_record) result" where
  "requireAudit db i = (case getAudit db i of None \<Rightarrow> Inl (Audit_Invalid (''audit was not found: '' @ i)) | Some r \<Rightarrow> Inr r)"

definition getAuditByInvocation :: "audit_db \<Rightarrow> string \<Rightarrow> audit_record option" where
  "getAuditByInvocation db i = map_option (audit_of db) (row_where (\<lambda>r. ar_invocation r = i) (ad_requests db))"

text \<open>Identifier and time are optional in the input; a generated identifier may still be taken.\<close>

record begin_input =
  bi_request :: audit_request
  bi_id :: "string option"
  bi_started :: "string option"

definition stamp_request :: "string \<Rightarrow> string \<Rightarrow> begin_input \<Rightarrow> audit_request" where
  "stamp_request now fresh inp = (bi_request inp)\<lparr>ar_id := (case bi_id inp of None \<Rightarrow> fresh | Some i \<Rightarrow> i), ar_digest := [],
     ar_started := (case bi_started inp of None \<Rightarrow> now | Some t \<Rightarrow> t)\<rparr>"

definition beginAudit :: "platform \<Rightarrow> string \<Rightarrow> string \<Rightarrow> begin_input \<Rightarrow> audit_db \<Rightarrow> (audit_error, audit_request \<times> audit_db) result" where
  "beginAudit js now fresh inp db =
     rbind (normalizeRequest js (stamp_request now fresh inp)) (\<lambda>n.
     let dg = json_digest js (requestDigestContent n); r = n\<lparr>ar_digest := dg\<rparr> in
     case getAuditByInvocation db (ar_invocation r) of
       Some old \<Rightarrow> throw_if (ar_digest (au_request old) \<noteq> dg)
         (Audit_Conflict (ar_invocation r) ''the invocation was already recorded with a different request'') (Inr (au_request old, db))
     | None \<Rightarrow>
         if list_ex (\<lambda>x. ar_id x = ar_id r) (ad_requests db)
         then Inl (Audit_Conflict (ar_invocation r) ''the invocation was recorded concurrently with different evidence'')
         else let db' = db\<lparr>ad_requests := ad_requests db @ [r]\<rparr> in
           rbind (requireAudit db' (ar_id r)) (\<lambda>a. Inr (au_request a, db')))"

record complete_input =
  co_outcome :: audit_outcome
  co_completed :: "string option"

definition completeAudit :: "platform \<Rightarrow> string \<Rightarrow> complete_input \<Rightarrow> audit_db \<Rightarrow> (audit_error, audit_outcome \<times> audit_db) result" where
  "completeAudit js now inp db =
     rbind (requireAudit db (ao_id (co_outcome inp))) (\<lambda>a.
     rbind (normalizeOutcome js ((co_outcome inp)\<lparr>ao_completed := (case co_completed inp of None \<Rightarrow> now | Some t \<Rightarrow> t)\<rparr>)) (\<lambda>n.
     let dg = json_digest js (outcome_json n); i = ar_id (au_request a) in
     case row_where (\<lambda>w. ao_id (ow_outcome w) = i) (ad_outcomes db) of
       Some w \<Rightarrow> throw_if (ow_digest w \<noteq> dg) (Audit_Conflict (ar_invocation (au_request a)) ''the outcome was already recorded differently'')
         (Inr (ow_outcome w, db))
     | None \<Rightarrow> Inr (n, db\<lparr>ad_outcomes := ad_outcomes db @ [\<lparr>ow_outcome = n, ow_digest = dg\<rparr>]\<rparr>)))"

record audit_filter =
  af_workspace :: "string option option"
  af_principal :: "string option"
  af_operation :: "string option"
  af_state :: "outcome_state option"
  af_limit :: "rat option"

definition given :: "string option \<Rightarrow> string \<Rightarrow> bool" where
  "given f v = (case f of None \<Rightarrow> True | Some [] \<Rightarrow> True | Some t \<Rightarrow> v = t)"

definition selects :: "audit_filter \<Rightarrow> audit_record \<Rightarrow> bool" where
  "selects f a = ((case af_workspace f of None \<Rightarrow> True | Some w \<Rightarrow> ar_workspace (au_request a) = w)
     \<and> given (af_principal f) (ar_principal (au_request a)) \<and> given (af_operation f) (ar_operation (au_request a))
     \<and> (case af_state f of None \<Rightarrow> True | Some s \<Rightarrow> map_option ao_state (au_outcome a) = Some s))"

definition newest_audit :: "audit_request \<Rightarrow> audit_request \<Rightarrow> int" where
  "newest_audit = or_compare (\<lambda>l r. binary_compare (ar_started r) (ar_started l)) (\<lambda>l r. binary_compare (ar_id r) (ar_id l))"

definition audit_limit :: "audit_filter \<Rightarrow> nat" where
  "audit_limit f = nat (min (max (case af_limit f of None \<Rightarrow> 100 | Some l \<Rightarrow> \<lfloor>l\<rfloor>) 1) 500)"

definition listAudits :: "audit_filter \<Rightarrow> audit_db \<Rightarrow> audit_record list" where
  "listAudits f db = map (audit_of db) (take (audit_limit f) (js_sort newest_audit (filter (\<lambda>r. selects f (audit_of db r)) (ad_requests db))))"

section \<open>Steps\<close>

inductive audit_step :: "platform \<Rightarrow> audit_db \<Rightarrow> audit_db \<Rightarrow> bool" for js where
  starts: "beginAudit js now fresh inp db = Inr (r, db') \<Longrightarrow> audit_step js db db'"
| completes: "completeAudit js now inp db = Inr (r, db') \<Longrightarrow> audit_step js db db'"

end
