(* ===== verification/Audit_Properties.thy ===== *)
theory Audit_Properties
  imports Audit_Store Normal_Forms
begin

text \<open>
  What the audit log keeps: normal forms are fixed points, every record is bound to its digest, and no
  step changes or removes a record.
\<close>

section \<open>Normal forms\<close>

lemma audit_text_Inr [result_simps]: "audit_text v l = Inr w \<longleftrightarrow> \<not> is_blank v \<and> w = js_trim v"
  by (auto simp: audit_text_def)

lemma audit_text_fixed: "audit_text v l = Inr w \<Longrightarrow> audit_text w m = Inr w"
  by (auto simp: result_simps)

lemma audit_nullable_fixed: "audit_nullable v = Inr w \<Longrightarrow> audit_nullable w = Inr w"
  by (auto simp: audit_nullable_def result_simps split: option.splits)

lemma audit_unique_fixed: "audit_unique vs = Inr ws \<Longrightarrow> audit_unique ws = Inr ws"
proof -
  assume "audit_unique vs = Inr ws"
  then obtain ts where ts: "rmapM (\<lambda>v. audit_text v ''audit reference'') vs = Inr ts" "ws = sortedUnique ts"
    by (auto simp: audit_unique_def result_simps)
  then have "list_all2 (\<lambda>v t. audit_text v ''audit reference'' = Inr t) vs ts" by (simp add: rmapM_Inr_iff)
  then have "audit_text t ''audit reference'' = Inr t" if "t \<in> set ts" for t
    using that by (auto simp: list_all2_conv_all_nth in_set_conv_nth intro: audit_text_fixed)
  then have "rmapM (\<lambda>v. audit_text v ''audit reference'') ws = Inr ws" using ts(2) by (intro rmapM_fixed) simp
  then show ?thesis using ts(2) by (simp add: audit_unique_def)
qed

lemma audit_sha_fixed: "audit_sha v l = Inr w \<Longrightarrow> audit_sha w m = Inr w"
  by (auto simp: audit_sha_def result_simps split: if_splits)

lemma audit_sha_opt_fixed: "audit_sha_opt v l = Inr w \<Longrightarrow> audit_sha_opt w m = Inr w"
  by (auto simp: audit_sha_opt_def result_simps split: option.splits dest: audit_sha_fixed)

lemma audit_time_fixed: "audit_time js v l = Inr w \<Longrightarrow> audit_time js w m = Inr w"
  by (auto simp: audit_time_def result_simps split: if_splits)

lemma audit_object_fixed: "audit_object v l = Inr w \<Longrightarrow> audit_object w m = Inr w"
  by (auto simp: audit_object_def split: json.splits)

lemma audit_ref_fixed: "audit_ref r = Inr s \<Longrightarrow> audit_ref s = Inr s"
  by (auto simp: audit_ref_def result_simps split: option.splits)

lemma audit_ref_opt_fixed: "audit_ref_opt r = Inr s \<Longrightarrow> audit_ref_opt s = Inr s"
  by (auto simp: audit_ref_opt_def result_simps split: option.splits dest: audit_ref_fixed)

lemma audit_refs_fixed: "rmapM audit_ref rs = Inr ss \<Longrightarrow> rmapM audit_ref ss = Inr ss"
  by (rule rmapM_fixed) (auto simp: rmapM_Inr_iff list_all2_conv_all_nth in_set_conv_nth intro: audit_ref_fixed)

lemma audit_provenance_fixed: "audit_provenance p = Inr q \<Longrightarrow> audit_provenance q = Inr q"
  unfolding audit_provenance_def by (elim rbind_InrE) (auto simp: audit_nullable_fixed audit_unique_fixed)

lemma audit_boundary_fixed: "audit_boundary b = Inr c \<Longrightarrow> audit_boundary c = Inr c"
  by (auto simp: audit_boundary_def result_simps split: boundary.splits)

lemmas audit_fixed = audit_text_fixed audit_nullable_fixed audit_unique_fixed audit_sha_fixed audit_sha_opt_fixed audit_time_fixed
  audit_object_fixed audit_ref_opt_fixed audit_refs_fixed audit_provenance_fixed audit_boundary_fixed

lemma normalizeRequest_fixed: "normalizeRequest js r = Inr n \<Longrightarrow> normalizeRequest js (n\<lparr>ar_digest := d\<rparr>) = Inr (n\<lparr>ar_digest := d\<rparr>)"
  unfolding normalizeRequest_def [of js r]
  by (elim rbind_InrE throw_if_InrE) (drule sum.inject(2) [THEN iffD1], hypsubst, simp add: normalizeRequest_def audit_fixed)

lemma normalizeOutcome_fixed: "normalizeOutcome js r = Inr n \<Longrightarrow> normalizeOutcome js n = Inr n"
  unfolding normalizeOutcome_def [of js r]
  by (elim rbind_InrE throw_if_InrE) (drule sum.inject(2) [THEN iffD1], hypsubst, auto simp: normalizeOutcome_def audit_fixed throw_if_def)

lemma normalizeRequest_id: "normalizeRequest js r = Inr n \<Longrightarrow> ar_id n = js_trim (ar_id r) \<and> ar_invocation n = js_trim (ar_invocation r)"
  unfolding normalizeRequest_def by (elim rbind_InrE throw_if_InrE) (auto simp: result_simps)

lemma normalizeOutcome_id: "normalizeOutcome js r = Inr n \<Longrightarrow> ao_id n = js_trim (ao_id r)"
  unfolding normalizeOutcome_def by (elim rbind_InrE throw_if_InrE) (auto simp: result_simps)

section \<open>The invariant\<close>

definition sound_request :: "platform \<Rightarrow> audit_request \<Rightarrow> bool" where
  "sound_request js r \<longleftrightarrow> normalizeRequest js r = Inr r \<and> ar_digest r = json_digest js (requestDigestContent r)"

definition sound_outcome :: "platform \<Rightarrow> outcome_row \<Rightarrow> bool" where
  "sound_outcome js w \<longleftrightarrow> normalizeOutcome js (ow_outcome w) = Inr (ow_outcome w) \<and> ow_digest w = json_digest js (outcome_json (ow_outcome w))"

definition outcome_key :: "outcome_row \<Rightarrow> string" where
  "outcome_key w = ao_id (ow_outcome w)"

definition audit_inv :: "platform \<Rightarrow> audit_db \<Rightarrow> bool" where
  "audit_inv js db \<longleftrightarrow> distinct (map ar_id (ad_requests db)) \<and> distinct (map ar_invocation (ad_requests db)) \<and> distinct (map outcome_key (ad_outcomes db))
     \<and> (\<forall>r \<in> set (ad_requests db). sound_request js r) \<and> (\<forall>w \<in> set (ad_outcomes db). sound_outcome js w \<and> outcome_key w \<in> ar_id ` set (ad_requests db))"

text \<open>What a step does: nothing, or one new request, or the outcome of a request that has none.\<close>

definition audit_extends :: "platform \<Rightarrow> audit_db \<Rightarrow> audit_db \<Rightarrow> bool" where
  "audit_extends js db db' \<longleftrightarrow> db' = db
     \<or> (\<exists>r. sound_request js r \<and> ar_id r \<notin> ar_id ` set (ad_requests db) \<and> ar_invocation r \<notin> ar_invocation ` set (ad_requests db)
          \<and> db' = db\<lparr>ad_requests := ad_requests db @ [r]\<rparr>)
     \<or> (\<exists>w. sound_outcome js w \<and> outcome_key w \<in> ar_id ` set (ad_requests db) \<and> outcome_key w \<notin> outcome_key ` set (ad_outcomes db)
          \<and> db' = db\<lparr>ad_outcomes := ad_outcomes db @ [w]\<rparr>)"

lemma getAudit_None: "getAudit db i = None \<longleftrightarrow> i \<notin> ar_id ` set (ad_requests db)"
  by (auto simp: getAudit_def row_where_None_iff)

lemma getAudit_SomeD: "getAudit db i = Some a \<Longrightarrow> au_request a \<in> set (ad_requests db) \<and> ar_id (au_request a) = i \<and> a = audit_of db (au_request a)"
  by (auto simp: getAudit_def audit_of_def dest!: row_where_SomeD)

lemma requireAudit_Inr [result_simps]: "requireAudit db i = Inr a \<longleftrightarrow> getAudit db i = Some a"
  by (auto simp: requireAudit_def split: option.splits)

lemma getAuditByInvocation_None: "getAuditByInvocation db i = None \<longleftrightarrow> i \<notin> ar_invocation ` set (ad_requests db)"
  by (auto simp: getAuditByInvocation_def row_where_None_iff)

lemma getAuditByInvocation_SomeD:
  "getAuditByInvocation db i = Some a \<Longrightarrow> au_request a \<in> set (ad_requests db) \<and> ar_invocation (au_request a) = i \<and> a = audit_of db (au_request a)"
  by (auto simp: getAuditByInvocation_def audit_of_def dest!: row_where_SomeD)

lemma beginAudit_cases:
  assumes "beginAudit js now fresh inp db = Inr (r, db')"
  obtains (old) a where "getAuditByInvocation db (ar_invocation r) = Some a" "r = au_request a" "db' = db"
  | (new) n where "normalizeRequest js (stamp_request now fresh inp) = Inr n" "r = n\<lparr>ar_digest := json_digest js (requestDigestContent n)\<rparr>"
      "getAuditByInvocation db (ar_invocation r) = None" "ar_id r \<notin> ar_id ` set (ad_requests db)" "db' = db\<lparr>ad_requests := ad_requests db @ [r]\<rparr>"
proof -
  from assms obtain n where n: "normalizeRequest js (stamp_request now fresh inp) = Inr n"
    by (auto simp: beginAudit_def result_simps)
  let ?dg = "json_digest js (requestDigestContent n)"
  let ?r = "n\<lparr>ar_digest := ?dg\<rparr>"
  note b = assms [unfolded beginAudit_def n rbind_simps Let_def]
  show thesis
  proof (cases "getAuditByInvocation db (ar_invocation n)")
    case (Some a)
    then have "r = au_request a" "db' = db" using b by (simp_all add: throw_if_Inr_iff)
    with Some getAuditByInvocation_SomeD [OF Some] show thesis by (intro old) auto
  next
    case None
    let ?db = "db\<lparr>ad_requests := ad_requests db @ [?r]\<rparr>"
    from None b have fresh: "ar_id n \<notin> ar_id ` set (ad_requests db)" by (auto simp: list_ex_iff split: if_splits)
    then have "row_where (\<lambda>x. ar_id x = ar_id n) (ad_requests db) = None" by (simp add: row_where_None_iff) (metis image_eqI)
    then have "getAudit ?db (ar_id n) = Some (audit_of ?db ?r)" by (simp add: getAudit_def row_where_append)
    with None b fresh have "r = ?r" "db' = ?db" by (auto simp: list_ex_iff requireAudit_def audit_of_def split: if_splits)
    with n None fresh show thesis by (intro new [OF n]) simp_all
  qed
qed

lemma sound_new: "normalizeRequest js x = Inr n \<Longrightarrow> sound_request js (n\<lparr>ar_digest := json_digest js (requestDigestContent n)\<rparr>)"
  by (simp add: sound_request_def normalizeRequest_fixed) (simp add: requestDigestContent_def)

lemma audit_step_extends:
  assumes "audit_step js db db'" and "audit_inv js db"
  shows "audit_extends js db db'"
  using assms(1)
proof cases
  case (starts now fresh inp r)
  from starts show ?thesis
  proof (cases rule: beginAudit_cases)
    case old
    then show ?thesis by (simp add: audit_extends_def)
  next
    case (new n)
    then show ?thesis using sound_new [OF new(1)] by (auto simp: audit_extends_def getAuditByInvocation_None)
  qed
next
  case (completes now inp o')
  then obtain a n where a: "getAudit db (ao_id (co_outcome inp)) = Some a"
      "normalizeOutcome js ((co_outcome inp)\<lparr>ao_completed := (case co_completed inp of None \<Rightarrow> now | Some t \<Rightarrow> t)\<rparr>) = Inr n"
    by (auto simp: completeAudit_def result_simps)
  let ?w = "\<lparr>ow_outcome = n, ow_digest = json_digest js (outcome_json n)\<rparr>"
  have sound: "sound_outcome js ?w" using normalizeOutcome_fixed [OF a(2)] by (simp add: sound_outcome_def)
  have req: "au_request a \<in> set (ad_requests db)" "ar_id (au_request a) = ao_id (co_outcome inp)" using getAudit_SomeD [OF a(1)] by simp_all
  then have "normalizeRequest js (au_request a) = Inr (au_request a)" using assms(2) by (simp add: audit_inv_def sound_request_def)
  then have "js_trim (ar_id (au_request a)) = ar_id (au_request a)" using normalizeRequest_id by metis
  then have id: "ao_id n = ar_id (au_request a)" using normalizeOutcome_id [OF a(2)] req(2) by simp
  show ?thesis
  proof (cases "row_where (\<lambda>w. ao_id (ow_outcome w) = ar_id (au_request a)) (ad_outcomes db)")
    case (Some w)
    then show ?thesis using completes a by (auto simp: completeAudit_def result_simps requireAudit_def Let_def audit_extends_def)
  next
    case None
    then have "db' = db\<lparr>ad_outcomes := ad_outcomes db @ [?w]\<rparr>" using completes a by (auto simp: completeAudit_def requireAudit_def Let_def)
    moreover have "outcome_key ?w \<notin> outcome_key ` set (ad_outcomes db)" using None id by (auto simp: row_where_None_iff outcome_key_def)
    moreover have "outcome_key ?w \<in> ar_id ` set (ad_requests db)" using id req(1) by (simp add: outcome_key_def)
    ultimately show ?thesis using sound by (auto simp: audit_extends_def)
  qed
qed

lemma audit_extends_inv: "audit_extends js db db' \<Longrightarrow> audit_inv js db \<Longrightarrow> audit_inv js db'"
  by (auto simp: audit_extends_def audit_inv_def)

lemma audit_run_inv: "(audit_step js)\<^sup>*\<^sup>* db db' \<Longrightarrow> audit_inv js db \<Longrightarrow> audit_inv js db'"
  by (induction rule: rtranclp_induct) (auto intro: audit_extends_inv audit_step_extends)

lemma audit_reachable_inv: "(audit_step js)\<^sup>*\<^sup>* empty_audit db \<Longrightarrow> audit_inv js db"
  by (erule audit_run_inv) (simp add: audit_inv_def empty_audit_def)

lemma audit_run_grows:
  "(audit_step js)\<^sup>*\<^sup>* db db' \<Longrightarrow> audit_inv js db
    \<Longrightarrow> set (ad_requests db) \<subseteq> set (ad_requests db') \<and> set (ad_outcomes db) \<subseteq> set (ad_outcomes db')"
proof (induction rule: rtranclp_induct)
  case (step y z)
  then have "audit_extends js y z" by (blast intro: audit_step_extends audit_run_inv)
  then have "set (ad_requests y) \<subseteq> set (ad_requests z) \<and> set (ad_outcomes y) \<subseteq> set (ad_outcomes z)" by (auto simp: audit_extends_def)
  then show ?case using step by blast
qed simp

lemma audit_lookups:
  assumes "audit_inv js db" and "r \<in> set (ad_requests db)"
  shows "getAudit db (ar_id r) = Some (audit_of db r)" and "getAuditByInvocation db (ar_invocation r) = Some (audit_of db r)"
  using assms row_where_key [of ar_id "ad_requests db" r] row_where_key [of ar_invocation "ad_requests db" r]
  by (simp_all add: audit_inv_def getAudit_def getAuditByInvocation_def)

lemma getOutcome_iff: "audit_inv js db \<Longrightarrow> getOutcome db i = Some out \<longleftrightarrow> (\<exists>w \<in> set (ad_outcomes db). outcome_key w = i \<and> ow_outcome w = out)"
proof
  assume inv: "audit_inv js db" and "\<exists>w \<in> set (ad_outcomes db). outcome_key w = i \<and> ow_outcome w = out"
  then obtain w where "w \<in> set (ad_outcomes db)" "outcome_key w = i" "ow_outcome w = out" by blast
  then show "getOutcome db i = Some out"
    using inv row_where_key [of outcome_key "ad_outcomes db" w] by (simp add: audit_inv_def getOutcome_def outcome_key_def)
qed (auto simp: getOutcome_def outcome_key_def dest!: row_where_SomeD)

section \<open>A worked run\<close>

text \<open>The digest of the run keeps the digits one and two of a text, which occur in its instants alone.\<close>

definition log_js :: platform where
  "log_js = sample_platform\<lparr>sha256_hex := filter (\<lambda>c. c = CHR ''1'' \<or> c = CHR ''2''), locale_compare := (\<lambda>_ _. 0)\<rparr>"

definition log_input :: begin_input where
  "log_input = \<lparr>bi_request = \<lparr>ar_id = [], ar_workspace = Some ''w'', ar_invocation = ''i'', ar_principal = ''p'', ar_boundary = Workspace ''w'', ar_grants = [],
       ar_mode = Interactive, ar_operation = ''o'', ar_version = ''v'', ar_target = None, ar_expected = None, ar_key = ''k'', ar_schema = ''s'',
       ar_input = replicate 64 (CHR ''a''), ar_summary = JObj [], ar_reason = None, ar_artefacts = [],
       ar_provenance = \<lparr>cause_event_id = None, delivery_ids = [], execution_attempt_id = None, node_execution_id = None, prov_scope_execution_id = None\<rparr>,
       ar_evaluation = None, ar_reservation = None, ar_digest = [], ar_started = []\<rparr>, bi_id = None, bi_started = None\<rparr>"

definition log_outcome :: complete_input where
  "log_outcome = \<lparr>co_outcome = \<lparr>ao_id = ''x'', ao_state = Audit_Completed, ao_schema = ''s'', ao_result = None, ao_summary = JObj [], ao_refusal = None,
     ao_changed = [], ao_target = None, ao_prior = None, ao_resulting = None, ao_artefacts = [], ao_completed = []\<rparr>, co_completed = None\<rparr>"

definition log_begun :: "(audit_error, audit_request \<times> audit_db) result" where
  "log_begun = beginAudit log_js ''1'' ''x'' log_input empty_audit"

lemma log_begins:
  obtains r db where "beginAudit log_js ''1'' ''x'' log_input empty_audit = Inr (r, db)" "ar_digest r = ''1''" "ar_invocation r = ''i''" "ar_id r = ''x''"
    "json_digest log_js (requestDigestContent (r\<lparr>ar_started := ''2''\<rparr>)) = ''2''" "\<exists>out db'. completeAudit log_js ''2'' log_outcome db = Inr (out, db')"
    "getAudit db ''x'' = Some \<lparr>au_request = r, au_outcome = None\<rparr>"
proof -
  have run: "case log_begun of Inl _ \<Rightarrow> False | Inr (r, db) \<Rightarrow> ar_digest r = ''1'' \<and> ar_invocation r = ''i'' \<and> ar_id r = ''x''
      \<and> json_digest log_js (requestDigestContent (r\<lparr>ar_started := ''2''\<rparr>)) = ''2'' \<and> \<not> isl (completeAudit log_js ''2'' log_outcome db)
      \<and> map_option ar_id (map_option au_request (getAudit db ''x'')) = Some ''x'' \<and> ad_outcomes db = []"
    by code_simp
  show thesis
  proof (cases log_begun)
    case (Inr p)
    obtain r db where p: "p = (r, db)" by (cases p)
    then have begun: "beginAudit log_js ''1'' ''x'' log_input empty_audit = Inr (r, db)" using Inr by (simp add: log_begun_def)
    then have "ad_requests db = [r]" by (cases rule: beginAudit_cases) (auto simp: empty_audit_def getAuditByInvocation_def)
    moreover have "ar_id r = ''x''" "ad_outcomes db = []" using run by (simp_all add: Inr p)
    ultimately have got: "getAudit db ''x'' = Some \<lparr>au_request = r, au_outcome = None\<rparr>" by (simp add: getAudit_def audit_of_def getOutcome_def)
    have "\<exists>out db'. completeAudit log_js ''2'' log_outcome db = Inr (out, db')" using run by (cases "completeAudit log_js ''2'' log_outcome db") (auto simp: Inr p)
    with begun got run show thesis by (intro that [of r db]) (simp_all add: Inr p)
  next
    case (Inl e)
    then show thesis using run by (simp add: Inl)
  qed
qed

section \<open>Properties\<close>

text \<open>
  C32: the audit log is permanent evidence. What was recorded of an invocation is found later, by its
  audit and by its invocation, with the same request and, once there is one, the same outcome; and every
  stored digest is still that of the record it stands with.
\<close>

theorem audit_evidence_permanent:
  assumes "(audit_step js)\<^sup>*\<^sup>* empty_audit db" and "(audit_step js)\<^sup>*\<^sup>* db db'" and "getAudit db i = Some a"
  shows "\<exists>a'. getAudit db' i = Some a' \<and> getAuditByInvocation db' (ar_invocation (au_request a)) = Some a' \<and> au_request a' = au_request a
      \<and> (au_outcome a \<noteq> None \<longrightarrow> au_outcome a' = au_outcome a)
      \<and> ar_digest (au_request a') = json_digest js (requestDigestContent (au_request a'))
      \<and> (\<forall>w \<in> set (ad_outcomes db'). ow_digest w = json_digest js (outcome_json (ow_outcome w)))"
proof -
  have inv: "audit_inv js db" "audit_inv js db'" using assms(1,2) audit_reachable_inv audit_run_inv by blast+
  have grows: "set (ad_requests db) \<subseteq> set (ad_requests db')" "set (ad_outcomes db) \<subseteq> set (ad_outcomes db')"
    using audit_run_grows [OF assms(2) inv(1)] by simp_all
  have a: "au_request a \<in> set (ad_requests db)" "ar_id (au_request a) = i" "a = audit_of db (au_request a)" using getAudit_SomeD [OF assms(3)] by simp_all
  let ?a = "audit_of db' (au_request a)"
  have mem: "au_request a \<in> set (ad_requests db')" using a(1) grows(1) by blast
  note found = audit_lookups [OF inv(2) mem, unfolded a(2)]
  have "au_outcome ?a = au_outcome a" if some: "au_outcome a \<noteq> None"
  proof -
    obtain out where out: "au_outcome a = Some out" using some by blast
    then have "getOutcome db i = Some out" using a(2,3) by (simp add: audit_of_def) (metis audit_record.select_convs(2) a(3))
    then have "getOutcome db' i = Some out" using grows(2) unfolding getOutcome_iff [OF inv(1)] getOutcome_iff [OF inv(2)] by blast
    then show ?thesis using out a(2) by (simp add: audit_of_def)
  qed
  moreover have "ar_digest (au_request a) = json_digest js (requestDigestContent (au_request a))"
    using inv(2) mem by (simp add: audit_inv_def sound_request_def)
  moreover have "\<forall>w \<in> set (ad_outcomes db'). ow_digest w = json_digest js (outcome_json (ow_outcome w))"
    using inv(2) by (simp add: audit_inv_def sound_outcome_def)
  ultimately show ?thesis using found by (intro exI [of _ ?a]) (simp add: audit_of_def)
qed

theorem audit_evidence_permanent_witness:
  "\<exists>r db out db'. beginAudit log_js ''1'' ''x'' log_input empty_audit = Inr (r, db) \<and> completeAudit log_js ''2'' log_outcome db = Inr (out, db')
     \<and> (\<exists>a. getAudit db' ''x'' = Some a \<and> getAuditByInvocation db' ''i'' = Some a \<and> au_request a = r)"
proof -
  obtain r db where run: "beginAudit log_js ''1'' ''x'' log_input empty_audit = Inr (r, db)" "ar_invocation r = ''i''"
      "\<exists>out db'. completeAudit log_js ''2'' log_outcome db = Inr (out, db')" "getAudit db ''x'' = Some \<lparr>au_request = r, au_outcome = None\<rparr>"
    by (rule log_begins)
  then obtain out db' where out: "completeAudit log_js ''2'' log_outcome db = Inr (out, db')" by blast
  have "(audit_step log_js)\<^sup>*\<^sup>* empty_audit db" "(audit_step log_js)\<^sup>*\<^sup>* db db'"
    using audit_step.starts [OF run(1)] audit_step.completes [OF out] by blast+
  from audit_evidence_permanent [OF this run(4)] run(1,2) out show ?thesis by auto
qed

lemma normalizeRequest_stamped:
  assumes "normalizeRequest js x = Inr n" and "audit_text i ''audit_id'' = Inr j" and "audit_time js t ''started_at'' = Inr u"
  shows "normalizeRequest js (x\<lparr>ar_id := i, ar_started := t\<rparr>) = Inr (n\<lparr>ar_id := j, ar_started := u\<rparr>)"
  using assms unfolding normalizeRequest_def [of js x]
  by (elim rbind_InrE throw_if_InrE) (drule sum.inject(2) [THEN iffD1], hypsubst, simp add: normalizeRequest_def)

definition recorded_differently :: string where
  "recorded_differently = ''the invocation was already recorded with a different request''"

text \<open>
  C33: a request is replayed only at the instant it was recorded. Beginning the audit of the same
  invocation again with the same input answers with the retained record when the input carries its start
  time; when it does not, the digest includes the present time, and the repetition is refused as a
  different request unless the digests of the two instants agree.
\<close>

theorem audit_replay_exact:
  assumes "(audit_step js)\<^sup>*\<^sup>* empty_audit db" and "getAuditByInvocation db (ar_invocation r) = None"
    and "beginAudit js now fresh inp db = Inr (r, db')" and "(audit_step js)\<^sup>*\<^sup>* db' later"
    and "\<not> is_blank fresh'" and "\<not> is_blank now'" and "date_parse js (js_trim now') \<noteq> None"
  shows "beginAudit js now' fresh' inp later =
     (if bi_started inp \<noteq> None \<or> json_digest js (requestDigestContent (r\<lparr>ar_started := js_trim now'\<rparr>)) = ar_digest r then Inr (r, later)
      else Inl (Audit_Conflict (ar_invocation r) recorded_differently))"
proof -
  from assms(3) obtain n where n: "normalizeRequest js (stamp_request now fresh inp) = Inr n" "r = n\<lparr>ar_digest := json_digest js (requestDigestContent n)\<rparr>"
      "db' = db\<lparr>ad_requests := ad_requests db @ [r]\<rparr>"
    by (cases rule: beginAudit_cases) (use assms(2) in auto)
  have inv: "audit_inv js db" using assms(1) by (rule audit_reachable_inv)
  have "audit_step js db db'" using assms(3) by (rule audit_step.starts)
  then have inv': "audit_inv js db'" using inv by (blast intro: audit_extends_inv audit_step_extends)
  then have later: "audit_inv js later" "r \<in> set (ad_requests later)"
    using audit_run_inv [OF assms(4)] audit_run_grows [OF assms(4)] n(3) by auto
  define u where "u = (case bi_started inp of None \<Rightarrow> js_trim now' | Some t \<Rightarrow> js_trim t)"
  obtain j where again: "normalizeRequest js (stamp_request now' fresh' inp) = Inr (n\<lparr>ar_id := j, ar_started := u\<rparr>)"
  proof -
    let ?i = "case bi_id inp of None \<Rightarrow> fresh' | Some i \<Rightarrow> i" and ?t = "case bi_started inp of None \<Rightarrow> now' | Some t \<Rightarrow> t"
    have stamp: "stamp_request now' fresh' inp = (stamp_request now fresh inp)\<lparr>ar_id := ?i, ar_started := ?t\<rparr>" by (simp add: stamp_request_def)
    have parts: "audit_text (case bi_id inp of None \<Rightarrow> fresh | Some i \<Rightarrow> i) ''audit_id'' = Inr (ar_id n)"
        "audit_time js (case bi_started inp of None \<Rightarrow> now | Some t \<Rightarrow> t) ''started_at'' = Inr (ar_started n)"
      using n(1) unfolding normalizeRequest_def by (elim rbind_InrE throw_if_InrE; simp add: stamp_request_def; auto)+
    have "audit_time js ?t ''started_at'' = Inr u"
      using parts(2) assms(6,7) by (auto simp: u_def audit_time_def result_simps split: option.splits if_splits)
    moreover have "audit_text ?i ''audit_id'' = Inr (js_trim ?i)" using parts(1) assms(5) by (auto simp: result_simps split: option.splits)
    ultimately show thesis using that normalizeRequest_stamped [OF n(1)] stamp by metis
  qed
  have content: "requestDigestContent (n\<lparr>ar_id := j, ar_started := u\<rparr>) = requestDigestContent (r\<lparr>ar_started := u\<rparr>)"
    by (simp add: requestDigestContent_def n(2))
  have same: "r\<lparr>ar_started := u\<rparr> = r" if "bi_started inp \<noteq> None"
  proof -
    from that obtain t where t: "bi_started inp = Some t" by blast
    then have "ar_started n = js_trim t"
      using n(1) unfolding normalizeRequest_def by (elim rbind_InrE throw_if_InrE) (auto simp: stamp_request_def audit_time_def result_simps split: if_splits)
    then show ?thesis using t by (simp add: u_def n(2))
  qed
  have digest: "ar_digest r = json_digest js (requestDigestContent r)" using later by (simp add: audit_inv_def sound_request_def)
  let ?n = "n\<lparr>ar_id := j, ar_started := u\<rparr>"
  have lookup: "getAuditByInvocation later (ar_invocation (?n\<lparr>ar_digest := d\<rparr>)) = Some (audit_of later r)" for d
    using audit_lookups(2) [OF later] by (simp add: n(2))
  have "ar_invocation (?n\<lparr>ar_digest := d\<rparr>) = ar_invocation r" for d by (simp add: n(2))
  then have "beginAudit js now' fresh' inp later = throw_if (ar_digest r \<noteq> json_digest js (requestDigestContent (r\<lparr>ar_started := u\<rparr>)))
      (Audit_Conflict (ar_invocation r) recorded_differently) (Inr (r, later))"
    unfolding beginAudit_def again rbind_simps Let_def lookup option.case content recorded_differently_def
    by (simp only: audit_of_def audit_record.select_convs)
  moreover have "u = js_trim now'" if "bi_started inp = None" using that by (simp add: u_def)
  moreover have "json_digest js (requestDigestContent (r\<lparr>ar_started := u\<rparr>)) = ar_digest r" if "bi_started inp \<noteq> None"
    unfolding same [OF that] by (rule digest [symmetric])
  ultimately show ?thesis unfolding throw_if_def by metis
qed

theorem audit_replay_exact_witness:
  "\<exists>r db. beginAudit log_js ''1'' ''x'' log_input empty_audit = Inr (r, db) \<and> beginAudit log_js ''2'' ''y'' log_input db = Inl (Audit_Conflict ''i'' recorded_differently)"
proof -
  obtain r db where run: "beginAudit log_js ''1'' ''x'' log_input empty_audit = Inr (r, db)" "ar_digest r = ''1''" "ar_invocation r = ''i''"
      "json_digest log_js (requestDigestContent (r\<lparr>ar_started := ''2''\<rparr>)) = ''2''"
    by (rule log_begins)
  have none: "getAuditByInvocation empty_audit (ar_invocation r) = None" by (simp add: getAuditByInvocation_def empty_audit_def)
  have texts: "\<not> is_blank ''y''" "\<not> is_blank ''2''" "date_parse log_js (js_trim ''2'') \<noteq> None" "js_trim ''2'' = ''2''" by code_simp+
  have "bi_started log_input = None" by (simp add: log_input_def)
  with audit_replay_exact [OF rtranclp.rtrancl_refl none run(1) rtranclp.rtrancl_refl texts(1-3)] run show ?thesis by (auto simp: texts(4))
qed

end
