(* ===== verification/Spec2Isabelle.thy ===== *)
theory Spec2Isabelle
  imports Tool_Properties Policy_Properties Budget_Properties Session_Properties Transport_Properties Operation_Settling
    Approval_Properties Composition_Properties Audit_Properties
begin

text \<open>
  A verification of the authority core of the Floe bus (\<^verbatim>\<open>floe-bus/src\<close>): who may do what, under which
  policy and budget, proved by which credential, how an operation is invoked once, and how the plan of a
  Scope is drafted, published and simulated.

  \<^bold>\<open>The program.\<close> A client or an Actor presents a bearer token. \<^verbatim>\<open>transport-credentials.ts\<close> tells which
  process speaks; \<^verbatim>\<open>operation-authority-sessions.ts\<close> turns a session token into the authority of a
  principal, which \<^verbatim>\<open>capability-grants.ts\<close> derives from durable grants and their delegations.
  \<^verbatim>\<open>operations.ts\<close> runs a semantic operation under that authority, reserving the invocation in the
  ledger of \<^verbatim>\<open>operation-invocation-ledger-sqlite.ts\<close>; governance evaluates the policies of \<^verbatim>\<open>policies.ts\<close>,
  asks for the approvals of \<^verbatim>\<open>approvals.ts\<close>, reserves and settles the budgets of \<^verbatim>\<open>budgets.ts\<close> and records
  the invocation in the log of \<^verbatim>\<open>audit.ts\<close>. Calls of engine tools are judged by
  \<^verbatim>\<open>tool-policy.ts\<close> over the facts of \<^verbatim>\<open>tool-policy-facts.ts\<close> and the paths of \<^verbatim>\<open>workspace-paths.ts\<close>.
  The Scopes of a Workspace (\<^verbatim>\<open>scopes/store.ts\<close>) each point to one published revision of their composition,
  a plan of nodes, ports and edges that \<^verbatim>\<open>scope-compositions.ts\<close> keeps and executions follow.

  \<^bold>\<open>The theories.\<close>

    \<^item> \<open>Floe_Prelude\<close>: results (\<^typ>\<open>'e + 'a\<close> with \<^const>\<open>rbind\<close> and \<^const>\<open>throw_if\<close>), tables as lists of rows,
      JavaScript's stable sort with its comparator contracts as locales, strings, and the platform.
      \<open>Graph_Search\<close> models recursive SQL queries, \<open>Js_Calendar\<close> dates, \<open>Js_Numbers\<close> the rounding of
      doubles, \<open>Canonical_Json\<close> digests,
      \<open>Normal_Forms\<close> shared normalisations and \<open>Simulation\<close> the contract of a refinement.
    \<^item> \<open>Capability_Grants\<close>: the grant store, one function per method. \<open>Grant_Invariants\<close>, \<open>Grant_Steps\<close>,
      \<open>Grant_Delegation\<close>, \<open>Grant_Chains\<close>, \<open>Grant_Authority\<close> and \<open>Grant_Expiry\<close> hold its invariant and the
      meaning of a chain of delegations; \<open>Grant_Properties\<close>, \<open>Grant_Sessions\<close> and \<open>Host_Policies\<close> its properties.
    \<^item> \<open>Workspace_Paths\<close>, \<open>Tool_Policy\<close> and \<open>Tool_Properties\<close>: what a tool call may touch.
    \<^item> \<open>Policies\<close>, \<open>Policy_Store\<close> and \<open>Policy_Evaluation\<close>: content, revisions, bindings and evaluation;
      \<open>Policy_Normal\<close>, \<open>Policy_Invariants\<close> and \<open>Policy_Properties\<close> the proofs.
    \<^item> \<open>Budgets\<close>: reservations, usage and calendar windows; \<open>Budget_Ledger\<close> refines them to an abstract
      ledger of reservation states; \<open>Budget_Properties\<close>.
    \<^item> \<open>Authority_Sessions\<close> with \<open>Session_Properties\<close>, and \<open>Transport_Credentials\<close> with \<open>Transport_Properties\<close>.
    \<^item> \<open>Operations\<close>: contracts, receipts and the registry. \<open>Operation_Invocations\<close>: \<^verbatim>\<open>invoke\<close> and \<^verbatim>\<open>project\<close>.
      \<open>Invocation_Ledger\<close>: the ledger contract, a locale that both ledgers of the code interpret.
      \<open>Operation_Runs\<close>: many runs interleaved at every \<^verbatim>\<open>await\<close>, and one run on its own.
      \<open>Operation_Properties\<close> and \<open>Operation_Settling\<close> the proofs.
    \<^item> \<open>Approvals\<close>, \<open>Approval_Decisions\<close> and \<open>Approval_Store\<close>: \<^verbatim>\<open>approvals.ts\<close>, its normal forms, the counting of
      decisions and one function per method. \<open>Approval_Changes\<close> and \<open>Approval_Invariants\<close>: what an operation
      changes and what every operation keeps; \<open>Approval_Safety\<close>: the refinement to tokens;
      \<open>Approval_Run\<close> a worked run and \<open>Approval_Properties\<close> the properties.
    \<^item> \<open>Audit_Store\<close> and \<open>Audit_Properties\<close>: the append-only log of \<^verbatim>\<open>audit.ts\<close> and its permanence.
    \<^item> \<open>Scope_Directory\<close>: the table of Scopes. \<open>Scope_Compositions\<close>: the content of a composition and its
      validation. \<open>Scope_Plans\<close>: digest, comparison and simulation. \<open>Composition_Store\<close>: one function per method
      of \<^verbatim>\<open>ScopeCompositionStore\<close>. \<open>Breadth_First\<close> is the generic invariant of a breadth-first search that
      \<open>Plan_Search\<close> applies to the simulation; \<open>Composition_Content\<close> and \<open>Composition_Invariants\<close> hold what storing
      does to a content and what every operation keeps; \<open>Composition_Run\<close> and \<open>Composition_Drafts\<close> a worked run;
      \<open>Plan_Properties\<close> and \<open>Composition_Properties\<close> the properties.

  \<^bold>\<open>How the code is modelled.\<close> A store is a record of tables and a method is a function from its input and
  the state to an error or a result with the new state, so a savepoint is all or nothing by construction.
  Each reading of the clock and each generated identifier or token is an argument. A JSON column is the
  value it encodes. Callbacks such as \<^verbatim>\<open>on_revoked\<close> are lists of notices in the state. An asynchronous
  method is the tree of the calls it makes, with \<^const>\<open>None\<close> or \<^const>\<open>False\<close> for a call that throws.
  A step relation (grants, policies, budgets, sessions, credentials, approvals, audit, compositions, the bus) gives the reachable
  states. Recursion over delegations follows the code's memo and path; it terminates because a path never
  repeats a grant, and the queue of a simulation because each round expands a new Port or shortens the queue,
  so no fuel is used anywhere.

  \<^bold>\<open>What the lemmas show.\<close> A session can do exactly what the live, undelegated roots of its grants allow, and
  revoking any of them is felt at once down the chain; delegation only narrows, and never outlives its
  source in operations, targets and time, although it can drop a whole kind of tool limit. Tool calls are
  allowed exactly by the documented rules. A policy evaluation denies, asks or allows exactly by its
  matching rules and the denial reason it is given, and published revisions never change. A reservation
  passes the test of each of its limits in double arithmetic, which is an exact bound for integer
  amounts; reservations settle once and refine the abstract ledger. A token verifies exactly for its own live row,
  and revocation is final. An operation's handler runs at most once per key and resumption under every
  interleaving, and every admitted invocation settles its receipt unless one of three unguarded calls
  (the schema validator, resolving a resource, settling a refusal) throws. A request for approval is decided exactly by its recorded
  votes, its receipt is spent at most as often as it allows, and withdrawal is final. The audit log is
  only extended. Validation
  of a composition is decided exactly, a simulation visits exactly what is reachable, at its distance;
  published revisions are immutable and the pointer of a Scope moves by compare and swap. The theorems that
  show a defect state it for the code as it is.

  \<^bold>\<open>Assumptions.\<close> The record \<^typ>\<open>platform\<close> holds what the language leaves open: \<^verbatim>\<open>Date.parse\<close>, \<^verbatim>\<open>localeCompare\<close>,
  \<^verbatim>\<open>toISOString\<close>, SHA-256, the text of a number and time zones. Theorems that need a law of it (a comparator
  is a total preorder, a zone has a fixed offset) say so. An amount is the rational a finite double stands
  for; JavaScript sums of amounts are rounded to doubles, and the sum of rows that SQLite forms is the
  argument \<open>sql_sum\<close>, of which only the exact bound assumes that it adds integers exactly. Texts
  are Latin-1, with lengths counted in characters. The range limit of
  \<^verbatim>\<open>Date\<close> is not modelled. A metric is not named \<^verbatim>\<open>__proto__\<close>. Counts and
  priorities of a composition are integers, and the compiler of the JSON Schema of a Port is an argument.

  \<^bold>\<open>Not modelled.\<close> Schema migrations of the tables, random token and identifier factories, and the reading of
  rows written by earlier versions: they run before or outside the operations. The governance control plane
  is left open behind the calls of an invocation: the facts it evaluates come from stores outside this
  development. The
  wording of error messages is shortened, without the quotation marks and names it puts into the text.
  The event and delivery store, the executions that follow a composition, connectors, artefacts, contexts,
  the HTTP server, the Bridge, the command line and the native helper are outside this development.
\<close>

end
